(* ===== verification/Prelude.thy ===== *)
theory Prelude
  imports Main "HOL-Library.Word" "HOL-Library.AList" "HOL-Library.Monad_Syntax"
begin

section \<open>Shared types, collections and generic lemmas\<close>

text \<open>
  What every component of the development uses: the machine integers and byte strings of
  the Rust code, the association lists that stand for its hash maps, time, and a few lemmas
  on lists and maps that the component proofs share.

  Conventions.  A Rust \<^verbatim>\<open>Option\<close> is \<^verbatim>\<open>option\<close> and its question mark is the bind of
  \<^verbatim>\<open>Monad_Syntax\<close>.  A \<^verbatim>\<open>String\<close> is the list of its UTF-8 bytes, so that lengths count
  bytes as Rust does.  A \<^verbatim>\<open>usize\<close> that only counts things in memory is a natural number.
  An \<^verbatim>\<open>Instant\<close> and a \<^verbatim>\<open>Duration\<close> are natural numbers of nanoseconds.
\<close>

unbundle bit_operations_syntax

type_synonym u8 = "8 word"
type_synonym u16 = "16 word"
type_synonym u32 = "32 word"
type_synonym u64 = "64 word"
type_synonym bytes = "u8 list"

text \<open>Nanoseconds: a point in time, and a length of time.\<close>

type_synonym instant = nat
type_synonym duration = nat

abbreviation millis :: "nat \<Rightarrow> duration" where
  "millis n \<equiv> n * 1000000"

abbreviation secs :: "nat \<Rightarrow> duration" where
  "secs n \<equiv> n * 1000000000"

text \<open>\<^verbatim>\<open>Instant::saturating_duration_since\<close>: zero when the other instant is later.\<close>

definition since :: "instant \<Rightarrow> instant \<Rightarrow> duration" where
  "since now t = now - t"

named_theorems codec \<open>how the encoders and decoders compute\<close>
named_theorems frames \<open>what an operation leaves as it was\<close>

subsection \<open>Hash maps\<close>

text \<open>
  A \<^verbatim>\<open>HashMap\<close> is an association list with distinct keys: \<^verbatim>\<open>map_of\<close> looks a key up,
  \<^verbatim>\<open>AList.update\<close> inserts or replaces, \<^verbatim>\<open>AList.delete\<close> removes and \<^verbatim>\<open>filter\<close> is
  \<^verbatim>\<open>retain\<close>.  The order of the list is the map's iteration order, which Rust leaves open;
  no property below depends on it.
\<close>

type_synonym ('k, 'v) hmap = "('k \<times> 'v) list"

definition hm_keys :: "('k, 'v) hmap \<Rightarrow> 'k list" where
  "hm_keys m = map fst m"

definition hm_ok :: "('k, 'v) hmap \<Rightarrow> bool" where
  "hm_ok m \<longleftrightarrow> distinct (map fst m)"

definition hm_values :: "('k, 'v) hmap \<Rightarrow> 'v list" where
  "hm_values m = map snd m"

text \<open>\<^verbatim>\<open>get_mut\<close> followed by an assignment: changes the value of a key that is present.\<close>

fun hm_adjust :: "'k \<Rightarrow> ('v \<Rightarrow> 'v) \<Rightarrow> ('k, 'v) hmap \<Rightarrow> ('k, 'v) hmap" where
  "hm_adjust k f [] = []"
| "hm_adjust k f ((k', v) # m) =
     (if k = k' then (k', f v) # m else (k', v) # hm_adjust k f m)"

lemma hm_ok_Nil [simp, intro]: "hm_ok []"
  by (simp add: hm_ok_def)

lemma hm_ok_update [intro, simp]: "hm_ok m \<Longrightarrow> hm_ok (AList.update k v m)"
  by (simp add: hm_ok_def distinct_update)

lemma hm_ok_delete [intro, simp]: "hm_ok m \<Longrightarrow> hm_ok (AList.delete k m)"
  by (simp add: hm_ok_def distinct_delete)

lemma hm_ok_filter [intro, simp]: "hm_ok m \<Longrightarrow> hm_ok (filter P m)"
  by (simp add: hm_ok_def distinct_map_filter)

lemma map_fst_adjust [simp]: "map fst (hm_adjust k f m) = map fst m"
  by (induction k f m rule: hm_adjust.induct) auto

lemma hm_ok_adjust [simp]: "hm_ok (hm_adjust k f m) = hm_ok m"
  by (simp add: hm_ok_def)

lemma length_adjust [simp]: "length (hm_adjust k f m) = length m"
  by (induction k f m rule: hm_adjust.induct) auto

lemma map_of_adjust [simp]:
  "map_of (hm_adjust k f m) k' =
     (if k' = k then map_option f (map_of m k) else map_of m k')"
  by (induction k f m rule: hm_adjust.induct) auto

lemma hm_lookup_iff: "hm_ok m \<Longrightarrow> map_of m k = Some v \<longleftrightarrow> (k, v) \<in> set m"
  by (simp add: hm_ok_def)

lemma map_of_filter_hm:
  "hm_ok m \<Longrightarrow> map_of (filter P m) k =
     (case map_of m k of None \<Rightarrow> None | Some v \<Rightarrow> if P (k, v) then Some v else None)"
  by (induction m)
    (auto simp: hm_ok_def image_iff split: option.splits dest: map_of_SomeD)

lemma map_of_map_snd:
  "map_of (map (\<lambda>(k, v). (k, f k v)) m) k = map_option (f k) (map_of m k)"
  by (induction m) auto

lemma map_fst_map_snd [simp]:
  "map fst (map (\<lambda>(k, v). (k, f k v)) m) = map fst m"
  by (induction m) auto

lemma map_of_update [simp]:
  "map_of (AList.update k v m) k' = (if k' = k then Some v else map_of m k')"
  by (simp add: update_conv)

lemma map_of_delete [simp]:
  "map_of (AList.delete k m) k' = (if k' = k then None else map_of m k')"
  by (simp add: delete_conv)

lemma length_update_le:
  "length (AList.update k v m) \<le> Suc (length m)"
  by (induction m) auto

lemma length_update_new:
  "map_of m k = None \<Longrightarrow> length (AList.update k v m) = Suc (length m)"
  by (induction m) (auto split: if_splits)

lemma length_update_old:
  "map_of m k = Some u \<Longrightarrow> length (AList.update k v m) = length m"
  by (induction m) (auto split: if_splits)

lemma length_delete_present:
  "hm_ok m \<Longrightarrow> map_of m k = Some v \<Longrightarrow> Suc (length (AList.delete k m)) = length m"
proof (induction m)
  case (Cons p m)
  obtain k' v' where p: "p = (k', v')" by (cases p)
  show ?case
  proof (cases "k = k'")
    case True
    with Cons.prems(1) p have "map_of m k = None"
      by (auto simp: hm_ok_def map_of_eq_None_iff)
    then have "AList.delete k m = m"
      by (induction m) (auto split: if_splits)
    with True p show ?thesis by simp
  next
    case False
    with Cons p show ?thesis by (auto simp: hm_ok_def)
  qed
qed simp

lemma length_delete_le: "length (AList.delete k m) \<le> length m"
  by (induction m) auto

subsection \<open>Lists\<close>

text \<open>\<^verbatim>\<open>slice.get(..n)\<close>: the first \<open>n\<close> elements, if there are that many.\<close>

definition get_prefix :: "nat \<Rightarrow> 'a list \<Rightarrow> 'a list option" where
  "get_prefix n xs = (if n \<le> length xs then Some (take n xs) else None)"

text \<open>\<^verbatim>\<open>Iterator::min_by_key\<close>: the first of the least elements.\<close>

fun min_by_key :: "('a \<Rightarrow> 'b::linorder) \<Rightarrow> 'a list \<Rightarrow> 'a option" where
  "min_by_key f [] = None"
| "min_by_key f (x # xs) =
     (case min_by_key f xs of None \<Rightarrow> Some x | Some y \<Rightarrow> if f y < f x then Some y else Some x)"

lemma min_by_key_None [simp]: "min_by_key f xs = None \<longleftrightarrow> xs = []"
  by (cases xs) (auto split: option.splits)

lemma min_by_key_Some:
  "min_by_key f xs = Some y \<Longrightarrow> y \<in> set xs \<and> (\<forall>x \<in> set xs. f y \<le> f x)"
proof (induction xs arbitrary: y)
  case (Cons x xs)
  show ?case
  proof (cases "min_by_key f xs")
    case None
    with Cons.prems show ?thesis by simp
  next
    case (Some z)
    with Cons.prems Cons.IH [OF Some] show ?thesis
      by (force split: if_splits)
  qed
qed simp

text \<open>\<^verbatim>\<open>iter().map(f).collect::<Option<Vec<_>>>()\<close>: all of the results, or none.\<close>

fun collect_opt :: "'a option list \<Rightarrow> 'a list option" where
  "collect_opt [] = Some []"
| "collect_opt (None # xs) = None"
| "collect_opt (Some x # xs) = map_option ((#) x) (collect_opt xs)"

lemma collect_opt_map_Some [simp]: "collect_opt (map Some xs) = Some xs"
  by (induction xs) auto

lemma collect_opt_Some: "collect_opt xs = Some ys \<longleftrightarrow> xs = map Some ys"
  by (induction xs arbitrary: ys rule: collect_opt.induct) auto

text \<open>\<^verbatim>\<open>vec.resize(n, x)\<close>: cut to length \<open>n\<close>, or padded with \<open>x\<close> up to it.\<close>

definition resize :: "nat \<Rightarrow> 'a \<Rightarrow> 'a list \<Rightarrow> 'a list" where
  "resize n x xs = take n xs @ replicate (n - length xs) x"

lemma length_resize [simp]: "length (resize n x xs) = n"
  by (simp add: resize_def)

lemma resize_id: "length xs = n \<Longrightarrow> resize n x xs = xs"
  by (simp add: resize_def)

lemma resize_idem: "n \<le> m \<or> length xs \<le> m \<Longrightarrow> resize n x (resize m x xs) = resize n x xs"
  by (auto simp: resize_def min_def replicate_add [symmetric] take_replicate)

subsection \<open>Panics and machines\<close>

text \<open>A call that may panic.\<close>

datatype 'a outcome = Panic | Return 'a

text \<open>
  A machine is a step function that may panic; a run stops at the first panic.  An invariant
  of the steps holds after every run.
\<close>

fun run_machine :: "('s \<Rightarrow> 'e \<Rightarrow> 's outcome) \<Rightarrow> 's \<Rightarrow> 'e list \<Rightarrow> 's outcome" where
  "run_machine step s [] = Return s"
| "run_machine step s (e # es) =
     (case step s e of Panic \<Rightarrow> Panic | Return s' \<Rightarrow> run_machine step s' es)"

locale machine =
  fixes step :: "'s \<Rightarrow> 'e \<Rightarrow> 's outcome"
    and good :: "'s \<Rightarrow> bool"
  assumes step_good: "good s \<Longrightarrow> step s e = Return s' \<Longrightarrow> good s'"
begin

lemma run_good: "good s \<Longrightarrow> run_machine step s es = Return s' \<Longrightarrow> good s'"
proof (induction es arbitrary: s)
  case (Cons e es)
  then show ?case by (auto split: outcome.splits dest: step_good)
qed simp

lemma run_append:
  "run_machine step s (es @ fs) =
     (case run_machine step s es of Panic \<Rightarrow> Panic | Return s' \<Rightarrow> run_machine step s' fs)"
  by (induction es arbitrary: s) (auto split: outcome.splits)

end

subsection \<open>Words\<close>

lemma u8_bound: "unat (w :: u8) < 256"
  using unsigned_less [of w, where ?'a = nat] by simp

lemma u16_bound: "unat (w :: u16) < 65536"
  using unsigned_less [of w, where ?'a = nat] by simp

lemma u32_bound: "unat (w :: u32) < 4294967296"
  using unsigned_less [of w, where ?'a = nat] by simp

lemmas word_bounds = u8_bound u16_bound u32_bound

end
