(* ===== verification/Bytes.thy ===== *)
theory Bytes
  imports Prelude
begin

section \<open>Bytes: big-endian integers, hexadecimal text\<close>

text \<open>
  Big-endian words as the wire formats write them (\<^verbatim>\<open>to_be_bytes\<close> and
  \<^verbatim>\<open>from_be_bytes\<close> of the standard library), the two interfaces that every encoder of the
  development satisfies, and \<^verbatim>\<open>hex\<close> and \<^verbatim>\<open>unhex\<close> of vtop-wire/src/lib.rs.
\<close>

subsection \<open>Interfaces of encoders\<close>

text \<open>
  A message format: \<open>dec\<close> reads back what \<open>enc\<close> wrote, for the values in \<open>ok\<close> that the
  format can carry.
\<close>

locale message_format =
  fixes enc :: "'a \<Rightarrow> bytes"
    and dec :: "bytes \<Rightarrow> 'a option"
    and ok :: "'a \<Rightarrow> bool"
  assumes dec_enc: "ok x \<Longrightarrow> dec (enc x) = Some x"
begin

lemma enc_injective:
  assumes "ok x" and "ok y" and eq: "enc x = enc y"
  shows "x = y"
proof -
  have "Some x = dec (enc x)" by (simp only: dec_enc [OF assms(1)])
  also have "\<dots> = dec (enc y)" by (simp only: eq)
  also have "\<dots> = Some y" by (rule dec_enc [OF assms(2)])
  finally show ?thesis by simp
qed

lemma dec_surjective: "ok x \<Longrightarrow> \<exists>b. dec b = Some x"
  using dec_enc by blast

end

text \<open>
  A field of a format: reading it takes exactly the bytes that writing it put there and leaves
  what follows.  Unlike a message, a field is delimited by itself.
\<close>

locale field_format =
  fixes put :: "'a \<Rightarrow> bytes"
    and get :: "bytes \<Rightarrow> ('a \<times> bytes) option"
    and ok :: "'a \<Rightarrow> bool"
  assumes get_put: "ok x \<Longrightarrow> get (put x @ rest) = Some (x, rest)"
begin

lemma put_prefix_free:
  assumes "ok x" and "ok y" and eq: "put x @ r = put y @ s"
  shows "x = y \<and> r = s"
proof -
  have "Some (x, r) = get (put x @ r)" by (simp only: get_put [OF assms(1)])
  also have "\<dots> = get (put y @ s)" by (simp only: eq)
  also have "\<dots> = Some (y, s)" by (rule get_put [OF assms(2)])
  finally show ?thesis by simp
qed

end

text \<open>A field read to the end of the input is a message.\<close>

sublocale field_format \<subseteq> whole: message_format put
  "\<lambda>b. case get b of Some (x, []) \<Rightarrow> Some x | _ \<Rightarrow> None" ok
  using get_put [where rest = "[]"] by unfold_locales simp

subsection \<open>Big-endian words\<close>

fun to_be :: "nat \<Rightarrow> 'a::len word \<Rightarrow> bytes" where
  "to_be 0 w = []"
| "to_be (Suc n) w = to_be n (drop_bit 8 w) @ [ucast w]"

definition be16 :: "u16 \<Rightarrow> bytes" where "be16 w = to_be 2 w"
definition be32 :: "u32 \<Rightarrow> bytes" where "be32 w = to_be 4 w"
definition be64 :: "u64 \<Rightarrow> bytes" where "be64 w = to_be 8 w"

definition from_be :: "bytes \<Rightarrow> 'a::len word" where
  "from_be bs = foldl (\<lambda>acc b. push_bit 8 acc OR ucast b) 0 bs"

lemma length_to_be [simp]: "length (to_be n w) = n"
  by (induction n arbitrary: w) auto

lemma length_be [simp]: "length (be16 w) = 2" "length (be32 v) = 4" "length (be64 u) = 8"
  by (simp_all add: be16_def be32_def be64_def)

lemma from_be_Nil [simp]: "from_be [] = 0"
  by (simp add: from_be_def)

lemma from_be_snoc: "from_be (b @ [x]) = push_bit 8 (from_be b) OR ucast x"
  by (simp add: from_be_def)

lemma from_be_to_be: "(from_be (to_be n w) :: 'a::len word) = take_bit (8 * n) w"
proof (induction n arbitrary: w)
  case 0
  then show ?case by simp
next
  case (Suc n)
  have "from_be (to_be (Suc n) w) = push_bit 8 (take_bit (8 * n) (drop_bit 8 w)) OR ucast (ucast w :: u8)"
    by (simp add: from_be_snoc Suc.IH)
  also have "\<dots> = take_bit (8 * Suc n) w"
    by (rule bit_word_eqI) (auto simp: bit_simps)
  finally show ?case .
qed

lemma take_bit_word_id: "LENGTH('a) \<le> n \<Longrightarrow> take_bit n (w :: 'a::len word) = w"
  by (rule bit_word_eqI) (auto simp: bit_simps)

lemma from_be16 [simp, codec]: "from_be (be16 w) = w"
  by (simp add: be16_def from_be_to_be take_bit_word_id)

lemma from_be32 [simp, codec]: "from_be (be32 w) = w"
  by (simp add: be32_def from_be_to_be take_bit_word_id)

lemma from_be64 [simp, codec]: "from_be (be64 w) = w"
  by (simp add: be64_def from_be_to_be take_bit_word_id)

lemma bit_from_be_bound: "bit (from_be b :: 'a::len word) i \<Longrightarrow> i < 8 * length b"
proof (induction b arbitrary: i rule: rev_induct)
  case (snoc x b)
  from snoc.prems consider "8 \<le> i" "bit (from_be b :: 'a word) (i - 8)" | "bit x i"
    by (auto simp: from_be_snoc bit_simps)
  then show ?case
  proof cases
    case 1
    with snoc.IH [of "i - 8"] show ?thesis by simp
  next
    case 2
    then have "i < 8" by (auto dest: bit_imp_le_length)
    then show ?thesis by simp
  qed
qed simp

lemma to_be_from_be:
  "8 * length b \<le> LENGTH('a) \<Longrightarrow> to_be (length b) (from_be b :: 'a::len word) = b"
proof (induction b rule: rev_induct)
  case (snoc x b)
  have "drop_bit 8 (from_be (b @ [x]) :: 'a word) = from_be b"
    by (rule bit_word_eqI, use snoc.prems in
        \<open>auto simp: from_be_snoc bit_simps dest: bit_imp_le_length bit_from_be_bound\<close>)
  moreover have "ucast (from_be (b @ [x]) :: 'a word) = x"
    by (rule bit_word_eqI, use snoc.prems in \<open>auto simp: from_be_snoc bit_simps\<close>)
  ultimately show ?case
    using snoc by simp
qed simp

lemma be16_from_be: "length b = 2 \<Longrightarrow> be16 (from_be b) = b"
  using to_be_from_be [of b, where 'a = 16] by (simp add: be16_def)

lemma be32_from_be: "length b = 4 \<Longrightarrow> be32 (from_be b) = b"
  using to_be_from_be [of b, where 'a = 32] by (simp add: be32_def)

lemma be64_from_be: "length b = 8 \<Longrightarrow> be64 (from_be b) = b"
  using to_be_from_be [of b, where 'a = 64] by (simp add: be64_def)

text \<open>Fixed-width reads at the front of the input, as the decoders do them.\<close>

definition get16 :: "bytes \<Rightarrow> (u16 \<times> bytes) option" where
  "get16 b = (if 2 \<le> length b then Some (from_be (take 2 b), drop 2 b) else None)"

definition get32 :: "bytes \<Rightarrow> (u32 \<times> bytes) option" where
  "get32 b = (if 4 \<le> length b then Some (from_be (take 4 b), drop 4 b) else None)"

definition get64 :: "bytes \<Rightarrow> (u64 \<times> bytes) option" where
  "get64 b = (if 8 \<le> length b then Some (from_be (take 8 b), drop 8 b) else None)"

interpretation field16: field_format be16 get16 "\<lambda>_. True"
  by unfold_locales (simp add: get16_def)

interpretation field32: field_format be32 get32 "\<lambda>_. True"
  by unfold_locales (simp add: get32_def)

interpretation field64: field_format be64 get64 "\<lambda>_. True"
  by unfold_locales (simp add: get64_def)

end
