(* ===== verification/Frame.thy ===== *)
theory Frame
  imports Bytes
begin

section \<open>Packet framing and the replay window (vtop-wire/src/frame.rs)\<close>

text \<open>
  A packet after the handshake is a 9-byte header (type, session id, counter) and the sealed
  plaintext, the header being its associated data.  ChaCha20-Poly1305 is not code of the
  repository: it is the parameter \<open>A\<close> of the operations, and \<open>aead_ok\<close> states what they rely
  on.  The replay window is modelled bit for bit and refines a set of counters.
\<close>

subsection \<open>Packet types and sizes\<close>

definition T_REQ :: u8 where "T_REQ = 0x11"
definition T_DATA :: u8 where "T_DATA = 0x12"
definition T_DONE :: u8 where "T_DONE = 0x13"
definition T_WORKING :: u8 where "T_WORKING = 0x14"
definition T_HS1 :: u8 where "T_HS1 = 0x15"
definition T_HS2 :: u8 where "T_HS2 = 0x16"
definition T_RESET :: u8 where "T_RESET = 0x17"
definition T_WRONG_KEY :: u8 where "T_WRONG_KEY = 0x18"

definition RESET_TOKEN :: nat where "RESET_TOKEN = 16"
definition HEADER :: nat where "HEADER = 9"
definition TAG :: nat where "TAG = 16"
definition IP_UDP :: nat where "IP_UDP = 28"

lemmas packet_types = T_REQ_def T_DATA_def T_DONE_def T_WORKING_def T_HS1_def T_HS2_def
  T_RESET_def T_WRONG_KEY_def

lemmas sizes = RESET_TOKEN_def HEADER_def TAG_def IP_UDP_def

subsection \<open>The cipher, a parameter\<close>

text \<open>
  \<open>ae_enc A key nonce aad msg\<close> and its inverse.  \<open>aead_ok\<close> is the documented contract:
  decryption with the same key, nonce and associated data undoes encryption, and the result is
  the message and a 16-byte tag.  \<open>aead_strict\<close> says that nothing else decrypts: the tag of a
  ciphertext is determined by the other inputs.
\<close>

record aead =
  ae_enc :: "bytes \<Rightarrow> bytes \<Rightarrow> bytes \<Rightarrow> bytes \<Rightarrow> bytes"
  ae_dec :: "bytes \<Rightarrow> bytes \<Rightarrow> bytes \<Rightarrow> bytes \<Rightarrow> bytes option"

definition aead_ok :: "aead \<Rightarrow> bool" where
  "aead_ok A \<longleftrightarrow> (\<forall>k n a m. ae_dec A k n a (ae_enc A k n a m) = Some m \<and>
     length (ae_enc A k n a m) = length m + TAG)"

definition aead_strict :: "aead \<Rightarrow> bool" where
  "aead_strict A \<longleftrightarrow> (\<forall>k n a c m. ae_dec A k n a c = Some m \<longrightarrow> c = ae_enc A k n a m)"

lemma aead_okD [simp]:
  "aead_ok A \<Longrightarrow> ae_dec A k n a (ae_enc A k n a m) = Some m"
  "aead_ok A \<Longrightarrow> length (ae_enc A k n a m) = length m + TAG"
  by (simp_all add: aead_ok_def)

lemma aead_strictD: "aead_strict A \<Longrightarrow> ae_dec A k n a c = Some m \<Longrightarrow> c = ae_enc A k n a m"
  by (simp add: aead_strict_def)

subsection \<open>Sealing and opening\<close>

record Keys =
  k_send :: bytes
  k_recv :: bytes

record Opened =
  o_ptype :: u8
  o_sid :: u32
  o_ctr :: u32
  o_plain :: bytes

definition nonce :: "u32 \<Rightarrow> bytes" where
  "nonce ctr = replicate 4 0 @ rev (be32 ctr) @ replicate 4 0"

definition header :: "bytes \<Rightarrow> (u8 \<times> u32 \<times> u32) option" where
  "header packet =
     (if length packet < HEADER + TAG then None
      else Some (packet ! 0, from_be (take 4 (drop 1 packet)), from_be (take 4 (drop 5 packet))))"

definition seal :: "aead \<Rightarrow> Keys \<Rightarrow> u8 \<Rightarrow> u32 \<Rightarrow> u32 \<Rightarrow> bytes \<Rightarrow> bytes" where
  "seal A K ptype sid ctr plain =
     (let packet = ptype # be32 sid @ be32 ctr
      in packet @ ae_enc A (k_send K) (nonce ctr) packet plain)"

definition open_packet :: "aead \<Rightarrow> Keys \<Rightarrow> bytes \<Rightarrow> Opened option" where
  "open_packet A K packet =
     do { (ptype, sid, ctr) \<leftarrow> header packet;
          plain \<leftarrow> ae_dec A (k_recv K) (nonce ctr) (take HEADER packet) (drop HEADER packet);
          Some \<lparr>o_ptype = ptype, o_sid = sid, o_ctr = ctr, o_plain = plain\<rparr> }"

text \<open>
  The token that proves a reset: a tag under a key derived from the gateway's static key, so
  that the gateway can make it again after a restart.
\<close>

definition ascii :: "string \<Rightarrow> bytes" where
  "ascii s = map (\<lambda>c. of_nat (of_char c)) s"

definition reset_token :: "aead \<Rightarrow> bytes \<Rightarrow> u32 \<Rightarrow> bytes" where
  "reset_token A gateway_key sid =
     (let derived = ae_enc A gateway_key (ascii ''vtop-reset-1'') [] (replicate 32 0);
          n = be32 sid @ ascii ''reset-id''
      in ae_enc A (take 32 derived) n [] [])"

lemma length_seal [simp]:
  "aead_ok A \<Longrightarrow> length (seal A K ptype sid ctr plain) = HEADER + length plain + TAG"
  by (simp add: seal_def Let_def sizes)

lemma header_seal [simp]:
  "aead_ok A \<Longrightarrow> header (seal A K ptype sid ctr plain) = Some (ptype, sid, ctr)"
  by (simp add: header_def) (simp add: seal_def Let_def sizes)

lemma header_Some_length: "header p = Some h \<Longrightarrow> 25 \<le> length p"
  by (auto simp: header_def sizes split: if_splits)

lemma length_reset_token [simp]: "aead_ok A \<Longrightarrow> length (reset_token A k sid) = RESET_TOKEN"
  by (simp add: reset_token_def Let_def sizes)

text \<open>What one end seals with its sending key, the other opens with the same receiving key.\<close>

lemma open_seal:
  "aead_ok A \<Longrightarrow> k_recv R = k_send S \<Longrightarrow>
     open_packet A R (seal A S ptype sid ctr plain) =
       Some \<lparr>o_ptype = ptype, o_sid = sid, o_ctr = ctr, o_plain = plain\<rparr>"
  by (simp add: open_packet_def) (simp add: seal_def Let_def sizes)

text \<open>Only a packet that was sealed opens, and then as what was sealed.\<close>

lemma header_split:
  assumes "header p = Some (t, sid, ctr)"
  shows "take HEADER p = t # be32 sid @ be32 ctr"
proof -
  from assms have len: "25 \<le> length p" and t: "t = p ! 0"
    and sid: "sid = from_be (take 4 (drop 1 p))" and ctr: "ctr = from_be (take 4 (drop 5 p))"
    by (auto simp: header_def sizes split: if_splits)
  obtain a b c d e f g h i r where p: "p = a # b # c # d # e # f # g # h # i # r"
    using len by (auto simp: Suc_le_length_iff numeral_eq_Suc)
  show ?thesis
    unfolding t sid ctr p by (simp add: sizes be32_from_be numeral_eq_Suc)
qed

lemma open_only_sealed:
  assumes strict: "aead_strict A" and opened: "open_packet A R p = Some o'"
    and keys: "k_recv R = k_send S"
  shows "p = seal A S (o_ptype o') (o_sid o') (o_ctr o') (o_plain o')"
proof -
  obtain t sid ctr plain where h: "header p = Some (t, sid, ctr)"
    and d: "ae_dec A (k_recv R) (nonce ctr) (take HEADER p) (drop HEADER p) = Some plain"
    and o': "o' = \<lparr>o_ptype = t, o_sid = sid, o_ctr = ctr, o_plain = plain\<rparr>"
    using opened by (auto simp: open_packet_def bind_eq_Some_conv)
  have "p = take HEADER p @ drop HEADER p" by simp
  also have "drop HEADER p = ae_enc A (k_send S) (nonce ctr) (take HEADER p) plain"
    using aead_strictD [OF strict d] keys by simp
  finally show ?thesis
    unfolding o' seal_def Let_def by (simp add: header_split [OF h])
qed

text \<open>Comparison without an early exit.\<close>

definition same_token :: "bytes \<Rightarrow> bytes \<Rightarrow> bool" where
  "same_token a b \<longleftrightarrow> length a = length b \<and>
     foldl (\<lambda>acc (x, y). acc OR (x XOR y)) 0 (zip a b) = 0"

lemma fold_or_xor_eq_0:
  "foldl (\<lambda>acc (x, y). acc OR (x XOR y)) z (zip a b) = (0 :: u8) \<longleftrightarrow>
     z = 0 \<and> (\<forall>(x, y) \<in> set (zip a b). x = y)"
proof (induction a b arbitrary: z rule: list_induct2')
  case (4 x xs y ys)
  have "z OR (x XOR y) = 0 \<longleftrightarrow> z = 0 \<and> x = y"
    by (auto simp: or_eq_0_iff bit_eq_iff [of "x XOR y"] bit_eq_iff [of x] bit_simps)
  with 4 show ?case by auto
qed auto

lemma zip_all_equal: "length a = length b \<Longrightarrow> (\<forall>(x, y) \<in> set (zip a b). x = y) \<longleftrightarrow> a = b"
  by (induction a b rule: list_induct2) auto

lemma same_token_iff: "same_token a b \<longleftrightarrow> a = b"
  using zip_all_equal [of a b] by (auto simp: same_token_def fold_or_xor_eq_0)

subsection \<open>The replay window\<close>

record ReplayWindow =
  rw_top :: u32
  rw_bits :: u64
  rw_started :: bool

definition new_window :: ReplayWindow where
  "new_window = \<lparr>rw_top = 0, rw_bits = 0, rw_started = False\<rparr>"

definition accept :: "ReplayWindow \<Rightarrow> u32 \<Rightarrow> bool \<times> ReplayWindow" where
  "accept w ctr =
     (if \<not> rw_started w then (True, \<lparr>rw_top = ctr, rw_bits = 1, rw_started = True\<rparr>)
      else if rw_top w < ctr then
        let shift = ctr - rw_top w;
            bits = (if 64 \<le> shift then 0 else push_bit (unat shift) (rw_bits w))
        in (True, w\<lparr>rw_bits := bits OR 1, rw_top := ctr\<rparr>)
      else
        let back = rw_top w - ctr
        in if 64 \<le> back \<or> rw_bits w AND push_bit (unat back) 1 \<noteq> 0 then (False, w)
           else (True, w\<lparr>rw_bits := rw_bits w OR push_bit (unat back) 1\<rparr>))"

text \<open>
  The specification: the set of counters accepted so far.  A counter is accepted when it was
  not accepted before and is less than 64 behind the greatest.
\<close>

definition accept_spec :: "nat set \<Rightarrow> nat \<Rightarrow> bool" where
  "accept_spec S c \<longleftrightarrow> S = {} \<or> c \<notin> S \<and> Max S < c + 64"

definition window_rel :: "ReplayWindow \<Rightarrow> nat set \<Rightarrow> bool" where
  "window_rel w S \<longleftrightarrow> finite S \<and> (rw_started w \<longleftrightarrow> S \<noteq> {}) \<and>
     (S \<noteq> {} \<longrightarrow> unat (rw_top w) = Max S \<and>
        (\<forall>i < 64. bit (rw_bits w) i \<longleftrightarrow> i \<le> Max S \<and> Max S - i \<in> S))"

lemma window_rel_new [simp]: "window_rel new_window {}"
  by (simp add: window_rel_def new_window_def)

lemma and_push_1_ne_0: "w AND 2 ^ i \<noteq> 0 \<longleftrightarrow> bit w i" for w :: u64
  using bit_iff_and_push_bit_not_eq_0 [of w i] by simp

lemma accept_first:
  assumes "window_rel w S" and "S = {}"
  shows "fst (accept w c)" and "window_rel (snd (accept w c)) (insert (unat c) S)"
  using assms by (auto simp: accept_def window_rel_def bit_1_iff)

lemma accept_newer:
  assumes rel: "window_rel w S" and ne: "S \<noteq> {}" and newer: "Max S < unat c"
  shows "fst (accept w c)" and "window_rel (snd (accept w c)) (insert (unat c) S)"
proof -
  from rel ne have fin: "finite S" and st: "rw_started w" and top: "unat (rw_top w) = Max S"
    and bits: "\<And>i. i < 64 \<Longrightarrow> bit (rw_bits w) i \<longleftrightarrow> i \<le> Max S \<and> Max S - i \<in> S"
    by (auto simp: window_rel_def)
  have lt: "rw_top w < c" using newer top by (simp add: word_less_nat_alt)
  let ?s = "unat c - Max S"
  have shift: "unat (c - rw_top w) = ?s" using lt top by (simp add: unat_sub_if' word_less_nat_alt)
  let ?b = "(if 64 \<le> c - rw_top w then 0 else push_bit (unat (c - rw_top w)) (rw_bits w)) OR 1"
  have acc: "accept w c = (True, w\<lparr>rw_bits := ?b, rw_top := c\<rparr>)"
    using st lt by (simp add: accept_def Let_def)
  from acc show "fst (accept w c)" by simp
  have max: "Max (insert (unat c) S) = unat c"
    using newer by (simp only: Max_insert [OF fin ne] max_def) simp
  have above: "x \<in> S \<Longrightarrow> x \<le> Max S" for x using fin by simp
  have "bit ?b i \<longleftrightarrow> i \<le> unat c \<and> unat c - i \<in> insert (unat c) S" if i: "i < 64" for i
  proof (cases "i = 0 \<or> i < ?s")
    case True
    then have "bit ?b i \<longleftrightarrow> i = 0"
      by (auto simp: bit_simps shift)
    moreover have "i \<noteq> 0 \<Longrightarrow> unat c - i \<notin> S"
      using True above [of "unat c - i"] by auto
    ultimately show ?thesis using True newer by auto
  next
    case False
    then have small: "\<not> 64 \<le> c - rw_top w" using i shift by (simp add: word_le_nat_alt)
    then have "bit ?b i \<longleftrightarrow> bit (rw_bits w) (i - ?s)"
      using False i by (auto simp: bit_simps shift)
    also have "\<dots> \<longleftrightarrow> i - ?s \<le> Max S \<and> Max S - (i - ?s) \<in> S"
      using i bits [of "i - ?s"] by simp
    finally show ?thesis
      using False newer by (auto simp: diff_diff_right)
  qed
  then show "window_rel (snd (accept w c)) (insert (unat c) S)"
    using fin st acc max by (simp add: window_rel_def)
qed

lemma accept_older:
  assumes rel: "window_rel w S" and ne: "S \<noteq> {}" and older: "unat c \<le> Max S"
  shows "fst (accept w c) \<longleftrightarrow> accept_spec S (unat c)"
    and "window_rel (snd (accept w c)) (if fst (accept w c) then insert (unat c) S else S)"
proof -
  from rel ne have fin: "finite S" and st: "rw_started w" and top: "unat (rw_top w) = Max S"
    and bits: "\<And>i. i < 64 \<Longrightarrow> bit (rw_bits w) i \<longleftrightarrow> i \<le> Max S \<and> Max S - i \<in> S"
    by (auto simp: window_rel_def)
  have le: "\<not> rw_top w < c" using older top by (simp add: word_less_nat_alt)
  let ?k = "Max S - unat c"
  have behind: "unat (rw_top w - c) = ?k" using le top by (simp add: unat_sub_if' word_less_nat_alt)
  have big: "64 \<le> rw_top w - c \<longleftrightarrow> 64 \<le> ?k" using behind by (simp add: word_le_nat_alt)
  have acc: "accept w c =
      (if 64 \<le> ?k \<or> bit (rw_bits w) ?k then (False, w)
       else (True, w\<lparr>rw_bits := rw_bits w OR push_bit ?k 1\<rparr>))"
    using st le by (simp add: accept_def Let_def big behind and_push_1_ne_0)
  have seen: "?k < 64 \<Longrightarrow> bit (rw_bits w) ?k \<longleftrightarrow> unat c \<in> S"
    using bits [of ?k] older by simp
  show "fst (accept w c) \<longleftrightarrow> accept_spec S (unat c)"
  proof (cases "?k < 64")
    case True
    then have "Max S < unat c + 64" using older by arith
    with True acc seen [OF True] ne show ?thesis by (simp add: accept_spec_def)
  next
    case False
    then have "\<not> Max S < unat c + 64" using older by arith
    with False acc ne show ?thesis by (simp add: accept_spec_def)
  qed
  show "window_rel (snd (accept w c)) (if fst (accept w c) then insert (unat c) S else S)"
  proof (cases "fst (accept w c)")
    case True
    then have k: "?k < 64" and acc': "accept w c = (True, w\<lparr>rw_bits := rw_bits w OR push_bit ?k 1\<rparr>)"
      using acc by (auto split: if_splits)
    have max: "Max (insert (unat c) S) = Max S" using fin ne older by (simp add: max_def)
    have "bit (rw_bits w OR push_bit ?k 1) i \<longleftrightarrow> i \<le> Max S \<and> Max S - i \<in> insert (unat c) S"
      if "i < 64" for i
      using that bits [OF that] older by (auto simp: bit_simps)
    then show ?thesis using True fin st top ne acc' max by (simp add: window_rel_def)
  next
    case False
    then have "snd (accept w c) = w" using acc by (auto split: if_splits)
    with False rel show ?thesis by simp
  qed
qed

text \<open>The bit window refines the set.\<close>

lemma accept_refines:
  assumes "window_rel w S"
  shows "fst (accept w c) \<longleftrightarrow> accept_spec S (unat c)"
    and "window_rel (snd (accept w c)) (if fst (accept w c) then insert (unat c) S else S)"
proof -
  consider "S = {}" | "S \<noteq> {}" "Max S < unat c" | "S \<noteq> {}" "unat c \<le> Max S" by force
  then have "(fst (accept w c) \<longleftrightarrow> accept_spec S (unat c)) \<and>
    window_rel (snd (accept w c)) (if fst (accept w c) then insert (unat c) S else S)"
  proof cases
    case 1
    with accept_first [OF assms] show ?thesis by (simp add: accept_spec_def)
  next
    case 2
    have "unat c \<notin> S" using 2 assms by (auto simp: window_rel_def)
    with accept_newer [OF assms 2] 2 show ?thesis by (simp add: accept_spec_def)
  next
    case 3
    with accept_older [OF assms 3] show ?thesis by simp
  qed
  then show "fst (accept w c) \<longleftrightarrow> accept_spec S (unat c)"
    and "window_rel (snd (accept w c)) (if fst (accept w c) then insert (unat c) S else S)"
    by (rule conjunct1, rule conjunct2)
qed

subsection \<open>Replay filters\<close>

text \<open>
  What a receiver needs of its window, whatever its representation: \<open>rel w S\<close> says that \<open>w\<close>
  stands for the counters in \<open>S\<close>.  A counter that is accepted was not accepted before.
\<close>

fun accepted :: "('w \<Rightarrow> 'c \<Rightarrow> bool \<times> 'w) \<Rightarrow> 'w \<Rightarrow> 'c list \<Rightarrow> 'c list" where
  "accepted acc w [] = []"
| "accepted acc w (c # cs) =
     (let (ok, w') = acc w c in if ok then c # accepted acc w' cs else accepted acc w' cs)"

locale replay_filter =
  fixes acc :: "'w \<Rightarrow> 'c \<Rightarrow> bool \<times> 'w"
    and rel :: "'w \<Rightarrow> 'c set \<Rightarrow> bool"
  assumes acc_fresh: "rel w S \<Longrightarrow> fst (acc w c) \<Longrightarrow> c \<notin> S"
    and acc_rel: "rel w S \<Longrightarrow> rel (snd (acc w c)) (if fst (acc w c) then insert c S else S)"
begin

lemma accepted_once:
  "rel w S \<Longrightarrow> distinct (accepted acc w cs) \<and> set (accepted acc w cs) \<inter> S = {}"
proof (induction cs arbitrary: w S)
  case (Cons c cs)
  obtain ok w' where a: "acc w c = (ok, w')" by (cases "acc w c")
  have "rel w' (if ok then insert c S else S)"
    using acc_rel [OF Cons.prems, of c] a by simp
  from Cons.IH [OF this] show ?case
    using acc_fresh [OF Cons.prems, of c] a by (auto split: if_splits)
qed simp

lemma accepted_never_again:
  assumes "rel w S" and "fst (acc w c)"
  shows "c \<notin> set (accepted acc (snd (acc w c)) cs)"
  using accepted_once [OF acc_rel [OF assms(1), of c]] assms(2) by auto

end

definition window_holds :: "ReplayWindow \<Rightarrow> u32 set \<Rightarrow> bool" where
  "window_holds w S \<longleftrightarrow> window_rel w (unat ` S)"

interpretation window: replay_filter accept window_holds
proof
  fix w c
  fix S :: "u32 set"
  assume rel: "window_holds w S"
  note r = accept_refines [OF rel [unfolded window_holds_def], of c]
  show "fst (accept w c) \<Longrightarrow> c \<notin> S"
    using r(1) by (auto simp: accept_spec_def)
  show "window_holds (snd (accept w c)) (if fst (accept w c) then insert c S else S)"
    using r(2) by (simp add: window_holds_def split: if_splits)
qed

lemma window_holds_new [simp, intro]: "window_holds new_window {}"
  by (simp add: window_holds_def)

end
