(* ===== verification/Msg.thy ===== *)
theory Msg
  imports Frame
begin

section \<open>Plaintext layouts (vtop-wire/src/msg.rs)\<close>

text \<open>
  The two messages inside the frames: a client's request \<open>Req\<close> and one response symbol
  \<open>Data\<close>, each a fixed big-endian header and the rest of the plaintext as its body.
\<close>

definition MAX_REQUEST :: nat where "MAX_REQUEST = 1000"
definition LOSS_UNKNOWN :: u8 where "LOSS_UNKNOWN = 255"
definition DATA_HEADER :: nat where "DATA_HEADER = 9"

record Req =
  rq_req_id :: u16
  rq_round :: u8
  rq_want :: u8
  rq_loss_pct :: u8
  rq_rate :: u16
  rq_rtt_ms :: u16
  rq_last_ctr :: u32
  rq_body :: bytes

definition req_encode :: "Req \<Rightarrow> bytes" where
  "req_encode r = be16 (rq_req_id r) @ [rq_round r, rq_want r, rq_loss_pct r] @
     be16 (rq_rate r) @ be16 (rq_rtt_ms r) @ be32 (rq_last_ctr r) @ rq_body r"

definition req_decode :: "bytes \<Rightarrow> Req option" where
  "req_decode b =
     (if length b < 13 then None
      else Some \<lparr>rq_req_id = from_be [b ! 0, b ! 1], rq_round = b ! 2, rq_want = b ! 3,
                 rq_loss_pct = b ! 4, rq_rate = from_be [b ! 5, b ! 6],
                 rq_rtt_ms = from_be [b ! 7, b ! 8], rq_last_ctr = from_be (take 4 (drop 9 b)),
                 rq_body = drop 13 b\<rparr>)"

record Data =
  d_req_id :: u16
  d_sym :: u8
  d_k :: u8
  d_total :: u16
  d_round :: u8
  d_pos :: u8
  d_len :: u8
  d_bytes :: bytes

definition data_encode :: "Data \<Rightarrow> bytes" where
  "data_encode d = be16 (d_req_id d) @ [d_sym d, d_k d] @ be16 (d_total d) @
     [d_round d, d_pos d, d_len d] @ d_bytes d"

definition data_decode :: "bytes \<Rightarrow> Data option" where
  "data_decode b =
     (if length b < DATA_HEADER then None
      else Some \<lparr>d_req_id = from_be [b ! 0, b ! 1], d_sym = b ! 2, d_k = b ! 3,
                 d_total = from_be [b ! 4, b ! 5], d_round = b ! 6, d_pos = b ! 7,
                 d_len = b ! 8, d_bytes = drop DATA_HEADER b\<rparr>)"

lemma be16_cases: obtains x y where "be16 w = [x, y]" and "from_be [x, y] = w"
proof -
  have "be16 w = [be16 w ! 0, be16 w ! 1]"
    by (rule nth_equalityI) (auto simp: less_Suc_eq numeral_2_eq_2)
  with that show ?thesis by (metis from_be16)
qed

lemma be32_cases: obtains x y z u where "be32 w = [x, y, z, u]" and "from_be [x, y, z, u] = w"
proof -
  have "be32 w = [be32 w ! 0, be32 w ! 1, be32 w ! 2, be32 w ! 3]"
    by (rule nth_equalityI) (auto simp: less_Suc_eq numeral_eq_Suc)
  with that show ?thesis by (metis from_be32)
qed

lemma req_decode_encode: "req_decode (req_encode r) = Some r"
proof -
  obtain a b where 1: "be16 (rq_req_id r) = [a, b]" "from_be [a, b] = rq_req_id r"
    by (rule be16_cases)
  obtain c d where 2: "be16 (rq_rate r) = [c, d]" "from_be [c, d] = rq_rate r"
    by (rule be16_cases)
  obtain e f where 3: "be16 (rq_rtt_ms r) = [e, f]" "from_be [e, f] = rq_rtt_ms r"
    by (rule be16_cases)
  obtain g h i j where 4: "be32 (rq_last_ctr r) = [g, h, i, j]"
      "from_be [g, h, i, j] = rq_last_ctr r"
    by (rule be32_cases)
  show ?thesis
    by (simp add: req_decode_def req_encode_def 1(1) 2(1) 3(1) 4(1) eval_nat_numeral
        del: upt_Suc) (simp add: 1 2 3 4)
qed

lemma data_decode_encode: "data_decode (data_encode d) = Some d"
proof -
  obtain a b where 1: "be16 (d_req_id d) = [a, b]" "from_be [a, b] = d_req_id d"
    by (rule be16_cases)
  obtain c e where 2: "be16 (d_total d) = [c, e]" "from_be [c, e] = d_total d"
    by (rule be16_cases)
  show ?thesis
    by (simp add: data_decode_def data_encode_def DATA_HEADER_def 1(1) 2(1) eval_nat_numeral)
      (simp add: 1 2)
qed

interpretation req: message_format req_encode req_decode "\<lambda>_. True"
  by unfold_locales (rule req_decode_encode)

interpretation data: message_format data_encode data_decode "\<lambda>_. True"
  by unfold_locales (rule data_decode_encode)

lemma length_req_encode [simp]: "length (req_encode r) = 13 + length (rq_body r)"
  by (simp add: req_encode_def)

lemma length_data_encode [simp]: "length (data_encode d) = DATA_HEADER + length (d_bytes d)"
  by (simp add: data_encode_def DATA_HEADER_def)

text \<open>Decoding loses nothing: every plaintext long enough is the encoding of what it decodes to.\<close>

lemma req_encode_decode: "req_decode b = Some r \<Longrightarrow> req_encode r = b"
proof -
  assume "req_decode b = Some r"
  then have len: "13 \<le> length b" and r: "r = the (req_decode b)"
    by (auto simp: req_decode_def split: if_splits)
  obtain x0 x1 x2 x3 x4 x5 x6 x7 x8 y0 y1 y2 y3 rest where
    b: "b = x0 # x1 # x2 # x3 # x4 # x5 # x6 # x7 # x8 # y0 # y1 # y2 # y3 # rest"
    using len by (auto simp: Suc_le_length_iff numeral_eq_Suc)
  show ?thesis
    unfolding r b
    by (simp add: req_decode_def req_encode_def be16_from_be be32_from_be eval_nat_numeral)
qed

end
