(* ===== verification/Fec.thy ===== *)
theory Fec
  imports Msg
begin

section \<open>Reed-Solomon symbols of a response (vtop-wire/src/fec.rs)\<close>

text \<open>
  A response is cut into \<open>k\<close> data symbols of 400 bytes, followed by a pool of repair symbols;
  any \<open>k\<close> distinct ones rebuild it.  The erasure code itself is the crate
  \<^verbatim>\<open>reed-solomon-simd\<close>: it is the parameter \<open>R\<close>, and \<open>rs_ok\<close> states its documented contract
  for the shards of one response.
\<close>

definition SYMBOL :: nat where "SYMBOL = 400"
definition MAX_K :: nat where "MAX_K = 100"
definition MAX_RESPONSE :: nat where "MAX_RESPONSE = SYMBOL * MAX_K"

text \<open>The wire size of a full data packet (an \<^verbatim>\<open>f64\<close> constant of integral value).\<close>

definition DATA_WIRE :: nat where
  "DATA_WIRE = IP_UDP + HEADER + DATA_HEADER + SYMBOL + TAG"

lemmas fec_sizes = SYMBOL_def MAX_K_def MAX_RESPONSE_def

subsection \<open>Shape of a response\<close>

definition div_ceil :: "nat \<Rightarrow> nat \<Rightarrow> nat" where
  "div_ceil a b = (a + b - 1) div b"

text \<open>
  Data symbols and their size.  Clearing the lowest bit is rounding down to an even number.
\<close>

definition shape :: "nat \<Rightarrow> nat \<times> nat" where
  "shape len =
     (let k = max (div_ceil len SYMBOL) 1;
          size = (if k = 1 then (max len 2 + 1) div 2 * 2 else SYMBOL)
      in (k, size))"

text \<open>
  \<^verbatim>\<open>clamp\<close> panics when its bounds cross, which is for \<open>k > 251\<close>; \<open>shape_k_u16\<close> below shows
  that no length a packet can carry comes near it.
\<close>

definition repair_pool :: "nat \<Rightarrow> nat" where
  "repair_pool k = min (max (3 * k) 4) (255 - k)"

lemma shape_k_pos: "1 \<le> fst (shape len)"
  by (simp add: shape_def Let_def)

lemma shape_size_even: "even (snd (shape len))" and shape_size_pos: "2 \<le> snd (shape len)"
  by (auto simp: shape_def Let_def SYMBOL_def)

lemma shape_k_max: "len \<le> MAX_RESPONSE \<Longrightarrow> fst (shape len) \<le> MAX_K"
  by (auto simp: shape_def Let_def div_ceil_def fec_sizes)

lemma shape_k_u16: "len < 2 ^ 16 \<Longrightarrow> fst (shape len) \<le> 164"
  by (auto simp: shape_def Let_def div_ceil_def SYMBOL_def)

lemma shape_covers: "len \<le> fst (shape len) * snd (shape len)"
proof (cases "len \<le> SYMBOL")
  case True
  then have "div_ceil len SYMBOL \<le> 1" by (simp add: div_ceil_def SYMBOL_def)
  then show ?thesis by (auto simp: shape_def Let_def max_def)
next
  case False
  then show ?thesis
    by (auto simp: shape_def Let_def max_def div_ceil_def SYMBOL_def)
qed

lemma repair_pool_bounds:
  "k \<le> 251 \<Longrightarrow> 4 \<le> repair_pool k \<and> k + repair_pool k \<le> 255"
  by (auto simp: repair_pool_def)

subsection \<open>Chunks\<close>

text \<open>\<^verbatim>\<open>slice.chunks(n)\<close>, for \<open>n > 0\<close>.\<close>

function chunks :: "nat \<Rightarrow> 'a list \<Rightarrow> 'a list list" where
  "chunks n [] = []"
| "chunks n (x # xs) = (x # take (n - 1) xs) # chunks n (drop (n - 1) xs)"
  by pat_completeness auto
termination
  by (relation "measure (\<lambda>(n, xs). length xs)") auto

lemma concat_chunks [simp]: "concat (chunks n xs) = xs"
  by (induction n xs rule: chunks.induct) auto

lemma chunks_nonempty: "c \<in> set (chunks n xs) \<Longrightarrow> c \<noteq> []"
  by (induction n xs rule: chunks.induct) auto

lemma chunks_le: "0 < n \<Longrightarrow> c \<in> set (chunks n xs) \<Longrightarrow> length c \<le> n"
  by (induction n xs rule: chunks.induct) auto

lemma length_chunks: "0 < n \<Longrightarrow> length (chunks n xs) = div_ceil (length xs) n"
proof (induction n xs rule: chunks.induct)
  case (1 n)
  then show ?case by (simp add: div_ceil_def)
next
  case (2 n x xs)
  then show ?case
    by (cases "length xs < n") (auto simp: div_ceil_def div_if le_Suc_eq
        Suc_diff_Suc Suc_diff_le intro!: arg_cong [where f = "\<lambda>i. i div n"])
qed

lemma chunks_full:
  "0 < n \<Longrightarrow> Suc i < length (chunks n xs) \<Longrightarrow> length (chunks n xs ! i) = n"
proof (induction n xs arbitrary: i rule: chunks.induct)
  case (2 n x xs)
  show ?case
  proof (cases i)
    case 0
    with 2 have "chunks n (drop (n - 1) xs) \<noteq> []" by auto
    then have "drop (n - 1) xs \<noteq> []" by auto
    with 0 2 show ?thesis by simp
  next
    case (Suc j)
    with 2 show ?thesis by simp
  qed
qed simp

subsection \<open>The erasure code, a parameter\<close>

text \<open>
  \<open>rs_encode k m shards\<close> makes \<open>m\<close> repair shards; \<open>rs_decode k m originals recovery\<close> gives
  back the originals that were not handed in, by index.  The contract of the crate for one set
  of shards: encoding succeeds, and whenever at least \<open>k\<close> of the \<open>k + m\<close> shards are handed
  in, decoding yields exactly the missing originals.
\<close>

record rs_code =
  rs_encode :: "nat \<Rightarrow> nat \<Rightarrow> bytes list \<Rightarrow> bytes list option"
  rs_decode :: "nat \<Rightarrow> nat \<Rightarrow> (nat \<times> bytes) list \<Rightarrow> (nat \<times> bytes) list \<Rightarrow> (nat \<times> bytes) list option"

definition shards_of :: "bytes list \<Rightarrow> (nat \<times> bytes) list \<Rightarrow> bool" where
  "shards_of xs ps \<longleftrightarrow> distinct (map fst ps) \<and> (\<forall>(i, d) \<in> set ps. i < length xs \<and> d = xs ! i)"

definition rs_ok :: "rs_code \<Rightarrow> nat \<Rightarrow> nat \<Rightarrow> bytes list \<Rightarrow> bool" where
  "rs_ok R k m shards \<longleftrightarrow> (\<exists>rec. rs_encode R k m shards = Some rec \<and> length rec = m \<and>
     (\<forall>r \<in> set rec. length r = length (shards ! 0)) \<and>
     (\<forall>orig recv. shards_of shards orig \<longrightarrow> shards_of rec recv \<longrightarrow>
        k \<le> length orig + length recv \<longrightarrow>
        (\<exists>res. rs_decode R k m orig recv = Some res \<and> shards_of shards res \<and>
           (\<forall>i < k. i \<notin> fst ` set orig \<longrightarrow> i \<in> fst ` set res))))"

subsection \<open>Encoding and decoding a response\<close>

definition data_symbols :: "bytes \<Rightarrow> bytes list" where
  "data_symbols body = (if body = [] then [[]] else chunks SYMBOL body)"

definition padded_symbols :: "bytes \<Rightarrow> bytes list" where
  "padded_symbols body = map (resize (snd (shape (length body))) 0) (data_symbols body)"

text \<open>The data symbols and the repair pool; \<open>None\<close> is the panic of \<^verbatim>\<open>expect\<close>.\<close>

definition fec_encode :: "rs_code \<Rightarrow> bytes \<Rightarrow> (bytes list \<times> bytes list) option" where
  "fec_encode R body =
     (let k = fst (shape (length body));
          data = data_symbols body;
          padded = padded_symbols body
      in do { repair \<leftarrow> rs_encode R k (repair_pool k) padded;
              Some (if k = 1 then data[0 := padded ! 0] else data, repair) })"

definition fec_decode :: "rs_code \<Rightarrow> nat \<Rightarrow> (u8, bytes) hmap \<Rightarrow> bytes option" where
  "fec_decode R len symbols =
     (let (k, size) = shape len;
          data = map (\<lambda>i. map_option (resize size 0) (map_of symbols (of_nat i))) [0..<k]
      in do {
        data' \<leftarrow>
          (if \<exists>d \<in> set data. d = None then
             let originals = List.map_filter (\<lambda>i. map_option (Pair i) (data ! i)) [0..<k];
                 recovery = map (\<lambda>(s, b). (unat s - k, b))
                   (filter (\<lambda>(s, b). k \<le> unat s \<and> length b = size) symbols)
             in do {
               restored \<leftarrow> rs_decode R k (repair_pool k) originals recovery;
               Some (foldl (\<lambda>ds (i, d). ds[i := Some d]) data restored) }
           else Some data);
        parts \<leftarrow> collect_opt data';
        Some (take len (concat parts)) })"

lemma length_data_symbols [simp]: "length (data_symbols body) = fst (shape (length body))"
proof (cases "body = []")
  case True
  then show ?thesis by (simp add: data_symbols_def shape_def Let_def div_ceil_def SYMBOL_def)
next
  case False
  then have "1 \<le> div_ceil (length body) SYMBOL"
    by (cases body) (auto simp: div_ceil_def SYMBOL_def)
  with False show ?thesis
    by (simp add: data_symbols_def length_chunks shape_def Let_def SYMBOL_def max_absorb1)
qed

lemma length_padded_symbols [simp]: "length (padded_symbols body) = fst (shape (length body))"
  by (simp add: padded_symbols_def)

text \<open>Every symbol but the last is full, so padding only touches the last one.\<close>

lemma concat_padded:
  assumes "\<And>i. Suc i < length cs \<Longrightarrow> length (cs ! i) = n" and "cs \<noteq> []"
    and "length (last cs) \<le> n"
  shows "take (length (concat cs)) (concat (map (resize n x) cs)) = concat cs"
  using assms
proof (induction cs)
  case (Cons c cs)
  show ?case
  proof (cases "cs = []")
    case True
    with Cons.prems show ?thesis by (simp add: resize_def)
  next
    case False
    have "length c = n" using Cons.prems(1) [of 0] False by simp
    moreover have "take (length (concat cs)) (concat (map (resize n x) cs)) = concat cs"
    proof (rule Cons.IH [OF _ False])
      show "Suc i < length cs \<Longrightarrow> length (cs ! i) = n" for i
        using Cons.prems(1) [of "Suc i"] by simp
    qed (use Cons.prems(3) False in simp)
    ultimately show ?thesis by (simp add: resize_id)
  qed
qed simp

lemma take_concat_padded_symbols:
  "take (length body) (concat (padded_symbols body)) = body"
proof (cases "length body \<le> SYMBOL")
  case True
  then have k: "fst (shape (length body)) = 1"
    by (auto simp: shape_def Let_def div_ceil_def SYMBOL_def)
  have size: "length body \<le> snd (shape (length body))"
    using shape_covers [of "length body"] k by simp
  have "data_symbols body = [body]"
  proof (cases body)
    case (Cons x xs)
    with True show ?thesis by (simp add: data_symbols_def SYMBOL_def)
  qed (simp add: data_symbols_def)
  then show ?thesis using size by (simp add: padded_symbols_def resize_def)
next
  case False
  then have size: "snd (shape (length body)) = SYMBOL" and ne: "body \<noteq> []"
    by (auto simp: shape_def Let_def div_ceil_def SYMBOL_def)
  have "chunks SYMBOL body \<noteq> []" using ne by (cases body) auto
  moreover from this have "length (last (chunks SYMBOL body)) \<le> SYMBOL"
    by (intro chunks_le [of SYMBOL _ body] last_in_set) (simp_all add: SYMBOL_def)
  ultimately have "take (length (concat (chunks SYMBOL body)))
      (concat (map (resize SYMBOL 0) (chunks SYMBOL body))) = concat (chunks SYMBOL body)"
    by (intro concat_padded) (auto simp: SYMBOL_def chunks_full)
  with size ne show ?thesis by (simp add: padded_symbols_def data_symbols_def)
qed

text \<open>
  \<open>genuine data repair symbols\<close>: each received symbol is one that was sent, under its index.
\<close>

definition genuine :: "bytes list \<Rightarrow> bytes list \<Rightarrow> (u8, bytes) hmap \<Rightarrow> bool" where
  "genuine data repair symbols \<longleftrightarrow> hm_ok symbols \<and>
     (\<forall>(s, b) \<in> set symbols.
        unat s < length data \<and> b = data ! unat s \<or>
        length data \<le> unat s \<and> unat s - length data < length repair \<and>
          b = repair ! (unat s - length data))"

lemma foldl_restore:
  assumes "shards_of P res" and "length D = length P"
  shows "length (foldl (\<lambda>ds (i, d). ds[i := Some d]) D res) = length D \<and>
     (\<forall>i < length P. foldl (\<lambda>ds (i, d). ds[i := Some d]) D res ! i =
        (if i \<in> fst ` set res then Some (P ! i) else D ! i))"
  using assms
proof (induction res arbitrary: D)
  case (Cons r res)
  obtain j d where r: "r = (j, d)" by (cases r)
  have *: "shards_of P res" "length (D[j := Some d]) = length P"
    using Cons.prems by (auto simp: shards_of_def)
  have "j \<notin> fst ` set res" "d = P ! j" "j < length P"
    using Cons.prems r by (auto simp: shards_of_def)
  then show ?case
    using Cons.IH [OF *] r Cons.prems(2) by (auto simp: nth_list_update)
qed simp

lemma padded_of_data:
  assumes "fec_encode R body = Some (data, repair)"
  shows "length data = fst (shape (length body))"
    and "i < length data \<Longrightarrow> resize (snd (shape (length body))) 0 (data ! i) = padded_symbols body ! i"
proof -
  let ?k = "fst (shape (length body))" and ?size = "snd (shape (length body))"
  from assms have d: "data = (if ?k = 1 then (data_symbols body)[0 := padded_symbols body ! 0]
      else data_symbols body)"
    by (auto simp: fec_encode_def Let_def bind_eq_Some_conv)
  show len: "length data = ?k" unfolding d by simp
  show "i < length data \<Longrightarrow> resize ?size 0 (data ! i) = padded_symbols body ! i"
    using len unfolding d by (cases "?k = 1") (auto simp: padded_symbols_def resize_id)
qed

lemma map_filter_index_shards:
  "shards_of P (List.map_filter (\<lambda>i. map_option (Pair i) (D ! i)) [0..<k])
     \<longleftrightarrow> (\<forall>i < k. \<forall>d. D ! i = Some d \<longrightarrow> i < length P \<and> d = P ! i)"
    (is ?A)
  and map_filter_index_dom: "fst ` set (List.map_filter (\<lambda>i. map_option (Pair i) (D ! i)) [0..<k]) =
     {i. i < k \<and> D ! i \<noteq> None}" (is ?B)
  and map_filter_index_distinct: "distinct (map fst (List.map_filter (\<lambda>i. map_option (Pair i) (D ! i)) [0..<k]))" (is ?C)
proof -
  let ?o = "List.map_filter (\<lambda>i. map_option (Pair i) (D ! i)) [0..<k]"
  have o: "map fst ?o = filter (\<lambda>i. D ! i \<noteq> None) [0..<k]"
    by (auto simp: List.map_filter_def comp_def intro!: map_idI)
  show ?C unfolding o by simp
  have "fst ` set ?o = set (map fst ?o)" by simp
  also have "\<dots> = {i. i < k \<and> D ! i \<noteq> None}" unfolding o by auto
  finally show ?B .
  show ?A unfolding shards_of_def o by (force simp: List.map_filter_def)
qed

text \<open>The number of shards handed to the decoder is the number of symbols received.\<close>

lemma count_shards:
  fixes symbols :: "(u8, 'b) hmap"
  assumes sym: "hm_ok symbols" and k: "k \<le> 255"
  shows "length (filter (\<lambda>(s, b). unat s < k) symbols) =
     card {i. i < k \<and> map_of symbols (of_nat i) \<noteq> None}"
proof -
  let ?f = "filter (\<lambda>(s, b). unat (s :: u8) < k) symbols"
  have "length ?f = card (fst ` set ?f)"
    using sym by (metis (no_types) distinct_card distinct_map_filter hm_ok_def length_map set_map)
  also have "\<dots> = card (unat ` fst ` set ?f)"
    by (rule card_image [symmetric]) (auto intro!: inj_onI simp: word_unat_eq_iff)
  also have "unat ` fst ` set ?f = {i. i < k \<and> map_of symbols (of_nat i) \<noteq> None}"
  proof (intro equalityI subsetI)
    fix i
    assume "i \<in> unat ` fst ` set ?f"
    then show "i \<in> {i. i < k \<and> map_of symbols (of_nat i) \<noteq> None}"
      by (force simp: map_of_eq_None_iff)
  next
    fix i
    assume i: "i \<in> {i. i < k \<and> map_of symbols (of_nat i) \<noteq> None}"
    then have "unat (of_nat i :: u8) = i" using k by (simp add: unat_of_nat)
    moreover obtain b where "(of_nat i, b) \<in> set symbols"
      using i by (auto dest: map_of_SomeD)
    ultimately show "i \<in> unat ` fst ` set ?f"
      using i by (force simp: image_iff)
  qed
  finally show ?thesis .
qed

lemma fec_decode_recovers:
  assumes rs: "rs_ok R (fst (shape (length body))) (repair_pool (fst (shape (length body))))
      (padded_symbols body)"
    and enc: "fec_encode R body = Some (data, repair)"
    and fits: "length body < 2 ^ 16"
    and gen: "genuine data repair symbols"
    and enough: "fst (shape (length body)) \<le> length symbols"
  shows "fec_decode R (length body) symbols = Some body"
proof -
  define k where "k = fst (shape (length body))"
  define size where "size = snd (shape (length body))"
  define P where "P = padded_symbols body"
  define D where "D = map (\<lambda>i. map_option (resize size 0) (map_of symbols (of_nat i))) [0..<k]"
  define orig where "orig = List.map_filter (\<lambda>i. map_option (Pair i) (D ! i)) [0..<k]"
  define recv where "recv = map (\<lambda>(s, b). (unat s - k, b))
      (filter (\<lambda>(s, b). k \<le> unat s \<and> length b = size) symbols)"
  have k255: "k \<le> 164" unfolding k_def by (rule shape_k_u16 [OF fits])
  have kpos: "1 \<le> k" unfolding k_def by (rule shape_k_pos)
  have lenP: "length P = k" by (simp add: P_def k_def)
  have lenD: "length D = k" by (simp add: D_def)
  have ld: "length data = k" and pad: "\<And>i. i < k \<Longrightarrow> resize size 0 (data ! i) = P ! i"
    using padded_of_data [OF enc] by (simp_all add: k_def size_def P_def)
  have ok: "hm_ok symbols" using gen by (simp add: genuine_def)
  have D: "D ! i = None \<or> D ! i = Some (P ! i)" if i: "i < k" for i
  proof (cases "map_of symbols (of_nat i)")
    case None
    with i show ?thesis by (simp add: D_def)
  next
    case (Some b)
    then have "(of_nat i, b) \<in> set symbols" by (rule map_of_SomeD)
    moreover have "unat (of_nat i :: u8) = i" using i k255 by (simp add: unat_of_nat)
    ultimately have "b = data ! i" using gen i ld by (force simp: genuine_def)
    with Some i pad show ?thesis by (simp add: D_def)
  qed
  obtain rec where rec: "rs_encode R k (repair_pool k) P = Some rec"
    and rec_len: "\<forall>r \<in> set rec. length r = length (P ! 0)"
    and mds: "\<And>orig recv. shards_of P orig \<Longrightarrow> shards_of rec recv \<Longrightarrow>
        k \<le> length orig + length recv \<Longrightarrow>
        \<exists>res. rs_decode R k (repair_pool k) orig recv = Some res \<and> shards_of P res \<and>
           (\<forall>i < k. i \<notin> fst ` set orig \<longrightarrow> i \<in> fst ` set res)"
    using rs unfolding rs_ok_def k_def P_def by blast
  have repair: "repair = rec"
    using enc rec by (auto simp: fec_encode_def Let_def k_def P_def bind_eq_Some_conv)
  have sizes: "length r = size" if "r \<in> set repair" for r
  proof -
    have "length (P ! 0) = size"
      using lenP kpos by (simp add: P_def padded_symbols_def k_def size_def)
    with rec_len that repair show ?thesis by simp
  qed
  have recv: "recv = map (\<lambda>(s, b). (unat s - k, b)) (filter (\<lambda>(s, b). \<not> unat s < k) symbols)"
    unfolding recv_def using gen ld sizes
    by (intro arg_cong2 [where f = map] refl filter_cong)
      (force simp: genuine_def intro: nth_mem)+
  have so: "shards_of P orig"
    unfolding orig_def map_filter_index_shards using D lenP by force
  have sr: "shards_of rec recv"
  proof -
    have "distinct symbols" and inj: "inj_on fst (set symbols)"
      using ok by (auto simp: hm_ok_def distinct_map)
    moreover have "inj_on (\<lambda>x. unat (fst x) - k) (set (filter (\<lambda>(s, b). \<not> unat s < k) symbols))"
    proof (rule inj_onI)
      fix x y
      assume x: "x \<in> set (filter (\<lambda>(s, b). \<not> unat s < k) symbols)"
        and y: "y \<in> set (filter (\<lambda>(s, b). \<not> unat s < k) symbols)"
        and eq: "unat (fst x) - k = unat (fst y) - k"
      then have "fst x = fst y" by (auto simp: word_unat_eq_iff)
      then show "x = y" using inj x y by (auto dest: inj_onD)
    qed
    ultimately have "distinct (map fst recv)"
      unfolding recv by (simp add: distinct_map comp_def split_def)
    then show ?thesis
      using gen ld unfolding recv shards_of_def repair [symmetric]
      by (force simp: genuine_def)
  qed
  have "length orig = card (set (map fst orig))"
    unfolding orig_def using distinct_card [OF map_filter_index_distinct [of D k]] by simp
  also have "\<dots> = card {i. i < k \<and> D ! i \<noteq> None}"
    unfolding orig_def by (simp add: map_filter_index_dom del: not_None_eq)
  also have "\<dots> = card {i. i < k \<and> map_of symbols (of_nat i) \<noteq> None}"
    by (rule arg_cong [where f = card]) (auto simp: D_def)
  also have "\<dots> = length (filter (\<lambda>(s, b). unat s < k) symbols)"
    using count_shards [OF ok, of k] k255 by simp
  finally have count: "length orig + length recv = length symbols"
    using sum_length_filter_compl [of "\<lambda>(s, b). unat s < k" symbols]
    unfolding recv by (simp add: split_def)
  have sh: "shape (length body) = (k, size)" by (simp add: k_def size_def)
  have dec: "fec_decode R (length body) symbols =
      do { D' \<leftarrow> (if \<exists>d \<in> set D. d = None then
             do { res \<leftarrow> rs_decode R k (repair_pool k) orig recv;
                  Some (foldl (\<lambda>ds (i, d). ds[i := Some d]) D res) } else Some D);
           parts \<leftarrow> collect_opt D';
           Some (take (length body) (concat parts)) }"
    unfolding fec_decode_def sh Let_def case_prod_conv D_def [symmetric]
      orig_def [symmetric] recv_def [symmetric] ..
  show ?thesis
  proof (cases "\<exists>d \<in> set D. d = None")
    case True
    obtain res where res: "rs_decode R k (repair_pool k) orig recv = Some res"
      and sres: "shards_of P res" and cover: "\<And>i. i < k \<Longrightarrow> i \<notin> fst ` set orig \<Longrightarrow> i \<in> fst ` set res"
      using mds [OF so sr] enough count k_def by auto
    have "foldl (\<lambda>ds (i, d). ds[i := Some d]) D res = map Some P"
    proof (rule nth_equalityI)
      show "length (foldl (\<lambda>ds (i, d). ds[i := Some d]) D res) = length (map Some P)"
        using foldl_restore [OF sres] lenD lenP by simp
      fix i
      assume "i < length (foldl (\<lambda>ds (i, d). ds[i := Some d]) D res)"
      then have i: "i < k" using foldl_restore [OF sres] lenD lenP by simp
      moreover have "i \<notin> fst ` set res \<Longrightarrow> D ! i = Some (P ! i)"
        using cover [OF i] D [OF i] map_filter_index_dom [of D k] i unfolding orig_def by auto
      ultimately show "foldl (\<lambda>ds (i, d). ds[i := Some d]) D res ! i = map Some P ! i"
        using foldl_restore [OF sres] lenD lenP by simp
    qed
    with True res show ?thesis
      unfolding dec by (simp add: P_def take_concat_padded_symbols)
  next
    case False
    have "D = map Some P"
      using False D lenD lenP by (intro nth_equalityI) (auto, metis nth_mem)
    with False show ?thesis
      unfolding dec by (simp add: P_def take_concat_padded_symbols)
  qed
qed

end
