(* ===== verification/F64.thy ===== *)
theory F64
  imports Prelude Complex_Main "HOL-Library.Log_Nat"
begin

section \<open>The floating-point numbers of the code\<close>

text \<open>
  Rust's \<^verbatim>\<open>f64\<close>: a finite value is a rational, every operation computes exactly and rounds
  once, to the nearest binary64 number, ties to even (\<open>fl\<close>).  Overflow gives an infinity and
  the undefined operations a NaN.  Negative zero is identified with zero: no code modelled
  here divides by a zero or prints one.
\<close>

datatype f64 = Fin rat | PInf | NInf | NaN

subsection \<open>Rounding\<close>

text \<open>The exponent of a positive rational: \<open>2 powi ilog2 x \<le> x < 2 powi (ilog2 x + 1)\<close>.\<close>

definition ilog2 :: "rat \<Rightarrow> int" where
  "ilog2 x = (let (n, d) = quotient_of x; e = bitlen n - bitlen d
              in if 2 powi e \<le> x then e else e - 1)"

text \<open>The nearest integer, ties to even.\<close>

definition rne :: "rat \<Rightarrow> int" where
  "rne x = (let f = \<lfloor>x\<rfloor>; d = x - of_int f
            in if d < 1 / 2 then f else if 1 / 2 < d then f + 1
               else if even f then f else f + 1)"

text \<open>The exponent of the last place of \<open>x\<close>: 53 significant bits, or the subnormal spacing.\<close>

definition ulp_exp :: "rat \<Rightarrow> int" where
  "ulp_exp x = max (ilog2 \<bar>x\<bar> - 52) (- 1074)"

definition fl_rat :: "rat \<Rightarrow> rat" where
  "fl_rat x = (if x = 0 then 0 else of_int (rne (x / 2 powi ulp_exp x)) * 2 powi ulp_exp x)"

definition fl :: "rat \<Rightarrow> f64" where
  "fl x = (let y = fl_rat x
           in if 2 ^ 1024 \<le> y then PInf else if y \<le> - (2 ^ 1024) then NInf else Fin y)"

subsection \<open>Operations\<close>

fun f_neg :: "f64 \<Rightarrow> f64" where
  "f_neg (Fin a) = Fin (- a)" | "f_neg PInf = NInf" | "f_neg NInf = PInf" | "f_neg NaN = NaN"

fun f_add :: "f64 \<Rightarrow> f64 \<Rightarrow> f64" where
  "f_add (Fin a) (Fin b) = fl (a + b)"
| "f_add NaN y = NaN" | "f_add x NaN = NaN"
| "f_add PInf NInf = NaN" | "f_add NInf PInf = NaN"
| "f_add PInf y = PInf" | "f_add x PInf = PInf"
| "f_add NInf y = NInf" | "f_add x NInf = NInf"

definition f_sub :: "f64 \<Rightarrow> f64 \<Rightarrow> f64" where
  "f_sub x y = f_add x (f_neg y)"

definition inf_sign :: "bool \<Rightarrow> f64" where
  "inf_sign pos = (if pos then PInf else NInf)"

fun f_mul :: "f64 \<Rightarrow> f64 \<Rightarrow> f64" where
  "f_mul (Fin a) (Fin b) = fl (a * b)"
| "f_mul NaN y = NaN" | "f_mul x NaN = NaN"
| "f_mul (Fin a) PInf = (if a = 0 then NaN else inf_sign (0 < a))"
| "f_mul (Fin a) NInf = (if a = 0 then NaN else inf_sign (a < 0))"
| "f_mul PInf (Fin b) = (if b = 0 then NaN else inf_sign (0 < b))"
| "f_mul NInf (Fin b) = (if b = 0 then NaN else inf_sign (b < 0))"
| "f_mul PInf PInf = PInf" | "f_mul NInf NInf = PInf"
| "f_mul PInf NInf = NInf" | "f_mul NInf PInf = NInf"

fun f_div :: "f64 \<Rightarrow> f64 \<Rightarrow> f64" where
  "f_div (Fin a) (Fin b) =
     (if b \<noteq> 0 then fl (a / b) else if a = 0 then NaN else inf_sign (0 < a))"
| "f_div NaN y = NaN" | "f_div x NaN = NaN"
| "f_div (Fin a) y = Fin 0"
| "f_div PInf (Fin b) = inf_sign (0 \<le> b)"
| "f_div NInf (Fin b) = inf_sign (b < 0)"
| "f_div x y = NaN"

fun f_le :: "f64 \<Rightarrow> f64 \<Rightarrow> bool" where
  "f_le NaN y = False" | "f_le x NaN = False"
| "f_le NInf y = True" | "f_le x PInf = True"
| "f_le (Fin a) (Fin b) = (a \<le> b)"
| "f_le x y = False"

fun f_lt :: "f64 \<Rightarrow> f64 \<Rightarrow> bool" where
  "f_lt NaN y = False" | "f_lt x NaN = False"
| "f_lt x NInf = False" | "f_lt PInf y = False"
| "f_lt NInf y = True" | "f_lt x PInf = True"
| "f_lt (Fin a) (Fin b) = (a < b)"

text \<open>\<^verbatim>\<open>f64::max\<close> and \<^verbatim>\<open>min\<close> ignore a NaN; \<^verbatim>\<open>clamp\<close> passes it on.\<close>

definition f_max :: "f64 \<Rightarrow> f64 \<Rightarrow> f64" where
  "f_max x y = (if x = NaN then y else if y = NaN then x else if f_lt x y then y else x)"

definition f_min :: "f64 \<Rightarrow> f64 \<Rightarrow> f64" where
  "f_min x y = (if x = NaN then y else if y = NaN then x else if f_lt y x then y else x)"

definition f_clamp :: "f64 \<Rightarrow> f64 \<Rightarrow> f64 \<Rightarrow> f64" where
  "f_clamp lo hi x = (if f_lt x lo then lo else if f_lt hi x then hi else x)"

text \<open>\<^verbatim>\<open>total_cmp(..).is_lt()\<close>, a NaN above everything.\<close>

fun f_total_lt :: "f64 \<Rightarrow> f64 \<Rightarrow> bool" where
  "f_total_lt NaN y = False"
| "f_total_lt x NaN = True"
| "f_total_lt x y = f_lt x y"

text \<open>
  \<^verbatim>\<open>powi\<close> by repeated squaring, as LLVM's runtime does it; Rust leaves its precision open.
\<close>

fun f_powi_loop :: "f64 \<Rightarrow> nat \<Rightarrow> f64 \<Rightarrow> f64" where
  "f_powi_loop a n r =
     (let r' = (if odd n then f_mul r a else r)
      in if n div 2 = 0 then r' else f_powi_loop (f_mul a a) (n div 2) r')"

declare f_powi_loop.simps [simp del]

definition f_powi :: "f64 \<Rightarrow> nat \<Rightarrow> f64" where
  "f_powi a n = f_powi_loop a n (Fin 1)"

text \<open>\<^verbatim>\<open>as f64\<close> on an unsigned integer, and the saturating \<^verbatim>\<open>as u8\<close>, \<^verbatim>\<open>as u16\<close> back.\<close>

definition f_of_nat :: "nat \<Rightarrow> f64" where
  "f_of_nat n = fl (of_nat n)"

fun f_to_nat :: "nat \<Rightarrow> f64 \<Rightarrow> nat" where
  "f_to_nat hi NaN = 0" | "f_to_nat hi NInf = 0" | "f_to_nat hi PInf = hi"
| "f_to_nat hi (Fin a) = min hi (nat \<lfloor>a\<rfloor>)"

text \<open>\<^verbatim>\<open>f64::round\<close>: to the nearest integer, halves away from zero.\<close>

fun f_round :: "f64 \<Rightarrow> f64" where
  "f_round (Fin a) =
     Fin (of_int (if 0 \<le> a then \<lfloor>a + 1 / 2\<rfloor> else \<lceil>a - 1 / 2\<rceil>))"
| "f_round x = x"

text \<open>
  \<^verbatim>\<open>Duration::from_secs_f64\<close>: the exact value to the nearest nanosecond, ties to even;
  \<open>None\<close> is its panic on a negative, too large or undefined number.
\<close>

fun dur_of_f64 :: "f64 \<Rightarrow> duration option" where
  "dur_of_f64 (Fin a) =
     (let n = rne (a * 10 ^ 9)
      in if 0 \<le> a \<and> n < 2 ^ 64 * 10 ^ 9 then Some (nat n) else None)"
| "dur_of_f64 x = None"

subsection \<open>Rounding to an integer\<close>

lemma rne_bounds: "\<lfloor>x\<rfloor> \<le> rne x" "rne x \<le> \<lfloor>x\<rfloor> + 1"
  by (auto simp: rne_def Let_def)

lemma rne_of_int [simp]: "rne (of_int n) = n"
  by (simp add: rne_def)

lemma rne_near: "\<bar>of_int (rne x) - x\<bar> \<le> 1 / 2"
proof -
  have f: "of_int \<lfloor>x\<rfloor> \<le> x" "x < of_int \<lfloor>x\<rfloor> + 1" by linarith+
  define d where "d = x - of_int \<lfloor>x\<rfloor>"
  have r: "rne x = (if d < 1 / 2 then \<lfloor>x\<rfloor> else if 1 / 2 < d then \<lfloor>x\<rfloor> + 1
      else if even \<lfloor>x\<rfloor> then \<lfloor>x\<rfloor> else \<lfloor>x\<rfloor> + 1)"
    by (simp only: rne_def Let_def d_def)
  consider "rne x = \<lfloor>x\<rfloor>" "d \<le> 1 / 2" | "rne x = \<lfloor>x\<rfloor> + 1" "1 / 2 \<le> d"
    by (cases "d < 1 / 2"; cases "1 / 2 < d"; cases "even \<lfloor>x\<rfloor>") (simp_all add: r)
  then show ?thesis
  proof cases
    case 1
    with f(1) show ?thesis unfolding abs_le_iff d_def by (simp only: 1(1)) linarith
  next
    case 2
    then have "of_int (rne x) = (of_int \<lfloor>x\<rfloor> + 1 :: rat)" by simp
    with 2(2) f(2) show ?thesis unfolding abs_le_iff d_def by linarith
  qed
qed

lemma rne_mono: "x \<le> y \<Longrightarrow> rne x \<le> rne y"
proof (cases "\<lfloor>x\<rfloor> = \<lfloor>y\<rfloor>")
  case True
  assume "x \<le> y"
  with True show ?thesis by (auto simp: rne_def Let_def)
next
  case False
  assume "x \<le> y"
  then have "\<lfloor>x\<rfloor> + 1 \<le> \<lfloor>y\<rfloor>" using False floor_mono [of x y] by simp
  with rne_bounds(2) [of x] rne_bounds(1) [of y] show ?thesis by simp
qed

lemma rne_nonneg: "0 \<le> x \<Longrightarrow> 0 \<le> rne x"
  using rne_mono [of 0 x] rne_of_int [of 0] by simp

subsection \<open>The exponent\<close>

lemma powi2_pos [simp]: "(0 :: rat) < 2 powi e"
  by simp

lemma powi2_nat: "0 \<le> e \<Longrightarrow> (2 :: rat) powi e = of_int (2 ^ nat e)"
  by (simp add: power_int_def)

lemma powi2_le_iff: "(2 :: rat) powi a \<le> 2 powi b \<longleftrightarrow> a \<le> b"
  using power_int_increasing [of a b "2 :: rat"] power_int_strict_increasing [of b a "2 :: rat"]
  by (cases "a \<le> b") auto

lemma ilog2_bounds:
  assumes "0 < x"
  shows "2 powi ilog2 x \<le> x" and "x < 2 powi (ilog2 x + 1)"
proof -
  obtain n d where q: "quotient_of x = (n, d)" by force
  then have d: "0 < d" and x: "x = of_int n / of_int d"
    using quotient_of_denom_pos quotient_of_div by blast+
  with assms have n: "0 < n" by (simp add: zero_less_divide_iff)
  have nb: "(2 :: rat) powi (bitlen n - 1) \<le> of_int n" "of_int n < (2 :: rat) powi bitlen n"
    and db: "(2 :: rat) powi (bitlen d - 1) \<le> of_int d" "of_int d < (2 :: rat) powi bitlen d"
  proof -
    have "1 \<le> bitlen n" "1 \<le> bitlen d" using n d by (simp_all add: bitlen_ge_iff_power)
    then show "(2 :: rat) powi (bitlen n - 1) \<le> of_int n" "of_int n < (2 :: rat) powi bitlen n"
      "(2 :: rat) powi (bitlen d - 1) \<le> of_int d" "of_int d < (2 :: rat) powi bitlen d"
      using bitlen_bounds [OF n] bitlen_bounds [OF d]
      by (simp_all only: powi2_nat of_int_le_iff of_int_less_iff)
  qed
  let ?e = "bitlen n - bitlen d"
  have up: "x < 2 powi (?e + 1)"
  proof -
    have "of_int n < (2 :: rat) powi (?e + 1) * 2 powi (bitlen d - 1)"
      using nb(2) by (simp flip: power_int_add)
    also have "\<dots> \<le> 2 powi (?e + 1) * of_int d" using db(1) by (simp add: mult_left_mono)
    finally show ?thesis using d by (simp add: x divide_less_eq)
  qed
  have low: "2 powi (?e - 1) \<le> x"
  proof -
    have "(2 :: rat) powi (?e - 1) * of_int d \<le> 2 powi (?e - 1) * 2 powi bitlen d"
      using db(2) by (simp add: mult_left_mono)
    also have "\<dots> = 2 powi (bitlen n - 1)" by (simp flip: power_int_add)
    also have "\<dots> \<le> of_int n" by (rule nb(1))
    finally show ?thesis using d by (simp add: x le_divide_eq)
  qed
  show "2 powi ilog2 x \<le> x" and "x < 2 powi (ilog2 x + 1)"
    using up low by (auto simp: ilog2_def q Let_def)
qed

lemma ilog2_mono: "0 < x \<Longrightarrow> x \<le> y \<Longrightarrow> ilog2 x \<le> ilog2 y"
proof (rule ccontr)
  assume x: "0 < x" and xy: "x \<le> y" and "\<not> ilog2 x \<le> ilog2 y"
  then have "(2 :: rat) powi (ilog2 y + 1) \<le> 2 powi ilog2 x" by (simp add: powi2_le_iff)
  also have "\<dots> \<le> y" using ilog2_bounds(1) [OF x] xy by simp
  finally show False using ilog2_bounds(2) [of y] x xy by simp
qed

subsection \<open>Rounding to a float\<close>

lemma rne_minus [simp]: "rne (- x) = - rne x"
proof (cases "x = of_int \<lfloor>x\<rfloor>")
  case True
  then show ?thesis by (metis rne_of_int of_int_minus)
next
  case False
  then have "\<lfloor>- x\<rfloor> = - \<lfloor>x\<rfloor> - 1" by linarith
  then show ?thesis by (auto simp: rne_def Let_def)
qed

lemma fl_rat_0 [simp]: "fl_rat 0 = 0"
  by (simp add: fl_rat_def)

lemma fl_rat_minus [simp]: "fl_rat (- x) = - fl_rat x"
  by (simp add: fl_rat_def ulp_exp_def)

lemma fl_rat_nonneg: "0 \<le> x \<Longrightarrow> 0 \<le> fl_rat x"
  by (auto simp: fl_rat_def intro!: mult_nonneg_nonneg rne_nonneg)

lemma fl_rat_le_pow:
  assumes "0 < x" and "x \<le> 2 powi e" and "ulp_exp x \<le> e"
  shows "fl_rat x \<le> 2 powi e"
proof -
  let ?u = "ulp_exp x"
  have "x / 2 powi ?u \<le> 2 powi (e - ?u)"
    using assms(2) by (simp add: power_int_diff divide_right_mono)
  then have "rne (x / 2 powi ?u) \<le> 2 ^ nat (e - ?u)"
    using rne_mono rne_of_int assms(3) by (metis diff_ge_0_iff_ge powi2_nat)
  then have "of_int (rne (x / 2 powi ?u)) \<le> (2 :: rat) powi (e - ?u)"
    using assms(3) by (simp add: powi2_nat del: of_int_power)
  then have "of_int (rne (x / 2 powi ?u)) * 2 powi ?u \<le> (2 :: rat) powi (e - ?u) * 2 powi ?u"
    by (rule mult_right_mono) simp
  then show ?thesis using assms(1) by (simp add: fl_rat_def flip: power_int_add)
qed

lemma fl_rat_ge_pow:
  assumes "0 < x" and "2 powi e \<le> x" and "ulp_exp x \<le> e"
  shows "2 powi e \<le> fl_rat x"
proof -
  let ?u = "ulp_exp x"
  have "2 powi (e - ?u) \<le> x / 2 powi ?u"
    using assms(2) by (simp add: power_int_diff divide_right_mono)
  then have "2 ^ nat (e - ?u) \<le> rne (x / 2 powi ?u)"
    using rne_mono rne_of_int assms(3) by (metis diff_ge_0_iff_ge powi2_nat)
  then have "(2 :: rat) powi (e - ?u) \<le> of_int (rne (x / 2 powi ?u))"
    using assms(3) by (simp add: powi2_nat del: of_int_power)
  then have "(2 :: rat) powi (e - ?u) * 2 powi ?u \<le> of_int (rne (x / 2 powi ?u)) * 2 powi ?u"
    by (rule mult_right_mono) simp
  then show ?thesis using assms(1) by (simp add: fl_rat_def flip: power_int_add)
qed

lemma ulp_exp_mono: "0 < x \<Longrightarrow> x \<le> y \<Longrightarrow> ulp_exp x \<le> ulp_exp y"
  using ilog2_mono [of x y] by (auto simp: ulp_exp_def)

lemma fl_rat_mono_pos:
  assumes x: "0 < x" and xy: "x \<le> y"
  shows "fl_rat x \<le> fl_rat y"
proof (cases "ulp_exp x = ulp_exp y")
  case True
  have "x / 2 powi ulp_exp x \<le> y / 2 powi ulp_exp x"
    using xy by (simp add: divide_right_mono)
  then have "of_int (rne (x / 2 powi ulp_exp x)) \<le> (of_int (rne (y / 2 powi ulp_exp x)) :: rat)"
    by (simp add: rne_mono)
  then show ?thesis
    using x xy True by (simp add: fl_rat_def mult_right_mono)
next
  case False
  let ?e = "ilog2 y"
  have lt: "ulp_exp x < ulp_exp y" using ulp_exp_mono [OF x xy] False by simp
  then have uy: "ulp_exp y = ?e - 52" using x xy by (auto simp: ulp_exp_def max_def split: if_splits)
  have "ilog2 x < ?e" using lt x xy by (auto simp: ulp_exp_def)
  have "x \<le> 2 powi (ilog2 x + 1)" using ilog2_bounds(2) [OF x] by simp
  also have "\<dots> \<le> 2 powi ?e" using \<open>ilog2 x < ?e\<close> by (simp add: powi2_le_iff)
  finally have "fl_rat x \<le> 2 powi ?e"
    using lt uy by (intro fl_rat_le_pow x) auto
  also have "\<dots> \<le> fl_rat y"
    using x xy uy ilog2_bounds(1) [of y] by (intro fl_rat_ge_pow) auto
  finally show ?thesis .
qed

lemma fl_rat_mono: "x \<le> y \<Longrightarrow> fl_rat x \<le> fl_rat y"
proof -
  assume xy: "x \<le> y"
  consider "0 < x" | "x \<le> 0" "0 \<le> y" | "y < 0" by linarith
  then show ?thesis
  proof cases
    case 1
    with xy show ?thesis by (rule fl_rat_mono_pos [rotated])
  next
    case 2
    then show ?thesis using fl_rat_nonneg [of y] fl_rat_nonneg [of "- x"] by simp
  next
    case 3
    then show ?thesis using fl_rat_mono_pos [of "- y" "- x"] xy by simp
  qed
qed

lemma fl_mono: "x \<le> y \<Longrightarrow> f_le (fl x) (fl y)"
  using fl_rat_mono [of x y] by (auto simp: fl_def Let_def)

text \<open>Small integers are floats.\<close>

lemma fl_rat_of_int:
  assumes "\<bar>n\<bar> < 2 ^ 53"
  shows "fl_rat (of_int n) = of_int n"
proof (cases "n = 0")
  case False
  let ?x = "of_int n :: rat"
  have pos: "0 < \<bar>?x\<bar>" using False by simp
  have "2 powi ilog2 \<bar>?x\<bar> \<le> \<bar>?x\<bar>" using ilog2_bounds(1) [OF pos] .
  also have "\<dots> < 2 powi 53"
    using assms by (simp add: powi2_nat flip: of_int_abs)
  finally have "ilog2 \<bar>?x\<bar> < 53" by (meson linorder_not_less powi2_le_iff)
  then have u: "ulp_exp ?x \<le> 0" by (simp add: ulp_exp_def)
  have "?x / 2 powi ulp_exp ?x = of_int (n * 2 ^ nat (- ulp_exp ?x))"
    using u by (simp add: power_int_def field_simps)
  then have "rne (?x / 2 powi ulp_exp ?x) = n * 2 ^ nat (- ulp_exp ?x)"
    by (simp only: rne_of_int)
  then show ?thesis
    using False u by (simp add: fl_rat_def power_int_def field_simps)
qed simp

lemma fl_of_int: "\<bar>n\<bar> < 2 ^ 53 \<Longrightarrow> fl (of_int n) = Fin (of_int n)"
proof -
  assume n: "\<bar>n\<bar> < 2 ^ 53"
  have "\<bar>of_int n :: rat\<bar> < 2 ^ 1024"
  proof -
    have "\<bar>of_int n :: rat\<bar> < of_int (2 ^ 53)" using n by (simp flip: of_int_abs)
    also have "\<dots> \<le> 2 ^ 1024" by simp
    finally show ?thesis .
  qed
  then show ?thesis using fl_rat_of_int [OF n] by (auto simp: fl_def Let_def abs_if split: if_splits)
qed

lemma f_of_nat_small: "n < 2 ^ 53 \<Longrightarrow> f_of_nat n = Fin (of_nat n)"
  using fl_of_int [of "int n"] by (simp add: f_of_nat_def)

text \<open>A finite result is the rounded exact one, and lies in every interval of small integers.\<close>

lemma fl_finite: "\<bar>x\<bar> \<le> of_int n \<Longrightarrow> n < 2 ^ 53 \<Longrightarrow> fl x = Fin (fl_rat x)"
proof -
  assume x: "\<bar>x\<bar> \<le> of_int n" and n: "n < 2 ^ 53"
  then have n0: "\<bar>n\<bar> < 2 ^ 53" by linarith
  have "fl_rat x \<le> fl_rat (of_int n)" "fl_rat (of_int (- n)) \<le> fl_rat x"
    using x by (auto intro!: fl_rat_mono simp del: of_int_minus fl_rat_minus)
  then have "\<bar>fl_rat x\<bar> \<le> of_int n" using fl_rat_of_int [OF n0] by (simp add: abs_le_iff)
  also have "\<dots> < 2 ^ 1024"
  proof -
    have "of_int n < (of_int (2 ^ 53) :: rat)" using n by (simp only: of_int_less_iff)
    also have "\<dots> \<le> 2 ^ 1024" by simp
    finally show ?thesis .
  qed
  finally show ?thesis by (auto simp: fl_def Let_def abs_if split: if_splits)
qed

end
