(* ===== verification/Repair.thy ===== *)
theory Repair
  imports Fec F64
begin

section \<open>How many repair symbols to send (vtop-wire/src/fec.rs)\<close>

text \<open>
  The floating-point half of \<^verbatim>\<open>fec.rs\<close>: the probability that enough packets arrive, the
  repair symbols of the first burst by expected time, and the surplus of a later request.
  The values depend on \<^verbatim>\<open>f64\<close> rounding, the bounds proved here do not.
\<close>

abbreviation flit :: "rat \<Rightarrow> f64" where
  "flit q \<equiv> fl q"

text \<open>\<^verbatim>\<open>Iterator::sum\<close> over floats: a left fold from zero.\<close>

definition f_sum :: "f64 list \<Rightarrow> f64" where
  "f_sum xs = foldl f_add (Fin 0) xs"

definition binom :: "nat \<Rightarrow> nat \<Rightarrow> f64" where
  "binom n j = foldl (\<lambda>acc i. f_div (f_mul acc (f_of_nat (n - i))) (f_of_nat (i + 1)))
     (Fin 1) [0..<j]"

definition p_enough :: "nat \<Rightarrow> nat \<Rightarrow> f64 \<Rightarrow> f64" where
  "p_enough k n p = f_sum (map (\<lambda>j.
     f_mul (f_mul (binom n j) (f_powi (f_sub (Fin 1) p) j)) (f_powi p (n - j))) [k..<n + 1])"

text \<open>\<^verbatim>\<open>min_by(total_cmp)\<close> on the second component: the first of the least.\<close>

fun f_min_by :: "(nat \<times> f64) list \<Rightarrow> (nat \<times> f64) option" where
  "f_min_by [] = None"
| "f_min_by (x # xs) =
     Some (foldl (\<lambda>m y. if f_total_lt (snd y) (snd m) then y else m) x xs)"

definition repair_cost :: "nat \<Rightarrow> f64 \<Rightarrow> f64 \<Rightarrow> f64 \<Rightarrow> nat \<Rightarrow> f64" where
  "repair_cost k p tp rnd r =
     (let n = k + r;
          short = f_sum (map (\<lambda>a.
            let pa = f_mul (f_mul (binom n a) (f_powi (f_sub (Fin 1) p) a)) (f_powi p (n - a))
            in f_mul pa (f_add rnd (f_div (f_mul (f_of_nat (k - a)) tp)
                 (f_max (f_sub (Fin 1) p) (flit (5 / 100)))))) [0..<k])
      in f_add (f_mul (f_of_nat n) tp) short)"

definition choose_repair :: "nat \<Rightarrow> f64 \<Rightarrow> f64 \<Rightarrow> f64 \<Rightarrow> f64 \<Rightarrow> nat" where
  "choose_repair k p tp up rtt =
     (let rnd = f_mul (flit (15 / 10)) (f_add (f_add (f_add tp (flit (3 / 10))) up) rtt);
          best = (case f_min_by (map (\<lambda>r. (r, repair_cost k p tp rnd r)) [0..<min k 8 + 1]) of
            None \<Rightarrow> 0 | Some x \<Rightarrow> fst x)
      in max best (if k \<le> 2 \<and> f_le (flit (2 / 10)) p then 1 else 0))"

function extra_from :: "nat \<Rightarrow> f64 \<Rightarrow> nat \<Rightarrow> nat" where
  "extra_from deficit p extra =
     (if 0 < deficit \<and> extra < 4 \<and> f_lt (p_enough deficit (deficit + extra) p) (flit (85 / 100))
      then extra_from deficit p (extra + 1) else extra)"
  by pat_completeness auto
termination
  by (relation "measure (\<lambda>(deficit, p, extra). 4 - extra)") auto

declare extra_from.simps [simp del]

definition extra_for :: "nat \<Rightarrow> f64 \<Rightarrow> nat" where
  "extra_for deficit p = extra_from deficit p 0"

lemma f_min_by_mem: "f_min_by xs = Some x \<Longrightarrow> x \<in> set xs"
proof -
  have "foldl (\<lambda>m y. if f_total_lt (snd y) (snd m) then y else m) z ys \<in> insert z (set ys)"
    for z and ys :: "(nat \<times> f64) list"
  proof (induction ys arbitrary: z)
    case (Cons y ys)
    show ?case using Cons.IH [of y] Cons.IH [of z] by auto
  qed simp
  moreover assume "f_min_by xs = Some x"
  ultimately show ?thesis by (cases xs) auto
qed

lemma choose_repair_le: "1 \<le> k \<Longrightarrow> choose_repair k p tp up rtt \<le> min k 8"
  by (auto simp: choose_repair_def Let_def simp del: upt_Suc
      split: option.splits dest!: f_min_by_mem)

lemma extra_from_bounds: "extra \<le> 4 \<Longrightarrow> extra \<le> extra_from d p extra \<and> extra_from d p extra \<le> 4"
proof (induction d p extra rule: extra_from.induct)
  case (1 d p extra)
  then show ?case by (subst (1 2) extra_from.simps) auto
qed

lemma extra_for_le: "extra_for d p \<le> 4"
  using extra_from_bounds [of 0] by (simp add: extra_for_def)

lemma extra_for_0 [simp]: "extra_for 0 p = 0"
  by (simp add: extra_for_def extra_from.simps)

end
