(* ===== verification/Text.thy ===== *)
theory Text
  imports Prelude "HOL-Library.Sublist" "HOL-Library.Char_ord"
begin

section \<open>Text\<close>

text \<open>
  What the code uses of Rust's \<^verbatim>\<open>str\<close>: a string is the list of its UTF-8 bytes, each a
  \<^verbatim>\<open>char\<close>.  Decimal and hexadecimal printing and parsing, trimming, splitting at white
  space; \<^verbatim>\<open>hex\<close> and \<^verbatim>\<open>unhex\<close> are the functions of \<^verbatim>\<open>vtop-wire/src/lib.rs\<close>.
\<close>

subsection \<open>Bytes and characters\<close>

definition byte_char :: "u8 \<Rightarrow> char" where
  "byte_char b = char_of (unat b)"

definition char_byte :: "char \<Rightarrow> u8" where
  "char_byte c = of_nat (of_char c)"

lemma char_byte_inverse [simp]: "char_byte (byte_char b) = b"
  using u8_bound [of b] by (simp add: char_byte_def byte_char_def)

lemma byte_char_inverse [simp]: "byte_char (char_byte c) = c"
proof -
  have "of_char c < (256 :: nat)" by (rule nat_of_char_less_256)
  then have "unat (word_of_nat (of_char c) :: u8) = of_char c"
    by (simp add: unat_of_nat take_bit_nat_eq_self)
  then show ?thesis by (simp add: char_byte_def byte_char_def)
qed

definition as_bytes :: "string \<Rightarrow> bytes" where
  "as_bytes s = map char_byte s"

definition of_bytes :: "bytes \<Rightarrow> string" where
  "of_bytes bs = map byte_char bs"

lemma of_bytes_as_bytes [simp]: "of_bytes (as_bytes s) = s"
  by (simp add: of_bytes_def as_bytes_def comp_def)

lemma as_bytes_of_bytes [simp]: "as_bytes (of_bytes b) = b"
  by (simp add: of_bytes_def as_bytes_def comp_def)

subsection \<open>Digits\<close>

definition char_code :: "char \<Rightarrow> nat" where
  "char_code c = of_char c"

definition is_digit :: "char \<Rightarrow> bool" where
  "is_digit c \<longleftrightarrow> 48 \<le> char_code c \<and> char_code c \<le> 57"

definition digit_char :: "nat \<Rightarrow> char" where
  "digit_char d = char_of (48 + d)"

definition digit_val :: "char \<Rightarrow> nat" where
  "digit_val c = char_code c - 48"

lemma char_code_char_of [simp]: "n < 256 \<Longrightarrow> char_code (char_of n) = n"
  by (simp add: char_code_def)

lemma digit_char [simp]:
  "d < 10 \<Longrightarrow> is_digit (digit_char d)" "d < 10 \<Longrightarrow> digit_val (digit_char d) = d"
  by (simp_all add: is_digit_def digit_char_def digit_val_def)

lemma char_of_char_code [simp]: "char_of (char_code c) = c"
  by (simp add: char_code_def)

lemma digit_char_val: "is_digit c \<Longrightarrow> digit_char (digit_val c) = c"
  by (simp add: is_digit_def digit_char_def digit_val_def)

lemma digit_val_less: "is_digit c \<Longrightarrow> digit_val c < 10"
  unfolding is_digit_def digit_val_def by arith

text \<open>A number as it prints, and the value of a string of digits.\<close>

fun show_nat :: "nat \<Rightarrow> string" where
  "show_nat n = (if n < 10 then [digit_char n] else show_nat (n div 10) @ [digit_char (n mod 10)])"

declare show_nat.simps [simp del]

definition digits_val :: "string \<Rightarrow> nat" where
  "digits_val s = foldl (\<lambda>n c. 10 * n + digit_val c) 0 s"

definition parse_digits :: "string \<Rightarrow> nat option" where
  "parse_digits s = (if s \<noteq> [] \<and> list_all is_digit s then Some (digits_val s) else None)"

lemma digits_val_snoc: "digits_val (s @ [c]) = 10 * digits_val s + digit_val c"
  by (simp add: digits_val_def)

lemma show_nat_digits: "show_nat n \<noteq> [] \<and> list_all is_digit (show_nat n) \<and> digits_val (show_nat n) = n"
proof (induction n rule: less_induct)
  case (less n)
  show ?case
  proof (cases "n < 10")
    case True
    then have "show_nat n = [digit_char n]" by (simp add: show_nat.simps)
    with True show ?thesis by (simp add: digits_val_def)
  next
    case False
    then have "show_nat n = show_nat (n div 10) @ [digit_char (n mod 10)]"
      by (subst show_nat.simps) simp
    with False less [of "n div 10"] show ?thesis by (simp add: digits_val_snoc)
  qed
qed

lemma show_nat_nonempty [simp]: "show_nat n \<noteq> []"
  using show_nat_digits by blast

lemma show_nat_all_digits [simp]: "list_all is_digit (show_nat n)"
  using show_nat_digits by blast

lemma parse_digits_show [simp]: "parse_digits (show_nat n) = Some n"
  using show_nat_digits [of n] by (simp add: parse_digits_def)

text \<open>\<^verbatim>\<open>str::parse\<close> for an unsigned type with values below \<open>bound\<close>: an optional plus sign.\<close>

definition parse_uint :: "nat \<Rightarrow> string \<Rightarrow> nat option" where
  "parse_uint bound s =
     (case parse_digits (case s of c # cs \<Rightarrow> if c = CHR ''+'' then cs else s | [] \<Rightarrow> []) of
        Some n \<Rightarrow> if n < bound then Some n else None
      | None \<Rightarrow> None)"

lemma show_nat_no_plus: "show_nat n = c # cs \<Longrightarrow> c \<noteq> CHR ''+''"
  using show_nat_all_digits [of n] by (auto simp: is_digit_def char_code_def)

lemma parse_uint_show [simp]: "n < bound \<Longrightarrow> parse_uint bound (show_nat n) = Some n"
proof -
  assume "n < bound"
  moreover have "(case show_nat n of c # cs \<Rightarrow> if c = CHR ''+'' then cs else show_nat n | [] \<Rightarrow> []) = show_nat n"
    by (auto split: list.split dest: show_nat_no_plus)
  ultimately show ?thesis by (simp add: parse_uint_def)
qed

subsection \<open>White space\<close>

text \<open>The characters with the Unicode property White\_Space, in UTF-8.\<close>

definition ws_code :: "string \<Rightarrow> bool" where
  "ws_code w = (case map char_code w of
     [a] \<Rightarrow> a = 32 \<or> 9 \<le> a \<and> a \<le> 13
   | [a, b] \<Rightarrow> a = 194 \<and> (b = 133 \<or> b = 160)
   | [a, b, c] \<Rightarrow> a = 225 \<and> b = 154 \<and> c = 128 \<or>
       a = 226 \<and> b = 128 \<and> (128 \<le> c \<and> c \<le> 138 \<or> c = 168 \<or> c = 169 \<or> c = 175) \<or>
       a = 226 \<and> b = 129 \<and> c = 159 \<or> a = 227 \<and> b = 128 \<and> c = 128
   | _ \<Rightarrow> False)"

text \<open>The length of the white space character a text begins or ends with; 0 if it does not.\<close>

definition ws_at :: "string \<Rightarrow> nat" where
  "ws_at s = (if ws_code (take 1 s) then 1 else if ws_code (take 2 s) then 2
     else if ws_code (take 3 s) then 3 else 0)"

definition ws_end :: "string \<Rightarrow> nat" where
  "ws_end s = (if ws_code (drop (length s - 1) s) then 1 else if ws_code (drop (length s - 2) s) then 2
     else if ws_code (drop (length s - 3) s) then 3 else 0)"

function trim_start :: "string \<Rightarrow> string" where
  "trim_start s = (if s = [] \<or> ws_at s = 0 then s else trim_start (drop (ws_at s) s))"
  by pat_completeness auto
termination by (relation "measure length") auto

function trim_end :: "string \<Rightarrow> string" where
  "trim_end s = (if s = [] \<or> ws_end s = 0 then s else trim_end (take (length s - ws_end s) s))"
  by pat_completeness auto
termination by (relation "measure length") auto

declare trim_start.simps [simp del] trim_end.simps [simp del]

definition trim :: "string \<Rightarrow> string" where
  "trim s = trim_end (trim_start s)"

text \<open>\<^verbatim>\<open>split_whitespace\<close>: the maximal runs without white space.\<close>

function split_ws :: "string \<Rightarrow> string \<Rightarrow> string list" where
  "split_ws word [] = (if word = [] then [] else [rev word])"
| "split_ws word (c # cs) =
     (if ws_at (c # cs) = 0 then split_ws (c # word) cs
      else (if word = [] then [] else [rev word]) @ split_ws [] (drop (ws_at (c # cs)) (c # cs)))"
  by pat_completeness auto
termination by (relation "measure (\<lambda>(word, s). length s)") auto

definition split_whitespace :: "string \<Rightarrow> string list" where
  "split_whitespace s = split_ws [] s"

text \<open>Printable ASCII other than the space: what numbers and hexadecimals are made of.\<close>

definition is_graph :: "char \<Rightarrow> bool" where
  "is_graph c \<longleftrightarrow> 33 \<le> char_code c \<and> char_code c \<le> 126"

lemma ws_code_not_graph: "ws_code w \<Longrightarrow> w \<noteq> [] \<and> \<not> is_graph (hd w) \<and> \<not> is_graph (last w)"
  by (auto simp: ws_code_def is_graph_def split: list.splits)

lemma ws_at_graph: "is_graph c \<Longrightarrow> ws_at (c # cs) = 0"
proof -
  assume "is_graph c"
  then have "\<not> ws_code (c # ds)" for ds using ws_code_not_graph [of "c # ds"] by auto
  then show ?thesis by (simp add: ws_at_def numeral_eq_Suc)
qed

lemma ws_end_graph: "is_graph c \<Longrightarrow> ws_end (cs @ [c]) = 0"
proof -
  assume "is_graph c"
  then have "\<not> ws_code (ds @ [c])" and "\<not> ws_code [c]" for ds
    using ws_code_not_graph [of "ds @ [c]"] ws_code_not_graph [of "[c]"] by auto
  then show ?thesis by (simp add: ws_end_def)
qed

lemma trim_graph:
  assumes "list_all is_graph s" shows "trim s = s"
proof (cases s rule: rev_cases)
  case Nil
  then show ?thesis by (simp add: trim_def trim_start.simps trim_end.simps)
next
  case (snoc cs c)
  have "trim_start s = s"
  proof (cases s)
    case (Cons d ds)
    then show ?thesis using assms by (subst trim_start.simps) (simp add: ws_at_graph)
  qed (simp add: trim_start.simps)
  moreover have "trim_end s = s"
    using assms snoc by (subst trim_end.simps) (simp add: ws_end_graph)
  ultimately show ?thesis by (simp add: trim_def)
qed

lemma split_ws_graph:
  assumes "list_all is_graph u"
  shows "split_ws word (u @ s) = split_ws (rev u @ word) s"
  using assms by (induction u arbitrary: word) (simp_all add: ws_at_graph)

lemma ws_at_space: "ws_at (CHR '' '' # s) = 1" and ws_at_newline: "ws_at (CHR 0x0A # s) = 1"
  by (simp_all add: ws_at_def ws_code_def char_code_def)

lemma split_ws_space:
  "word \<noteq> [] \<Longrightarrow> split_ws word (CHR '' '' # s) = rev word # split_ws [] s"
  by (simp add: ws_at_space)

lemma split_ws_newline:
  "word \<noteq> [] \<Longrightarrow> split_ws word [CHR 0x0A] = [rev word]"
  by (simp add: ws_at_newline)

declare split_ws.simps [simp del]

text \<open>Words joined by spaces and ended by a newline, and their splitting.\<close>

fun unwords :: "string list \<Rightarrow> string" where
  "unwords [] = [CHR 0x0A]"
| "unwords [w] = w @ [CHR 0x0A]"
| "unwords (w # ws) = w @ '' '' @ unwords ws"

lemma split_unwords:
  assumes "ws \<noteq> []" and "\<forall>w \<in> set ws. w \<noteq> [] \<and> list_all is_graph w"
  shows "split_whitespace (unwords ws) = ws"
proof -
  have "split_ws [] (unwords ws) = ws"
    using assms
  proof (induction ws rule: unwords.induct)
    case (2 w)
    then show ?case by (simp add: split_ws_graph split_ws_newline)
  next
    case (3 w v ws)
    then show ?case by (simp add: split_ws_graph split_ws_space)
  qed simp
  then show ?thesis by (simp add: split_whitespace_def)
qed

lemma digit_graph: "is_digit c \<Longrightarrow> is_graph c"
  by (simp add: is_digit_def is_graph_def)

lemma show_nat_graph [simp]: "list_all is_graph (show_nat n)"
  using show_nat_all_digits [of n] by (auto simp: list_all_iff intro: digit_graph)

subsection \<open>Hexadecimal (vtop-wire/src/lib.rs)\<close>

definition hex_digit :: "nat \<Rightarrow> char" where
  "hex_digit n = (if n < 10 then char_of (48 + n) else char_of (87 + n))"

definition hex_val :: "char \<Rightarrow> nat option" where
  "hex_val c =
     (let n = char_code c
      in if 48 \<le> n \<and> n \<le> 57 then Some (n - 48)
         else if 97 \<le> n \<and> n \<le> 102 then Some (n - 87)
         else if 65 \<le> n \<and> n \<le> 70 then Some (n - 55) else None)"

definition hex_byte :: "u8 \<Rightarrow> string" where
  "hex_byte b = [hex_digit (unat b div 16), hex_digit (unat b mod 16)]"

definition hex :: "bytes \<Rightarrow> string" where
  "hex bs = concat (map hex_byte bs)"

text \<open>\<^verbatim>\<open>u8::from_str_radix(_, 16)\<close> of two characters: the first may be a plus sign.\<close>

definition unhex_pair :: "char \<Rightarrow> char \<Rightarrow> u8 option" where
  "unhex_pair a b =
     (if a = CHR ''+'' then map_option of_nat (hex_val b)
      else do { x \<leftarrow> hex_val a; y \<leftarrow> hex_val b; Some (of_nat (16 * x + y)) })"

fun pairs :: "'a list \<Rightarrow> ('a \<times> 'a) list" where
  "pairs (a # b # s) = (a, b) # pairs s"
| "pairs _ = []"

definition unhex :: "string \<Rightarrow> bytes option" where
  "unhex text =
     (let t = trim text
      in if odd (length t) then None
         else collect_opt (map (\<lambda>(a, b). unhex_pair a b) (pairs t)))"

lemma hex_digit_val: "n < 16 \<Longrightarrow> hex_val (hex_digit n) = Some n"
  by (simp add: hex_val_def hex_digit_def Let_def)

lemma hex_digit_graph: "n < 16 \<Longrightarrow> is_graph (hex_digit n)"
  by (simp add: hex_digit_def is_graph_def)

lemma hex_digit_not_plus: "n < 16 \<Longrightarrow> hex_digit n \<noteq> CHR ''+''"
proof -
  assume "n < 16"
  then have "hex_val (hex_digit n) = Some n" by (rule hex_digit_val)
  moreover have "hex_val CHR ''+'' = None" by (simp add: hex_val_def char_code_def)
  ultimately show ?thesis by auto
qed

lemma hex_graph [simp]: "list_all is_graph (hex bs)"
proof -
  have "unat b div 16 < 16" for b :: u8 using u8_bound [of b] by simp
  then show ?thesis by (auto simp: hex_def list_all_iff hex_byte_def intro!: hex_digit_graph)
qed

lemma pairs_hex: "pairs (hex bs) = map (\<lambda>b. (hex_digit (unat b div 16), hex_digit (unat b mod 16))) bs"
  by (induction bs) (simp_all add: hex_def hex_byte_def)

lemma unhex_pair_hex: "unhex_pair (hex_digit (unat b div 16)) (hex_digit (unat b mod 16)) = Some b"
proof -
  have "unat b div 16 < 16" using u8_bound [of b] by simp
  moreover have "16 * word_of_nat (unat b div 16) + word_of_nat (unat b mod 16) = b"
  proof -
    have "b = word_of_nat (16 * (unat b div 16) + unat b mod 16)"
      unfolding mult_div_mod_eq by simp
    also have "\<dots> = 16 * word_of_nat (unat b div 16) + word_of_nat (unat b mod 16)"
      by (simp only: of_nat_add of_nat_mult of_nat_numeral)
    finally show ?thesis by (rule sym)
  qed
  ultimately show ?thesis
    by (simp add: unhex_pair_def hex_digit_not_plus hex_digit_val)
qed

lemma length_hex [simp]: "length (hex bs) = 2 * length bs"
  by (induction bs) (simp_all add: hex_def hex_byte_def)

lemma unhex_hex [simp]: "unhex (hex bs) = Some bs"
  by (simp add: unhex_def Let_def trim_graph pairs_hex comp_def unhex_pair_hex)

lemma hex_nonempty [simp]: "hex bs = [] \<longleftrightarrow> bs = []"
  by (metis length_hex length_0_conv mult_eq_0_iff zero_neq_numeral)

end
