(* ===== verification/FloatText.thy ===== *)
theory FloatText
  imports F64 Text
begin

section \<open>Floating-point numbers: square root, durations, printing and parsing\<close>

subsection \<open>Square root\<close>

text \<open>The integer square root, by its binary digits.\<close>

fun isqrt :: "nat \<Rightarrow> nat" where
  "isqrt n = (if n = 0 then 0
     else let r = 2 * isqrt (n div 4) in if (r + 1) ^ 2 \<le> n then r + 1 else r)"

declare isqrt.simps [simp del]

lemma isqrt_spec: "isqrt n ^ 2 \<le> n \<and> n < (isqrt n + 1) ^ 2"
proof (induction n rule: isqrt.induct)
  case (1 n)
  show ?case
  proof (cases "n = 0")
    case False
    define m where "m = isqrt (n div 4)"
    have "m ^ 2 \<le> n div 4" "n div 4 < (m + 1) ^ 2"
      using 1 False by (simp_all add: m_def)
    then have "4 * m ^ 2 \<le> n" "n < 4 * (m + 1) ^ 2" by linarith+
    then have "(2 * m) ^ 2 \<le> n" "n < (2 * m + 2) ^ 2"
      by (simp_all add: power2_eq_square algebra_simps)
    moreover have "isqrt n = (if (2 * m + 1) ^ 2 \<le> n then 2 * m + 1 else 2 * m)"
      using False by (subst isqrt.simps) (simp add: m_def Let_def)
    ultimately show ?thesis by auto
  qed (simp add: isqrt.simps)
qed

text \<open>
  \<^verbatim>\<open>f64::sqrt\<close>, correctly rounded: the root in units of its last place, to the nearest
  integer.
\<close>

definition sqrt_rat :: "rat \<Rightarrow> rat" where
  "sqrt_rat q =
     (if q = 0 then 0
      else let e = ilog2 q div 2 - 52; x = q * 2 powi (- 2 * e); s = isqrt (nat \<lfloor>x\<rfloor>);
               h = (of_nat s + 1 / 2) ^ 2;
               n = (if h < x \<or> h = x \<and> odd s then s + 1 else s)
           in of_nat n * 2 powi e)"

fun f_sqrt :: "f64 \<Rightarrow> f64" where
  "f_sqrt (Fin q) = (if q < 0 then NaN else Fin (sqrt_rat q))"
| "f_sqrt PInf = PInf" | "f_sqrt x = NaN"

lemma sqrt_rat_nonneg: "0 \<le> sqrt_rat q"
  by (simp add: sqrt_rat_def Let_def)

fun f_abs :: "f64 \<Rightarrow> f64" where
  "f_abs (Fin q) = Fin \<bar>q\<bar>" | "f_abs NaN = NaN" | "f_abs x = PInf"

subsection \<open>Durations\<close>

text \<open>\<^verbatim>\<open>Duration::as_secs_f64\<close>.\<close>

definition dur_to_f64 :: "duration \<Rightarrow> f64" where
  "dur_to_f64 d = f_add (f_of_nat (d div 1000000000)) (f_div (f_of_nat (d mod 1000000000)) (Fin 1000000000))"

subsection \<open>Fixed-point printing\<close>

text \<open>The last \<open>n\<close> decimal digits.\<close>

fun show_digits :: "nat \<Rightarrow> nat \<Rightarrow> string" where
  "show_digits 0 m = []"
| "show_digits (Suc n) m = show_digits n (m div 10) @ [digit_char (m mod 10)]"

lemma length_show_digits [simp]: "length (show_digits n m) = n"
  by (induction n arbitrary: m) simp_all

lemma show_digits_all [simp]: "list_all is_digit (show_digits n m)"
  by (induction n arbitrary: m) simp_all

lemma digits_val_show_digits: "digits_val (show_digits n m) = m mod 10 ^ n"
proof (induction n arbitrary: m)
  case (Suc n)
  have "m mod 10 ^ Suc n = 10 * (m div 10 mod 10 ^ n) + m mod 10"
    by (simp add: mod_mult2_eq)
  with Suc show ?case by (simp add: digits_val_snoc)
qed (simp add: digits_val_def)

lemma digits_val_append: "digits_val (a @ b) = digits_val a * 10 ^ length b + digits_val b"
proof (induction b rule: rev_induct)
  case (snoc c b)
  have "digits_val (a @ b @ [c]) = 10 * digits_val (a @ b) + digit_val c"
    by (simp add: digits_val_snoc flip: append_assoc)
  with snoc show ?case by (simp add: digits_val_snoc algebra_simps)
qed (simp add: digits_val_def)

text \<open>
  \<^verbatim>\<open>{:.n}\<close>: \<open>n\<close> digits after the point, the exact value rounded half to even.
\<close>

definition fmt_nat :: "nat \<Rightarrow> nat \<Rightarrow> string" where
  "fmt_nat n m = show_nat (m div 10 ^ n) @ ''.'' @ show_digits n (m mod 10 ^ n)"

fun fmt_fixed :: "nat \<Rightarrow> f64 \<Rightarrow> string" where
  "fmt_fixed n (Fin q) =
     (let m = rne (\<bar>q\<bar> * 10 ^ n) in (if q < 0 then ''-'' else []) @ fmt_nat n (nat m))"
| "fmt_fixed n PInf = ''inf''" | "fmt_fixed n NInf = ''-inf''" | "fmt_fixed n NaN = ''NaN''"

subsection \<open>Parsing\<close>

definition to_lower :: "char \<Rightarrow> char" where
  "to_lower c = (if 65 \<le> char_code c \<and> char_code c \<le> 90 then char_of (char_code c + 32) else c)"

definition strip_sign :: "string \<Rightarrow> bool \<times> string" where
  "strip_sign s = (case s of [] \<Rightarrow> (False, [])
     | c # cs \<Rightarrow> if c = CHR ''-'' then (True, cs) else if c = CHR ''+'' then (False, cs) else (False, s))"

definition parse_exponent :: "string \<Rightarrow> int option" where
  "parse_exponent s = (case s of [] \<Rightarrow> Some 0
     | _ # cs \<Rightarrow> (case strip_sign cs of (neg, ds) \<Rightarrow>
         map_option (\<lambda>n. if neg then - int n else int n) (parse_digits ds)))"

text \<open>The number that digits, a point and an exponent write.\<close>

definition parse_decimal :: "string \<Rightarrow> rat option" where
  "parse_decimal s =
     (let mant = takeWhile (\<lambda>c. to_lower c \<noteq> CHR ''e'') s;
          ex = dropWhile (\<lambda>c. to_lower c \<noteq> CHR ''e'') s;
          ip = takeWhile (\<lambda>c. c \<noteq> CHR ''.'') mant;
          fp = tl (dropWhile (\<lambda>c. c \<noteq> CHR ''.'') mant)
      in do { digits \<leftarrow> parse_digits (ip @ fp);
              e \<leftarrow> parse_exponent ex;
              Some (of_nat digits * 10 powi (e - int (length fp))) })"

text \<open>\<^verbatim>\<open>str::parse::<f64>\<close>: the nearest float.\<close>

definition parse_f64 :: "string \<Rightarrow> f64 option" where
  "parse_f64 s =
     (case strip_sign s of (neg, t) \<Rightarrow>
        (let u = map to_lower t
         in if u = ''inf'' \<or> u = ''infinity'' then Some (if neg then NInf else PInf)
            else if u = ''nan'' then Some NaN
            else map_option (\<lambda>q. fl (if neg then - q else q)) (parse_decimal t)))"

lemma digit_lower: "is_digit c \<Longrightarrow> to_lower c = c"
  by (simp add: is_digit_def to_lower_def)

lemma digit_not: "is_digit c \<Longrightarrow> c \<noteq> CHR ''e'' \<and> c \<noteq> CHR ''.'' \<and> c \<noteq> CHR ''-'' \<and> c \<noteq> CHR ''+'' \<and>
    c \<noteq> CHR ''i'' \<and> c \<noteq> CHR ''n''"
  by (auto simp: is_digit_def char_code_def)

lemma parse_decimal_fixed:
  assumes a: "list_all is_digit a" "a \<noteq> []" and b: "list_all is_digit b"
  shows "parse_decimal (a @ ''.'' @ b) = Some (of_nat (digits_val (a @ b)) / 10 ^ length b)"
proof -
  have "to_lower CHR ''.'' \<noteq> CHR ''e''" by (simp add: to_lower_def char_code_def)
  moreover have "to_lower c \<noteq> CHR ''e''" if "is_digit c" for c
    using that digit_not by (simp add: digit_lower)
  ultimately have e: "\<forall>c \<in> set (a @ ''.'' @ b). to_lower c \<noteq> CHR ''e''"
    using a b by (simp add: list_all_iff ball_Un)
  have mant: "takeWhile (\<lambda>c. to_lower c \<noteq> CHR ''e'') (a @ ''.'' @ b) = a @ ''.'' @ b"
    using e by (simp only: takeWhile_eq_all_conv)
  have ex: "dropWhile (\<lambda>c. to_lower c \<noteq> CHR ''e'') (a @ ''.'' @ b) = []"
    using e by (simp only: dropWhile_eq_Nil_conv)
  have dots: "\<forall>c \<in> set a. c \<noteq> CHR ''.''" using a by (auto simp: list_all_iff dest: digit_not)
  then have ip: "takeWhile (\<lambda>c. c \<noteq> CHR ''.'') (a @ ''.'' @ b) = a"
    and fp: "tl (dropWhile (\<lambda>c. c \<noteq> CHR ''.'') (a @ ''.'' @ b)) = b"
    by (simp_all add: takeWhile_append2 dropWhile_append2)
  have "parse_digits (a @ b) = Some (digits_val (a @ b))" using a b by (simp add: parse_digits_def)
  then show ?thesis
    unfolding parse_decimal_def Let_def mant ex ip fp
    by (simp add: parse_exponent_def power_int_minus divide_inverse)
qed

lemma parse_f64_fixed:
  assumes a: "list_all is_digit a" "a \<noteq> []" and b: "list_all is_digit b"
  shows "parse_f64 (a @ ''.'' @ b) = Some (fl (of_nat (digits_val (a @ b)) / 10 ^ length b))"
proof -
  obtain c cs where c: "a = c # cs" "is_digit c" using a by (cases a) auto
  then have "strip_sign (a @ ''.'' @ b) = (False, a @ ''.'' @ b)"
    using digit_not [of c] by (simp add: strip_sign_def)
  moreover have "hd (map to_lower (a @ ''.'' @ b)) = c" using c by (simp add: digit_lower)
  then have "map to_lower (a @ ''.'' @ b) \<notin> {''inf'', ''infinity'', ''nan''}"
    using digit_not [OF c(2)] by auto
  ultimately show ?thesis
    by (simp add: parse_f64_def Let_def parse_decimal_fixed [OF assms, simplified])
qed

text \<open>A printed number reads back as the nearest float to what was printed.\<close>

lemma parse_fmt_fixed:
  assumes "0 \<le> q" and "0 < n"
  shows "parse_f64 (fmt_fixed n (Fin q)) = Some (fl (of_int (rne (q * 10 ^ n)) / 10 ^ n))"
proof -
  define m where "m = nat (rne (q * 10 ^ n))"
  have m: "of_nat m = (of_int (rne (q * 10 ^ n)) :: rat)"
    using assms rne_nonneg [of "q * 10 ^ n"] by (simp add: m_def)
  have "digits_val (show_nat (m div 10 ^ n) @ show_digits n (m mod 10 ^ n)) = m"
    using show_nat_digits [of "m div 10 ^ n"]
    by (simp add: digits_val_append digits_val_show_digits div_mult_mod_eq)
  moreover have "fmt_fixed n (Fin q) = show_nat (m div 10 ^ n) @ ''.'' @ show_digits n (m mod 10 ^ n)"
    using assms by (simp add: fmt_nat_def m_def Let_def)
  ultimately show ?thesis
    using parse_f64_fixed [of "show_nat (m div 10 ^ n)" "show_digits n (m mod 10 ^ n)"] m by simp
qed

text \<open>An unsigned integer reads as a float without a point too.\<close>

lemma parse_f64_nat: "parse_f64 (show_nat m) = Some (fl (of_nat m))"
proof -
  obtain c cs where c: "show_nat m = c # cs" by (cases "show_nat m") auto
  then have d: "is_digit c" using show_nat_all_digits [of m] by simp
  have all: "\<forall>x \<in> set (show_nat m). is_digit x" using show_nat_all_digits [of m] by (simp add: list_all_iff)
  then have parts: "takeWhile (\<lambda>c. to_lower c \<noteq> CHR ''e'') (show_nat m) = show_nat m"
    "dropWhile (\<lambda>c. to_lower c \<noteq> CHR ''e'') (show_nat m) = []"
    "takeWhile (\<lambda>c. c \<noteq> CHR ''.'') (show_nat m) = show_nat m"
    "dropWhile (\<lambda>c. c \<noteq> CHR ''.'') (show_nat m) = []"
    by (auto simp: takeWhile_eq_all_conv digit_lower dest: digit_not)
  have "parse_decimal (show_nat m) = Some (of_nat m)"
    unfolding parse_decimal_def Let_def parts by (simp add: parse_exponent_def)
  moreover have "strip_sign (show_nat m) = (False, show_nat m)"
    using digit_not [OF d] c by (simp add: strip_sign_def)
  moreover have "hd (map to_lower (show_nat m)) = c" using c d by (simp add: digit_lower)
  then have "map to_lower (show_nat m) \<notin> {''inf'', ''infinity'', ''nan''}"
    using digit_not [OF d] by auto
  ultimately show ?thesis by (simp add: parse_f64_def Let_def)
qed

lemma fmt_fixed_graph:
  "0 \<le> q \<Longrightarrow> fmt_fixed n (Fin q) \<noteq> [] \<and> list_all is_graph (fmt_fixed n (Fin q))"
proof -
  assume "0 \<le> q"
  moreover have "list_all is_graph (show_digits n m)" for m
    using show_digits_all [of n m] by (auto simp: list_all_iff intro: digit_graph)
  ultimately show ?thesis by (simp add: fmt_nat_def Let_def is_graph_def char_code_def)
qed

end
