(* ===== verification/Link.thy ===== *)
theory Link
  imports Repair FloatText
begin

section \<open>What is known of the network (vtop-wire/src/link.rs)\<close>

text \<open>
  The profile of a network: its rate, round trip, loss and jitter, their estimators, and the
  line of text it is saved as.  The invariant \<open>link_ok\<close> bounds every estimate, whatever
  is measured, so that the timers computed from them are defined.
\<close>

definition RATE_FLOOR :: f64 where "RATE_FLOOR = Fin 125"
definition PRIOR_PACKETS :: f64 where "PRIOR_PACKETS = Fin 5"
definition PRIOR_LOSS :: f64 where "PRIOR_LOSS = flit (1 / 10)"
definition DECAY :: f64 where "DECAY = flit (97 / 100)"

record Link =
  l_rate :: f64
  l_measured :: bool
  l_rtt :: f64
  l_lost :: f64
  l_sent :: f64
  l_jitter :: f64
  l_port :: nat

definition link_default :: Link where
  "link_default = \<lparr>l_rate = RATE_FLOOR, l_measured = False, l_rtt = flit (4 / 10), l_lost = Fin 0,
     l_sent = Fin 0, l_jitter = Fin 0, l_port = 0\<rparr>"

definition link_parse :: "string \<Rightarrow> Link option" where
  "link_parse text =
     (case collect_opt (map parse_f64 (split_whitespace text)) of
        Some [rate, rtt, lost, sent, jitter, measured, port] \<Rightarrow>
          Some \<lparr>l_rate = f_max rate (Fin 50), l_measured = f_lt (flit (1 / 2)) measured,
                l_rtt = f_clamp (flit (2 / 100)) (Fin 5) rtt, l_lost = f_max lost (Fin 0),
                l_sent = f_max sent (Fin 0), l_jitter = f_max jitter (Fin 0),
                l_port = f_to_nat (2 ^ 64 - 1) port\<rparr>
      | _ \<Rightarrow> None)"

definition link_format :: "Link \<Rightarrow> string" where
  "link_format l = unwords [fmt_fixed 1 (l_rate l), fmt_fixed 3 (l_rtt l), fmt_fixed 3 (l_lost l),
     fmt_fixed 3 (l_sent l), fmt_fixed 4 (l_jitter l), show_nat (if l_measured l then 1 else 0),
     show_nat (l_port l)]"

definition loss :: "Link \<Rightarrow> f64" where
  "loss l =
     (let n = f_add (l_sent l) PRIOR_PACKETS;
          mean = f_div (f_add (l_lost l) (f_mul PRIOR_LOSS PRIOR_PACKETS)) n
      in f_clamp (Fin 0) (flit (6 / 10))
           (f_add mean (f_sqrt (f_div (f_mul mean (f_sub (Fin 1) mean)) n))))"

definition known :: "Link \<Rightarrow> bool" where
  "known l = f_lt (Fin 0) (l_sent l)"

definition loss_pct :: "Link \<Rightarrow> u8" where
  "loss_pct l =
     (if known l then of_nat (f_to_nat 255 (f_round (f_mul (loss l) (Fin 100)))) else LOSS_UNKNOWN)"

definition duplicate :: "Link \<Rightarrow> bool" where
  "duplicate l \<longleftrightarrow> \<not> known l \<or> f_le (flit (3 / 100)) (loss l)"

definition observe :: "nat \<Rightarrow> nat \<Rightarrow> Link \<Rightarrow> Link" where
  "observe lost sent l =
     (let d = f_powi DECAY sent
      in l\<lparr>l_lost := f_add (f_mul (l_lost l) d) (f_of_nat lost),
           l_sent := f_add (f_mul (l_sent l) d) (f_of_nat sent)\<rparr>)"

definition packet_time :: "Link \<Rightarrow> f64" where
  "packet_time l = f_div (f_of_nat DATA_WIRE) (l_rate l)"

definition slack :: "Link \<Rightarrow> f64" where
  "slack l =
     (let pt = packet_time l
      in f_add (f_max (f_max (f_div pt (Fin 4)) (f_min (f_mul (Fin 4) (l_jitter l)) (f_mul (Fin 2) pt)))
           (flit (25 / 1000))) (flit (5 / 100)))"

definition sample_rate :: "nat \<Rightarrow> f64 \<Rightarrow> bool \<Rightarrow> Link \<Rightarrow> Link" where
  "sample_rate wire_bytes per first l =
     (let sample = f_clamp (Fin 50) (Fin 1000000) (f_div (f_of_nat wire_bytes) per);
          rate = (if first \<and> \<not> l_measured l then sample
            else f_add (f_mul (flit (1 / 2)) (l_rate l)) (f_mul (flit (1 / 2)) sample));
          l1 = l\<lparr>l_rate := rate, l_measured := True\<rparr>
      in l1\<lparr>l_jitter := f_add (f_mul (flit (3 / 4)) (l_jitter l1))
            (f_mul (flit (1 / 4)) (f_abs (f_sub per (packet_time l1))))\<rparr>)"

definition sample_rtt :: "f64 \<Rightarrow> Link \<Rightarrow> Link" where
  "sample_rtt s l =
     (let sample = f_clamp (flit (5 / 100)) (Fin 5) s
      in l\<lparr>l_rtt := (if f_lt sample (l_rtt l) then sample
            else f_add (f_mul (flit (9 / 10)) (l_rtt l)) (f_mul (flit (1 / 10)) sample))\<rparr>)"

subsection \<open>Intervals of floats\<close>

text \<open>
  \<open>f_in a b x\<close>: a finite float within the bounds.  Rounding is monotone, so the result of an
  operation lies within the rounded results for its bounds.
\<close>

definition f_in :: "rat \<Rightarrow> rat \<Rightarrow> f64 \<Rightarrow> bool" where
  "f_in a b x = (case x of Fin q \<Rightarrow> a \<le> q \<and> q \<le> b | _ \<Rightarrow> False)"

lemma f_in_Fin [simp]: "f_in a b (Fin q) \<longleftrightarrow> a \<le> q \<and> q \<le> b"
  by (simp add: f_in_def)

lemma f_inE: "f_in a b x \<Longrightarrow> (\<And>q. x = Fin q \<Longrightarrow> a \<le> q \<Longrightarrow> q \<le> b \<Longrightarrow> thesis) \<Longrightarrow> thesis"
  by (cases x) (auto simp: f_in_def)

lemma f_in_weaken: "f_in a b x \<Longrightarrow> a' \<le> a \<Longrightarrow> b \<le> b' \<Longrightarrow> f_in a' b' x"
  by (auto elim!: f_inE)

definition big :: rat where "big = 2 ^ 1023"

lemma big_less: "big < 2 ^ 1024" "0 < big"
  by (simp_all add: big_def)

lemma fl_in:
  assumes "lo \<le> q" "q \<le> hi" "a \<le> fl_rat lo" "fl_rat hi \<le> b" "- big \<le> a" "b \<le> big"
  shows "f_in a b (fl q)"
proof -
  have "a \<le> fl_rat q" using fl_rat_mono [OF assms(1)] assms(3) by simp
  moreover have "fl_rat q \<le> b" using fl_rat_mono [OF assms(2)] assms(4) by simp
  ultimately show ?thesis using assms(5,6) big_less by (simp add: fl_def Let_def)
qed

lemma f_in_add:
  assumes "f_in a b x" "f_in c d y" "l \<le> fl_rat (a + c)" "fl_rat (b + d) \<le> u" "- big \<le> l" "u \<le> big"
  shows "f_in l u (f_add x y)"
  using assms by (auto elim!: f_inE intro!: fl_in [of "a + c" _ "b + d"])

lemma f_in_sub:
  assumes "f_in a b x" "f_in c d y" "l \<le> fl_rat (a - d)" "fl_rat (b - c) \<le> u" "- big \<le> l" "u \<le> big"
  shows "f_in l u (f_sub x y)"
  using assms by (auto simp: f_sub_def elim!: f_inE intro!: fl_in [of "a - d" _ "b - c"])

lemma f_in_mul:
  assumes "f_in a b x" "f_in c d y" "0 \<le> a" "0 \<le> c"
    and "l \<le> fl_rat (a * c)" "fl_rat (b * d) \<le> u" "- big \<le> l" "u \<le> big"
  shows "f_in l u (f_mul x y)"
  using assms by (auto elim!: f_inE intro!: fl_in [of "a * c" _ "b * d"] mult_mono)

lemma f_in_div:
  assumes "f_in a b x" "f_in c d y" "0 \<le> a" "0 < c"
    and "l \<le> fl_rat (a / d)" "fl_rat (b / c) \<le> u" "- big \<le> l" "u \<le> big"
  shows "f_in l u (f_div x y)"
  using assms
  by (auto elim!: f_inE intro!: fl_in [of "a / d" _ "b / c"] frac_le)

lemma f_in_max: "f_in a b x \<Longrightarrow> f_in c d y \<Longrightarrow> f_in (max a c) (max b d) (f_max x y)"
  by (auto simp: f_max_def elim!: f_inE)

lemma f_in_min: "f_in a b x \<Longrightarrow> f_in c d y \<Longrightarrow> f_in (min a c) (min b d) (f_min x y)"
  by (auto simp: f_min_def elim!: f_inE)

lemma f_in_clamp:
  assumes "x \<noteq> NaN" "lo \<le> hi" shows "f_in lo hi (f_clamp (Fin lo) (Fin hi) x)"
  using assms by (cases x) (auto simp: f_clamp_def)

lemma f_in_not_NaN: "f_in a b x \<Longrightarrow> x \<noteq> NaN"
  by (auto elim!: f_inE)

lemma fl_rat_nonpos: "x \<le> 0 \<Longrightarrow> fl_rat x \<le> 0"
  using fl_rat_mono [of x 0] by simp

lemma fl_not_NaN [simp]: "fl q \<noteq> NaN"
  by (simp add: fl_def Let_def)

text \<open>The decimal constants of the code.\<close>

lemma flit_Fin: "\<bar>q\<bar> \<le> 1 \<Longrightarrow> flit q = Fin (fl_rat q)"
  using fl_finite [of q 1] by simp

lemma fl_rat_consts:
  "fl_rat (1 / 2) = 1 / 2" "fl_rat (1 / 4) = 1 / 4" "fl_rat (3 / 4) = 3 / 4"
  by code_simp+

lemma fl_rat_tenth: "fl_rat (fl_rat (1 / 10) * 5) = 1 / 2"
  by code_simp

lemma fl_Fin: "\<bar>q\<bar> \<le> 1048576 \<Longrightarrow> fl q = Fin (fl_rat q)"
  using fl_finite [of q 1048576] by simp

lemma prior_half: "f_mul PRIOR_LOSS PRIOR_PACKETS = Fin (1 / 2)"
proof -
  have "0 \<le> fl_rat (1 / 10)" "fl_rat (1 / 10) \<le> 1"
    using fl_rat_nonneg [of "1 / 10"] fl_rat_mono [of "1 / 10" 1] fl_rat_of_int [of 1] by simp_all
  then show ?thesis
    unfolding PRIOR_LOSS_def PRIOR_PACKETS_def
    by (simp add: flit_Fin fl_Fin fl_rat_tenth)
qed

subsection \<open>The invariant\<close>

text \<open>
  Counts below \<open>2 ^ 30\<close>, and no more lost than sent.  The bounds are those of the code's own
  clamps, widened to binary fractions.
\<close>

definition link_ok :: "Link \<Rightarrow> bool" where
  "link_ok l \<longleftrightarrow> f_in 50 1000000 (l_rate l) \<and> f_in (1 / 64) 6 (l_rtt l) \<and>
     f_in 0 1073741824 (l_lost l) \<and> f_in 0 1073741824 (l_sent l) \<and> f_le (l_lost l) (l_sent l) \<and>
     f_in 0 1073741824 (l_jitter l)"

lemma link_okE:
  assumes "link_ok l"
  obtains r t a b j where "l_rate l = Fin r" "50 \<le> r" "r \<le> 1000000"
    and "l_rtt l = Fin t" "1 / 64 \<le> t" "t \<le> 6"
    and "l_lost l = Fin a" "l_sent l = Fin b" "0 \<le> a" "a \<le> b" "b \<le> 1073741824"
    and "l_jitter l = Fin j" "0 \<le> j" "j \<le> 1073741824"
  using assms by (auto simp: link_ok_def elim!: f_inE)

lemma link_ok_port [simp]: "link_ok (l\<lparr>l_port := p\<rparr>) = link_ok l"
  by (simp add: link_ok_def)

lemma link_ok_default [simp]: "link_ok link_default"
proof -
  have "1 / 64 \<le> fl_rat (4 / 10)" "fl_rat (4 / 10) \<le> 6" by code_simp+
  then show ?thesis by (simp add: link_ok_def link_default_def RATE_FLOOR_def flit_Fin)
qed

text \<open>The loss estimate is a number from 0 to 0.6, its percentage at most 60.\<close>

lemma loss_in: assumes "link_ok l" shows "f_in 0 (fl_rat (6 / 10)) (loss l)"
proof -
  from assms obtain a b where ab: "l_lost l = Fin a" "l_sent l = Fin b" "0 \<le> a" "a \<le> b" "b \<le> 1073741824"
    by (rule link_okE)
  have finite: "fl q = Fin (fl_rat q)" if "0 \<le> q" "q \<le> 2147483648" for q
    using fl_finite [of q 2147483648] that by simp
  define n where "n = fl_rat (b + 5)"
  define m where "m = fl_rat (fl_rat (a + 1 / 2) / n)"
  have one: "fl_rat 1 = 1" and four: "fl_rat 4 = 4" using fl_rat_of_int [of 1] fl_rat_of_int [of 4] by simp_all
  have n4: "4 \<le> n" unfolding n_def using fl_rat_mono [of 4 "b + 5"] ab four by simp
  have le: "fl_rat (a + 1 / 2) \<le> n" unfolding n_def by (rule fl_rat_mono) (use ab in simp)
  have num: "0 \<le> fl_rat (a + 1 / 2)" by (rule fl_rat_nonneg) (use ab in simp)
  then have q: "0 \<le> fl_rat (a + 1 / 2) / n" "fl_rat (a + 1 / 2) / n \<le> 1" using le n4 by (simp_all add: divide_le_eq)
  then have m: "0 \<le> m" "m \<le> 1" unfolding m_def using fl_rat_nonneg fl_rat_mono [of _ 1] one by auto
  have mean: "f_div (f_add (l_lost l) (f_mul PRIOR_LOSS PRIOR_PACKETS)) (f_add (l_sent l) PRIOR_PACKETS) = Fin m"
  proof -
    have "fl (fl_rat (a + 1 / 2) / n) = Fin m" unfolding m_def using q by (intro finite) auto
    then show ?thesis unfolding prior_half using ab n4 by (simp add: PRIOR_PACKETS_def finite n_def [symmetric])
  qed
  define v where "v = fl_rat (fl_rat (m * fl_rat (1 - m)) / n)"
  have 1: "0 \<le> fl_rat (1 - m)" "fl_rat (1 - m) \<le> 1"
    using m fl_rat_nonneg [of "1 - m"] fl_rat_mono [of "1 - m" 1] one by auto
  then have 2: "0 \<le> m * fl_rat (1 - m)" "m * fl_rat (1 - m) \<le> 1" using m by (auto intro: mult_le_one)
  then have 3: "0 \<le> fl_rat (m * fl_rat (1 - m))" "fl_rat (m * fl_rat (1 - m)) \<le> 1"
    using fl_rat_nonneg fl_rat_mono [OF 2(2)] one by auto
  then have 4: "0 \<le> fl_rat (m * fl_rat (1 - m)) / n" "fl_rat (m * fl_rat (1 - m)) / n \<le> 1"
    using n4 by (auto simp: divide_le_eq)
  then have v: "0 \<le> v" unfolding v_def by (intro fl_rat_nonneg)
  have var: "f_div (f_mul (Fin m) (f_sub (Fin 1) (Fin m))) (f_add (l_sent l) PRIOR_PACKETS) = Fin v"
  proof -
    have "fl (fl_rat (m * fl_rat (1 - m)) / n) = Fin v" unfolding v_def using 4 by (intro finite) auto
    then show ?thesis using m 1 2 3 n4 ab by (simp add: f_sub_def PRIOR_PACKETS_def finite n_def [symmetric])
  qed
  have eq: "loss l = f_clamp (Fin 0) (flit (6 / 10)) (fl (m + sqrt_rat v))"
    unfolding loss_def Let_def mean var using v by simp
  have "0 \<le> fl_rat (6 / 10)" by code_simp
  then show ?thesis unfolding eq by (simp add: flit_Fin f_in_clamp)
qed

lemma loss_pct_bound:
  assumes "link_ok l" shows "loss_pct l \<le> 60 \<or> loss_pct l = LOSS_UNKNOWN"
proof (cases "known l")
  case True
  from loss_in [OF assms] obtain q where q: "loss l = Fin q" "0 \<le> q" "q \<le> fl_rat (6 / 10)" by (rule f_inE)
  have c: "fl_rat (fl_rat (6 / 10) * 100) \<le> 60" by code_simp
  have "f_in 0 60 (f_mul (loss l) (Fin 100))"
    by (rule f_in_mul [OF loss_in [OF assms], of 100 100]) (use c in \<open>simp_all add: big_def\<close>)
  then obtain p where p: "f_mul (loss l) (Fin 100) = Fin p" "0 \<le> p" "p \<le> 60" by (rule f_inE)
  then have "nat \<lfloor>p + 1 / 2\<rfloor> \<le> 60" by linarith
  then have "f_to_nat 255 (f_round (f_mul (loss l) (Fin 100))) \<le> 60"
    unfolding p(1) using p(2) by (simp add: min_def)
  then have "loss_pct l \<le> word_of_nat 60"
    using True by (simp add: loss_pct_def word_le_nat_alt unat_of_nat take_bit_nat_eq_self)
  then show ?thesis by simp
qed (simp add: loss_pct_def)

subsection \<open>Every estimator keeps it\<close>

lemma fl_rat_1: "fl_rat 1 = 1"
  using fl_rat_of_int [of 1] by simp

lemma powi_loop_unit:
  assumes "f_in 0 1 a" and "f_in 0 1 r" shows "f_in 0 1 (f_powi_loop a n r)"
  using assms
proof (induction a n r rule: f_powi_loop.induct)
  case (1 a n r)
  have mul: "f_in 0 1 (f_mul x y)" if "f_in 0 1 x" "f_in 0 1 y" for x y
    by (rule f_in_mul [OF that]) (simp_all add: fl_rat_1 big_def)
  show ?case
    using 1 mul by (subst f_powi_loop.simps) (simp add: Let_def)
qed

text \<open>Once a factor below one is in, the product stays below it.\<close>

lemma powi_loop_below:
  assumes "f_in 0 1 a" and "f_in 0 (63 / 64) r" shows "f_in 0 (63 / 64) (f_powi_loop a n r)"
  using assms
proof (induction a n r rule: f_powi_loop.induct)
  case (1 a n r)
  have c: "fl_rat (63 / 64) \<le> 63 / 64" by code_simp
  have mul: "f_in 0 1 (f_mul a a)"
    by (rule f_in_mul [OF 1(2) 1(2)]) (simp_all add: fl_rat_1 big_def)
  have mulr: "f_in 0 (63 / 64) (f_mul r a)"
    by (rule f_in_mul [OF 1(3) 1(2)]) (use c in \<open>simp_all add: big_def\<close>)
  show ?case
    using 1 mul mulr by (subst f_powi_loop.simps) (simp add: Let_def)
qed

lemma powi_loop_pos:
  assumes "f_in 0 (63 / 64) a" and "f_in 0 1 r" and "0 < n" shows "f_in 0 (63 / 64) (f_powi_loop a n r)"
  using assms
proof (induction a n r rule: f_powi_loop.induct)
  case (1 a n r)
  have c: "fl_rat (63 / 64) \<le> 63 / 64" by code_simp
  have a1: "f_in 0 1 a" using 1(2) by (rule f_in_weaken) simp_all
  have aa: "f_in 0 (63 / 64) (f_mul a a)"
    by (rule f_in_mul [OF 1(2) a1]) (use c in \<open>simp_all add: big_def\<close>)
  have ra: "f_in 0 (63 / 64) (f_mul r a)"
    by (rule f_in_mul [OF 1(3) 1(2)]) (use c in \<open>simp_all add: big_def\<close>)
  have ra1: "f_in 0 1 (f_mul a a)" using aa by (rule f_in_weaken) simp_all
  show ?case
  proof (cases "n div 2 = 0")
    case True
    with 1(4) have "odd n" by (cases "even n") (auto elim!: evenE)
    with True ra show ?thesis by (subst f_powi_loop.simps) (simp add: Let_def)
  next
    case False
    show ?thesis
    proof (cases "odd n")
      case True
      then show ?thesis using False powi_loop_below [OF ra1 ra]
        by (subst f_powi_loop.simps) (simp add: Let_def)
    next
      case even: False
      have "f_in 0 (63 / 64) (f_powi_loop (f_mul a a) (n div 2) r)"
        using 1(1) [OF refl False] aa 1(3) False even by simp
      then show ?thesis using False even by (subst f_powi_loop.simps) (simp add: Let_def)
    qed
  qed
qed

lemma decay_in: "f_in 0 1 (f_powi DECAY n)" "0 < n \<Longrightarrow> f_in 0 (63 / 64) (f_powi DECAY n)"
proof -
  have "0 \<le> fl_rat (97 / 100)" "fl_rat (97 / 100) \<le> 63 / 64" by code_simp+
  then have d: "f_in 0 (63 / 64) DECAY" by (simp add: DECAY_def flit_Fin)
  then have d1: "f_in 0 1 DECAY" by (rule f_in_weaken) simp_all
  show "f_in 0 1 (f_powi DECAY n)" unfolding f_powi_def by (rule powi_loop_unit [OF d1]) simp
  assume "0 < n"
  then show "f_in 0 (63 / 64) (f_powi DECAY n)" unfolding f_powi_def by (intro powi_loop_pos [OF d]) simp_all
qed

lemma link_ok_observe:
  assumes "link_ok l" and "lost \<le> sent" and "sent \<le> 1048576"
  shows "link_ok (observe lost sent l)"
proof -
  from assms(1) obtain a b where ab: "l_lost l = Fin a" "l_sent l = Fin b" "0 \<le> a" "a \<le> b" "b \<le> 1073741824"
    by (rule link_okE)
  have finite: "fl q = Fin (fl_rat q)" if "0 \<le> q" "q \<le> 2147483648" for q
    using fl_finite [of q 2147483648] that by simp
  obtain d where d: "f_powi DECAY sent = Fin d" "0 \<le> d" "d \<le> 1" "0 < sent \<Longrightarrow> d \<le> 63 / 64"
    using decay_in [of sent] by (auto elim!: f_inE)
  have n: "f_of_nat lost = Fin (of_nat lost)" "f_of_nat sent = Fin (of_nat sent)"
    using assms(2,3) by (simp_all add: f_of_nat_small)
  have ad: "0 \<le> a * d" "a * d \<le> b * d" "b * d \<le> 1073741824"
    using ab d mult_mono [of b 1073741824 d 1] by (auto intro: mult_mono)
  have m: "f_mul (Fin a) (Fin d) = Fin (fl_rat (a * d))" "f_mul (Fin b) (Fin d) = Fin (fl_rat (b * d))"
    using ad by (simp_all add: finite)
  have big': "fl_rat 1073741824 = 1073741824" "fl_rat 1056964608 = 1056964608"
    using fl_rat_of_int [of 1073741824] fl_rat_of_int [of 1056964608] by simp_all
  have ord: "0 \<le> fl_rat (a * d)" "fl_rat (a * d) \<le> fl_rat (b * d)" "fl_rat (b * d) \<le> 1073741824"
    using ad fl_rat_nonneg fl_rat_mono [OF ad(2)] fl_rat_mono [OF ad(3)] big' by auto
  have sum: "fl_rat (b * d) + of_nat sent \<le> 1073741824"
  proof (cases "sent = 0")
    case False
    then have "b * d \<le> 1073741824 * (63 / 64)" using ab d by (intro mult_mono) auto
    then have "fl_rat (b * d) \<le> 1056964608" using fl_rat_mono [of "b * d" 1056964608] big' by simp
    moreover have "(of_nat sent :: rat) \<le> of_nat 1048576" using assms(3) by (rule of_nat_mono)
    ultimately show ?thesis by simp
  qed (use ord in simp)
  have lo: "(of_nat lost :: rat) \<le> of_nat sent" using assms(2) by simp
  have s: "0 \<le> fl_rat (a * d) + of_nat lost"
    "fl_rat (a * d) + of_nat lost \<le> fl_rat (b * d) + of_nat sent" using ord lo by auto
  then have le: "0 \<le> fl_rat (fl_rat (a * d) + of_nat lost)"
    "fl_rat (fl_rat (a * d) + of_nat lost) \<le> fl_rat (fl_rat (b * d) + of_nat sent)"
    "fl_rat (fl_rat (b * d) + of_nat sent) \<le> 1073741824"
    using fl_rat_nonneg fl_rat_mono [OF s(2)] fl_rat_mono [OF sum] big' by auto
  have "l_lost (observe lost sent l) = Fin (fl_rat (fl_rat (a * d) + of_nat lost))"
    "l_sent (observe lost sent l) = Fin (fl_rat (fl_rat (b * d) + of_nat sent))"
    using s sum by (simp_all add: observe_def Let_def ab d(1) n m finite del: f_mul.simps)
  then show ?thesis
    using assms(1) le by (auto simp: link_ok_def observe_def Let_def)
qed

lemma packet_time_in: assumes "link_ok l" shows "f_in (1 / 4096) 10 (packet_time l)"
proof -
  have r: "f_in 50 1000000 (l_rate l)" using assms by (simp add: link_ok_def)
  have "DATA_WIRE = 462" by (simp add: DATA_WIRE_def sizes fec_sizes DATA_HEADER_def)
  then have w: "f_in 462 462 (f_of_nat DATA_WIRE)" by (simp add: f_of_nat_small)
  have c: "1 / 4096 \<le> fl_rat (462 / 1000000)" "fl_rat (462 / 50) \<le> 10" by code_simp+
  show ?thesis
    unfolding packet_time_def by (rule f_in_div [OF w r _ _ c]) (simp_all add: big_def)
qed

lemma link_ok_sample_rate:
  assumes "link_ok l" and "f_in (1 / 1024) 1048576 per"
  shows "link_ok (sample_rate bytes per first l)"
proof -
  define sample where "sample = f_clamp (Fin 50) (Fin 1000000) (f_div (f_of_nat bytes) per)"
  from assms(2) obtain p where p: "per = Fin p" "1 / 1024 \<le> p" by (rule f_inE)
  have "f_of_nat bytes \<noteq> NaN \<and> f_of_nat bytes \<noteq> NInf"
    using fl_rat_nonneg [of "of_nat bytes"] by (auto simp: f_of_nat_def fl_def Let_def split: if_splits)
  then have "f_div (f_of_nat bytes) per \<noteq> NaN" using p by (cases "f_of_nat bytes") (auto simp: inf_sign_def)
  then have s: "f_in 50 1000000 sample" unfolding sample_def by (rule f_in_clamp) simp
  define rate where "rate = (if first \<and> \<not> l_measured l then sample
    else f_add (f_mul (flit (1 / 2)) (l_rate l)) (f_mul (flit (1 / 2)) sample))"
  have half: "f_in (1 / 2) (1 / 2) (flit (1 / 2))" by (simp add: flit_Fin fl_rat_consts)
  have c: "fl_rat 25 = 25" "fl_rat 500000 = 500000" "fl_rat 50 = 50" "fl_rat 1000000 = 1000000"
    using fl_rat_of_int [of 25] fl_rat_of_int [of 500000] fl_rat_of_int [of 50] fl_rat_of_int [of 1000000]
    by simp_all
  have halved: "f_in 25 500000 (f_mul (flit (1 / 2)) x)" if "f_in 50 1000000 x" for x
    by (rule f_in_mul [OF half that]) (simp_all add: c big_def)
  have lr: "f_in 50 1000000 (l_rate l)" using assms(1) by (simp add: link_ok_def)
  have r: "f_in 50 1000000 rate"
    using s f_in_add [OF halved [OF lr] halved [OF s], of 50 1000000]
    by (simp add: rate_def c big_def)
  define l1 where "l1 = l\<lparr>l_rate := rate, l_measured := True\<rparr>"
  have ok1: "link_ok l1" using assms(1) r by (simp add: link_ok_def l1_def)
  have j: "f_in 0 1073741824 (l_jitter l1)" using ok1 by (simp add: link_ok_def)
  have cj: "fl_rat 805306368 = 805306368" "fl_rat 1048576 = 1048576" "fl_rat 262144 = 262144"
    "fl_rat 805568512 = 805568512" "fl_rat (-10) = -10" "fl_rat 10 = 10"
    using fl_rat_of_int [of 10] fl_rat_of_int [of 805306368] fl_rat_of_int [of 1048576] fl_rat_of_int [of 262144]
      fl_rat_of_int [of 805568512] fl_rat_of_int [of "-10"] by simp_all
  have diff: "f_in (- 10) 1048576 (f_sub per (packet_time l1))"
  proof -
    have "f_in 0 10 (packet_time l1)" using packet_time_in [OF ok1] by (rule f_in_weaken) simp_all
    moreover have "f_in 0 1048576 per" using assms(2) by (rule f_in_weaken) simp_all
    ultimately show ?thesis by (intro f_in_sub [of 0 1048576 _ 0 10]) (simp_all add: cj big_def)
  qed
  then have dev: "f_in 0 1048576 (f_abs (f_sub per (packet_time l1)))" by (auto elim!: f_inE)
  have q: "f_in (1 / 4) (1 / 4) (flit (1 / 4))" "f_in (3 / 4) (3 / 4) (flit (3 / 4))"
    by (simp_all add: flit_Fin fl_rat_consts)
  have "f_in 0 805306368 (f_mul (flit (3 / 4)) (l_jitter l1))"
    by (rule f_in_mul [OF q(2) j]) (simp_all add: cj big_def)
  moreover have "f_in 0 262144 (f_mul (flit (1 / 4)) (f_abs (f_sub per (packet_time l1))))"
    by (rule f_in_mul [OF q(1) dev]) (simp_all add: cj big_def)
  ultimately have "f_in 0 1073741824 (f_add (f_mul (flit (3 / 4)) (l_jitter l1))
      (f_mul (flit (1 / 4)) (f_abs (f_sub per (packet_time l1)))))"
    by (rule f_in_add) (simp_all add: cj big_def)
  moreover have "sample_rate bytes per first l = l1\<lparr>l_jitter := f_add (f_mul (flit (3 / 4)) (l_jitter l1))
      (f_mul (flit (1 / 4)) (f_abs (f_sub per (packet_time l1))))\<rparr>"
    unfolding sample_rate_def Let_def l1_def rate_def sample_def by simp
  ultimately show ?thesis using ok1 by (simp add: link_ok_def)
qed

lemma link_ok_sample_rtt:
  assumes "link_ok l" and "s \<noteq> NaN" shows "link_ok (sample_rtt s l)"
proof -
  have c: "1 / 32 \<le> fl_rat (5 / 100)" "fl_rat (5 / 100) \<le> 5" by code_simp+
  have "f_in (fl_rat (5 / 100)) 5 (f_clamp (flit (5 / 100)) (Fin 5) s)"
    using c assms(2) by (simp add: flit_Fin f_in_clamp)
  then have sm: "f_in (1 / 32) 5 (f_clamp (flit (5 / 100)) (Fin 5) s)" (is "f_in _ _ ?s")
    by (rule f_in_weaken) (use c in simp_all)
  have t: "f_in (1 / 64) 6 (l_rtt l)" using assms(1) by (simp add: link_ok_def)
  have k: "f_in (7 / 8) 1 (flit (9 / 10))" "f_in (3 / 32) (1 / 8) (flit (1 / 10))"
    by (simp_all add: flit_Fin) code_simp+
  have r: "7 / 512 \<le> fl_rat (7 / 512)" "fl_rat (27 / 5) \<le> 11 / 2" "fl_rat (fl_rat (9 / 10) * 6) \<le> 11 / 2"
    "3 / 1024 \<le> fl_rat (3 / 1024)" "fl_rat (fl_rat (1 / 10) * 5) \<le> 1 / 2" "1 / 64 \<le> fl_rat (17 / 1024)"
    "fl_rat 6 \<le> 6"
    by code_simp+
  have a: "f_in (7 / 512) (11 / 2) (f_mul (flit (9 / 10)) (l_rtt l))"
  proof -
    have "f_in (7 / 8) (fl_rat (9 / 10)) (flit (9 / 10))" by (simp add: flit_Fin) code_simp
    then show ?thesis by (rule f_in_mul [OF _ t]) (use r in \<open>simp_all add: big_def\<close>)
  qed
  have b: "f_in (3 / 1024) (1 / 2) (f_mul (flit (1 / 10)) ?s)"
  proof -
    have "f_in (3 / 32) (fl_rat (1 / 10)) (flit (1 / 10))" by (simp add: flit_Fin) code_simp
    then show ?thesis by (rule f_in_mul [OF _ sm]) (use r in \<open>simp_all add: big_def\<close>)
  qed
  have "f_in (1 / 64) 6 (f_add (f_mul (flit (9 / 10)) (l_rtt l)) (f_mul (flit (1 / 10)) ?s))"
    by (rule f_in_add [OF a b]) (use r in \<open>simp_all add: big_def\<close>)
  moreover have "f_in (1 / 64) 6 ?s" using sm by (rule f_in_weaken) simp_all
  ultimately show ?thesis using assms(1) by (simp add: link_ok_def sample_rtt_def Let_def)
qed

lemma slack_in: assumes "link_ok l" shows "f_in (1 / 16) 32 (slack l)"
proof -
  define pt where "pt = packet_time l"
  have p: "f_in (1 / 4096) 10 pt" unfolding pt_def by (rule packet_time_in [OF assms])
  have c: "fl_rat (10 / 4) \<le> 3" "1 / 16384 \<le> fl_rat (1 / 16384)" "fl_rat 20 = 20" "fl_rat 4294967296 = 4294967296"
    "1 / 64 \<le> fl_rat (25 / 1000)" "fl_rat (25 / 1000) \<le> 1" "3 / 64 \<le> fl_rat (5 / 100)" "fl_rat (5 / 100) \<le> 1"
    "1 / 16 \<le> fl_rat (4 / 64)" "fl_rat 21 \<le> 32"
    by code_simp+
  have q1: "f_in 0 3 (f_div pt (Fin 4))"
    using p by (intro f_in_div [of "1 / 4096" 10 _ 4 4]) (use c in \<open>simp_all add: big_def fl_rat_nonneg\<close>)
  have j: "f_in 0 1073741824 (l_jitter l)" using assms by (simp add: link_ok_def)
  have q2: "f_in 0 4294967296 (f_mul (Fin 4) (l_jitter l))"
    by (rule f_in_mul [OF _ j, of 4 4]) (use c in \<open>simp_all add: big_def\<close>)
  have q3: "f_in 0 20 (f_mul (Fin 2) pt)"
    by (rule f_in_mul [OF _ p, of 2 2]) (use c in \<open>simp_all add: big_def fl_rat_nonneg\<close>)
  have q4: "f_in 0 20 (f_min (f_mul (Fin 4) (l_jitter l)) (f_mul (Fin 2) pt))"
    using f_in_min [OF q2 q3] by simp
  have q5: "f_in (1 / 64) 1 (flit (25 / 1000))" using c by (simp add: flit_Fin)
  have q6: "f_in (1 / 64) 20 (f_max (f_max (f_div pt (Fin 4)) (f_min (f_mul (Fin 4) (l_jitter l)) (f_mul (Fin 2) pt)))
      (flit (25 / 1000)))"
    using f_in_max [OF f_in_max [OF q1 q4] q5] by simp
  have q7: "f_in (3 / 64) 1 (flit (5 / 100))" using c by (simp add: flit_Fin)
  show ?thesis
    unfolding slack_def Let_def pt_def [symmetric]
    by (rule f_in_add [OF q6 q7]) (use c in \<open>simp_all add: big_def\<close>)
qed

subsection \<open>Saving and reading back\<close>

text \<open>The value of a number printed with \<open>n\<close> decimals.\<close>

definition printed :: "nat \<Rightarrow> rat \<Rightarrow> rat" where
  "printed n q = fl_rat (of_int (rne (q * 10 ^ n)) / 10 ^ n)"

lemma printed_mono: "p \<le> q \<Longrightarrow> printed n p \<le> printed n q"
  unfolding printed_def
  by (intro fl_rat_mono divide_right_mono) (simp_all add: rne_mono)

lemma printed_of_nat: "m < 2 ^ 53 \<Longrightarrow> printed n (of_nat m) = of_nat m"
proof -
  assume m: "m < 2 ^ 53"
  have "rne (of_nat m * 10 ^ n) = int m * 10 ^ n"
    using rne_of_int [of "int m * 10 ^ n"] by simp
  then show ?thesis using m fl_rat_of_int [of "int m"] by (simp add: printed_def)
qed

lemma parse_printed:
  assumes "0 \<le> q" "q \<le> 1073741824" "0 < n"
  shows "parse_f64 (fmt_fixed n (Fin q)) = Some (Fin (printed n q))"
    and "0 \<le> printed n q" "printed n q \<le> 1073741824"
proof -
  show p: "0 \<le> printed n q" "printed n q \<le> 1073741824"
    using printed_mono [of 0 q n] printed_mono [of q "of_nat 1073741824" n] assms
      printed_of_nat [of 0 n] printed_of_nat [of 1073741824 n] by simp_all
  let ?v = "of_int (rne (q * 10 ^ n)) / 10 ^ n :: rat"
  have "rne (q * 10 ^ n) \<le> rne (of_int (1073741824 * 10 ^ n))"
    by (rule rne_mono) (use assms in simp)
  then have "(of_int (rne (q * 10 ^ n)) :: rat) \<le> of_int (1073741824 * 10 ^ n)"
    unfolding rne_of_int by (rule of_int_le_iff [THEN iffD2])
  then have "?v \<le> 1073741824" by (simp add: divide_le_eq)
  moreover have "0 \<le> ?v" using assms by (simp add: rne_nonneg)
  ultimately have "fl ?v = Fin (fl_rat ?v)" using fl_finite [of ?v 1073741824] by simp
  then show "parse_f64 (fmt_fixed n (Fin q)) = Some (Fin (printed n q))"
    using parse_fmt_fixed [OF assms(1,3)] by (simp add: printed_def)
qed

lemma link_parse_format:
  assumes "link_ok l" and "l_port l < 2 ^ 53"
  shows "\<exists>l'. link_parse (link_format l) = Some l' \<and> link_ok l' \<and> l_measured l' = l_measured l \<and>
    l_port l' = l_port l \<and>
    (\<forall>r a b j. l_rate l = Fin r \<and> l_lost l = Fin a \<and> l_sent l = Fin b \<and> l_jitter l = Fin j \<longrightarrow>
       l_rate l' = Fin (printed 1 r) \<and> l_lost l' = Fin (printed 3 a) \<and> l_sent l' = Fin (printed 3 b) \<and>
       l_jitter l' = Fin (printed 4 j))"
proof -
  from assms(1) obtain r t a b j where r: "l_rate l = Fin r" "50 \<le> r" "r \<le> 1000000"
    and t: "l_rtt l = Fin t" "1 / 64 \<le> t" "t \<le> 6"
    and ab: "l_lost l = Fin a" "l_sent l = Fin b" "0 \<le> a" "a \<le> b" "b \<le> 1073741824"
    and j: "l_jitter l = Fin j" "0 \<le> j" "j \<le> 1073741824"
    by (rule link_okE)
  define m where "m = (if l_measured l then 1 else 0 :: nat)"
  have graph: "w \<noteq> [] \<and> list_all is_graph w" if "w = fmt_fixed n (Fin q)" "0 \<le> q" for w n q
    unfolding that(1) by (rule fmt_fixed_graph [OF that(2)])
  have "split_whitespace (link_format l) = [fmt_fixed 1 (Fin r), fmt_fixed 3 (Fin t), fmt_fixed 3 (Fin a),
     fmt_fixed 3 (Fin b), fmt_fixed 4 (Fin j), show_nat m, show_nat (l_port l)]"
    unfolding link_format_def r t ab j m_def
    using graph r t ab j by (intro split_unwords) (auto simp del: fmt_fixed.simps)
  then have fields: "collect_opt (map parse_f64 (split_whitespace (link_format l))) =
      Some [Fin (printed 1 r), Fin (printed 3 t), Fin (printed 3 a), Fin (printed 3 b), Fin (printed 4 j),
        fl (of_nat m), fl (of_nat (l_port l))]"
    using r t ab j
    by (simp add: parse_printed(1) parse_f64_nat del: fmt_fixed.simps)
  have mp: "fl (of_nat m) = Fin (of_nat m)" "fl (of_nat (l_port l)) = Fin (of_nat (l_port l))"
    using f_of_nat_small [of m] f_of_nat_small [of "l_port l"] assms(2)
    by (simp_all add: f_of_nat_def m_def)
  have pr: "50 \<le> printed 1 r" "printed 1 r \<le> 1000000"
    using printed_mono [of "of_nat 50" r 1] printed_mono [of r "of_nat 1000000" 1] r
      printed_of_nat [of 50 1] printed_of_nat [of 1000000 1] by simp_all
  have pa: "0 \<le> printed 3 a" "printed 3 a \<le> printed 3 b" "printed 3 b \<le> 1073741824"
    using parse_printed [of a 3] parse_printed [of b 3] printed_mono [of a b 3] ab by simp_all
  have pj: "0 \<le> printed 4 j" "printed 4 j \<le> 1073741824" using parse_printed [of j 4] j by simp_all
  have c: "1 / 64 \<le> fl_rat (2 / 100)" "fl_rat (2 / 100) \<le> 5" by code_simp+
  have cl: "f_in (fl_rat (2 / 100)) 5 (f_clamp (Fin (fl_rat (2 / 100))) (Fin 5) (Fin (printed 3 t)))"
    by (rule f_in_clamp) (use c in simp_all)
  have half: "f_lt (Fin (fl_rat (1 / 2))) (Fin (of_nat m)) = l_measured l"
    by (simp add: fl_rat_consts m_def)
  let ?l = "\<lparr>l_rate = Fin (printed 1 r), l_measured = l_measured l,
    l_rtt = f_clamp (Fin (fl_rat (2 / 100))) (Fin 5) (Fin (printed 3 t)), l_lost = Fin (printed 3 a),
    l_sent = Fin (printed 3 b), l_jitter = Fin (printed 4 j), l_port = l_port l\<rparr>"
  have mx: "f_max (Fin (printed 1 r)) (Fin 50) = Fin (printed 1 r)" "f_max (Fin (printed 3 a)) (Fin 0) = Fin (printed 3 a)"
    "f_max (Fin (printed 3 b)) (Fin 0) = Fin (printed 3 b)" "f_max (Fin (printed 4 j)) (Fin 0) = Fin (printed 4 j)"
    using pr pa pj by (simp_all add: f_max_def)
  have port: "f_to_nat (2 ^ 64 - 1) (Fin (of_nat (l_port l))) = l_port l"
    using assms(2) by simp
  have "link_parse (link_format l) = Some ?l"
    unfolding link_parse_def fields using mx port by (simp add: mp half flit_Fin del: f_to_nat.simps f_lt.simps)
  moreover have "link_ok ?l"
    using pr pa pj f_in_weaken [OF cl, of "1 / 64" 6] c by (simp add: link_ok_def)
  ultimately show ?thesis using r ab j by (intro exI [of _ ?l]) simp
qed

end
