(* ===== verification/GatewayState.thy ===== *)
theory GatewayState
  imports Link
begin

section \<open>The gateway: its state and constants (vtop-wire/src/gateway.rs)\<close>

text \<open>
  The data of the gateway, which does no I/O: sessions, cached handshakes, timestamps seen,
  addresses that proved themselves, and what waits to be sent.  Noise (the crate \<^verbatim>\<open>snow\<close>) is
  a parameter: \<open>nz_read\<close> reads message 1 under a private key and \<open>nz_write\<close> answers it.
  What the code asks of its environment (the two clocks, a random session id, the ephemeral
  key of message 2) is the record \<open>env\<close>.
\<close>

subsection \<open>Constants\<close>

definition FRESH_MS :: nat where "FRESH_MS = 120000"
definition CLIENT_REPEAT :: duration where "CLIENT_REPEAT = millis 1500"
definition BREAKER :: duration where "BREAKER = secs 30"
definition SESSION_IDLE :: duration where "SESSION_IDLE = secs (48 * 3600)"
definition PENDING_KEEP :: duration where "PENDING_KEEP = secs 150"
definition RESPONSE_KEEP :: duration where "RESPONSE_KEEP = secs 120"
definition WORKING_MIN :: duration where "WORKING_MIN = millis 300"
definition WORKING_MAX :: duration where "WORKING_MAX = secs 2"
definition PACE_UNKNOWN :: u16 where "PACE_UNKNOWN = 250"
definition MAX_PENDING :: nat where "MAX_PENDING = 4"
definition MAX_SESSIONS :: nat where "MAX_SESSIONS = 50000"

subsection \<open>Addresses\<close>

datatype IpAddr = V4 u32 | V6 "128 word"

record SocketAddr =
  sa_ip :: IpAddr
  sa_port :: u16

subsection \<open>Requests and answers\<close>

record Token =
  tk_sid :: u32
  tk_req_id :: u16

record NewRequest =
  nr_token :: Token
  nr_device :: bytes
  nr_body :: bytes

record Outgoing =
  out_socket :: nat
  out_to :: SocketAddr
  out_packet :: bytes

datatype Resp =
    Pending (p_since: instant) (p_hints: Req) (resp_rounds: "u8 set")
  | Ready (r_at: instant) (r_k: nat) (r_total: nat) (r_data: "bytes list")
      (r_repair: "bytes list") (r_next_repair: nat) (resp_rounds: "u8 set")

record Session =
  s_keys :: Keys
  s_window :: ReplayWindow
  s_ctr :: u32
  s_peer :: SocketAddr
  s_socket :: nat
  s_device :: bytes
  s_validated :: bool
  s_credit :: nat
  s_heard :: instant
  s_next_send :: instant
  s_rate :: u16
  s_responses :: "(u16, Resp) hmap"

record Out =
  q_due :: instant
  q_sid :: u32
  q_req_id :: u16
  q_packet :: bytes

record Gateway =
  g_keys :: "bytes list"
  g_sessions :: "(u32, Session) hmap"
  g_handshakes :: "(bytes, instant \<times> u32 \<times> bytes) hmap"
  g_seen_ts :: "(bytes, u64 list) hmap"
  g_known_ip :: "(bytes, IpAddr) hmap"
  g_queue :: "Out list"
  g_direct :: "Outgoing list"
  g_working :: "(instant \<times> Token) list"

definition gw_new :: "bytes list \<Rightarrow> Gateway" where
  "gw_new keys = \<lparr>g_keys = keys, g_sessions = [], g_handshakes = [], g_seen_ts = [],
     g_known_ip = [], g_queue = [], g_direct = [], g_working = []\<rparr>"

definition set_keys :: "Gateway \<Rightarrow> bytes list \<Rightarrow> Gateway" where
  "set_keys g keys = (if keys \<noteq> [] then g\<lparr>g_keys := keys\<rparr> else g)"

definition session_count :: "Gateway \<Rightarrow> nat" where
  "session_count g = length (g_sessions g)"

subsection \<open>The crates the gateway is built on\<close>

text \<open>
  \<open>nz_read n key msg1\<close>: the responder with private key \<open>key\<close> reads message 1; its state, the
  payload and the initiator's static key.  \<open>nz_write n hs eph payload\<close>: message 2 and the two
  session keys, initiator to responder first.
\<close>

record noise =
  nz_read :: "bytes \<Rightarrow> bytes \<Rightarrow> (bytes \<times> bytes \<times> bytes) option"
  nz_write :: "bytes \<Rightarrow> bytes \<Rightarrow> bytes \<Rightarrow> (bytes \<times> bytes \<times> bytes) option"

record crates =
  c_aead :: aead
  c_rs :: rs_code
  c_noise :: noise

record env =
  e_now :: instant
  e_now_us :: u64
  e_sid :: u32
  e_eph :: bytes

subsection \<open>Pacing\<close>

text \<open>
  The spacing after a packet of \<open>wire\<close> bytes at twice the client's rate.
  \<open>pace_defined\<close> shows that the conversion to a duration does not panic.
\<close>

definition pace_secs :: "nat \<Rightarrow> u16 \<Rightarrow> f64" where
  "pace_secs wire rate =
     (let rate = (if rate = 0 then PACE_UNKNOWN else rate)
      in f_div (f_of_nat wire) (f_mul (Fin 2) (f_of_nat (unat rate))))"

definition pace :: "nat \<Rightarrow> u16 \<Rightarrow> duration" where
  "pace wire rate = (case dur_of_f64 (pace_secs wire rate) of Some d \<Rightarrow> d | None \<Rightarrow> 0)"

lemma pace_rate_pos:
  "1 \<le> unat (if rate = 0 then PACE_UNKNOWN else (rate :: u16))"
  by (auto simp: PACE_UNKNOWN_def Suc_le_eq unat_gt_0)

lemma pace_secs_exact:
  assumes "wire < 4294967296"
  shows "pace_secs wire rate =
    Fin (fl_rat (of_nat wire / of_nat (2 * unat (if rate = 0 then PACE_UNKNOWN else rate))))"
proof -
  define r where "r = unat (if rate = 0 then PACE_UNKNOWN else rate)"
  have r1: "1 \<le> r" unfolding r_def by (rule pace_rate_pos)
  have r2: "r < 65536" unfolding r_def by (rule u16_bound)
  have "f_mul (Fin 2) (f_of_nat r) = fl (of_int (int (2 * r)))"
    using r2 by (simp add: f_of_nat_small)
  also have "\<dots> = Fin (of_nat (2 * r))"
    using r2 by (subst fl_of_int) auto
  finally have m: "f_mul (Fin 2) (f_of_nat r) = Fin (of_nat (2 * r))" .
  have "\<bar>of_nat wire / (of_nat (2 * r) :: rat)\<bar> \<le> of_int (int wire)"
    using r1 by (simp add: divide_le_eq mult_le_cancel_left1 flip: of_nat_mult)
  then have "fl (of_nat wire / of_nat (2 * r)) = Fin (fl_rat (of_nat wire / of_nat (2 * r)))"
    using assms by (intro fl_finite [of _ "int wire"]) auto
  then show ?thesis
    using r1 assms unfolding pace_secs_def Let_def r_def [symmetric] m
    by (simp add: f_of_nat_small)
qed

lemma pace_defined:
  assumes "wire < 4294967296"
  shows "dur_of_f64 (pace_secs wire rate) = Some (pace wire rate)"
proof -
  define q where "q = (of_nat wire / of_nat (2 * unat (if rate = 0 then PACE_UNKNOWN else rate)) :: rat)"
  have q: "pace_secs wire rate = Fin (fl_rat q)"
    unfolding q_def by (rule pace_secs_exact [OF assms])
  have "of_nat 1 \<le> (of_nat (unat (if rate = 0 then PACE_UNKNOWN else rate)) :: rat)"
    by (simp only: of_nat_le_iff pace_rate_pos)
  then have r1: "(1 :: rat) \<le> of_nat (unat (if rate = 0 then PACE_UNKNOWN else rate))"
    by (simp only: of_nat_1)
  have q0: "0 \<le> q"
    unfolding q_def by (rule divide_nonneg_nonneg) (simp_all only: of_nat_0_le_iff)
  have "q \<le> of_nat wire"
    using r1 by (simp add: q_def divide_le_eq mult_le_cancel_left1)
  also have "\<dots> = of_int (int wire)" by simp
  also have "\<dots> \<le> of_int 4294967296"
    unfolding of_int_le_iff using assms by simp
  finally have "fl_rat q \<le> fl_rat (of_int 4294967296)" by (rule fl_rat_mono)
  also have "\<dots> = of_int 4294967296" by (rule fl_rat_of_int) simp
  finally have "fl_rat q * 10 ^ 9 \<le> of_int (4294967296 * 10 ^ 9)" by simp
  then have "rne (fl_rat q * 10 ^ 9) \<le> rne (of_int (4294967296 * 10 ^ 9))"
    by (rule rne_mono)
  then have "rne (fl_rat q * 10 ^ 9) < 2 ^ 64 * 10 ^ 9"
    unfolding rne_of_int by simp
  then show ?thesis
    using fl_rat_nonneg [OF q0] by (simp add: pace_def q Let_def)
qed

end
