(* ===== verification/WireGateway.thy ===== *)
theory WireGateway
  imports GatewayState
begin

section \<open>The gateway: its operations (vtop-wire/src/gateway.rs)\<close>

text \<open>
  One definition per method of \<^verbatim>\<open>Gateway\<close>, each returning the new state.  Only the handshake
  can panic (see \<^verbatim>\<open>handshake\<close>), so \<open>receive\<close> and \<open>respond\<close> return an \<open>outcome\<close>.
\<close>

subsection \<open>Helpers\<close>

definition is_pending :: "Resp \<Rightarrow> bool" where
  "is_pending r = (case r of Pending _ _ _ \<Rightarrow> True | Ready _ _ _ _ _ _ _ \<Rightarrow> False)"

fun set_rounds :: "u8 set \<Rightarrow> Resp \<Rightarrow> Resp" where
  "set_rounds rs (Pending t h _) = Pending t h rs"
| "set_rounds rs (Ready t k n d r i _) = Ready t k n d r i rs"

definition set_session :: "u32 \<Rightarrow> Session \<Rightarrow> Gateway \<Rightarrow> Gateway" where
  "set_session sid s g = g\<lparr>g_sessions := AList.update sid s (g_sessions g)\<rparr>"

definition send_direct :: "Outgoing list \<Rightarrow> Gateway \<Rightarrow> Gateway" where
  "send_direct os g = g\<lparr>g_direct := g_direct g @ os\<rparr>"

text \<open>The next repair symbol of the pool, from the start again after the last.\<close>

definition next_symbol :: "nat \<Rightarrow> bytes list \<Rightarrow> nat \<Rightarrow> u8 \<times> bytes" where
  "next_symbol k repair next_repair =
     (let i = next_repair mod length repair in (of_nat (k + i), repair ! i))"

subsection \<open>Sending\<close>

text \<open>
  \<^verbatim>\<open>burst\<close>: the loop over the symbols, each sealed under the session's next counter and queued
  at its paced time.
\<close>

definition symbol_data :: "Req \<Rightarrow> u8 \<Rightarrow> u16 \<Rightarrow> u8 \<Rightarrow> nat \<Rightarrow> u8 \<times> bytes \<Rightarrow> Data" where
  "symbol_data req k n len pos sb =
     \<lparr>d_req_id = rq_req_id req, d_sym = fst sb, d_k = k, d_total = n, d_round = rq_round req,
      d_pos = of_nat pos, d_len = len, d_bytes = snd sb\<rparr>"

fun queue_symbols ::
  "crates \<Rightarrow> u32 \<Rightarrow> Req \<Rightarrow> u8 \<Rightarrow> u16 \<Rightarrow> u8 \<Rightarrow> u16 \<Rightarrow> nat \<Rightarrow> instant \<Rightarrow> (u8 \<times> bytes) list \<Rightarrow>
   Session \<Rightarrow> Session \<times> Out list" where
  "queue_symbols C sid req k total' len rate pos due [] s = (s\<lparr>s_next_send := due\<rparr>, [])"
| "queue_symbols C sid req k total' len rate pos due (sb # syms) s =
     (let plain = data_encode (symbol_data req k total' len pos sb);
          packet = seal (c_aead C) (s_keys s) T_DATA sid (s_ctr s) plain;
          wire = length packet + IP_UDP;
          (s', outs) = queue_symbols C sid req k total' len rate (pos + 1) (due + pace wire rate)
            syms (s\<lparr>s_ctr := s_ctr s + 1\<rparr>)
      in (s', \<lparr>q_due = due, q_sid = sid, q_req_id = rq_req_id req, q_packet = packet\<rparr> # outs))"

definition first_burst_spare :: "nat \<Rightarrow> Req \<Rightarrow> nat" where
  "first_burst_spare k req =
     (let rate = (if rq_rate req = 0 then RATE_FLOOR else f_of_nat (unat (rq_rate req)));
          p = (if rq_loss_pct req = LOSS_UNKNOWN then flit (1 / 10)
               else f_div (f_of_nat (unat (rq_loss_pct req))) (Fin 100))
      in choose_repair k p (f_div (f_of_nat DATA_WIRE) rate) (f_div (Fin 160) rate)
           (f_div (f_of_nat (unat (rq_rtt_ms req))) (Fin 1000)))"

definition burst_symbols :: "Req \<Rightarrow> bool \<Rightarrow> nat \<Rightarrow> bytes list \<Rightarrow> bytes list \<Rightarrow> nat \<Rightarrow> (u8 \<times> bytes) list" where
  "burst_symbols req first k data repair next_repair =
     (if first then
        map (\<lambda>(i, d). (of_nat i, d)) (enumerate 0 data) @
        map (\<lambda>j. next_symbol k repair (next_repair + j)) [0..<first_burst_spare k req]
      else map (\<lambda>j. next_symbol k repair (next_repair + j)) [0..<unat (rq_want req)])"

definition burst :: "crates \<Rightarrow> Gateway \<Rightarrow> u32 \<Rightarrow> Req \<Rightarrow> bool \<Rightarrow> instant \<Rightarrow> Gateway" where
  "burst C g sid req first now =
     (case map_of (g_sessions g) sid of None \<Rightarrow> g
      | Some s \<Rightarrow>
        (case map_of (s_responses s) (rq_req_id req) of
           Some (Ready t0 k total' data repair next_repair rounds) \<Rightarrow>
             (let syms = burst_symbols req first k data repair next_repair;
                  used = (if first then length syms - length data else length syms);
                  s1 = s\<lparr>s_responses := AList.update (rq_req_id req)
                         (Ready t0 k total' data repair (next_repair + used) rounds) (s_responses s)\<rparr>;
                  rate = max (s_rate s) (rq_rate req);
                  due = max (s_next_send s) now;
                  (s2, outs) = queue_symbols C sid req (of_nat k) (of_nat total')
                    (of_nat (length syms)) rate 0 due syms s1
              in (set_session sid s2 g)\<lparr>g_queue := g_queue g @ outs\<rparr>)
         | _ \<Rightarrow> g))"

definition send_working :: "crates \<Rightarrow> Gateway \<Rightarrow> Token \<Rightarrow> instant \<Rightarrow> Gateway" where
  "send_working C g token now =
     (case map_of (g_sessions g) (tk_sid token) of None \<Rightarrow> g
      | Some s \<Rightarrow>
        (case map_of (s_responses s) (tk_req_id token) of
           Some (Pending _ _ _) \<Rightarrow>
             (let packet = seal (c_aead C) (s_keys s) T_WORKING (tk_sid token) (s_ctr s)
                    (be16 (tk_req_id token));
                  due = max (s_next_send s) now;
                  s' = s\<lparr>s_ctr := s_ctr s + 1,
                         s_next_send := due + pace (length packet + IP_UDP) (s_rate s)\<rparr>
              in (set_session (tk_sid token) s' g)\<lparr>g_queue := g_queue g @
                    [\<lparr>q_due = due, q_sid = tk_sid token, q_req_id = tk_req_id token,
                      q_packet = packet\<rparr>]\<rparr>)
         | _ \<Rightarrow> g))"

text \<open>\<^verbatim>\<open>respond\<close>: the application's answer to a request that is still pending.\<close>

definition respond :: "crates \<Rightarrow> Gateway \<Rightarrow> Token \<Rightarrow> bytes \<Rightarrow> instant \<Rightarrow> Gateway outcome" where
  "respond C g token body now =
     (if MAX_RESPONSE < length body then Return g
      else case map_of (g_sessions g) (tk_sid token) of None \<Rightarrow> Return g
      | Some s \<Rightarrow>
        (case map_of (s_responses s) (tk_req_id token) of
           None \<Rightarrow> Return g
         | Some (Ready _ _ _ _ _ _ _) \<Rightarrow>
             \<comment> \<open>\<^verbatim>\<open>remove\<close> has already taken the response out of the map\<close>
             Return (set_session (tk_sid token)
               (s\<lparr>s_responses := AList.delete (tk_req_id token) (s_responses s)\<rparr>) g)
         | Some (Pending t hints rounds) \<Rightarrow>
             (case fec_encode (c_rs C) body of
                None \<Rightarrow> Panic
              | Some (data, repair) \<Rightarrow>
                  (let k = fst (shape (length body));
                       s' = s\<lparr>s_responses := AList.update (tk_req_id token)
                         (Ready now k (length body) data repair 0 rounds)
                         (AList.delete (tk_req_id token) (s_responses s))\<rparr>;
                       g1 = set_session (tk_sid token) s' g;
                       g2 = g1\<lparr>g_working := filter (\<lambda>(_, t). t \<noteq> token) (g_working g1)\<rparr>
                   in Return (burst C g2 (tk_sid token) hints True now)))))"

subsection \<open>Polling\<close>

text \<open>
  The loop of \<^verbatim>\<open>poll\<close> over the queue: packets of forgotten or silent sessions are dropped,
  early ones and those an unproven address has no credit for are kept, the others leave.
\<close>

fun drain ::
  "instant \<Rightarrow> (u32, Session) hmap \<Rightarrow> Out list \<Rightarrow> (u32, Session) hmap \<times> Out list \<times> Outgoing list" where
  "drain now ss [] = (ss, [], [])"
| "drain now ss (q # qs) =
     (case map_of ss (q_sid q) of
        None \<Rightarrow> drain now ss qs
      | Some s \<Rightarrow>
          if BREAKER < since now (s_heard s) then drain now ss qs
          else if now < q_due q then
            (let (ss', keep, out) = drain now ss qs in (ss', q # keep, out))
          else
            (let wire = length (q_packet q) + IP_UDP;
                 o' = \<lparr>out_socket = s_socket s, out_to = s_peer s, out_packet = q_packet q\<rparr>
             in if s_validated s then
                  (let (ss', keep, out) = drain now ss qs in (ss', keep, o' # out))
                else if s_credit s < wire then
                  (let (ss', keep, out) = drain now ss qs in (ss', q # keep, out))
                else
                  (let (ss', keep, out) =
                     drain now (AList.update (q_sid q) (s\<lparr>s_credit := s_credit s - wire\<rparr>) ss) qs
                   in (ss', keep, o' # out))))"

text \<open>The notices that are due, taken from the list and queued before the loop runs.\<close>

definition notices :: "crates \<Rightarrow> Gateway \<Rightarrow> instant \<Rightarrow> Gateway" where
  "notices C g now =
     (let due = map snd (filter (\<lambda>(t, _). t \<le> now) (g_working g));
          g1 = g\<lparr>g_direct := [], g_working := filter (\<lambda>(t, _). now < t) (g_working g)\<rparr>
      in foldl (\<lambda>g tok. send_working C g tok now) g1 due)"

definition poll :: "crates \<Rightarrow> Gateway \<Rightarrow> instant \<Rightarrow> Gateway \<times> Outgoing list" where
  "poll C g now =
     (let g2 = notices C g now;
          (ss, keep, out) = drain now (g_sessions g2) (g_queue g2)
      in (g2\<lparr>g_sessions := ss, g_queue := keep\<rparr>, g_direct g @ out))"

definition next_due :: "Gateway \<Rightarrow> instant \<Rightarrow> instant option" where
  "next_due g now =
     (let queued = map q_due (filter (\<lambda>q. case map_of (g_sessions g) (q_sid q) of
            None \<Rightarrow> False
          | Some s \<Rightarrow> s_validated s \<or> length (q_packet q) + IP_UDP \<le> s_credit s) (g_queue g));
          working = map fst (g_working g);
          direct = (if g_direct g = [] then [] else [now])
      in min_by_key (\<lambda>t. t) (queued @ working @ direct))"

subsection \<open>Sweeping\<close>

definition keep_response :: "instant \<Rightarrow> Resp \<Rightarrow> bool" where
  "keep_response now r = (case r of
     Pending t _ _ \<Rightarrow> since now t < PENDING_KEEP
   | Ready t _ _ _ _ _ _ \<Rightarrow> since now t < RESPONSE_KEEP)"

definition sweep :: "Gateway \<Rightarrow> env \<Rightarrow> Gateway" where
  "sweep g e =
     (let now = e_now e;
          ss = map (\<lambda>(i, s). (i, s\<lparr>s_responses := filter (\<lambda>(_, r). keep_response now r) (s_responses s)\<rparr>))
                 (filter (\<lambda>(_, s). since now (s_heard s) < SESSION_IDLE) (g_sessions g));
          hs = filter (\<lambda>(_, t, _, _). since now t < millis (FRESH_MS * 2)) (g_handshakes g);
          live = map (\<lambda>(_, s). s_device s) ss;
          known = filter (\<lambda>(d, _). d \<in> set live) (g_known_ip g);
          oldest = unat (e_now_us e) - FRESH_MS * 2000;
          seen = filter (\<lambda>(d, l). d \<in> set live \<or> l \<noteq> [])
                   (map (\<lambda>(d, l). (d, filter (\<lambda>ts. oldest \<le> unat ts) l)) (g_seen_ts g))
      in g\<lparr>g_sessions := ss, g_handshakes := hs, g_known_ip := known, g_seen_ts := seen\<rparr>)"

subsection \<open>Requests\<close>

text \<open>When a \<^verbatim>\<open>T_WORKING\<close> notice is due for a request that arrives now.\<close>

definition working_secs :: "Req \<Rightarrow> f64" where
  "working_secs req =
     (let rate = (if rq_rate req = 0 then RATE_FLOOR else f_of_nat (unat (rq_rate req)))
      in f_mul (flit (1 / 2)) (f_add (f_div (f_of_nat (unat (rq_rtt_ms req))) (Fin 1000))
           (f_div (f_of_nat DATA_WIRE) rate)))"

definition working_after :: "Req \<Rightarrow> duration" where
  "working_after req =
     (let d = (case dur_of_f64 (working_secs req) of Some d \<Rightarrow> d | None \<Rightarrow> 0)
      in max WORKING_MIN (min WORKING_MAX d))"

text \<open>The conversion of \<open>working_after\<close> is always defined, so the code does not panic there.\<close>

lemma dur_of_f64_in:
  assumes "f_in 0 4294967296 x" shows "dur_of_f64 x \<noteq> None"
proof -
  from assms obtain q where q: "x = Fin q" "0 \<le> q" "q \<le> 4294967296" by (rule f_inE)
  have "rne (q * 10 ^ 9) \<le> rne (of_int (4294967296 * 10 ^ 9))" using q(3) by (intro rne_mono) simp
  then have "rne (q * 10 ^ 9) < 2 ^ 64 * 10 ^ 9" unfolding rne_of_int by simp
  then show ?thesis using q by (simp add: Let_def)
qed

lemma working_defined: "dur_of_f64 (working_secs req) \<noteq> None"
proof (rule dur_of_f64_in)
  define rate where "rate = (if rq_rate req = 0 then RATE_FLOOR else f_of_nat (unat (rq_rate req)))"
  have n: "f_in (of_nat m) 65536 (f_of_nat n)" if "m \<le> n" "n < 65536" for m n
    using that of_nat_mono [of n 65536, where 'a = rat] by (simp add: f_of_nat_small)
  have "1 \<le> unat (rq_rate req)" if "rq_rate req \<noteq> 0" using that by (simp add: Suc_le_eq unat_gt_0)
  then have r: "f_in 1 65536 rate"
    using n [of 1 "unat (rq_rate req)"] u16_bound [of "rq_rate req"] by (simp add: rate_def RATE_FLOOR_def)
  have t: "f_in 0 65536 (f_of_nat (unat (rq_rtt_ms req)))"
    using n [of 0 "unat (rq_rtt_ms req)"] u16_bound [of "rq_rtt_ms req"] by simp
  have "DATA_WIRE = 462" by (simp add: DATA_WIRE_def sizes fec_sizes DATA_HEADER_def)
  then have w: "f_in 462 462 (f_of_nat DATA_WIRE)" by (simp add: f_of_nat_small)
  have c: "fl_rat (65536 / 1000) \<le> 66" "fl_rat (462 / 1) \<le> 462" "fl_rat (66 + 462) \<le> 528"
    "fl_rat (1 / 2 * 528) \<le> 4294967296" by code_simp+
  have "f_in 0 66 (f_div (f_of_nat (unat (rq_rtt_ms req))) (Fin 1000))"
    by (rule f_in_div [OF t, of 1000 1000 "Fin 1000"]) (use c in \<open>simp_all add: big_def\<close>)
  moreover have "f_in 0 462 (f_div (f_of_nat DATA_WIRE) rate)"
    by (rule f_in_div [OF w r]) (use c fl_rat_nonneg in \<open>simp_all add: big_def\<close>)
  ultimately have a: "f_in 0 528 (f_add (f_div (f_of_nat (unat (rq_rtt_ms req))) (Fin 1000))
      (f_div (f_of_nat DATA_WIRE) rate))"
    by (rule f_in_add) (use c in \<open>simp_all add: big_def\<close>)
  have half: "f_in (1 / 2) (1 / 2) (flit (1 / 2))" by (simp add: flit_Fin fl_rat_consts)
  show "f_in 0 4294967296 (working_secs req)"
    unfolding working_secs_def Let_def rate_def [symmetric]
    by (rule f_in_mul [OF half a]) (use c in \<open>simp_all add: big_def\<close>)
qed

definition request :: "crates \<Rightarrow> Gateway \<Rightarrow> u32 \<Rightarrow> Req \<Rightarrow> instant \<Rightarrow> Gateway \<times> NewRequest option" where
  "request C g sid req now =
     (case map_of (g_sessions g) sid of None \<Rightarrow> (g, None)
      | Some s \<Rightarrow>
        (let token = \<lparr>tk_sid = sid, tk_req_id = rq_req_id req\<rparr>
         in case map_of (s_responses s) (rq_req_id req) of
              Some resp \<Rightarrow>
                if rq_want req = 0 then (g, None)
                else if rq_round req \<in> resp_rounds resp then (g, None)
                else
                  (let s' = s\<lparr>s_responses := AList.update (rq_req_id req)
                         (set_rounds (insert (rq_round req) (resp_rounds resp)) resp) (s_responses s)\<rparr>;
                       g' = set_session sid s' g
                   in if is_pending resp then (send_working C g' token now, None)
                      else (burst C g' sid req False now, None))
            | None \<Rightarrow>
                if rq_body req = [] then (g, None)
                else if MAX_PENDING \<le> length (filter is_pending (hm_values (s_responses s))) then (g, None)
                else
                  (let device = s_device s;
                       queue = filter (\<lambda>q. case map_of (g_sessions g) (q_sid q) of
                           None \<Rightarrow> True | Some s2 \<Rightarrow> s_device s2 \<noteq> device) (g_queue g);
                       s' = s\<lparr>s_responses := AList.update (rq_req_id req)
                              (Pending now req {rq_round req}) (s_responses s)\<rparr>
                   in ((set_session sid s' g)\<lparr>g_queue := queue,
                         g_working := g_working g @ [(now + working_after req, token)]\<rparr>,
                       Some \<lparr>nr_token = token, nr_device = device, nr_body = rq_body req\<rparr>))))"

subsection \<open>Framed packets\<close>

text \<open>
  A reset for each of the gateway's keys, as long as all of them together stay smaller than the
  packet that asked.
\<close>

fun resets :: "aead \<Rightarrow> u32 \<Rightarrow> nat \<Rightarrow> bytes list \<Rightarrow> bytes list" where
  "resets A sid budget [] = []"
| "resets A sid budget (key # keys) =
     (let reset = T_RESET # be32 sid @ reset_token A key sid
      in if budget \<le> length reset then []
         else reset # resets A sid (budget - length reset) keys)"

text \<open>A newly measured rate: what is still queued for the session is spaced again from now.\<close>

fun respace :: "u32 \<Rightarrow> u16 \<Rightarrow> instant \<Rightarrow> Out list \<Rightarrow> instant \<times> Out list" where
  "respace sid rate due [] = (due, [])"
| "respace sid rate due (q # qs) =
     (if q_sid q = sid then
        (let (d, qs') = respace sid rate (due + pace (length (q_packet q) + IP_UDP) rate) qs
         in (d, q\<lparr>q_due := due\<rparr> # qs'))
      else (let (d, qs') = respace sid rate due qs in (d, q # qs')))"

text \<open>
  \<^verbatim>\<open>framed\<close>, cut where the packet's kind is known: what every accepted packet does to
  its session, then a \<^verbatim>\<open>T_DONE\<close>, then a request.
\<close>

definition heard_from ::
  "Gateway \<Rightarrow> Session \<Rightarrow> ReplayWindow \<Rightarrow> bytes \<Rightarrow> nat \<Rightarrow> SocketAddr \<Rightarrow> instant \<Rightarrow> Session" where
  "heard_from g s w packet socket from now =
     (let s1 = s\<lparr>s_window := w\<rparr>;
          s2 = (if from \<noteq> s_peer s1
                then s1\<lparr>s_peer := from, s_validated :=
                       map_of (g_known_ip g) (s_device s1) = Some (sa_ip from)\<rparr>
                else s1)
      in s2\<lparr>s_socket := socket, s_heard := now,
            s_credit := s_credit s2 + 3 * (length packet + IP_UDP)\<rparr>)"

definition framed_done :: "Gateway \<Rightarrow> u32 \<Rightarrow> Session \<Rightarrow> bytes \<Rightarrow> instant \<Rightarrow> Gateway" where
  "framed_done g sid s plain now =
     (case get_prefix 2 plain of
        None \<Rightarrow> set_session sid s g
      | Some id2 \<Rightarrow>
          (let rid = from_be id2;
               s' = s\<lparr>s_next_send := now, s_responses := AList.delete rid (s_responses s)\<rparr>
           in (set_session sid s' g)\<lparr>g_queue :=
                filter (\<lambda>q. \<not> (q_sid q = sid \<and> q_req_id q = rid)) (g_queue g)\<rparr>))"

definition framed_req ::
  "crates \<Rightarrow> Gateway \<Rightarrow> u32 \<Rightarrow> Session \<Rightarrow> bytes \<Rightarrow> SocketAddr \<Rightarrow> instant \<Rightarrow> Gateway \<times> NewRequest option" where
  "framed_req C g sid s plain from now =
     (case req_decode plain of
        None \<Rightarrow> (set_session sid s g, None)
      | Some req \<Rightarrow>
          (let proves = 0 < rq_last_ctr req \<and> \<not> s_validated s;
               s1 = (if proves then s\<lparr>s_validated := True\<rparr> else s);
               known = (if proves then AList.update (s_device s) (sa_ip from) (g_known_ip g)
                        else g_known_ip g);
               measured = 0 < rq_rate req \<and> s_rate s1 \<noteq> rq_rate req;
               (due, queue) = (if measured then respace sid (rq_rate req) now (g_queue g)
                               else (s_next_send s1, g_queue g));
               s2 = (if measured then s1\<lparr>s_rate := rq_rate req, s_next_send := due\<rparr> else s1)
           in request C ((set_session sid s2 g)\<lparr>g_known_ip := known, g_queue := queue\<rparr>) sid req now))"

definition framed ::
  "crates \<Rightarrow> Gateway \<Rightarrow> bytes \<Rightarrow> nat \<Rightarrow> SocketAddr \<Rightarrow> instant \<Rightarrow> Gateway \<times> NewRequest option" where
  "framed C g packet socket from now =
     (case header packet of None \<Rightarrow> (g, None)
      | Some (_, sid, ctr) \<Rightarrow>
        (case map_of (g_sessions g) sid of
           None \<Rightarrow>
             (send_direct (map (\<lambda>r. \<lparr>out_socket = socket, out_to = from, out_packet = r\<rparr>)
                (resets (c_aead C) sid (length packet) (g_keys g))) g, None)
         | Some s \<Rightarrow>
           (case open_packet (c_aead C) (s_keys s) packet of None \<Rightarrow> (g, None)
            | Some opened \<Rightarrow>
              (let (fresh, w) = accept (s_window s) ctr
               in if \<not> fresh then (g, None)
               else
                 (let s' = heard_from g s w packet socket from now
                  in if o_ptype opened = T_DONE
                     then (framed_done g sid s' (o_plain opened) now, None)
                     else framed_req C g sid s' (o_plain opened) from now)))))"

subsection \<open>Handshakes\<close>

text \<open>Message 1 under the first key that opens it.\<close>

fun find_opened :: "noise \<Rightarrow> bytes list \<Rightarrow> bytes \<Rightarrow> (bytes \<times> bytes \<times> bytes \<times> bytes) option" where
  "find_opened n [] msg1 = None"
| "find_opened n (key # keys) msg1 =
     (case nz_read n key msg1 of
        Some (hs, payload, device) \<Rightarrow> Some (hs, payload, device, key)
      | None \<Rightarrow> find_opened n keys msg1)"

text \<open>\<^verbatim>\<open>u64::abs_diff\<close>.\<close>

definition abs_diff :: "u64 \<Rightarrow> u64 \<Rightarrow> nat" where
  "abs_diff a b = (if unat a \<le> unat b then unat b - unat a else unat a - unat b)"

definition make_room :: "(u32, Session) hmap \<Rightarrow> (u32, Session) hmap" where
  "make_room ss =
     (if MAX_SESSIONS \<le> length ss then
        (case min_by_key (\<lambda>(_, s). s_heard s) ss of
           Some (oldest, _) \<Rightarrow> AList.delete oldest ss
         | None \<Rightarrow> ss)
      else ss)"

definition hs2_copies :: "Req \<Rightarrow> nat" where
  "hs2_copies req = (if rq_loss_pct req \<noteq> LOSS_UNKNOWN \<and> 10 \<le> rq_loss_pct req then 2 else 1)"

definition new_session ::
  "Gateway \<Rightarrow> bytes \<Rightarrow> nat \<Rightarrow> SocketAddr \<Rightarrow> instant \<Rightarrow> bytes \<Rightarrow> bytes \<Rightarrow> bytes \<Rightarrow> bytes \<Rightarrow> Req \<Rightarrow> Session" where
  "new_session g packet socket from now k_ir k_ri device hs2 req =
     (let hs2_wire = hs2_copies req * (length hs2 + IP_UDP)
      in \<lparr>s_keys = \<lparr>k_send = k_ri, k_recv = k_ir\<rparr>, s_window = new_window, s_ctr = 0,
          s_peer = from, s_socket = socket, s_device = device,
          s_validated = map_of (g_known_ip g) device = Some (sa_ip from),
          s_credit = 3 * (length packet + IP_UDP) - hs2_wire,
          s_heard = now, s_next_send = now + pace hs2_wire (rq_rate req),
          s_rate = rq_rate req, s_responses = []\<rparr>)"

text \<open>Message 1 opened: its timestamp is checked, message 2 is made and the session starts.\<close>

definition handshake_opened ::
  "crates \<Rightarrow> Gateway \<Rightarrow> bytes \<Rightarrow> nat \<Rightarrow> SocketAddr \<Rightarrow> env \<Rightarrow> bytes \<Rightarrow> bytes \<Rightarrow> bytes \<Rightarrow> bytes \<Rightarrow> u64 \<Rightarrow>
   Req \<Rightarrow> Gateway \<times> NewRequest option" where
  "handshake_opened C g packet socket from e ephemeral hs device key ts req =
     (let seen = (case map_of (g_seen_ts g) device of None \<Rightarrow> [] | Some l \<Rightarrow> l)
      in if FRESH_MS * 1000 < abs_diff (e_now_us e) ts \<or> ts \<in> set seen then
           (g\<lparr>g_seen_ts := AList.update device seen (g_seen_ts g)\<rparr>, None)
         else
           (let seen' = (if 64 \<le> length seen then tl seen else seen) @ [ts];
                g1 = g\<lparr>g_seen_ts := AList.update device seen' (g_seen_ts g)\<rparr>;
                sid = e_sid e
            in case nz_write (c_noise C) hs (e_eph e) (be32 sid @ reset_token (c_aead C) key sid) of
                 None \<Rightarrow> (g1, None)
               | Some (msg2, k_ir, k_ri) \<Rightarrow>
                   (let hs2 = T_HS2 # take 4 ephemeral @ msg2;
                        g2 = send_direct (replicate (hs2_copies req)
                               \<lparr>out_socket = socket, out_to = from, out_packet = hs2\<rparr>) g1;
                        s = new_session g2 packet socket from (e_now e) k_ir k_ri device hs2 req;
                        g3 = g2\<lparr>g_sessions := make_room (g_sessions g2),
                               g_handshakes := AList.update ephemeral (e_now e, sid, hs2)
                                 (g_handshakes g2)\<rparr>;
                        g4 = set_session sid s g3
                    in request C g4 sid req (e_now e))))"

text \<open>
  \<^verbatim>\<open>handshake\<close>.  The payload buffer has a fixed size, so \<^verbatim>\<open>payload.get(..8)\<close> always succeeds;
  the slice \<^verbatim>\<open>payload[8..len]\<close> panics when Noise opened a payload of fewer than 8 bytes.
\<close>

definition handshake ::
  "crates \<Rightarrow> Gateway \<Rightarrow> bytes \<Rightarrow> nat \<Rightarrow> SocketAddr \<Rightarrow> env \<Rightarrow> (Gateway \<times> NewRequest option) outcome" where
  "handshake C g packet socket from e =
     (let msg1 = drop 1 packet
      in case get_prefix 32 msg1 of None \<Rightarrow> Return (g, None)
      | Some ephemeral \<Rightarrow>
        (case map_of (g_handshakes g) ephemeral of
           Some (t0, sid, hs2) \<Rightarrow>
             (let g1 = g\<lparr>g_sessions := hm_adjust sid
                    (\<lambda>s. s\<lparr>s_credit := s_credit s + 3 * (length packet + IP_UDP)\<rparr>) (g_sessions g)\<rparr>
              in Return (if CLIENT_REPEAT < since (e_now e) t0
                         then send_direct [\<lparr>out_socket = socket, out_to = from, out_packet = hs2\<rparr>] g1
                         else g1, None))
         | None \<Rightarrow>
           (case find_opened (c_noise C) (g_keys g) msg1 of
              None \<Rightarrow> Return (send_direct [\<lparr>out_socket = socket, out_to = from,
                  out_packet = T_WRONG_KEY # take 4 ephemeral\<rparr>] g, None)
            | Some (hs, payload, device, key) \<Rightarrow>
                if length payload < 8 then Panic
                else
                  (case req_decode (drop 8 payload) of
                     None \<Rightarrow> Return (g, None)
                   | Some req \<Rightarrow> Return (handshake_opened C g packet socket from e ephemeral hs device
                       key (from_be (take 8 payload)) req)))))"

definition receive ::
  "crates \<Rightarrow> Gateway \<Rightarrow> bytes \<Rightarrow> nat \<Rightarrow> SocketAddr \<Rightarrow> env \<Rightarrow> (Gateway \<times> NewRequest option) outcome" where
  "receive C g packet socket from e =
     (case packet of
        [] \<Rightarrow> Return (g, None)
      | t # _ \<Rightarrow>
          if t = T_HS1 then handshake C g packet socket from e
          else if t = T_REQ \<or> t = T_DONE then Return (framed C g packet socket from (e_now e))
          else Return (g, None))"

end
