(* ===== verification/GatewayInv.thy ===== *)
theory GatewayInv
  imports WireGateway
begin

section \<open>The gateway: invariants\<close>

text \<open>
  What every operation of the gateway keeps: distinct keys, at most \<open>MAX_SESSIONS\<close> sessions, at
  most \<open>MAX_PENDING\<close> requests in hand per session, and every finished response is the
  encoding of one body.  The operations are the steps of a machine, so the invariant holds in
  every state a run reaches.
\<close>

subsection \<open>Pending requests of a session\<close>

definition pending_count :: "(u16, Resp) hmap \<Rightarrow> nat" where
  "pending_count m = length (filter is_pending (hm_values m))"

lemma pending_count_Nil [simp]: "pending_count [] = 0"
  by (simp add: pending_count_def hm_values_def)

lemma pending_count_Cons [simp]:
  "pending_count (p # m) = (if is_pending (snd p) then 1 else 0) + pending_count m"
  by (simp add: pending_count_def hm_values_def)

lemma pending_count_update_new:
  "map_of m k = None \<Longrightarrow>
     pending_count (AList.update k v m) = pending_count m + (if is_pending v then 1 else 0)"
  by (induction m) (auto split: if_splits)

lemma pending_count_update_old:
  "map_of m k = Some u \<Longrightarrow> is_pending v = is_pending u \<Longrightarrow>
     pending_count (AList.update k v m) = pending_count m"
  by (induction m) (auto split: if_splits)

lemma pending_count_delete_le: "pending_count (AList.delete k m) \<le> pending_count m"
  by (induction m) auto

lemma pending_count_filter_le: "pending_count (filter P m) \<le> pending_count m"
  by (induction m) auto

lemma is_pending_simps [simp]:
  "is_pending (Pending t h rs)" "\<not> is_pending (Ready t k n d rp i rs)"
  "is_pending (set_rounds rs r) = is_pending r"
  by (simp_all add: is_pending_def) (cases r; simp add: is_pending_def)

lemma set_update_hm:
  "x \<in> set (AList.update k v m) \<Longrightarrow> x = (k, v) \<or> x \<in> set m"
  by (induction m) (auto split: if_splits)

lemma set_delete_hm: "x \<in> set (AList.delete k m) \<Longrightarrow> x \<in> set m"
  by (induction m) (auto split: if_splits)

lemma set_adjust_hm:
  "(i, x) \<in> set (hm_adjust k f m) \<Longrightarrow> \<exists>y. (i, y) \<in> set m \<and> (x = y \<or> x = f y)"
  by (induction k f m rule: hm_adjust.induct) (auto split: if_splits)

subsection \<open>The invariant\<close>

definition resp_ok :: "crates \<Rightarrow> u16 \<Rightarrow> Resp \<Rightarrow> bool" where
  "resp_ok C i r = (case r of Pending _ h _ \<Rightarrow> rq_req_id h = i
     | Ready _ k n d rp _ _ \<Rightarrow> n \<le> MAX_RESPONSE \<and> k = fst (shape n) \<and>
         (\<exists>body. length body = n \<and> fec_encode (c_rs C) body = Some (d, rp)))"

definition window_ok :: "ReplayWindow \<Rightarrow> bool" where
  "window_ok w \<longleftrightarrow> (\<exists>S. window_holds w S)"

lemma window_ok_new [simp]: "window_ok new_window"
  using window_holds_new by (auto simp: window_ok_def)

lemma window_ok_accept: "window_ok w \<Longrightarrow> accept w c = (b, w') \<Longrightarrow> window_ok w'"
  unfolding window_ok_def using window.acc_rel by (metis snd_conv)

definition session_ok :: "crates \<Rightarrow> Session \<Rightarrow> bool" where
  "session_ok C s \<longleftrightarrow> hm_ok (s_responses s) \<and> pending_count (s_responses s) \<le> MAX_PENDING \<and>
     (\<forall>(i, r) \<in> set (s_responses s). resp_ok C i r) \<and> window_ok (s_window s)"

definition gw_inv :: "crates \<Rightarrow> Gateway \<Rightarrow> bool" where
  "gw_inv C g \<longleftrightarrow> hm_ok (g_sessions g) \<and> length (g_sessions g) \<le> MAX_SESSIONS \<and>
     (\<forall>(i, s) \<in> set (g_sessions g). session_ok C s)"

lemma resp_ok_Pending [simp]: "resp_ok C i (Pending t h rs) \<longleftrightarrow> rq_req_id h = i"
  by (simp add: resp_ok_def)

lemma resp_ok_set_rounds [simp]: "resp_ok C i (set_rounds rs r) = resp_ok C i r"
  by (cases r) (simp_all add: resp_ok_def)

text \<open>Only the responses and the window of a session matter to the invariant.\<close>

lemma session_ok_cong:
  "s_responses s' = s_responses s \<Longrightarrow> s_window s' = s_window s \<Longrightarrow> session_ok C s' = session_ok C s"
  by (simp add: session_ok_def)

lemma session_ok_frames [simp]:
  "session_ok C (s\<lparr>s_ctr := c\<rparr>) = session_ok C s"
  "session_ok C (s\<lparr>s_peer := p\<rparr>) = session_ok C s"
  "session_ok C (s\<lparr>s_socket := n\<rparr>) = session_ok C s"
  "session_ok C (s\<lparr>s_validated := b\<rparr>) = session_ok C s"
  "session_ok C (s\<lparr>s_credit := cr\<rparr>) = session_ok C s"
  "session_ok C (s\<lparr>s_heard := t\<rparr>) = session_ok C s"
  "session_ok C (s\<lparr>s_next_send := t\<rparr>) = session_ok C s"
  "session_ok C (s\<lparr>s_rate := r\<rparr>) = session_ok C s"
  by (simp_all add: session_ok_def)

lemma session_ok_update_old:
  assumes "session_ok C s" and "map_of (s_responses s) k = Some u"
    and "is_pending v = is_pending u" and "resp_ok C k v"
  shows "session_ok C (s\<lparr>s_responses := AList.update k v (s_responses s)\<rparr>)"
  using assms by (auto simp: session_ok_def pending_count_update_old dest!: set_update_hm)

lemma session_ok_update_new:
  assumes "session_ok C s" and "map_of (s_responses s) k = None"
    and "is_pending v \<longrightarrow> pending_count (s_responses s) < MAX_PENDING" and "resp_ok C k v"
  shows "session_ok C (s\<lparr>s_responses := AList.update k v (s_responses s)\<rparr>)"
  using assms by (auto simp: session_ok_def pending_count_update_new dest!: set_update_hm)

lemma session_ok_delete:
  assumes "session_ok C s"
  shows "session_ok C (s\<lparr>s_responses := AList.delete k (s_responses s)\<rparr>)"
  using assms pending_count_delete_le [of k "s_responses s"]
  by (auto simp: session_ok_def dest: set_delete_hm)

lemma session_ok_filter:
  assumes "session_ok C s"
  shows "session_ok C (s\<lparr>s_responses := filter P (s_responses s)\<rparr>)"
  using assms pending_count_filter_le [of P "s_responses s"]
  by (auto simp: session_ok_def )

lemma gw_inv_new [simp]: "gw_inv C (gw_new keys)"
  by (simp add: gw_inv_def gw_new_def hm_values_def)

lemma gw_inv_session: "gw_inv C g \<Longrightarrow> map_of (g_sessions g) sid = Some s \<Longrightarrow> session_ok C s"
  by (auto simp: gw_inv_def dest: map_of_SomeD)

lemma gw_inv_cong: "g_sessions g' = g_sessions g \<Longrightarrow> gw_inv C g' = gw_inv C g"
  by (simp add: gw_inv_def)

lemma gw_inv_frames [simp]:
  "gw_inv C (g\<lparr>g_keys := ks\<rparr>) = gw_inv C g"
  "gw_inv C (g\<lparr>g_handshakes := hs\<rparr>) = gw_inv C g"
  "gw_inv C (g\<lparr>g_seen_ts := ts\<rparr>) = gw_inv C g"
  "gw_inv C (g\<lparr>g_known_ip := ips\<rparr>) = gw_inv C g"
  "gw_inv C (g\<lparr>g_queue := q\<rparr>) = gw_inv C g"
  "gw_inv C (g\<lparr>g_direct := d\<rparr>) = gw_inv C g"
  "gw_inv C (g\<lparr>g_working := w\<rparr>) = gw_inv C g"
  "gw_inv C (send_direct os g) = gw_inv C g"
  "gw_inv C (set_keys g ks) = gw_inv C g"
  by (simp_all add: gw_inv_def send_direct_def set_keys_def)

lemma gw_inv_set_session:
  assumes "gw_inv C g" and "session_ok C s" and "map_of (g_sessions g) sid = Some s0"
  shows "gw_inv C (set_session sid s g)"
  using assms by (auto simp: gw_inv_def set_session_def length_update_old dest!: set_update_hm)

subsection \<open>Every operation keeps it\<close>

text \<open>\<open>hide s\<close>: the session without what sending and answering change.\<close>

definition hide :: "Session \<Rightarrow> Session" where
  "hide s = s\<lparr>s_ctr := 0, s_next_send := 0, s_responses := []\<rparr>"

lemma hide_simps [simp]:
  "hide (s\<lparr>s_ctr := c\<rparr>) = hide s" "hide (s\<lparr>s_next_send := t\<rparr>) = hide s"
  "hide (s\<lparr>s_responses := m\<rparr>) = hide s"
  by (simp_all add: hide_def)

lemma hide_eq:
  assumes "hide s' = hide s"
  shows "s_keys s' = s_keys s" "s_window s' = s_window s" "s_peer s' = s_peer s"
    "s_validated s' = s_validated s" "s_credit s' = s_credit s" "s_heard s' = s_heard s"
    "s_device s' = s_device s" "s_socket s' = s_socket s"
  using assms unfolding hide_def by (cases s; cases s'; simp)+

lemma queue_symbols_responses [frames]:
  "queue_symbols C sid req k n len rate pos due syms s = (s', outs) \<Longrightarrow>
     s_responses s' = s_responses s \<and> hide s' = hide s"
  by (induction syms arbitrary: pos due s s' outs)
    (auto simp: Let_def split: prod.splits)

lemma gw_inv_send_working:
  assumes "gw_inv C g" shows "gw_inv C (send_working C g token now)"
proof (cases "map_of (g_sessions g) (tk_sid token)")
  case (Some s)
  have "session_ok C s" using assms Some by (rule gw_inv_session)
  then show ?thesis
    using assms Some
    by (auto simp: send_working_def Let_def intro!: gw_inv_set_session split: option.splits Resp.splits)
qed (use assms in \<open>simp add: send_working_def\<close>)

text \<open>\<^verbatim>\<open>burst\<close> for a finished response, and where it does nothing.\<close>

lemma burst_Ready:
  assumes "map_of (g_sessions g) sid = Some s"
    and "map_of (s_responses s) (rq_req_id req) = Some (Ready t0 k n d rp i rs)"
    and "syms = burst_symbols req first k d rp i"
    and "used = (if first then length syms - length d else length syms)"
    and "queue_symbols C sid req (of_nat k) (of_nat n) (of_nat (length syms)) (max (s_rate s) (rq_rate req))
      0 (max (s_next_send s) now) syms
      (s\<lparr>s_responses := AList.update (rq_req_id req) (Ready t0 k n d rp (i + used) rs) (s_responses s)\<rparr>)
      = (s2, outs)"
  shows "burst C g sid req first now = (set_session sid s2 g)\<lparr>g_queue := g_queue g @ outs\<rparr>"
  using assms unfolding burst_def by (cases first) (simp_all add: Let_def)

lemma burst_not_Ready:
  assumes "map_of (g_sessions g) sid = Some s"
    and "\<nexists>t0 k n d rp i rs. map_of (s_responses s) (rq_req_id req) = Some (Ready t0 k n d rp i rs)"
  shows "burst C g sid req first now = g"
  using assms by (auto simp: burst_def split: option.splits Resp.splits)

lemma gw_inv_burst:
  assumes "gw_inv C g" shows "gw_inv C (burst C g sid req first now)"
proof (cases "map_of (g_sessions g) sid")
  case (Some s)
  have ok: "session_ok C s" using assms Some by (rule gw_inv_session)
  show ?thesis
  proof (cases "\<exists>t0 k n d rp i rs. map_of (s_responses s) (rq_req_id req) = Some (Ready t0 k n d rp i rs)")
    case True
    then obtain t0 k n d rp i rs
      where r: "map_of (s_responses s) (rq_req_id req) = Some (Ready t0 k n d rp i rs)" by blast
    define syms where "syms = burst_symbols req first k d rp i"
    define used where "used = (if first then length syms - length d else length syms)"
    define s1 where "s1 = s\<lparr>s_responses :=
      AList.update (rq_req_id req) (Ready t0 k n d rp (i + used) rs) (s_responses s)\<rparr>"
    obtain s2 outs where q: "queue_symbols C sid req (of_nat k) (of_nat n) (of_nat (length syms))
        (max (s_rate s) (rq_rate req)) 0 (max (s_next_send s) now) syms s1 = (s2, outs)"
      by (meson surj_pair)
    have "resp_ok C (rq_req_id req) (Ready t0 k n d rp i rs)"
      using r ok by (auto simp: session_ok_def dest: map_of_SomeD)
    then have "session_ok C s1"
      unfolding s1_def by (intro session_ok_update_old [OF ok r]) (simp_all add: resp_ok_def)
    then have "session_ok C s2"
      using session_ok_cong [of s2 s1] queue_symbols_responses [OF q] hide_eq(2) by blast
    then show ?thesis
      unfolding burst_Ready [OF Some r syms_def used_def q [unfolded s1_def]] gw_inv_frames
      by (rule gw_inv_set_session [OF assms _ Some])
  next
    case False
    then show ?thesis using burst_not_Ready [OF Some] assms by simp
  qed
qed (use assms in \<open>simp add: burst_def\<close>)

lemma gw_inv_respond:
  assumes "gw_inv C g" and "respond C g token body now = Return g'"
  shows "gw_inv C g'"
proof (cases "map_of (g_sessions g) (tk_sid token)")
  case (Some s)
  have ok: "session_ok C s" using assms(1) Some by (rule gw_inv_session)
  define del where "del = AList.delete (tk_req_id token) (s_responses s)"
  have "session_ok C (s\<lparr>s_responses := del\<rparr>)"
    unfolding del_def by (rule session_ok_delete [OF ok])
  note new = session_ok_update_new [OF this, of "tk_req_id token"]
  have upd: "session_ok C (s\<lparr>s_responses :=
      AList.update (tk_req_id token) (Ready now (fst (shape (length body))) (length body) d rp 0 rs) del\<rparr>)"
    if "length body \<le> MAX_RESPONSE" "fec_encode (c_rs C) body = Some (d, rp)" for d rp rs
    using that new [of "Ready now (fst (shape (length body))) (length body) d rp 0 rs"]
    by (auto simp: del_def resp_ok_def)
  show ?thesis
    using assms Some ok upd
    by (auto simp: respond_def Let_def del_def intro!: gw_inv_burst gw_inv_set_session session_ok_delete
        split: if_splits option.splits Resp.splits)
qed (use assms in \<open>auto simp: respond_def split: if_splits\<close>)

text \<open>The loop of \<^verbatim>\<open>poll\<close> changes nothing of the sessions but their credit.\<close>

definition no_credit :: "(u32, Session) hmap \<Rightarrow> (u32, Session) hmap" where
  "no_credit ss = map (\<lambda>(i, s). (i, s\<lparr>s_credit := 0\<rparr>)) ss"

lemma no_credit_update:
  "map_of ss k = Some s \<Longrightarrow> no_credit (AList.update k (s\<lparr>s_credit := c\<rparr>) ss) = no_credit ss"
  by (induction ss) (auto simp: no_credit_def split: if_splits)

lemma drain_Cons_cases:
  "drain now ss (q # qs) =
     (case map_of ss (q_sid q) of
        None \<Rightarrow> drain now ss qs
      | Some s \<Rightarrow>
          if BREAKER < since now (s_heard s) then drain now ss qs
          else if now < q_due q \<or> \<not> s_validated s \<and> s_credit s < length (q_packet q) + IP_UDP
          then apsnd (apfst ((#) q)) (drain now ss qs)
          else apsnd (apsnd ((#) \<lparr>out_socket = s_socket s, out_to = s_peer s, out_packet = q_packet q\<rparr>))
            (drain now (if s_validated s then ss
               else AList.update (q_sid q) (s\<lparr>s_credit := s_credit s - (length (q_packet q) + IP_UDP)\<rparr>) ss) qs))"
  by (auto simp: Let_def split: option.split prod.split)

lemma drain_no_credit: "no_credit (fst (drain now ss qs)) = no_credit ss"
proof (induction qs arbitrary: ss)
  case (Cons q qs)
  then show ?case
    by (simp only: drain_Cons_cases)
      (auto simp: no_credit_update split: option.split)
qed simp

lemma no_credit_inv:
  assumes "no_credit ss' = no_credit ss" and "hm_ok ss" and "\<forall>(i, s) \<in> set ss. session_ok C s"
  shows "hm_ok ss' \<and> length ss' = length ss \<and> (\<forall>(i, s) \<in> set ss'. session_ok C s)"
proof (intro conjI ballI)
  have "map fst (no_credit m) = map fst m" for m by (simp add: no_credit_def split_def)
  then show "hm_ok ss'" using assms(1,2) unfolding hm_ok_def by metis
  have "length (no_credit m) = length m" for m by (simp add: no_credit_def)
  then show "length ss' = length ss" using assms(1) by metis
  fix x assume "x \<in> set ss'"
  then obtain i s where x: "x = (i, s)" "(i, s) \<in> set ss'" by (metis surj_pair)
  then have "(i, s\<lparr>s_credit := 0\<rparr>) \<in> set (no_credit ss')" by (force simp: no_credit_def)
  then obtain s0 where "(i, s0) \<in> set ss" "s0\<lparr>s_credit := 0\<rparr> = s\<lparr>s_credit := 0\<rparr>"
    unfolding assms(1) by (auto simp: no_credit_def)
  then have "session_ok C s0" "session_ok C (s0\<lparr>s_credit := 0\<rparr>) = session_ok C (s\<lparr>s_credit := 0\<rparr>)"
    using assms(3) by auto
  then show "case x of (i, s) \<Rightarrow> session_ok C s" using x by simp
qed

lemma gw_inv_poll: "gw_inv C g \<Longrightarrow> gw_inv C (fst (poll C g now))"
proof -
  assume inv: "gw_inv C g"
  define g2 where "g2 = notices C g now"
  have "gw_inv C (foldl (\<lambda>g tok. send_working C g tok now) g0 toks)" if "gw_inv C g0" for g0 toks
    using that by (induction toks arbitrary: g0) (auto intro: gw_inv_send_working)
  then have inv2: "gw_inv C g2" using inv by (simp add: g2_def notices_def Let_def)
  obtain ss keep out where d: "drain now (g_sessions g2) (g_queue g2) = (ss, keep, out)"
    by (cases "drain now (g_sessions g2) (g_queue g2)") auto
  have "poll C g now = (g2\<lparr>g_sessions := ss, g_queue := keep\<rparr>, g_direct g @ out)"
    using d by (simp add: poll_def Let_def g2_def)
  then show ?thesis
    using no_credit_inv [of ss "g_sessions g2" C] drain_no_credit [of now "g_sessions g2" "g_queue g2"] d inv2
    by (auto simp: gw_inv_def)
qed

lemma gw_inv_sweep: "gw_inv C g \<Longrightarrow> gw_inv C (sweep g e)"
proof -
  assume inv: "gw_inv C g"
  define keep where "keep = filter (\<lambda>(_, s). since (e_now e) (s_heard s) < SESSION_IDLE) (g_sessions g)"
  define f :: "Session \<Rightarrow> Session" where "f = (\<lambda>s. s\<lparr>s_responses := filter (\<lambda>(_, r). keep_response (e_now e) r) (s_responses s)\<rparr>)"
  have eq: "g_sessions (sweep g e) = map (\<lambda>(i, s). (i, f s)) keep"
    by (simp add: sweep_def Let_def keep_def f_def)
  have "hm_ok keep" using inv by (simp add: keep_def gw_inv_def)
  moreover have "length keep \<le> length (g_sessions g)" by (simp add: keep_def)
  moreover have "session_ok C s" if "(i, s) \<in> set (map (\<lambda>(i, s). (i, f s)) keep)" for i s
  proof -
    from that obtain s0 where "(i, s0) \<in> set (g_sessions g)" "s = f s0"
      by (auto simp: keep_def)
    then have "session_ok C s0" using inv by (auto simp: gw_inv_def)
    then show ?thesis unfolding \<open>s = f s0\<close> f_def by (rule session_ok_filter)
  qed
  ultimately show ?thesis
    using inv by (auto simp: gw_inv_def eq hm_ok_def comp_def split_def)
qed

subsection \<open>Receiving\<close>

lemma gw_inv_request:
  assumes "gw_inv C g" shows "gw_inv C (fst (request C g sid req now))"
proof (cases "map_of (g_sessions g) sid")
  case (Some s)
  have ok: "session_ok C s" using assms Some by (rule gw_inv_session)
  show ?thesis
  proof (cases "map_of (s_responses s) (rq_req_id req)")
    case None
    have "session_ok C (s\<lparr>s_responses :=
        AList.update (rq_req_id req) (Pending now req {rq_round req}) (s_responses s)\<rparr>)"
      if "pending_count (s_responses s) < MAX_PENDING"
      using that by (intro session_ok_update_new [OF ok None]) simp_all
    then show ?thesis
      using assms Some None
      by (auto simp: request_def Let_def pending_count_def intro!: gw_inv_set_session)
  next
    case resp: (Some resp)
    have "resp_ok C (rq_req_id req) resp" using resp ok by (auto simp: session_ok_def dest: map_of_SomeD)
    then have "session_ok C (s\<lparr>s_responses := AList.update (rq_req_id req)
        (set_rounds rs resp) (s_responses s)\<rparr>)" for rs
      by (intro session_ok_update_old [OF ok resp]) simp_all
    then show ?thesis
      using assms Some resp
      by (auto simp: request_def Let_def intro!: gw_inv_set_session gw_inv_burst gw_inv_send_working)
  qed
qed (use assms in \<open>simp add: request_def\<close>)

lemma heard_from_responses [frames, simp]:
  "s_responses (heard_from g s w packet socket from now) = s_responses s"
  by (simp add: heard_from_def Let_def)

lemma heard_from_window [frames, simp]:
  "s_window (heard_from g s w packet socket from now) = w"
  by (simp add: heard_from_def Let_def)

lemma heard_from_ok:
  "session_ok C s \<Longrightarrow> accept (s_window s) c = (b, w) \<Longrightarrow>
     session_ok C (heard_from g s w packet socket from now)"
  by (auto simp: session_ok_def intro: window_ok_accept)

lemma gw_inv_framed_done:
  assumes "gw_inv C g" and "session_ok C s" and "map_of (g_sessions g) sid = Some s0"
  shows "gw_inv C (framed_done g sid s plain now)"
proof -
  have "gw_inv C (set_session sid s' g)" if "session_ok C s'" for s'
    using assms(1) that assms(3) by (rule gw_inv_set_session)
  moreover have "session_ok C (s\<lparr>s_next_send := now, s_responses := AList.delete rid (s_responses s)\<rparr>)" for rid
    using session_ok_delete [of C "s\<lparr>s_next_send := now\<rparr>" rid] assms(2) by simp
  ultimately show ?thesis using assms(2) by (simp add: framed_done_def Let_def split: option.split)
qed

lemma gw_inv_framed_req:
  assumes "gw_inv C g" and "session_ok C s" and "map_of (g_sessions g) sid = Some s0"
  shows "gw_inv C (fst (framed_req C g sid s plain from now))"
proof -
  have keep: "gw_inv C (set_session sid s' g)" if "session_ok C s'" for s'
    using assms(1) that assms(3) by (rule gw_inv_set_session)
  then show ?thesis using assms(2)
    by (auto simp: framed_req_def Let_def intro!: keep gw_inv_request split: option.split prod.split)
qed

lemma gw_inv_framed:
  assumes "gw_inv C g" shows "gw_inv C (fst (framed C g packet socket from now))"
  using assms
  by (auto simp: framed_def Let_def split: option.split prod.split dest: gw_inv_session
      intro!: gw_inv_framed_done gw_inv_framed_req heard_from_ok)

lemma make_room:
  assumes "hm_ok ss" and "length ss \<le> MAX_SESSIONS" and "\<forall>(i, s) \<in> set ss. P s"
  shows "hm_ok (make_room ss)" and "length (make_room ss) < MAX_SESSIONS"
    and "\<forall>(i, s) \<in> set (make_room ss). P s"
proof -
  have small: "length (make_room ss) < MAX_SESSIONS"
  proof (cases "MAX_SESSIONS \<le> length ss")
    case True
    then have "ss \<noteq> []" by (auto simp: MAX_SESSIONS_def)
    then obtain i s where m: "min_by_key (\<lambda>(_, s). s_heard s) ss = Some (i, s)"
      by (metis min_by_key_None not_None_eq surj_pair)
    then have "map_of ss i = Some s"
      using min_by_key_Some [OF m] assms(1) by (simp add: hm_lookup_iff)
    then have "Suc (length (AList.delete i ss)) = length ss"
      by (rule length_delete_present [OF assms(1)])
    then show ?thesis using True m assms(2) by (simp add: make_room_def)
  qed (simp add: make_room_def)
  show "hm_ok (make_room ss)"
    using assms(1) by (auto simp: make_room_def split: option.split)
  show "length (make_room ss) < MAX_SESSIONS" by (rule small)
  show "\<forall>(i, s) \<in> set (make_room ss). P s"
    using assms(3) by (auto simp: make_room_def split: option.split if_splits dest!: set_delete_hm)
qed

lemma gw_inv_new_session:
  assumes "gw_inv C g" and "session_ok C s"
  shows "gw_inv C (set_session sid s (g\<lparr>g_sessions := make_room (g_sessions g)\<rparr>))"
  using assms make_room [of "g_sessions g" "session_ok C"] length_update_le [of sid s "make_room (g_sessions g)"]
  by (auto simp: gw_inv_def set_session_def dest!: set_update_hm)

lemma gw_inv_handshake_opened:
  assumes "gw_inv C g"
  shows "gw_inv C (fst (handshake_opened C g packet socket from e eph hs device key ts req))"
proof -
  have "session_ok C (new_session g' packet socket from now a b device hs2 req)" for g' now a b hs2
    by (simp add: new_session_def session_ok_def Let_def hm_values_def)
  moreover have "gw_inv C (set_session sid s (g'\<lparr>g_sessions := make_room (g_sessions g'),
      g_handshakes := x\<rparr>))" if "gw_inv C g'" "session_ok C s" for g' sid s x
  proof -
    have "set_session sid s (g'\<lparr>g_sessions := make_room (g_sessions g'), g_handshakes := x\<rparr>) =
      (set_session sid s (g'\<lparr>g_sessions := make_room (g_sessions g')\<rparr>))\<lparr>g_handshakes := x\<rparr>"
      by (simp add: set_session_def)
    then show ?thesis using gw_inv_new_session [OF that] by simp
  qed
  ultimately show ?thesis
    using assms by (auto simp: handshake_opened_def Let_def intro!: gw_inv_request split: option.split)
qed

lemma gw_inv_adjust:
  assumes "gw_inv C g" and "\<And>s. session_ok C (f s) = session_ok C s"
  shows "gw_inv C (g\<lparr>g_sessions := hm_adjust sid f (g_sessions g)\<rparr>)"
  using assms by (auto simp: gw_inv_def dest!: set_adjust_hm)

lemma gw_inv_handshake:
  assumes "gw_inv C g" and "handshake C g packet socket from e = Return r"
  shows "gw_inv C (fst r)"
  using assms
  by (auto simp: handshake_def Let_def intro!: gw_inv_handshake_opened gw_inv_adjust
      split: option.splits if_splits)

lemma gw_inv_receive:
  assumes "gw_inv C g" and "receive C g packet socket from e = Return r"
  shows "gw_inv C (fst r)"
  using assms gw_inv_handshake [OF assms(1)] gw_inv_framed [OF assms(1)]
  by (auto simp: receive_def split: list.splits if_splits)

subsection \<open>The gateway as a machine\<close>

text \<open>What its owner, the loop of \<^verbatim>\<open>vtop-gateway\<close>, does with a gateway.\<close>

datatype gw_event =
    Receive bytes nat SocketAddr env
  | Respond Token bytes instant
  | Poll instant
  | Sweep env
  | SetKeys "bytes list"

fun gw_step :: "crates \<Rightarrow> Gateway \<Rightarrow> gw_event \<Rightarrow> Gateway outcome" where
  "gw_step C g (Receive p socket from e) =
     (case receive C g p socket from e of Panic \<Rightarrow> Panic | Return (g', _) \<Rightarrow> Return g')"
| "gw_step C g (Respond t body now) = respond C g t body now"
| "gw_step C g (Poll now) = Return (fst (poll C g now))"
| "gw_step C g (Sweep e) = Return (sweep g e)"
| "gw_step C g (SetKeys ks) = Return (set_keys g ks)"

abbreviation gw_run :: "crates \<Rightarrow> Gateway \<Rightarrow> gw_event list \<Rightarrow> Gateway outcome" where
  "gw_run C \<equiv> run_machine (gw_step C)"

interpretation gw: machine "gw_step C" "gw_inv C" for C
proof
  fix g e g'
  assume "gw_inv C g" and "gw_step C g e = Return g'"
  then show "gw_inv C g'"
    by (cases e) (auto intro: gw_inv_respond gw_inv_poll gw_inv_sweep
        split: outcome.splits dest: gw_inv_receive)
qed

end
