(* ===== verification/GatewayBurst.thy ===== *)
theory GatewayBurst
  imports GatewayInv
begin

section \<open>The gateway: what a burst sends\<close>

text \<open>
  The packets a burst queues: their counters, their times and their symbols.  Every symbol of
  every burst is a genuine symbol of the one answer, so a client that opens enough of them,
  whatever was lost, repeated or reordered, rebuilds the answer.
\<close>

subsection \<open>Counters, contents and times\<close>

lemma queue_symbols_spec:
  assumes "queue_symbols C sid req k n len rate pos due syms s = (s', outs)"
  shows "length outs = length syms \<and> s_ctr s' = s_ctr s + of_nat (length syms) \<and>
    s_keys s' = s_keys s \<and>
    (\<forall>j < length syms. q_sid (outs ! j) = sid \<and> q_req_id (outs ! j) = rq_req_id req \<and>
       q_packet (outs ! j) = seal (c_aead C) (s_keys s) T_DATA sid (s_ctr s + of_nat j)
         (data_encode (symbol_data req k n len (pos + j) (syms ! j))))"
  using assms
proof (induction syms arbitrary: pos due s s' outs)
  case (Cons x syms)
  define o1 where "o1 = \<lparr>q_due = due, q_sid = sid, q_req_id = rq_req_id req,
    q_packet = seal (c_aead C) (s_keys s) T_DATA sid (s_ctr s)
        (data_encode (symbol_data req k n len pos x))\<rparr>"
  from Cons.prems obtain outs1 where
    rest: "queue_symbols C sid req k n len rate (pos + 1)
      (due + pace (length (q_packet o1) + IP_UDP) rate) syms (s\<lparr>s_ctr := s_ctr s + 1\<rparr>) = (s', outs1)"
    and o1: "outs = o1 # outs1" "q_sid o1 = sid" "q_req_id o1 = rq_req_id req"
      "q_packet o1 = seal (c_aead C) (s_keys s) T_DATA sid (s_ctr s)
        (data_encode (symbol_data req k n len pos x))"
    by (auto simp: Let_def o1_def split: prod.splits)
  note IH = Cons.IH [OF rest]
  show ?case
  proof (intro conjI allI impI)
    fix j assume "j < length (x # syms)"
    then show "q_sid (outs ! j) = sid" "q_req_id (outs ! j) = rq_req_id req"
      "q_packet (outs ! j) = seal (c_aead C) (s_keys s) T_DATA sid (s_ctr s + of_nat j)
         (data_encode (symbol_data req k n len (pos + j) ((x # syms) ! j)))"
      using IH o1 by (cases j; simp add: ac_simps)+
  qed (use IH o1 in \<open>simp_all add: ac_simps\<close>)
qed simp

lemma queue_symbols_dues:
  assumes "queue_symbols C sid req k n len rate pos due syms s = (s', outs)"
  shows "(outs \<noteq> [] \<longrightarrow> q_due (hd outs) = due) \<and>
    (\<forall>j. Suc j < length outs \<longrightarrow> q_due (outs ! Suc j) =
       q_due (outs ! j) + pace (length (q_packet (outs ! j)) + IP_UDP) rate) \<and>
    s_next_send s' = (if outs = [] then due
       else q_due (last outs) + pace (length (q_packet (last outs)) + IP_UDP) rate)"
  using assms
proof (induction syms arbitrary: pos due s s' outs)
  case (Cons x syms)
  define o1 where "o1 = \<lparr>q_due = due, q_sid = sid, q_req_id = rq_req_id req,
    q_packet = seal (c_aead C) (s_keys s) T_DATA sid (s_ctr s)
        (data_encode (symbol_data req k n len pos x))\<rparr>"
  from Cons.prems obtain outs1 where
    rest: "queue_symbols C sid req k n len rate (pos + 1)
      (due + pace (length (q_packet o1) + IP_UDP) rate) syms (s\<lparr>s_ctr := s_ctr s + 1\<rparr>) = (s', outs1)"
    and o1: "outs = o1 # outs1" "q_due o1 = due"
    by (auto simp: Let_def o1_def split: prod.splits)
  note IH = Cons.IH [OF rest]
  show ?case
  proof (intro conjI allI impI)
    fix j assume "Suc j < length outs"
    then show "q_due (outs ! Suc j) =
        q_due (outs ! j) + pace (length (q_packet (outs ! j)) + IP_UDP) rate"
      using IH o1 by (cases j) (auto simp: hd_conv_nth)
  qed (use IH o1 in auto)
qed auto

subsection \<open>Symbols\<close>

text \<open>One symbol of the answer, under its index.\<close>

definition genuine_symbol :: "bytes list \<Rightarrow> bytes list \<Rightarrow> u8 \<times> bytes \<Rightarrow> bool" where
  "genuine_symbol data repair sb \<longleftrightarrow>
     unat (fst sb) < length data \<and> snd sb = data ! unat (fst sb) \<or>
     length data \<le> unat (fst sb) \<and> unat (fst sb) - length data < length repair \<and>
       snd sb = repair ! (unat (fst sb) - length data)"

lemma genuine_iff:
  "genuine data repair got \<longleftrightarrow> hm_ok got \<and> (\<forall>sb \<in> set got. genuine_symbol data repair sb)"
  by (auto simp: genuine_def genuine_symbol_def)

text \<open>What \<open>fec_encode\<close> makes, for an answer within the limit: at most 255 symbols.\<close>

lemma fec_encode_shape:
  assumes "fec_encode R body = Some (data, repair)" and "length body \<le> MAX_RESPONSE"
    and "rs_ok R (fst (shape (length body))) (repair_pool (fst (shape (length body)))) (padded_symbols body)"
  shows "length data = fst (shape (length body))" and "0 < length repair"
    and "length data + length repair \<le> 255"
proof -
  let ?k = "fst (shape (length body))"
  have k: "1 \<le> ?k" "?k \<le> MAX_K" using shape_k_pos shape_k_max [OF assms(2)] by auto
  show d: "length data = ?k"
    using assms(1) by (auto simp: fec_encode_def Let_def bind_eq_Some_conv)
  have r: "length repair = repair_pool ?k"
    using assms(1,3) by (auto simp: fec_encode_def Let_def bind_eq_Some_conv rs_ok_def)
  show "0 < length repair" and "length data + length repair \<le> 255"
    using repair_pool_bounds [of ?k] k r d by (simp_all add: MAX_K_def)
qed

lemma burst_symbols_genuine:
  assumes "x \<in> set (burst_symbols req first (length data) data repair i)"
    and "0 < length repair" and "length data + length repair \<le> 255"
  shows "genuine_symbol data repair x"
proof -
  have idx: "unat (word_of_nat j :: u8) = j" if "j < 256" for j
    using that by (simp add: unat_of_nat take_bit_nat_eq_self)
  have next': "genuine_symbol data repair (next_symbol (length data) repair j)" for j
  proof -
    have "length data + j mod length repair < 256"
      using assms(2,3) mod_less_divisor [of "length repair" j] by linarith
    then show ?thesis
      using assms(2) by (simp add: next_symbol_def genuine_symbol_def Let_def idx flip: of_nat_add)
  qed
  have data': "genuine_symbol data repair (of_nat j, data ! j)" if "j < length data" for j
    using that assms(3) by (simp add: genuine_symbol_def idx)
  show ?thesis
    using assms(1) next' data'
    by (auto simp: burst_symbols_def in_set_enumerate_eq split: if_splits)
qed

text \<open>Every data symbol is in the first burst, before the spare ones.\<close>

lemma first_burst_data:
  assumes "j < length data"
  shows "j < length (burst_symbols req True k data repair i)"
    and "burst_symbols req True k data repair i ! j = (of_nat j, data ! j)"
  using assms by (simp_all add: burst_symbols_def nth_append nth_enumerate_eq)

subsection \<open>The receiving end\<close>

text \<open>
  What a client takes out of packets: the symbols of those that open under its keys as
  \<open>T_DATA\<close>, by their index.  A packet that arrives twice changes nothing.
\<close>

definition symbol_of :: "aead \<Rightarrow> Keys \<Rightarrow> bytes \<Rightarrow> (u8 \<times> bytes) option" where
  "symbol_of A K p =
     do { o' \<leftarrow> open_packet A K p;
          d \<leftarrow> (if o_ptype o' = T_DATA then data_decode (o_plain o') else None);
          Some (d_sym d, d_bytes d) }"

fun symbols_of :: "aead \<Rightarrow> Keys \<Rightarrow> bytes list \<Rightarrow> (u8, bytes) hmap" where
  "symbols_of A K [] = []"
| "symbols_of A K (p # ps) =
     (case symbol_of A K p of None \<Rightarrow> symbols_of A K ps
      | Some (i, b) \<Rightarrow> AList.update i b (symbols_of A K ps))"

lemma hm_ok_symbols_of [simp]: "hm_ok (symbols_of A K ps)"
  by (induction ps) (auto split: option.splits)

lemma symbols_of_from:
  "(i, b) \<in> set (symbols_of A K ps) \<Longrightarrow> \<exists>p \<in> set ps. symbol_of A K p = Some (i, b)"
  by (induction ps) (auto split: option.splits dest!: set_update_hm)

lemma symbols_of_dom:
  "p \<in> set ps \<Longrightarrow> symbol_of A K p = Some (i, b) \<Longrightarrow> map_of (symbols_of A K ps) i \<noteq> None"
  by (induction ps) (auto split: option.splits)

lemma symbol_of_seal:
  assumes "aead_ok A" and "k_recv R = k_send S"
  shows "symbol_of A R (seal A S T_DATA sid ctr (data_encode d)) = Some (d_sym d, d_bytes d)"
  using assms by (simp add: symbol_of_def open_seal data_decode_encode)

subsection \<open>The first burst\<close>

text \<open>\<^verbatim>\<open>respond\<close> to a pending request, step by step.\<close>

lemma respond_Pending:
  assumes "map_of (g_sessions g) (tk_sid token) = Some s"
    and "map_of (s_responses s) (tk_req_id token) = Some (Pending t hints rounds)"
    and "rq_req_id hints = tk_req_id token"
    and "length body \<le> MAX_RESPONSE" and "fec_encode (c_rs C) body = Some (data, repair)"
  obtains s2 outs where
    "respond C g token body now = Return ((set_session (tk_sid token) s2 g)
       \<lparr>g_working := filter (\<lambda>(_, t). t \<noteq> token) (g_working g), g_queue := g_queue g @ outs\<rparr>)"
    and "length outs = length (burst_symbols hints True (fst (shape (length body))) data repair 0)"
    and "\<And>j. j < length outs \<Longrightarrow> q_sid (outs ! j) = tk_sid token \<and> q_req_id (outs ! j) = tk_req_id token \<and>
      q_packet (outs ! j) = seal (c_aead C) (s_keys s) T_DATA (tk_sid token) (s_ctr s + of_nat j)
        (data_encode (symbol_data hints (of_nat (fst (shape (length body)))) (of_nat (length body))
          (of_nat (length outs)) j
          (burst_symbols hints True (fst (shape (length body))) data repair 0 ! j)))"
    and "s_ctr s2 = s_ctr s + of_nat (length outs)" and "s_keys s2 = s_keys s"
    and "outs \<noteq> [] \<Longrightarrow> q_due (hd outs) = max (s_next_send s) now"
    and "\<And>j. Suc j < length outs \<Longrightarrow> q_due (outs ! Suc j) = q_due (outs ! j) +
      pace (length (q_packet (outs ! j)) + IP_UDP) (max (s_rate s) (rq_rate hints))"
proof -
  define k where "k = fst (shape (length body))"
  define r0 where "r0 = Ready now k (length body) data repair 0 rounds"
  define s' where "s' = s\<lparr>s_responses := AList.update (tk_req_id token) r0
    (AList.delete (tk_req_id token) (s_responses s))\<rparr>"
  define g' where "g' = (set_session (tk_sid token) s' g)
    \<lparr>g_working := filter (\<lambda>(_, t). t \<noteq> token) (g_working g)\<rparr>"
  define syms where "syms = burst_symbols hints True k data repair 0"
  have resp: "respond C g token body now = Return (burst C g' (tk_sid token) hints True now)"
    using assms by (simp add: respond_def Let_def g'_def s'_def r0_def k_def set_session_def)
  have sess: "map_of (g_sessions g') (tk_sid token) = Some s'"
    by (simp add: g'_def set_session_def)
  have ready: "map_of (s_responses s') (rq_req_id hints) = Some (Ready now k (length body) data repair 0 rounds)"
    using assms(3) by (simp add: s'_def r0_def)
  obtain s2 outs where q: "queue_symbols C (tk_sid token) hints (of_nat k) (of_nat (length body))
      (of_nat (length syms)) (max (s_rate s') (rq_rate hints)) 0 (max (s_next_send s') now) syms
      (s'\<lparr>s_responses := AList.update (rq_req_id hints) (Ready now k (length body) data repair
        (0 + (length syms - length data)) rounds) (s_responses s')\<rparr>) = (s2, outs)"
    by (meson surj_pair)
  have b: "burst C g' (tk_sid token) hints True now =
      (set_session (tk_sid token) s2 g')\<lparr>g_queue := g_queue g' @ outs\<rparr>"
    by (rule burst_Ready [OF sess ready syms_def _ q]) simp
  have upd: "AList.update i b (AList.update i a m) = AList.update i b m" for i a b and m :: "(u32, Session) hmap"
    by (induction m) auto
  have "respond C g token body now = Return ((set_session (tk_sid token) s2 g)
       \<lparr>g_working := filter (\<lambda>(_, t). t \<noteq> token) (g_working g), g_queue := g_queue g @ outs\<rparr>)"
    unfolding resp b by (simp add: g'_def set_session_def upd)
  then show ?thesis
    using that [where ?s2.0 = s2 and outs = outs] queue_symbols_spec [OF q] queue_symbols_dues [OF q] assms(3)
    by (simp add: syms_def k_def s'_def)
qed

end
