(* ===== verification/GatewayRun.thy ===== *)
theory GatewayRun
  imports GatewayBurst
begin

section \<open>The gateway: what runs keep\<close>

text \<open>
  What a poll sends and what it costs a session whose address is unproven; the cases of a
  received packet; and the replay filter: a counter a session's window has taken stays taken
  while the session lives.  All rest on \<open>view\<close>, the part of a session that sending and
  answering leave alone.
\<close>

subsection \<open>What sending leaves alone\<close>

definition view :: "Gateway \<Rightarrow> u32 \<Rightarrow> Session option" where
  "view g sid = map_option hide (map_of (g_sessions g) sid)"

lemma view_frames [simp]:
  "view (g\<lparr>g_keys := ks\<rparr>) = view g" "view (g\<lparr>g_handshakes := hs\<rparr>) = view g"
  "view (g\<lparr>g_seen_ts := ts\<rparr>) = view g" "view (g\<lparr>g_known_ip := ips\<rparr>) = view g"
  "view (g\<lparr>g_queue := q\<rparr>) = view g" "view (g\<lparr>g_direct := d\<rparr>) = view g"
  "view (g\<lparr>g_working := w\<rparr>) = view g" "view (send_direct os g) = view g"
  "view (set_keys g ks) = view g"
  by (simp_all add: view_def fun_eq_iff send_direct_def set_keys_def)

lemma view_set_session [simp]: "view (set_session sid s g) = (view g)(sid := Some (hide s))"
  by (simp add: view_def set_session_def fun_eq_iff)

lemma view_same:
  "map_of (g_sessions g) sid = Some s \<Longrightarrow> hide s' = hide s \<Longrightarrow> view (set_session sid s' g) = view g"
  by (auto simp: view_def set_session_def fun_eq_iff)

lemma view_upd_same [simp]:
  "map_of (g_sessions g) sid = Some s \<Longrightarrow> (view g)(sid := Some (hide s)) = view g"
  by (auto simp: view_def fun_eq_iff)

lemma view_send_working [frames, simp]: "view (send_working C g token now) = view g"
  by (auto simp: send_working_def Let_def split: option.split Resp.split)

lemma view_burst [frames, simp]: "view (burst C g sid req first now) = view g"
proof (cases "map_of (g_sessions g) sid")
  case (Some s)
  show ?thesis
  proof (cases "\<exists>t0 k n d rp i rs. map_of (s_responses s) (rq_req_id req) = Some (Ready t0 k n d rp i rs)")
    case True
    then obtain t0 k n d rp i rs
      where r: "map_of (s_responses s) (rq_req_id req) = Some (Ready t0 k n d rp i rs)" by blast
    define syms where "syms = burst_symbols req first k d rp i"
    define used where "used = (if first then length syms - length d else length syms)"
    obtain s2 outs where q: "queue_symbols C sid req (of_nat k) (of_nat n) (of_nat (length syms))
        (max (s_rate s) (rq_rate req)) 0 (max (s_next_send s) now) syms (s\<lparr>s_responses :=
      AList.update (rq_req_id req) (Ready t0 k n d rp (i + used) rs) (s_responses s)\<rparr>) = (s2, outs)"
      by (meson surj_pair)
    then have "hide s2 = hide s" using queue_symbols_responses [OF q] by simp
    then show ?thesis
      unfolding burst_Ready [OF Some r syms_def used_def q] using Some by simp
  next
    case False
    then show ?thesis using burst_not_Ready [OF Some] by simp
  qed
qed (simp add: burst_def)

lemma view_respond [frames]: "respond C g token body now = Return g' \<Longrightarrow> view g' = view g"
  by (auto simp: respond_def Let_def split: if_splits option.splits Resp.splits)

lemma view_request [frames, simp]: "view (fst (request C g sid req now)) = view g"
  by (auto simp: request_def Let_def split: option.split)

lemma view_notices [frames, simp]: "view (notices C g now) = view g"
proof -
  have "view (foldl (\<lambda>g tok. send_working C g tok now) g0 toks) = view g0" for g0 toks
    by (induction toks arbitrary: g0) simp_all
  then show ?thesis by (simp add: notices_def Let_def)
qed

subsection \<open>Credit\<close>

definition credit_of :: "Gateway \<Rightarrow> u32 \<Rightarrow> nat" where
  "credit_of g sid = (case map_of (g_sessions g) sid of None \<Rightarrow> 0 | Some s \<Rightarrow> s_credit s)"

lemma credit_of_view: "credit_of g sid = (case view g sid of None \<Rightarrow> 0 | Some s \<Rightarrow> s_credit s)"
  by (simp add: credit_of_def view_def hide_def split: option.split)

lemma credit_of_cong: "view g' = view g \<Longrightarrow> credit_of g' = credit_of g"
  by (simp add: fun_eq_iff credit_of_view)

text \<open>The entries of the queue that \<^verbatim>\<open>poll\<close> sends, and those of a session without proof.\<close>

fun drain_sent :: "instant \<Rightarrow> (u32, Session) hmap \<Rightarrow> Out list \<Rightarrow> Out list" where
  "drain_sent now ss [] = []"
| "drain_sent now ss (q # qs) =
     (case map_of ss (q_sid q) of
        None \<Rightarrow> drain_sent now ss qs
      | Some s \<Rightarrow>
          if BREAKER < since now (s_heard s) \<or> now < q_due q \<or>
             \<not> s_validated s \<and> s_credit s < length (q_packet q) + IP_UDP
          then drain_sent now ss qs
          else q # drain_sent now (if s_validated s then ss
               else AList.update (q_sid q) (s\<lparr>s_credit := s_credit s - (length (q_packet q) + IP_UDP)\<rparr>) ss) qs)"

definition wire_to :: "u32 \<Rightarrow> Out list \<Rightarrow> nat" where
  "wire_to sid qs = sum_list (map (\<lambda>q. length (q_packet q) + IP_UDP) (filter (\<lambda>q. q_sid q = sid) qs))"

lemma wire_to_simps [simp]:
  "wire_to sid [] = 0"
  "wire_to sid (q # qs) = (if q_sid q = sid then length (q_packet q) + IP_UDP else 0) + wire_to sid qs"
  by (simp_all add: wire_to_def)

text \<open>Each entry sent goes to the address and socket its session was last heard from.\<close>

lemma drain_out:
  "snd (snd (drain now ss qs)) = map (\<lambda>q. case map_of ss (q_sid q) of
     Some s \<Rightarrow> \<lparr>out_socket = s_socket s, out_to = s_peer s, out_packet = q_packet q\<rparr>) (drain_sent now ss qs)"
proof (induction qs arbitrary: ss)
  case (Cons q qs)
  have upd: "(case map_of (AList.update i (s\<lparr>s_credit := c\<rparr>) ss) (q_sid x) of
     Some s \<Rightarrow> \<lparr>out_socket = s_socket s, out_to = s_peer s, out_packet = q_packet x\<rparr>) =
     (case map_of ss (q_sid x) of
     Some s \<Rightarrow> \<lparr>out_socket = s_socket s, out_to = s_peer s, out_packet = q_packet x\<rparr>)"
    if "map_of ss i = Some s" for i s c x
    using that by simp
  show ?case
    unfolding drain_Cons_cases drain_sent.simps
    by (auto simp: Cons.IH upd split: option.split simp del: map_of_update)
qed simp

lemma drain_sent_due: "q \<in> set (drain_sent now ss qs) \<Longrightarrow>
    q \<in> set qs \<and> q_due q \<le> now \<and> (\<exists>s. map_of ss (q_sid q) = Some s \<and> since now (s_heard s) \<le> BREAKER)"
proof (induction qs arbitrary: ss)
  case (Cons x qs)
  from Cons.prems show ?case
    by (auto split: option.splits if_splits dest!: Cons.IH)
qed simp

lemma drain_credit:
  assumes "map_of ss sid = Some s"
  obtains s' where "map_of (fst (drain now ss qs)) sid = Some s'" and "s'\<lparr>s_credit := s_credit s\<rparr> = s"
    and "s_credit s' + (if s_validated s then 0 else wire_to sid (drain_sent now ss qs)) = s_credit s"
proof -
  have "\<exists>s'. map_of (fst (drain now ss qs)) sid = Some s' \<and> s'\<lparr>s_credit := s_credit s\<rparr> = s \<and>
     s_credit s' + (if s_validated s then 0 else wire_to sid (drain_sent now ss qs)) = s_credit s"
    using assms
  proof (induction qs arbitrary: ss s)
    case (Cons q qs)
    show ?case
    proof (cases "map_of ss (q_sid q)")
      case None
      then show ?thesis using Cons.IH [OF Cons.prems] by (cases "s_validated s") auto
    next
      case (Some t)
      define w where "w = length (q_packet q) + IP_UDP"
      define ss1 where "ss1 = (if s_validated t then ss
        else AList.update (q_sid q) (t\<lparr>s_credit := s_credit t - w\<rparr>) ss)"
      define s1 where "s1 = (if q_sid q = sid \<and> \<not> s_validated s then s\<lparr>s_credit := s_credit s - w\<rparr> else s)"
      show ?thesis
      proof (cases "BREAKER < since now (s_heard t) \<or> now < q_due q \<or> \<not> s_validated t \<and> s_credit t < w")
        case True
        then have "drain_sent now ss (q # qs) = drain_sent now ss qs"
          and "fst (drain now ss (q # qs)) = fst (drain now ss qs)"
          unfolding drain_Cons_cases using Some by (auto simp: w_def)
        then show ?thesis using Cons.IH [OF Cons.prems] by metis
      next
        case False
        then have ds: "drain_sent now ss (q # qs) = q # drain_sent now ss1 qs"
          and d: "fst (drain now ss (q # qs)) = fst (drain now ss1 qs)"
          unfolding drain_Cons_cases using Some by (auto simp: w_def ss1_def)
        have "map_of ss1 sid = Some s1" using Some Cons.prems by (auto simp: ss1_def s1_def)
        from Cons.IH [OF this] obtain s' where s': "map_of (fst (drain now ss1 qs)) sid = Some s'"
          "s'\<lparr>s_credit := s_credit s1\<rparr> = s1"
          "s_credit s' + (if s_validated s1 then 0 else wire_to sid (drain_sent now ss1 qs)) = s_credit s1"
          by blast
        have "s'\<lparr>s_credit := s_credit s\<rparr> = (s'\<lparr>s_credit := s_credit s1\<rparr>)\<lparr>s_credit := s_credit s\<rparr>" by simp
        also have "\<dots> = s" unfolding s'(2) by (simp add: s1_def)
        finally have "s'\<lparr>s_credit := s_credit s\<rparr> = s" .
        moreover have "s_credit s' + (if s_validated s then 0 else wire_to sid (q # drain_sent now ss1 qs)) = s_credit s"
          using s'(3) False Some Cons.prems by (auto simp: s1_def w_def split: if_splits)
        ultimately show ?thesis unfolding ds d using s'(1) by blast
      qed
    qed
  qed simp
  with that show thesis by blast
qed

lemma drain_None:
  assumes "map_of ss sid = None" shows "map_of (fst (drain now ss qs)) sid = None"
proof -
  have "map_of (no_credit m) sid = map_option (\<lambda>s. s\<lparr>s_credit := 0\<rparr>) (map_of m sid)" for m
    by (simp add: no_credit_def map_of_map_snd)
  then show ?thesis using assms drain_no_credit [of now ss qs] by (metis None_eq_map_option_iff)
qed

subsection \<open>What can become of a packet\<close>

lemma send_direct_Nil: "send_direct [] g = g"
  by (simp add: send_direct_def)

text \<open>What can become of a framed packet, and of a handshake.\<close>

lemma framed_cases:
  obtains (dropped) "framed C g p socket from now = (g, None)"
  | (unknown) t sid ctr where "header p = Some (t, sid, ctr)" "map_of (g_sessions g) sid = None"
      "framed C g p socket from now =
        (send_direct (map (\<lambda>r. \<lparr>out_socket = socket, out_to = from, out_packet = r\<rparr>)
           (resets (c_aead C) sid (length p) (g_keys g))) g, None)"
  | (accepted) t sid ctr s opened w where "header p = Some (t, sid, ctr)"
      "map_of (g_sessions g) sid = Some s" "open_packet (c_aead C) (s_keys s) p = Some opened"
      "accept (s_window s) ctr = (True, w)"
      "framed C g p socket from now =
        (if o_ptype opened = T_DONE
         then (framed_done g sid (heard_from g s w p socket from now) (o_plain opened) now, None)
         else framed_req C g sid (heard_from g s w p socket from now) (o_plain opened) from now)"
proof (cases "header p")
  case None
  then show ?thesis using dropped by (simp add: framed_def)
next
  case (Some h)
  then obtain t sid ctr where h: "header p = Some (t, sid, ctr)" by (cases h) auto
  show ?thesis
  proof (cases "map_of (g_sessions g) sid")
    case None
    then show ?thesis using unknown h by (simp add: framed_def)
  next
    case s: (Some s)
    show ?thesis
    proof (cases "open_packet (c_aead C) (s_keys s) p")
      case None
      then show ?thesis using dropped h s by (simp add: framed_def)
    next
      case o': (Some opened)
      obtain ok w where a: "accept (s_window s) ctr = (ok, w)" by (cases "accept (s_window s) ctr")
      show ?thesis
        using dropped accepted [OF h s o'] h s o' a by (cases ok) (simp_all add: framed_def Let_def)
    qed
  qed
qed

lemma handshake_cases:
  assumes "handshake C g p socket from e = Return (g1, r)"
  obtains (direct) os where "g1 = send_direct os g" "r = None"
      "os = [] \<or> 33 \<le> length p \<and> map (length \<circ> out_packet) os = [5]"
  | (cached) os eph t0 sid hs2 where "get_prefix 32 (drop 1 p) = Some eph"
      "map_of (g_handshakes g) eph = Some (t0, sid, hs2)"
      "g1 = send_direct os (g\<lparr>g_sessions := hm_adjust sid
         (\<lambda>s. s\<lparr>s_credit := s_credit s + 3 * (length p + IP_UDP)\<rparr>) (g_sessions g)\<rparr>)" "r = None"
      "os = [] \<or> map out_packet os = [hs2]"
  | (opened) eph hs payload device key req where "get_prefix 32 (drop 1 p) = Some eph"
      "map_of (g_handshakes g) eph = None"
      "find_opened (c_noise C) (g_keys g) (drop 1 p) = Some (hs, payload, device, key)"
      "8 \<le> length payload" "req_decode (drop 8 payload) = Some req"
      "(g1, r) = handshake_opened C g p socket from e eph hs device key (from_be (take 8 payload)) req"
proof -
  show ?thesis
  proof (cases "get_prefix 32 (drop 1 p)")
    case None
    then have "g1 = g" "r = None" using assms by (simp_all add: handshake_def)
    then show ?thesis using direct [of "[]"] by (simp add: send_direct_Nil)
  next
    case eph: (Some eph)
    show ?thesis
    proof (cases "map_of (g_handshakes g) eph")
      case (Some c)
      then obtain t0 sid hs2 where "map_of (g_handshakes g) eph = Some (t0, sid, hs2)" by (cases c) auto
      with eph assms show ?thesis
        using cached [OF eph, of t0 sid hs2 "[]"] cached [OF eph, of t0 sid hs2 "[_]"]
        by (auto simp: handshake_def Let_def send_direct_Nil split: if_splits)
    next
      case None
      with eph assms show ?thesis
        using direct [of "[]"] direct [of "[_]"] opened [OF eph None]
        by (auto simp: handshake_def Let_def send_direct_Nil get_prefix_def split: option.splits if_splits)
    qed
  qed
qed

lemma opened_cases:
  obtains (nothing) x where "handshake_opened C g p socket from e eph hs device key ts req = (g\<lparr>g_seen_ts := x\<rparr>, None)"
  | (started) x msg2 k1 k2 hs2 g2 where
      "nz_write (c_noise C) hs (e_eph e) (be32 (e_sid e) @ reset_token (c_aead C) key (e_sid e)) = Some (msg2, k1, k2)"
      "hs2 = T_HS2 # take 4 eph @ msg2"
      "g2 = send_direct (replicate (hs2_copies req) \<lparr>out_socket = socket, out_to = from, out_packet = hs2\<rparr>)
         (g\<lparr>g_seen_ts := x\<rparr>)"
      "handshake_opened C g p socket from e eph hs device key ts req =
         request C (set_session (e_sid e) (new_session g2 p socket from (e_now e) k1 k2 device hs2 req)
           (g2\<lparr>g_sessions := make_room (g_sessions g),
              g_handshakes := AList.update eph (e_now e, e_sid e, hs2) (g_handshakes g)\<rparr>)) (e_sid e) req (e_now e)"
proof -
  define seen where "seen = (case map_of (g_seen_ts g) device of None \<Rightarrow> [] | Some l \<Rightarrow> l)"
  show thesis
  proof (cases "FRESH_MS * 1000 < abs_diff (e_now_us e) ts \<or> ts \<in> set seen")
    case True
    show thesis by (rule nothing) (use True in \<open>simp add: handshake_opened_def Let_def flip: seen_def\<close>)
  next
    case False
    show thesis
    proof (cases "nz_write (c_noise C) hs (e_eph e) (be32 (e_sid e) @ reset_token (c_aead C) key (e_sid e))")
      case None
      show thesis by (rule nothing) (use False None in \<open>simp add: handshake_opened_def Let_def flip: seen_def\<close>)
    next
      case (Some m)
      obtain msg2 k1 k2 where "m = (msg2, k1, k2)" by (cases m)
      note m = Some [unfolded this]
      show thesis
        by (rule started [OF m refl refl])
          (use False m in \<open>simp add: handshake_opened_def Let_def send_direct_def flip: seen_def\<close>)
    qed
  qed
qed

lemma credit_of_framed_req [simp]:
  "credit_of (fst (framed_req C g i s plain from now)) =
     (credit_of g)(i := s_credit s)"
proof (rule ext)
  fix sid
  show "credit_of (fst (framed_req C g i s plain from now)) sid = ((credit_of g)(i := s_credit s)) sid"
    by (auto simp: framed_req_def Let_def credit_of_view hide_def split: option.split prod.split)
qed

lemma credit_of_framed_done [simp]:
  "credit_of (framed_done g i s plain now) = (credit_of g)(i := s_credit s)"
  by (simp add: framed_done_def Let_def credit_of_def set_session_def fun_eq_iff split: option.split)

lemma credit_of_direct [simp]: "credit_of (send_direct os g) = credit_of g"
  by (simp add: credit_of_view fun_eq_iff)

lemma heard_from_credit [simp]:
  "s_credit (heard_from g s w p socket from now) = s_credit s + 3 * (length p + IP_UDP)"
  by (simp add: heard_from_def Let_def)

subsection \<open>Counters that were used\<close>

text \<open>The window of session \<open>sid\<close> has taken counter \<open>c\<close>.\<close>

definition used :: "Gateway \<Rightarrow> u32 \<Rightarrow> u32 \<Rightarrow> bool" where
  "used g sid c \<longleftrightarrow> (\<exists>s S. map_of (g_sessions g) sid = Some s \<and> window_holds (s_window s) S \<and> c \<in> S)"

lemma used_view: "used g sid c \<longleftrightarrow> (\<exists>s S. view g sid = Some s \<and> window_holds (s_window s) S \<and> c \<in> S)"
  by (auto simp: used_def view_def hide_def)

lemma used_cong: "view g' = view g \<Longrightarrow> used g' sid c = used g sid c"
  by (simp add: used_view)

lemma used_session:
  "used (set_session i s g) sid c =
     (if sid = i then \<exists>S. window_holds (s_window s) S \<and> c \<in> S else used g sid c)"
  by (auto simp: used_def set_session_def)

lemma used_framed_done:
  "used (framed_done g i s plain now) sid c =
     (if sid = i then \<exists>S. window_holds (s_window s) S \<and> c \<in> S else used g sid c)"
  by (auto simp: framed_done_def Let_def used_view hide_def split: option.split)

lemma used_framed_req:
  "used (fst (framed_req C g i s plain from now)) sid c =
     (if sid = i then \<exists>S. window_holds (s_window s) S \<and> c \<in> S else used g sid c)"
  by (auto simp: framed_req_def Let_def used_view hide_def split: option.split prod.split)

lemma used_framed:
  assumes "used g sid c"
  shows "used (fst (framed C g p socket from now)) sid c"
proof (cases rule: framed_cases [of C g p socket "from" now])
  case (accepted t i ctr s opened w)
  have "\<exists>S. window_holds w S \<and> c \<in> S" if "sid = i"
  proof -
    from assms that accepted obtain S where "window_holds (s_window s) S" "c \<in> S"
      by (auto simp: used_def)
    with window.acc_rel [of "s_window s" S ctr] accepted(4) show ?thesis by auto
  qed
  then show ?thesis using accepted assms by (auto simp: used_framed_done used_framed_req)
qed (use assms in \<open>simp_all add: used_view\<close>)

text \<open>
  What can take a window's counters away: a message 1 that starts a new session under the same
  id, which leaves its ephemeral key in the cache for that id, and the end of the session.
\<close>

definition starts :: "gw_event \<Rightarrow> Gateway \<Rightarrow> Gateway \<Rightarrow> u32 \<Rightarrow> bool" where
  "starts ev g g' sid =
     (case ev of
        Receive p socket from e \<Rightarrow>
          (case get_prefix 32 (drop 1 p) of None \<Rightarrow> False
           | Some eph \<Rightarrow> map_of (g_handshakes g) eph = None \<and>
               (case map_of (g_handshakes g') eph of None \<Rightarrow> False | Some (_, sid', _) \<Rightarrow> sid' = sid))
      | _ \<Rightarrow> False)"

text \<open>Along the run the session is there, and no other is started under its id.\<close>

fun lives :: "crates \<Rightarrow> u32 \<Rightarrow> Gateway \<Rightarrow> gw_event list \<Rightarrow> bool" where
  "lives C sid g [] = True"
| "lives C sid g (ev # evs) =
     (case gw_step C g ev of Panic \<Rightarrow> False
      | Return g' \<Rightarrow> map_of (g_sessions g') sid \<noteq> None \<and> \<not> starts ev g g' sid \<and> lives C sid g' evs)"

lemma request_handshakes [frames]: "g_handshakes (fst (request C g sid req now)) = g_handshakes g"
  by (auto simp: request_def Let_def set_session_def send_working_def burst_def
      split: option.split Resp.split prod.split)

lemma map_of_view: "(map_of (g_sessions g) sid = None) = (view g sid = None)"
  by (simp add: view_def)

lemma used_opened:
  assumes "used g sid c" and "map_of (g_handshakes g) eph = None"
    and r: "r = fst (handshake_opened C g p socket from e eph hs device key ts req)"
    and "map_of (g_sessions r) sid \<noteq> None"
    and "\<And>t hs2. map_of (g_handshakes r) eph \<noteq> Some (t, sid, hs2)"
  shows "used r sid c"
proof (cases rule: opened_cases [of C g p socket "from" e eph hs device key ts req])
  case (nothing x)
  then show ?thesis using assms(1) by (simp add: r used_view)
next
  case (started x msg2 k1 k2 hs2 g2)
  define g3 where "g3 = g2\<lparr>g_sessions := make_room (g_sessions g),
    g_handshakes := AList.update eph (e_now e, e_sid e, hs2) (g_handshakes g)\<rparr>"
  define g4 where "g4 = set_session (e_sid e) (new_session g2 p socket from (e_now e) k1 k2 device hs2 req) g3"
  have r: "r = fst (request C g4 (e_sid e) req (e_now e))" by (simp add: r started(4) g4_def g3_def)
  then have "map_of (g_handshakes r) eph = Some (e_now e, e_sid e, hs2)"
    by (simp add: request_handshakes g4_def g3_def set_session_def)
  then have ne: "sid \<noteq> e_sid e" using assms(5) by blast
  have "map_of (g_sessions g4) sid \<noteq> None" using assms(4) by (simp add: r map_of_view)
  then have "map_of (make_room (g_sessions g)) sid \<noteq> None" using ne by (simp add: g4_def g3_def set_session_def)
  moreover have "g_sessions g2 = g_sessions g" by (simp add: started(3) send_direct_def)
  ultimately have "used g3 sid c"
    using assms(1) by (auto simp: used_def g3_def make_room_def split: option.splits if_splits)
  then have "used g4 sid c" using ne by (simp add: g4_def used_session)
  then show ?thesis using used_cong [of r g4] by (simp add: r)
qed

lemma used_sweep: "used g sid c \<Longrightarrow> hm_ok (g_sessions g) \<Longrightarrow> map_of (g_sessions (sweep g e)) sid \<noteq> None \<Longrightarrow>
    used (sweep g e) sid c"
  by (auto simp: used_def sweep_def Let_def map_of_map_snd map_of_filter_hm split: option.splits if_splits)

lemma used_poll:
  assumes "used g sid c" shows "used (fst (poll C g now)) sid c"
proof -
  define g2 where "g2 = notices C g now"
  have "used g2 sid c" using assms used_cong [of g2 g] by (simp add: g2_def)
  then obtain s S where s: "map_of (g_sessions g2) sid = Some s" "window_holds (s_window s) S" "c \<in> S"
    by (auto simp: used_def)
  obtain s' where s': "map_of (fst (drain now (g_sessions g2) (g_queue g2))) sid = Some s'"
    "s'\<lparr>s_credit := s_credit s\<rparr> = s"
    by (rule drain_credit [OF s(1), of now "g_queue g2"]) blast
  then have "s_window s' = s_window s"
    by (metis Session.select_convs(2) Session.surjective Session.update_convs(8))
  moreover have "g_sessions (fst (poll C g now)) = fst (drain now (g_sessions g2) (g_queue g2))"
    by (simp add: poll_def g2_def Let_def split_def)
  ultimately show ?thesis using s s'(1) by (auto simp: used_def)
qed

lemma used_handshake:
  assumes "used g sid c" and h: "handshake C g p socket src e = Return (g', r)"
    and "map_of (g_sessions g') sid \<noteq> None" and "\<not> starts (Receive p socket src e) g g' sid"
  shows "used g' sid c"
proof (cases rule: handshake_cases [OF h])
  case (1 os)
  then show ?thesis using assms(1) by (simp add: used_view)
next
  case (2 os eph t0 sid' hs2)
  from assms(1) obtain s S where s: "map_of (g_sessions g) sid = Some s" "window_holds (s_window s) S" "c \<in> S"
    by (auto simp: used_def)
  define s' where "s' = (if sid = sid' then s\<lparr>s_credit := s_credit s + 3 * (length p + IP_UDP)\<rparr> else s)"
  have "map_of (g_sessions g') sid = Some s'" "s_window s' = s_window s"
    using 2(3) s(1) by (cases "sid = sid'"; simp add: send_direct_def s'_def map_option_case)+
  then show ?thesis unfolding used_def using s(2,3) by metis
next
  case (3 eph hs payload device key req)
  have "\<And>t hs2. map_of (g_handshakes g') eph \<noteq> Some (t, sid, hs2)"
    using assms(4) 3 by (auto simp: starts_def)
  moreover have "g' = fst (handshake_opened C g p socket src e eph hs device key (from_be (take 8 payload)) req)"
    using 3 by (metis fst_conv)
  ultimately show ?thesis using used_opened [OF assms(1) 3(2) _ assms(3)] by blast
qed

lemma used_step:
  assumes "gw_inv C g" and "used g sid c" and "gw_step C g ev = Return g'"
    and "map_of (g_sessions g') sid \<noteq> None" and "\<not> starts ev g g' sid"
  shows "used g' sid c"
proof (cases ev)
  case (Receive p socket src e)
  then obtain r where r: "receive C g p socket src e = Return (g', r)"
    using assms(3) by (auto split: outcome.splits)
  show ?thesis
  proof (cases "p \<noteq> [] \<and> hd p = T_HS1")
    case True
    then have "handshake C g p socket src e = Return (g', r)" using r by (cases p) (simp_all add: receive_def)
    from used_handshake [OF assms(2) this assms(4) assms(5) [unfolded Receive]] show ?thesis .
  next
    case False
    then show ?thesis
      using r assms(2) used_framed [OF assms(2), of C p socket src "e_now e"]
      by (cases p) (auto simp: receive_def split: if_splits)
  qed
next
  case (Respond t body now)
  then show ?thesis using assms used_cong [OF view_respond] by simp
next
  case (Poll now)
  then show ?thesis using assms(3) used_poll [OF assms(2)] by auto
next
  case (Sweep e)
  then show ?thesis using assms used_sweep [OF assms(2)] by (auto simp: gw_inv_def)
qed (use assms in \<open>auto simp: used_view\<close>)

lemma used_run:
  assumes "gw_inv C g" and "used g sid c" and "gw_run C g evs = Return g'" and "lives C sid g evs"
  shows "used g' sid c"
  using assms
proof (induction evs arbitrary: g)
  case (Cons ev evs)
  then obtain g1 where g1: "gw_step C g ev = Return g1" by (auto split: outcome.splits)
  with Cons.prems have "used g1 sid c" by (intro used_step [OF Cons.prems(1,2) g1]) auto
  then show ?case using Cons.IH [OF gw.step_good [OF Cons.prems(1) g1]] Cons.prems(3,4) g1 by simp
qed simp

lemma used_rejects:
  assumes "used g sid c" and "header p = Some (t, sid, c)"
  shows "framed C g p socket from now = (g, None)"
proof -
  from assms(1) obtain s S where s: "map_of (g_sessions g) sid = Some s" "window_holds (s_window s) S" "c \<in> S"
    by (auto simp: used_def)
  then have "\<not> fst (accept (s_window s) c)" using window.acc_fresh by blast
  then show ?thesis
    using assms(2) s by (auto simp: framed_def split: option.split prod.split)
qed

subsection \<open>Cached handshakes\<close>

text \<open>A message 1 that starts a request is in the cache.\<close>

lemma handshake_caches:
  assumes "handshake C g p socket from e = Return (g1, Some nr)"
  obtains eph t0 sid hs2 where "get_prefix 32 (drop 1 p) = Some eph"
    and "map_of (g_handshakes g1) eph = Some (t0, sid, hs2)"
  using assms
proof (cases rule: handshake_cases)
  case (opened eph hs payload device key req)
  then have "g1 = fst (handshake_opened C g p socket from e eph hs device key (from_be (take 8 payload)) req)"
    "snd (handshake_opened C g p socket from e eph hs device key (from_be (take 8 payload)) req) = Some nr"
    by (metis fst_conv, metis snd_conv)
  then have "map_of (g_handshakes g1) eph \<noteq> None"
    by (auto simp: handshake_opened_def Let_def request_handshakes set_session_def send_direct_def
        split: if_splits option.splits)
  with opened(1) that show ?thesis by auto
qed simp_all

lemma handshake_cached:
  assumes "get_prefix 32 (drop 1 p) = Some eph" and "map_of (g_handshakes g) eph = Some (t0, sid, hs2)"
  obtains g' where "handshake C g p socket from e = Return (g', None)"
    and "g_queue g' = g_queue g" and "g_seen_ts g' = g_seen_ts g"
  using assms that by (simp add: handshake_def Let_def send_direct_def)

end
