(* ===== verification/GatewayLedger.thy ===== *)
theory GatewayLedger
  imports GatewayRun
begin

section \<open>The gateway: the ledger of a run\<close>

text \<open>
  What a session's address was sent against what was received for it.  Three columns per
  session id: the bytes received; the bytes sent while the address is unproven, which are those
  the queue let go and those of the packets that are answered at once (message 2, resets, the
  notice of a wrong key); and, apart, the repeats of a cached message 2, which the gateway sends
  without charging them.  Every packet counts with its IP and UDP headers.
\<close>

subsection \<open>Columns\<close>

text \<open>
  A packet counts for the session it is framed for, for the session of the cached handshake it
  repeats, or for the session it starts.
\<close>

definition hears :: "Gateway \<Rightarrow> bytes \<Rightarrow> env \<Rightarrow> u32 \<Rightarrow> bool" where
  "hears g packet e sid =
     (case packet of [] \<Rightarrow> False
      | t # _ \<Rightarrow>
          if t = T_HS1 then
            (case get_prefix 32 (drop 1 packet) of None \<Rightarrow> False
             | Some eph \<Rightarrow>
                 (case map_of (g_handshakes g) eph of
                    Some (_, sid', _) \<Rightarrow> sid' = sid
                  | None \<Rightarrow> e_sid e = sid))
          else (case header packet of None \<Rightarrow> False | Some (_, sid', _) \<Rightarrow> sid' = sid))"

fun earned :: "Gateway \<Rightarrow> gw_event \<Rightarrow> u32 \<Rightarrow> nat" where
  "earned g (Receive p socket from e) sid = (if hears g p e sid then length p + IP_UDP else 0)"
| "earned g _ sid = 0"

fun spent :: "crates \<Rightarrow> Gateway \<Rightarrow> gw_event \<Rightarrow> u32 \<Rightarrow> nat" where
  "spent C g (Poll now) sid =
     (case map_of (g_sessions g) sid of
        Some s \<Rightarrow> if s_validated s then 0
          else wire_to sid (drain_sent now (g_sessions (notices C g now)) (g_queue (notices C g now)))
      | None \<Rightarrow> 0)"
| "spent C g _ sid = 0"

text \<open>The packets an event put out at once, for the next poll to hand over.\<close>

definition out_wire :: "Outgoing list \<Rightarrow> nat" where
  "out_wire os = sum_list (map (\<lambda>o'. length (out_packet o') + IP_UDP) os)"

definition direct_wire :: "Gateway \<Rightarrow> Gateway \<Rightarrow> nat" where
  "direct_wire g g' = out_wire (drop (length (g_direct g)) (g_direct g'))"

definition is_repeat :: "Gateway \<Rightarrow> bytes \<Rightarrow> bool" where
  "is_repeat g p =
     (p \<noteq> [] \<and> hd p = T_HS1 \<and>
      (case get_prefix 32 (drop 1 p) of None \<Rightarrow> False | Some eph \<Rightarrow> map_of (g_handshakes g) eph \<noteq> None))"

fun put_out :: "Gateway \<Rightarrow> gw_event \<Rightarrow> Gateway \<Rightarrow> u32 \<Rightarrow> nat" where
  "put_out g (Receive p socket from e) g' sid =
     (if hears g p e sid \<and> \<not> is_repeat g p then direct_wire g g' else 0)"
| "put_out g _ g' sid = 0"

fun repeated :: "Gateway \<Rightarrow> gw_event \<Rightarrow> Gateway \<Rightarrow> u32 \<Rightarrow> nat" where
  "repeated g (Receive p socket from e) g' sid =
     (if hears g p e sid \<and> is_repeat g p then direct_wire g g' else 0)"
| "repeated g _ g' sid = 0"

record Ledger =
  lg_received :: "u32 \<Rightarrow> nat"
  lg_sent :: "u32 \<Rightarrow> nat"
  lg_repeated :: "u32 \<Rightarrow> nat"

definition no_entries :: Ledger where
  "no_entries = \<lparr>lg_received = (\<lambda>_. 0), lg_sent = (\<lambda>_. 0), lg_repeated = (\<lambda>_. 0)\<rparr>"

text \<open>A run with its ledger.\<close>

fun ledger_step :: "crates \<Rightarrow> Gateway \<times> Ledger \<Rightarrow> gw_event \<Rightarrow> (Gateway \<times> Ledger) outcome" where
  "ledger_step C (g, L) ev =
     (case gw_step C g ev of Panic \<Rightarrow> Panic
      | Return g' \<Rightarrow> Return (g', \<lparr>lg_received = (\<lambda>i. lg_received L i + earned g ev i),
          lg_sent = (\<lambda>i. lg_sent L i + spent C g ev i + put_out g ev g' i),
          lg_repeated = (\<lambda>i. lg_repeated L i + repeated g ev g' i)\<rparr>))"

subsection \<open>The sizes of a handshake\<close>

text \<open>
  The messages of \<^verbatim>\<open>Noise_IK_25519_ChaChaPoly_BLAKE2s\<close>: message 1 is an ephemeral key, a
  sealed static key and the sealed payload, message 2 an ephemeral key and the sealed payload.
\<close>

definition noise_sizes :: "noise \<Rightarrow> bool" where
  "noise_sizes n \<longleftrightarrow>
     (\<forall>key msg1 hs payload device. nz_read n key msg1 = Some (hs, payload, device) \<longrightarrow>
        length msg1 = 96 + length payload) \<and>
     (\<forall>hs eph payload msg2 k1 k2. nz_write n hs eph payload = Some (msg2, k1, k2) \<longrightarrow>
        length msg2 = 48 + length payload)"

definition caches_ok :: "Gateway \<Rightarrow> bool" where
  "caches_ok g \<longleftrightarrow> (\<forall>(eph, t, sid, hs2) \<in> set (g_handshakes g). length hs2 = 73)"

lemma noise_sizesD:
  assumes "noise_sizes n"
  shows "nz_read n key msg1 = Some (hs, payload, device) \<Longrightarrow> length msg1 = 96 + length payload"
    and "nz_write n hs eph payload = Some (msg2, k1, k2) \<Longrightarrow> length msg2 = 48 + length payload"
  using assms unfolding noise_sizes_def by blast+

lemma find_opened_size:
  "noise_sizes n \<Longrightarrow> find_opened n keys msg1 = Some (hs, payload, device, key) \<Longrightarrow>
     length msg1 = 96 + length payload"
  by (induction keys) (auto split: option.splits dest: noise_sizesD(1))

lemma hs2_size:
  "noise_sizes n \<Longrightarrow> aead_ok A \<Longrightarrow> nz_write n hs eph (be32 sid @ reset_token A key sid) = Some (msg2, k1, k2) \<Longrightarrow>
     length msg2 = 68"
  by (drule (1) noise_sizesD(2)) (simp add: RESET_TOKEN_def)

lemma caches_frames [simp]:
  "caches_ok (g\<lparr>g_direct := d\<rparr>) = caches_ok g" "caches_ok (g\<lparr>g_sessions := ss\<rparr>) = caches_ok g"
  "caches_ok (g\<lparr>g_seen_ts := x\<rparr>) = caches_ok g" "caches_ok (set_session i s g) = caches_ok g"
  "caches_ok (send_direct os g) = caches_ok g" "caches_ok (set_keys g ks) = caches_ok g"
  by (simp_all add: caches_ok_def set_session_def send_direct_def set_keys_def)

lemma caches_cong: "g_handshakes g' = g_handshakes g \<Longrightarrow> caches_ok g' = caches_ok g"
  by (simp add: caches_ok_def)

subsection \<open>What is put out at once\<close>

lemma direct_send_working [simp]: "g_direct (send_working C g tok now) = g_direct g"
  "g_handshakes (send_working C g tok now) = g_handshakes g"
  by (simp_all add: send_working_def Let_def set_session_def split: option.split Resp.split)

lemma direct_burst [simp]: "g_direct (burst C g sid req first now) = g_direct g"
  "g_handshakes (burst C g sid req first now) = g_handshakes g"
  by (simp_all add: burst_def Let_def set_session_def split: option.split Resp.split prod.split)

lemma direct_request [simp]: "g_direct (fst (request C g sid req now)) = g_direct g"
  by (simp add: request_def Let_def set_session_def split: option.split)

lemma direct_set_session [simp]: "g_direct (set_session i s g) = g_direct g"
  "g_handshakes (set_session i s g) = g_handshakes g"
  by (simp_all add: set_session_def)

lemma direct_framed_done [simp]: "g_direct (framed_done g i s plain now) = g_direct g"
  "g_handshakes (framed_done g i s plain now) = g_handshakes g"
  by (simp_all add: framed_done_def Let_def split: option.split)

lemma direct_framed_req [simp]: "g_direct (fst (framed_req C g i s plain from now)) = g_direct g"
  "g_handshakes (fst (framed_req C g i s plain from now)) = g_handshakes g"
  by (simp_all add: framed_req_def Let_def request_handshakes split: option.split prod.split)

lemma direct_wire_simps [simp]:
  "g_direct g' = g_direct g \<Longrightarrow> direct_wire g g' = 0"
  "g_direct g' = g_direct g @ os \<Longrightarrow> direct_wire g g' = out_wire os"
  by (simp_all add: direct_wire_def out_wire_def)

lemma direct_wire_send [simp]: "direct_wire g (send_direct os g) = out_wire os"
  by (simp add: send_direct_def)

lemma out_wire_simps [simp]:
  "out_wire [] = 0" "out_wire (o' # os) = length (out_packet o') + IP_UDP + out_wire os"
  "out_wire (replicate n o') = n * (length (out_packet o') + IP_UDP)"
  by (simp_all add: out_wire_def sum_list_replicate)

text \<open>All the resets together take less than the packet that asked, and less than three times it
  with their headers.\<close>

lemma resets_wire:
  assumes "aead_ok A"
  shows "7 * out_wire (map (\<lambda>r. \<lparr>out_socket = k, out_to = a, out_packet = r\<rparr>) (resets A sid budget keys))
    \<le> 17 * budget"
  using assms
  by (induction A sid budget keys rule: resets.induct) (auto simp: Let_def RESET_TOKEN_def IP_UDP_def)

lemma credit_of_poll:
  "credit_of (fst (poll C g now)) sid + spent C g (Poll now) sid = credit_of g sid"
proof -
  define g2 where "g2 = notices C g now"
  have v: "view g2 = view g" by (simp add: g2_def)
  have p: "g_sessions (fst (poll C g now)) = fst (drain now (g_sessions g2) (g_queue g2))"
    by (simp add: poll_def g2_def Let_def split_def)
  show ?thesis
  proof (cases "map_of (g_sessions g) sid")
    case None
    then have "map_of (g_sessions g2) sid = None"
      using v by (metis None_eq_map_option_iff view_def)
    then show ?thesis using None p by (simp add: credit_of_def drain_None)
  next
    case (Some s)
    then obtain s2 where s2: "map_of (g_sessions g2) sid = Some s2" "hide s2 = hide s"
      using v by (metis (no_types, lifting) map_option_eq_Some option.simps(9) view_def)
    note e = hide_eq [OF s2(2)]
    obtain s' where "map_of (fst (drain now (g_sessions g2) (g_queue g2))) sid = Some s'"
      "s_credit s' + (if s_validated s2 then 0
         else wire_to sid (drain_sent now (g_sessions g2) (g_queue g2))) = s_credit s2"
      by (rule drain_credit [OF s2(1), of now "g_queue g2"]) auto
    then show ?thesis
      using Some p e by (auto simp: credit_of_def g2_def)
  qed
qed

subsection \<open>Each event's entries\<close>

text \<open>What one event may do to the ledger of session \<open>sid\<close>.\<close>

definition pays :: "crates \<Rightarrow> Gateway \<Rightarrow> gw_event \<Rightarrow> Gateway \<Rightarrow> u32 \<Rightarrow> bool" where
  "pays C g ev g' sid \<longleftrightarrow>
     credit_of g' sid + spent C g ev sid + put_out g ev g' sid \<le> credit_of g sid + 3 * earned g ev sid \<and>
     repeated g ev g' sid \<le> 2 * earned g ev sid"

lemma hears_framed: "hd p \<noteq> T_HS1 \<Longrightarrow> header p = Some (t, sid', ctr) \<Longrightarrow> hears g p e sid \<longleftrightarrow> sid' = sid"
  using header_Some_length [of p] by (cases p) (auto simp: hears_def)

lemma pays_framed:
  assumes "aead_ok (c_aead C)" and "hd p \<noteq> T_HS1"
  shows "pays C g (Receive p socket from e) (fst (framed C g p socket from (e_now e))) sid"
proof -
  have nr: "\<not> is_repeat g p" using assms(2) by (simp add: is_repeat_def)
  show ?thesis
  proof (cases rule: framed_cases [of C g p socket "from" "e_now e"])
    case dropped
    then show ?thesis by (simp add: pays_def)
  next
    case (unknown t i ctr)
    then show ?thesis
      using resets_wire [OF assms(1), of socket "from" i "length p" "g_keys g"] nr hears_framed [OF assms(2) unknown(1)]
      by (auto simp: pays_def)
  next
    case (accepted t i ctr s opened w)
    then have "credit_of g i = s_credit s" by (simp add: credit_of_def)
    then show ?thesis
      using accepted nr hears_framed [OF assms(2) accepted(1)] by (auto simp: pays_def)
  qed
qed

lemma credit_of_make_room:
  "g_sessions g' = make_room (g_sessions g) \<Longrightarrow> credit_of g' sid \<le> credit_of g sid"
  by (auto simp: credit_of_def make_room_def split: option.split)

lemma credit_of_opened:
  assumes "aead_ok (c_aead C)" and "noise_sizes (c_noise C)" and "97 \<le> length p" and "length eph = 32"
    and g': "g' = fst (handshake_opened C g p socket from e eph hs device key ts req)"
  shows "credit_of g' sid + (if e_sid e = sid then direct_wire g g' else 0) \<le>
     credit_of g sid + 3 * (if e_sid e = sid then length p + IP_UDP else 0)"
proof (cases rule: opened_cases [of C g p socket "from" e eph hs device key ts req])
  case (nothing x)
  then show ?thesis by (simp add: g' credit_of_view)
next
  case (started x msg2 k1 k2 hs2 g2)
  define g3 where "g3 = g2\<lparr>g_sessions := make_room (g_sessions g),
    g_handshakes := AList.update eph (e_now e, e_sid e, hs2) (g_handshakes g)\<rparr>"
  define s where "s = new_session g2 p socket from (e_now e) k1 k2 device hs2 req"
  have g4: "g' = fst (request C (set_session (e_sid e) s g3) (e_sid e) req (e_now e))"
    by (simp add: g' started(4) g3_def s_def)
  have "length hs2 = 73"
    using hs2_size [OF assms(2,1) started(1)] assms(4) started(2) by simp
  then have d: "direct_wire g g' \<le> hs2_copies req * 101"
    using started(3) by (simp add: g4 g3_def send_direct_def IP_UDP_def)
  have "s_credit s = 3 * (length p + IP_UDP) - hs2_copies req * 101"
    using \<open>length hs2 = 73\<close> by (simp add: s_def new_session_def Let_def IP_UDP_def)
  then have "s_credit s + direct_wire g g' \<le> 3 * (length p + IP_UDP)"
    using d assms(3) by (simp add: hs2_copies_def IP_UDP_def split: if_splits)
  moreover have "credit_of g' sid = credit_of (set_session (e_sid e) s g3) sid"
    unfolding g4 by (rule fun_cong [OF credit_of_cong]) simp
  then have "credit_of g' sid = (if sid = e_sid e then s_credit s else credit_of g3 sid)"
    by (simp add: credit_of_def set_session_def)
  moreover have "credit_of g3 sid \<le> credit_of g sid"
    by (rule credit_of_make_room) (simp add: g3_def)
  ultimately show ?thesis by auto
qed

lemma pays_handshake:
  assumes "aead_ok (c_aead C)" and "noise_sizes (c_noise C)" and "caches_ok g"
    and h: "handshake C g p socket from e = Return (g', r)" and "p \<noteq> []" and "hd p = T_HS1"
  shows "pays C g (Receive p socket from e) g' sid"
proof -
  obtain rest where p: "p = T_HS1 # rest" using assms(5,6) by (cases p) auto
  show ?thesis
  proof (cases rule: handshake_cases [OF h])
    case (1 os)
    have "out_wire os = 0 \<or> 33 \<le> length p \<and> out_wire os = 33"
      using 1(3) by (auto simp: IP_UDP_def)
    then show ?thesis using 1 by (auto simp: pays_def)
  next
    case (2 os eph t0 i hs2)
    have "length hs2 = 73" using assms(3) map_of_SomeD [OF 2(2)] by (auto simp: caches_ok_def)
    then have "out_wire os \<le> 101" using 2(5) by (auto simp: IP_UDP_def)
    moreover have "is_repeat g p" "hears g p e sid \<longleftrightarrow> i = sid" using 2(1,2) p by (simp_all add: is_repeat_def hears_def)
    moreover have "33 \<le> length p" using 2(1) p by (auto simp: get_prefix_def split: if_splits)
    moreover have "credit_of g' sid \<le> credit_of g sid + (if i = sid then 3 * (length p + IP_UDP) else 0)"
      using 2(3) by (auto simp: credit_of_def send_direct_def split: option.split)
    moreover have "direct_wire g g' = out_wire os" using 2(3) by (simp add: send_direct_def)
    ultimately show ?thesis by (auto simp: pays_def IP_UDP_def)
  next
    case (3 eph hs payload device key req)
    have "97 \<le> length p" using find_opened_size [OF assms(2) 3(3)] p by simp
    moreover have "length eph = 32" using 3(1) by (auto simp: get_prefix_def split: if_splits)
    moreover have "g' = fst (handshake_opened C g p socket from e eph hs device key (from_be (take 8 payload)) req)"
      using 3(6) by (metis fst_conv)
    ultimately have "credit_of g' sid + (if e_sid e = sid then direct_wire g g' else 0) \<le>
        credit_of g sid + 3 * (if e_sid e = sid then length p + IP_UDP else 0)"
      by (rule credit_of_opened [OF assms(1,2)])
    moreover have "\<not> is_repeat g p" "hears g p e sid \<longleftrightarrow> e_sid e = sid"
      using 3(1,2) p by (simp_all add: is_repeat_def hears_def)
    ultimately show ?thesis by (auto simp: pays_def)
  qed
qed

text \<open>Every cached message 2 is as long as the protocol makes it.\<close>

lemma notices_handshakes [simp]: "g_handshakes (notices C g now) = g_handshakes g"
proof -
  have "g_handshakes (foldl (\<lambda>g tok. send_working C g tok now) g0 toks) = g_handshakes g0" for g0 toks
    by (induction toks arbitrary: g0) simp_all
  then show ?thesis by (simp add: notices_def Let_def)
qed

lemma framed_handshakes [simp]: "g_handshakes (fst (framed C g p socket from now)) = g_handshakes g"
  by (cases rule: framed_cases [of C g p socket "from" now]) (simp_all add: send_direct_def)

lemma caches_opened:
  assumes "aead_ok (c_aead C)" and "noise_sizes (c_noise C)" and "caches_ok g" and "length eph = 32"
  shows "caches_ok (fst (handshake_opened C g p socket from e eph hs device key ts req))"
proof (cases rule: opened_cases [of C g p socket "from" e eph hs device key ts req])
  case (started x msg2 k1 k2 hs2 g2)
  have "length hs2 = 73"
    using hs2_size [OF assms(2,1) started(1)] assms(4) started(2) by simp
  then show ?thesis
    using assms(3) started(4) by (auto simp: caches_ok_def request_handshakes dest!: set_update_hm)
qed (use assms(3) in simp)

lemma caches_handshake:
  assumes "aead_ok (c_aead C)" and "noise_sizes (c_noise C)" and "caches_ok g"
    and h: "handshake C g p socket from e = Return (g', r)"
  shows "caches_ok g'"
proof (cases rule: handshake_cases [OF h])
  case (3 eph hs payload device key req)
  have "length eph = 32" using 3(1) by (auto simp: get_prefix_def split: if_splits)
  moreover have "g' = fst (handshake_opened C g p socket from e eph hs device key (from_be (take 8 payload)) req)"
    using 3(6) by (metis fst_conv)
  ultimately show ?thesis using caches_opened [OF assms(1-3)] by simp
qed (use assms(3) in simp_all)

lemma caches_step:
  assumes "aead_ok (c_aead C)" and "noise_sizes (c_noise C)" and "caches_ok g" and "gw_step C g ev = Return g'"
  shows "caches_ok g'"
proof (cases ev)
  case (Receive p socket src e)
  then show ?thesis
    using assms(3,4) caches_handshake [OF assms(1-3), of p socket src e]
      caches_cong [OF framed_handshakes, of C g p socket src "e_now e"]
    by (auto simp: receive_def split: outcome.splits list.splits if_splits)
next
  case (Respond t body now)
  then have "g_handshakes g' = g_handshakes g"
    using assms(4) by (auto simp: respond_def Let_def split: if_splits option.splits Resp.splits)
  then show ?thesis using assms(3) caches_cong by blast
next
  case (Poll now)
  then have "g_handshakes g' = g_handshakes g"
    using assms(4) by (auto simp: poll_def Let_def split_def)
  then show ?thesis using assms(3) caches_cong by blast
next
  case (Sweep e)
  then show ?thesis using assms(3,4) by (auto simp: caches_ok_def sweep_def Let_def)
qed (use assms in auto)

lemma credit_of_sweep: "hm_ok (g_sessions g) \<Longrightarrow> credit_of (sweep g e) sid \<le> credit_of g sid"
  by (auto simp: credit_of_def sweep_def Let_def map_of_map_snd map_of_filter_hm split: option.split)

lemma gw_step_pays:
  assumes "aead_ok (c_aead C)" and "noise_sizes (c_noise C)" and "gw_inv C g" and "caches_ok g"
    and "gw_step C g ev = Return g'"
  shows "pays C g ev g' sid"
proof (cases ev)
  case (Receive p socket src e)
  then obtain r where r: "receive C g p socket src e = Return (g', r)"
    using assms(5) by (auto split: outcome.splits)
  show ?thesis
  proof (cases "p \<noteq> [] \<and> hd p = T_HS1")
    case True
    then have "handshake C g p socket src e = Return (g', r)" using r by (cases p) (simp_all add: receive_def)
    from pays_handshake [OF assms(1,2,4) this] True Receive show ?thesis by simp
  next
    case False
    then have "g' = fst (framed C g p socket src (e_now e)) \<and> hd p \<noteq> T_HS1 \<or> g' = g"
      using r by (cases p) (auto simp: receive_def split: if_splits)
    then show ?thesis
    proof
      assume "g' = fst (framed C g p socket src (e_now e)) \<and> hd p \<noteq> T_HS1"
      then show ?thesis using pays_framed [OF assms(1)] Receive by blast
    qed (simp add: pays_def Receive)
  qed
next
  case (Respond t body now)
  then show ?thesis using assms(5) credit_of_cong [OF view_respond] by (simp add: pays_def)
next
  case (Poll now)
  then show ?thesis using assms(5) credit_of_poll [of C g now sid] by (auto simp: pays_def simp del: spent.simps(1))
next
  case (Sweep e)
  then show ?thesis using assms(3,5) credit_of_sweep [of g e sid] by (auto simp: pays_def gw_inv_def)
next
  case (SetKeys ks)
  then show ?thesis using assms(5) by (auto simp: pays_def credit_of_def set_keys_def)
qed

definition ledger_ok :: "crates \<Rightarrow> Gateway \<times> Ledger \<Rightarrow> bool" where
  "ledger_ok C = (\<lambda>(g, L). aead_ok (c_aead C) \<and> noise_sizes (c_noise C) \<longrightarrow>
     gw_inv C g \<and> caches_ok g \<and>
     (\<forall>i. credit_of g i + lg_sent L i \<le> 3 * lg_received L i \<and> lg_repeated L i \<le> 2 * lg_received L i))"

lemma ledger_keeps:
  assumes ok: "aead_ok (c_aead C)" "noise_sizes (c_noise C)"
    and inv: "ledger_ok C (g, L)" and st: "gw_step C g ev = Return g'"
    and L': "ledger_step C (g, L) ev = Return (g', L')"
  shows "ledger_ok C (g', L')"
proof -
  have g: "gw_inv C g" "caches_ok g" and bound: "\<And>i. credit_of g i + lg_sent L i \<le> 3 * lg_received L i"
    "\<And>i. lg_repeated L i \<le> 2 * lg_received L i" using inv ok by (auto simp: ledger_ok_def)
  have "credit_of g' i + lg_sent L' i \<le> 3 * lg_received L' i \<and> lg_repeated L' i \<le> 2 * lg_received L' i" for i
    using gw_step_pays [OF ok g st, of i] bound [of i] L' st by (auto simp: pays_def)
  then show ?thesis
    using gw.step_good [OF g(1) st] caches_step [OF ok g(2) st] by (simp add: ledger_ok_def)
qed

interpretation ledger: machine "ledger_step C" "ledger_ok C" for C
proof
  fix x e x'
  assume inv: "ledger_ok C x" and st: "ledger_step C x e = Return x'"
  obtain g L g' L' where x: "x = (g, L)" "x' = (g', L')" by (cases x, cases x') blast
  have "gw_step C g e = Return g'" using st unfolding x by (simp split: outcome.splits)
  with inv st show "ledger_ok C x'"
    unfolding x using ledger_keeps [of C g L e g' L'] unfolding ledger_ok_def by blast
qed

end
