(* ===== verification/Samples.thy ===== *)
theory Samples
  imports GatewayLedger
begin

section \<open>Concrete crates and packets\<close>

text \<open>
  Instances of the parameters, on which the contracts hold and the definitions compute: a
  cipher whose tag is its key, a repetition code, and a handshake in the clear.  They show that
  the hypotheses of the theorems can be met; no theorem depends on them.
\<close>

definition plain_aead :: aead where
  "plain_aead = \<lparr>ae_enc = \<lambda>k n a m. m @ resize 16 0 k,
     ae_dec = \<lambda>k n a c. if 16 \<le> length c \<and> drop (length c - 16) c = resize 16 0 k
       then Some (take (length c - 16) c) else None\<rparr>"

lemma plain_aead_ok: "aead_ok plain_aead"
  by (simp add: aead_ok_def plain_aead_def sizes)

lemma plain_aead_strict: "aead_strict plain_aead"
  by (auto simp: aead_strict_def plain_aead_def split: if_splits) (metis append_take_drop_id)

definition repeat_rs :: rs_code where
  "repeat_rs = \<lparr>rs_encode = \<lambda>k m shards. Some (replicate m (shards ! 0)),
     rs_decode = \<lambda>k m orig recv.
       (if orig \<noteq> [] then Some [] else case recv of [] \<Rightarrow> None | (_, d) # _ \<Rightarrow> Some [(0, d)])\<rparr>"

lemma repeat_rs_ok: "rs_ok repeat_rs 1 m [x]"
proof -
  have "\<exists>res. rs_decode repeat_rs 1 m orig recv = Some res \<and> shards_of [x] res \<and>
      (\<forall>i < 1. i \<notin> fst ` set orig \<longrightarrow> i \<in> fst ` set res)"
    if "shards_of [x] orig" "shards_of (replicate m x) recv" "1 \<le> length orig + length recv" for orig recv
    using that by (cases orig; cases recv) (auto simp: repeat_rs_def shards_of_def)
  then show ?thesis by (auto simp: rs_ok_def repeat_rs_def)
qed

definition clear_noise :: noise where
  "clear_noise = \<lparr>nz_read = \<lambda>key msg1. if 96 \<le> length msg1
       then Some (take 32 msg1, drop 96 msg1, take 32 (drop 32 msg1)) else None,
     nz_write = \<lambda>hs eph payload. Some (resize 48 0 eph @ payload, hs, eph)\<rparr>"

lemma clear_noise_sizes: "noise_sizes clear_noise"
  by (auto simp: noise_sizes_def clear_noise_def resize_def split: if_splits)

definition toy :: crates where
  "toy = \<lparr>c_aead = plain_aead, c_rs = repeat_rs, c_noise = clear_noise\<rparr>"

lemma toy_simps [simp]:
  "c_aead toy = plain_aead" "c_rs toy = repeat_rs" "c_noise toy = clear_noise"
  by (simp_all add: toy_def)

subsection \<open>A session\<close>

definition phone :: SocketAddr where
  "phone = \<lparr>sa_ip = V4 10, sa_port = 4000\<rparr>"

definition first_req :: Req where
  "first_req = \<lparr>rq_req_id = 7, rq_round = 0, rq_want = 0, rq_loss_pct = 0, rq_rate = 1000,
     rq_rtt_ms = 50, rq_last_ctr = 0, rq_body = [1, 2, 3]\<rparr>"

definition hello :: bytes where
  "hello = T_HS1 # replicate 32 1 @ replicate 32 2 @ replicate 32 0 @ be64 5000 @ req_encode first_req"

definition env0 :: env where
  "env0 = \<lparr>e_now = 0, e_now_us = 5000, e_sid = 9, e_eph = replicate 32 3\<rparr>"

text \<open>A session with request 7 in hand, and the keys of its client.\<close>

definition sess0 :: Session where
  "sess0 = \<lparr>s_keys = \<lparr>k_send = replicate 32 3, k_recv = replicate 32 1\<rparr>, s_window = new_window,
     s_ctr = 0, s_peer = phone, s_socket = 0, s_device = replicate 32 2, s_validated = False,
     s_credit = 300, s_heard = 0, s_next_send = 0, s_rate = 1000,
     s_responses = [(7, Pending 0 first_req {0})]\<rparr>"

definition phone_keys :: Keys where
  "phone_keys = \<lparr>k_send = replicate 32 1, k_recv = replicate 32 3\<rparr>"

definition gw1 :: Gateway where
  "gw1 = (gw_new [replicate 32 4])\<lparr>g_sessions := [(9, sess0)]\<rparr>"

definition token0 :: Token where
  "token0 = \<lparr>tk_sid = 9, tk_req_id = 7\<rparr>"

lemma gw1_session [simp]: "map_of (g_sessions gw1) 9 = Some sess0"
  by (simp add: gw1_def)

lemma gw1_inv [simp]: "gw_inv toy gw1"
  by (simp add: gw1_def gw_inv_def gw_new_def session_ok_def sess0_def MAX_SESSIONS_def MAX_PENDING_def
      first_req_def hm_ok_def)

lemma toy_keys [simp]: "k_recv phone_keys = k_send (s_keys sess0)" "k_recv (s_keys sess0) = k_send phone_keys"
  by (simp_all add: phone_keys_def sess0_def)

definition gw0 :: Gateway where
  "gw0 = gw_new [replicate 32 4]"

text \<open>The hello starts a session at any gateway with the key that has not seen it.\<close>

definition hello_seen :: "Gateway \<Rightarrow> env \<Rightarrow> Gateway \<times> NewRequest option" where
  "hello_seen g e = handshake_opened toy g hello 0 phone e (replicate 32 1) (replicate 32 1) (replicate 32 2)
     (replicate 32 4) 5000 first_req"

lemma hello_receive:
  assumes "g_handshakes g = []" and "g_keys g = [replicate 32 4]"
  shows "receive toy g hello 0 phone e = Return (hello_seen g e)"
proof -
  have eph: "get_prefix 32 (drop 1 hello) = Some (replicate 32 1)"
    by (simp add: hello_def get_prefix_def)
  have found: "find_opened clear_noise (g_keys g) (drop 1 hello) =
      Some (replicate 32 1, be64 5000 @ req_encode first_req, replicate 32 2, replicate 32 4)"
    by (simp add: hello_def assms(2) clear_noise_def)
  have "handshake toy g hello 0 phone e = Return (hello_seen g e)"
    using eph found by (simp add: handshake_def Let_def assms(1) req_decode_encode hello_seen_def)
  then show ?thesis by (simp add: receive_def hello_def)
qed

lemma hello_length: "length hello = 97 + 8 + length (req_encode first_req)"
  by (simp add: hello_def)

lemma hello_started:
  assumes "g_seen_ts g = []" and "g_handshakes g = []" and "length (g_sessions g) < MAX_SESSIONS"
    and "e_now_us e = 5000"
  obtains hs2 s where "length hs2 = 73" and "snd (hello_seen g e) \<noteq> None"
    and "g_direct (fst (hello_seen g e)) = g_direct g @ [\<lparr>out_socket = 0, out_to = phone, out_packet = hs2\<rparr>]"
    and "g_handshakes (fst (hello_seen g e)) = [(replicate 32 1, e_now e, e_sid e, hs2)]"
    and "view (fst (hello_seen g e)) = (view g)(e_sid e := Some (hide s))"
    and "s_credit s = 3 * (length hello + IP_UDP) - 101"
    and "s_heard s = e_now e"
proof -
  let ?hs2 = "T_HS2 # take 4 (replicate 32 1) @ resize 48 0 (e_eph e) @ be32 (e_sid e) @
    reset_token plain_aead (replicate 32 4) (e_sid e)"
  let ?g2 = "send_direct [\<lparr>out_socket = 0, out_to = phone, out_packet = ?hs2\<rparr>]
    (g\<lparr>g_seen_ts := [(replicate 32 2, [5000])]\<rparr>)"
  let ?s = "new_session ?g2 hello 0 phone (e_now e) (replicate 32 1) (e_eph e) (replicate 32 2) ?hs2 first_req"
  let ?g4 = "set_session (e_sid e) ?s (?g2\<lparr>g_sessions := g_sessions g,
    g_handshakes := [(replicate 32 1, e_now e, e_sid e, ?hs2)]\<rparr>)"
  have one: "hs2_copies first_req = 1" by (simp add: hs2_copies_def first_req_def)
  have room: "make_room (g_sessions g) = g_sessions g" using assms(3) by (simp add: make_room_def)
  have len: "length ?hs2 = 73" by (simp add: plain_aead_ok RESET_TOKEN_def)
  have eq: "hello_seen g e = request toy ?g4 (e_sid e) first_req (e_now e)"
    using assms(1,2,4) one room
    by (simp add: hello_seen_def handshake_opened_def Let_def abs_diff_def FRESH_MS_def clear_noise_def send_direct_def)
  have "snd (request toy ?g4 (e_sid e) first_req (e_now e)) \<noteq> None"
    by (simp add: request_def set_session_def new_session_def Let_def first_req_def hm_values_def MAX_PENDING_def)
  moreover have "s_credit ?s = 3 * (length hello + IP_UDP) - 101"
    using len one by (simp add: new_session_def Let_def IP_UDP_def)
  moreover have "view ?g4 = (view g)(e_sid e := Some (hide ?s))"
    by (simp only: view_set_session) (simp add: view_def fun_eq_iff)
  moreover have "g_direct ?g4 = g_direct g @ [\<lparr>out_socket = 0, out_to = phone, out_packet = ?hs2\<rparr>]"
    by (simp add: send_direct_def)
  ultimately show thesis
    using len by (intro that [of ?hs2 ?s]) (simp_all only: eq, simp_all add: request_handshakes new_session_def Let_def)
qed

lemma hello_received: "\<exists>g1 nr. receive toy gw0 hello 0 phone env0 = Return (g1, Some nr)"
proof -
  have "g_seen_ts gw0 = []" "g_handshakes gw0 = []" "g_keys gw0 = [replicate 32 4]"
    "length (g_sessions gw0) < MAX_SESSIONS" by (simp_all add: gw0_def gw_new_def MAX_SESSIONS_def)
  moreover have "e_now_us env0 = 5000" by (simp add: env0_def)
  ultimately show ?thesis
    using hello_receive [of gw0 env0] hello_started [of gw0 env0] by (metis not_None_eq prod.collapse)
qed

end
