(* ===== verification/GatewayProps.thy ===== *)
theory GatewayProps
  imports Samples
begin

section \<open>The gateway: its properties\<close>

text \<open>
  The claims about \<^verbatim>\<open>gateway.rs\<close>, each over the lemmas of the theories before, with an
  instance for each claim that has hypotheses.
\<close>

text \<open>
  C6: In every state that any sequence of packets, answers, polls, sweeps and key changes
  reaches from a new gateway: sessions are at most \<open>MAX_SESSIONS\<close>, no session has more than
  \<open>MAX_PENDING\<close> requests in hand, each pending request is filed under its own id, every
  finished response is the erasure encoding of one body within the limit, and every replay
  window stands for the set of counters it accepted.
\<close>

theorem gateway_invariant:
  "gw_run C (gw_new keys) evs = Return g \<Longrightarrow> gw_inv C g"
  by (rule gw.run_good [OF gw_inv_new])

theorem gateway_invariant_witness:
  "gw_inv toy (sweep (set_keys (gw_new [[1]]) [[2]]) \<lparr>e_now = 1, e_now_us = 1, e_sid = 1, e_eph = []\<rparr>)"
  by (rule gateway_invariant [where keys = "[[1]]" and
        evs = "[SetKeys [[2]], Sweep \<lparr>e_now = 1, e_now_us = 1, e_sid = 1, e_eph = []\<rparr>]"]) simp

text \<open>
  C3: The amplification limit, and how far it holds.  After any run, for every session id, the
  credit left and all bytes sent for it while its address was unproven are together at most
  three times the bytes received for it: what polls took from the queue, message 2, the resets
  of an unknown session and the notice of a wrong key, each with its headers.  The one packet
  that is not charged is the repeat of a cached message 2; the repeats of a session are at most
  twice the bytes received for it.  The hypotheses are the sizes of the AEAD and of the Noise
  messages.
\<close>

theorem amplification_limit:
  assumes "aead_ok (c_aead C)" and "noise_sizes (c_noise C)"
    and "run_machine (ledger_step C) (gw_new keys, no_entries) evs = Return (g, L)"
  shows "credit_of g sid + lg_sent L sid \<le> 3 * lg_received L sid \<and>
    lg_repeated L sid \<le> 2 * lg_received L sid"
proof -
  have "gw_inv C (gw_new keys)" by simp
  then have "ledger_ok C (gw_new keys, no_entries)"
    by (simp add: ledger_ok_def credit_of_def no_entries_def caches_ok_def gw_new_def)
  from ledger.run_good [OF this assms(3)] show ?thesis using assms(1,2) by (simp add: ledger_ok_def)
qed

text \<open>
  A message 1, and two seconds later its first 33 bytes again: message 2 went out twice, the
  second time for bytes that also earned credit, so that what was sent and what may be sent are
  together more than three times what came in.
\<close>

lemma repeats_not_charged:
  "\<exists>g L. run_machine (ledger_step toy) (gw_new [replicate 32 4], no_entries)
      [Receive hello 0 phone env0, Receive (take 33 hello) 0 phone (env0\<lparr>e_now := secs 2\<rparr>)] = Return (g, L) \<and>
    lg_sent L 9 = 101 \<and> lg_repeated L 9 = 101 \<and>
    3 * lg_received L 9 < credit_of g 9 + lg_sent L 9 + lg_repeated L 9"
proof -
  define g1 where "g1 = fst (hello_seen gw0 env0)"
  define again where "again = take 33 hello"
  define env2 where "env2 = env0\<lparr>e_now := secs 2\<rparr>"
  have gw0: "gw0 = gw_new [replicate 32 4]" "g_seen_ts gw0 = []" "g_handshakes gw0 = []"
    "g_keys gw0 = [replicate 32 4]" "g_direct gw0 = []" "length (g_sessions gw0) < MAX_SESSIONS" "e_now_us env0 = 5000"
    by (simp_all add: gw0_def gw_new_def MAX_SESSIONS_def env0_def)
  have env: "e_now env0 = 0" "e_sid env0 = 9" "e_now env2 = secs 2" by (simp_all add: env0_def env2_def)
  obtain hs2 s where len: "length hs2 = 73"
    and g1: "g_direct g1 = [\<lparr>out_socket = 0, out_to = phone, out_packet = hs2\<rparr>]"
      "g_handshakes g1 = [(replicate 32 1, 0, 9, hs2)]" "view g1 = (view gw0)(9 := Some (hide s))"
      "s_credit s = 3 * (length hello + IP_UDP) - 101"
    by (rule hello_started [OF gw0(2,3,6,7)]) (simp add: g1_def gw0(5) env)
  have c1: "credit_of g1 9 = 3 * (length hello + IP_UDP) - 101"
    by (simp add: credit_of_view g1(3,4) hide_def)
  have st1: "gw_step toy gw0 (Receive hello 0 phone env0) = Return g1"
    using hello_receive [OF gw0(3,4), of env0] by (simp add: g1_def split: prod.split)
  have h: "hello \<noteq> []" "hd hello = T_HS1" "get_prefix 32 (drop 1 hello) = Some (replicate 32 1)"
    by (simp_all add: hello_def get_prefix_def)
  have a: "length again = 33" "again \<noteq> []" "hd again = T_HS1" "get_prefix 32 (drop 1 again) = Some (replicate 32 1)"
    "\<exists>rest. again = T_HS1 # rest"
    by (simp_all add: again_def hello_def get_prefix_def)
  have late: "CLIENT_REPEAT < since (secs 2) 0"
    by (simp add: CLIENT_REPEAT_def since_def)
  obtain g2 where st2: "gw_step toy g1 (Receive again 0 phone env2) = Return g2"
    and g2: "g_direct g2 = g_direct g1 @ [\<lparr>out_socket = 0, out_to = phone, out_packet = hs2\<rparr>]"
      "credit_of g2 9 = credit_of g1 9 + 3 * 61"
  proof -
    have "receive toy g1 again 0 phone env2 = Return (send_direct [\<lparr>out_socket = 0, out_to = phone, out_packet = hs2\<rparr>]
        (g1\<lparr>g_sessions := hm_adjust 9 (\<lambda>s. s\<lparr>s_credit := s_credit s + 3 * 61\<rparr>) (g_sessions g1)\<rparr>), None)"
      using a late by (auto simp: receive_def handshake_def Let_def g1(2) env IP_UDP_def)
    moreover have "map_of (g_sessions g1) 9 \<noteq> None" by (simp add: map_of_view g1(3))
    ultimately show thesis
      by (intro that) (auto simp: send_direct_def credit_of_def)
  qed
  have he: "hears gw0 hello env0 9" using h gw0(3) env by (simp add: hears_def hello_def split: list.split)
  have ha: "hears g1 again env2 9" using a by (auto simp: hears_def g1(2))
  have r: "\<not> is_repeat gw0 hello" "is_repeat g1 again" using h a gw0(3) by (simp_all add: is_repeat_def g1(2))
  have d: "direct_wire gw0 g1 = 101" "direct_wire g1 g2 = 101"
    using g1(1) g2(1) gw0(5) len by (simp_all add: IP_UDP_def)
  define L where "L = \<lparr>lg_received = (\<lambda>i. lg_received no_entries i + earned gw0 (Receive hello 0 phone env0) i +
      earned g1 (Receive again 0 phone env2) i),
    lg_sent = (\<lambda>i. lg_sent no_entries i + spent toy gw0 (Receive hello 0 phone env0) i +
      put_out gw0 (Receive hello 0 phone env0) g1 i + spent toy g1 (Receive again 0 phone env2) i +
      put_out g1 (Receive again 0 phone env2) g2 i),
    lg_repeated = (\<lambda>i. lg_repeated no_entries i + repeated gw0 (Receive hello 0 phone env0) g1 i +
      repeated g1 (Receive again 0 phone env2) g2 i)\<rparr>"
  have "run_machine (ledger_step toy) (gw0, no_entries) [Receive hello 0 phone env0, Receive again 0 phone env2] =
      Return (g2, L)"
    using st1 st2 by (simp add: L_def del: gw_step.simps)
  moreover have "lg_sent L 9 = 101" "lg_repeated L 9 = 101" "lg_received L 9 = length hello + IP_UDP + 61"
    using he ha r d a(1) by (simp_all add: L_def no_entries_def IP_UDP_def)
  moreover have "credit_of g2 9 = 3 * (length hello + IP_UDP) - 101 + 183" using g2(2) c1 by simp
  moreover have "97 \<le> length hello" by (simp add: hello_length)
  ultimately show ?thesis
    unfolding gw0(1) [symmetric] again_def [symmetric] env2_def [symmetric] by fastforce
qed

theorem amplification_limit_witness:
  "\<exists>g L. run_machine (ledger_step toy) (gw_new [replicate 32 4], no_entries)
      [Receive hello 0 phone env0, Receive (take 33 hello) 0 phone (env0\<lparr>e_now := secs 2\<rparr>)] = Return (g, L) \<and>
    lg_sent L 9 = 101 \<and> lg_repeated L 9 = 101 \<and> credit_of g 9 + 101 \<le> 3 * lg_received L 9 \<and>
    3 * lg_received L 9 < credit_of g 9 + 101 + 101"
  using repeats_not_charged amplification_limit [of toy] plain_aead_ok clear_noise_sizes
  by (metis toy_simps(1,3))

text \<open>
  What a poll sends.  The direct packets first, then the queue entries it lets go, in
  order, each to the address and socket its session was last heard from; every one of them
  was queued, is due, and belongs to a live session heard within the circuit breaker's time;
  and a session without proof pays for exactly the bytes sent to it.
\<close>

theorem poll_sends:
  "let g2 = notices C g now; sent = drain_sent now (g_sessions g2) (g_queue g2)
   in snd (poll C g now) = g_direct g @ map (\<lambda>q. case map_of (g_sessions g2) (q_sid q) of
           Some s \<Rightarrow> \<lparr>out_socket = s_socket s, out_to = s_peer s, out_packet = q_packet q\<rparr>) sent \<and>
    set sent \<subseteq> {q \<in> set (g_queue g2). q_due q \<le> now \<and>
      (\<exists>s. map_of (g_sessions g2) (q_sid q) = Some s \<and> since now (s_heard s) \<le> BREAKER)} \<and>
    credit_of (fst (poll C g now)) sid + spent C g (Poll now) sid = credit_of g sid"
proof -
  define g2 where "g2 = notices C g now"
  have "snd (poll C g now) = g_direct g @ snd (snd (drain now (g_sessions g2) (g_queue g2)))"
    by (simp add: poll_def g2_def Let_def split_def)
  then show ?thesis
    using drain_sent_due [of _ now "g_sessions g2" "g_queue g2"] credit_of_poll [of C g now sid]
    unfolding Let_def g2_def [symmetric] by (auto simp: drain_out simp del: spent.simps)
qed

text \<open>
  The time that \<^verbatim>\<open>next_due\<close> names is not too late: a poll before it (or when it names
  none) sends nothing, so an owner that sleeps until then misses nothing.
\<close>

theorem next_due_sound:
  assumes "\<And>t. next_due g now = Some t \<Longrightarrow> now < t"
  shows "snd (poll C g now) = []"
proof -
  define sendable :: "Out \<Rightarrow> bool" where "sendable = (\<lambda>q. case map_of (g_sessions g) (q_sid q) of
    None \<Rightarrow> False | Some s \<Rightarrow> s_validated s \<or> length (q_packet q) + IP_UDP \<le> s_credit s)"
  define ts where "ts = map q_due (filter sendable (g_queue g)) @ map fst (g_working g) @
    (if g_direct g = [] then [] else [now])"
  have "next_due g now = min_by_key (\<lambda>t. t) ts"
    by (simp add: next_due_def ts_def sendable_def Let_def)
  then have later: "now < t" if "t \<in> set ts" for t
  proof (cases "min_by_key (\<lambda>t. t) ts")
    case None
    then show ?thesis using that by simp
  next
    case (Some m)
    then have "now < m" using assms \<open>next_due g now = _\<close> by simp
    also have "m \<le> t" using min_by_key_Some [OF Some] that by simp
    finally show ?thesis .
  qed
  have direct: "g_direct g = []" using later [of now] by (cases "g_direct g = []") (simp_all add: ts_def)
  have "filter (\<lambda>(t, _). t \<le> now) (g_working g) = []"
    using later by (force simp: ts_def filter_empty_conv)
  then have "notices C g now = g\<lparr>g_direct := [], g_working := filter (\<lambda>(t, _). now < t) (g_working g)\<rparr>"
    by (simp add: notices_def Let_def)
  moreover have "drain_sent now (g_sessions g) qs = []" if "set qs \<subseteq> set (g_queue g)" for qs
    using that
  proof (induction qs)
    case (Cons q qs)
    have "\<not> (sendable q \<and> q_due q \<le> now)" using later [of "q_due q"] Cons.prems by (auto simp: ts_def)
    then show ?case using Cons by (auto simp: sendable_def split: option.split)
  qed simp
  ultimately show ?thesis
    by (simp add: poll_def Let_def split_def direct drain_out)
qed

theorem next_due_sound_witness:
  "next_due gw1 4 = None \<and> snd (poll toy gw1 4) = []"
proof -
  have "next_due gw1 4 = None" by (simp add: next_due_def gw1_def gw_new_def)
  moreover from this have "snd (poll toy gw1 4) = []" by (intro next_due_sound) simp
  ultimately show ?thesis by blast
qed

text \<open>
  C15: An answer reaches the client.  When the application answers a pending request within the
  size limit, the gateway queues packets such that the client, from any of them that arrive
  (in any order, with losses and repeats), rebuilds exactly the answer once it holds as many
  symbols as the answer has data symbols; and the first burst alone contains that many.
\<close>

theorem respond_delivers:
  assumes "gw_inv C g" and "aead_ok (c_aead C)"
    and rs: "rs_ok (c_rs C) k (repair_pool k) (padded_symbols body)" and k: "k = fst (shape (length body))"
    and sess: "map_of (g_sessions g) (tk_sid token) = Some s"
    and pend: "map_of (s_responses s) (tk_req_id token) = Some (Pending t hints rounds)"
    and keys: "k_recv R = k_send (s_keys s)" and len: "length body \<le> MAX_RESPONSE"
  shows "\<exists>g' outs. respond C g token body now = Return g' \<and> g_queue g' = g_queue g @ outs \<and>
    (\<forall>ps. set ps \<subseteq> q_packet ` set outs \<longrightarrow> k \<le> length (symbols_of (c_aead C) R ps) \<longrightarrow>
       fec_decode (c_rs C) (length body) (symbols_of (c_aead C) R ps) = Some body) \<and>
    k \<le> length (symbols_of (c_aead C) R (map q_packet outs))"
proof -
  have id: "rq_req_id hints = tk_req_id token"
    using gw_inv_session [OF assms(1) sess] map_of_SomeD [OF pend] by (auto simp: session_ok_def)
  obtain data repair where enc: "fec_encode (c_rs C) body = Some (data, repair)"
    using rs k by (auto simp: fec_encode_def Let_def rs_ok_def)
  note shape = fec_encode_shape [OF enc len rs [unfolded k]]
  define syms where "syms = burst_symbols hints True k data repair 0"
  obtain s2 outs where
    resp: "respond C g token body now = Return ((set_session (tk_sid token) s2 g)
       \<lparr>g_working := filter (\<lambda>(_, t). t \<noteq> token) (g_working g), g_queue := g_queue g @ outs\<rparr>)"
    and n: "length outs = length syms"
    and pk: "\<And>j. j < length outs \<Longrightarrow> q_sid (outs ! j) = tk_sid token \<and> q_req_id (outs ! j) = tk_req_id token \<and>
      q_packet (outs ! j) = seal (c_aead C) (s_keys s) T_DATA (tk_sid token) (s_ctr s + of_nat j)
        (data_encode (symbol_data hints (of_nat k) (of_nat (length body)) (of_nat (length outs)) j (syms ! j)))"
    unfolding k syms_def by (rule respond_Pending [OF sess pend id len enc, of now]) blast
  have sym_j: "symbol_of (c_aead C) R (q_packet (outs ! j)) = Some (syms ! j)" if "j < length syms" for j
    using pk [of j] that n by (simp add: symbol_of_seal [OF assms(2) keys] symbol_data_def)
  have genuine: "genuine data repair (symbols_of (c_aead C) R ps)" if within: "set ps \<subseteq> q_packet ` set outs" for ps
    unfolding genuine_iff
  proof (intro conjI ballI)
    fix sb assume "sb \<in> set (symbols_of (c_aead C) R ps)"
    then obtain p where "p \<in> set ps" "symbol_of (c_aead C) R p = Some sb"
      using symbols_of_from by (metis surj_pair)
    moreover have "p \<in> q_packet ` set outs" using within calculation(1) by blast
    then obtain j where "j < length outs" "p = q_packet (outs ! j)"
      by (metis imageE in_set_conv_nth)
    ultimately have "j < length syms" "sb = syms ! j" using sym_j [of j] n by auto
    then show "genuine_symbol data repair sb"
      using shape burst_symbols_genuine [of sb hints True data repair 0] by (simp add: syms_def k)
  qed simp
  have all: "k \<le> length (symbols_of (c_aead C) R (map q_packet outs))"
  proof -
    let ?m = "symbols_of (c_aead C) R (map q_packet outs)"
    have "of_nat j \<in> fst ` set ?m" if "j < k" for j
    proof -
      have "j < length syms" "syms ! j = (of_nat j, data ! j)"
        using first_burst_data [of j data hints k repair 0] that shape(1) k by (simp_all add: syms_def)
      then have "map_of ?m (of_nat j) \<noteq> None"
        using symbols_of_dom [of "q_packet (outs ! j)" "map q_packet outs" _ R] sym_j [of j] n by simp
      then show ?thesis by (simp add: map_of_eq_None_iff)
    qed
    then have sub: "(of_nat :: nat \<Rightarrow> u8) ` {..<k} \<subseteq> fst ` set ?m" by auto
    have "inj_on (of_nat :: nat \<Rightarrow> u8) {..<k}"
      using shape k by (intro inj_onI) (auto simp: word_of_nat_eq_iff take_bit_nat_eq_self)
    then have "k = card ((of_nat :: nat \<Rightarrow> u8) ` {..<k})" by (simp add: card_image)
    also have "\<dots> \<le> card (fst ` set ?m)" by (rule card_mono [OF _ sub]) simp
    also have "\<dots> \<le> length ?m" by (metis card_length length_map list.set_map)
    finally show ?thesis .
  qed
  have "length body < 2 ^ 16" using len by (simp add: fec_sizes)
  then show ?thesis
    using resp all genuine fec_decode_recovers [OF rs [unfolded k] enc]
    by (intro exI [of _ "(set_session (tk_sid token) s2 g)
       \<lparr>g_working := filter (\<lambda>(_, t). t \<noteq> token) (g_working g), g_queue := g_queue g @ outs\<rparr>"]
       exI [of _ outs]) (simp add: k)
qed

theorem respond_delivers_witness:
  "\<exists>g' outs. respond toy gw1 token0 [42] 5 = Return g' \<and> g_queue g' = g_queue gw1 @ outs \<and>
    (\<forall>ps. set ps \<subseteq> q_packet ` set outs \<longrightarrow> 1 \<le> length (symbols_of plain_aead phone_keys ps) \<longrightarrow>
       fec_decode repeat_rs (length [42 :: u8]) (symbols_of plain_aead phone_keys ps) = Some [42]) \<and>
    1 \<le> length (symbols_of plain_aead phone_keys (map q_packet outs))"
proof -
  have "shape (length [42 :: u8]) = (1, 2)" by (simp add: shape_def div_ceil_def SYMBOL_def)
  then have "padded_symbols [42] = [[42, 0]]" "fst (shape (length [42 :: u8])) = 1"
    by (simp_all add: padded_symbols_def data_symbols_def resize_def SYMBOL_def)
  then show ?thesis
    using respond_delivers [of toy gw1 1 "[42]" token0 sess0 0 first_req "{0}" phone_keys 5] repeat_rs_ok
    by (simp add: plain_aead_ok token0_def sess0_def fec_sizes phone_keys_def)
qed

text \<open>
  C33: Later bursts only add genuine symbols.  A burst for a finished response (of which the
  invariant says that it encodes one body) seals its packets under consecutive counters from
  the session's own, none skipped or used twice, opens at the client as genuine symbols of that
  body, and spaces them by the pace of each packet's size at the faster of the two rates.
\<close>

theorem burst_genuine:
  assumes "gw_inv C g" and "aead_ok (c_aead C)"
    and sess: "map_of (g_sessions g) sid = Some s"
    and ready: "map_of (s_responses s) (rq_req_id req) = Some (Ready t0 k n data repair i rounds)"
    and rs: "\<And>body. length body = n \<Longrightarrow> rs_ok (c_rs C) k (repair_pool k) (padded_symbols body)"
    and keys: "k_recv R = k_send (s_keys s)"
  shows "\<exists>outs s2. g_queue (burst C g sid req first now) = g_queue g @ outs \<and>
    map_of (g_sessions (burst C g sid req first now)) sid = Some s2 \<and>
    s_ctr s2 = s_ctr s + of_nat (length outs) \<and>
    length outs = (if first then k + first_burst_spare k req else unat (rq_want req)) \<and>
    (\<forall>j < length outs. header (q_packet (outs ! j)) = Some (T_DATA, sid, s_ctr s + of_nat j) \<and>
       (\<exists>sb. symbol_of (c_aead C) R (q_packet (outs ! j)) = Some sb \<and> genuine_symbol data repair sb)) \<and>
    (\<forall>j. Suc j < length outs \<longrightarrow> q_due (outs ! Suc j) = q_due (outs ! j) +
       pace (length (q_packet (outs ! j)) + IP_UDP) (max (s_rate s) (rq_rate req)))"
proof -
  have "resp_ok C (rq_req_id req) (Ready t0 k n data repair i rounds)"
    using gw_inv_session [OF assms(1) sess] map_of_SomeD [OF ready] by (auto simp: session_ok_def)
  then obtain body where body: "length body = n" "n \<le> MAX_RESPONSE" "k = fst (shape n)"
    and enc: "fec_encode (c_rs C) body = Some (data, repair)"
    by (auto simp: resp_ok_def)
  have shape: "length data = k" "0 < length repair" "length data + length repair \<le> 255"
    using fec_encode_shape [OF enc] rs [OF body(1)] body by simp_all
  define syms where "syms = burst_symbols req first k data repair i"
  define used where "used = (if first then length syms - length data else length syms)"
  obtain s2 outs where q: "queue_symbols C sid req (of_nat k) (of_nat n) (of_nat (length syms))
      (max (s_rate s) (rq_rate req)) 0 (max (s_next_send s) now) syms (s\<lparr>s_responses :=
      AList.update (rq_req_id req) (Ready t0 k n data repair (i + used) rounds) (s_responses s)\<rparr>) = (s2, outs)"
    by (meson surj_pair)
  note b = burst_Ready [OF sess ready syms_def used_def q]
  note spec = queue_symbols_spec [OF q] and dues = queue_symbols_dues [OF q]
  have "genuine_symbol data repair (syms ! j)" if "j < length syms" for j
    using that shape by (intro burst_symbols_genuine [where first = first and req = req and i = i])
      (simp_all add: syms_def)
  moreover have "length syms = (if first then k + first_burst_spare k req else unat (rq_want req))"
    using shape by (simp add: syms_def burst_symbols_def)
  ultimately show ?thesis
    using spec dues b assms(2)
    by (intro exI [of _ outs] exI [of _ s2])
      (simp add: set_session_def symbol_of_seal [OF assms(2) keys] symbol_data_def)
qed

theorem burst_genuine_witness:
  "\<exists>g. gw_inv toy g \<and> (\<exists>outs s2. g_queue (burst toy g 9 (first_req\<lparr>rq_want := 2\<rparr>) False 5) = g_queue g @ outs \<and>
    map_of (g_sessions (burst toy g 9 (first_req\<lparr>rq_want := 2\<rparr>) False 5)) 9 = Some s2 \<and>
    s_ctr s2 = of_nat (length outs) \<and> length outs = 2)"
proof -
  define rep where "rep = replicate (repair_pool 1) ([42, 0] :: bytes)"
  define s where "s = sess0\<lparr>s_responses := [(7, Ready 0 1 1 [[42, 0]] rep 0 {})]\<rparr>"
  define g where "g = gw1\<lparr>g_sessions := [(9, s)]\<rparr>"
  have shape: "shape 1 = (1, 2)" by (simp add: shape_def div_ceil_def SYMBOL_def)
  have pad: "padded_symbols [x] = [[x, 0]]" for x
    using shape by (simp add: padded_symbols_def data_symbols_def resize_def SYMBOL_def)
  have "fec_encode repeat_rs [42] = Some ([[42, 0]], rep)"
    using shape by (simp add: fec_encode_def Let_def pad data_symbols_def repeat_rs_def rep_def SYMBOL_def)
  then have "gw_inv toy g"
    using shape by (auto simp: g_def s_def sess0_def gw_inv_def session_ok_def resp_ok_def MAX_SESSIONS_def
        hm_ok_def fec_sizes intro!: exI [of _ "[42]"])
  moreover have "rs_ok repeat_rs 1 (repair_pool 1) (padded_symbols body)" if "length body = 1" for body
    using that by (auto simp: length_Suc_conv pad repeat_rs_ok [simplified])
  moreover have "k_recv phone_keys = k_send (s_keys s)" by (simp add: s_def)
  ultimately show ?thesis
    using burst_genuine [of toy g 9 s "first_req\<lparr>rq_want := 2\<rparr>" 0 1 1 "[[42, 0]]" rep 0 "{}" phone_keys False 5]
    by (intro exI [of _ g]) (auto simp: g_def s_def sess0_def first_req_def plain_aead_ok)
qed

text \<open>
  The answer of a request is refused without effect when it is too large, when its session
  is gone, or when the request is not one the session knows.
\<close>

theorem respond_refuses:
  assumes "MAX_RESPONSE < length body \<or> map_of (g_sessions g) (tk_sid token) = None \<or>
    (\<exists>s. map_of (g_sessions g) (tk_sid token) = Some s \<and> map_of (s_responses s) (tk_req_id token) = None)"
  shows "respond C g token body now = Return g"
  using assms by (auto simp: respond_def split: option.split)

theorem respond_refuses_witness:
  "respond toy gw1 (token0\<lparr>tk_req_id := 8\<rparr>) [] 5 = Return gw1"
  by (rule respond_refuses) (simp add: token0_def sess0_def)

text \<open>
  Resets amplify nothing: all the resets a packet for an unknown session provokes are
  together smaller than the packet, whatever the number of keys, and each is the reset of one
  of the gateway's keys for that session.
\<close>

theorem resets_smaller:
  assumes "header p = Some (t, sid, ctr)" and "map_of (g_sessions g) sid = None"
  shows "\<exists>rs. framed C g p socket from now =
      (send_direct (map (\<lambda>r. \<lparr>out_socket = socket, out_to = from, out_packet = r\<rparr>) rs) g, None) \<and>
    sum_list (map length rs) < length p \<and>
    (\<forall>r \<in> set rs. \<exists>key \<in> set (g_keys g). r = T_RESET # be32 sid @ reset_token (c_aead C) key sid)"
proof -
  have "sum_list (map length (resets A i budget ks)) < budget \<or> resets A i budget ks = []" for A i budget ks
  proof (induction A i budget ks rule: resets.induct)
    case (2 A i budget key ks)
    then show ?case by (auto simp: Let_def)
  qed simp
  moreover have "0 < length p" using header_Some_length [OF assms(1)] by linarith
  ultimately have "sum_list (map length (resets (c_aead C) sid (length p) (g_keys g))) < length p"
    by (metis list.map(1) sum_list.Nil)
  moreover have "\<forall>r \<in> set (resets A i budget ks). \<exists>key \<in> set ks. r = T_RESET # be32 i @ reset_token A key i"
    for A i budget ks
    by (induction A i budget ks rule: resets.induct) (auto simp: Let_def)
  ultimately show ?thesis using assms by (auto simp: framed_def)
qed

theorem resets_smaller_witness:
  "\<exists>rs. framed toy gw1 (seal plain_aead phone_keys T_REQ 5 1 []) 0 phone 5 =
      (send_direct (map (\<lambda>r. \<lparr>out_socket = 0, out_to = phone, out_packet = r\<rparr>) rs) gw1, None) \<and>
    sum_list (map length rs) < length (seal plain_aead phone_keys T_REQ 5 1 [])"
  using resets_smaller [of "seal plain_aead phone_keys T_REQ 5 1 []" T_REQ 5 1 gw1 toy 0 phone 5]
  by (auto simp: plain_aead_ok gw1_def)

text \<open>
  C28: A packet is acted on once.  After a framed packet was accepted, whatever packets of
  this or any other device, handshakes, answers, polls, sweeps and key changes follow,
  receiving it again, from any address, changes nothing and starts no request, as long as its
  session is still there after each of them (a sweep takes idle ones, a full table the one heard
  from longest ago) and no message 1 starts another session under its id.
\<close>

theorem framed_replay_ignored:
  assumes "gw_inv C g" and h: "header p = Some (t, sid, c)" and s: "map_of (g_sessions g) sid = Some s"
    and "open_packet (c_aead C) (s_keys s) p \<noteq> None" and acc: "fst (accept (s_window s) c)"
    and run: "gw_run C (fst (framed C g p socket from now)) evs = Return g'"
    and evs: "lives C sid (fst (framed C g p socket from now)) evs"
  shows "framed C g' p socket' from' now' = (g', None)"
proof -
  obtain S where S: "window_holds (s_window s) S"
    using gw_inv_session [OF assms(1) s] by (auto simp: session_ok_def window_ok_def)
  obtain w where w: "accept (s_window s) c = (True, w)" using acc by (cases "accept (s_window s) c") auto
  then have "window_holds w (insert c S)" using window.acc_rel [OF S, of c] by simp
  then have "used (fst (framed C g p socket from now)) sid c"
    using h s assms(4) w
    by (auto simp: framed_def Let_def used_framed_done used_framed_req)
  from used_rejects [OF used_run [OF gw_inv_framed [OF assms(1)] this run evs] h] show ?thesis .
qed

text \<open>Here another device's handshake and a sweep come between.\<close>

lemma other_device:
  defines "g \<equiv> fst (framed toy gw1 (seal plain_aead phone_keys T_DONE 9 1 [0, 8]) 0 phone 5)"
    and "evs \<equiv> [Poll 6, Receive hello 0 phone (env0\<lparr>e_sid := 10\<rparr>), Sweep env0]"
  shows "\<exists>g'. gw_run toy g evs = Return g' \<and> map_of (g_sessions g') 10 \<noteq> None \<and> lives toy 9 g evs"
proof -
  define e10 where "e10 = env0\<lparr>e_sid := 10\<rparr>"
  define g1 where "g1 = fst (poll toy g 6)"
  define g2 where "g2 = fst (hello_seen g1 e10)"
  have acc: "fst (accept new_window 1)" by (simp add: accept_def new_window_def)
  obtain w where w: "accept new_window 1 = (True, w)" using acc by (cases "accept new_window 1") auto
  have "g = framed_done gw1 9 (heard_from gw1 sess0 w (seal plain_aead phone_keys T_DONE 9 1 [0, 8]) 0 phone 5) [0, 8] 5"
    using w by (simp add: g_def framed_def plain_aead_ok open_seal) (simp add: sess0_def)
  then obtain s where g: "g_sessions g = [(9, s)]" "g_handshakes g = []" "g_seen_ts g = []" "g_queue g = []"
    "g_working g = []" "g_keys g = [replicate 32 4]"
    by (simp add: framed_done_def get_prefix_def Let_def set_session_def gw1_def gw_new_def)
  then have g1: "g_sessions g1 = [(9, s)]" "g_handshakes g1 = []" "g_seen_ts g1 = []" "g_keys g1 = [replicate 32 4]"
    by (simp_all add: g1_def poll_def notices_def Let_def)
  have e10: "e_now_us e10 = 5000" "e_sid e10 = 10" "e_now e10 = 0" by (simp_all add: e10_def env0_def)
  obtain hs2 s10 where g2: "g_handshakes g2 = [(replicate 32 1, 0, 10, hs2)]" "view g2 = (view g1)(10 := Some (hide s10))"
    by (rule hello_started [OF g1(3,2) _ e10(1)]) (simp_all add: g1(1) g2_def e10 MAX_SESSIONS_def)
  have st: "gw_step toy g1 (Receive hello 0 phone e10) = Return g2"
    using hello_receive [OF g1(2,4), of e10] by (simp add: g2_def split: prod.split)
  have "gw_inv toy g1" unfolding g1_def g_def by (intro gw_inv_poll gw_inv_framed) simp
  then have inv: "gw_inv toy g2" by (rule gw.step_good [OF _ st])
  have some: "map_of (g_sessions g2) 9 \<noteq> None" "map_of (g_sessions g2) 10 \<noteq> None"
    using g1(1) by (simp_all only: map_of_view g2(2)) (simp_all add: view_def)
  have keep: "map_of (g_sessions (sweep g2 env0)) i \<noteq> None" if "map_of (g_sessions g2) i \<noteq> None" for i
    using that inv by (auto simp: gw_inv_def sweep_def Let_def map_of_map_snd map_of_filter_hm env0_def since_def SESSION_IDLE_def)
  have "\<not> starts (Receive hello 0 phone e10) g1 g2 9"
    by (simp add: starts_def hello_def get_prefix_def g2(1))
  then have "lives toy 9 g evs"
    using st some keep g1(1) by (simp add: evs_def e10_def [symmetric] g1_def [symmetric] starts_def del: gw_step.simps(1))
  moreover have "gw_run toy g evs = Return (sweep g2 env0)"
    using st by (simp add: evs_def e10_def [symmetric] g1_def [symmetric] del: gw_step.simps(1))
  ultimately show ?thesis using keep [OF some(2)] by blast
qed

theorem framed_replay_ignored_witness:
  "let p = seal plain_aead phone_keys T_DONE 9 1 [0, 8]; g = fst (framed toy gw1 p 0 phone 5);
     evs = [Poll 6, Receive hello 0 phone (env0\<lparr>e_sid := 10\<rparr>), Sweep env0]
   in \<exists>g'. gw_run toy g evs = Return g' \<and> map_of (g_sessions g') 10 \<noteq> None \<and>
        framed toy g' p 1 phone 7 = (g', None)"
proof -
  let ?p = "seal plain_aead phone_keys T_DONE 9 1 [0, 8]"
  have "header ?p = Some (T_DONE, 9, 1)" "open_packet (c_aead toy) (s_keys sess0) ?p \<noteq> None"
    by (simp_all add: plain_aead_ok open_seal)
  moreover have "fst (accept (s_window sess0) 1)" by (simp add: sess0_def accept_def new_window_def)
  ultimately show ?thesis
    unfolding Let_def using other_device framed_replay_ignored [OF gw1_inv _ gw1_session] by blast
qed

text \<open>
  A handshake runs its request at most once.  A message 1 that started a request, received
  again in the state it left, never starts a request: its ephemeral key is in the cache.
\<close>

theorem handshake_replay_ignored:
  assumes "receive C g p socket from e = Return (g1, Some nr)" and "p \<noteq> []" and "hd p = T_HS1"
    and "receive C g1 p socket' from' e' = Return (g2, r)"
  shows "r = None \<and> g_queue g2 = g_queue g1 \<and> g_seen_ts g2 = g_seen_ts g1"
proof -
  obtain rest where p: "p = T_HS1 # rest" using assms(2,3) by (cases p) auto
  have "handshake C g p socket from e = Return (g1, Some nr)" using assms(1) p by (simp add: receive_def)
  then obtain eph t0 sid hs2 where "get_prefix 32 (drop 1 p) = Some eph"
    "map_of (g_handshakes g1) eph = Some (t0, sid, hs2)" by (rule handshake_caches)
  then obtain g' where "handshake C g1 p socket' from' e' = Return (g', None)"
    "g_queue g' = g_queue g1" "g_seen_ts g' = g_seen_ts g1" by (rule handshake_cached)
  then show ?thesis using assms(4) p by (simp add: receive_def)
qed

theorem handshake_replay_ignored_witness:
  "\<exists>g1 nr g2. receive toy gw0 hello 0 phone env0 = Return (g1, Some nr) \<and>
     receive toy g1 hello 1 phone env0 = Return (g2, None)"
proof -
  obtain g1 nr where 1: "receive toy gw0 hello 0 phone env0 = Return (g1, Some nr)"
    using hello_received by blast
  have 2: "hello \<noteq> []" "hd hello = T_HS1" by (simp_all add: hello_def)
  have hs: "receive toy g hello k phone env0 = handshake toy g hello k phone env0" for g k
    by (simp add: receive_def hello_def)
  obtain eph t0 sid hs2 where "get_prefix 32 (drop 1 hello) = Some eph"
    "map_of (g_handshakes g1) eph = Some (t0, sid, hs2)"
    by (rule handshake_caches [OF 1 [unfolded hs]])
  then obtain g2 where "receive toy g1 hello 1 phone env0 = Return (g2, None)"
    unfolding hs by (rule handshake_cached)
  moreover from handshake_replay_ignored [OF 1 2 this] have "g_queue g2 = g_queue g1" by blast
  ultimately show ?thesis using 1 by blast
qed

text \<open>
  A message 1 with a stale or repeated timestamp starts nothing: no session, no packet, no
  request.
\<close>

theorem handshake_stale:
  assumes "map_of (g_seen_ts g) device = Some l"
    and "ts \<in> set l \<or> FRESH_MS * 1000 < abs_diff (e_now_us e) ts"
  shows "handshake_opened C g p socket from e eph hs device key ts req =
    (g\<lparr>g_seen_ts := AList.update device l (g_seen_ts g)\<rparr>, None)"
  using assms by (auto simp: handshake_opened_def)

theorem handshake_stale_witness:
  "handshake_opened toy (gw1\<lparr>g_seen_ts := [([2], [7])]\<rparr>) hello 0 phone env0 [] [] [2] [] 7 first_req =
    (gw1\<lparr>g_seen_ts := AList.update [2] [7] [([2], [7])]\<rparr>, None)"
  using handshake_stale [of "gw1\<lparr>g_seen_ts := [([2], [7])]\<rparr>" "[2]" "[7]" 7] by simp

lemma receive_panics:
  "receive C g p socket from e = Panic \<longleftrightarrow>
     (\<exists>rest eph hs payload device key. p = T_HS1 # rest \<and> get_prefix 32 rest = Some eph \<and>
        map_of (g_handshakes g) eph = None \<and>
        find_opened (c_noise C) (g_keys g) rest = Some (hs, payload, device, key) \<and> length payload < 8)"
  by (auto simp: receive_def handshake_def Let_def split: list.splits option.splits if_splits)

text \<open>
  C29: Where the gateway panics.  In every state that any run reaches from a new gateway, an
  event panics exactly when it is a message 1 that is not cached and opens under one of the keys
  to a payload shorter than its timestamp.  The other places where the code would panic are
  never reached with what would make it: the encoder succeeds on every body within the limit, a
  finished response always has repair symbols to take the next one from, and the conversions
  from seconds, of the spacing of any packet below 4 GiB at any rate and of the delay of a
  notice for any request, are always defined.  The hypothesis is that the encoder makes as many
  repair symbols as it is asked for.
\<close>

theorem gateway_panics_only:
  assumes run: "gw_run C (gw_new keys) evs = Return g"
    and rs: "\<And>body. length body \<le> MAX_RESPONSE \<Longrightarrow> \<exists>rec. rs_encode (c_rs C) (fst (shape (length body)))
      (repair_pool (fst (shape (length body)))) (padded_symbols body) = Some rec \<and>
      length rec = repair_pool (fst (shape (length body)))"
  shows "(gw_step C g ev = Panic \<longleftrightarrow> (\<exists>rest k src e eph hs payload device key. ev = Receive (T_HS1 # rest) k src e \<and>
      get_prefix 32 rest = Some eph \<and> map_of (g_handshakes g) eph = None \<and>
      find_opened (c_noise C) (g_keys g) rest = Some (hs, payload, device, key) \<and> length payload < 8)) \<and>
    (\<forall>sid s i t k n data repair next rounds. map_of (g_sessions g) sid = Some s \<longrightarrow>
      map_of (s_responses s) i = Some (Ready t k n data repair next rounds) \<longrightarrow>
      length data = k \<and> 0 < length repair) \<and>
    (\<forall>wire rate. wire < 4294967296 \<longrightarrow> dur_of_f64 (pace_secs wire rate) = Some (pace wire rate)) \<and>
    (\<forall>req. dur_of_f64 (working_secs req) \<noteq> None)"
proof (intro conjI allI impI)
  have enc: "fec_encode (c_rs C) body \<noteq> None" if "length body \<le> MAX_RESPONSE" for body
    using rs [OF that] by (auto simp: fec_encode_def Let_def)
  show "gw_step C g ev = Panic \<longleftrightarrow> (\<exists>rest k src e eph hs payload device key. ev = Receive (T_HS1 # rest) k src e \<and>
      get_prefix 32 rest = Some eph \<and> map_of (g_handshakes g) eph = None \<and>
      find_opened (c_noise C) (g_keys g) rest = Some (hs, payload, device, key) \<and> length payload < 8)"
  proof (cases ev)
    case (Receive p k src e)
    then show ?thesis using receive_panics [of C g p k src e] by (auto split: outcome.split)
  next
    case (Respond t body now)
    then show ?thesis
      using enc [of body] by (auto simp: respond_def Let_def simp flip: not_le split: option.split Resp.split)
  qed simp_all
next
  fix sid s i t k n data repair "next" rounds
  assume s: "map_of (g_sessions g) sid = Some s"
    and r: "map_of (s_responses s) i = Some (Ready t k n data repair next rounds)"
  have "gw_inv C g" by (rule gw.run_good [OF gw_inv_new run])
  then have "session_ok C s" by (rule gw_inv_session [OF _ s])
  then have "resp_ok C i (Ready t k n data repair next rounds)"
    using map_of_SomeD [OF r] by (auto simp: session_ok_def)
  then obtain body where b: "length body = n" "n \<le> MAX_RESPONSE" "k = fst (shape n)"
    and e: "fec_encode (c_rs C) body = Some (data, repair)"
    by (auto simp: resp_ok_def)
  then show "length data = k" by (auto simp: fec_encode_def Let_def bind_eq_Some_conv)
  have "length repair = repair_pool k"
    using e b rs [of body] by (auto simp: fec_encode_def Let_def)
  moreover have "k \<le> MAX_K" using shape_k_max [of n] b by simp
  ultimately show "0 < length repair" using repair_pool_bounds [of k] by (simp add: MAX_K_def)
qed (simp_all add: pace_defined working_defined)

theorem gateway_panics_only_witness:
  "gw_step toy (gw_new [[4]]) (Receive (T_HS1 # replicate 103 1) 0 phone env0) = Panic"
  using gateway_panics_only [of toy "[[4]]" "[]" "gw_new [[4]]" "Receive (T_HS1 # replicate 103 1) 0 phone env0"]
  by (simp add: repeat_rs_def get_prefix_def gw_new_def clear_noise_def)

text \<open>
  What a sweep keeps: exactly the sessions heard from within \<open>SESSION_IDLE\<close>, each with
  exactly its pending requests younger than \<open>PENDING_KEEP\<close> and its finished responses younger
  than \<open>RESPONSE_KEEP\<close>; a device's seen timestamps that are still fresh are never forgotten.
\<close>

theorem sweep_keeps:
  assumes "gw_inv C g"
  shows "map_of (g_sessions (sweep g e)) sid =
      (case map_of (g_sessions g) sid of None \<Rightarrow> None
       | Some s \<Rightarrow> if since (e_now e) (s_heard s) < SESSION_IDLE
           then Some (s\<lparr>s_responses := filter (\<lambda>(_, r). keep_response (e_now e) r) (s_responses s)\<rparr>)
           else None) \<and>
    (\<forall>dev l ts. (dev, l) \<in> set (g_seen_ts g) \<and> ts \<in> set l \<and> abs_diff (e_now_us e) ts \<le> FRESH_MS * 1000 \<longrightarrow>
       (\<exists>l'. (dev, l') \<in> set (g_seen_ts (sweep g e)) \<and> ts \<in> set l'))"
proof (intro conjI allI impI)
  have "hm_ok (g_sessions g)" using assms by (simp add: gw_inv_def)
  then show "map_of (g_sessions (sweep g e)) sid =
      (case map_of (g_sessions g) sid of None \<Rightarrow> None
       | Some s \<Rightarrow> if since (e_now e) (s_heard s) < SESSION_IDLE
           then Some (s\<lparr>s_responses := filter (\<lambda>(_, r). keep_response (e_now e) r) (s_responses s)\<rparr>)
           else None)"
    by (auto simp: sweep_def Let_def map_of_map_snd map_of_filter_hm split: option.split)
next
  fix dev l ts
  assume "(dev, l) \<in> set (g_seen_ts g) \<and> ts \<in> set l \<and> abs_diff (e_now_us e) ts \<le> FRESH_MS * 1000"
  then have in': "(dev, l) \<in> set (g_seen_ts g)" "ts \<in> set l" "unat (e_now_us e) - FRESH_MS * 2000 \<le> unat ts"
    by (auto simp: abs_diff_def split: if_splits)
  let ?l = "filter (\<lambda>ts. unat (e_now_us e) - FRESH_MS * 2000 \<le> unat ts) l"
  have ts: "ts \<in> set ?l" using in' by simp
  then have "?l \<noteq> []" by (cases ?l) simp_all
  moreover have "(dev, ?l) \<in> set (map (\<lambda>(d, l). (d, filter (\<lambda>ts. unat (e_now_us e) - FRESH_MS * 2000 \<le> unat ts) l)) (g_seen_ts g))"
    unfolding set_map by (rule image_eqI [OF _ in'(1)]) simp
  ultimately have "(dev, ?l) \<in> set (g_seen_ts (sweep g e))"
    unfolding sweep_def Let_def by simp
  with ts show "\<exists>l'. (dev, l') \<in> set (g_seen_ts (sweep g e)) \<and> ts \<in> set l'" by blast
qed

theorem sweep_keeps_witness:
  "map_of (g_sessions (sweep gw1 env0)) 9 = Some sess0"
  using sweep_keeps [OF gw1_inv, of env0 9]
  by (simp add: env0_def since_def sess0_def SESSION_IDLE_def keep_response_def PENDING_KEEP_def)

end
