(* ===== verification/WireClient.thy ===== *)
theory WireClient
  imports GatewayState
begin

section \<open>The phone side of the transport (vtop-wire/src/client.rs)\<close>

text \<open>
  One request and one response: the saved session and its slot, the exchange as a machine that
  takes datagrams and expired timers, the handshake, and \<^verbatim>\<open>fetch\<close>, which chooses between
  them.  Sockets, the clock and the files are the environment: \<open>cl_oks\<close> says which sends of a
  step succeed, each event carries its time, and the slot's file is a string.  Noise is a
  parameter as it is for the gateway.
\<close>

subsection \<open>Constants and errors\<close>

definition COUNTER_BLOCK :: u32 where "COUNTER_BLOCK = 1024"
definition REKEY_MS :: nat where "REKEY_MS = 24 * 3600 * 1000"
definition SLOTS :: nat where "SLOTS = 4"

datatype WireError = Unreachable | Timeout | TooLarge | WrongKey | Io string

definition wire_error_text :: "WireError \<Rightarrow> string" where
  "wire_error_text e = (case e of
     Unreachable \<Rightarrow> ''the UDP gateway did not answer''
   | Timeout \<Rightarrow> ''the UDP response did not complete in time''
   | TooLarge \<Rightarrow> ''the request is too large for UDP''
   | WrongKey \<Rightarrow> ''the UDP gateway has another key''
   | Io m \<Rightarrow> ''UDP transport: '' @ m)"

subsection \<open>The saved session\<close>

record Saved =
  sv_sid :: u32
  sv_send :: bytes
  sv_recv :: bytes
  sv_next_ctr :: u32
  sv_port :: nat
  sv_created_ms :: u64
  sv_reset :: bytes
  sv_gateway :: bytes

text \<open>\<^verbatim>\<open>unhex(text)?.try_into().ok()?\<close>: bytes of a fixed length.\<close>

definition unhex_n :: "nat \<Rightarrow> string \<Rightarrow> bytes option" where
  "unhex_n n s = do { b \<leftarrow> unhex s; if length b = n then Some b else None }"

definition saved_parse :: "string \<Rightarrow> Saved option" where
  "saved_parse text =
     (case split_whitespace text of
        [sid, send, recv, nxt, port, created, reset, gateway] \<Rightarrow>
          do { i \<leftarrow> parse_uint (2 ^ 32) sid;
               ks \<leftarrow> unhex_n 32 send;
               kr \<leftarrow> unhex_n 32 recv;
               c \<leftarrow> parse_uint (2 ^ 32) nxt;
               p \<leftarrow> parse_uint (2 ^ 64) port;
               ms \<leftarrow> parse_uint (2 ^ 64) created;
               rt \<leftarrow> unhex_n RESET_TOKEN reset;
               gk \<leftarrow> unhex_n 32 gateway;
               Some \<lparr>sv_sid = of_nat i, sv_send = ks, sv_recv = kr, sv_next_ctr = of_nat c, sv_port = p,
                     sv_created_ms = of_nat ms, sv_reset = rt, sv_gateway = gk\<rparr> }
      | _ \<Rightarrow> None)"

definition saved_format :: "Saved \<Rightarrow> string" where
  "saved_format s = unwords [show_nat (unat (sv_sid s)), hex (sv_send s), hex (sv_recv s),
     show_nat (unat (sv_next_ctr s)), show_nat (sv_port s), show_nat (unat (sv_created_ms s)),
     hex (sv_reset s), hex (sv_gateway s)]"

definition saved_ok :: "Saved \<Rightarrow> bool" where
  "saved_ok s \<longleftrightarrow> length (sv_send s) = 32 \<and> length (sv_recv s) = 32 \<and> length (sv_reset s) = RESET_TOKEN \<and>
     length (sv_gateway s) = 32 \<and> sv_port s < 2 ^ 64"

lemma unhex_n_hex [simp]: "unhex_n n (hex b) = (if length b = n then Some b else None)"
  by (simp add: unhex_n_def)

lemma u64_bound: "unat (w :: u64) < 18446744073709551616"
  using unsigned_less [of w, where ?'a = nat] by simp

lemma saved_parse_format:
  assumes "saved_ok s" shows "saved_parse (saved_format s) = Some s"
proof -
  have ne: "sv_send s \<noteq> []" "sv_recv s \<noteq> []" "sv_reset s \<noteq> []" "sv_gateway s \<noteq> []"
    using assms by (auto simp: saved_ok_def sizes)
  have split: "split_whitespace (saved_format s) = [show_nat (unat (sv_sid s)), hex (sv_send s), hex (sv_recv s),
     show_nat (unat (sv_next_ctr s)), show_nat (sv_port s), show_nat (unat (sv_created_ms s)),
     hex (sv_reset s), hex (sv_gateway s)]"
    unfolding saved_format_def by (rule split_unwords) (use ne in auto)
  show ?thesis
    unfolding saved_parse_def split using assms
    by (simp add: saved_ok_def u32_bound u64_bound)
qed

subsection \<open>The slot\<close>

text \<open>The first slot whose file opens and whose lock is free.\<close>

definition slot_claim :: "(nat \<Rightarrow> bool) \<Rightarrow> (nat \<Rightarrow> bool) \<Rightarrow> nat option" where
  "slot_claim opens lock_free = find (\<lambda>i. opens i \<and> lock_free i) [0..<SLOTS]"

definition slot_read :: "string option \<Rightarrow> Saved option" where
  "slot_read content = do { text \<leftarrow> content; saved_parse text }"

text \<open>
  \<^verbatim>\<open>Slot::write\<close>: truncate, rewind, write, sync; each may fail.  The result says whether all
  succeeded; \<open>part\<close> is how much a failing write leaves behind.
\<close>

record slot_io =
  io_truncate :: bool
  io_seek :: bool
  io_write :: bool
  io_part :: nat
  io_sync :: bool

definition slot_write :: "slot_io \<Rightarrow> Saved \<Rightarrow> string \<Rightarrow> bool \<times> string" where
  "slot_write io saved file =
     (if \<not> io_truncate io then (False, file)
      else if \<not> io_seek io then (False, [])
      else if \<not> io_write io then (False, take (io_part io) (saved_format saved))
      else (io_sync io, saved_format saved))"

lemma slot_write_ok:
  "slot_write io saved file = (True, file') \<Longrightarrow> file' = saved_format saved"
  by (auto simp: slot_write_def split: if_splits)

subsection \<open>A run's view of the network\<close>

record Round =
  ro_len :: "u8 option"
  ro_maxpos :: int
  ro_requested :: nat
  ro_sent_at :: instant
  ro_received :: nat

text \<open>\<open>c_out\<close> logs what was handed to the socket: port and packet.\<close>

record Run =
  c_ip :: IpAddr
  c_ports :: "u16 list"
  c_server_key :: bytes
  c_device :: bytes
  c_link :: Link
  c_deadline :: instant
  c_up :: nat
  c_down :: nat
  c_retries :: nat
  c_heard :: bool
  c_out :: "(u16 \<times> bytes) list"

text \<open>\<^verbatim>\<open>send\<close>: once or twice; only sends that succeed are counted.\<close>

definition cl_send :: "bool list \<Rightarrow> nat \<Rightarrow> bytes \<Rightarrow> bool \<Rightarrow> Run \<Rightarrow> Run" where
  "cl_send oks port packet dup r =
     (let copies = (if dup then 2 else 1);
          to_port = c_ports r ! (port mod length (c_ports r));
          sent = length (filter id (take copies oks))
      in r\<lparr>c_up := c_up r + sent * (length packet + IP_UDP),
           c_out := c_out r @ replicate copies (to_port, packet)\<rparr>)"

text \<open>\<^verbatim>\<open>recv\<close>: a datagram from another address is as if it had not come.\<close>

definition cl_recv :: "IpAddr \<Rightarrow> bytes \<Rightarrow> Run \<Rightarrow> Run option" where
  "cl_recv src packet r =
     (if src = c_ip r then Some (r\<lparr>c_down := c_down r + length packet + IP_UDP, c_heard := True\<rparr>)
      else None)"

definition cl_failure :: "Run \<Rightarrow> WireError" where
  "cl_failure r = (if c_heard r then Timeout else Unreachable)"

text \<open>\<^verbatim>\<open>request\<close>: what every request tells the gateway about the link.\<close>

definition mk_request :: "Link \<Rightarrow> u16 \<Rightarrow> u8 \<Rightarrow> u8 \<Rightarrow> bytes option \<Rightarrow> u32 \<Rightarrow> Req" where
  "mk_request l req_id rnd want body last_ctr =
     \<lparr>rq_req_id = req_id, rq_round = rnd, rq_want = want, rq_loss_pct = loss_pct l,
      rq_rate = (if l_measured l then of_nat (f_to_nat 65535 (f_min (l_rate l) (Fin 65535))) else 0),
      rq_rtt_ms = of_nat (f_to_nat 65535 (f_mul (l_rtt l) (Fin 1000))),
      rq_last_ctr = last_ctr, rq_body = (case body of None \<Rightarrow> [] | Some b \<Rightarrow> b)\<rparr>"

text \<open>Symbols still due in bursts of known length, and symbols requested of silent rounds.\<close>

definition outstanding :: "(u8, Round) hmap \<Rightarrow> nat \<times> nat" where
  "outstanding rounds =
     foldl (\<lambda>(due, pending) r. case ro_len r of
         Some len \<Rightarrow> (due + nat (max (int (unat len) - 1 - ro_maxpos r) 0), pending)
       | None \<Rightarrow> (due, pending + ro_requested r)) (0, 0) (hm_values rounds)"

subsection \<open>The exchange\<close>

record Exchange =
  x_run :: Run
  x_body :: bytes
  x_req_id :: u16
  x_new :: bool
  x_keys :: Keys
  x_saved :: Saved
  x_ctr :: u32
  x_end :: u32
  x_got :: "(u8, bytes) hmap"
  x_k :: "nat option"
  x_rounds :: "(u8, Round) hmap"
  x_next_round :: u8
  x_last_ctr :: u32
  x_last :: "(instant \<times> u8 \<times> int) option"
  x_last_full :: "(instant \<times> u8 \<times> int) option"
  x_working :: "instant option"
  x_backoff :: f64
  x_acked :: bool
  x_rate_samples :: nat
  x_first_wire :: nat
  x_lost :: nat
  x_sent :: nat

definition x_loop ::
  "Run \<Rightarrow> bytes \<Rightarrow> u16 \<Rightarrow> bool \<Rightarrow> Keys \<Rightarrow> Saved \<Rightarrow> u32 \<Rightarrow> u32 \<Rightarrow> instant option \<Rightarrow> nat \<Rightarrow> nat \<Rightarrow> instant \<Rightarrow> Exchange" where
  "x_loop run body req_id new keys saved ctr end_ctr hs2_at lost sent now =
     \<lparr>x_run = run, x_body = body, x_req_id = req_id, x_new = new, x_keys = keys, x_saved = saved,
      x_ctr = ctr, x_end = end_ctr, x_got = [], x_k = None,
      x_rounds = [(0, \<lparr>ro_len = None, ro_maxpos = - 1, ro_requested = 1, ro_sent_at = now, ro_received = 0\<rparr>)],
      x_next_round = 1, x_last_ctr = 0, x_last = map_option (\<lambda>t. (t, 0, - 1)) hs2_at, x_last_full = None,
      x_working = None, x_backoff = Fin 0, x_acked = False, x_rate_samples = 0,
      x_first_wire = (if duplicate (c_link run) then 2 * (length body + 60) else length body + 60),
      x_lost = lost, x_sent = sent\<rparr>"

text \<open>
  The exchange on a saved session begins by reserving a block of counters in the slot's file;
  nothing is sent when that fails.  \<open>slot\<close> is the file and the outcome of writing it.
\<close>

definition x_start_saved ::
  "aead \<Rightarrow> bool list \<Rightarrow> Run \<Rightarrow> bytes \<Rightarrow> u16 \<Rightarrow> Saved \<Rightarrow> (slot_io \<times> string) option \<Rightarrow> instant \<Rightarrow>
   (WireError + Exchange) \<times> string option" where
  "x_start_saved A oks run body req_id s slot now =
     (let end_ctr = sv_next_ctr s + COUNTER_BLOCK;
          (reserved, file) = (case slot of None \<Rightarrow> (True, None)
            | Some (io, f) \<Rightarrow> apsnd Some (slot_write io (s\<lparr>sv_next_ctr := end_ctr\<rparr>) f))
      in if \<not> reserved then (Inl (Io ''cannot save the session''), file)
         else
           (let keys = \<lparr>k_send = sv_send s, k_recv = sv_recv s\<rparr>;
                packet = seal A keys T_REQ (sv_sid s) (sv_next_ctr s)
                  (req_encode (mk_request (c_link run) req_id 0 0 (Some body) 0));
                run' = cl_send oks (sv_port s) packet (duplicate (c_link run)) run
            in (Inr (x_loop run' body req_id False keys s (sv_next_ctr s + 1) end_ctr None 0 0 now), file)))"

text \<open>The exchange on a new session: the request went in message 1.\<close>

definition x_start_new ::
  "Run \<Rightarrow> bytes \<Rightarrow> u16 \<Rightarrow> Keys \<Rightarrow> Saved \<Rightarrow> instant option \<Rightarrow> nat \<Rightarrow> nat \<Rightarrow> instant \<Rightarrow> Exchange" where
  "x_start_new run body req_id keys s hs2_at lost sent now =
     x_loop run body req_id True keys s 0 COUNTER_BLOCK hs2_at lost sent now"

text \<open>\<^verbatim>\<open>ask\<close>: seals and sends a request for \<open>want\<close> more, and opens its round.\<close>

definition x_ask :: "aead \<Rightarrow> bool list \<Rightarrow> instant \<Rightarrow> Req \<Rightarrow> nat \<Rightarrow> Exchange \<Rightarrow> Exchange" where
  "x_ask A oks now rq want x =
     (let packet = seal A (x_keys x) T_REQ (sv_sid (x_saved x)) (x_ctr x) (req_encode rq);
          run = cl_send oks (sv_port (x_saved x)) packet (duplicate (c_link (x_run x))) (x_run x)
      in x\<lparr>x_ctr := x_ctr x + 1, x_run := run\<lparr>c_retries := c_retries run + 1\<rparr>,
           x_rounds := AList.update (rq_round rq)
             \<lparr>ro_len = None, ro_maxpos = - 1, ro_requested = want, ro_sent_at = now, ro_received = 0\<rparr>
             (x_rounds x),
           x_next_round := max (x_next_round x + 1) 1\<rparr>)"

text \<open>A reset counts only with this session's token, and not for a session just made.\<close>

definition x_is_reset :: "Exchange \<Rightarrow> bytes \<Rightarrow> bool" where
  "x_is_reset x packet \<longleftrightarrow>
     (packet \<noteq> [] \<and> packet ! 0 = T_RESET) \<and> length packet = 5 + RESET_TOKEN \<and>
     take 4 (drop 1 packet) = be32 (sv_sid (x_saved x)) \<and>
     same_token (drop 5 packet) (sv_reset (x_saved x)) \<and> \<not> x_new x"

text \<open>The gateway has the request and is working on it.\<close>

definition x_working_notice :: "bytes \<Rightarrow> instant \<Rightarrow> Exchange \<Rightarrow> Exchange" where
  "x_working_notice plain t x =
     (if get_prefix 2 plain = Some (be16 (x_req_id x)) \<and> x_k x = None then
        x\<lparr>x_sent := (if x_working x = None then x_sent x + 1 else x_sent x),
          x_rounds := map (\<lambda>(i, r). (i, if ro_len r = None then r\<lparr>ro_requested := 0\<rparr> else r)) (x_rounds x),
          x_working := Some t, x_backoff := Fin 0\<rparr>
      else x)"

text \<open>What a symbol teaches about the link's rate.\<close>

definition x_learn_rate :: "nat \<Rightarrow> Data \<Rightarrow> instant \<Rightarrow> Exchange \<Rightarrow> Exchange" where
  "x_learn_rate wire d t x =
     (let full = f_le (f_mul (flit (9 / 10)) (f_of_nat DATA_WIRE)) (f_of_nat wire);
          pos = int (unat (d_pos d));
          x1 = (case x_last_full x of None \<Rightarrow> x
            | Some (t0, r0, p0) \<Rightarrow>
                if full \<and> r0 = d_round d \<and> pos = p0 + 1 then
                  (let per = dur_to_f64 (since t t0)
                   in if f_lt (flit (2 / 1000)) per then
                        x\<lparr>x_run := (x_run x)\<lparr>c_link := sample_rate wire per (x_rate_samples x = 0) (c_link (x_run x))\<rparr>,
                          x_rate_samples := x_rate_samples x + 1\<rparr>
                      else x)
                else x)
      in x1\<lparr>x_last_full := (if full then Some (t, d_round d, pos) else None),
            x_last := Some (t, d_round d, pos)\<rparr>)"

text \<open>The symbol is entered in its round and kept, the first of its index.\<close>

definition x_keep_symbol :: "Data \<Rightarrow> instant \<Rightarrow> Exchange \<Rightarrow> Exchange" where
  "x_keep_symbol d t x =
     (let r = (case map_of (x_rounds x) (d_round d) of Some r \<Rightarrow> r
            | None \<Rightarrow> \<lparr>ro_len = None, ro_maxpos = - 1, ro_requested = 0, ro_sent_at = t, ro_received = 0\<rparr>);
          r' = r\<lparr>ro_len := Some (d_len d), ro_maxpos := max (ro_maxpos r) (int (unat (d_pos d))),
                 ro_received := ro_received r + 1\<rparr>
      in x\<lparr>x_rounds := AList.update (d_round d) r' (x_rounds x), x_k := Some (unat (d_k d)),
           x_got := (case map_of (x_got x) (d_sym d) of Some _ \<Rightarrow> x_got x
             | None \<Rightarrow> AList.update (d_sym d) (d_bytes d) (x_got x))\<rparr>)"

text \<open>The first symbol is acknowledged, which proves this address to the gateway.\<close>

definition x_ack :: "aead \<Rightarrow> bool list \<Rightarrow> Exchange \<Rightarrow> Exchange" where
  "x_ack A oks x =
     (if x_acked x then x
      else
        (let packet = seal A (x_keys x) T_REQ (sv_sid (x_saved x)) (x_ctr x)
               (req_encode (mk_request (c_link (x_run x)) (x_req_id x) 0 0 None (x_last_ctr x)))
         in x\<lparr>x_ctr := x_ctr x + 1, x_run := cl_send oks (sv_port (x_saved x)) packet False (x_run x),
              x_acked := True\<rparr>))"

datatype progress =
    Going Exchange
  | Reset_seen
  | Failed WireError
  | Enough "bytes option" Exchange

text \<open>A symbol of this request: learn, keep, acknowledge, and decode or ask for what is missing.\<close>

definition x_symbol ::
  "aead \<Rightarrow> rs_code \<Rightarrow> bool list \<Rightarrow> instant \<Rightarrow> bytes \<Rightarrow> Data \<Rightarrow> instant \<Rightarrow> Exchange \<Rightarrow> progress" where
  "x_symbol A R oks now packet d t x =
     (let x1 = x\<lparr>x_working := None, x_backoff := Fin 0\<rparr>;
          x2 = x_learn_rate (length packet + IP_UDP) d t x1;
          x3 = x_ack A (take 1 oks) (x_keep_symbol d t x2);
          kk = unat (d_k d)
      in if kk \<le> length (x_got x3) then Enough (fec_decode R (unat (d_total d)) (x_got x3)) x3
         else
           (let (due, pending) = outstanding (x_rounds x3)
            in if length (x_got x3) + due + pending < kk then
                 (let deficit = kk - length (x_got x3) - due - pending;
                      want = deficit + extra_for deficit (loss (c_link (x_run x3)));
                      rq = mk_request (c_link (x_run x3)) (x_req_id x3) (x_next_round x3) (of_nat want) None
                        (x_last_ctr x3)
                  in Going (x_ask A (drop 1 oks) now rq want x3))
               else Going x3))"

definition x_packet ::
  "aead \<Rightarrow> rs_code \<Rightarrow> bool list \<Rightarrow> instant \<Rightarrow> instant \<Rightarrow> bytes \<Rightarrow> Exchange \<Rightarrow> progress" where
  "x_packet A R oks now t packet x =
     (if x_is_reset x packet then Reset_seen
      else case open_packet A (x_keys x) packet of
        None \<Rightarrow> Going x
      | Some opened \<Rightarrow>
          (let x1 = x\<lparr>x_last_ctr := max (x_last_ctr x) (o_ctr opened + 1)\<rparr>
           in if o_ptype opened = T_WORKING then Going (x_working_notice (o_plain opened) t x1)
              else if o_ptype opened \<noteq> T_DATA then Going x1
              else (case data_decode (o_plain opened) of
                  None \<Rightarrow> Going x1
                | Some d \<Rightarrow> if d_req_id d \<noteq> x_req_id x then Going x1
                            else x_symbol A R oks now packet d t x1)))"

text \<open>
  The timer expired: what was outstanding is presumed lost, and asked for again with a longer
  wait; at the deadline the exchange fails.
\<close>

definition x_presume_lost :: "Exchange \<Rightarrow> Exchange" where
  "x_presume_lost x =
     (let silent = length (filter (\<lambda>r. ro_len r = None \<and> 0 < ro_requested r \<and> ro_received r = 0 \<and>
            x_working x = None) (hm_values (x_rounds x)))
      in x\<lparr>x_lost := x_lost x + silent, x_sent := x_sent x + silent,
           x_rounds := map (\<lambda>(i, r). (i, r\<lparr>ro_maxpos := (case ro_len r of
               Some len \<Rightarrow> int (unat len) - 1 | None \<Rightarrow> ro_maxpos r), ro_requested := 0\<rparr>)) (x_rounds x)\<rparr>)"

text \<open>Nothing yet: probe for one symbol.  Otherwise what is missing, and a few more.\<close>

definition x_want :: "Exchange \<Rightarrow> nat" where
  "x_want x = (case x_k x of None \<Rightarrow> 1
     | Some kk \<Rightarrow> let deficit = kk - length (x_got x) in deficit + extra_for deficit (loss (c_link (x_run x))))"

definition x_retry_request :: "Exchange \<Rightarrow> Req" where
  "x_retry_request x =
     (let with_body = x_k x = None \<and> x_working x = None \<and> \<not> c_heard (x_run x)
      in mk_request (c_link (x_run x)) (x_req_id x) (x_next_round x) (of_nat (x_want x))
           (if with_body then Some (x_body x) else None) (x_last_ctr x))"

definition x_note_retry :: "instant \<Rightarrow> Req \<Rightarrow> Exchange \<Rightarrow> Exchange" where
  "x_note_retry now rq x =
     x\<lparr>x_first_wire := length (req_encode rq) + 25 + IP_UDP,
       x_rounds := (if x_last x = None
         then hm_adjust 0 (\<lambda>r. r\<lparr>ro_sent_at := now\<rparr>) (x_rounds x) else x_rounds x),
       x_working := (if x_working x = None then None else Some now)\<rparr>"

definition x_retry :: "aead \<Rightarrow> bool list \<Rightarrow> instant \<Rightarrow> Exchange \<Rightarrow> Exchange" where
  "x_retry A oks now x =
     (let rq = x_retry_request x;
          x' = x_ask A oks now rq (x_want x) (x_note_retry now rq x)
      in x'\<lparr>x_backoff := f_min (f_add (f_mul (x_backoff x') (flit (15 / 10))) (slack (c_link (x_run x'))))
           (Fin 32)\<rparr>)"

definition x_timeout :: "aead \<Rightarrow> bool list \<Rightarrow> instant \<Rightarrow> Exchange \<Rightarrow> progress" where
  "x_timeout A oks now x =
     (if c_deadline (x_run x) \<le> now then Failed (cl_failure (x_run x))
      else Going (x_retry A oks now (x_presume_lost x)))"

text \<open>Decoded: the gateway is told, the link learns from the rounds, and the counter is kept.\<close>

definition x_learn_loss :: "Exchange \<Rightarrow> Run" where
  "x_learn_loss x =
     (let rs = filter (\<lambda>r. ro_len r \<noteq> None) (hm_values (x_rounds x));
          seen = (\<lambda>r. nat (ro_maxpos r + 1));
          sent = x_sent x + sum_list (map (\<lambda>r. seen r + 1) rs);
          lost = x_lost x + sum_list (map (\<lambda>r. seen r - ro_received r) rs)
      in (x_run x)\<lparr>c_link := observe lost sent (c_link (x_run x))\<rparr>)"

definition x_finish :: "aead \<Rightarrow> bool list \<Rightarrow> Exchange \<Rightarrow> Run \<times> Saved" where
  "x_finish A oks x =
     (let packet = seal A (x_keys x) T_DONE (sv_sid (x_saved x)) (x_ctr x) (be16 (x_req_id x));
          ctr = x_ctr x + 1;
          x1 = x\<lparr>x_run := cl_send oks (sv_port (x_saved x)) packet (duplicate (c_link (x_run x))) (x_run x)\<rparr>
      in (x_learn_loss x1, (x_saved x)\<lparr>sv_next_ctr := max (x_end x) ctr\<rparr>))"

text \<open>When the exchange stops waiting; \<open>None\<close> is a panic of the duration's conversion.\<close>

definition x_timer :: "Exchange \<Rightarrow> instant \<Rightarrow> instant option" where
  "x_timer x now =
     (let link = c_link (x_run x)
      in case x_working x of
           Some w \<Rightarrow> map_option ((+) w) (dur_of_f64 (f_add (f_add
             (f_max (Fin 3) (f_mul (Fin 2) (f_add (l_rtt link) (slack link)))) (packet_time link)) (x_backoff x)))
         | None \<Rightarrow>
             (case x_last x of
                None \<Rightarrow>
                  (let r0 = (case map_of (x_rounds x) 0 of Some r \<Rightarrow> ro_sent_at r | None \<Rightarrow> now);
                       s = f_add (f_add (f_mul (flit (15 / 10)) (f_add (l_rtt link)
                             (f_div (f_add (f_of_nat (x_first_wire x)) (f_of_nat DATA_WIRE)) (l_rate link))))
                             (slack link)) (x_backoff x)
                   in map_option ((+) r0) (dur_of_f64 s))
              | Some (t, _, _) \<Rightarrow>
                  (let due = fst (outstanding (x_rounds x));
                       end0 = f_add (f_neg (dur_to_f64 (since now t))) (f_mul (packet_time link) (f_of_nat due));
                       end' = foldl (\<lambda>e r.
                         let earliest = f_add (f_add (f_neg (dur_to_f64 (since now (ro_sent_at r)))) (l_rtt link))
                               (f_div (Fin 160) (l_rate link))
                         in f_add (f_max e earliest) (f_mul (packet_time link) (f_of_nat (ro_requested r))))
                         end0 (filter (\<lambda>r. ro_len r = None \<and> 0 < ro_requested r) (hm_values (x_rounds x)));
                       s = f_add (f_add end' (slack link)) (x_backoff x)
                   in map_option ((+) now) (dur_of_f64 (f_max s (flit (1 / 100)))))))"

end
