(* ===== verification/WireFetch.thy ===== *)
theory WireFetch
  imports WireClient
begin

section \<open>The handshake and the whole fetch (vtop-wire/src/client.rs)\<close>

text \<open>
  The initiator's handshake as a machine (attempts, datagrams, expired waits), and \<^verbatim>\<open>fetch\<close>
  as a machine over its two phases: it starts from the saved session or a new one, restarts
  once after a reset, and ends with the body or an error.
\<close>

subsection \<open>Noise, the initiator\<close>

text \<open>
  \<open>in_write device server eph payload\<close>: message 1 and the state that waits for message 2, or an
  error.  \<open>in_read hs msg2\<close>: the payload of message 2 and the two keys.
\<close>

record inoise =
  in_write :: "bytes \<Rightarrow> bytes \<Rightarrow> bytes \<Rightarrow> bytes \<Rightarrow> string + (bytes \<times> bytes)"
  in_read :: "bytes \<Rightarrow> bytes \<Rightarrow> (bytes \<times> bytes \<times> bytes) option"

record cl_env =
  cl_now :: instant
  cl_now_us :: u64
  cl_now_ms :: u64
  cl_eph :: bytes
  cl_req_id :: u16
  cl_oks :: "bool list"
  cl_slot_io :: slot_io

subsection \<open>The handshake\<close>

record Hand =
  h_run :: Run
  h_msg1 :: bytes
  h_hs :: "bytes option"
  h_dup :: bool
  h_base :: f64
  h_wait :: f64
  h_attempt :: nat
  h_port :: nat
  h_t0 :: instant
  h_early :: "(instant \<times> bytes) list"
  h_lost :: nat
  h_sent :: nat
  h_first :: u8

text \<open>One attempt: the next port, and message 1 sent; none after the deadline.\<close>

definition h_send :: "cl_env \<Rightarrow> Hand \<Rightarrow> WireError + Hand" where
  "h_send e h =
     (let run = h_run h
      in if c_deadline run \<le> cl_now e then Inl (cl_failure run)
         else
           (let port = (l_port (c_link run) + h_attempt h) mod length (c_ports run);
                again = (if 0 < h_attempt h then 1 else 0);
                run1 = run\<lparr>c_retries := c_retries run + again\<rparr>
            in Inr (h\<lparr>h_run := cl_send (cl_oks e) port (h_msg1 h) (h_dup h) run1, h_port := port,
                      h_t0 := cl_now e, h_lost := h_lost h + again, h_sent := h_sent h + again\<rparr>)))"

definition h_start :: "inoise \<Rightarrow> cl_env \<Rightarrow> Run \<Rightarrow> bytes \<Rightarrow> u16 \<Rightarrow> WireError + Hand" where
  "h_start N e run body req_id =
     (case in_write N (c_device run) (c_server_key run) (cl_eph e)
        (be64 (cl_now_us e) @ req_encode (mk_request (c_link run) req_id 0 0 (Some body) 0)) of
        Inl m \<Rightarrow> Inl (Io m)
      | Inr (hs, msg1) \<Rightarrow>
          (let packet = T_HS1 # msg1;
               dup = duplicate (c_link run);
               copies = (if dup then Fin 2 else Fin 1);
               base = f_add (f_mul (flit (15 / 10)) (f_add (l_rtt (c_link run))
                 (f_div (f_add (f_mul copies (f_of_nat (length packet + IP_UDP))) (Fin 81)) (l_rate (c_link run)))))
                 (slack (c_link run))
           in h_send e \<lparr>h_run = run, h_msg1 = packet, h_hs = Some hs, h_dup = dup, h_base = base,
                h_wait = base, h_attempt = 0, h_port = 0, h_t0 = 0, h_early = [], h_lost = 0, h_sent = 0,
                h_first = 0\<rparr>))"

text \<open>How long the attempt waits after \<open>sent\<close>; \<open>None\<close> is a panic of the conversion.\<close>

definition h_until :: "Hand \<Rightarrow> instant \<Rightarrow> instant option" where
  "h_until h sent = map_option ((+) sent) (dur_of_f64 (h_wait h))"

text \<open>The wait is over: the next attempt waits half as long again.\<close>

definition h_expired :: "cl_env \<Rightarrow> Hand \<Rightarrow> WireError + Hand" where
  "h_expired e h =
     h_send e (h\<lparr>h_attempt := h_attempt h + 1,
       h_wait := f_min (f_mul (h_wait h) (flit (15 / 10))) (f_add (h_base h) (Fin 32))\<rparr>)"

datatype hand_result =
    Shaking Hand
  | Hand_failed WireError
  | Shaken Keys Saved Hand instant

text \<open>
  Message 2.  Its payload is the session id and the reset token; with a measured rate its delay
  is a sample of the round trip.
\<close>

definition h_message2 :: "inoise \<Rightarrow> cl_env \<Rightarrow> bytes \<Rightarrow> Hand \<Rightarrow> hand_result" where
  "h_message2 N e packet h =
     (case Option.bind (h_hs h) (\<lambda>hs. in_read N hs (drop 5 packet)) of
        None \<Rightarrow> Shaking h
      | Some (payload, send, recv) \<Rightarrow>
          if length payload \<noteq> 4 + RESET_TOKEN then Shaking (h\<lparr>h_hs := None\<rparr>)
          else
            (let run = h_run h;
                 link = c_link run;
                 copies = (if h_dup h then Fin 2 else Fin 1);
                 s = f_sub (dur_to_f64 (since (cl_now e) (h_t0 h)))
                   (f_div (f_add (f_mul copies (f_of_nat (length (h_msg1 h) + IP_UDP)))
                      (f_of_nat (length packet + IP_UDP))) (l_rate link));
                 link1 = (if h_attempt h = 0 \<and> l_measured link then sample_rtt s link else link)
             in Shaken \<lparr>k_send = send, k_recv = recv\<rparr>
                  \<lparr>sv_sid = from_be (take 4 payload), sv_send = send, sv_recv = recv, sv_next_ctr = 0,
                   sv_port = h_port h, sv_created_ms = cl_now_ms e, sv_reset = drop 4 payload,
                   sv_gateway = c_server_key run\<rparr>
                  (h\<lparr>h_run := run\<lparr>c_link := link1\<lparr>l_port := h_port h\<rparr>\<rparr>\<rparr>) (cl_now e)))"

text \<open>
  A datagram of the gateway during the handshake.  The buffer is reused, so an empty datagram
  is read as the kind of the one before.
\<close>

definition h_packet :: "inoise \<Rightarrow> cl_env \<Rightarrow> bytes \<Rightarrow> Hand \<Rightarrow> hand_result" where
  "h_packet N e packet h0 =
     (let kind = (case packet of [] \<Rightarrow> h_first h0 | b # _ \<Rightarrow> b);
          h = h0\<lparr>h_first := kind\<rparr>;
          echoed = take 4 (drop 1 packet) = take 4 (drop 1 (h_msg1 h))
      in if kind = T_HS2 \<and> 5 < length packet \<and> echoed then h_message2 N e packet h
         else if kind = T_WRONG_KEY \<and> length packet = 5 \<and> echoed then Hand_failed WrongKey
         else if kind = T_DATA \<or> kind = T_WORKING
         then Shaking (h\<lparr>h_early := h_early h @ [(cl_now e, packet)]\<rparr>)
         else Shaking h)"

subsection \<open>The fetch\<close>

record ClientConfig =
  cf_ports :: "u16 list"
  cf_server_key :: bytes
  cf_request_in_handshake :: bool

record Fetched =
  fe_body :: bytes
  fe_handshake :: bool
  fe_bytes_up :: nat
  fe_bytes_down :: nat
  fe_retries :: nat
  fe_link :: Link

text \<open>\<open>Phase_x fresh x\<close>: the exchange, \<open>fresh\<close> when a handshake of this fetch made its session.\<close>

datatype phase =
    Phase_h Hand u16
  | Phase_x bool Exchange
  | Phase_end "WireError + Fetched"

text \<open>\<open>f_slot\<close> is the content of the slot's file, if a slot was claimed.\<close>

record Fetch =
  f_cfg :: ClientConfig
  f_body :: bytes
  f_slot :: "string option"
  f_restarted :: bool
  f_profile :: string
  f_phase :: phase

text \<open>A saved session is used for the same gateway key and less than a day.\<close>

definition saved_usable :: "ClientConfig \<Rightarrow> u64 \<Rightarrow> Saved \<Rightarrow> bool" where
  "saved_usable cfg now_ms s \<longleftrightarrow> sv_gateway s = cf_server_key cfg \<and>
     unat now_ms - unat (sv_created_ms s) < REKEY_MS"

text \<open>The end of a fetch: the link's profile is saved, and on success the session.\<close>

definition f_end_error :: "Run \<Rightarrow> WireError \<Rightarrow> Fetch \<Rightarrow> Fetch" where
  "f_end_error run err f = f\<lparr>f_profile := link_format (c_link run), f_phase := Phase_end (Inl err)\<rparr>"

definition f_end_ok :: "cl_env \<Rightarrow> bool \<Rightarrow> bytes \<Rightarrow> Run \<Rightarrow> Saved \<Rightarrow> Fetch \<Rightarrow> Fetch" where
  "f_end_ok e handshake body run saved f =
     f\<lparr>f_profile := link_format (c_link run),
       f_slot := map_option (\<lambda>file. snd (slot_write (cl_slot_io e) saved file)) (f_slot f),
       f_phase := Phase_end (Inr \<lparr>fe_body = body, fe_handshake = handshake, fe_bytes_up = c_up run,
         fe_bytes_down = c_down run, fe_retries = c_retries run, fe_link = c_link run\<rparr>)\<rparr>"

text \<open>\<^verbatim>\<open>fresh\<close>: the handshake carries the request, or an empty one.\<close>

definition f_fresh :: "inoise \<Rightarrow> cl_env \<Rightarrow> Run \<Rightarrow> Fetch \<Rightarrow> Fetch" where
  "f_fresh N e run f =
     (case h_start N e run (if cf_request_in_handshake (f_cfg f) then f_body f else []) (cl_req_id e) of
        Inl err \<Rightarrow> f_end_error run err f
      | Inr h \<Rightarrow> f\<lparr>f_phase := Phase_h h (cl_req_id e)\<rparr>)"

definition f_saved :: "aead \<Rightarrow> cl_env \<Rightarrow> bool \<Rightarrow> Run \<Rightarrow> Saved \<Rightarrow> Fetch \<Rightarrow> Fetch" where
  "f_saved A e fresh run s f =
     (case x_start_saved A (cl_oks e) run (f_body f) (cl_req_id e) s
        (map_option (Pair (cl_slot_io e)) (f_slot f)) (cl_now e) of
        (Inl err, file) \<Rightarrow> f_end_error run err (f\<lparr>f_slot := file\<rparr>)
      | (Inr x, file) \<Rightarrow> f\<lparr>f_slot := file, f_phase := Phase_x fresh x\<rparr>)"

definition f_start :: "aead \<Rightarrow> inoise \<Rightarrow> cl_env \<Rightarrow> ClientConfig \<Rightarrow> Run \<Rightarrow> bytes \<Rightarrow> string option \<Rightarrow> Fetch" where
  "f_start A N e cfg run body slot =
     (let f = \<lparr>f_cfg = cfg, f_body = body, f_slot = slot, f_restarted = False, f_profile = [],
          f_phase = Phase_end (Inl Unreachable)\<rparr>
      in if MAX_REQUEST < length body then f\<lparr>f_phase := Phase_end (Inl TooLarge)\<rparr>
         else if cf_ports cfg = [] then f\<lparr>f_phase := Phase_end (Inl (Io ''no gateway ports''))\<rparr>
         else (case slot_read slot of
             Some s \<Rightarrow> if saved_usable cfg (cl_now_ms e) s then f_saved A e False run s f else f_fresh N e run f
           | None \<Rightarrow> f_fresh N e run f))"

text \<open>What a step of the exchange leads to; after a reset the fetch starts over, once.\<close>

definition f_progress ::
  "aead \<Rightarrow> inoise \<Rightarrow> cl_env \<Rightarrow> bool \<Rightarrow> Run \<Rightarrow> progress \<Rightarrow> Fetch \<Rightarrow> Fetch" where
  "f_progress A N e fresh run p f =
     (case p of
        Going x \<Rightarrow> f\<lparr>f_phase := Phase_x fresh x\<rparr>
      | Reset_seen \<Rightarrow>
          if f_restarted f then f_end_error run Timeout f
          else f_fresh N e run (f\<lparr>f_restarted := True\<rparr>)
      | Failed err \<Rightarrow> f_end_error run err f
      | Enough None x \<Rightarrow> f_end_error (x_run x) (Io ''the response did not decode'') f
      | Enough (Some body) x \<Rightarrow>
          (let (run', saved) = x_finish A (drop 3 (cl_oks e)) x in f_end_ok e fresh body run' saved f))"

text \<open>The packets that came before message 2 are read first.\<close>

fun x_early :: "aead \<Rightarrow> rs_code \<Rightarrow> instant \<Rightarrow> (instant \<times> bytes) list \<Rightarrow> Exchange \<Rightarrow> progress" where
  "x_early A R now [] x = Going x"
| "x_early A R now ((t, p) # ps) x =
     (case x_packet A R [True, True, True] now t p x of Going x' \<Rightarrow> x_early A R now ps x' | r \<Rightarrow> r)"

definition f_hand_result ::
  "aead \<Rightarrow> rs_code \<Rightarrow> inoise \<Rightarrow> cl_env \<Rightarrow> u16 \<Rightarrow> Run \<Rightarrow> hand_result \<Rightarrow> Fetch \<Rightarrow> Fetch" where
  "f_hand_result A R N e req_id run r f =
     (case r of
        Shaking h \<Rightarrow> f\<lparr>f_phase := Phase_h h req_id\<rparr>
      | Hand_failed err \<Rightarrow> f_end_error run err f
      | Shaken keys saved h hs2_at \<Rightarrow>
          if cf_request_in_handshake (f_cfg f) then
            (let x = x_start_new (h_run h) (f_body f) req_id keys saved (Some hs2_at) (h_lost h) (h_sent h)
                   (cl_now e)
             in f_progress A N e True (h_run h) (x_early A R (cl_now e) (h_early h) x) f)
          else f_saved A e True (h_run h) saved f)"

datatype fetch_event = Datagram IpAddr bytes | Expired

fun f_step :: "aead \<Rightarrow> rs_code \<Rightarrow> inoise \<Rightarrow> Fetch \<Rightarrow> cl_env \<times> fetch_event \<Rightarrow> Fetch" where
  "f_step A R N f (e, Datagram src packet) =
     (case f_phase f of
        Phase_h h req_id \<Rightarrow>
          (case cl_recv src packet (h_run h) of
             None \<Rightarrow> f
           | Some run \<Rightarrow> f_hand_result A R N e req_id run (h_packet N e packet (h\<lparr>h_run := run\<rparr>)) f)
      | Phase_x fresh x \<Rightarrow>
          (case cl_recv src packet (x_run x) of
             None \<Rightarrow> f
           | Some run \<Rightarrow> f_progress A N e fresh run
               (x_packet A R (cl_oks e) (cl_now e) (cl_now e) packet (x\<lparr>x_run := run\<rparr>)) f)
      | Phase_end _ \<Rightarrow> f)"
| "f_step A R N f (e, Expired) =
     (case f_phase f of
        Phase_h h req_id \<Rightarrow>
          (case h_expired e h of
             Inl err \<Rightarrow> f_end_error (h_run h) err f
           | Inr h' \<Rightarrow> f\<lparr>f_phase := Phase_h h' req_id\<rparr>)
      | Phase_x fresh x \<Rightarrow> f_progress A N e fresh (x_run x) (x_timeout A (cl_oks e) (cl_now e) x) f
      | Phase_end _ \<Rightarrow> f)"

definition f_run :: "aead \<Rightarrow> rs_code \<Rightarrow> inoise \<Rightarrow> Fetch \<Rightarrow> (cl_env \<times> fetch_event) list \<Rightarrow> Fetch" where
  "f_run A R N f evs = foldl (f_step A R N) f evs"

end
