(* ===== verification/ClientProps.thy ===== *)
theory ClientProps
  imports WireFetch GatewayBurst
begin

section \<open>The phone side: its properties\<close>

text \<open>
  Runs of the exchange: the counters it seals under, the block it reserves for them, and where
  the symbols it decodes come from.
\<close>

subsection \<open>Runs of the exchange\<close>

datatype x_event =
    Arrive "bool list" instant instant bytes
  | Wait_over "bool list" instant

fun x_event_step :: "aead \<Rightarrow> rs_code \<Rightarrow> Exchange \<Rightarrow> x_event \<Rightarrow> progress" where
  "x_event_step A R x (Arrive oks now t p) = x_packet A R oks now t p x"
| "x_event_step A R x (Wait_over oks now) = x_timeout A oks now x"

fun x_events :: "aead \<Rightarrow> rs_code \<Rightarrow> Exchange \<Rightarrow> x_event list \<Rightarrow> progress" where
  "x_events A R x [] = Going x"
| "x_events A R x (ev # evs) =
     (case x_event_step A R x ev of Going x' \<Rightarrow> x_events A R x' evs | r \<Rightarrow> r)"

fun arrived :: "x_event list \<Rightarrow> bytes list" where
  "arrived [] = []"
| "arrived (Arrive oks now t p # evs) = p # arrived evs"
| "arrived (Wait_over oks now # evs) = arrived evs"

text \<open>The state a progress leaves behind.\<close>

fun state_of :: "progress \<Rightarrow> Exchange option" where
  "state_of (Going x) = Some x" | "state_of (Enough b x) = Some x" | "state_of _ = None"

subsection \<open>Sealed packets and their counters\<close>

text \<open>Every packet of \<open>ps\<close> is sealed under one of the \<open>m\<close> counters from \<open>c0\<close>, one plaintext each.\<close>

definition sealed_under :: "aead \<Rightarrow> Keys \<Rightarrow> u32 \<Rightarrow> u32 \<Rightarrow> nat \<Rightarrow> bytes list \<Rightarrow> bool" where
  "sealed_under A K sid c0 m ps \<longleftrightarrow> (\<exists>t pl. \<forall>p \<in> set ps. \<exists>j < m.
     p = seal A K (t j) sid (c0 + of_nat j) (pl j))"

lemma sealed_under_Nil [simp]: "sealed_under A K sid c0 m []"
  by (simp add: sealed_under_def)

lemma sealed_under_snoc:
  assumes "sealed_under A K sid c0 m ps"
  shows "sealed_under A K sid c0 (Suc m) (ps @ replicate n (seal A K ty sid (c0 + of_nat m) plain))"
proof -
  from assms obtain t pl where "\<forall>p \<in> set ps. \<exists>j < m. p = seal A K (t j) sid (c0 + of_nat j) (pl j)"
    by (auto simp: sealed_under_def)
  then have "\<forall>p \<in> set (ps @ replicate n (seal A K ty sid (c0 + of_nat m) plain)). \<exists>j < Suc m.
      p = seal A K ((t(m := ty)) j) sid (c0 + of_nat j) ((pl(m := plain)) j)"
    by (fastforce simp: less_Suc_eq)
  then show ?thesis unfolding sealed_under_def by blast
qed

lemma of_nat_u32_inj:
  "i < m \<Longrightarrow> j < m \<Longrightarrow> m \<le> 4294967296 \<Longrightarrow> (of_nat i :: u32) = of_nat j \<longleftrightarrow> i = j"
  by (auto simp: word_of_nat_eq_iff take_bit_nat_eq_self)

lemma sealed_under_unique:
  assumes "sealed_under A K sid c0 m ps" and "aead_ok A" and "m \<le> 4294967296"
    and "p \<in> set ps" "q \<in> set ps" and "header p = Some (ty, i, c)" "header q = Some (ty', i', c)"
  shows "p = q"
proof -
  from assms(1) obtain t pl where
    s: "\<And>p. p \<in> set ps \<Longrightarrow> \<exists>j < m. p = seal A K (t j) sid (c0 + of_nat j) (pl j)"
    by (auto simp: sealed_under_def)
  from s [OF assms(4)] s [OF assms(5)] obtain j k where
    "j < m" "p = seal A K (t j) sid (c0 + of_nat j) (pl j)"
    "k < m" "q = seal A K (t k) sid (c0 + of_nat k) (pl k)" by blast
  moreover from this assms(2,6,7) have "c0 + of_nat j = c0 + of_nat k" by simp
  then have "(of_nat j :: u32) = of_nat k" by simp
  ultimately show ?thesis using of_nat_u32_inj assms(3) by metis
qed

lemma sealed_under_header:
  assumes "sealed_under A K sid c0 m ps" and "aead_ok A" and "p \<in> set ps"
  obtains j ty where "j < m" "header p = Some (ty, sid, c0 + of_nat j)"
  using assms by (force simp: sealed_under_def)

text \<open>
  The invariant: the exchange's packets so far, and its counter the next one.  \<open>m\<close> counts the
  packets sealed since \<open>c0\<close>.
\<close>

definition x_sealing :: "aead \<Rightarrow> Keys \<Rightarrow> u32 \<Rightarrow> u32 \<Rightarrow> (u16 \<times> bytes) list \<Rightarrow> nat \<Rightarrow> Exchange \<Rightarrow> bool" where
  "x_sealing A K sid c0 before m x \<longleftrightarrow> x_keys x = K \<and> sv_sid (x_saved x) = sid \<and>
     x_ctr x = c0 + of_nat m \<and>
     (\<exists>new. c_out (x_run x) = before @ new \<and> sealed_under A K sid c0 m (map snd new))"

lemma cl_send_out [simp]:
  "c_out (cl_send oks port p dup r) =
     c_out r @ replicate (if dup then 2 else 1) (c_ports r ! (port mod length (c_ports r)), p)"
  by (simp add: cl_send_def Let_def)

lemma cl_send_link [simp]: "c_link (cl_send oks port p dup r) = c_link r"
  and cl_send_heard [simp]: "c_heard (cl_send oks port p dup r) = c_heard r"
  and cl_send_deadline [simp]: "c_deadline (cl_send oks port p dup r) = c_deadline r"
  by (simp_all add: cl_send_def Let_def)

lemma x_sealing_extend:
  assumes "x_sealing A K sid c0 before m x"
    and "x_keys x' = x_keys x" "x_saved x' = x_saved x" "x_ctr x' = x_ctr x + 1"
    and "c_out (x_run x') = c_out (x_run x) @
      replicate n (port, seal A (x_keys x) ty (sv_sid (x_saved x)) (x_ctr x) plain)"
  shows "x_sealing A K sid c0 before (Suc m) x'"
proof -
  from assms(1) obtain new where new: "c_out (x_run x) = before @ new"
    "sealed_under A K sid c0 m (map snd new)" by (auto simp: x_sealing_def)
  let ?p = "seal A K ty sid (c0 + of_nat m) plain"
  have "c_out (x_run x') = before @ new @ replicate n (port, ?p)"
    using assms new by (simp add: x_sealing_def)
  moreover have "sealed_under A K sid c0 (Suc m) (map snd (new @ replicate n (port, ?p)))"
    using sealed_under_snoc [OF new(2)] by simp
  ultimately show ?thesis using assms(1-4) unfolding x_sealing_def
    by (intro conjI exI [of _ "new @ replicate n (port, ?p)"]) (simp_all add: ac_simps)
qed

lemma x_sealing_cong:
  "x_keys x' = x_keys x \<Longrightarrow> x_saved x' = x_saved x \<Longrightarrow> x_ctr x' = x_ctr x \<Longrightarrow>
   c_out (x_run x') = c_out (x_run x) \<Longrightarrow> x_sealing A K sid c0 before m x' = x_sealing A K sid c0 before m x"
  by (simp add: x_sealing_def)

lemma x_sealing_ask:
  "x_sealing A K sid c0 before m x \<Longrightarrow> x_sealing A K sid c0 before (Suc m) (x_ask A oks now rq want x)"
  by (rule x_sealing_extend) (simp_all add: x_ask_def Let_def)

lemma x_sealing_ack:
  assumes "x_sealing A K sid c0 before m x"
  obtains m' where "m \<le> m'" "m' \<le> Suc m" "x_sealing A K sid c0 before m' (x_ack A oks x)"
proof (cases "x_acked x")
  case True
  then show ?thesis using that [of m] assms by (simp add: x_ack_def)
next
  case False
  have "x_sealing A K sid c0 before (Suc m) (x_ack A oks x)"
    by (rule x_sealing_extend [OF assms, where n = 1]) (simp_all add: x_ack_def Let_def False)
  then show ?thesis using that [of "Suc m"] by simp
qed

lemma x_learn_rate_frames [frames, simp]:
  "x_keys (x_learn_rate w d t x) = x_keys x" "x_saved (x_learn_rate w d t x) = x_saved x"
  "x_ctr (x_learn_rate w d t x) = x_ctr x" "c_out (x_run (x_learn_rate w d t x)) = c_out (x_run x)"
  "x_got (x_learn_rate w d t x) = x_got x" "x_req_id (x_learn_rate w d t x) = x_req_id x"
  by (simp_all add: x_learn_rate_def Let_def split: option.split prod.split)

lemma x_keep_symbol_frames [frames, simp]:
  "x_keys (x_keep_symbol d t x) = x_keys x" "x_saved (x_keep_symbol d t x) = x_saved x"
  "x_ctr (x_keep_symbol d t x) = x_ctr x" "x_run (x_keep_symbol d t x) = x_run x"
  "x_req_id (x_keep_symbol d t x) = x_req_id x"
  by (simp_all add: x_keep_symbol_def Let_def)

lemma x_ack_frames [frames, simp]:
  "x_keys (x_ack A oks x) = x_keys x" "x_saved (x_ack A oks x) = x_saved x"
  "x_got (x_ack A oks x) = x_got x" "x_req_id (x_ack A oks x) = x_req_id x"
  by (simp_all add: x_ack_def Let_def)

lemma x_ask_frames [frames, simp]:
  "x_keys (x_ask A oks now rq want x) = x_keys x" "x_saved (x_ask A oks now rq want x) = x_saved x"
  "x_got (x_ask A oks now rq want x) = x_got x" "x_req_id (x_ask A oks now rq want x) = x_req_id x"
  by (simp_all add: x_ask_def Let_def)

lemma x_sealing_symbol:
  assumes "x_sealing A K sid c0 before m x" and "state_of (x_symbol A R oks now p d t x) = Some x'"
  shows "\<exists>m' \<le> m + 2. m \<le> m' \<and> x_sealing A K sid c0 before m' x'"
proof -
  define x2 where "x2 = x_keep_symbol d t (x_learn_rate (length p + IP_UDP) d t
    (x\<lparr>x_working := None, x_backoff := Fin 0\<rparr>))"
  define x3 where "x3 = x_ack A (take 1 oks) x2"
  have "x_sealing A K sid c0 before m x2 = x_sealing A K sid c0 before m x"
    by (rule x_sealing_cong) (simp_all add: x2_def)
  then obtain m3 where m3: "m \<le> m3" "m3 \<le> Suc m" "x_sealing A K sid c0 before m3 x3"
    using x_sealing_ack [of A K sid c0 before m x2 "take 1 oks"] assms(1) by (auto simp: x3_def)
  have "x' = x3 \<or> (\<exists>oks' rq want. x' = x_ask A oks' now rq want x3)"
    using assms(2) unfolding x_symbol_def Let_def x2_def [symmetric] x3_def [symmetric]
    by (auto split: if_splits prod.splits)
  then show ?thesis
  proof
    assume "x' = x3"
    then show ?thesis using m3 by (intro exI [of _ m3]) simp
  next
    assume "\<exists>oks' rq want. x' = x_ask A oks' now rq want x3"
    then have "x_sealing A K sid c0 before (Suc m3) x'" using x_sealing_ask [OF m3(3)] by blast
    then show ?thesis using m3 by (intro exI [of _ "Suc m3"]) simp
  qed
qed

lemma data_not_working: "T_DATA \<noteq> T_WORKING"
  by (simp add: packet_types)

text \<open>What a datagram can lead to.\<close>

lemma x_packet_cases:
  obtains (reset) "x_is_reset x p" "x_packet A R oks now t p x = Reset_seen"
  | (ignored) "x_packet A R oks now t p x = Going x"
  | (noted) c where "x_packet A R oks now t p x = Going (x\<lparr>x_last_ctr := c\<rparr>)"
  | (working) pl c where "x_packet A R oks now t p x = Going (x_working_notice pl t (x\<lparr>x_last_ctr := c\<rparr>))"
  | (symbol) opened d where "open_packet A (x_keys x) p = Some opened" "o_ptype opened = T_DATA"
      "data_decode (o_plain opened) = Some d" "d_req_id d = x_req_id x"
      "x_packet A R oks now t p x =
         x_symbol A R oks now p d t (x\<lparr>x_last_ctr := max (x_last_ctr x) (o_ctr opened + 1)\<rparr>)"
proof (cases "x_is_reset x p")
  case True
  then show ?thesis using reset by (simp add: x_packet_def)
next
  case nr: False
  show ?thesis
  proof (cases "open_packet A (x_keys x) p")
    case None
    then show ?thesis using ignored nr by (simp add: x_packet_def)
  next
    case (Some opened)
    let ?x1 = "x\<lparr>x_last_ctr := max (x_last_ctr x) (o_ctr opened + 1)\<rparr>"
    consider "o_ptype opened = T_WORKING" | "o_ptype opened \<noteq> T_WORKING" "o_ptype opened \<noteq> T_DATA"
      | "o_ptype opened = T_DATA" by blast
    then show ?thesis
    proof cases
      case 1
      then show ?thesis using working nr Some by (simp add: x_packet_def Let_def)
    next
      case 2
      then show ?thesis using noted nr Some by (simp add: x_packet_def Let_def)
    next
      case 3
      then have nw: "o_ptype opened \<noteq> T_WORKING" by (simp add: packet_types)
      show ?thesis
      proof (cases "data_decode (o_plain opened)")
        case None
        then show ?thesis using noted nr Some 3 nw by (simp add: x_packet_def Let_def)
      next
        case d: (Some d)
        show ?thesis
        proof (cases "d_req_id d = x_req_id x")
          case True
          show ?thesis
            by (rule symbol [OF Some 3 d True]) (simp add: x_packet_def Let_def nr Some 3 d True data_not_working)
        next
          case False
          then show ?thesis using noted nr Some 3 nw d by (simp add: x_packet_def Let_def)
        qed
      qed
    qed
  qed
qed

lemma x_presume_lost_frames [frames, simp]:
  "x_keys (x_presume_lost x) = x_keys x" "x_saved (x_presume_lost x) = x_saved x"
  "x_ctr (x_presume_lost x) = x_ctr x" "x_run (x_presume_lost x) = x_run x"
  "x_got (x_presume_lost x) = x_got x" "x_req_id (x_presume_lost x) = x_req_id x"
  by (simp_all add: x_presume_lost_def Let_def)

lemma x_note_retry_frames [frames, simp]:
  "x_keys (x_note_retry now rq x) = x_keys x" "x_saved (x_note_retry now rq x) = x_saved x"
  "x_ctr (x_note_retry now rq x) = x_ctr x" "x_run (x_note_retry now rq x) = x_run x"
  "x_got (x_note_retry now rq x) = x_got x" "x_req_id (x_note_retry now rq x) = x_req_id x"
  by (simp_all add: x_note_retry_def)

lemma x_retry_frames [frames, simp]:
  "x_keys (x_retry A oks now x) = x_keys x" "x_saved (x_retry A oks now x) = x_saved x"
  "x_got (x_retry A oks now x) = x_got x" "x_req_id (x_retry A oks now x) = x_req_id x"
  by (simp_all add: x_retry_def Let_def)

lemma x_sealing_retry:
  assumes "x_sealing A K sid c0 before m x"
  shows "x_sealing A K sid c0 before (Suc m) (x_retry A oks now x)"
proof -
  have "x_sealing A K sid c0 before m (x_note_retry now (x_retry_request x) x)"
    using assms by (simp add: x_sealing_def)
  from x_sealing_ask [OF this] show ?thesis by (simp add: x_retry_def Let_def x_sealing_def)
qed

lemma x_sealing_step:
  assumes "x_sealing A K sid c0 before m x" and "state_of (x_event_step A R x ev) = Some x'"
  shows "\<exists>m' \<le> m + 2. m \<le> m' \<and> x_sealing A K sid c0 before m' x'"
proof (cases ev)
  case (Arrive oks now t p)
  have noted: "x_sealing A K sid c0 before m (x\<lparr>x_last_ctr := c\<rparr>)" for c
    using assms(1) by (simp add: x_sealing_def)
  then have notice: "x_sealing A K sid c0 before m (x_working_notice pl t (x\<lparr>x_last_ctr := c\<rparr>))" for pl c
    by (simp add: x_working_notice_def x_sealing_def)
  show ?thesis
  proof (cases rule: x_packet_cases [of x p A R oks now t])
    case (symbol opened d)
    then show ?thesis using x_sealing_symbol [OF noted] assms(2) Arrive by simp
  qed (use assms Arrive noted notice in \<open>auto intro!: exI [of _ m]\<close>)
next
  case (Wait_over oks now)
  have "x_sealing A K sid c0 before m (x_presume_lost x)" using assms(1) by (simp add: x_sealing_def)
  from x_sealing_retry [OF this, of oks now] have "x_sealing A K sid c0 before (Suc m) x'"
    using assms(2) Wait_over by (auto simp: x_timeout_def split: if_splits)
  then show ?thesis by (intro exI [of _ "Suc m"]) simp
qed

lemma x_sealing_events:
  assumes "x_sealing A K sid c0 before m x" and "state_of (x_events A R x evs) = Some x'"
  shows "\<exists>m' \<le> m + 2 * length evs. m \<le> m' \<and> x_sealing A K sid c0 before m' x'"
  using assms
proof (induction evs arbitrary: x m)
  case Nil
  then show ?case by (intro exI [of _ m]) simp
next
  case (Cons ev evs)
  show ?case
  proof (cases "x_event_step A R x ev")
    case (Going y)
    with x_sealing_step [OF Cons.prems(1), of R ev y] obtain m1 where
      m1: "m1 \<le> m + 2" "m \<le> m1" "x_sealing A K sid c0 before m1 y" by auto
    have "state_of (x_events A R y evs) = Some x'" using Cons.prems(2) Going by simp
    from Cons.IH [OF m1(3) this] obtain m2 where "m2 \<le> m1 + 2 * length evs" "m1 \<le> m2"
      "x_sealing A K sid c0 before m2 x'" by blast
    then show ?thesis using m1 by (intro exI [of _ m2]) simp
  next
    case (Enough b y)
    then have "state_of (x_event_step A R x ev) = Some x'" using Cons.prems(2) by simp
    from x_sealing_step [OF Cons.prems(1) this] obtain m1 where "m1 \<le> m + 2" "m \<le> m1"
      "x_sealing A K sid c0 before m1 x'" by blast
    then show ?thesis by (intro exI [of _ m1]) simp
  qed (use Cons.prems(2) in simp_all)
qed

subsection \<open>Where the symbols come from\<close>

text \<open>A packet as a symbol of request \<open>req\<close>, to the keys \<open>K\<close>.\<close>

definition data_for :: "aead \<Rightarrow> Keys \<Rightarrow> u16 \<Rightarrow> bytes \<Rightarrow> Data option" where
  "data_for A K req p =
     do { o' \<leftarrow> open_packet A K p;
          d \<leftarrow> (if o_ptype o' = T_DATA then data_decode (o_plain o') else None);
          if d_req_id d = req then Some d else None }"

definition x_sound :: "aead \<Rightarrow> Keys \<Rightarrow> u16 \<Rightarrow> bytes list \<Rightarrow> Exchange \<Rightarrow> bool" where
  "x_sound A K req ps x \<longleftrightarrow> x_keys x = K \<and> x_req_id x = req \<and> hm_ok (x_got x) \<and>
     (\<forall>(i, b) \<in> set (x_got x). \<exists>p \<in> set ps. \<exists>d. data_for A K req p = Some d \<and> d_sym d = i \<and> d_bytes d = b)"

lemma x_sound_cong:
  "x_keys x' = x_keys x \<Longrightarrow> x_req_id x' = x_req_id x \<Longrightarrow> x_got x' = x_got x \<Longrightarrow>
     x_sound A K req ps x' = x_sound A K req ps x"
  by (simp add: x_sound_def)

lemma x_sound_ask [simp]: "x_sound A K req ps (x_ask B oks now rq want x) = x_sound A K req ps x"
  by (rule x_sound_cong) simp_all

lemma x_sound_ack [simp]: "x_sound A K req ps (x_ack B oks x) = x_sound A K req ps x"
  by (rule x_sound_cong) simp_all

lemma x_sound_learn [simp]: "x_sound A K req ps (x_learn_rate w d t x) = x_sound A K req ps x"
  by (rule x_sound_cong) simp_all

lemma x_sound_mono: "x_sound A K req ps x \<Longrightarrow> set ps \<subseteq> set qs \<Longrightarrow> x_sound A K req qs x"
  by (fastforce simp: x_sound_def)

lemma x_sound_keep:
  assumes "x_sound A K req ps x" and "data_for A K req p = Some d" and "p \<in> set ps"
  shows "x_sound A K req ps (x_keep_symbol d t x)"
proof (cases "map_of (x_got x) (d_sym d)")
  case None
  have "\<exists>p \<in> set ps. \<exists>d'. data_for A K req p = Some d' \<and> d_sym d' = i \<and> d_bytes d' = b"
    if "(i, b) \<in> set (AList.update (d_sym d) (d_bytes d) (x_got x))" for i b
    using set_update_hm [OF that] assms by (auto simp: x_sound_def)
  then show ?thesis using assms(1) None by (auto simp: x_sound_def x_keep_symbol_def Let_def)
next
  case (Some b)
  then show ?thesis using assms(1) by (simp add: x_sound_def x_keep_symbol_def Let_def)
qed

text \<open>The step that ends the exchange: what it decodes.\<close>

lemma x_sound_symbol:
  assumes "x_sound A K req ps x" and "data_for A K req p = Some d" and "p \<in> set ps"
  shows "state_of (x_symbol A R oks now p d t x) = Some x' \<Longrightarrow> x_sound A K req ps x'"
    and "x_symbol A R oks now p d t x = Enough b x' \<Longrightarrow>
      unat (d_k d) \<le> length (x_got x') \<and> b = fec_decode R (unat (d_total d)) (x_got x')"
proof -
  define x3 where "x3 = x_ack A (take 1 oks) (x_keep_symbol d t (x_learn_rate (length p + IP_UDP) d t
    (x\<lparr>x_working := None, x_backoff := Fin 0\<rparr>)))"
  have "x_sound A K req ps (x_learn_rate (length p + IP_UDP) d t (x\<lparr>x_working := None, x_backoff := Fin 0\<rparr>))"
    using assms(1) by (simp add: x_sound_def [of _ _ _ _ "x\<lparr>x_working := None, x_backoff := Fin 0\<rparr>"] x_sound_def [of _ _ _ _ x])
  then have "x_sound A K req ps (x_keep_symbol d t (x_learn_rate (length p + IP_UDP) d t
      (x\<lparr>x_working := None, x_backoff := Fin 0\<rparr>)))"
    by (rule x_sound_keep [OF _ assms(2,3)])
  then have x3: "x_sound A K req ps x3" by (simp add: x3_def)
  show "state_of (x_symbol A R oks now p d t x) = Some x' \<Longrightarrow> x_sound A K req ps x'"
    using x3 unfolding x_symbol_def Let_def x3_def [symmetric]
    by (auto split: if_splits prod.splits)
  show "x_symbol A R oks now p d t x = Enough b x' \<Longrightarrow>
      unat (d_k d) \<le> length (x_got x') \<and> b = fec_decode R (unat (d_total d)) (x_got x')"
    unfolding x_symbol_def Let_def x3_def [symmetric]
    by (auto split: if_splits prod.splits)
qed

lemma x_sound_step:
  assumes "x_sound A K req ps x" and "set (arrived [ev]) \<subseteq> set ps"
  shows "state_of (x_event_step A R x ev) = Some x' \<Longrightarrow> x_sound A K req ps x'"
    and "x_event_step A R x ev = Enough b x' \<Longrightarrow> \<exists>p \<in> set ps. \<exists>d. data_for A K req p = Some d \<and>
      unat (d_k d) \<le> length (x_got x') \<and> b = fec_decode R (unat (d_total d)) (x_got x')"
proof -
  have noted: "x_sound A K req ps (x\<lparr>x_last_ctr := c\<rparr>)" for c
    using assms(1) by (simp add: x_sound_def)
  have notice: "x_sound A K req ps (x_working_notice pl t (x\<lparr>x_last_ctr := c\<rparr>))" for pl t c
    using assms(1) by (simp add: x_working_notice_def x_sound_def)
  have retry: "x_sound A K req ps (x_retry A oks now (x_presume_lost x))" for oks now
    using assms(1) by (simp add: x_sound_def)
  have "(state_of (x_event_step A R x ev) = Some x' \<longrightarrow> x_sound A K req ps x') \<and>
    (x_event_step A R x ev = Enough b x' \<longrightarrow> (\<exists>p \<in> set ps. \<exists>d. data_for A K req p = Some d \<and>
      unat (d_k d) \<le> length (x_got x') \<and> b = fec_decode R (unat (d_total d)) (x_got x')))"
  proof (cases ev)
    case (Arrive oks now t p)
    show ?thesis
    proof (cases rule: x_packet_cases [of x p A R oks now t])
      case (symbol opened d)
      have "data_for A K req p = Some d"
        using symbol assms(1) by (simp add: data_for_def x_sound_def)
      moreover have "p \<in> set ps" using assms(2) Arrive by simp
      ultimately show ?thesis
        using x_sound_symbol [OF noted, of p d] symbol(5) Arrive by (metis x_event_step.simps(1))
    qed (use assms Arrive noted notice in auto)
  next
    case (Wait_over oks now)
    then show ?thesis using retry by (auto simp: x_timeout_def)
  qed
  then show "state_of (x_event_step A R x ev) = Some x' \<Longrightarrow> x_sound A K req ps x'"
    and "x_event_step A R x ev = Enough b x' \<Longrightarrow> \<exists>p \<in> set ps. \<exists>d. data_for A K req p = Some d \<and>
      unat (d_k d) \<le> length (x_got x') \<and> b = fec_decode R (unat (d_total d)) (x_got x')"
    by blast+
qed

lemma arrived_Cons: "arrived (ev # evs) = arrived [ev] @ arrived evs"
  by (cases ev) simp_all

lemma x_events_Enough:
  assumes "x_sound A K req ps x" and "set (arrived evs) \<subseteq> set ps" and "x_events A R x evs = Enough b x'"
  shows "x_sound A K req ps x' \<and> (\<exists>p \<in> set ps. \<exists>d. data_for A K req p = Some d \<and>
      unat (d_k d) \<le> length (x_got x') \<and> b = fec_decode R (unat (d_total d)) (x_got x'))"
  using assms
proof (induction evs arbitrary: x)
  case (Cons ev evs)
  have ev: "set (arrived [ev]) \<subseteq> set ps" and evs: "set (arrived evs) \<subseteq> set ps"
    using Cons.prems(2) arrived_Cons [of ev evs] by auto
  note st = x_sound_step [OF Cons.prems(1) ev, of R]
  show ?case
  proof (cases "x_event_step A R x ev")
    case (Going y)
    then show ?thesis using Cons.IH [of y] Cons.prems(3) evs st(1) [of y] by simp
  next
    case (Enough b' y)
    then have "b' = b" "y = x'" using Cons.prems(3) by simp_all
    then show ?thesis using st(1) [of x'] st(2) [of b x'] Enough by auto
  qed (use Cons.prems(3) in simp_all)
qed simp

subsection \<open>The reserved block\<close>

text \<open>After a start, everything is sealed from the saved counter on, and the file holds the end.\<close>

lemma x_start_saved_spec:
  assumes "x_start_saved A oks run body req s slot now = (Inr x, file)"
  shows "x_sealing A \<lparr>k_send = sv_send s, k_recv = sv_recv s\<rparr> (sv_sid s) (sv_next_ctr s) (c_out run) 1 x"
    and "x_saved x = s" and "x_end x = sv_next_ctr s + COUNTER_BLOCK" and "x_got x = []" and "x_req_id x = req"
    and "slot = Some (io, f) \<Longrightarrow> file = Some (saved_format (s\<lparr>sv_next_ctr := sv_next_ctr s + COUNTER_BLOCK\<rparr>))"
proof -
  define K where "K = \<lparr>k_send = sv_send s, k_recv = sv_recv s\<rparr>"
  define p where "p = seal A K T_REQ (sv_sid s) (sv_next_ctr s)
    (req_encode (mk_request (c_link run) req 0 0 (Some body) 0))"
  have x: "x = x_loop (cl_send oks (sv_port s) p (duplicate (c_link run)) run) body req False K s
      (sv_next_ctr s + 1) (sv_next_ctr s + COUNTER_BLOCK) None 0 0 now"
    using assms by (auto simp: x_start_saved_def Let_def K_def p_def split: if_splits option.splits prod.splits)
  have "sealed_under A K (sv_sid s) (sv_next_ctr s) 1 (replicate n p)" for n
    using sealed_under_snoc [of A K "sv_sid s" "sv_next_ctr s" 0 "[]" n] by (simp add: p_def)
  then show "x_sealing A \<lparr>k_send = sv_send s, k_recv = sv_recv s\<rparr> (sv_sid s) (sv_next_ctr s) (c_out run) 1 x"
    unfolding K_def [symmetric] by (auto simp: x x_sealing_def x_loop_def)
  show "x_saved x = s" "x_end x = sv_next_ctr s + COUNTER_BLOCK" "x_got x = []" "x_req_id x = req"
    by (simp_all add: x x_loop_def)
  show "slot = Some (io, f) \<Longrightarrow> file = Some (saved_format (s\<lparr>sv_next_ctr := sv_next_ctr s + COUNTER_BLOCK\<rparr>))"
  proof -
    assume slot: "slot = Some (io, f)"
    obtain ok f' where sw: "slot_write io (s\<lparr>sv_next_ctr := sv_next_ctr s + COUNTER_BLOCK\<rparr>) f = (ok, f')"
      by (meson surj_pair)
    then have "ok" "file = Some f'" using assms slot by (auto simp: x_start_saved_def Let_def split: if_splits)
    then show ?thesis using slot_write_ok [of io _ f f'] sw by simp
  qed
qed

lemma x_end_frames [frames, simp]:
  "x_end (x_learn_rate w d t x) = x_end x" "x_end (x_keep_symbol d t x) = x_end x"
  "x_end (x_ack A oks x) = x_end x" "x_end (x_ask A oks now rq want x) = x_end x"
  "x_end (x_retry A oks now x) = x_end x" "x_end (x_presume_lost x) = x_end x"
  "x_end (x_working_notice pl t x) = x_end x"
  by (simp_all add: x_learn_rate_def x_keep_symbol_def x_ack_def x_ask_def x_retry_def x_note_retry_def
      x_presume_lost_def x_working_notice_def Let_def split: option.split prod.split)

lemma x_step_fixed:
  assumes "state_of (x_event_step A R x ev) = Some x'"
  shows "x_saved x' = x_saved x \<and> x_end x' = x_end x"
proof (cases ev)
  case (Arrive oks now t p)
  have notice: "x_saved (x_working_notice pl t y) = x_saved y" for pl y
    by (simp add: x_working_notice_def)
  show ?thesis
  proof (cases rule: x_packet_cases [of x p A R oks now t])
    case (symbol opened d)
    then show ?thesis using assms Arrive
      by (auto simp: x_symbol_def Let_def split: if_splits prod.splits)
  qed (use assms Arrive notice in auto)
next
  case (Wait_over oks now)
  then show ?thesis using assms by (auto simp: x_timeout_def split: if_splits)
qed

lemma x_events_fixed:
  "state_of (x_events A R x evs) = Some x' \<Longrightarrow> x_saved x' = x_saved x \<and> x_end x' = x_end x"
proof (induction evs arbitrary: x)
  case (Cons ev evs)
  show ?case
  proof (cases "x_event_step A R x ev")
    case (Going y)
    then show ?thesis using Cons x_step_fixed [of A R x ev y] by simp
  next
    case (Enough b y)
    then show ?thesis using Cons.prems x_step_fixed [of A R x ev y] by simp
  qed (use Cons.prems in simp_all)
qed simp

end
