(* ===== verification/ClientClaims.thy ===== *)
theory ClientClaims
  imports ClientProps Samples
begin

section \<open>The phone side: its claims\<close>

lemma unat_add_u32:
  "unat (c :: u32) + j < 4294967296 \<Longrightarrow> unat (c + of_nat j) = unat c + j"
  by (simp add: unat_word_ariths unat_of_nat take_bit_nat_eq_self)

text \<open>
  C5: Counters are never reused, within an exchange or across a crash.  An exchange on a saved
  session reserves its block in the slot's file before it sends; then, for any sequence of up
  to 500 datagrams and expired timers and the final notice, two packets it sent with the same
  counter are the same packet, every counter lies in the reserved block (below what the file
  says, if the run dies now), and below the next counter that a finished run saves.  The session's
  next counter must be more than a block below \<open>2 ^ 32\<close>, where counters wrap.
\<close>

theorem exchange_counters:
  assumes "aead_ok A" and start: "x_start_saved A oks run body req s (Some (io, f)) now = (Inr x, content)"
    and out: "c_out run = []" and saved: "saved_ok s"
    and evs: "state_of (x_events A R x evs) = Some x'" and len: "length evs \<le> 500"
    and fin: "x_finish A oks' x' = (run', s')"
    and room: "unat (sv_next_ctr s) + 1024 < 4294967296"
  shows "(\<forall>p \<in> snd ` set (c_out run'). \<forall>q \<in> snd ` set (c_out run').
      (\<exists>c. map_option (snd \<circ> snd) (header p) = Some c \<and> map_option (snd \<circ> snd) (header q) = Some c) \<longrightarrow> p = q) \<and>
    (\<exists>r. saved_parse (the content) = Some r \<and> sv_sid r = sv_sid s \<and>
      (\<forall>p \<in> snd ` set (c_out run'). \<exists>ty c. header p = Some (ty, sv_sid s, c) \<and>
         sv_next_ctr s \<le> c \<and> c < sv_next_ctr r \<and> c < sv_next_ctr s'))"
proof -
  define K where "K = \<lparr>k_send = sv_send s, k_recv = sv_recv s\<rparr>"
  note st = x_start_saved_spec [OF start, folded K_def]
  obtain m where m: "m \<le> 1 + 2 * length evs" "x_sealing A K (sv_sid s) (sv_next_ctr s) (c_out run) m x'"
    using x_sealing_events [OF st(1) evs] by blast
  have same: "x_saved x' = x_saved x \<and> x_end x' = x_end x"
    using evs by (rule x_events_fixed)
  define notice where "notice = seal A K T_DONE (sv_sid s) (x_ctr x') (be16 (x_req_id x'))"
  have ctr: "x_ctr x' = sv_next_ctr s + of_nat m" and key: "x_keys x' = K" "sv_sid (x_saved x') = sv_sid s"
    using m(2) by (simp_all add: x_sealing_def)
  obtain new where new: "c_out (x_run x') = new" "sealed_under A K (sv_sid s) (sv_next_ctr s) m (map snd new)"
    using m(2) out by (auto simp: x_sealing_def)
  obtain n port where "c_out run' = new @ replicate n (port, notice)"
    using fin new key by (auto simp: x_finish_def x_learn_loss_def Let_def notice_def)
  then have sealed: "sealed_under A K (sv_sid s) (sv_next_ctr s) (Suc m) (map snd (c_out run'))"
    using sealed_under_snoc [OF new(2), of n T_DONE "be16 (x_req_id x')"] by (simp add: notice_def ctr)
  have s': "sv_next_ctr s' = max (x_end x') (x_ctr x' + 1)"
    using fin by (auto simp: x_finish_def Let_def)
  have m1024: "m < 1024" using m(1) len by simp
  have end': "unat (x_end x') = unat (sv_next_ctr s) + 1024"
    using same st(3) unat_add_u32 [of "sv_next_ctr s" 1024] room by (simp add: COUNTER_BLOCK_def)
  have unique: "p = q" if "p \<in> snd ` set (c_out run')" "q \<in> snd ` set (c_out run')"
    "map_option (snd \<circ> snd) (header p) = Some c" "map_option (snd \<circ> snd) (header q) = Some c" for p q c
  proof -
    from that obtain ty i ty' i' where "header p = Some (ty, i, c)" "header q = Some (ty', i', c)" by auto
    then show ?thesis
      using that m1024 by (intro sealed_under_unique [OF sealed assms(1)]) auto
  qed
  have reserved: "the content = saved_format (s\<lparr>sv_next_ctr := sv_next_ctr s + COUNTER_BLOCK\<rparr>)"
    using st(6) by simp
  have ok: "saved_ok (s\<lparr>sv_next_ctr := sv_next_ctr s + COUNTER_BLOCK\<rparr>)" using saved by (simp add: saved_ok_def)
  have within: "\<exists>ty c. header p = Some (ty, sv_sid s, c) \<and> sv_next_ctr s \<le> c \<and>
      c < sv_next_ctr s + COUNTER_BLOCK \<and> c < sv_next_ctr s'" if "p \<in> snd ` set (c_out run')" for p
  proof -
    have "p \<in> set (map snd (c_out run'))" using that by simp
    with sealed assms(1) obtain j ty where j: "j < Suc m" "header p = Some (ty, sv_sid s, sv_next_ctr s + of_nat j)"
      by (rule sealed_under_header)
    have u: "unat (sv_next_ctr s + of_nat j) = unat (sv_next_ctr s) + j"
      using j m1024 room by (intro unat_add_u32) simp
    have "x_end x' \<le> sv_next_ctr s'" by (simp add: s')
    then have "unat (sv_next_ctr s) + 1024 \<le> unat (sv_next_ctr s')" using end' by (simp add: word_le_nat_alt)
    then show ?thesis
      using j u m1024 end' same st(3)
      by (intro exI [of _ ty] exI [of _ "sv_next_ctr s + of_nat j"])
        (simp add: word_le_nat_alt word_less_nat_alt)
  qed
  show ?thesis
    unfolding reserved saved_parse_format [OF ok]
  proof (intro conjI ballI impI exI [of _ "s\<lparr>sv_next_ctr := sv_next_ctr s + COUNTER_BLOCK\<rparr>"])
    fix p q assume "p \<in> snd ` set (c_out run')" "q \<in> snd ` set (c_out run')"
      "\<exists>c. map_option (snd \<circ> snd) (header p) = Some c \<and> map_option (snd \<circ> snd) (header q) = Some c"
    then show "p = q" using unique by blast
  next
    fix p assume "p \<in> snd ` set (c_out run')"
    from within [OF this] show "\<exists>ty c. header p = Some (ty, sv_sid s, c) \<and> sv_next_ctr s \<le> c \<and>
        c < sv_next_ctr (s\<lparr>sv_next_ctr := sv_next_ctr s + COUNTER_BLOCK\<rparr>) \<and> c < sv_next_ctr s'" by simp
  qed simp_all
qed

definition saved0 :: Saved where
  "saved0 = \<lparr>sv_sid = 9, sv_send = replicate 32 1, sv_recv = replicate 32 3, sv_next_ctr = 5, sv_port = 0,
     sv_created_ms = 0, sv_reset = replicate 16 0, sv_gateway = replicate 32 4\<rparr>"

definition run0 :: Run where
  "run0 = \<lparr>c_ip = V4 1, c_ports = [3478], c_server_key = replicate 32 4, c_device = replicate 32 2,
     c_link = link_default, c_deadline = secs 60, c_up = 0, c_down = 0, c_retries = 0, c_heard = False,
     c_out = []\<rparr>"

definition io_fine :: slot_io where
  "io_fine = \<lparr>io_truncate = True, io_seek = True, io_write = True, io_part = 0, io_sync = True\<rparr>"

lemma start0: "\<exists>x content. x_start_saved plain_aead [] run0 [1] 7 saved0 (Some (io_fine, [])) 0 = (Inr x, content)"
  by (simp add: x_start_saved_def slot_write_def io_fine_def Let_def)

theorem exchange_counters_witness:
  "\<exists>x content run' s' r. x_start_saved plain_aead [] run0 [1] 7 saved0 (Some (io_fine, [])) 0 = (Inr x, content) \<and>
     x_finish plain_aead [] x = (run', s') \<and> saved_parse (the content) = Some r \<and> sv_sid r = 9"
proof -
  obtain x content where x: "x_start_saved plain_aead [] run0 [1] 7 saved0 (Some (io_fine, [])) 0 = (Inr x, content)"
    using start0 by blast
  obtain run' s' where f: "x_finish plain_aead [] x = (run', s')" by (meson surj_pair)
  have "saved_ok saved0" by (simp add: saved_ok_def saved0_def sizes)
  from exchange_counters [OF plain_aead_ok x _ this, of repeat_rs "[]" x "[]" run' s'] f
  show ?thesis using x by (auto simp: run0_def saved0_def)
qed

text \<open>
  C23: A response is what the gateway's symbols decode to.  When an exchange ends, every symbol
  it kept came in a datagram that opens under the session's keys as a symbol of this request,
  it holds at least as many as the one that ended it declares, and the result is their decoding
  at the length that one declares.
\<close>

theorem exchange_decodes_authentic:
  assumes "x_keys x = K" "x_req_id x = req" "x_got x = []" and "x_events A R x evs = Enough b x'"
  shows "(\<forall>(i, bs) \<in> set (x_got x'). \<exists>p \<in> set (arrived evs). \<exists>d.
      data_for A K req p = Some d \<and> d_sym d = i \<and> d_bytes d = bs) \<and>
    (\<exists>p \<in> set (arrived evs). \<exists>d. data_for A K req p = Some d \<and>
      unat (d_k d) \<le> length (x_got x') \<and> b = fec_decode R (unat (d_total d)) (x_got x'))"
proof -
  have "x_sound A K req (arrived evs) x" using assms(1-3) by (simp add: x_sound_def)
  from x_events_Enough [OF this order_refl assms(4)] show ?thesis by (simp add: x_sound_def)
qed

definition symbol0 :: bytes where
  "symbol0 = seal plain_aead \<lparr>k_send = replicate 32 3, k_recv = replicate 32 1\<rparr> T_DATA 9 0
     (data_encode \<lparr>d_req_id = 7, d_sym = 0, d_k = 1, d_total = 1, d_round = 0, d_pos = 0, d_len = 1,
        d_bytes = [42]\<rparr>)"

definition exchange0 :: Exchange where
  "exchange0 = x_start_new run0 [1] 7 phone_keys saved0 None 0 0 0"

lemma exchange0_ends:
  "\<exists>b x'. x_events plain_aead repeat_rs exchange0 [Arrive [] 0 0 symbol0] = Enough b x'"
proof -
  have "open_packet plain_aead phone_keys symbol0 = Some \<lparr>o_ptype = T_DATA, o_sid = 9, o_ctr = 0,
      o_plain = data_encode \<lparr>d_req_id = 7, d_sym = 0, d_k = 1, d_total = 1, d_round = 0, d_pos = 0,
        d_len = 1, d_bytes = [42]\<rparr>\<rparr>"
    unfolding symbol0_def by (rule open_seal) (simp_all add: plain_aead_ok phone_keys_def)
  moreover have "\<not> x_is_reset exchange0 symbol0"
    by (simp add: x_is_reset_def exchange0_def x_start_new_def x_loop_def)
  ultimately show ?thesis
    by (simp add: x_packet_def exchange0_def x_start_new_def x_loop_def data_not_working data_decode_encode
        x_symbol_def Let_def x_keep_symbol_def x_learn_rate_def)
qed

theorem exchange_decodes_authentic_witness:
  "\<exists>b x'. x_events plain_aead repeat_rs exchange0 [Arrive [] 0 0 symbol0] = Enough b x' \<and>
     (\<forall>(i, bs) \<in> set (x_got x'). \<exists>d. data_for plain_aead phone_keys 7 symbol0 = Some d \<and> d_sym d = i)"
proof -
  obtain b x' where e: "x_events plain_aead repeat_rs exchange0 [Arrive [] 0 0 symbol0] = Enough b x'"
    using exchange0_ends by blast
  have "x_keys exchange0 = phone_keys" "x_req_id exchange0 = 7" "x_got exchange0 = []"
    by (simp_all add: exchange0_def x_start_new_def x_loop_def)
  from exchange_decodes_authentic [OF this e] e show ?thesis by auto
qed

text \<open>
  A saved session reads back as it was saved, all eight fields.
\<close>

theorem saved_session_roundtrip:
  assumes "saved_ok s" shows "slot_read (Some (snd (slot_write io_fine s f))) = Some s"
  using saved_parse_format [OF assms] by (simp add: slot_read_def slot_write_def io_fine_def)

theorem saved_session_roundtrip_witness:
  "slot_read (Some (snd (slot_write io_fine saved0 []))) = Some saved0"
  by (rule saved_session_roundtrip) (simp add: saved_ok_def saved0_def sizes)

end
