(* ===== verification/WireClaims.thy ===== *)
theory WireClaims
  imports Msg Link Samples
begin

section \<open>The wire format, the erasure code and the link estimates: their claims\<close>

text \<open>
  The packet frame.  With keys that match, a packet opens if and only if it is, byte for
  byte, what the other end seals for the type, session, counter and plaintext it opens to: what
  is sent is read back, and nothing that was not sealed under the key is ever opened.
\<close>

theorem frame_opens_exactly:
  assumes "aead_ok A" "aead_strict A" "k_recv R = k_send S"
  shows "open_packet A R p = Some o' \<longleftrightarrow>
    (\<exists>ty sid ctr plain. p = seal A S ty sid ctr plain \<and>
       o' = \<lparr>o_ptype = ty, o_sid = sid, o_ctr = ctr, o_plain = plain\<rparr>)"
proof
  assume "open_packet A R p = Some o'"
  from open_only_sealed [OF assms(2) this assms(3)]
  show "\<exists>ty sid ctr plain. p = seal A S ty sid ctr plain \<and>
      o' = \<lparr>o_ptype = ty, o_sid = sid, o_ctr = ctr, o_plain = plain\<rparr>"
    by (metis Opened.surjective old.unit.exhaust)
qed (auto simp: open_seal [OF assms(1,3)])

theorem frame_opens_exactly_witness:
  "open_packet plain_aead phone_keys (seal plain_aead (s_keys sess0) T_DATA 9 3 [1, 2]) =
     Some \<lparr>o_ptype = T_DATA, o_sid = 9, o_ctr = 3, o_plain = [1, 2]\<rparr>"
  using frame_opens_exactly [OF plain_aead_ok plain_aead_strict, of phone_keys "s_keys sess0"] by auto

text \<open>
  C8: The replay window is the set of the counters it accepted.  On any sequence of counters,
  in any order, the 64-bit window accepts exactly those that the specification accepts: a
  counter not accepted before and less than 64 behind the greatest one; so no counter is
  accepted twice.
\<close>

theorem replay_window_refines:
  "accepted accept new_window cs =
     accepted (\<lambda>S c. (accept_spec S (unat c), if accept_spec S (unat c) then insert (unat c) S else S)) {} cs \<and>
   distinct (accepted accept new_window cs)"
proof (rule conjI)
  have "accepted accept w cs = accepted (\<lambda>S c. (accept_spec S (unat c),
      if accept_spec S (unat c) then insert (unat c) S else S)) S cs" if "window_rel w S" for w S
    using that
  proof (induction cs arbitrary: w S)
    case (Cons c cs)
    obtain ok w' where a: "accept w c = (ok, w')" by (cases "accept w c") auto
    from accept_refines [OF Cons.prems, of c] a
    have "ok = accept_spec S (unat c)" "window_rel w' (if ok then insert (unat c) S else S)" by simp_all
    then show ?case using Cons.IH [of w'] a by simp
  qed simp
  then show "accepted accept new_window cs = accepted (\<lambda>S c. (accept_spec S (unat c),
      if accept_spec S (unat c) then insert (unat c) S else S)) {} cs" by simp
  show "distinct (accepted accept new_window cs)"
    using window.accepted_once [OF window_holds_new] by blast
qed

text \<open>
  Plaintext layouts.  A request decodes from exactly the bytes it encodes to, and so does a
  symbol: no two plaintexts mean the same message, and no byte of one is lost.
\<close>

theorem plaintexts_decode_exactly:
  "(req_decode b = Some r \<longleftrightarrow> b = req_encode r) \<and> (data_decode (data_encode d) = Some d) \<and>
   (req_decode b = None \<longleftrightarrow> length b < 13)"
proof -
  have "req_decode b = None \<longleftrightarrow> length b < 13" by (simp add: req_decode_def)
  then show ?thesis using req_encode_decode req_decode_encode data_decode_encode by blast
qed

text \<open>
  C11: The erasure code.  Any set of genuine symbols of a body, data or repair, under distinct
  indices, rebuilds it byte for byte as soon as there are as many as the body has data symbols:
  the padding of the data symbols, which is not sent, is put back for the code and cut off after.
\<close>

theorem fec_recovers:
  assumes "rs_ok R (fst (shape (length body))) (repair_pool (fst (shape (length body)))) (padded_symbols body)"
    and "fec_encode R body = Some (data, repair)" and "length body < 2 ^ 16"
    and "genuine data repair symbols" and "fst (shape (length body)) \<le> length symbols"
  shows "fec_decode R (length body) symbols = Some body"
  using assms by (rule fec_decode_recovers)

theorem fec_recovers_witness:
  "fec_decode repeat_rs 1 [(1, [42, 0])] = Some [42]"
proof -
  have sh: "shape (length [42 :: u8]) = (1, 2)" by (simp add: shape_def div_ceil_def SYMBOL_def)
  then have pad: "padded_symbols [42] = [[42, 0]]"
    by (simp add: padded_symbols_def data_symbols_def resize_def SYMBOL_def)
  have data: "data_symbols [42] = [[42]]" using sh by (simp add: data_symbols_def SYMBOL_def)
  define m where "m = repair_pool 1"
  have m: "0 < m" using repair_pool_bounds [of 1] by (simp add: m_def)
  have "fec_encode repeat_rs [42] = Some ([[42, 0]], replicate m [42, 0])"
    using sh pad data by (simp add: fec_encode_def Let_def repeat_rs_def m_def)
  from fec_recovers [OF _ this, of "[(1, [42, 0])]"] show ?thesis
    using sh pad m repeat_rs_ok [of m "[42, 0]"] by (simp add: m_def genuine_def hm_ok_def)
qed

text \<open>
  The symbol budget.  A response within the limit has from 1 to \<open>MAX_K\<close> data symbols that
  cover it, its first burst adds at most eight repair symbols and never more than there are data
  symbols, a later request asks for at most four more than are missing, and every symbol
  index of the whole response fits the one byte it is sent in.
\<close>

theorem symbol_budget:
  assumes "len \<le> MAX_RESPONSE"
  shows "let k = fst (shape len) in 1 \<le> k \<and> k \<le> MAX_K \<and> len \<le> k * snd (shape len) \<and>
    choose_repair k p tp up rtt \<le> min k 8 \<and> extra_for deficit p \<le> 4 \<and>
    0 < repair_pool k \<and> k + repair_pool k \<le> 255"
  using shape_k_pos shape_k_max [OF assms] shape_covers choose_repair_le [OF shape_k_pos] extra_for_le
    repair_pool_bounds [of "fst (shape len)"]
  by (simp add: Let_def MAX_K_def)

theorem symbol_budget_witness:
  "let k = fst (shape 3000) in 1 \<le> k \<and> k \<le> MAX_K \<and> 3000 \<le> k * snd (shape 3000) \<and>
    choose_repair k (Fin 0) (Fin 1) (Fin 1) (Fin 1) \<le> min k 8 \<and> extra_for 1 (Fin 0) \<le> 4 \<and>
    0 < repair_pool k \<and> k + repair_pool k \<le> 255"
  by (rule symbol_budget) (simp add: fec_sizes)

subsection \<open>The link estimates\<close>

text \<open>What can happen to the estimates: counts, a measured arrival spacing, a round trip.\<close>

datatype link_event =
    Counted nat nat
  | Spacing nat f64 bool
  | RoundTrip f64

fun link_event_ok :: "link_event \<Rightarrow> bool" where
  "link_event_ok (Counted lost sent) \<longleftrightarrow> lost \<le> sent \<and> sent \<le> 1048576"
| "link_event_ok (Spacing n per first) \<longleftrightarrow> f_in (1 / 1024) 1048576 per"
| "link_event_ok (RoundTrip s) \<longleftrightarrow> s \<noteq> NaN"

fun link_step :: "Link \<Rightarrow> link_event \<Rightarrow> Link" where
  "link_step l (Counted lost sent) = observe lost sent l"
| "link_step l (Spacing n per first) = sample_rate n per first l"
| "link_step l (RoundTrip s) = sample_rtt s l"

text \<open>
  C30: The estimates stay usable.  After any sequence of measurements from the defaults, the
  loss estimate is a number from 0 to 0.6, the percentage told to the gateway at most 60 (or
  unknown), the time of a packet from 1/4096 to 10 seconds and the slack from 1/16 to 32: none
  is ever NaN, infinite or zero, whatever the rounding.
\<close>

theorem link_estimates_bounded:
  assumes "list_all link_event_ok evs"
  shows "let l = foldl link_step link_default evs in
    f_in 0 (fl_rat (6 / 10)) (loss l) \<and> (loss_pct l \<le> 60 \<or> loss_pct l = LOSS_UNKNOWN) \<and>
    f_in (1 / 4096) 10 (packet_time l) \<and> f_in (1 / 16) 32 (slack l)"
proof -
  have "link_ok (link_step l ev)" if "link_ok l" "link_event_ok ev" for l ev
    using that by (cases ev) (auto intro: link_ok_observe link_ok_sample_rate link_ok_sample_rtt)
  then have "link_ok (foldl link_step l evs)" if "link_ok l" for l
    using assms that by (induction evs arbitrary: l) auto
  from this [OF link_ok_default] show ?thesis
    unfolding Let_def by (intro conjI loss_in loss_pct_bound packet_time_in slack_in)
qed

theorem link_estimates_bounded_witness:
  "f_in (1 / 4096) 10 (packet_time (foldl link_step link_default [Counted 1 5, RoundTrip (Fin 1)]))"
  using link_estimates_bounded [of "[Counted 1 5, RoundTrip (Fin 1)]"] by (simp add: Let_def)

text \<open>
  The estimates survive being saved.  What \<^verbatim>\<open>format\<close> writes \<^verbatim>\<open>parse\<close> reads back: the flag and
  the port exactly, rate, counts and jitter rounded to the digits printed, and the result again
  within the bounds.
\<close>

theorem link_file_roundtrip:
  assumes "link_ok l" and "l_port l < 2 ^ 53"
  shows "\<exists>l'. link_parse (link_format l) = Some l' \<and> link_ok l' \<and> l_measured l' = l_measured l \<and>
    l_port l' = l_port l \<and>
    (\<forall>r a b j. l_rate l = Fin r \<and> l_lost l = Fin a \<and> l_sent l = Fin b \<and> l_jitter l = Fin j \<longrightarrow>
       l_rate l' = Fin (printed 1 r) \<and> l_lost l' = Fin (printed 3 a) \<and> l_sent l' = Fin (printed 3 b) \<and>
       l_jitter l' = Fin (printed 4 j))"
  using assms by (rule link_parse_format)

theorem link_file_roundtrip_witness:
  "\<exists>l'. link_parse (link_format link_default) = Some l' \<and> link_ok l' \<and> l_port l' = l_port link_default"
  using link_file_roundtrip [OF link_ok_default] by (force simp: link_default_def)

end
