(* ===== verification/StdData.thy ===== *)
theory StdData
  imports Text "HOL-Library.List_Lexorder"
begin

section \<open>UTF-8, ordered maps and JSON\<close>

text \<open>
  What the page formats and the servers use of the standard library and of \<^verbatim>\<open>serde_json\<close>:
  the check of \<^verbatim>\<open>String::from_utf8\<close>, the \<^verbatim>\<open>BTreeMap\<close> from strings, and JSON values.  Reading
  and printing JSON is a parameter, its values are a datatype.
\<close>

subsection \<open>UTF-8\<close>

definition utf8_tail :: "u8 \<Rightarrow> bool" where
  "utf8_tail b \<longleftrightarrow> 0x80 \<le> b \<and> b \<le> 0xBF"

text \<open>The well-formed sequences of the Unicode standard's table, by their first byte.\<close>

fun utf8 :: "bytes \<Rightarrow> bool" where
  "utf8 [] = True"
| "utf8 (b # rest) =
     (if b < 0x80 then utf8 rest
      else if 0xC2 \<le> b \<and> b \<le> 0xDF then
        (case rest of c # r \<Rightarrow> utf8_tail c \<and> utf8 r | _ \<Rightarrow> False)
      else if 0xE0 \<le> b \<and> b \<le> 0xEF then
        (case rest of c # d # r \<Rightarrow> utf8_tail c \<and> utf8_tail d \<and> (b = 0xE0 \<longrightarrow> 0xA0 \<le> c) \<and>
           (b = 0xED \<longrightarrow> c \<le> 0x9F) \<and> utf8 r | _ \<Rightarrow> False)
      else if 0xF0 \<le> b \<and> b \<le> 0xF4 then
        (case rest of c # d # e # r \<Rightarrow> utf8_tail c \<and> utf8_tail d \<and> utf8_tail e \<and>
           (b = 0xF0 \<longrightarrow> 0x90 \<le> c) \<and> (b = 0xF4 \<longrightarrow> c \<le> 0x8F) \<and> utf8 r | _ \<Rightarrow> False)
      else False)"

text \<open>What the value of a Rust \<^verbatim>\<open>String\<close> always is.\<close>

definition is_str :: "string \<Rightarrow> bool" where
  "is_str s \<longleftrightarrow> utf8 (as_bytes s)"

definition from_utf8 :: "bytes \<Rightarrow> string option" where
  "from_utf8 b = (if utf8 b then Some (of_bytes b) else None)"

lemma is_str_Nil [simp]: "is_str []"
  by (simp add: is_str_def as_bytes_def)

lemma from_utf8_str [simp]: "is_str s \<Longrightarrow> from_utf8 (as_bytes s) = Some s"
  by (simp add: from_utf8_def is_str_def)

lemma from_utf8_is_str: "from_utf8 b = Some s \<Longrightarrow> is_str s \<and> as_bytes s = b"
  by (auto simp: from_utf8_def is_str_def split: if_splits)

lemma length_as_bytes [simp]: "length (as_bytes s) = length s"
  by (simp add: as_bytes_def)

text \<open>Plain ASCII is UTF-8.\<close>

lemma utf8_ascii: "list_all (\<lambda>b. b < 0x80) bs \<Longrightarrow> utf8 bs"
  by (induction bs) auto

lemma is_str_ascii: "list_all (\<lambda>c. char_code c < 128) s \<Longrightarrow> is_str s"
  unfolding is_str_def as_bytes_def
proof (rule utf8_ascii)
  assume "list_all (\<lambda>c. char_code c < 128) s"
  moreover have "char_byte c < 0x80" if "char_code c < 128" for c
    using that by (simp add: char_byte_def char_code_def word_less_nat_alt unat_of_nat take_bit_nat_eq_self)
  ultimately show "list_all (\<lambda>b. b < 0x80) (map char_byte s)"
    by (auto simp: list_all_iff)
qed

subsection \<open>Ordered maps\<close>

text \<open>
  A \<^verbatim>\<open>BTreeMap\<close> is the list of its entries in the order of the keys, which is the order
  it iterates in.
\<close>

type_synonym ('k, 'v) bmap = "('k \<times> 'v) list"

fun bt_insert :: "'k::linorder \<Rightarrow> 'v \<Rightarrow> ('k, 'v) bmap \<Rightarrow> ('k, 'v) bmap" where
  "bt_insert k v [] = [(k, v)]"
| "bt_insert k v ((k', v') # m) =
     (if k < k' then (k, v) # (k', v') # m
      else if k = k' then (k, v) # m
      else (k', v') # bt_insert k v m)"

definition bt_ok :: "('k::linorder, 'v) bmap \<Rightarrow> bool" where
  "bt_ok m \<longleftrightarrow> sorted_wrt (<) (map fst m)"

lemma bt_ok_Nil [simp]: "bt_ok []"
  by (simp add: bt_ok_def)

lemma fst_bt_insert: "fst ` set (bt_insert k v m) = insert k (fst ` set m)"
  by (induction k v m rule: bt_insert.induct) auto

lemma bt_ok_insert [simp, intro]: "bt_ok m \<Longrightarrow> bt_ok (bt_insert k v m)"
proof (induction k v m rule: bt_insert.induct)
  case (2 k v k' v' m)
  then show ?case
    using fst_bt_insert [of k v m] by (auto simp: bt_ok_def image_iff dest: order.strict_trans)
qed (simp add: bt_ok_def)

lemma map_of_bt_insert [simp]: "map_of (bt_insert k v m) k' = (if k' = k then Some v else map_of m k')"
  by (induction k v m rule: bt_insert.induct) auto

lemma bt_insert_last:
  "\<forall>k' \<in> fst ` set m. k' < k \<Longrightarrow> bt_insert k v m = m @ [(k, v)]"
  by (induction k v m rule: bt_insert.induct) (auto dest: order.strict_trans)

lemma foldl_bt_insert:
  "bt_ok (m @ es) \<Longrightarrow> foldl (\<lambda>m (k, v). bt_insert k v m) m es = m @ es"
proof (induction es arbitrary: m)
  case (Cons e es)
  obtain k v where e: "e = (k, v)" by (cases e)
  have "\<forall>k' \<in> fst ` set m. k' < k"
    using Cons.prems e by (auto simp: bt_ok_def sorted_wrt_append)
  then show ?case using Cons.IH [of "m @ [e]"] Cons.prems e by (simp add: bt_insert_last)
qed simp

subsection \<open>JSON\<close>

text \<open>
  Values as \<^verbatim>\<open>serde_json\<close> has them.  A number is its text; an object is the list of its
  entries, those of a \<^verbatim>\<open>Value\<close> with distinct keys in their order.
\<close>

datatype json =
    JNull
  | JBool bool
  | JNum string
  | JStr string
  | JArr "json list"
  | JObj "(string \<times> json) list"

fun j_get :: "json \<Rightarrow> string \<Rightarrow> json option" where
  "j_get (JObj m) k = map_of m k"
| "j_get _ k = None"

fun j_str :: "json \<Rightarrow> string option" where
  "j_str (JStr s) = Some s"
| "j_str _ = None"

fun j_bool :: "json \<Rightarrow> bool option" where
  "j_bool (JBool b) = Some b"
| "j_bool _ = None"

definition j_field :: "json \<Rightarrow> string \<Rightarrow> string option" where
  "j_field v k = Option.bind (j_get v k) j_str"

text \<open>
  The crate: reading and printing.  \<open>json_ok\<close> is what the code relies on, for a set \<open>V\<close> of values
  that holds all that are read and their members: what is printed reads back.
\<close>

record json_lib =
  js_read :: "string \<Rightarrow> json option"
  js_print :: "json \<Rightarrow> string"

definition json_ok :: "json_lib \<Rightarrow> json set \<Rightarrow> bool" where
  "json_ok J V \<longleftrightarrow> (\<forall>v \<in> V. js_read J (js_print J v) = Some v) \<and>
     (\<forall>s v. js_read J s = Some v \<longrightarrow> v \<in> V) \<and>
     (\<forall>v k w. v \<in> V \<longrightarrow> j_get v k = Some w \<longrightarrow> w \<in> V)"

subsection \<open>Derived readers and writers\<close>

text \<open>
  What \<^verbatim>\<open>#[derive(Deserialize)]\<close> does with the fields of an object: a field is looked for under
  its name and aliases, twice is an error, unknown fields are skipped; an \<^verbatim>\<open>Option\<close> that is
  missing or null is \<^verbatim>\<open>None\<close>.  \<open>opt_entry\<close> is \<^verbatim>\<open>skip_serializing_if = "Option::is_none"\<close>.
\<close>

definition find_field :: "string list \<Rightarrow> (string \<times> json) list \<Rightarrow> json option option" where
  "find_field names m = (case filter (\<lambda>(k, _). k \<in> set names) m of
     [] \<Rightarrow> Some None | [(_, v)] \<Rightarrow> Some (Some v) | _ \<Rightarrow> None)"

definition str_field :: "string list \<Rightarrow> (string \<times> json) list \<Rightarrow> string option" where
  "str_field names m = do { f \<leftarrow> find_field names m; v \<leftarrow> f; j_str v }"

definition opt_field :: "string list \<Rightarrow> (string \<times> json) list \<Rightarrow> string option option" where
  "opt_field names m = do { f \<leftarrow> find_field names m;
     case f of None \<Rightarrow> Some None | Some JNull \<Rightarrow> Some None | Some v \<Rightarrow> map_option Some (j_str v) }"

definition opt_entry :: "string \<Rightarrow> string option \<Rightarrow> (string \<times> json) list" where
  "opt_entry k v = (case v of None \<Rightarrow> [] | Some s \<Rightarrow> [(k, JStr s)])"

fun j_fields :: "json \<Rightarrow> (string \<times> json) list option" where
  "j_fields (JObj m) = Some m"
| "j_fields _ = None"

lemmas field_defs = find_field_def str_field_def opt_field_def opt_entry_def

subsection \<open>Results\<close>

text \<open>The question mark on a \<^verbatim>\<open>Result\<close>: errors are on the left.\<close>

fun and_then :: "'e + 'a \<Rightarrow> ('a \<Rightarrow> 'e + 'b) \<Rightarrow> 'e + 'b" where
  "and_then (Inl e) f = Inl e"
| "and_then (Inr x) f = f x"

fun map_err :: "('e \<Rightarrow> 'd) \<Rightarrow> 'e + 'a \<Rightarrow> 'd + 'a" where
  "map_err g (Inl e) = Inl (g e)"
| "map_err g (Inr x) = Inr x"

lemma and_then_Inr: "and_then r f = Inr y \<longleftrightarrow> (\<exists>x. r = Inr x \<and> f x = Inr y)"
  by (cases r) auto

end
