(* ===== verification/WirePage.thy ===== *)
theory WirePage
  imports StdData Bytes
begin

section \<open>Page fetches over UDP (vtop-shared/src/wire_page.rs)\<close>

text \<open>
  The binary request and answer of a page fetch, and the hash a session is known by.  A
  \<^verbatim>\<open>Reader\<close> is the input left; each of its methods returns the value and what follows it.
\<close>

definition NEED_SESSION :: u16 where "NEED_SESSION = 428"
definition TOO_LARGE :: u16 where "TOO_LARGE = 413"
definition BUSY :: u16 where "BUSY = 429"
definition UNSUPPORTED :: u16 where "UNSUPPORTED = 426"
definition VERSION :: u8 where "VERSION = 1"
definition SIGN_IN_BODY :: string where "SIGN_IN_BODY = ''body''"

record WirePageRequest =
  wq_request_id :: "string option"
  wq_name :: string
  wq_semester :: "string option"
  wq_args :: "(string, string) bmap"
  wq_dictionary :: "string option"
  wq_session_hash :: u64
  wq_session :: "string option"
  wq_account :: "string option"

record WirePageResponse =
  wr_status :: u16
  wr_packed :: bool
  wr_body :: bytes
  wr_session :: "string option"

subsection \<open>The hash of a session\<close>

definition fnv :: "bytes \<Rightarrow> u64" where
  "fnv bs = foldl (\<lambda>h b. (h XOR ucast b) * 0x100000001b3) 0xcbf29ce484222325 bs"

definition session_hash :: "json_lib \<Rightarrow> string \<Rightarrow> u64" where
  "session_hash J session_json =
     (let cookies = do { v \<leftarrow> js_read J session_json; j_field v ''cookies'' }
      in fnv (as_bytes (case cookies of None \<Rightarrow> session_json | Some c \<Rightarrow> c)))"

subsection \<open>Writing\<close>

definition put_long :: "string \<Rightarrow> bytes option" where
  "put_long s = (if length s < 2 ^ 16 then Some (be16 (of_nat (length s)) @ as_bytes s) else None)"

definition put_short :: "string \<Rightarrow> bytes option" where
  "put_short s = (if length s < 2 ^ 8 then Some (of_nat (length s) # as_bytes s) else None)"

text \<open>\<^verbatim>\<open>u32::from_str_radix(_, 16)\<close>: hexadecimal digits of either case after an optional plus sign.\<close>

definition parse_hex_u32 :: "string \<Rightarrow> u32 option" where
  "parse_hex_u32 s =
     (let digits = (case s of c # cs \<Rightarrow> if c = CHR ''+'' then cs else s | [] \<Rightarrow> [])
      in if digits = [] then None
         else do { ds \<leftarrow> collect_opt (map hex_val digits);
                   let n = foldl (\<lambda>n d. 16 * n + d) 0 ds;
                   if n < 2 ^ 32 then Some (of_nat n) else None })"

definition wire_id :: "string option \<Rightarrow> u32" where
  "wire_id request_id =
     (case request_id of None \<Rightarrow> 0
      | Some s \<Rightarrow> if length s = 8 then case_option 0 (\<lambda>n. n) (parse_hex_u32 s) else 0)"

fun put_args :: "(string, string) bmap \<Rightarrow> bytes option" where
  "put_args [] = Some []"
| "put_args ((k, v) # m) =
     do { a \<leftarrow> put_short k; b \<leftarrow> put_short v; c \<leftarrow> put_args m; Some (a @ b @ c) }"

definition or_empty :: "string option \<Rightarrow> string" where
  "or_empty s = (case s of None \<Rightarrow> [] | Some t \<Rightarrow> t)"

definition wq_encode :: "WirePageRequest \<Rightarrow> bytes option" where
  "wq_encode q =
     do { name \<leftarrow> put_short (wq_name q);
          semester \<leftarrow> put_short (or_empty (wq_semester q));
          count \<leftarrow> (if length (wq_args q) < 2 ^ 8 then Some (of_nat (length (wq_args q))) else None);
          args \<leftarrow> put_args (wq_args q);
          dictionary \<leftarrow> put_short (or_empty (wq_dictionary q));
          session \<leftarrow> put_long (or_empty (wq_session q));
          account \<leftarrow> (case wq_account q of None \<Rightarrow> Some [] | Some a \<Rightarrow> put_long a);
          Some ([0, VERSION] @ be32 (wire_id (wq_request_id q)) @ name @ semester @ [count] @ args @
            dictionary @ be64 (wq_session_hash q) @ session @ account) }"

definition wr_encode :: "WirePageResponse \<Rightarrow> bytes" where
  "wr_encode r =
     be16 (wr_status r) @
     [of_bool (wr_packed r) OR push_bit 1 (of_bool (wr_session r \<noteq> None))] @
     (case wr_session r of None \<Rightarrow> [] | Some s \<Rightarrow> case_option [] (\<lambda>b. b) (put_long s)) @
     wr_body r"

subsection \<open>Reading\<close>

definition rd_take :: "nat \<Rightarrow> bytes \<Rightarrow> (bytes \<times> bytes) option" where
  "rd_take n r = (if length r < n then None else Some (take n r, drop n r))"

definition rd_byte :: "bytes \<Rightarrow> (u8 \<times> bytes) option" where
  "rd_byte r = do { (b, r) \<leftarrow> rd_take 1 r; Some (b ! 0, r) }"

definition rd_long :: "bytes \<Rightarrow> (string \<times> bytes) option" where
  "rd_long r = do { (n, r) \<leftarrow> rd_take 2 r;
                    (b, r) \<leftarrow> rd_take (unat (from_be n :: u16)) r;
                    s \<leftarrow> from_utf8 b; Some (s, r) }"

definition rd_short :: "bytes \<Rightarrow> (string \<times> bytes) option" where
  "rd_short r = do { (n, r) \<leftarrow> rd_byte r;
                     (b, r) \<leftarrow> rd_take (unat n) r;
                     s \<leftarrow> from_utf8 b; Some (s, r) }"

fun rd_args :: "nat \<Rightarrow> (string, string) bmap \<Rightarrow> bytes \<Rightarrow> ((string, string) bmap \<times> bytes) option" where
  "rd_args 0 m r = Some (m, r)"
| "rd_args (Suc n) m r =
     do { (k, r) \<leftarrow> rd_short r; (v, r) \<leftarrow> rd_short r; rd_args n (bt_insert k v m) r }"

definition wp_version :: "bytes \<Rightarrow> u8" where
  "wp_version b = (case b of z # version # _ \<Rightarrow> if z = 0 then version else 0 | _ \<Rightarrow> 0)"

definition non_empty :: "string \<Rightarrow> string option" where
  "non_empty s = (if s = [] then None else Some s)"

definition rd_request_id :: "bytes \<Rightarrow> (string option \<times> bytes) option" where
  "rd_request_id b =
     (let v = wp_version b
      in if v = 0 then Some (None, b)
         else if v = VERSION then
           do { (_, r) \<leftarrow> rd_take 2 b;
                (n, r) \<leftarrow> rd_take 4 r;
                let n = (from_be n :: u32);
                Some (if n \<noteq> 0 then Some (hex (be32 n)) else None, r) }
         else None)"

definition wq_decode :: "bytes \<Rightarrow> WirePageRequest option" where
  "wq_decode b =
     do { (request_id, r) \<leftarrow> rd_request_id b;
          (name, r) \<leftarrow> rd_short r;
          (semester, r) \<leftarrow> rd_short r;
          (count, r) \<leftarrow> rd_byte r;
          (args, r) \<leftarrow> rd_args (unat count) [] r;
          (dictionary, r) \<leftarrow> rd_short r;
          (hash, r) \<leftarrow> rd_take 8 r;
          (session, r) \<leftarrow> rd_long r;
          (account, r) \<leftarrow> (if r = [] then Some (None, r) else do { (a, r) \<leftarrow> rd_long r; Some (Some a, r) });
          if r = [] then
            Some \<lparr>wq_request_id = request_id, wq_name = name, wq_semester = non_empty semester,
                  wq_args = args, wq_dictionary = non_empty dictionary,
                  wq_session_hash = from_be hash, wq_session = non_empty session,
                  wq_account = account\<rparr>
          else None }"

definition wr_decode :: "bytes \<Rightarrow> WirePageResponse option" where
  "wr_decode b =
     do { (status, r) \<leftarrow> rd_take 2 b;
          (flags, r) \<leftarrow> rd_byte r;
          (session, r) \<leftarrow> (if flags AND 2 \<noteq> 0 then do { (s, r) \<leftarrow> rd_long r; Some (Some s, r) }
                          else Some (None, r));
          Some \<lparr>wr_status = from_be status, wr_packed = (flags AND 1 \<noteq> 0), wr_body = r,
                wr_session = session\<rparr> }"

subsection \<open>Fields\<close>

definition short_ok :: "string \<Rightarrow> bool" where
  "short_ok s \<longleftrightarrow> length s < 2 ^ 8 \<and> is_str s"

definition long_ok :: "string \<Rightarrow> bool" where
  "long_ok s \<longleftrightarrow> length s < 2 ^ 16 \<and> is_str s"

lemma rd_take_append [simp]: "length a = n \<Longrightarrow> rd_take n (a @ r) = Some (a, r)"
  by (simp add: rd_take_def)

lemma rd_byte_Cons [simp]: "rd_byte (b # r) = Some (b, r)"
  by (simp add: rd_byte_def rd_take_def)

lemma unat_of_nat_u8: "n < 2 ^ 8 \<Longrightarrow> unat (word_of_nat n :: u8) = n"
  by (simp add: unat_of_nat take_bit_nat_eq_self)

lemma unat_of_nat_u16: "n < 2 ^ 16 \<Longrightarrow> unat (word_of_nat n :: u16) = n"
  by (simp add: unat_of_nat take_bit_nat_eq_self)

interpretation short: field_format "the \<circ> put_short" rd_short short_ok
  by unfold_locales (simp add: short_ok_def put_short_def rd_short_def unat_of_nat_u8)

interpretation long: field_format "the \<circ> put_long" rd_long long_ok
  by unfold_locales (simp add: long_ok_def put_long_def rd_long_def unat_of_nat_u16)

lemma put_short_Some [simp]: "short_ok s \<Longrightarrow> \<exists>b. put_short s = Some b"
  by (simp add: put_short_def short_ok_def)

lemma put_long_Some [simp]: "long_ok s \<Longrightarrow> \<exists>b. put_long s = Some b"
  by (simp add: put_long_def long_ok_def)

lemma rd_short_put: "is_str s \<Longrightarrow> put_short s = Some b \<Longrightarrow> rd_short (b @ r) = Some (s, r)"
  using short.get_put [of s r] by (auto simp: short_ok_def put_short_def split: if_splits)

lemma rd_long_put: "is_str s \<Longrightarrow> put_long s = Some b \<Longrightarrow> rd_long (b @ r) = Some (s, r)"
  using long.get_put [of s r] by (auto simp: long_ok_def put_long_def split: if_splits)

lemma rd_args_put:
  "put_args m = Some b \<Longrightarrow> \<forall>(k, v) \<in> set m. is_str k \<and> is_str v \<Longrightarrow>
     rd_args (length m) m0 (b @ r) = Some (foldl (\<lambda>m (k, v). bt_insert k v m) m0 m, r)"
proof (induction m arbitrary: m0 b)
  case (Cons e m)
  then show ?case
    by (cases e) (auto simp: bind_eq_Some_conv rd_short_put)
qed simp

lemma put_long_nonempty: "put_long s = Some b \<Longrightarrow> b \<noteq> []"
  using length_be(1) [of "of_nat (length s)"]
  by (auto simp: put_long_def split: if_splits simp del: length_be)

subsection \<open>Flow ids\<close>

text \<open>Eight lower-case hexadecimal digits, not all zero: an id the format keeps.\<close>

definition id_ok :: "string option \<Rightarrow> bool" where
  "id_ok i \<longleftrightarrow> (case i of None \<Rightarrow> True | Some s \<Rightarrow> \<exists>n \<noteq> 0. s = hex (be32 n))"

lemma hex_digits: "collect_opt (map hex_val (hex bs)) =
    Some (concat (map (\<lambda>b. [unat b div 16, unat b mod 16]) bs))"
proof (induction bs)
  case (Cons b bs)
  have "unat b div 16 < 16" using u8_bound [of b] by simp
  then show ?case using Cons by (simp add: hex_def hex_byte_def hex_digit_val)
qed (simp add: hex_def)

lemma foldl_nibbles:
  "foldl (\<lambda>n d. 16 * n + d) a (concat (map (\<lambda>b. [unat b div 16, unat b mod 16]) bs)) =
     foldl (\<lambda>n b. 256 * n + unat b) a (bs :: bytes)"
proof (induction bs arbitrary: a)
  case (Cons b bs)
  have "16 * (16 * a + unat b div 16) + unat b mod 16 = 256 * a + unat b"
    using mult_div_mod_eq [of 16 "unat b"] by simp
  then show ?case using Cons [of "256 * a + unat b"] by (simp add: add.commute)
qed simp

lemma bytes_value_bound: "foldl (\<lambda>n b. 256 * n + unat b) 0 (bs :: bytes) < 256 ^ length bs"
proof (induction bs rule: rev_induct)
  case (snoc b bs)
  then have "foldl (\<lambda>n b. 256 * n + unat b) 0 bs + 1 \<le> 256 ^ length bs" by simp
  then have "256 * (foldl (\<lambda>n b. 256 * n + unat b) 0 bs + 1) \<le> 256 * 256 ^ length bs"
    by (rule mult_le_mono2)
  then show ?case using u8_bound [of b] by simp
qed simp

lemma from_be_value: "from_be bs = (word_of_nat (foldl (\<lambda>n b. 256 * n + unat b) 0 bs) :: u32)"
proof (induction bs rule: rev_induct)
  case (snoc b bs)
  have "push_bit 8 w OR ucast b = push_bit 8 w + ucast b" for w :: u32
    by (rule disjunctive_add [symmetric]) (auto simp: bit_simps dest: bit_imp_le_length)
  then have "from_be (bs @ [b]) = push_bit 8 (from_be bs :: u32) + ucast b"
    by (simp add: from_be_snoc)
  also have "\<dots> = 256 * from_be bs + word_of_nat (unat b)"
    by (simp add: push_bit_eq_mult)
  finally show ?case using snoc by simp
qed simp

lemma parse_hex_be32 [simp]: "parse_hex_u32 (hex (be32 n)) = Some n"
proof -
  let ?v = "foldl (\<lambda>n b. 256 * n + unat b) 0 (be32 n)"
  have "hex (be32 n) \<noteq> []" by (metis hex_nonempty length_be(2) list.size(3) zero_neq_numeral)
  then obtain c cs where h: "hex (be32 n) = c # cs" by (cases "hex (be32 n)") auto
  obtain a bs where ab: "be32 n = a # bs" using h by (cases "be32 n") (auto simp: hex_def)
  then have "c = hex_digit (unat a div 16)" using h by (simp add: hex_def hex_byte_def)
  then have "c \<noteq> CHR ''+''" using u8_bound [of a] hex_digit_not_plus [of "unat a div 16"] by simp
  then have digits: "(case hex (be32 n) of c # cs \<Rightarrow> if c = CHR ''+'' then cs else hex (be32 n) | [] \<Rightarrow> []) = hex (be32 n)"
    by (simp add: h)
  have "?v < 2 ^ 32" using bytes_value_bound [of "be32 n"] by simp
  moreover have "word_of_nat ?v = n" using from_be_value [of "be32 n"] by simp
  ultimately show ?thesis
    using \<open>hex (be32 n) \<noteq> []\<close>
    unfolding parse_hex_u32_def digits by (simp add: Let_def hex_digits foldl_nibbles)
qed

lemma length_hex_be32 [simp]: "length (hex (be32 n)) = 8"
  by simp

lemma wire_id_hex [simp]: "wire_id (Some (hex (be32 n))) = n"
  by (simp add: wire_id_def)

subsection \<open>Requests\<close>

text \<open>What the types and the callers guarantee of a request; its sizes are the encoder's business.\<close>

definition wq_ok :: "WirePageRequest \<Rightarrow> bool" where
  "wq_ok q \<longleftrightarrow> id_ok (wq_request_id q) \<and> is_str (wq_name q) \<and> bt_ok (wq_args q) \<and>
     (\<forall>(k, v) \<in> set (wq_args q). is_str k \<and> is_str v) \<and>
     (\<forall>s \<in> {wq_semester q, wq_dictionary q, wq_session q}. s \<noteq> Some [] \<and> is_str (or_empty s)) \<and>
     (case wq_account q of None \<Rightarrow> True | Some a \<Rightarrow> is_str a)"

lemma or_empty_non_empty: "s \<noteq> Some [] \<Longrightarrow> non_empty (or_empty s) = s"
  by (cases s) (auto simp: or_empty_def non_empty_def)

text \<open>The body of a request: what follows the zero byte, the version and the id, and is all of an old one.\<close>

definition rd_body :: "string option \<Rightarrow> bytes \<Rightarrow> WirePageRequest option" where
  "rd_body request_id r =
     do { (name, r) \<leftarrow> rd_short r;
          (semester, r) \<leftarrow> rd_short r;
          (count, r) \<leftarrow> rd_byte r;
          (args, r) \<leftarrow> rd_args (unat count) [] r;
          (dictionary, r) \<leftarrow> rd_short r;
          (hash, r) \<leftarrow> rd_take 8 r;
          (session, r) \<leftarrow> rd_long r;
          (account, r) \<leftarrow> (if r = [] then Some (None, r) else do { (a, r) \<leftarrow> rd_long r; Some (Some a, r) });
          if r = [] then
            Some \<lparr>wq_request_id = request_id, wq_name = name, wq_semester = non_empty semester,
                  wq_args = args, wq_dictionary = non_empty dictionary,
                  wq_session_hash = from_be hash, wq_session = non_empty session,
                  wq_account = account\<rparr>
          else None }"

lemma wq_decode_body: "wq_decode b = do { (request_id, r) \<leftarrow> rd_request_id b; rd_body request_id r }"
  by (simp add: wq_decode_def rd_body_def)

lemma rd_body_encode:
  assumes enc: "wq_encode q = Some b" and ok: "wq_ok q"
  shows "\<exists>body. b = [0, VERSION] @ be32 (wire_id (wq_request_id q)) @ body \<and>
    put_short (wq_name q) = Some (take (Suc (length (wq_name q))) body) \<and>
    (\<forall>i. rd_body i body = Some (q\<lparr>wq_request_id := i\<rparr>))"
proof -
  from enc obtain name semester args dictionary session account where
    parts: "put_short (wq_name q) = Some name" "put_short (or_empty (wq_semester q)) = Some semester"
      "put_args (wq_args q) = Some args" "put_short (or_empty (wq_dictionary q)) = Some dictionary"
      "put_long (or_empty (wq_session q)) = Some session"
      "(case wq_account q of None \<Rightarrow> Some [] | Some a \<Rightarrow> put_long a) = Some account"
    and count: "length (wq_args q) < 2 ^ 8"
    and b: "b = [0, VERSION] @ be32 (wire_id (wq_request_id q)) @ name @ semester @
      [of_nat (length (wq_args q))] @ args @ dictionary @ be64 (wq_session_hash q) @ session @ account"
    by (auto simp: wq_encode_def bind_eq_Some_conv split: if_splits)
  define body where "body = name @ semester @ [of_nat (length (wq_args q))] @ args @ dictionary @
    be64 (wq_session_hash q) @ session @ account"
  have strs: "is_str (wq_name q)" "is_str (or_empty (wq_semester q))" "is_str (or_empty (wq_dictionary q))"
    "is_str (or_empty (wq_session q))" "\<forall>(k, v) \<in> set (wq_args q). is_str k \<and> is_str v" "bt_ok ([] @ wq_args q)"
    and empties: "wq_semester q \<noteq> Some []" "wq_dictionary q \<noteq> Some []" "wq_session q \<noteq> Some []"
    using ok by (auto simp: wq_ok_def)
  have acc: "(if account = [] then Some (None, account)
      else do { (a, r) \<leftarrow> rd_long account; Some (Some a, r) }) = Some (wq_account q, [])"
  proof (cases "wq_account q")
    case (Some a)
    then have "put_long a = Some account" "is_str a" using parts(6) ok by (auto simp: wq_ok_def)
    then show ?thesis
      using rd_long_put [of a account "[]"] put_long_nonempty [of a account] Some by simp
  qed (use parts(6) in simp)
  have shorts: "rd_short (name @ r) = Some (wq_name q, r)"
    "rd_short (semester @ r) = Some (or_empty (wq_semester q), r)"
    "rd_short (dictionary @ r) = Some (or_empty (wq_dictionary q), r)"
    "rd_long (session @ r) = Some (or_empty (wq_session q), r)" for r
    using strs parts by (simp_all add: rd_short_put rd_long_put)
  have args: "rd_args (length (wq_args q)) [] (args @ r) = Some (wq_args q, r)" for r
    using rd_args_put [OF parts(3) strs(5)] foldl_bt_insert [OF strs(6)] by simp
  have n: "unat (word_of_nat (length (wq_args q)) :: u8) = length (wq_args q)"
    using count by (rule unat_of_nat_u8)
  have "rd_body i body = Some (q\<lparr>wq_request_id := i\<rparr>)" for i
  proof -
    have "rd_body i body = Some \<lparr>wq_request_id = i, wq_name = wq_name q, wq_semester = wq_semester q,
        wq_args = wq_args q, wq_dictionary = wq_dictionary q, wq_session_hash = wq_session_hash q,
        wq_session = wq_session q, wq_account = wq_account q\<rparr>"
      unfolding rd_body_def body_def append_Cons append_Nil shorts Option.bind.simps prod.case
        rd_byte_Cons n args rd_take_append [OF length_be(3)] acc from_be64
        empties [THEN or_empty_non_empty]
      by (simp only: if_True refl)
    also have "\<dots> = Some (q\<lparr>wq_request_id := i\<rparr>)" by simp
    finally show ?thesis .
  qed
  moreover have "put_short (wq_name q) = Some (take (Suc (length (wq_name q))) body)"
    using parts(1) by (auto simp: body_def put_short_def split: if_splits)
  moreover have "b = [0, VERSION] @ be32 (wire_id (wq_request_id q)) @ body"
    unfolding b body_def ..
  ultimately show ?thesis by blast
qed

subsection \<open>Claims\<close>

definition sample_request :: WirePageRequest where
  "sample_request = \<lparr>wq_request_id = Some (hex (be32 7)), wq_name = ''attendance'', wq_semester = Some ''AP'',
     wq_args = [(''date'', ''28''), (''id'', ''x'')], wq_dictionary = None, wq_session_hash = 5,
     wq_session = None, wq_account = Some ''{}''\<rparr>"

lemma sample_request_ok: "wq_ok sample_request"
proof -
  have "is_str ''attendance''" "is_str ''AP''" "is_str ''date''" "is_str ''28''" "is_str ''id''" "is_str ''x''"
    "is_str ''{}''"
    by (rule is_str_ascii, simp add: char_code_def)+
  moreover have "''date'' < (''id'' :: string)" by code_simp
  moreover have "\<exists>n. n \<noteq> 0 \<and> hex (be32 7) = hex (be32 n)" by (rule exI [of _ 7]) simp
  ultimately show ?thesis
    by (simp add: wq_ok_def sample_request_def id_ok_def or_empty_def bt_ok_def)
qed

lemma sample_request_encodes: "\<exists>b. wq_encode sample_request = Some b"
  by (simp add: wq_encode_def sample_request_def put_short_def put_long_def or_empty_def)

text \<open>
  A page request reads back as it was written: name, semester, every argument, dictionary,
  session, account and flow id.  Sent without its first six bytes, as phones from before
  versions did, it still reads as the same request without a flow id.
\<close>

theorem page_request_roundtrip:
  assumes "wq_ok q" and "wq_encode q = Some b"
  shows "wq_decode b = Some q \<and> wp_version b = VERSION \<and>
    (wq_name q \<noteq> [] \<longrightarrow> wq_decode (drop 6 b) = Some (q\<lparr>wq_request_id := None\<rparr>))"
proof -
  from rd_body_encode [OF assms(2,1)] obtain body where
    b: "b = [0, VERSION] @ be32 (wire_id (wq_request_id q)) @ body"
    and name: "put_short (wq_name q) = Some (take (Suc (length (wq_name q))) body)"
    and body: "\<And>i. rd_body i body = Some (q\<lparr>wq_request_id := i\<rparr>)" by blast
  have version: "wp_version b = VERSION" and skip: "rd_take 2 b = Some ([0, VERSION], drop 2 b)"
    and rest: "drop 2 b = be32 (wire_id (wq_request_id q)) @ body" "drop 6 b = body"
    by (simp_all add: b wp_version_def rd_take_def)
  have "rd_request_id b = Some (wq_request_id q, body)"
    using assms(1) unfolding rd_request_id_def version skip rest wq_ok_def id_ok_def
    by (cases "wq_request_id q") (auto simp: Let_def VERSION_def wire_id_def)
  then have "wq_decode b = Some q" by (simp add: wq_decode_body body)
  moreover have "wq_decode body = Some (q\<lparr>wq_request_id := None\<rparr>)" if "wq_name q \<noteq> []"
  proof -
    have len: "length (wq_name q) < 2 ^ 8"
      and first: "take (Suc (length (wq_name q))) body = of_nat (length (wq_name q)) # as_bytes (wq_name q)"
      using name by (auto simp: put_short_def split: if_splits)
    from first obtain rest where "body = of_nat (length (wq_name q)) # rest" by (cases body) auto
    moreover have "(of_nat (length (wq_name q)) :: u8) \<noteq> 0"
      using that unat_of_nat_u8 [OF len] by (metis length_0_conv unat_0)
    ultimately have "wp_version body = 0" by (simp add: wp_version_def split: list.split)
    then show ?thesis by (simp add: wq_decode_body rd_request_id_def body)
  qed
  ultimately show ?thesis using version rest by simp
qed

theorem page_request_roundtrip_witness:
  "\<exists>b. wq_encode sample_request = Some b \<and> wq_decode b = Some sample_request \<and>
     wq_decode (drop 6 b) = Some (sample_request\<lparr>wq_request_id := None\<rparr>)"
proof -
  obtain b where b: "wq_encode sample_request = Some b" using sample_request_encodes by blast
  have "wq_name sample_request \<noteq> []" by (simp add: sample_request_def)
  with page_request_roundtrip [OF sample_request_ok b] b show ?thesis by simp
qed

lemma put_short_None: "put_short s = None \<longleftrightarrow> 2 ^ 8 \<le> length s"
  and put_long_None: "put_long s = None \<longleftrightarrow> 2 ^ 16 \<le> length s"
  by (auto simp: put_short_def put_long_def)

lemma put_args_None: "put_args m = None \<longleftrightarrow> (\<exists>(k, v) \<in> set m. 2 ^ 8 \<le> length k \<or> 2 ^ 8 \<le> length v)"
proof (induction m)
  case (Cons e m)
  obtain k v where e: "e = (k, v)" by (cases e)
  have "put_args (e # m) = None \<longleftrightarrow> put_short k = None \<or> put_short v = None \<or> put_args m = None"
    unfolding e by (cases "put_short k"; cases "put_short v"; cases "put_args m") simp_all
  then show ?case using Cons e by (simp add: put_short_None)
qed simp

text \<open>
  A page request is refused exactly when a part of it does not fit its length field; nothing
  is ever cut short.
\<close>

theorem page_request_refused_iff:
  "wq_encode q = None \<longleftrightarrow>
     2 ^ 8 \<le> length (wq_name q) \<or> 2 ^ 8 \<le> length (or_empty (wq_semester q)) \<or> 2 ^ 8 \<le> length (wq_args q) \<or>
     (\<exists>(k, v) \<in> set (wq_args q). 2 ^ 8 \<le> length k \<or> 2 ^ 8 \<le> length v) \<or>
     2 ^ 8 \<le> length (or_empty (wq_dictionary q)) \<or> 2 ^ 16 \<le> length (or_empty (wq_session q)) \<or>
     (\<exists>a. wq_account q = Some a \<and> 2 ^ 16 \<le> length a)"
proof -
  have "wq_encode q = None \<longleftrightarrow> put_short (wq_name q) = None \<or> put_short (or_empty (wq_semester q)) = None \<or>
      2 ^ 8 \<le> length (wq_args q) \<or> put_args (wq_args q) = None \<or> put_short (or_empty (wq_dictionary q)) = None \<or>
      put_long (or_empty (wq_session q)) = None \<or> (\<exists>a. wq_account q = Some a \<and> put_long a = None)"
    by (cases "put_args (wq_args q)"; cases "wq_account q") (auto simp: wq_encode_def bind_eq_None_conv)
  then show ?thesis by (simp only: put_short_None put_long_None put_args_None)
qed

text \<open>
  An answer reads back as it was written, with or without a renewed session before its body.
\<close>

theorem page_answer_roundtrip:
  assumes "case wr_session r of None \<Rightarrow> True | Some s \<Rightarrow> long_ok s"
  shows "wr_decode (wr_encode r) = Some r"
proof -
  have flags: "(of_bool p OR push_bit 1 (of_bool s)) AND (2 :: u8) \<noteq> 0 \<longleftrightarrow> s"
    "(of_bool p OR push_bit 1 (of_bool s)) AND (1 :: u8) \<noteq> 0 \<longleftrightarrow> p" for p s
    by (cases p; cases s; simp)+
  show ?thesis
  proof (cases "wr_session r")
    case None
    have "wr_decode (wr_encode r) = Some \<lparr>wr_status = wr_status r, wr_packed = wr_packed r,
        wr_body = wr_body r, wr_session = None\<rparr>"
      using None flags [of "wr_packed r" False] by (simp add: wr_decode_def wr_encode_def)
    then show ?thesis using None by (cases r) simp
  next
    case (Some s)
    then obtain b where b: "put_long s = Some b" "is_str s" using assms by (auto simp: put_long_def long_ok_def)
    have "rd_long (b @ wr_body r) = Some (s, wr_body r)" using rd_long_put b by blast
    then have "wr_decode (wr_encode r) = Some \<lparr>wr_status = wr_status r, wr_packed = wr_packed r,
        wr_body = wr_body r, wr_session = Some s\<rparr>"
      using Some b flags [of "wr_packed r" True] by (simp add: wr_decode_def wr_encode_def)
    then show ?thesis using Some by (cases r) simp
  qed
qed

theorem page_answer_roundtrip_witness:
  "wr_decode (wr_encode \<lparr>wr_status = 200, wr_packed = True, wr_body = [1, 2], wr_session = Some ''{}''\<rparr>) =
     Some \<lparr>wr_status = 200, wr_packed = True, wr_body = [1, 2], wr_session = Some ''{}''\<rparr>"
  by (rule page_answer_roundtrip) (simp add: long_ok_def, rule is_str_ascii, simp add: char_code_def)

lemma fnv_step_inj: "x * 0x100000001b3 = y * 0x100000001b3 \<Longrightarrow> x = (y :: u64)"
proof -
  have one: "(0x100000001b3 :: u64) * 0xce965057aff6957b = 1" by simp
  assume "x * 0x100000001b3 = y * 0x100000001b3"
  then have "x * (0x100000001b3 * 0xce965057aff6957b) = y * (0x100000001b3 * 0xce965057aff6957b)"
    unfolding mult.assoc [symmetric] by (rule arg_cong)
  then show ?thesis by (simp only: one mult_1_right)
qed

lemma xor_inj: "x XOR z = y XOR z \<Longrightarrow> x = (y :: u64)"
proof -
  assume "x XOR z = y XOR z"
  then have "(x XOR z) XOR z = (y XOR z) XOR z" by simp
  then show ?thesis by (simp only: xor.assoc xor_self_eq xor.right_neutral)
qed

lemma fnv_fold_inj:
  "foldl (\<lambda>h b. (h XOR ucast b) * 0x100000001b3) x bs = foldl (\<lambda>h b. (h XOR ucast b) * 0x100000001b3) y bs \<Longrightarrow>
     x = (y :: u64)" for bs :: bytes
proof (induction bs arbitrary: x y)
  case (Cons b bs)
  from Cons.IH [of "(x XOR ucast b) * 0x100000001b3" "(y XOR ucast b) * 0x100000001b3"] Cons.prems
  have "(x XOR ucast b) * 0x100000001b3 = (y XOR ucast b) * 0x100000001b3" by simp
  then show ?case by (rule xor_inj [OF fnv_step_inj])
qed simp

lemma fnv_differ:
  assumes "fnv (pre @ x # post) = fnv (pre @ y # post)" shows "x = y"
proof -
  define h where "h = foldl (\<lambda>h b. (h XOR ucast b) * 0x100000001b3) (0xcbf29ce484222325 :: u64) pre"
  have "(h XOR ucast x) * 0x100000001b3 = (h XOR ucast y) * 0x100000001b3"
    using assms [unfolded fnv_def foldl_append list.simps foldl_Cons, folded h_def]
    by (rule fnv_fold_inj)
  then have "h XOR ucast x = h XOR ucast y" by (rule fnv_step_inj)
  then have "ucast x XOR h = ucast y XOR h" unfolding xor.commute [of h] .
  then have eq: "(ucast x :: u64) = ucast y" by (rule xor_inj)
  show ?thesis
  proof (rule bit_word_eqI)
    fix n assume "n < LENGTH(8)"
    moreover have "bit (ucast x :: u64) n = bit (ucast y :: u64) n" by (simp only: eq)
    ultimately show "bit x n = bit y n" by (simp add: bit_simps)
  qed
qed

text \<open>
  What a session is known by.  Two session texts with the same cookies have the same hash,
  whatever else they say; two whose cookies differ in exactly one byte never have.
\<close>

theorem session_hash_by_cookies:
  assumes "Option.bind (js_read J s) (\<lambda>v. j_field v ''cookies'') = Some (before @ x # after)"
    and "Option.bind (js_read J t) (\<lambda>v. j_field v ''cookies'') = Some (before @ y # after)"
  shows "session_hash J s = session_hash J t \<longleftrightarrow> x = y"
proof -
  have h: "session_hash J u = fnv (as_bytes before @ char_byte z # as_bytes after)"
    if "Option.bind (js_read J u) (\<lambda>v. j_field v ''cookies'') = Some (before @ z # after)" for u z
    using that by (simp add: session_hash_def Let_def as_bytes_def)
  have "char_byte x = char_byte y \<longleftrightarrow> x = y"
    by (metis byte_char_inverse)
  then show ?thesis
    unfolding h [OF assms(1)] h [OF assms(2)] using fnv_differ by blast
qed

definition sample_json :: json_lib where
  "sample_json = \<lparr>js_read = \<lambda>s. Some (JObj [(''cookies'', JStr s)]), js_print = \<lambda>v. []\<rparr>"

theorem session_hash_by_cookies_witness:
  "session_hash sample_json ''id=1'' \<noteq> session_hash sample_json ''id=2''"
  using session_hash_by_cookies [of sample_json "''id=1''" "''id=''" "CHR ''1''" "[]" "''id=2''" "CHR ''2''"]
  by (simp add: sample_json_def j_field_def)

end
