(* ===== verification/EngineTypes.thy ===== *)
theory EngineTypes
  imports StdData Frame
begin

section \<open>What the edge, the engine and the gateway say to each other (vtop-shared)\<close>

text \<open>
  The messages of \<^verbatim>\<open>engine.rs\<close> with their JSON as the derives of serde make and read it, and the
  small shared formats: token hashes, account ids, mailbox owners and the page dictionary.
\<close>

definition SESSION :: string where "SESSION = ''/engine/session''"
definition SEAL :: string where "SEAL = ''/engine/seal''"
definition LOGIN :: string where "LOGIN = ''/engine/login''"
definition FETCH :: string where "FETCH = ''/engine/fetch''"
definition VTOP_LOGIN :: string where "VTOP_LOGIN = ''/engine/vtop-login''"
definition VTOP_LOGIN_OTP :: string where "VTOP_LOGIN_OTP = ''/engine/vtop-login/otp''"
definition VTOP_LOGIN_RESEND :: string where "VTOP_LOGIN_RESEND = ''/engine/vtop-login/resend''"
definition LOGIN_DONE :: string where "LOGIN_DONE = ''/internal/accounts/login-done''"
definition OTP_AWAIT :: string where "OTP_AWAIT = ''/internal/mail-otp/await''"
definition UDP_KEYS_INTERNAL :: string where "UDP_KEYS_INTERNAL = ''/internal/udp-keys''"
definition UDP_KEYS :: string where "UDP_KEYS = ''/engine/udp-keys''"
definition UDP_KEYS_SEALED_FOR :: string where "UDP_KEYS_SEALED_FOR = ''udp-keys''"

lemmas routes = FETCH_def VTOP_LOGIN_def VTOP_LOGIN_OTP_def VTOP_LOGIN_RESEND_def UDP_KEYS_def

subsection \<open>Messages\<close>

record SessionCheck =
  sc_cookies :: "string option"
  sc_sealed_session :: "string option"
  sc_account :: "string option"

definition session_check_json :: "SessionCheck \<Rightarrow> json" where
  "session_check_json c = JObj (opt_entry ''cookies'' (sc_cookies c) @
     opt_entry ''sealedSession'' (sc_sealed_session c) @ opt_entry ''account'' (sc_account c))"

definition session_check_of :: "json \<Rightarrow> SessionCheck option" where
  "session_check_of v = do { m \<leftarrow> j_fields v; cookies \<leftarrow> opt_field [''cookies''] m;
     sealed \<leftarrow> opt_field [''sealedSession''] m; account \<leftarrow> opt_field [''account''] m;
     Some \<lparr>sc_cookies = cookies, sc_sealed_session = sealed, sc_account = account\<rparr> }"

datatype SessionStatus = Valid | Expired | Unknown

fun status_text :: "SessionStatus \<Rightarrow> string" where
  "status_text Valid = ''valid''" | "status_text Expired = ''expired''" | "status_text Unknown = ''unknown''"

definition status_of :: "string \<Rightarrow> SessionStatus option" where
  "status_of s = (if s = ''valid'' then Some Valid else if s = ''expired'' then Some Expired
     else if s = ''unknown'' then Some Unknown else None)"

record SessionChecked =
  sd_status :: SessionStatus
  sd_registration_number :: "string option"
  sd_cookies :: "string option"
  sd_csrf_token :: "string option"
  sd_sealed_session :: "string option"
  sd_owner_hash :: "string option"

definition session_checked_json :: "SessionChecked \<Rightarrow> json" where
  "session_checked_json c = JObj ([(''status'', JStr (status_text (sd_status c)))] @
     opt_entry ''registrationNumber'' (sd_registration_number c) @ opt_entry ''cookies'' (sd_cookies c) @
     opt_entry ''csrfToken'' (sd_csrf_token c) @ opt_entry ''sealedSession'' (sd_sealed_session c) @
     opt_entry ''ownerHash'' (sd_owner_hash c))"

definition session_checked_of :: "json \<Rightarrow> SessionChecked option" where
  "session_checked_of v = do { m \<leftarrow> j_fields v; st \<leftarrow> str_field [''status''] m; status \<leftarrow> status_of st;
     reg \<leftarrow> opt_field [''registrationNumber''] m; cookies \<leftarrow> opt_field [''cookies''] m;
     csrf \<leftarrow> opt_field [''csrfToken''] m; sealed \<leftarrow> opt_field [''sealedSession''] m;
     owner \<leftarrow> opt_field [''ownerHash''] m;
     Some \<lparr>sd_status = status, sd_registration_number = reg, sd_cookies = cookies, sd_csrf_token = csrf,
           sd_sealed_session = sealed, sd_owner_hash = owner\<rparr> }"

record GmailGrant =
  gg_refresh_token :: string
  gg_client_id :: string
  gg_client_secret :: "string option"
  gg_delete_after_reading :: bool

definition grant_json :: "GmailGrant \<Rightarrow> json" where
  "grant_json g = JObj ([(''refreshToken'', JStr (gg_refresh_token g)), (''clientId'', JStr (gg_client_id g))] @
     opt_entry ''clientSecret'' (gg_client_secret g) @
     [(''deleteAfterReading'', JBool (gg_delete_after_reading g))])"

text \<open>Each field also under the name the old bridge gave it.\<close>

definition grant_of :: "json \<Rightarrow> GmailGrant option" where
  "grant_of v = do { m \<leftarrow> j_fields v;
     token \<leftarrow> str_field [''refreshToken'', ''refresh_token''] m;
     client \<leftarrow> str_field [''clientId'', ''client_id''] m;
     secret \<leftarrow> opt_field [''clientSecret'', ''client_secret''] m;
     del \<leftarrow> find_field [''deleteAfterReading'', ''delete_after_reading''] m;
     delete \<leftarrow> (case del of None \<Rightarrow> Some False | Some b \<Rightarrow> j_bool b);
     Some \<lparr>gg_refresh_token = token, gg_client_id = client, gg_client_secret = secret,
           gg_delete_after_reading = delete\<rparr> }"

definition usable :: "GmailGrant \<Rightarrow> GmailGrant option" where
  "usable g =
     (let refresh_token = trim (gg_refresh_token g); client_id = trim (gg_client_id g)
      in if refresh_token = [] \<or> client_id = [] then None
         else Some \<lparr>gg_refresh_token = refresh_token, gg_client_id = client_id,
           gg_client_secret = (case gg_client_secret g of None \<Rightarrow> None
             | Some s \<Rightarrow> if trim s = [] then None else Some (trim s)),
           gg_delete_after_reading = gg_delete_after_reading g\<rparr>)"

record SealVault =
  sv_account :: string
  sv_username :: string
  sv_password :: string
  sv_gmail :: "GmailGrant option"

definition seal_vault_json :: "SealVault \<Rightarrow> json" where
  "seal_vault_json s = JObj ([(''account'', JStr (sv_account s)), (''username'', JStr (sv_username s)),
     (''password'', JStr (sv_password s))] @
     (case sv_gmail s of None \<Rightarrow> [] | Some g \<Rightarrow> [(''gmail'', grant_json g)]))"

definition seal_vault_of :: "json \<Rightarrow> SealVault option" where
  "seal_vault_of v = do { m \<leftarrow> j_fields v; account \<leftarrow> str_field [''account''] m;
     username \<leftarrow> str_field [''username''] m; password \<leftarrow> str_field [''password''] m;
     f \<leftarrow> find_field [''gmail''] m;
     gmail \<leftarrow> (case f of None \<Rightarrow> Some None | Some JNull \<Rightarrow> Some None | Some g \<Rightarrow> map_option Some (grant_of g));
     Some \<lparr>sv_account = account, sv_username = username, sv_password = password, sv_gmail = gmail\<rparr> }"

record LoginStart =
  ls_account :: string
  ls_sealed_vault :: string
  ls_request_id :: string

definition login_start_json :: "LoginStart \<Rightarrow> json" where
  "login_start_json s = JObj [(''account'', JStr (ls_account s)), (''sealedVault'', JStr (ls_sealed_vault s)),
     (''requestId'', JStr (ls_request_id s))]"

definition login_start_of :: "json \<Rightarrow> LoginStart option" where
  "login_start_of v = do { m \<leftarrow> j_fields v; account \<leftarrow> str_field [''account''] m;
     vault \<leftarrow> str_field [''sealedVault''] m; request \<leftarrow> str_field [''requestId''] m;
     Some \<lparr>ls_account = account, ls_sealed_vault = vault, ls_request_id = request\<rparr> }"

text \<open>The outcome of a sign-in, its variant named by the field \<^verbatim>\<open>status\<close>.\<close>

datatype LoginOutcome =
    OutcomeOk string string "string option"
  | InvalidCredentials
  | VaultUnusable
  | ForwardingRequired
  | GmailRevoked string
  | OutcomeFailed string

fun outcome_fields :: "LoginOutcome \<Rightarrow> (string \<times> json) list" where
  "outcome_fields (OutcomeOk cookies sealed csrf) = [(''status'', JStr ''ok''), (''cookies'', JStr cookies),
     (''sealedSession'', JStr sealed)] @ opt_entry ''csrfToken'' csrf"
| "outcome_fields InvalidCredentials = [(''status'', JStr ''invalid_credentials'')]"
| "outcome_fields VaultUnusable = [(''status'', JStr ''vault_unusable'')]"
| "outcome_fields ForwardingRequired = [(''status'', JStr ''forwarding_required'')]"
| "outcome_fields (GmailRevoked vault) = [(''status'', JStr ''gmail_revoked''), (''sealedVault'', JStr vault)]"
| "outcome_fields (OutcomeFailed reason) = [(''status'', JStr ''failed''), (''reason'', JStr reason)]"

definition outcome_of :: "json \<Rightarrow> LoginOutcome option" where
  "outcome_of v = do { m \<leftarrow> j_fields v; tag \<leftarrow> str_field [''status''] m;
     if tag = ''ok'' then
       do { cookies \<leftarrow> str_field [''cookies''] m; sealed \<leftarrow> str_field [''sealedSession''] m;
            csrf \<leftarrow> opt_field [''csrfToken''] m; Some (OutcomeOk cookies sealed csrf) }
     else if tag = ''invalid_credentials'' then Some InvalidCredentials
     else if tag = ''vault_unusable'' then Some VaultUnusable
     else if tag = ''forwarding_required'' then Some ForwardingRequired
     else if tag = ''gmail_revoked'' then map_option GmailRevoked (str_field [''sealedVault''] m)
     else if tag = ''failed'' then map_option OutcomeFailed (str_field [''reason''] m)
     else None }"

record LoginDone =
  ld_account :: string
  ld_request_id :: string
  ld_outcome :: LoginOutcome

definition login_done_json :: "LoginDone \<Rightarrow> json" where
  "login_done_json d = JObj [(''account'', JStr (ld_account d)), (''requestId'', JStr (ld_request_id d)),
     (''outcome'', JObj (outcome_fields (ld_outcome d)))]"

definition login_done_of :: "json \<Rightarrow> LoginDone option" where
  "login_done_of v = do { m \<leftarrow> j_fields v; account \<leftarrow> str_field [''account''] m;
     request \<leftarrow> str_field [''requestId''] m; f \<leftarrow> find_field [''outcome''] m; o' \<leftarrow> f;
     outcome \<leftarrow> outcome_of o';
     Some \<lparr>ld_account = account, ld_request_id = request, ld_outcome = outcome\<rparr> }"

record PageFetch =
  pf_session :: json
  pf_name :: string
  pf_semester :: "string option"
  pf_args :: "(string, string) bmap"
  pf_dictionary :: "string option"

definition page_fetch_json :: "PageFetch \<Rightarrow> json" where
  "page_fetch_json p = JObj ([(''session'', pf_session p), (''name'', JStr (pf_name p))] @
     opt_entry ''semester'' (pf_semester p) @
     [(''args'', JObj (map (\<lambda>(k, v). (k, JStr v)) (pf_args p)))] @
     opt_entry ''dictionary'' (pf_dictionary p))"

definition string_map_of :: "json \<Rightarrow> (string, string) bmap option" where
  "string_map_of v = do { m \<leftarrow> j_fields v;
     es \<leftarrow> collect_opt (map (\<lambda>(k, x). map_option (Pair k) (j_str x)) m);
     Some (foldl (\<lambda>m (k, v). bt_insert k v m) [] es) }"

definition page_fetch_of :: "json \<Rightarrow> PageFetch option" where
  "page_fetch_of v = do { m \<leftarrow> j_fields v; s \<leftarrow> find_field [''session''] m; session \<leftarrow> s;
     name \<leftarrow> str_field [''name''] m; semester \<leftarrow> opt_field [''semester''] m;
     a \<leftarrow> find_field [''args''] m; args \<leftarrow> (case a of None \<Rightarrow> Some [] | Some x \<Rightarrow> string_map_of x);
     dictionary \<leftarrow> opt_field [''dictionary''] m;
     Some \<lparr>pf_session = session, pf_name = name, pf_semester = semester, pf_args = args,
           pf_dictionary = dictionary\<rparr> }"

record OtpAwait =
  oa_owner_hash :: string
  oa_public_key :: string
  oa_since :: u64
  oa_wait_secs :: u64

fun j_u64 :: "json \<Rightarrow> u64 option" where
  "j_u64 (JNum s) = map_option of_nat (do { n \<leftarrow> parse_digits s; if n < 2 ^ 64 then Some n else None })"
| "j_u64 _ = None"

definition num_field :: "string list \<Rightarrow> (string \<times> json) list \<Rightarrow> u64 option" where
  "num_field names m = do { f \<leftarrow> find_field names m; v \<leftarrow> f; j_u64 v }"

definition otp_await_json :: "OtpAwait \<Rightarrow> json" where
  "otp_await_json a = JObj [(''ownerHash'', JStr (oa_owner_hash a)), (''publicKey'', JStr (oa_public_key a)),
     (''since'', JNum (show_nat (unat (oa_since a)))), (''waitSecs'', JNum (show_nat (unat (oa_wait_secs a))))]"

definition otp_await_of :: "json \<Rightarrow> OtpAwait option" where
  "otp_await_of v = do { m \<leftarrow> j_fields v; owner \<leftarrow> str_field [''ownerHash''] m;
     key \<leftarrow> str_field [''publicKey''] m; since' \<leftarrow> num_field [''since''] m; wait \<leftarrow> num_field [''waitSecs''] m;
     Some \<lparr>oa_owner_hash = owner, oa_public_key = key, oa_since = since', oa_wait_secs = wait\<rparr> }"

text \<open>\<^verbatim>\<open>OtpAwaited\<close>: its one field is written even when it is null.\<close>

definition otp_awaited_json :: "string option \<Rightarrow> json" where
  "otp_awaited_json s = JObj [(''sealed'', case s of None \<Rightarrow> JNull | Some x \<Rightarrow> JStr x)]"

definition otp_awaited_of :: "json \<Rightarrow> string option option" where
  "otp_awaited_of v = do { m \<leftarrow> j_fields v; opt_field [''sealed''] m }"

subsection \<open>Token hashes, account ids, mailbox owners\<close>

text \<open>
  \<^verbatim>\<open>str::to_uppercase\<close>: on ASCII text the letters a to z; \<open>U\<close> stands for Unicode's table, used
  for other text.  SHA-256 is the parameter \<open>H\<close>.
\<close>

definition ascii_upper :: "char \<Rightarrow> char" where
  "ascii_upper c = (if 97 \<le> char_code c \<and> char_code c \<le> 122 then char_of (char_code c - 32) else c)"

definition to_uppercase :: "(string \<Rightarrow> string) \<Rightarrow> string \<Rightarrow> string" where
  "to_uppercase U s = (if list_all (\<lambda>c. char_code c < 128) s then map ascii_upper s else U s)"

definition token_hash :: "(bytes \<Rightarrow> bytes) \<Rightarrow> string \<Rightarrow> string" where
  "token_hash H secret = hex (H (as_bytes secret))"

definition hashes_equal :: "string \<Rightarrow> string \<Rightarrow> bool" where
  "hashes_equal a b \<longleftrightarrow> length a = length b \<and>
     foldl (\<lambda>acc (x, y). acc OR (x XOR y)) 0 (zip (as_bytes a) (as_bytes b)) = 0"

definition account_id :: "(string \<Rightarrow> string) \<Rightarrow> string \<Rightarrow> string" where
  "account_id U registration_number = to_uppercase U (trim registration_number)"

definition owner_hash :: "(bytes \<Rightarrow> bytes) \<Rightarrow> (string \<Rightarrow> string) \<Rightarrow> bytes \<Rightarrow> string \<Rightarrow> string" where
  "owner_hash H U vault_key registration_number =
     hex (H (as_bytes ''vitapmate mail-otp owner v1'' @ [0] @ vault_key @ [0] @
       as_bytes (to_uppercase U (trim registration_number))))"

subsection \<open>The page dictionary\<close>

record Parts =
  pd_id :: string
  pd_vocabulary :: bytes
  pd_shapes :: "(string, bytes) bmap"

definition parts :: "json_lib \<Rightarrow> (bytes \<Rightarrow> bytes) \<Rightarrow> string \<Rightarrow> string list \<Rightarrow> (string, json) bmap \<Rightarrow> Parts" where
  "parts J H source vocabulary shapes =
     \<lparr>pd_id = hex (take 6 (H (as_bytes source))),
      pd_vocabulary = as_bytes (js_print J (JArr (map JStr vocabulary))),
      pd_shapes = map (\<lambda>(name, shape). (name, as_bytes (js_print J shape))) shapes\<rparr>"

definition for_page :: "Parts \<Rightarrow> string \<Rightarrow> bytes" where
  "for_page p name =
     pd_vocabulary p @ concat (map snd (filter (\<lambda>(page, _). page \<noteq> name) (pd_shapes p))) @
     (case map_of (pd_shapes p) name of None \<Rightarrow> [] | Some own \<Rightarrow> own)"

text \<open>Brotli with a dictionary is a crate: \<open>unbr dictionary packed\<close>.\<close>

definition unpack :: "(bytes \<Rightarrow> bytes \<Rightarrow> bytes option) \<Rightarrow> Parts \<Rightarrow> string \<Rightarrow> bytes \<Rightarrow> bytes option" where
  "unpack unbr p name packed = unbr (for_page p name) packed"

definition pack ::
  "json_lib \<Rightarrow> (bytes \<Rightarrow> bytes \<Rightarrow> bytes option) \<Rightarrow> Parts \<Rightarrow> string \<Rightarrow> json \<Rightarrow> bytes option" where
  "pack J br p name page = br (for_page p name) (as_bytes (js_print J page))"

subsection \<open>Round trips\<close>

lemma session_check_rt: "session_check_of (session_check_json c) = Some c"
  by (cases "sc_cookies c"; cases "sc_sealed_session c"; cases "sc_account c")
    (simp_all add: session_check_of_def session_check_json_def field_defs)

lemma status_of_text [simp]: "status_of (status_text s) = Some s"
  by (cases s) (simp_all add: status_of_def)

lemma session_checked_rt: "session_checked_of (session_checked_json c) = Some c"
  by (cases "sd_registration_number c"; cases "sd_cookies c"; cases "sd_csrf_token c";
      cases "sd_sealed_session c"; cases "sd_owner_hash c")
    (simp_all add: session_checked_of_def session_checked_json_def field_defs)

lemma grant_rt: "grant_of (grant_json g) = Some g"
  by (cases "gg_client_secret g") (simp_all add: grant_of_def grant_json_def field_defs)

lemma grant_json_obj: "\<exists>m. grant_json g = JObj m"
  by (simp add: grant_json_def)

lemma seal_vault_rt: "seal_vault_of (seal_vault_json s) = Some s"
proof (cases "sv_gmail s")
  case (Some g)
  then show ?thesis
    using grant_rt [of g] grant_json_obj [of g]
    by (auto simp: seal_vault_of_def seal_vault_json_def field_defs)
qed (simp add: seal_vault_of_def seal_vault_json_def field_defs)

lemma login_start_rt: "login_start_of (login_start_json s) = Some s"
  by (simp add: login_start_of_def login_start_json_def field_defs)

lemma outcome_rt: "outcome_of (JObj (outcome_fields o')) = Some o'"
proof (cases o')
  case (OutcomeOk cookies sealed csrf)
  then show ?thesis by (cases csrf) (simp_all add: outcome_of_def field_defs)
qed (simp_all add: outcome_of_def field_defs)

lemma login_done_rt: "login_done_of (login_done_json d) = Some d"
  by (simp add: login_done_of_def login_done_json_def field_defs outcome_rt)

lemma collect_opt_strings:
  "collect_opt (map ((\<lambda>(k, x). map_option (Pair k) (j_str x)) \<circ> (\<lambda>(k, v). (k, JStr v))) m) = Some m"
  by (induction m) auto

lemma string_map_rt: "bt_ok m \<Longrightarrow> string_map_of (JObj (map (\<lambda>(k, v). (k, JStr v)) m)) = Some m"
  using foldl_bt_insert [of "[]" m] by (simp add: string_map_of_def collect_opt_strings)

lemma page_fetch_rt: "bt_ok (pf_args p) \<Longrightarrow> page_fetch_of (page_fetch_json p) = Some p"
  by (cases "pf_semester p"; cases "pf_dictionary p")
    (simp_all add: page_fetch_of_def page_fetch_json_def field_defs string_map_rt)

lemma j_u64_show [simp]: "j_u64 (JNum (show_nat (unat w))) = Some w"
  using unsigned_less [of w] by simp

lemma otp_await_rt: "otp_await_of (otp_await_json a) = Some a"
  by (simp add: otp_await_of_def otp_await_json_def num_field_def field_defs del: j_u64.simps)

lemma otp_awaited_rt: "otp_awaited_of (otp_awaited_json s) = Some s"
  by (cases s) (simp_all add: otp_awaited_of_def otp_awaited_json_def field_defs)

subsection \<open>Old grants, and hashes\<close>

text \<open>A Gmail grant that the old bridge wrote, with its names in snake case, reads as the same grant.\<close>

lemma old_grant_rt:
  "grant_of (JObj ([(''refresh_token'', JStr (gg_refresh_token g)), (''client_id'', JStr (gg_client_id g))] @
     opt_entry ''client_secret'' (gg_client_secret g) @
     [(''delete_after_reading'', JBool (gg_delete_after_reading g))])) = Some g"
  by (cases "gg_client_secret g") (simp_all add: grant_of_def field_defs)

text \<open>
  Comparing two hashes without an early exit is comparing them: the folded comparison is
  true exactly for equal texts.
\<close>

theorem hashes_equal_iff: "hashes_equal a b \<longleftrightarrow> a = b"
proof -
  have "as_bytes a = as_bytes b \<longleftrightarrow> a = b" by (metis of_bytes_as_bytes)
  then show ?thesis
    using zip_all_equal [of "as_bytes a" "as_bytes b"]
    by (auto simp: hashes_equal_def fold_or_xor_eq_0)
qed

lemma sum_list_filter_split:
  "bt_ok m \<Longrightarrow> length (concat (map snd (filter (\<lambda>(p, _). p \<noteq> name) m))) +
     length (case map_of m name of None \<Rightarrow> [] | Some own \<Rightarrow> own) = length (concat (map snd m))"
proof (induction m)
  case (Cons e m)
  obtain k v where e: "e = (k, v)" by (cases e)
  have ok: "bt_ok m" and above: "\<forall>k' \<in> fst ` set m. k < k'" using Cons.prems e by (auto simp: bt_ok_def)
  show ?case
  proof (cases "k = name")
    case True
    then have "filter (\<lambda>(p, _). p \<noteq> name) m = m" using above by (force simp: filter_id_conv)
    then show ?thesis using e True by simp
  next
    case False
    then show ?thesis using Cons.IH [OF ok] e by simp
  qed
qed simp

text \<open>
  A packed page unpacks to the page, for every page name: both ends build the same
  dictionary, which holds the vocabulary first, the shape of every other page once, and the
  page's own shape last, so that it has the same length for every page.
\<close>

theorem page_dictionary_roundtrip:
  assumes "\<And>d x y. br d x = Some y \<Longrightarrow> unbr d y = Some x" and "pack J br p name page = Some packed"
    and "bt_ok (pd_shapes p)"
  shows "unpack unbr p name packed = Some (as_bytes (js_print J page)) \<and>
    length (for_page p name) = length (pd_vocabulary p) + length (concat (map snd (pd_shapes p))) \<and>
    (\<forall>own. map_of (pd_shapes p) name = Some own \<longrightarrow> (\<exists>rest. for_page p name = pd_vocabulary p @ rest @ own))"
  using assms(1) [OF assms(2) [unfolded pack_def]] sum_list_filter_split [OF assms(3), of name]
  by (auto simp: unpack_def for_page_def)

definition sample_parts :: Parts where
  "sample_parts = \<lparr>pd_id = ''a1'', pd_vocabulary = [1], pd_shapes = [(''marks'', [2, 3])]\<rparr>"

definition text_json :: json_lib where
  "text_json = \<lparr>js_read = \<lambda>s. Some (JStr s), js_print = \<lambda>v. case v of JStr s \<Rightarrow> s | _ \<Rightarrow> []\<rparr>"

theorem page_dictionary_roundtrip_witness:
  "unpack (\<lambda>d y. Some (drop (length d) y)) sample_parts ''marks''
     (for_page sample_parts ''marks'' @ as_bytes ''page'') = Some (as_bytes ''page'')"
  using page_dictionary_roundtrip [of "\<lambda>d x. Some (d @ x)" "\<lambda>d y. Some (drop (length d) y)" text_json
      sample_parts "''marks''" "JStr ''page''"]
  by (simp add: pack_def text_json_def sample_parts_def bt_ok_def)

end
