(* ===== verification/MailSeal.thy ===== *)
theory MailSeal
  imports StdData Frame
begin

section \<open>Sealed boxes (vtop-shared/src/mail_seal.rs, vtop-bridge/src/vault.rs)\<close>

text \<open>
  Forwarded mail and the gateway's keys travel sealed to a public key and bound to a mailbox;
  the engine's vault seals what the edge stores under one key, bound to the document it belongs
  to.  X25519, HKDF, AES-GCM and base64 are crates: a record of functions, with \<open>box_ok\<close> what
  the code relies on.
\<close>

record box_crypto =
  bc_public :: "bytes \<Rightarrow> bytes"
  bc_dh :: "bytes \<Rightarrow> bytes \<Rightarrow> bytes"
  bc_hkdf :: "bytes \<Rightarrow> bytes \<Rightarrow> bytes \<Rightarrow> bytes"
  bc_gcm :: aead
  bc_encode :: "bytes \<Rightarrow> string"
  bc_decode :: "string \<Rightarrow> bytes option"

definition box_ok :: "box_crypto \<Rightarrow> bool" where
  "box_ok B \<longleftrightarrow> aead_ok (bc_gcm B) \<and> (\<forall>a. length (bc_public B a) = 32) \<and>
     (\<forall>a b. bc_dh B a (bc_public B b) = bc_dh B b (bc_public B a)) \<and>
     (\<forall>x. bc_decode B (bc_encode B x) = Some x \<and>
        list_all (\<lambda>c. is_graph c \<and> c \<noteq> CHR ''='') (bc_encode B x))"

subsection \<open>The box\<close>

definition BOX_VERSION :: u8 where "BOX_VERSION = 1"
definition INFO :: bytes where "INFO = as_bytes ''vitapmate mail-otp v1''"
definition HEADER_LEN :: nat where "HEADER_LEN = 1 + 32 + 12"

datatype SealError = Malformed | Rejected

definition trim_end_matches :: "char \<Rightarrow> string \<Rightarrow> string" where
  "trim_end_matches c s = rev (dropWhile (\<lambda>x. x = c) (rev s))"

definition generate_keypair :: "box_crypto \<Rightarrow> bytes \<Rightarrow> string \<times> string" where
  "generate_keypair B secret = (bc_encode B secret, bc_encode B (bc_public B secret))"

definition key32 :: "box_crypto \<Rightarrow> string \<Rightarrow> SealError + bytes" where
  "key32 B encoded = (case bc_decode B (trim_end_matches CHR ''='' (trim encoded)) of
     Some b \<Rightarrow> if length b = 32 then Inr b else Inl Malformed
   | None \<Rightarrow> Inl Malformed)"

definition is_public_key :: "box_crypto \<Rightarrow> string \<Rightarrow> bool" where
  "is_public_key B encoded \<longleftrightarrow> (case key32 B encoded of Inr _ \<Rightarrow> True | Inl _ \<Rightarrow> False)"

definition box_key :: "box_crypto \<Rightarrow> bytes \<Rightarrow> bytes \<Rightarrow> bytes \<Rightarrow> bytes" where
  "box_key B shared ephemeral recipient = bc_hkdf B (ephemeral @ recipient) shared INFO"

definition seal_with :: "box_crypto \<Rightarrow> string \<Rightarrow> string \<Rightarrow> bytes \<Rightarrow> bytes \<Rightarrow> bytes \<Rightarrow> SealError + string" where
  "seal_with B recipient_public mailbox_id plaintext ephemeral_secret iv =
     and_then (key32 B recipient_public) (\<lambda>recipient.
       let ephemeral_public = bc_public B ephemeral_secret;
           shared = bc_dh B ephemeral_secret recipient;
           ciphertext = ae_enc (bc_gcm B) (box_key B shared ephemeral_public recipient) iv
             (as_bytes mailbox_id) plaintext
       in Inr (bc_encode B (BOX_VERSION # ephemeral_public @ iv @ ciphertext)))"

definition box_open :: "box_crypto \<Rightarrow> string \<Rightarrow> string \<Rightarrow> string \<Rightarrow> SealError + bytes" where
  "box_open B secret mailbox_id sealed =
     and_then (key32 B secret) (\<lambda>secret.
       let recipient = bc_public B secret
       in case bc_decode B (trim_end_matches CHR ''='' (trim sealed)) of
            None \<Rightarrow> Inl Malformed
          | Some b \<Rightarrow>
              if length b < HEADER_LEN + 16 \<or> b ! 0 \<noteq> BOX_VERSION then Inl Malformed
              else
                (let ephemeral = take 32 (drop 1 b);
                     iv = take 12 (drop 33 b);
                     shared = bc_dh B secret ephemeral
                 in case ae_dec (bc_gcm B) (box_key B shared ephemeral recipient) iv
                        (as_bytes mailbox_id) (drop HEADER_LEN b) of
                      None \<Rightarrow> Inl Rejected | Some m \<Rightarrow> Inr m))"

lemma trim_end_none: "list_all (\<lambda>x. x \<noteq> c) s \<Longrightarrow> trim_end_matches c s = s"
  by (cases "rev s") (auto simp: trim_end_matches_def list_all_iff dropWhile_eq_self_iff rev_swap)

lemma decode_encode:
  assumes "box_ok B"
  shows "bc_decode B (trim_end_matches CHR ''='' (trim (bc_encode B x))) = Some x"
proof -
  have "list_all is_graph (bc_encode B x)" "list_all (\<lambda>c. c \<noteq> CHR ''='') (bc_encode B x)"
    using assms by (auto simp: box_ok_def list_all_iff)
  then show ?thesis using assms by (simp add: trim_graph trim_end_none box_ok_def)
qed

lemma key32_encode [simp]: "box_ok B \<Longrightarrow> length b = 32 \<Longrightarrow> key32 B (bc_encode B b) = Inr b"
  by (simp add: key32_def decode_encode)

lemma key32_length: "key32 B s = Inr k \<Longrightarrow> length k = 32"
  by (auto simp: key32_def split: option.splits if_splits)

text \<open>The layout of a box, taken apart.\<close>

lemma box_parts:
  assumes "HEADER_LEN \<le> length b"
  shows "b = b ! 0 # take 32 (drop 1 b) @ take 12 (drop 33 b) @ drop HEADER_LEN b"
proof -
  have "b = take 1 b @ drop 1 b" by simp
  also have "drop 1 b = take 32 (drop 1 b) @ drop 33 b"
    using append_take_drop_id [of 32 "drop 1 b"] by simp
  also have "drop 33 b = take 12 (drop 33 b) @ drop HEADER_LEN b"
    using append_take_drop_id [of 12 "drop 33 b"] by (simp add: HEADER_LEN_def)
  finally show ?thesis using assms by (cases b) (simp_all add: HEADER_LEN_def)
qed

lemma box_open_eq:
  assumes "key32 B secret = Inr sk" and "aead_ok (bc_gcm B)" "aead_strict (bc_gcm B)"
  shows "box_open B secret mailbox s = Inr m \<longleftrightarrow> (\<exists>e n. length e = 32 \<and> length n = 12 \<and>
    bc_decode B (trim_end_matches CHR ''='' (trim s)) = Some (BOX_VERSION # e @ n @
      ae_enc (bc_gcm B) (box_key B (bc_dh B sk e) e (bc_public B sk)) n (as_bytes mailbox) m))"
proof
  assume "box_open B secret mailbox s = Inr m"
  then obtain b where b: "bc_decode B (trim_end_matches CHR ''='' (trim s)) = Some b" "HEADER_LEN + 16 \<le> length b"
      "b ! 0 = BOX_VERSION"
    and d: "ae_dec (bc_gcm B) (box_key B (bc_dh B sk (take 32 (drop 1 b))) (take 32 (drop 1 b)) (bc_public B sk))
        (take 12 (drop 33 b)) (as_bytes mailbox) (drop HEADER_LEN b) = Some m"
    by (auto simp: box_open_def assms(1) Let_def split: option.splits if_splits)
  define e n c where "e = take 32 (drop 1 b)" and "n = take 12 (drop 33 b)" and "c = drop HEADER_LEN b"
  have len: "length e = 32" "length n = 12" using b(2) by (simp_all add: HEADER_LEN_def e_def n_def)
  have "b = BOX_VERSION # e @ n @ c" using box_parts [of b] b(2,3) by (simp add: e_def n_def c_def)
  moreover have "c = ae_enc (bc_gcm B) (box_key B (bc_dh B sk e) e (bc_public B sk)) n (as_bytes mailbox) m"
    using aead_strictD [OF assms(3) d] by (simp add: e_def n_def c_def)
  ultimately show "\<exists>e n. length e = 32 \<and> length n = 12 \<and>
    bc_decode B (trim_end_matches CHR ''='' (trim s)) = Some (BOX_VERSION # e @ n @
      ae_enc (bc_gcm B) (box_key B (bc_dh B sk e) e (bc_public B sk)) n (as_bytes mailbox) m)"
    using b(1) len by blast
next
  assume "\<exists>e n. length e = 32 \<and> length n = 12 \<and>
    bc_decode B (trim_end_matches CHR ''='' (trim s)) = Some (BOX_VERSION # e @ n @
      ae_enc (bc_gcm B) (box_key B (bc_dh B sk e) e (bc_public B sk)) n (as_bytes mailbox) m)"
  then show "box_open B secret mailbox s = Inr m"
    using assms by (auto simp: box_open_def Let_def HEADER_LEN_def TAG_def)
qed

subsection \<open>The vault\<close>

datatype VaultError = Corrupt

definition NONCE_LEN :: nat where "NONCE_LEN = 12"

definition vault_seal :: "box_crypto \<Rightarrow> bytes \<Rightarrow> bytes \<Rightarrow> string \<Rightarrow> bytes \<Rightarrow> string" where
  "vault_seal B key iv aad plaintext =
     bc_encode B (iv @ ae_enc (bc_gcm B) key iv (as_bytes aad) plaintext)"

definition vault_open :: "box_crypto \<Rightarrow> bytes \<Rightarrow> string \<Rightarrow> string \<Rightarrow> VaultError + bytes" where
  "vault_open B key aad sealed =
     (case bc_decode B sealed of None \<Rightarrow> Inl Corrupt
      | Some b \<Rightarrow>
          if length b \<le> NONCE_LEN then Inl Corrupt
          else case ae_dec (bc_gcm B) key (take NONCE_LEN b) (as_bytes aad) (drop NONCE_LEN b) of
                 None \<Rightarrow> Inl Corrupt | Some m \<Rightarrow> Inr m)"

text \<open>JSON values sealed and opened; \<open>to\<close> and \<open>of\<close> are the derived writer and reader of the type.\<close>

definition seal_json ::
  "box_crypto \<Rightarrow> json_lib \<Rightarrow> ('a \<Rightarrow> json) \<Rightarrow> bytes \<Rightarrow> bytes \<Rightarrow> string \<Rightarrow> 'a \<Rightarrow> string" where
  "seal_json B J wr key iv aad x = vault_seal B key iv aad (as_bytes (js_print J (wr x)))"

definition open_json ::
  "box_crypto \<Rightarrow> json_lib \<Rightarrow> (json \<Rightarrow> 'a option) \<Rightarrow> bytes \<Rightarrow> string \<Rightarrow> string \<Rightarrow> VaultError + 'a" where
  "open_json B J rd key aad sealed =
     and_then (vault_open B key aad sealed) (\<lambda>b.
       case (do { s \<leftarrow> from_utf8 b; v \<leftarrow> js_read J s; rd v }) of
         None \<Rightarrow> Inl Corrupt | Some x \<Rightarrow> Inr x)"

lemma vault_open_eq:
  assumes "aead_ok (bc_gcm B)" "aead_strict (bc_gcm B)"
  shows "vault_open B key aad s = Inr m \<longleftrightarrow> (\<exists>n. length n = NONCE_LEN \<and>
    bc_decode B s = Some (n @ ae_enc (bc_gcm B) key n (as_bytes aad) m))"
proof
  assume "vault_open B key aad s = Inr m"
  then obtain b where b: "bc_decode B s = Some b" "NONCE_LEN < length b"
    and d: "ae_dec (bc_gcm B) key (take NONCE_LEN b) (as_bytes aad) (drop NONCE_LEN b) = Some m"
    by (auto simp: vault_open_def split: option.splits if_splits)
  from aead_strictD [OF assms(2) d] b show "\<exists>n. length n = NONCE_LEN \<and>
    bc_decode B s = Some (n @ ae_enc (bc_gcm B) key n (as_bytes aad) m)"
    by (intro exI [of _ "take NONCE_LEN b"]) (auto, metis append_take_drop_id)
next
  assume "\<exists>n. length n = NONCE_LEN \<and> bc_decode B s = Some (n @ ae_enc (bc_gcm B) key n (as_bytes aad) m)"
  then show "vault_open B key aad s = Inr m" using assms by (auto simp: vault_open_def TAG_def)
qed

end
