(* ===== verification/GatewayServer.thy ===== *)
theory GatewayServer
  imports WirePage EngineTypes MailSeal GatewayRun
begin

section \<open>The gateway's server (vtop-gateway/src/lib.rs)\<close>

text \<open>
  What the gateway does with a request: it keeps each device's VTOP session, asks the engine,
  renews an expired session once, and answers within the transport's limit; and the loop that
  runs the protocol machine and the engine calls.  HTTP is the parameter \<open>net\<close>: the answer to
  the last request of a list of requests, so that nothing is assumed of how one answer depends
  on another.  Every operation that locks the sessions is one step.
\<close>

definition ENGINE_TIMEOUT :: duration where "ENGINE_TIMEOUT = secs 32"
definition LOGIN_TIMEOUT :: duration where "LOGIN_TIMEOUT = secs 95"
definition SESSION_KEEP :: duration where "SESSION_KEEP = secs (6 * 3600)"
definition KEPT_SESSIONS :: nat where "KEPT_SESSIONS = 20000"
definition MAX_ENGINE_CALLS :: nat where "MAX_ENGINE_CALLS = 256"
definition SWEEP_EVERY :: duration where "SWEEP_EVERY = secs 30"
definition KEYS_EVERY :: duration where "KEYS_EVERY = secs (6 * 3600)"
definition KEYS_RETRY :: duration where "KEYS_RETRY = secs 60"
definition WEEK_SECS :: nat where "WEEK_SECS = 7 * 24 * 3600"
definition MONDAY_IST :: nat where "MONDAY_IST = 1704652200"

definition next_key_check :: "nat \<Rightarrow> duration" where
  "next_key_check now =
     (let since' = (now - MONDAY_IST) mod WEEK_SECS;
          rotation = secs (WEEK_SECS - since' + 30)
      in min rotation KEYS_EVERY)"

subsection \<open>HTTP\<close>

record HttpRequest =
  h_post :: bool
  h_url :: string
  h_bearer :: "string option"
  h_request_id :: "string option"
  h_body :: string
  h_timeout :: duration

datatype HttpResult =
    TimedOut
  | Unreachable
  | Answered (ha_status: u16) (ha_content_type: "bytes option") (ha_body: "bytes option")

type_synonym network = "HttpRequest list \<Rightarrow> HttpResult"

definition send :: "network \<Rightarrow> HttpRequest list \<Rightarrow> HttpRequest \<Rightarrow> HttpResult \<times> HttpRequest list" where
  "send net reqs rq = (net (reqs @ [rq]), reqs @ [rq])"

text \<open>\<^verbatim>\<open>serde_json::from_slice\<close> into a \<^verbatim>\<open>Value\<close>.\<close>

definition from_slice :: "json_lib \<Rightarrow> bytes \<Rightarrow> json option" where
  "from_slice J b = Option.bind (from_utf8 b) (js_read J)"

subsection \<open>The engine's side of the gateway\<close>

record Kept =
  kp_hash :: u64
  kp_session :: json
  kp_account :: "string option"
  kp_at :: instant

record Engine =
  en_url :: string
  en_secret :: string
  en_edge_url :: string
  en_identity :: string
  en_sessions :: "(bytes, Kept) hmap"

definition engine_new :: "string \<Rightarrow> string \<Rightarrow> string \<Rightarrow> string \<Rightarrow> Engine" where
  "engine_new url secret edge_url identity =
     \<lparr>en_url = trim_end_matches CHR ''/'' url, en_secret = secret,
      en_edge_url = trim_end_matches CHR ''/'' edge_url, en_identity = identity, en_sessions = []\<rparr>"

definition error_response :: "json_lib \<Rightarrow> u16 \<Rightarrow> string \<Rightarrow> string \<Rightarrow> WirePageResponse" where
  "error_response J status code message =
     \<lparr>wr_status = status, wr_packed = False,
      wr_body = as_bytes (js_print J (JObj [(''code'', JStr code), (''error'', JStr message)])),
      wr_session = None\<rparr>"

definition expired :: "json_lib \<Rightarrow> WirePageResponse \<Rightarrow> bool" where
  "expired J answer \<longleftrightarrow> wr_status answer = 401 \<and>
     (case from_slice J (wr_body answer) of None \<Rightarrow> False
      | Some v \<Rightarrow> j_field v ''code'' = Some ''session_expired'')"

definition post :: "WirePageRequest \<Rightarrow> string \<Rightarrow> HttpRequest" where
  "post page url = \<lparr>h_post = True, h_url = url, h_bearer = None, h_request_id = wq_request_id page,
     h_body = [], h_timeout = ENGINE_TIMEOUT\<rparr>"

definition keep :: "Engine \<Rightarrow> bytes \<Rightarrow> u64 \<Rightarrow> json \<Rightarrow> string option \<Rightarrow> instant \<Rightarrow> Engine" where
  "keep E device hash session account now =
     (let ss = en_sessions E;
          room = (if KEPT_SESSIONS \<le> length ss \<and> map_of ss device = None then
              (case min_by_key (\<lambda>(_, k). kp_at k) ss of Some (oldest, _) \<Rightarrow> AList.delete oldest ss | None \<Rightarrow> ss)
            else ss)
      in E\<lparr>en_sessions := AList.update device
           \<lparr>kp_hash = hash, kp_session = session, kp_account = account, kp_at = now\<rparr> room\<rparr>)"

text \<open>The session to fetch on, and the account: from the request, and then kept, or the kept ones.\<close>

definition session_for ::
  "json_lib \<Rightarrow> Engine \<Rightarrow> bytes \<Rightarrow> WirePageRequest \<Rightarrow> instant \<Rightarrow> (json \<times> string option) option \<times> Engine" where
  "session_for J E device page now =
     (case wq_session page of
        Some text \<Rightarrow>
          if session_hash J text \<noteq> wq_session_hash page then (None, E)
          else (case js_read J text of None \<Rightarrow> (None, E)
            | Some value \<Rightarrow> (Some (value, wq_account page),
                keep E device (wq_session_hash page) value (wq_account page) now))
      | None \<Rightarrow>
          (case map_of (en_sessions E) device of None \<Rightarrow> (None, E)
           | Some kept \<Rightarrow>
               if kp_hash kept \<noteq> wq_session_hash page \<or> SESSION_KEEP < since now (kp_at kept) then (None, E)
               else (Some (kp_session kept, kp_account kept),
                 E\<lparr>en_sessions := hm_adjust device (\<lambda>k. k\<lparr>kp_at := now\<rparr>) (en_sessions E)\<rparr>)))"

definition sweep_sessions :: "Engine \<Rightarrow> instant \<Rightarrow> Engine" where
  "sweep_sessions E now =
     E\<lparr>en_sessions := filter (\<lambda>(_, k). since now (kp_at k) < SESSION_KEEP) (en_sessions E)\<rparr>"

text \<open>An answer of HTTP as an answer over UDP; \<open>unreachable\<close> and \<open>broken\<close> are the messages.\<close>

definition passed_on :: "json_lib \<Rightarrow> string \<Rightarrow> string \<Rightarrow> bool \<Rightarrow> HttpResult \<Rightarrow> WirePageResponse" where
  "passed_on J unreachable broken packable res =
     (case res of
        TimedOut \<Rightarrow> error_response J 504 ''vtop_timeout'' ''VTOP took too long to answer.''
      | Unreachable \<Rightarrow> error_response J 503 ''engine_unavailable'' unreachable
      | Answered status content_type body \<Rightarrow>
          (case body of
             None \<Rightarrow> error_response J 503 ''engine_unavailable'' broken
           | Some b \<Rightarrow> \<lparr>wr_status = status,
               wr_packed = (packable \<and> content_type = Some (as_bytes ''application/vnd.vmate.page+br'')),
               wr_body = b, wr_session = None\<rparr>))"

definition fetch ::
  "json_lib \<Rightarrow> network \<Rightarrow> Engine \<Rightarrow> HttpRequest list \<Rightarrow> json \<Rightarrow> WirePageRequest \<Rightarrow>
   WirePageResponse \<times> HttpRequest list" where
  "fetch J net E reqs session page =
     (let body = \<lparr>pf_session = session, pf_name = wq_name page, pf_semester = wq_semester page,
            pf_args = wq_args page, pf_dictionary = wq_dictionary page\<rparr>;
          rq = (post page (en_url E @ FETCH))
            \<lparr>h_bearer := Some (en_secret E), h_body := js_print J (page_fetch_json body)\<rparr>;
          (res, reqs) = send net reqs rq
      in (passed_on J ''The server cannot reach the engine.'' ''The engine's answer broke off.'' True res, reqs))"

definition sign_in_request :: "Engine \<Rightarrow> WirePageRequest \<Rightarrow> string \<Rightarrow> HttpRequest option" where
  "sign_in_request E page path =
     (let to_engine = (\<lambda>route. (post page (en_url E @ route))\<lparr>h_bearer := Some (en_secret E)\<rparr>)
      in if path = ''/v1/vtop/login'' then Some (to_engine VTOP_LOGIN)
         else if path = ''/v1/vtop/login/otp'' then Some (to_engine VTOP_LOGIN_OTP)
         else if path = ''/v1/vtop/login/resend'' then Some (to_engine VTOP_LOGIN_RESEND)
         else if path = ''/v1/app/login'' then
           Some ((post page (en_edge_url E @ path))\<lparr>h_timeout := LOGIN_TIMEOUT\<rparr>)
         else None)"

definition sign_in ::
  "json_lib \<Rightarrow> network \<Rightarrow> Engine \<Rightarrow> HttpRequest list \<Rightarrow> WirePageRequest \<Rightarrow> string \<Rightarrow> string \<Rightarrow>
   WirePageResponse \<times> HttpRequest list" where
  "sign_in J net E reqs page path body =
     (case sign_in_request E page path of
        None \<Rightarrow> (error_response J 404 ''not_found'' ''No such sign-in.'', reqs)
      | Some rq \<Rightarrow>
          (let (res, reqs) = send net reqs (rq\<lparr>h_body := body\<rparr>)
           in (passed_on J ''The server cannot sign in right now.'' ''The answer broke off.'' False res, reqs)))"

definition renewed ::
  "json_lib \<Rightarrow> network \<Rightarrow> Engine \<Rightarrow> HttpRequest list \<Rightarrow> bytes \<Rightarrow> WirePageRequest \<Rightarrow> string \<Rightarrow>
   WirePageResponse \<Rightarrow> instant \<Rightarrow> WirePageResponse \<times> Engine \<times> HttpRequest list" where
  "renewed J net E reqs device page account expired_answer now =
     (let (login, reqs) = sign_in J net E reqs page ''/v1/app/login'' account
      in if wr_status login = 401 then (login, E, reqs)
         else case (if wr_status login = 200
                    then Option.bind (from_slice J (wr_body login)) (\<lambda>v. j_get v ''session'') else None) of
           None \<Rightarrow> (expired_answer, E, reqs)
         | Some session \<Rightarrow>
             (let text = js_print J session;
                  E = keep E device (session_hash J text) session (Some account) now;
                  (answer, reqs) = fetch J net E reqs session page
              in (answer\<lparr>wr_session := Some text\<rparr>, E, reqs)))"

definition starts_with_slash :: "string \<Rightarrow> bool" where
  "starts_with_slash s \<longleftrightarrow> s \<noteq> [] \<and> hd s = CHR ''/''"

definition page_answer ::
  "json_lib \<Rightarrow> network \<Rightarrow> Engine \<Rightarrow> HttpRequest list \<Rightarrow> bytes \<Rightarrow> WirePageRequest \<Rightarrow> instant \<Rightarrow> instant \<Rightarrow>
   WirePageResponse \<times> Engine \<times> HttpRequest list" where
  "page_answer J net E reqs device page now later =
     (case (if starts_with_slash (wq_name page) then map_of (wq_args page) SIGN_IN_BODY else None) of
        Some body \<Rightarrow> (let (r, reqs) = sign_in J net E reqs page (wq_name page) body in (r, E, reqs))
      | None \<Rightarrow>
          (let (found, E) = session_for J E device page now
           in case found of
                None \<Rightarrow> (error_response J NEED_SESSION ''need_session'' ''Send the session again.'', E, reqs)
              | Some (session, account) \<Rightarrow>
                  (let (answer, reqs) = fetch J net E reqs session page
                   in case account of
                        Some a \<Rightarrow> if expired J answer then renewed J net E reqs device page a answer later
                                  else (answer, E, reqs)
                      | None \<Rightarrow> (answer, E, reqs))))"

definition too_large :: "json_lib \<Rightarrow> bytes" where
  "too_large J = wr_encode (error_response J TOO_LARGE ''too_large'' ''The page is too large for UDP mode.'')"

definition answer_request ::
  "json_lib \<Rightarrow> network \<Rightarrow> Engine \<Rightarrow> HttpRequest list \<Rightarrow> NewRequest \<Rightarrow> instant \<Rightarrow> instant \<Rightarrow>
   bytes \<times> Engine \<times> HttpRequest list" where
  "answer_request J net E reqs rq now later =
     (let (response, E, reqs) =
        (case wq_decode (nr_body rq) of
           Some page \<Rightarrow> page_answer J net E reqs (nr_device rq) page now later
         | None \<Rightarrow>
             (if VERSION < wp_version (nr_body rq) then
                error_response J UNSUPPORTED ''unsupported_version'' ''The gateway is older than the app.''
              else error_response J 400 ''bad_request'' ''The request does not decode.'', E, reqs));
          encoded = wr_encode response
      in (if MAX_RESPONSE < length encoded then too_large J else encoded, E, reqs))"

text \<open>The gateway's keys, through the engine and sealed to its identity.\<close>

definition key_of :: "json \<Rightarrow> bytes option" where
  "key_of v = do { s \<leftarrow> j_str v; b \<leftarrow> unhex s; if length b = 32 then Some b else None }"

definition keys_in :: "json \<Rightarrow> bytes list" where
  "keys_in v = (case j_get v ''keys'' of Some (JArr xs) \<Rightarrow> List.map_filter key_of xs | _ \<Rightarrow> [])"

definition keys ::
  "json_lib \<Rightarrow> box_crypto \<Rightarrow> network \<Rightarrow> Engine \<Rightarrow> HttpRequest list \<Rightarrow> (string + bytes list) \<times> HttpRequest list" where
  "keys J B net E reqs =
     (let rq = \<lparr>h_post = False, h_url = en_url E @ UDP_KEYS, h_bearer = Some (en_secret E),
            h_request_id = None, h_body = [], h_timeout = ENGINE_TIMEOUT\<rparr>;
          (res, reqs) = send net reqs rq
      in (case res of
            Answered status _ (Some body) \<Rightarrow>
              if status < 200 \<or> 300 \<le> status then Inl ''HTTP''
              else (case from_slice J body of None \<Rightarrow> Inl ''not JSON''
                | Some v \<Rightarrow> (case j_field v ''sealed'' of None \<Rightarrow> Inl ''no sealed keys''
                    | Some sealed \<Rightarrow>
                        (case box_open B (en_identity E) UDP_KEYS_SEALED_FOR sealed of
                           Inl _ \<Rightarrow> Inl ''the keys do not open''
                         | Inr opened \<Rightarrow> (case from_slice J opened of None \<Rightarrow> Inl ''not JSON''
                             | Some v \<Rightarrow> if keys_in v = [] then Inl ''no keys in the answer'' else Inr (keys_in v)))))
          | _ \<Rightarrow> Inl ''not reached'', reqs))"

subsection \<open>The loop\<close>

text \<open>
  The tasks spawned for requests, each with or without a permit; the finished ones wait in
  \<open>sv_finished\<close> for the loop.  One turn takes one event, polls, and sweeps when it is time.
\<close>

record Server =
  sr_gateway :: Gateway
  sr_current :: bytes
  sr_engine :: Engine
  sr_log :: "HttpRequest list"
  sr_tasks :: "(NewRequest \<times> bool) list"
  sr_finished :: "(Token \<times> bytes) list"
  sr_last_sweep :: instant
  sr_sent :: "Outgoing list"

definition server_new :: "bytes list \<Rightarrow> Engine \<Rightarrow> HttpRequest list \<Rightarrow> instant \<Rightarrow> Server" where
  "server_new ks E reqs now = \<lparr>sr_gateway = gw_new ks, sr_current = hd ks, sr_engine = E, sr_log = reqs,
     sr_tasks = [], sr_finished = [], sr_last_sweep = now, sr_sent = []\<rparr>"

definition busy :: "json_lib \<Rightarrow> bytes" where
  "busy J = wr_encode (error_response J BUSY ''busy'' ''The server is busy.'')"

definition permits_used :: "Server \<Rightarrow> nat" where
  "permits_used s = length (filter snd (sr_tasks s))"

datatype server_event =
    Packet nat SocketAddr bytes env
  | TaskDone nat instant instant
  | Finished
  | NewKeys "bytes list"
  | Woken

text \<open>A task runs to its end, and its permit is released.\<close>

definition finish_task :: "json_lib \<Rightarrow> network \<Rightarrow> Server \<Rightarrow> nat \<Rightarrow> instant \<Rightarrow> instant \<Rightarrow> Server" where
  "finish_task J net s i now later =
     (if i < length (sr_tasks s) then
        (let (rq, permit) = sr_tasks s ! i;
             (body, E, reqs) = (if permit then answer_request J net (sr_engine s) (sr_log s) rq now later
               else (busy J, sr_engine s, sr_log s))
         in s\<lparr>sr_engine := E, sr_log := reqs, sr_tasks := take i (sr_tasks s) @ drop (Suc i) (sr_tasks s),
              sr_finished := sr_finished s @ [(nr_token rq, body)]\<rparr>)
      else s)"

fun server_take :: "crates \<Rightarrow> json_lib \<Rightarrow> network \<Rightarrow> env \<Rightarrow> Server \<Rightarrow> server_event \<Rightarrow> Server outcome" where
  "server_take C J net now s (Packet socket peer packet e) =
     (case receive C (sr_gateway s) packet socket peer e of
        Panic \<Rightarrow> Panic
      | Return (g, None) \<Rightarrow> Return (s\<lparr>sr_gateway := g\<rparr>)
      | Return (g, Some rq) \<Rightarrow>
          Return (s\<lparr>sr_gateway := g,
                    sr_tasks := sr_tasks s @ [(rq, permits_used s < MAX_ENGINE_CALLS)]\<rparr>))"
| "server_take C J net now s (TaskDone i t u) = Return (finish_task J net s i t u)"
| "server_take C J net now s Finished =
     (case sr_finished s of [] \<Rightarrow> Return s
      | (token, body) # rest \<Rightarrow>
          (case respond C (sr_gateway s) token body (e_now now) of Panic \<Rightarrow> Panic
           | Return g \<Rightarrow> Return (s\<lparr>sr_gateway := g, sr_finished := rest\<rparr>)))"
| "server_take C J net now s (NewKeys ks) =
     (case ks of [] \<Rightarrow> Panic
      | k # _ \<Rightarrow> Return (s\<lparr>sr_gateway := set_keys (sr_gateway s) ks, sr_current := k\<rparr>))"
| "server_take C J net now s Woken = Return s"

text \<open>Every event but a task's own progress is a turn of the loop: then it polls and sweeps.\<close>

fun is_turn :: "server_event \<Rightarrow> bool" where
  "is_turn (TaskDone _ _ _) = False" | "is_turn _ = True"

definition after_event :: "crates \<Rightarrow> env \<Rightarrow> Server \<Rightarrow> Server" where
  "after_event C now s =
     (let (g, outs) = poll C (sr_gateway s) (e_now now);
          s = s\<lparr>sr_gateway := g, sr_sent := sr_sent s @ outs\<rparr>
      in if SWEEP_EVERY < since (e_now now) (sr_last_sweep s) then
           s\<lparr>sr_gateway := sweep (sr_gateway s) now, sr_engine := sweep_sessions (sr_engine s) (e_now now),
             sr_last_sweep := e_now now\<rparr>
         else s)"

fun server_step :: "crates \<Rightarrow> json_lib \<Rightarrow> network \<Rightarrow> Server \<Rightarrow> env \<times> server_event \<Rightarrow> Server outcome" where
  "server_step C J net s (now, ev) =
     (case server_take C J net now s ev of Panic \<Rightarrow> Panic
      | Return s' \<Rightarrow> Return (if is_turn ev then after_event C now s' else s'))"

end
