(* ===== verification/ServerProps.thy ===== *)
theory ServerProps
  imports GatewayServer Samples
begin

section \<open>The gateway's server: its properties\<close>

text \<open>
  The invariant of the kept sessions and of the loop, isolation of the devices from each other,
  the protocol of a renewal, and the bound on what is sent.
\<close>

subsection \<open>The kept sessions\<close>

definition kept_ok :: "json_lib \<Rightarrow> Kept \<Rightarrow> bool" where
  "kept_ok J k \<longleftrightarrow> (\<exists>text. session_hash J text = kp_hash k \<and> js_read J text = Some (kp_session k))"

definition eng_ok :: "json_lib \<Rightarrow> Engine \<Rightarrow> bool" where
  "eng_ok J E \<longleftrightarrow> hm_ok (en_sessions E) \<and> length (en_sessions E) \<le> KEPT_SESSIONS \<and>
     (\<forall>(d, k) \<in> set (en_sessions E). kept_ok J k)"

lemma eng_ok_new [simp]: "eng_ok J (engine_new url secret edge identity)"
  by (simp add: eng_ok_def engine_new_def)

lemma eng_okD: "eng_ok J E \<Longrightarrow> map_of (en_sessions E) d = Some k \<Longrightarrow> kept_ok J k"
  by (auto simp: eng_ok_def dest: map_of_SomeD)

lemma map_of_keep_own [simp]:
  "map_of (en_sessions (keep E d h s a now)) d = Some \<lparr>kp_hash = h, kp_session = s, kp_account = a, kp_at = now\<rparr>"
  by (simp add: keep_def Let_def)

lemma keep_frames [frames, simp]:
  "en_url (keep E d h s a now) = en_url E" "en_secret (keep E d h s a now) = en_secret E"
  "en_edge_url (keep E d h s a now) = en_edge_url E" "en_identity (keep E d h s a now) = en_identity E"
  by (simp_all add: keep_def Let_def)

lemma eng_ok_keep:
  assumes "eng_ok J E" and "session_hash J text = h" "js_read J text = Some s"
  shows "eng_ok J (keep E d h s a now)"
proof -
  define ss where "ss = en_sessions E"
  define room where "room = (if KEPT_SESSIONS \<le> length ss \<and> map_of ss d = None then
      (case min_by_key (\<lambda>(_, k). kp_at k) ss of Some (oldest, _) \<Rightarrow> AList.delete oldest ss | None \<Rightarrow> ss) else ss)"
  have ok: "hm_ok ss" "length ss \<le> KEPT_SESSIONS" "\<forall>(d, k) \<in> set ss. kept_ok J k"
    using assms(1) by (auto simp: eng_ok_def ss_def)
  have new: "kept_ok J \<lparr>kp_hash = h, kp_session = s, kp_account = a, kp_at = now\<rparr>"
    using assms(2,3) by (auto simp: kept_ok_def)
  have room: "hm_ok room" "\<forall>(d, k) \<in> set room. kept_ok J k"
    using ok by (auto simp: room_def split: option.split if_splits dest!: set_delete_hm)
  have "length (AList.update d x room) \<le> KEPT_SESSIONS" for x
  proof (cases "map_of ss d")
    case (Some k)
    then show ?thesis using ok(2) by (simp add: room_def length_update_old)
  next
    case None
    have "length room < KEPT_SESSIONS"
    proof (cases "KEPT_SESSIONS \<le> length ss")
      case True
      then have "ss \<noteq> []" by (auto simp: KEPT_SESSIONS_def)
      then obtain i k where m: "min_by_key (\<lambda>(_, k). kp_at k) ss = Some (i, k)"
        by (metis min_by_key_None not_None_eq surj_pair)
      then have "map_of ss i = Some k" using min_by_key_Some [OF m] ok(1) by (simp add: hm_lookup_iff)
      then have "Suc (length (AList.delete i ss)) = length ss" by (rule length_delete_present [OF ok(1)])
      then show ?thesis using True None m ok(2) by (simp add: room_def)
    qed (simp add: room_def)
    then show ?thesis using length_update_le [of d x room] by simp
  qed
  then show ?thesis
    using room new by (auto simp: eng_ok_def keep_def Let_def simp flip: ss_def room_def dest!: set_update_hm)
qed

lemma session_for_ok:
  assumes "eng_ok J E" and "session_for J E device page now = (found, E')"
  shows "eng_ok J E'" and "found = Some (v, a) \<Longrightarrow> \<exists>text. session_hash J text = wq_session_hash page \<and> js_read J text = Some v"
proof -
  have adjust: "eng_ok J (E\<lparr>en_sessions := hm_adjust device (\<lambda>k. k\<lparr>kp_at := now\<rparr>) (en_sessions E)\<rparr>)"
    using assms(1) by (auto simp: eng_ok_def kept_ok_def dest!: set_adjust_hm)
  show "eng_ok J E'"
    using assms adjust by (auto simp: session_for_def split: option.splits if_splits intro: eng_ok_keep)
  show "found = Some (v, a) \<Longrightarrow> \<exists>text. session_hash J text = wq_session_hash page \<and> js_read J text = Some v"
    using assms by (auto simp: session_for_def kept_ok_def split: option.splits if_splits dest!: eng_okD)
qed

lemma eng_ok_sweep [simp]: "eng_ok J E \<Longrightarrow> eng_ok J (sweep_sessions E now)"
  by (auto simp: eng_ok_def sweep_sessions_def intro: order_trans [OF length_filter_le])

lemma eng_ok_renewed:
  assumes "eng_ok J E" and "json_ok J V" and "renewed J net E reqs d page acc ans now = (r, E', reqs')"
  shows "eng_ok J E'"
proof -
  have "eng_ok J (keep E d (session_hash J (js_print J s)) s (Some acc) now)"
    if "from_slice J b = Some v" "j_get v ''session'' = Some s" for b v s
  proof (rule eng_ok_keep [OF assms(1) refl])
    have "v \<in> V" using that(1) assms(2) by (auto simp: from_slice_def json_ok_def bind_eq_Some_conv)
    then show "js_read J (js_print J s) = Some s" using that(2) assms(2) by (auto simp: json_ok_def)
  qed
  then show ?thesis
    using assms(1,3)
    by (auto simp: renewed_def Let_def bind_eq_Some_conv split: prod.splits option.splits if_splits)
qed

lemma eng_ok_page:
  assumes "eng_ok J E" and "json_ok J V" and "page_answer J net E reqs d page now later = (r, E', reqs')"
  shows "eng_ok J E'"
proof -
  obtain found E1 where s: "session_for J E d page now = (found, E1)" by (meson surj_pair)
  have E1: "eng_ok J E1" by (rule session_for_ok(1) [OF assms(1) s])
  show ?thesis
    using assms(1,3) E1 eng_ok_renewed [OF E1 assms(2)]
    by (auto simp: page_answer_def s split: prod.splits option.splits if_splits)
qed

lemma eng_ok_answer:
  assumes "eng_ok J E" and "json_ok J V" and "answer_request J net E reqs rq now later = (b, E', reqs')"
  shows "eng_ok J E'"
  using assms(1,3) eng_ok_page [OF assms(1,2)]
  by (auto simp: answer_request_def Let_def split: prod.splits option.splits if_splits)

subsection \<open>The bound on what is sent\<close>

text \<open>The two messages of its own that the server encodes without checking fit the transport.\<close>

definition errors_fit :: "json_lib \<Rightarrow> bool" where
  "errors_fit J \<longleftrightarrow> length (too_large J) \<le> MAX_RESPONSE \<and> length (busy J) \<le> MAX_RESPONSE"

lemma answer_fits:
  "errors_fit J \<Longrightarrow> length (fst (answer_request J net E reqs rq now later)) \<le> MAX_RESPONSE"
  by (auto simp: answer_request_def Let_def errors_fit_def split: prod.split option.split)

subsection \<open>The loop\<close>

definition server_ok :: "crates \<Rightarrow> json_lib \<Rightarrow> Server \<Rightarrow> bool" where
  "server_ok C J s \<longleftrightarrow> gw_inv C (sr_gateway s) \<and> eng_ok J (sr_engine s) \<and>
     permits_used s \<le> MAX_ENGINE_CALLS \<and> (\<forall>(t, b) \<in> set (sr_finished s). length b \<le> MAX_RESPONSE)"

lemma server_ok_finish:
  assumes "server_ok C J s" and "json_ok J V" and "errors_fit J"
  shows "server_ok C J (finish_task J net s i now later)"
proof (cases "i < length (sr_tasks s)")
  case True
  obtain rq permit where t: "sr_tasks s ! i = (rq, permit)" by (cases "sr_tasks s ! i")
  obtain b E reqs where a: "(if permit then answer_request J net (sr_engine s) (sr_log s) rq now later
      else (busy J, sr_engine s, sr_log s)) = (b, E, reqs)" by (metis prod_cases3)
  have "eng_ok J E"
    using a assms(1,2) eng_ok_answer by (auto simp: server_ok_def split: if_splits)
  moreover have "length b \<le> MAX_RESPONSE"
    using a assms(3) answer_fits [OF assms(3), of net "sr_engine s" "sr_log s" rq now later]
    by (auto simp: errors_fit_def split: if_splits)
  moreover have "length (filter snd (take i (sr_tasks s) @ drop (Suc i) (sr_tasks s))) \<le> permits_used s"
    unfolding permits_used_def by (subst (3) id_take_nth_drop [OF True]) simp
  ultimately show ?thesis
    using True t a assms(1) by (auto simp: finish_task_def server_ok_def permits_used_def)
qed (use assms in \<open>simp add: finish_task_def\<close>)

lemma server_ok_take:
  assumes "server_ok C J s" and "json_ok J V" and "errors_fit J" and "server_take C J net now s ev = Return s'"
  shows "server_ok C J s'"
proof (cases ev)
  case (Packet socket peer packet e)
  obtain g r where r: "receive C (sr_gateway s) packet socket peer e = Return (g, r)"
    using assms(4) Packet by (auto split: outcome.splits)
  then have "gw_inv C g"
    using assms(1) gw.step_good [of C "sr_gateway s" "Receive packet socket peer e" g] by (simp add: server_ok_def)
  then show ?thesis
    using assms(1,4) Packet r by (cases r) (auto simp: server_ok_def permits_used_def)
next
  case (TaskDone i t u)
  then show ?thesis using server_ok_finish [OF assms(1-3)] assms(4) by auto
next
  case Finished
  have "gw_inv C g" if "respond C (sr_gateway s) t b n = Return g" for t b n g
    using that assms(1) gw.step_good [of C "sr_gateway s" "Respond t b n" g] by (simp add: server_ok_def)
  then show ?thesis
    using assms(1,4) Finished
    by (auto simp: server_ok_def permits_used_def split: outcome.splits list.splits prod.splits)
next
  case (NewKeys ks)
  have "gw_inv C (set_keys (sr_gateway s) ks)"
    using assms(1) gw.step_good [of C "sr_gateway s" "SetKeys ks"] by (simp add: server_ok_def)
  then show ?thesis
    using assms(1,4) NewKeys by (auto simp: server_ok_def permits_used_def split: list.splits)
next
  case Woken
  then show ?thesis using assms(1,4) by simp
qed

lemma server_ok_after:
  assumes "server_ok C J s" shows "server_ok C J (after_event C now s)"
proof -
  have "gw_inv C (fst (poll C (sr_gateway s) t))" for t
    using assms gw.step_good [of C "sr_gateway s" "Poll t"] by (simp add: server_ok_def)
  moreover have "gw_inv C g \<Longrightarrow> gw_inv C (sweep g now)" for g by (rule gw_inv_sweep)
  ultimately show ?thesis
    using assms by (auto simp: after_event_def server_ok_def permits_used_def Let_def split_def)
qed

text \<open>Every step of the server keeps the invariant; the machine's lemmas then hold of its runs.\<close>

definition server_machine_ok :: "crates \<Rightarrow> json_lib \<times> json set \<Rightarrow> Server \<Rightarrow> bool" where
  "server_machine_ok C JV s \<longleftrightarrow> json_ok (fst JV) (snd JV) \<and> errors_fit (fst JV) \<and> server_ok C (fst JV) s"

interpretation server: machine "server_step C (fst JV) net" "server_machine_ok C JV" for C JV net
proof
  fix s e s'
  assume good: "server_machine_ok C JV s" and st: "server_step C (fst JV) net s e = Return s'"
  obtain now ev where e: "e = (now, ev)" by (cases e)
  obtain s1 where s1: "server_take C (fst JV) net now s ev = Return s1"
    and s': "s' = (if is_turn ev then after_event C now s1 else s1)"
    using st e by (auto split: outcome.splits)
  from good have parts: "json_ok (fst JV) (snd JV)" "errors_fit (fst JV)" "server_ok C (fst JV) s"
    unfolding server_machine_ok_def by blast+
  have "server_ok C (fst JV) s1" by (rule server_ok_take [OF parts(3,1,2) s1])
  then have "server_ok C (fst JV) s'" unfolding s' by (simp add: server_ok_after)
  then show "server_machine_ok C JV s'" using parts by (simp add: server_machine_ok_def)
qed

lemma server_ok_new: "eng_ok J E \<Longrightarrow> server_ok C J (server_new ks E reqs now)"
  by (simp add: server_ok_def server_new_def permits_used_def)

subsection \<open>One device does not see another\<close>

text \<open>Two engines that agree on all but the sessions of other devices.\<close>

definition same_for :: "bytes \<Rightarrow> Engine \<Rightarrow> Engine \<Rightarrow> bool" where
  "same_for d E E2 \<longleftrightarrow> en_url E = en_url E2 \<and> en_secret E = en_secret E2 \<and> en_edge_url E = en_edge_url E2 \<and>
     map_of (en_sessions E) d = map_of (en_sessions E2) d"

lemma same_for_refl [simp]: "same_for d E E"
  by (simp add: same_for_def)

lemma same_for_keep: "same_for d E E2 \<Longrightarrow> same_for d (keep E d h s a now) (keep E2 d h s a now)"
  by (simp add: same_for_def)

lemma fetch_same: "same_for d E E2 \<Longrightarrow> fetch J net E2 reqs s page = fetch J net E reqs s page"
  by (simp add: fetch_def same_for_def)

lemma sign_in_same: "same_for d E E2 \<Longrightarrow> sign_in J net E2 reqs page path b = sign_in J net E reqs page path b"
  by (simp add: sign_in_def sign_in_request_def same_for_def Let_def)

lemma session_for_same:
  assumes "same_for d E E2"
  shows "fst (session_for J E2 d page now) = fst (session_for J E d page now)"
    and "same_for d (snd (session_for J E d page now)) (snd (session_for J E2 d page now))"
proof -
  have "map_of (en_sessions E2) d = map_of (en_sessions E) d" using assms by (simp add: same_for_def)
  then show "fst (session_for J E2 d page now) = fst (session_for J E d page now)"
    by (auto simp: session_for_def split: option.split)
  show "same_for d (snd (session_for J E d page now)) (snd (session_for J E2 d page now))"
    using assms same_for_keep [OF assms]
    by (auto simp: session_for_def same_for_def split: option.split)
qed

lemma page_same:
  assumes "same_for d E E2"
  shows "fst (page_answer J net E2 reqs d page now later) = fst (page_answer J net E reqs d page now later) \<and>
    snd (snd (page_answer J net E2 reqs d page now later)) = snd (snd (page_answer J net E reqs d page now later))"
proof -
  obtain found E' where s: "session_for J E d page now = (found, E')" by (meson surj_pair)
  obtain E2' where s2: "session_for J E2 d page now = (found, E2')" and same: "same_for d E' E2'"
    using session_for_same [OF assms, of J page now] s by (metis fst_conv snd_conv surj_pair)
  have sk: "same_for d (keep E' d h v a later) (keep E2' d h v a later)" for h v a by (rule same_for_keep [OF same])
  show ?thesis
    by (auto simp: page_answer_def s s2 renewed_def Let_def sign_in_same [OF assms] sign_in_same [OF same]
        fetch_same [OF same] fetch_same [OF sk] split: option.split prod.split)
qed

text \<open>
  The sessions of the other devices are as before, but for the stalest of all, and that only
  when the table is full and the device is not in it.
\<close>

definition others_kept :: "bytes \<Rightarrow> Engine \<Rightarrow> Engine \<Rightarrow> bool" where
  "others_kept d E E' \<longleftrightarrow>
     (\<forall>d'. d' \<noteq> d \<longrightarrow> map_of (en_sessions E') d' = map_of (en_sessions E) d') \<or>
     KEPT_SESSIONS \<le> length (en_sessions E) \<and> map_of (en_sessions E) d = None \<and>
     (\<exists>old k. (old, k) \<in> set (en_sessions E) \<and> (\<forall>(_, k') \<in> set (en_sessions E). kp_at k \<le> kp_at k') \<and>
        (\<forall>d'. d' \<noteq> d \<longrightarrow> map_of (en_sessions E') d' = (if d' = old then None else map_of (en_sessions E) d')))"

lemma others_kept_refl [simp]: "others_kept d E E"
  by (simp add: others_kept_def)

lemma others_keep: "others_kept d E (keep E d h s a now)"
proof (cases "KEPT_SESSIONS \<le> length (en_sessions E) \<and> map_of (en_sessions E) d = None")
  case True
  then have "en_sessions E \<noteq> []" by (auto simp: KEPT_SESSIONS_def)
  then obtain old k where m: "min_by_key (\<lambda>(_, k). kp_at k) (en_sessions E) = Some (old, k)"
    by (metis min_by_key_None not_None_eq surj_pair)
  then have "(old, k) \<in> set (en_sessions E)" "\<forall>(_, k') \<in> set (en_sessions E). kp_at k \<le> kp_at k'"
    using min_by_key_Some [OF m] by auto
  then show ?thesis
    using True m by (auto simp: others_kept_def keep_def Let_def)
qed (auto simp: others_kept_def keep_def Let_def)

lemma others_keep_own:
  "map_of (en_sessions E) d \<noteq> None \<Longrightarrow> d' \<noteq> d \<Longrightarrow>
     map_of (en_sessions (keep E d h s a now)) d' = map_of (en_sessions E) d'"
  by (auto simp: keep_def Let_def)

lemma session_for_others:
  assumes "session_for J E d page now = (found, E')"
  shows "others_kept d E E'" and "found \<noteq> None \<Longrightarrow> map_of (en_sessions E') d \<noteq> None"
proof -
  have "others_kept d E (E\<lparr>en_sessions := hm_adjust d (\<lambda>k. k\<lparr>kp_at := now\<rparr>) (en_sessions E)\<rparr>)"
    by (simp add: others_kept_def)
  then show "others_kept d E E'"
    using assms others_keep by (auto simp: session_for_def split: option.splits if_splits)
  show "found \<noteq> None \<Longrightarrow> map_of (en_sessions E') d \<noteq> None"
    using assms by (auto simp: session_for_def split: option.splits if_splits)
qed

lemma others_page:
  assumes "page_answer J net E reqs d page now later = (r, E', reqs')"
  shows "others_kept d E E'"
proof -
  obtain found E1 where s: "session_for J E d page now = (found, E1)" by (meson surj_pair)
  note 1 = session_for_others [OF s]
  have "others_kept d E E2"
    if "renewed J net E1 q d page a x later = (r2, E2, q2)" and "found \<noteq> None" for q a x r2 E2 q2
  proof -
    from that(1) consider "E2 = E1" | h v b where "E2 = keep E1 d h v b later"
      by (auto simp: renewed_def Let_def split: prod.splits option.splits if_splits)
    then have "\<forall>d'. d' \<noteq> d \<longrightarrow> map_of (en_sessions E2) d' = map_of (en_sessions E1) d'"
      using others_keep_own [OF 1(2) [OF that(2)]] by cases simp_all
    then show ?thesis using 1(1) unfolding others_kept_def by metis
  qed
  then show ?thesis
    using assms 1 by (fastforce simp: page_answer_def s split: prod.splits option.splits if_splits)
qed

end
