(* ===== verification/SealClaims.thy ===== *)
theory SealClaims
  imports MailSeal Samples
begin

section \<open>Sealed boxes and the vault: their claims\<close>

text \<open>An instance of the crates: hexadecimal for base64, the plain cipher, a fixed shared secret.\<close>

definition plain_box :: box_crypto where
  "plain_box = \<lparr>bc_public = resize 32 0, bc_dh = \<lambda>a b. [], bc_hkdf = \<lambda>salt ikm info. resize 32 0 salt,
     bc_gcm = plain_aead, bc_encode = hex, bc_decode = unhex\<rparr>"

lemma plain_box_simps:
  "bc_public plain_box = resize 32 0" "bc_gcm plain_box = plain_aead" "bc_encode plain_box = hex"
  by (simp_all add: plain_box_def)

lemma hex_no_equals: "list_all (\<lambda>c. c \<noteq> CHR ''='') (hex b)"
proof -
  have ne: "hex_digit n \<noteq> CHR ''=''" if "n < 16" for n
  proof -
    have "hex_val (hex_digit n) = Some n" using that by (rule hex_digit_val)
    moreover have "hex_val CHR ''='' = None" by (simp add: hex_val_def char_code_def)
    ultimately show ?thesis by auto
  qed
  have "unat x div 16 < 16" for x :: u8 using u8_bound [of x] by simp
  with ne show ?thesis by (auto simp: hex_def hex_byte_def list_all_iff)
qed

lemma plain_box_ok: "box_ok plain_box"
  using hex_graph hex_no_equals
  by (auto simp: box_ok_def plain_box_def plain_aead_ok resize_def list_all_iff)

text \<open>
  C31: A sealed box opens for its recipient and its mailbox and for nothing else.  What is sealed
  to a public key for a mailbox the holder of the secret reads back; and whatever opens is, byte
  for byte, a version 1 box whose ciphertext was made under the key the recipient and the
  sender's ephemeral key agree on, for that same mailbox id.
\<close>

theorem mail_box_exact:
  assumes "box_ok B" "aead_strict (bc_gcm B)" and "length sk = 32" and "length iv = 12"
  shows "(\<exists>s. seal_with B (bc_encode B (bc_public B sk)) mailbox m eph iv = Inr s \<and>
      box_open B (bc_encode B sk) mailbox s = Inr m) \<and>
    (box_open B (bc_encode B sk) mailbox t = Inr m' \<longleftrightarrow> (\<exists>e n. length e = 32 \<and> length n = 12 \<and>
      bc_decode B (trim_end_matches CHR ''='' (trim t)) = Some (BOX_VERSION # e @ n @
        ae_enc (bc_gcm B) (box_key B (bc_dh B sk e) e (bc_public B sk)) n (as_bytes mailbox) m')))"
proof
  have k: "key32 B (bc_encode B sk) = Inr sk" using assms by simp
  have ok: "aead_ok (bc_gcm B)" "\<And>a. length (bc_public B a) = 32"
    "\<And>a b. bc_dh B a (bc_public B b) = bc_dh B b (bc_public B a)" using assms(1) by (auto simp: box_ok_def)
  note opens = box_open_eq [OF k ok(1) assms(2)]
  define s where "s = bc_encode B (BOX_VERSION # bc_public B eph @ iv @ ae_enc (bc_gcm B)
    (box_key B (bc_dh B eph (bc_public B sk)) (bc_public B eph) (bc_public B sk)) iv (as_bytes mailbox) m)"
  have "seal_with B (bc_encode B (bc_public B sk)) mailbox m eph iv = Inr s"
    using assms(1) ok(2) by (simp add: seal_with_def s_def Let_def)
  moreover have "box_open B (bc_encode B sk) mailbox s = Inr m"
    unfolding opens s_def using decode_encode [OF assms(1)] ok assms(4)
    by (intro exI [of _ "bc_public B eph"] exI [of _ iv]) simp
  ultimately show "\<exists>s. seal_with B (bc_encode B (bc_public B sk)) mailbox m eph iv = Inr s \<and>
      box_open B (bc_encode B sk) mailbox s = Inr m" by blast
  show "box_open B (bc_encode B sk) mailbox t = Inr m' \<longleftrightarrow> (\<exists>e n. length e = 32 \<and> length n = 12 \<and>
      bc_decode B (trim_end_matches CHR ''='' (trim t)) = Some (BOX_VERSION # e @ n @
        ae_enc (bc_gcm B) (box_key B (bc_dh B sk e) e (bc_public B sk)) n (as_bytes mailbox) m'))"
    by (rule opens)
qed

theorem mail_box_exact_witness:
  "\<exists>s. seal_with plain_box (hex (resize 32 0 (replicate 32 1))) ''box'' [1, 2] [3] (replicate 12 0) = Inr s \<and>
     box_open plain_box (hex (replicate 32 1)) ''box'' s = Inr [1, 2]"
  using mail_box_exact [OF plain_box_ok, of "replicate 32 1" "replicate 12 0" "''box''" "[1, 2]" "[3]",
      THEN conjunct1]
  by (simp add: plain_box_simps plain_aead_strict)

text \<open>
  C32: The vault opens what it sealed, for the same document only.  A sealed value opens under
  its key and document; anything that opens was sealed under that key for that document name;
  and a JSON value that was sealed comes back as it was.
\<close>

theorem vault_exact:
  assumes "box_ok B" "aead_strict (bc_gcm B)" and "length iv = NONCE_LEN"
    and "js_read J (js_print J (wr x)) = Some (wr x)" "is_str (js_print J (wr x))" and "rd (wr x) = Some x"
  shows "(vault_open B key aad s = Inr m \<longleftrightarrow> (\<exists>n. length n = NONCE_LEN \<and>
      bc_decode B s = Some (n @ ae_enc (bc_gcm B) key n (as_bytes aad) m))) \<and>
    open_json B J rd key aad (seal_json B J wr key iv aad x) = Inr x"
proof
  have ok: "aead_ok (bc_gcm B)" "\<And>b. bc_decode B (bc_encode B b) = Some b"
    using assms(1) by (auto simp: box_ok_def)
  note opens = vault_open_eq [OF ok(1) assms(2)]
  show "vault_open B key aad s = Inr m \<longleftrightarrow> (\<exists>n. length n = NONCE_LEN \<and>
      bc_decode B s = Some (n @ ae_enc (bc_gcm B) key n (as_bytes aad) m))" by (rule opens)
  have "vault_open B key aad (vault_seal B key iv aad b) = Inr b" for b
    unfolding opens using assms(3) ok(2) by (auto simp: vault_seal_def)
  then show "open_json B J rd key aad (seal_json B J wr key iv aad x) = Inr x"
    using assms(4-6) by (simp add: open_json_def seal_json_def)
qed

definition one_string :: json_lib where
  "one_string = \<lparr>js_read = \<lambda>s. Some (JStr s), js_print = \<lambda>v. case v of JStr s \<Rightarrow> s | _ \<Rightarrow> []\<rparr>"

theorem vault_exact_witness:
  "open_json plain_box one_string j_str [7] ''accounts/A'' (seal_json plain_box one_string JStr [7] (replicate 12 5)
     ''accounts/A'' ''pw'') = Inr ''pw''"
proof -
  have "is_str ''pw''" by (rule is_str_ascii) (simp add: char_code_def)
  then show ?thesis
    using vault_exact [OF plain_box_ok, of "replicate 12 5" one_string JStr "''pw''" j_str "[7]" "''accounts/A''"]
    by (simp add: one_string_def NONCE_LEN_def plain_box_def plain_aead_strict)
qed

end
