(* ===== verification/ServerClaims.thy ===== *)
theory ServerClaims
  imports ServerProps SealClaims
begin

section \<open>The gateway's server: its claims\<close>

text \<open>
  C13: Whatever packets arrive, whatever the engine and the edge answer or fail to, in whatever
  order the calls end: at most \<open>MAX_ENGINE_CALLS\<close> calls run at once, the protocol machine keeps
  its invariant, at most \<open>KEPT_SESSIONS\<close> sessions are kept, each under the hash of a text it
  was read from, and every body handed to the protocol machine fits its limit, so that none is
  refused for its size.
\<close>

theorem server_invariant:
  assumes "json_ok J V" and "errors_fit J"
    and "run_machine (server_step C J net) (server_new ks (engine_new url secret edge identity) reqs now) evs = Return s"
  shows "gw_inv C (sr_gateway s) \<and> permits_used s \<le> MAX_ENGINE_CALLS \<and>
    length (en_sessions (sr_engine s)) \<le> KEPT_SESSIONS \<and>
    (\<forall>(d, k) \<in> set (en_sessions (sr_engine s)).
       \<exists>text. session_hash J text = kp_hash k \<and> js_read J text = Some (kp_session k)) \<and>
    (\<forall>(t, b) \<in> set (sr_finished s). length b \<le> MAX_RESPONSE)"
proof -
  have "server_machine_ok C (J, V) (server_new ks (engine_new url secret edge identity) reqs now)"
    using assms(1,2) by (simp add: server_machine_ok_def server_ok_new)
  from server.run_good [OF this, of net] assms(3) have "server_ok C J s"
    by (simp add: server_machine_ok_def)
  then show ?thesis by (auto simp: server_ok_def eng_ok_def kept_ok_def)
qed

definition quiet_json :: json_lib where
  "quiet_json = \<lparr>js_read = \<lambda>s. Some (JStr s), js_print = \<lambda>v. case v of JStr s \<Rightarrow> s | _ \<Rightarrow> []\<rparr>"

lemma quiet_json_ok: "json_ok quiet_json (range JStr)" "errors_fit quiet_json"
  by (auto simp: json_ok_def quiet_json_def errors_fit_def too_large_def busy_def wr_encode_def
      error_response_def as_bytes_def fec_sizes)

theorem server_invariant_witness:
  "\<exists>s. run_machine (server_step toy quiet_json (\<lambda>_. Unreachable)) (server_new [[4]] (engine_new [] [] [] []) [] 0)
      [(env0, Woken)] = Return s \<and> permits_used s \<le> MAX_ENGINE_CALLS"
proof -
  obtain s where s: "run_machine (server_step toy quiet_json (\<lambda>_. Unreachable))
      (server_new [[4]] (engine_new [] [] [] []) [] 0) [(env0, Woken)] = Return s" by simp
  from server_invariant [OF quiet_json_ok s] s show ?thesis by blast
qed

text \<open>
  A renewed session is the phone's next session.  When an answer carries a session, it cost
  exactly three requests (the fetch, one sign-in, one more fetch), and from then on, for
  \<open>SESSION_KEEP\<close>, a request of that device with only the hash of the text it was sent is served
  on that session.
\<close>

theorem renewed_session_served:
  assumes "json_ok J V" and "page_answer J net E reqs d page now later = (r, E', reqs')"
    and "wr_session r = Some text"
  shows "length reqs' = length reqs + 3 \<and> (\<exists>session account. js_read J text = Some session \<and>
    (\<forall>page2 t. wq_session page2 = None \<and> wq_session_hash page2 = session_hash J text \<and>
       since t later \<le> SESSION_KEEP \<longrightarrow> fst (session_for J E' d page2 t) = Some (session, Some account)))"
proof -
  have plain: "wr_session (passed_on J u k p res) = None" for u k p res
    by (simp add: passed_on_def error_response_def split: HttpResult.split option.split)
  have f: "wr_session (fst (fetch J net F q s page)) = None" "length (snd (fetch J net F q s page)) = Suc (length q)"
    for F q s by (simp_all add: fetch_def send_def plain Let_def)
  have l: "wr_session (fst (sign_in J net F q page path b)) = None" for F q path b
    by (simp add: sign_in_def send_def plain error_response_def Let_def split: option.split)
  have l2: "length (snd (sign_in J net F q page ''/v1/app/login'' b)) = Suc (length q)" for F q b
    by (simp add: sign_in_def sign_in_request_def send_def Let_def)
  obtain found E1 where s: "session_for J E d page now = (found, E1)" by (meson surj_pair)
  have fD: "wr_session a = None" if "fetch J net F q s page = (a, q')" for F q s a q'
    using f(1) [of F q s] that by simp
  have lD: "wr_session a = None" if "sign_in J net F q page path b = (a, q')" for F q path b a q'
    using l [of F q path b] that by simp
  obtain session0 account ans q1 where found: "found = Some (session0, Some account)"
    and fetch1: "fetch J net E1 reqs session0 page = (ans, q1)"
    and ren: "renewed J net E1 q1 d page account ans later = (r, E', reqs')"
    using assms(2,3) s
    by (auto simp: page_answer_def error_response_def split: option.splits prod.splits if_splits dest: fD lD)
  obtain login q2 where login: "sign_in J net E1 q1 page ''/v1/app/login'' account = (login, q2)"
    by (meson surj_pair)
  have "wr_session ans = None" "wr_session login = None"
    using f(1) [of E1 reqs session0] l [of E1 q1 "''/v1/app/login''" account] fetch1 login by simp_all
  then obtain session v where new: "from_slice J (wr_body login) = Some v" "j_get v ''session'' = Some session"
    and tx: "text = js_print J session"
    and E': "E' = keep E1 d (session_hash J text) session (Some account) later"
    and q: "reqs' = snd (fetch J net E' q2 session page)"
    using ren login assms(3)
    by (auto simp: renewed_def Let_def bind_eq_Some_conv split: if_splits option.splits prod.splits)
  have "v \<in> V" using new(1) assms(1) by (auto simp: from_slice_def json_ok_def bind_eq_Some_conv)
  then have "js_read J text = Some session" using new(2) assms(1) tx by (auto simp: json_ok_def)
  moreover have "length reqs' = length reqs + 3"
    using f(2) [of E1 reqs session0] f(2) [of E' q2 session] l2 [of E1 q1 account] fetch1 login q by simp
  ultimately show ?thesis by (auto simp: session_for_def E')
qed

text \<open>
  C9: Devices are isolated.  What a device is answered, and every request made for it, depend on
  no other device's session; and answering it leaves every other device's session as it is,
  except that one session is forgotten when the table is full and the device is not in it: the
  one unused for the longest.
\<close>

theorem device_isolation:
  assumes "same_for (nr_device rq) E E2" and "answer_request J net E reqs rq now later = (b, E', reqs')"
    and "answer_request J net E2 reqs rq now later = (b2, E2', reqs2')"
  shows "b2 = b \<and> reqs2' = reqs' \<and>
    ((\<forall>d. d \<noteq> nr_device rq \<longrightarrow> map_of (en_sessions E') d = map_of (en_sessions E) d) \<or>
     KEPT_SESSIONS \<le> length (en_sessions E) \<and> map_of (en_sessions E) (nr_device rq) = None \<and>
     (\<exists>old k. (old, k) \<in> set (en_sessions E) \<and> (\<forall>(_, k') \<in> set (en_sessions E). kp_at k \<le> kp_at k') \<and>
        (\<forall>d. d \<noteq> nr_device rq \<longrightarrow>
           map_of (en_sessions E') d = (if d = old then None else map_of (en_sessions E) d))))"
proof -
  have "b2 = b \<and> reqs2' = reqs' \<and> others_kept (nr_device rq) E E'"
  proof (cases "wq_decode (nr_body rq)")
    case None
    then show ?thesis using assms(2,3) by (auto simp: answer_request_def Let_def)
  next
    case (Some page)
    obtain r E1 q where p: "page_answer J net E reqs (nr_device rq) page now later = (r, E1, q)"
      by (metis prod_cases3)
    obtain r2 E3 q2 where p2: "page_answer J net E2 reqs (nr_device rq) page now later = (r2, E3, q2)"
      by (metis prod_cases3)
    have "r2 = r" "q2 = q" using page_same [OF assms(1), of J net reqs page now later] p p2 by simp_all
    moreover have "others_kept (nr_device rq) E E1" by (rule others_page [OF p])
    moreover have "E' = E1" "reqs' = q" "reqs2' = q2" "r2 = r \<Longrightarrow> b2 = b"
      using assms(2,3) Some p p2 by (auto simp: answer_request_def Let_def)
    ultimately show ?thesis by simp
  qed
  then show ?thesis unfolding others_kept_def .
qed

text \<open>An engine that says the session expired, an edge that signs in.\<close>

definition renewing_json :: json_lib where
  "renewing_json = \<lparr>js_read = \<lambda>s. if s = ''e'' then Some (JObj [(''code'', JStr ''session_expired'')])
       else if s = ''n'' then Some (JObj [(''session'', JStr ''new'')]) else Some (JStr s),
     js_print = \<lambda>v. case v of JStr s \<Rightarrow> s | JObj [(k, _)] \<Rightarrow> if k = ''code'' then ''e'' else ''n'' | _ \<Rightarrow> []\<rparr>"

definition renewing_net :: network where
  "renewing_net reqs = (if length reqs = 1 then Answered 401 None (Some (as_bytes ''e''))
     else if length reqs = 2 then Answered 200 None (Some (as_bytes ''n'')) else Answered 200 None (Some []))"

definition renewing_page :: WirePageRequest where
  "renewing_page = \<lparr>wq_request_id = None, wq_name = ''marks'', wq_semester = None, wq_args = [], wq_dictionary = None,
     wq_session_hash = session_hash renewing_json ''old'', wq_session = Some ''old'', wq_account = Some ''acc''\<rparr>"

definition renewing_values :: "json set" where
  "renewing_values = {JStr s |s. s \<noteq> ''e'' \<and> s \<noteq> ''n''} \<union>
     {JObj [(''code'', JStr ''session_expired'')], JObj [(''session'', JStr ''new'')]}"

lemma renewing_ok: "json_ok renewing_json renewing_values"
  by (auto simp: json_ok_def renewing_json_def renewing_values_def split: if_splits)

lemma renewing_renews:
  "wr_session (fst (page_answer renewing_json renewing_net (engine_new [] [] [] []) [] [2] renewing_page 0 1)) = Some ''new''"
proof -
  have u: "from_utf8 (as_bytes ''e'') = Some ''e''" "from_utf8 (as_bytes ''n'') = Some ''n''"
    by (rule from_utf8_str, rule is_str_ascii, simp add: char_code_def)+
  have r: "js_read renewing_json ''e'' = Some (JObj [(''code'', JStr ''session_expired'')])"
    "js_read renewing_json ''n'' = Some (JObj [(''session'', JStr ''new'')])"
    "js_read renewing_json ''old'' = Some (JStr ''old'')" "js_print renewing_json (JStr ''new'') = ''new''"
    by (simp_all add: renewing_json_def)
  show ?thesis
    by (simp add: page_answer_def renewing_page_def starts_with_slash_def session_for_def r fetch_def send_def Let_def
        renewing_net_def passed_on_def expired_def from_slice_def u j_field_def renewed_def sign_in_def sign_in_request_def)
qed

text \<open>A page is asked for while another device's session is in the table.\<close>

definition other_kept :: Kept where
  "other_kept = \<lparr>kp_hash = 1, kp_session = JNull, kp_account = None, kp_at = 0\<rparr>"

definition renewing_request :: NewRequest where
  "renewing_request = \<lparr>nr_token = token0, nr_device = [2], nr_body = the (wq_encode renewing_page)\<rparr>"

lemma renewing_decodes: "wq_decode (nr_body renewing_request) = Some renewing_page"
proof -
  have "is_str ''marks''" "is_str ''old''" "is_str ''acc''"
    by (rule is_str_ascii, simp add: char_code_def)+
  then have ok: "wq_ok renewing_page" by (simp add: wq_ok_def renewing_page_def id_ok_def or_empty_def bt_ok_def)
  have "\<exists>b. wq_encode renewing_page = Some b"
    by (simp add: wq_encode_def renewing_page_def put_short_def put_long_def or_empty_def)
  then obtain b where b: "wq_encode renewing_page = Some b" by blast
  have "wq_decode b = Some renewing_page" using page_request_roundtrip [OF ok b] by blast
  then show ?thesis by (simp add: renewing_request_def b)
qed

lemma renewing_requests:
  "length (snd (snd (answer_request renewing_json renewing_net (engine_new [] [] [] []) [] renewing_request 0 1))) = 3"
proof -
  obtain r E q where p: "page_answer renewing_json renewing_net (engine_new [] [] [] []) [] [2] renewing_page 0 1 = (r, E, q)"
    by (metis prod_cases3)
  have "wr_session r = Some ''new''" using renewing_renews p by simp
  from renewed_session_served [OF renewing_ok p this] have "length q = 3" by simp
  moreover have "nr_device renewing_request = [2]" by (simp add: renewing_request_def)
  ultimately show ?thesis using p renewing_decodes by (simp add: answer_request_def Let_def)
qed

theorem device_isolation_witness:
  "let E = engine_new [] [] [] []; E2 = E\<lparr>en_sessions := [([9], other_kept)]\<rparr>;
     a = answer_request renewing_json renewing_net E [] renewing_request 0 1;
     a2 = answer_request renewing_json renewing_net E2 [] renewing_request 0 1
   in fst a2 = fst a \<and> snd (snd a2) = snd (snd a) \<and> length (snd (snd a)) = 3 \<and>
      map_of (en_sessions (fst (snd a2))) [9] = Some other_kept"
proof -
  define E where "E = engine_new [] [] [] []"
  define E2 where "E2 = E\<lparr>en_sessions := [([9], other_kept)]\<rparr>"
  obtain b E' q where a: "answer_request renewing_json renewing_net E [] renewing_request 0 1 = (b, E', q)"
    by (metis prod_cases3)
  obtain b2 E2' q2 where a2: "answer_request renewing_json renewing_net E2 [] renewing_request 0 1 = (b2, E2', q2)"
    by (metis prod_cases3)
  have same: "same_for (nr_device renewing_request) E2 E"
    by (simp add: same_for_def E_def E2_def engine_new_def renewing_request_def)
  have "\<not> KEPT_SESSIONS \<le> length (en_sessions E2)" "[9] \<noteq> nr_device renewing_request"
    "map_of (en_sessions E2) [9] = Some other_kept"
    by (simp_all add: E2_def KEPT_SESSIONS_def renewing_request_def)
  then have "b = b2 \<and> q = q2 \<and> map_of (en_sessions E2') [9] = Some other_kept"
    using device_isolation [OF same a2 a] by metis
  then show ?thesis
    using renewing_requests unfolding Let_def E_def [symmetric] E2_def [symmetric] a a2 by simp
qed

theorem renewed_session_served_witness:
  "\<exists>r E' reqs'. page_answer renewing_json renewing_net (engine_new [] [] [] []) [] [2] renewing_page 0 1 = (r, E', reqs') \<and>
     wr_session r = Some ''new'' \<and> length reqs' = 3"
proof -
  obtain r E' reqs' where p: "page_answer renewing_json renewing_net (engine_new [] [] [] []) [] [2] renewing_page 0 1 = (r, E', reqs')"
    by (metis prod_cases3)
  then have "wr_session r = Some ''new''" using renewing_renews by simp
  from renewed_session_served [OF renewing_ok p this] this p show ?thesis by auto
qed

text \<open>
  The keys are asked for in time.  The next ask comes within \<open>KEYS_EVERY\<close>, not before half a
  minute has passed, and never later than half a minute after the next weekly rotation.
\<close>

theorem key_check_in_time:
  assumes "MONDAY_IST \<le> now"
  shows "secs 30 \<le> next_key_check now \<and> next_key_check now \<le> KEYS_EVERY \<and>
    (\<forall>n. now < MONDAY_IST + n * WEEK_SECS \<longrightarrow> secs now + next_key_check now \<le> secs (MONDAY_IST + n * WEEK_SECS + 30))"
proof (intro conjI allI impI)
  define d where "d = now - MONDAY_IST"
  have now: "now = MONDAY_IST + d" using assms by (simp add: d_def)
  have W: "0 < WEEK_SECS" by (simp add: WEEK_SECS_def)
  then have m: "d mod WEEK_SECS < WEEK_SECS" by simp
  have check: "next_key_check now = min (secs (WEEK_SECS - d mod WEEK_SECS + 30)) KEYS_EVERY"
    by (simp add: next_key_check_def Let_def d_def)
  show "secs 30 \<le> next_key_check now" unfolding check using m by (simp add: KEYS_EVERY_def)
  show "next_key_check now \<le> KEYS_EVERY" unfolding check by simp
  fix n assume "now < MONDAY_IST + n * WEEK_SECS"
  then have "d < n * WEEK_SECS" using now by simp
  then have "d div WEEK_SECS < n" using W by (simp add: div_less_iff_less_mult)
  then have "(d div WEEK_SECS + 1) * WEEK_SECS \<le> n * WEEK_SECS" by (intro mult_le_mono1) simp
  moreover have "d = d div WEEK_SECS * WEEK_SECS + d mod WEEK_SECS" by simp
  ultimately have "d + (WEEK_SECS - d mod WEEK_SECS) \<le> n * WEEK_SECS"
    using m unfolding add_mult_distrib mult_1 by linarith
  then have "now + (WEEK_SECS - d mod WEEK_SECS + 30) \<le> MONDAY_IST + n * WEEK_SECS + 30" using now by simp
  then have "secs (now + (WEEK_SECS - d mod WEEK_SECS + 30)) \<le> secs (MONDAY_IST + n * WEEK_SECS + 30)"
    by (rule mult_le_mono1)
  moreover have "next_key_check now \<le> secs (WEEK_SECS - d mod WEEK_SECS + 30)" unfolding check by simp
  ultimately show "secs now + next_key_check now \<le> secs (MONDAY_IST + n * WEEK_SECS + 30)"
    by (simp add: add_mult_distrib)
qed

theorem key_check_in_time_witness:
  "secs 30 \<le> next_key_check 1704652200 \<and> next_key_check 1704652200 \<le> KEYS_EVERY"
  using key_check_in_time [of 1704652200] by (simp add: MONDAY_IST_def)

text \<open>
  The keys the gateway takes on are the edge's.  When asking succeeds there is at least one
  key, each has 32 bytes, and they were in a box sealed for \<open>UDP_KEYS_SEALED_FOR\<close> that opens
  under the gateway's own identity.
\<close>

theorem keys_from_sealed_box:
  assumes "keys J B net E reqs = (Inr ks, reqs')"
  shows "ks \<noteq> [] \<and> (\<forall>k \<in> set ks. length k = 32) \<and>
    (\<exists>sealed opened v. box_open B (en_identity E) UDP_KEYS_SEALED_FOR sealed = Inr opened \<and>
       from_slice J opened = Some v \<and> ks = keys_in v)"
proof -
  have "length k = 32" if "k \<in> set (keys_in v)" for k v
    using that by (auto simp: keys_in_def map_filter_def key_of_def bind_eq_Some_conv
        split: option.splits json.splits if_splits)
  then show ?thesis
    using assms by (auto simp: keys_def Let_def split: prod.splits HttpResult.splits option.splits sum.splits if_splits)
qed

definition key_json :: json_lib where
  "key_json = \<lparr>js_read = \<lambda>s. if s = ''k'' then Some (JObj [(''keys'', JArr [JStr (hex (replicate 32 4))])])
       else Some (JObj [(''sealed'', JStr s)]), js_print = \<lambda>v. []\<rparr>"

definition sealed_keys :: string where
  "sealed_keys = hex (BOX_VERSION # replicate 32 7 @ replicate 12 5 @ ae_enc plain_aead (replicate 32 7) (replicate 12 5)
     (as_bytes UDP_KEYS_SEALED_FOR) (as_bytes ''k''))"

lemma sealed_keys_open: "box_open plain_box (hex (replicate 32 1)) UDP_KEYS_SEALED_FOR sealed_keys = Inr (as_bytes ''k'')"
proof -
  have "key32 plain_box (hex (replicate 32 1)) = Inr (replicate 32 1)"
    using key32_encode [OF plain_box_ok, of "replicate 32 1"] by (simp add: plain_box_simps)
  moreover have "bc_decode plain_box (trim_end_matches CHR ''='' (trim sealed_keys)) = Some (BOX_VERSION # replicate 32 7 @
      replicate 12 5 @ ae_enc plain_aead (replicate 32 7) (replicate 12 5) (as_bytes UDP_KEYS_SEALED_FOR) (as_bytes ''k''))"
    unfolding sealed_keys_def using decode_encode [OF plain_box_ok] by (simp add: plain_box_simps)
  moreover have "box_key plain_box s (replicate 32 7) r = replicate 32 7" for s r
    by (simp add: box_key_def plain_box_def resize_def)
  moreover have "aead_ok plain_aead" by (rule plain_aead_ok)
  ultimately show ?thesis
    by (simp add: box_open_def Let_def HEADER_LEN_def TAG_def plain_box_simps)
qed

theorem keys_from_sealed_box_witness:
  "\<exists>ks reqs'. keys key_json plain_box (\<lambda>_. Answered 200 None (Some (as_bytes sealed_keys)))
     (engine_new [] [] [] (hex (replicate 32 1))) [] = (Inr ks, reqs') \<and> ks \<noteq> []"
proof -
  have graph: "list_all (\<lambda>c. char_code c < 128) sealed_keys"
    using hex_graph unfolding sealed_keys_def by (rule list.pred_mono_strong) (simp add: is_graph_def)
  have u: "from_utf8 (as_bytes sealed_keys) = Some sealed_keys" "from_utf8 (as_bytes ''k'') = Some ''k''"
    using is_str_ascii [OF graph] is_str_ascii [of "''k''"] by (simp_all add: char_code_def)
  have "sealed_keys \<noteq> ''k''"
  proof
    assume "sealed_keys = ''k''"
    then have "length sealed_keys = length ''k''" by (simp only:)
    then show False by (simp add: sealed_keys_def plain_aead_ok)
  qed
  then have "keys key_json plain_box (\<lambda>_. Answered 200 None (Some (as_bytes sealed_keys)))
     (engine_new [] [] [] (hex (replicate 32 1))) [] = (Inr [replicate 32 4], snd (keys key_json plain_box
       (\<lambda>_. Answered 200 None (Some (as_bytes sealed_keys))) (engine_new [] [] [] (hex (replicate 32 1))) []))"
    by (simp add: keys_def Let_def send_def from_slice_def u key_json_def engine_new_def sealed_keys_open
        j_field_def keys_in_def key_of_def map_filter_def)
  from keys_from_sealed_box [OF this] this show ?thesis by blast
qed

end
