(* ===== verification/CoreBase.thy ===== *)
theory CoreBase
  imports StdData
begin

section \<open>Errors, text and effects of the VTOP client (vtop-core)\<close>

text \<open>
  The errors every operation of the client can report, the string functions it uses of the
  standard library, and the shape of its methods: a step that changes the client, or the world it
  talks to, and returns a value or an error.  An error never undoes what the step changed, so the
  state is threaded past it.
\<close>

datatype VtopError =
    NetworkError
  | VtopServerError string
  | AuthenticationFailed string
  | RegistrationParsingError
  | InvalidCredentials
  | SessionExpired
  | ParseError string
  | ConfigurationError string
  | CaptchaRequired
  | InvalidResponse
  | OTPRequired string nat
  | VtopUnavailable string

subsection \<open>Strings\<close>

text \<open>
  A pattern that is an ASCII character, or a whole string, is found in UTF-8 bytes exactly where
  it is found in the characters.
\<close>

fun split_on :: "char \<Rightarrow> string \<Rightarrow> string list" where
  "split_on c [] = [[]]"
| "split_on c (x # xs) = (if x = c then [] # split_on c xs
     else (case split_on c xs of p # ps \<Rightarrow> (x # p) # ps | [] \<Rightarrow> [[x]]))"

fun split_once :: "char \<Rightarrow> string \<Rightarrow> (string \<times> string) option" where
  "split_once c [] = None"
| "split_once c (x # xs) = (if x = c then Some ([], xs)
     else map_option (\<lambda>(a, b). (x # a, b)) (split_once c xs))"

fun contains :: "string \<Rightarrow> string \<Rightarrow> bool" where
  "contains [] p \<longleftrightarrow> p = []"
| "contains (x # xs) p \<longleftrightarrow> prefix p (x # xs) \<or> contains xs p"

definition trim_start_matches :: "char \<Rightarrow> string \<Rightarrow> string" where
  "trim_start_matches c s = dropWhile (\<lambda>x. x = c) s"

definition trim_end_char :: "char \<Rightarrow> string \<Rightarrow> string" where
  "trim_end_char c s = rev (dropWhile (\<lambda>x. x = c) (rev s))"

definition is_upper :: "char \<Rightarrow> bool" where
  "is_upper c \<longleftrightarrow> 65 \<le> char_code c \<and> char_code c \<le> 90"

definition is_lower :: "char \<Rightarrow> bool" where
  "is_lower c \<longleftrightarrow> 97 \<le> char_code c \<and> char_code c \<le> 122"

definition is_alphanumeric :: "char \<Rightarrow> bool" where
  "is_alphanumeric c \<longleftrightarrow> is_upper c \<or> is_lower c \<or> is_digit c"

definition ascii_lower :: "string \<Rightarrow> string" where
  "ascii_lower s = map (\<lambda>c. if is_upper c then char_of (char_code c + 32) else c) s"

definition eq_ignore_ascii_case :: "string \<Rightarrow> string \<Rightarrow> bool" where
  "eq_ignore_ascii_case a b \<longleftrightarrow> ascii_lower a = ascii_lower b"

text \<open>\<^verbatim>\<open>chars().count()\<close>: the bytes that begin a character.\<close>

definition char_count :: "string \<Rightarrow> nat" where
  "char_count s = length (filter (\<lambda>c. char_code c < 128 \<or> 192 \<le> char_code c) s)"

text \<open>\<^verbatim>\<open>{:02}\<close> of a number, and \<^verbatim>\<open>str::parse\<close> for \<^verbatim>\<open>i64\<close>.\<close>

definition pad2 :: "nat \<Rightarrow> string" where
  "pad2 n = (if n < 10 then CHR ''0'' # show_nat n else show_nat n)"

definition parse_i64 :: "string \<Rightarrow> int option" where
  "parse_i64 s = (case s of
       c # cs \<Rightarrow>
         if c = CHR ''-'' then
           (case parse_digits cs of Some n \<Rightarrow> if n \<le> 2 ^ 63 then Some (- int n) else None | None \<Rightarrow> None)
         else map_option int (parse_uint (2 ^ 63) s)
     | [] \<Rightarrow> None)"

lemma split_on_nonempty [simp]: "split_on c s \<noteq> []"
  by (induction c s rule: split_on.induct) (auto split: list.split)

fun join_with :: "char \<Rightarrow> string list \<Rightarrow> string" where
  "join_with c [] = []"
| "join_with c [p] = p"
| "join_with c (p # ps) = p @ c # join_with c ps"

lemma join_with_Cons [simp]: "join_with c ((x # p) # ps) = x # join_with c (p # ps)"
  by (cases ps) simp_all

lemma join_with_Nil [simp]: "ps \<noteq> [] \<Longrightarrow> join_with c ([] # ps) = c # join_with c ps"
  by (cases ps) simp_all

lemma join_split [simp]: "join_with c (split_on c s) = s"
proof (induction c s rule: split_on.induct)
  case (2 c x xs)
  obtain p ps where p: "split_on c xs = p # ps" by (cases "split_on c xs") auto
  with 2 show ?case by simp
qed simp

lemma split_on_parts: "p \<in> set (split_on c s) \<Longrightarrow> c \<notin> set p"
proof (induction c s arbitrary: p rule: split_on.induct)
  case (2 c x xs)
  then show ?case by (cases "split_on c xs") (auto split: if_splits)
qed simp

lemma split_on_none: "c \<notin> set p \<Longrightarrow> split_on c p = [p]"
  by (induction p) auto

lemma split_on_append: "c \<notin> set p \<Longrightarrow> split_on c (p @ c # s) = p # split_on c s"
  by (induction p) auto

lemma split_once_eq: "split_once c s = Some (a, b) \<longleftrightarrow> s = a @ c # b \<and> c \<notin> set a"
  by (induction c s arbitrary: a b rule: split_once.induct) (auto simp: Cons_eq_append_conv)

lemma contains_iff: "contains s p \<longleftrightarrow> (\<exists>a b. s = a @ p @ b)"
proof (induction s)
  case (Cons x xs)
  show ?case
  proof
    assume "contains (x # xs) p"
    then consider "prefix p (x # xs)" | "contains xs p" by auto
    then show "\<exists>a b. x # xs = a @ p @ b"
    proof cases
      case 1
      then obtain b where "x # xs = [] @ p @ b" by (auto simp: prefix_def)
      then show ?thesis by blast
    next
      case 2
      then obtain a b where "x # xs = (x # a) @ p @ b" using Cons by auto
      then show ?thesis by blast
    qed
  next
    assume "\<exists>a b. x # xs = a @ p @ b"
    then obtain a b where ab: "x # xs = a @ p @ b" by blast
    show "contains (x # xs) p"
    proof (cases a)
      case Nil
      then have "prefix p (x # xs)" using ab by (auto simp: prefix_def)
      then show ?thesis by simp
    next
      case (Cons y a')
      then show ?thesis using ab \<open>contains xs p \<longleftrightarrow> _\<close> by auto
    qed
  qed
qed auto

lemma ascii_lower_idem [simp]: "ascii_lower (ascii_lower s) = ascii_lower s"
  by (auto simp: ascii_lower_def is_upper_def)

subsection \<open>Systems of steps\<close>

text \<open>The interface of a system that is given by a step relation: what a step keeps, every run keeps.\<close>

locale step_system =
  fixes step :: "'s \<Rightarrow> 's \<Rightarrow> bool" and inv :: "'s \<Rightarrow> bool"
  assumes step_inv: "step s s' \<Longrightarrow> inv s \<Longrightarrow> inv s'"
begin

lemma run_inv: "step\<^sup>*\<^sup>* s s' \<Longrightarrow> inv s \<Longrightarrow> inv s'"
  by (induction rule: rtranclp_induct) (auto intro: step_inv)

end

subsection \<open>Steps\<close>

type_synonym ('w, 'a) act = "'w \<Rightarrow> (VtopError + 'a) \<times> 'w"

definition ret :: "'a \<Rightarrow> ('w, 'a) act" where
  "ret x = (\<lambda>w. (Inr x, w))"

definition fail :: "VtopError \<Rightarrow> ('w, 'a) act" where
  "fail e = (\<lambda>w. (Inl e, w))"

text \<open>The question mark, a \<^verbatim>\<open>match\<close> on the result, and plain reads and writes.\<close>

definition andthen :: "('w, 'a) act \<Rightarrow> ('a \<Rightarrow> ('w, 'b) act) \<Rightarrow> ('w, 'b) act" where
  "andthen m f = (\<lambda>w. case m w of (Inl e, w') \<Rightarrow> (Inl e, w') | (Inr x, w') \<Rightarrow> f x w')"

definition match :: "('w, 'a) act \<Rightarrow> (VtopError + 'a \<Rightarrow> ('w, 'b) act) \<Rightarrow> ('w, 'b) act" where
  "match m f = (\<lambda>w. case m w of (r, w') \<Rightarrow> f r w')"

definition reading :: "('w \<Rightarrow> 'a) \<Rightarrow> ('a \<Rightarrow> ('w, 'b) act) \<Rightarrow> ('w, 'b) act" where
  "reading g f = (\<lambda>w. f (g w) w)"

definition change :: "('w \<Rightarrow> 'w) \<Rightarrow> ('w, 'b) act \<Rightarrow> ('w, 'b) act" where
  "change h m = (\<lambda>w. m (h w))"

definition from_result :: "VtopError + 'a \<Rightarrow> ('w, 'a) act" where
  "from_result r = (\<lambda>w. (r, w))"

definition or_fail :: "VtopError \<Rightarrow> 'a option \<Rightarrow> ('w, 'a) act" where
  "or_fail e x = (case x of None \<Rightarrow> fail e | Some y \<Rightarrow> ret y)"

text \<open>
  What holds of the result and the state after a step: the weakest precondition, which computes
  along the step.
\<close>

definition wp :: "('w, 'a) act \<Rightarrow> (VtopError + 'a \<Rightarrow> 'w \<Rightarrow> bool) \<Rightarrow> 'w \<Rightarrow> bool" where
  "wp m Q w = (case m w of (r, w') \<Rightarrow> Q r w')"

named_theorems wp_simps \<open>the weakest preconditions of the steps\<close>

lemma wp_ret [wp_simps]: "wp (ret x) Q w = Q (Inr x) w"
  by (simp add: wp_def ret_def)

lemma wp_fail [wp_simps]: "wp (fail e) Q w = Q (Inl e) w"
  by (simp add: wp_def fail_def)

lemma wp_andthen [wp_simps]:
  "wp (andthen m f) Q w =
     wp m (\<lambda>r w'. case r of Inl e \<Rightarrow> Q (Inl e) w' | Inr x \<Rightarrow> wp (f x) Q w') w"
  by (auto simp: wp_def andthen_def split: prod.split sum.split)

lemma wp_match [wp_simps]: "wp (match m f) Q w = wp m (\<lambda>r w'. wp (f r) Q w') w"
  by (auto simp: wp_def match_def split: prod.split)

lemma wp_reading [wp_simps]: "wp (reading g f) Q w = wp (f (g w)) Q w"
  by (simp add: wp_def reading_def)

lemma wp_change [wp_simps]: "wp (change h m) Q w = wp m Q (h w)"
  by (simp add: wp_def change_def)

lemma wp_from_result [wp_simps]: "wp (from_result r) Q w = Q r w"
  by (simp add: wp_def from_result_def)

lemma wp_or_fail [wp_simps]:
  "wp (or_fail e x) Q w = (case x of None \<Rightarrow> Q (Inl e) w | Some y \<Rightarrow> Q (Inr y) w)"
  by (auto simp: wp_def or_fail_def ret_def fail_def split: option.split)

lemma wp_if [wp_simps]: "wp (if b then m else n) Q w = (if b then wp m Q w else wp n Q w)"
  by simp

lemma wp_mono: "wp m Q w \<Longrightarrow> (\<And>r w'. Q r w' \<Longrightarrow> R r w') \<Longrightarrow> wp m R w"
  by (simp add: wp_def split: prod.splits)

lemma wp_conj: "wp m Q w \<Longrightarrow> wp m R w \<Longrightarrow> wp m (\<lambda>r w'. Q r w' \<and> R r w') w"
  by (simp add: wp_def split: prod.splits)

lemma wpD: "wp m Q w \<Longrightarrow> m w = (r, w') \<Longrightarrow> Q r w'"
  by (simp add: wp_def)

lemma wpI: "(\<And>r w'. m w = (r, w') \<Longrightarrow> Q r w') \<Longrightarrow> wp m Q w"
  by (simp add: wp_def split: prod.split)

end
