(* ===== verification/Inputs.thy ===== *)
theory Inputs
  imports CoreBase
begin

section \<open>Validated inputs (vtop-core/src/inputs.rs)\<close>

text \<open>
  What the caller of the client hands in is parsed once; the fetchers see only the results.  Each
  type of the source is a string that its parser has let through, so a parser here returns that
  string.
\<close>

definition MAX_TEXT_LEN :: nat where "MAX_TEXT_LEN = 256"

definition required_text :: "string \<Rightarrow> string \<Rightarrow> VtopError + string" where
  "required_text value label =
     (let trimmed = trim value
      in if trimmed = [] then Inl (ConfigurationError (label @ '' must not be empty''))
         else if MAX_TEXT_LEN < length trimmed then Inl (ConfigurationError (label @ '' is too long''))
         else Inr trimmed)"

definition Username_parse :: "string \<Rightarrow> VtopError + string" where
  "Username_parse value = required_text value ''username''"

definition SemesterId_parse :: "string \<Rightarrow> VtopError + string" where
  "SemesterId_parse value = required_text value ''semester_id''"

definition CourseId_parse :: "string \<Rightarrow> VtopError + string" where
  "CourseId_parse value = required_text value ''course_id''"

definition CourseType_parse :: "string \<Rightarrow> VtopError + string" where
  "CourseType_parse value = required_text value ''course_type''"

text \<open>\<open>U\<close> is the standard library's \<^verbatim>\<open>to_uppercase\<close>: its Unicode tables are not written out.\<close>

definition Username_to_uppercase :: "(string \<Rightarrow> string) \<Rightarrow> string \<Rightarrow> string" where
  "Username_to_uppercase U name = U name"

definition Password_parse :: "string \<Rightarrow> VtopError + string" where
  "Password_parse value =
     (if trim value = [] then Inl (ConfigurationError ''password must not be empty'')
      else if MAX_TEXT_LEN < length value then Inl (ConfigurationError ''password is too long'')
      else Inr value)"

definition OtpCode_parse :: "string \<Rightarrow> VtopError + string" where
  "OtpCode_parse raw =
     (let trimmed = trim raw
      in if length trimmed = 6 \<and> list_all is_digit trimmed then Inr trimmed
         else Inl (AuthenticationFailed ''OTP must contain exactly 6 digits.''))"

subsection \<open>Dates\<close>

definition biometric_invalid :: VtopError where
  "biometric_invalid = ConfigurationError ''date must be a real calendar date in DD/MM/YYYY format''"

definition parse_u32 :: "string \<Rightarrow> nat option" where
  "parse_u32 s = parse_uint (2 ^ 32) s"

definition BiometricDate_parse :: "string \<Rightarrow> VtopError + string" where
  "BiometricDate_parse raw =
     (case split_on CHR ''/'' raw of
        [day, month, year] \<Rightarrow>
          if length day \<noteq> 2 \<or> length month \<noteq> 2 \<or> length year \<noteq> 4 then Inl biometric_invalid
          else (case (parse_u32 day, parse_u32 month, parse_u32 year) of
              (Some day, Some month, Some year) \<Rightarrow>
                (let leap_year = (year mod 4 = 0 \<and> (year mod 100 \<noteq> 0 \<or> year mod 400 = 0));
                     days_in_month =
                       (if month \<in> {1, 3, 5, 7, 8, 10, 12} then Some 31
                        else if month \<in> {4, 6, 9, 11} then Some 30
                        else if month = 2 \<and> leap_year then Some 29
                        else if month = 2 then Some 28 else None)
                 in case days_in_month of
                      None \<Rightarrow> Inl biometric_invalid
                    | Some days \<Rightarrow> if day = 0 \<or> days < day then Inl biometric_invalid else Inr raw)
            | _ \<Rightarrow> Inl biometric_invalid)
      | _ \<Rightarrow> Inl biometric_invalid)"

definition MONTHS :: "string list" where
  "MONTHS = [''Jan'', ''Feb'', ''Mar'', ''Apr'', ''May'', ''Jun'',
     ''Jul'', ''Aug'', ''Sep'', ''Oct'', ''Nov'', ''Dec'']"

definition position :: "string \<Rightarrow> string list \<Rightarrow> nat option" where
  "position x xs = (let i = length (takeWhile (\<lambda>y. y \<noteq> x) xs) in if i < length xs then Some i else None)"

definition outing_invalid :: VtopError where
  "outing_invalid = ConfigurationError ''outing date must look like 11-Oct-2026''"

definition OutingDate_parse :: "string \<Rightarrow> VtopError + string" where
  "OutingDate_parse raw =
     (case split_on CHR ''-'' raw of
        [day, month, year] \<Rightarrow>
          (case position month MONTHS of
             None \<Rightarrow> Inl outing_invalid
           | Some i \<Rightarrow>
               (case BiometricDate_parse (day @ ''/'' @ pad2 (i + 1) @ ''/'' @ year) of
                  Inl _ \<Rightarrow> Inl outing_invalid
                | Inr _ \<Rightarrow> Inr raw))
      | _ \<Rightarrow> Inl outing_invalid)"

text \<open>
  The days since 1970 of a date.  The operands of the source's divisions other than that of the
  era are not negative, so that \<^verbatim>\<open>/\<close> and \<^verbatim>\<open>%\<close> are \<open>div\<close> and \<open>mod\<close>; the numbers are
  those of dates with at most four digits of year, far from the bounds of \<^verbatim>\<open>i64\<close>.
\<close>

definition nth_part :: "nat \<Rightarrow> string list \<Rightarrow> string option" where
  "nth_part i parts = (if i < length parts then Some (parts ! i) else None)"

definition day_number :: "string \<Rightarrow> int" where
  "day_number date =
     (let parts = split_on CHR ''-'' date;
          day = (case Option.bind (nth_part 0 parts) parse_i64 of Some d \<Rightarrow> d | None \<Rightarrow> 1);
          month = (case Option.bind (nth_part 1 parts) (\<lambda>m. position m MONTHS) of
                     Some index \<Rightarrow> int index + 1 | None \<Rightarrow> 1);
          year = (case Option.bind (nth_part 2 parts) parse_i64 of Some y \<Rightarrow> y | None \<Rightarrow> 1970);
          year = (if month \<le> 2 then year - 1 else year);
          era = year div 400;
          year_of_era = year - era * 400;
          day_of_year = (153 * ((month + 9) mod 12) + 2) div 5 + day - 1;
          day_of_era = year_of_era * 365 + year_of_era div 4 - year_of_era div 100 + day_of_year
      in era * 146097 + day_of_era - 719468)"

subsection \<open>The other inputs\<close>

record OutingTime =
  ot_hour :: u8
  ot_minute :: u8

definition OutingTime_new :: "u8 \<Rightarrow> u8 \<Rightarrow> VtopError + OutingTime" where
  "OutingTime_new hour minute =
     (if 23 < hour \<or> 59 < minute then Inl (ConfigurationError ''outing time must be a real time of day'')
      else Inr \<lparr>ot_hour = hour, ot_minute = minute\<rparr>)"

definition hour_field :: "OutingTime \<Rightarrow> string" where
  "hour_field t = pad2 (unat (ot_hour t))"

definition minute_field :: "OutingTime \<Rightarrow> string" where
  "minute_field t = pad2 (unat (ot_minute t))"

definition ContactNumber_parse :: "string \<Rightarrow> VtopError + string" where
  "ContactNumber_parse raw =
     (let trimmed = trim raw
      in if length trimmed \<noteq> 10 \<or> \<not> list_all is_digit trimmed then
           Inl (ConfigurationError ''contact number must be 10 digits'')
         else Inr trimmed)"

definition OutingPassId_parse :: "string \<Rightarrow> VtopError + string" where
  "OutingPassId_parse raw =
     (let trimmed = trim raw
      in if trimmed = [] \<or> 32 < length trimmed \<or> \<not> list_all is_alphanumeric trimmed then
           Inl (ConfigurationError ''outing pass id is not valid'')
         else Inr trimmed)"

definition PREFIXES :: "string list" where
  "PREFIXES = [''downloadPdf/'', ''courseSyllabusDownload/'', ''academics/common/allCourseMeterialDownload/'']"

definition CourseFilePath_parse :: "string \<Rightarrow> VtopError + string" where
  "CourseFilePath_parse raw =
     (let path = trim_start_matches CHR ''/'' (trim raw);
          allowed = (list_ex (\<lambda>p. prefix p path) PREFIXES \<and> length path \<le> 200 \<and>
            \<not> contains path ''..'' \<and>
            list_all (\<lambda>c. is_alphanumeric c \<or> c = CHR ''/'' \<or> c = CHR ''-'' \<or> c = CHR ''_'') path)
      in if allowed then Inr path else Inl (ConfigurationError ''not a course page download''))"

definition RegistrationNumber_parse :: "string \<Rightarrow> VtopError + string" where
  "RegistrationNumber_parse raw =
     (let value = trim raw in if value = [] then Inl RegistrationParsingError else Inr value)"

lemma RegistrationNumber_ok: "RegistrationNumber_parse raw = Inr r \<longleftrightarrow> r = trim raw \<and> r \<noteq> []"
  by (auto simp: RegistrationNumber_parse_def Let_def)

text \<open>What a code consists of once it is let through.\<close>

lemma OtpCode_ok: "OtpCode_parse raw = Inr c \<longleftrightarrow> c = trim raw \<and> length c = 6 \<and> list_all is_digit c"
  by (auto simp: OtpCode_parse_def Let_def)

subsection \<open>The calendar\<close>

text \<open>
  The reference: the length of a month, the days of the years before a year, and from them the
  days before a date.
\<close>

definition leap :: "nat \<Rightarrow> bool" where
  "leap y \<longleftrightarrow> y mod 4 = 0 \<and> (y mod 100 \<noteq> 0 \<or> y mod 400 = 0)"

definition month_days :: "nat \<Rightarrow> nat \<Rightarrow> nat" where
  "month_days y m = [31, if leap y then 29 else 28, 31, 30, 31, 30, 31, 31, 30, 31, 30, 31] ! (m - 1)"

fun days_before_year :: "nat \<Rightarrow> nat" where
  "days_before_year 0 = 0"
| "days_before_year (Suc y) = days_before_year y + sum_list (map (month_days y) [1..<13])"

definition days_before :: "nat \<Rightarrow> nat \<Rightarrow> nat \<Rightarrow> nat" where
  "days_before y m d = days_before_year y + sum_list (map (month_days y) [1..<m]) + (d - 1)"

definition real_date :: "nat \<Rightarrow> nat \<Rightarrow> nat \<Rightarrow> bool" where
  "real_date y m d \<longleftrightarrow> 1 \<le> m \<and> m \<le> 12 \<and> 1 \<le> d \<and> d \<le> month_days y m"

end
