(* ===== verification/InputClaims.thy ===== *)
theory InputClaims
  imports Inputs
begin

section \<open>What the inputs mean\<close>

text \<open>
  The dates the client lets through are the real ones, and the number it gives a date counts the
  days of the calendar; a download path stays under the course page.
\<close>

subsection \<open>The days of the calendar\<close>

text \<open>The leap days up to a year, for years from -1 on.\<close>

definition leap_days :: "int \<Rightarrow> int" where
  "leap_days y = y div 4 - y div 100 + y div 400"

lemma leap_days_step: "leap_days (int y) = leap_days (int y - 1) + (if leap y then 1 else 0)"
proof (cases y)
  case 0
  then show ?thesis by (simp add: leap_days_def leap_def)
next
  case (Suc z)
  have n: "int (Suc z) div 4 = int (Suc z div 4)" "int (Suc z) div 100 = int (Suc z div 100)"
    "int (Suc z) div 400 = int (Suc z div 400)" "int z div 4 = int (z div 4)" "int z div 100 = int (z div 100)"
    "int z div 400 = int (z div 400)"
    by (simp_all only: zdiv_int of_nat_numeral)
  have m: "Suc z mod 400 = 0 \<Longrightarrow> Suc z mod 100 = 0" "Suc z mod 100 = 0 \<Longrightarrow> Suc z mod 4 = 0"
    by presburger+
  have "leap_days (int (Suc z)) = leap_days (int z) + (if leap (Suc z) then 1 else 0)"
    unfolding leap_days_def n leap_def using m
    by (cases "Suc z mod 4 = 0"; cases "Suc z mod 100 = 0"; cases "Suc z mod 400 = 0")
      (simp_all only: div_Suc if_True if_False; simp)+
  then show ?thesis using Suc by simp
qed

lemma month_sum:
  assumes "1 \<le> m" "m \<le> 13"
  shows "int (sum_list (map (month_days y) [1..<m])) =
    (if m \<le> 2 then 31 * (int m - 1)
     else (153 * ((int m + 9) mod 12) + 2) div 5 + 59 + (if leap y then 1 else 0))"
proof -
  have "m = 1 \<or> m = 2 \<or> m = 3 \<or> m = 4 \<or> m = 5 \<or> m = 6 \<or> m = 7 \<or> m = 8 \<or> m = 9 \<or> m = 10 \<or>
    m = 11 \<or> m = 12 \<or> m = 13"
    using assms by arith
  then show ?thesis by (elim disjE) (simp_all add: upt_rec month_days_def)
qed

lemma year_sum: "int (days_before_year y) = 365 * int y + leap_days (int y - 1) + 1"
proof (induction y)
  case 0
  then show ?case by (simp add: leap_days_def)
next
  case (Suc y)
  have "int (sum_list (map (month_days y) [1..<13])) = 365 + (if leap y then 1 else 0)"
    using month_sum [of 13 y] by simp
  with Suc leap_days_step [of y] show ?case by (simp del: upt_Suc)
qed

text \<open>The computation by eras of 400 years.\<close>

lemma era_days:
  fixes y :: int
  defines "r \<equiv> y - (y div 400) * 400"
  shows "(y div 400) * 146097 + (r * 365 + r div 4 - r div 100) = 365 * y + leap_days y"
proof -
  define e where "e = y div 400"
  have y: "y = r + e * 400" and r: "0 \<le> r" "r < 400" by (simp_all add: r_def e_def minus_div_mult_eq_mod)
  have "y div 4 = r div 4 + e * 100"
    using div_mult_self1 [of 4 r "e * 100"] y by (simp add: mult.commute)
  moreover have "y div 100 = r div 100 + e * 4"
    using div_mult_self1 [of 100 r "e * 4"] y by (simp add: mult.commute)
  moreover have "y div 400 = e" by (simp add: e_def)
  ultimately show ?thesis unfolding leap_days_def using y by linarith
qed

definition civil_days :: "int \<Rightarrow> int \<Rightarrow> int \<Rightarrow> int" where
  "civil_days year month day =
     (let year = (if month \<le> 2 then year - 1 else year); era = year div 400; year_of_era = year - era * 400;
          day_of_year = (153 * ((month + 9) mod 12) + 2) div 5 + day - 1;
          day_of_era = year_of_era * 365 + year_of_era div 4 - year_of_era div 100 + day_of_year
      in era * 146097 + day_of_era - 719468)"

lemma epoch_days: "days_before 1970 1 1 = 719528"
proof -
  have "int (days_before_year 1970) = 719528" by (simp only: year_sum) (simp add: leap_days_def)
  then show ?thesis by (simp add: days_before_def)
qed

lemma civil_days_exact:
  assumes "1 \<le> m" "m \<le> 12" "1 \<le> d"
  shows "civil_days (int y) (int m) (int d) = int (days_before y m d) - int (days_before 1970 1 1)"
proof -
  define yy where "yy = (if m \<le> 2 then int y - 1 else int y)"
  have "civil_days (int y) (int m) (int d) =
      365 * yy + leap_days yy + ((153 * ((int m + 9) mod 12) + 2) div 5 + int d - 1) - 719468"
    using era_days [of yy] by (simp add: civil_days_def yy_def Let_def)
  moreover have "int (days_before y m d) = 365 * int y + leap_days (int y - 1) + 1 +
      int (sum_list (map (month_days y) [1..<m])) + (int d - 1)"
    using assms(3) by (simp add: days_before_def year_sum of_nat_diff)
  moreover have "m = 1 \<or> m = 2 \<or> 2 < m" using assms(1) by arith
  ultimately show ?thesis
    using month_sum [of m y] assms leap_days_step [of y] by (auto simp: yy_def epoch_days [simplified])
qed

subsection \<open>Reading dates\<close>

lemma length_split_on: "length (split_on c s) = Suc (count_list s c)"
  by (induction c s rule: split_on.induct) (auto split: list.split)

lemma split_on_three:
  assumes "split_on c (a @ c # p @ c # b) = [x, y, z]"
  shows "c \<notin> set a \<and> c \<notin> set p \<and> c \<notin> set b \<and> x = a \<and> y = p \<and> z = b"
proof -
  have "count_list (a @ c # p @ c # b) c = 2"
    using arg_cong [OF assms, of length] by (simp add: length_split_on)
  then have "c \<notin> set a" "c \<notin> set p" "c \<notin> set b" by (simp_all add: count_list_0_iff)
  then show ?thesis using assms by (simp add: split_on_append split_on_none)
qed

lemma position_Some: "position x xs = Some i \<Longrightarrow> i < length xs \<and> xs ! i = x"
  using nth_length_takeWhile [of "\<lambda>y. y \<noteq> x" xs] unfolding position_def Let_def
  by (auto split: if_splits)

lemma position_MONTHS: "i < 12 \<Longrightarrow> position (MONTHS ! i) MONTHS = Some i"
  by (simp add: less_Suc_eq numeral_eq_Suc MONTHS_def position_def) (elim disjE; simp)

text \<open>A number's text has digits and at most a plus sign in front.\<close>

lemma parse_u32_text:
  assumes "parse_u32 t = Some n"
  shows "t \<noteq> []" "\<forall>c \<in> set t. is_digit c \<or> c = CHR ''+''"
  using assms by (auto simp: parse_u32_def parse_uint_def parse_digits_def list_all_iff split: list.splits if_splits option.splits)

lemma parse_u32_separators:
  assumes "parse_u32 t = Some n"
  shows "CHR ''/'' \<notin> set t" "CHR ''-'' \<notin> set t"
  using parse_u32_text(2) [OF assms] by (auto simp: is_digit_def char_code_def)

lemma parse_i64_u32:
  assumes "parse_u32 t = Some n"
  shows "parse_i64 t = Some (int n)"
proof -
  obtain c cs where t: "t = c # cs" using parse_u32_text(1) [OF assms] by (cases t) auto
  have "c \<noteq> CHR ''-''" using parse_u32_separators(2) [OF assms] t by auto
  moreover have "parse_uint (2 ^ 63) t = Some n"
    using assms by (auto simp: parse_u32_def parse_uint_def split: option.splits if_splits)
  ultimately show ?thesis using t by (simp add: parse_i64_def)
qed

lemma month_cases:
  "1 \<le> m \<and> m \<le> 12 \<longleftrightarrow> m \<in> {1, 3, 5, 7, 8, 10, 12} \<or> m \<in> {4, 6, 9, 11} \<or> m = (2::nat)"
  unfolding insert_iff empty_iff by presburger

lemma real_date_eq:
  "real_date y m d \<longleftrightarrow>
     (case (if m \<in> {1, 3, 5, 7, 8, 10, 12} then Some 31 else if m \<in> {4, 6, 9, 11} then Some 30
        else if m = 2 \<and> leap y then Some 29 else if m = 2 then Some 28 else None) of
      None \<Rightarrow> False | Some days \<Rightarrow> \<not> (d = 0 \<or> days < d))"
proof -
  consider "m \<in> {1, 3, 5, 7, 8, 10, 12}" | "m \<in> {4, 6, 9, 11}" | "m = 2" |
    "m \<notin> {1, 3, 5, 7, 8, 10, 12}" "m \<notin> {4, 6, 9, 11}" "m \<noteq> 2" by blast
  then show ?thesis
  proof cases
    case 4
    then have "\<not> (1 \<le> m \<and> m \<le> 12)" by (simp only: month_cases) simp
    then have "\<not> real_date y m d" by (auto simp: real_date_def)
    with 4 show ?thesis by (simp del: insert_iff)
  qed (auto simp: real_date_def month_days_def)
qed

lemma biometric_iff:
  assumes "length dt = 2" "length mt = 2" "length yt = 4"
    and "parse_u32 dt = Some d" "parse_u32 mt = Some m" "parse_u32 yt = Some y"
  shows "BiometricDate_parse (dt @ CHR ''/'' # mt @ CHR ''/'' # yt) =
    (if real_date y m d then Inr (dt @ CHR ''/'' # mt @ CHR ''/'' # yt) else Inl biometric_invalid)"
proof -
  have "split_on CHR ''/'' (dt @ CHR ''/'' # mt @ CHR ''/'' # yt) = [dt, mt, yt]"
    using assms(4-6) by (simp add: split_on_append split_on_none parse_u32_separators)
  then show ?thesis using assms
    unfolding BiometricDate_parse_def real_date_eq leap_def
    by (auto simp: Let_def split: option.split)
qed

lemma biometric_parts:
  assumes "BiometricDate_parse (a @ CHR ''/'' # b @ CHR ''/'' # c) = Inr s"
  obtains d m y where "length a = 2" "length c = 4"
    "parse_u32 a = Some d" "parse_u32 b = Some m" "parse_u32 c = Some y" "real_date y m d"
proof -
  obtain x u v where x: "split_on CHR ''/'' (a @ CHR ''/'' # b @ CHR ''/'' # c) = [x, u, v]"
    using assms by (auto simp: BiometricDate_parse_def split: list.splits)
  have e: "x = a" "u = b" "v = c" using split_on_three [OF x] by auto
  then obtain d m y where p: "length a = 2" "length b = 2" "length c = 4"
      "parse_u32 a = Some d" "parse_u32 b = Some m" "parse_u32 c = Some y"
    using assms x by (auto simp: BiometricDate_parse_def split: if_splits option.splits)
  then have "real_date y m d" using assms biometric_iff [OF p] by (simp split: if_splits)
  with p that show ?thesis by blast
qed

lemma pad2_month:
  assumes "i < 12" shows "parse_u32 (pad2 (i + 1)) = Some (i + 1) \<and> length (pad2 (i + 1)) = 2"
proof (cases "i + 1 < 10")
  case True
  then have "show_nat (i + 1) = [digit_char (i + 1)]" by (subst show_nat.simps) simp
  moreover have "is_digit CHR ''0''" "digit_val CHR ''0'' = 0"
    by (simp_all add: is_digit_def digit_val_def char_code_def)
  ultimately show ?thesis using True
    by (simp add: pad2_def parse_u32_def parse_uint_def parse_digits_def digits_val_def)
next
  case False
  then have "i = 9 \<or> i = 10 \<or> i = 11" using assms by arith
  then show ?thesis by (auto simp: pad2_def parse_u32_def) (simp_all add: show_nat.simps)
qed

text \<open>How a text reads as a date.\<close>

definition reads_as :: "string \<Rightarrow> nat \<Rightarrow> nat \<Rightarrow> nat \<Rightarrow> bool" where
  "reads_as raw y m d \<longleftrightarrow> real_date y m d \<and> (\<exists>dt yt. raw = dt @ CHR ''-'' # MONTHS ! (m - 1) @ CHR ''-'' # yt \<and>
     length dt = 2 \<and> length yt = 4 \<and> parse_u32 dt = Some d \<and> parse_u32 yt = Some y)"

lemma month_name_no_dash: "i < 12 \<Longrightarrow> CHR ''-'' \<notin> set (MONTHS ! i)"
  by (simp add: less_Suc_eq numeral_eq_Suc MONTHS_def) (elim disjE; simp)

lemma reads_as_split:
  assumes "reads_as raw y m d"
  obtains dt yt where "split_on CHR ''-'' raw = [dt, MONTHS ! (m - 1), yt]" "length dt = 2" "length yt = 4"
    "parse_u32 dt = Some d" "parse_u32 yt = Some y" "m - 1 < 12" "m - 1 + 1 = m" "real_date y m d"
proof -
  obtain dt yt where r: "raw = dt @ CHR ''-'' # MONTHS ! (m - 1) @ CHR ''-'' # yt" "length dt = 2" "length yt = 4"
      "parse_u32 dt = Some d" "parse_u32 yt = Some y" "real_date y m d"
    using assms by (auto simp: reads_as_def)
  moreover have "m - 1 < 12" "m - 1 + 1 = m" using r(6) by (auto simp: real_date_def)
  moreover have "split_on CHR ''-'' raw = [dt, MONTHS ! (m - 1), yt]"
    using r month_name_no_dash [OF \<open>m - 1 < 12\<close>] by (simp add: split_on_append split_on_none parse_u32_separators)
  ultimately show ?thesis using that by blast
qed

lemma outing_parse_iff: "OutingDate_parse raw = Inr s \<longleftrightarrow> s = raw \<and> (\<exists>y m d. reads_as raw y m d)"
proof
  assume p: "OutingDate_parse raw = Inr s"
  then obtain dt mon yt where x1: "split_on CHR ''-'' raw = [dt, mon, yt]"
    by (auto simp: OutingDate_parse_def split: list.splits)
  then obtain i where x2: "position mon MONTHS = Some i"
    using p by (auto simp: OutingDate_parse_def split: option.splits)
  with x1 obtain t where x3: "BiometricDate_parse (dt @ CHR ''/'' # pad2 (i + 1) @ CHR ''/'' # yt) = Inr t" "s = raw"
    using p by (auto simp: OutingDate_parse_def split: sum.splits)
  have i: "i < 12" "MONTHS ! i = mon" using position_Some [OF x2] by (auto simp: MONTHS_def)
  obtain d m y where r: "length dt = 2" "length yt = 4" "parse_u32 dt = Some d"
      "parse_u32 (pad2 (i + 1)) = Some m" "parse_u32 yt = Some y" "real_date y m d"
    using biometric_parts [OF x3(1)] by blast
  then have "m = i + 1" using pad2_month [OF i(1)] by simp
  moreover have "raw = dt @ CHR ''-'' # mon @ CHR ''-'' # yt"
    using join_split [of "CHR ''-''" raw] x1 by simp
  ultimately have "reads_as raw y m d" using r i by (auto simp: reads_as_def)
  then show "s = raw \<and> (\<exists>y m d. reads_as raw y m d)" using x3 by blast
next
  assume "s = raw \<and> (\<exists>y m d. reads_as raw y m d)"
  then obtain y m d where "s = raw" "reads_as raw y m d" by blast
  then show "OutingDate_parse raw = Inr s"
  proof (elim reads_as_split)
    fix dt yt
    assume a: "s = raw" "split_on CHR ''-'' raw = [dt, MONTHS ! (m - 1), yt]" "length dt = 2" "length yt = 4"
      "parse_u32 dt = Some d" "parse_u32 yt = Some y" "m - 1 < 12" "m - 1 + 1 = m" "real_date y m d"
    have "BiometricDate_parse (dt @ CHR ''/'' # pad2 m @ CHR ''/'' # yt) = Inr (dt @ CHR ''/'' # pad2 m @ CHR ''/'' # yt)"
      using biometric_iff [of dt "pad2 m" yt d m y] pad2_month [OF a(7)] a by simp
    then show ?thesis using a position_MONTHS [OF a(7)] by (simp add: OutingDate_parse_def)
  qed
qed

lemma day_number_civil:
  assumes "reads_as raw y m d"
  shows "day_number raw = civil_days (int y) (int m) (int d)"
  using assms
proof (rule reads_as_split)
  fix dt yt
  assume a: "split_on CHR ''-'' raw = [dt, MONTHS ! (m - 1), yt]" "parse_u32 dt = Some d" "parse_u32 yt = Some y"
    "m - 1 < 12" "m - 1 + 1 = m"
  have "int (m - 1) + 1 = int m" using a(5) by linarith
  then show ?thesis using a position_MONTHS [OF a(4)]
    by (simp add: day_number_def civil_days_def nth_part_def parse_i64_u32 Let_def)
qed

text \<open>C24: The client lets a text through as an outing date exactly when it reads as a day of the
  calendar, and the number it gives that day is the number of days from 1 January 1970 to it, as
  counted month by month and year by year.  A number is read as the code reads it, so with a plus
  sign too.\<close>

theorem day_numbers_exact:
  "(OutingDate_parse raw = Inr s \<longleftrightarrow> s = raw \<and> (\<exists>y m d. reads_as raw y m d)) \<and>
   (\<forall>y m d. reads_as raw y m d \<longrightarrow> day_number raw = int (days_before y m d) - int (days_before 1970 1 1))"
proof (intro conjI allI impI)
  show "OutingDate_parse raw = Inr s \<longleftrightarrow> s = raw \<and> (\<exists>y m d. reads_as raw y m d)"
    by (rule outing_parse_iff)
next
  fix y m d
  assume r: "reads_as raw y m d"
  then have "1 \<le> m" "m \<le> 12" "1 \<le> d" by (auto simp: reads_as_def real_date_def)
  then show "day_number raw = int (days_before y m d) - int (days_before 1970 1 1)"
    using day_number_civil [OF r] civil_days_exact by simp
qed

lemma sample_date: "reads_as ''11-Oct-2026'' 2026 10 11"
  unfolding reads_as_def
proof (intro conjI exI)
  show "real_date 2026 10 11" by (simp add: real_date_def month_days_def)
  show "''11-Oct-2026'' = ''11'' @ CHR ''-'' # MONTHS ! (10 - 1) @ CHR ''-'' # ''2026''" by (simp add: MONTHS_def)
qed (simp_all add: parse_u32_def parse_uint_def parse_digits_def is_digit_def char_code_def digits_val_def digit_val_def)

lemma day_numbers_exact_witness:
  "day_number ''11-Oct-2026'' = int (days_before 2026 10 11) - int (days_before 1970 1 1) \<and>
   day_number ''11-Oct-2026'' = 20737"
proof
  show "day_number ''11-Oct-2026'' = int (days_before 2026 10 11) - int (days_before 1970 1 1)"
    using day_numbers_exact [of "''11-Oct-2026''" "''11-Oct-2026''"] sample_date by blast
  show "day_number ''11-Oct-2026'' = 20737"
    using day_number_civil [OF sample_date] by (simp add: civil_days_def)
qed

text \<open>A sign counts as one of the two digits of a day.\<close>

lemma signed_day_accepted: "BiometricDate_parse ''+1/02/2024'' = Inr ''+1/02/2024''"
  by (simp add: BiometricDate_parse_def parse_u32_def parse_uint_def parse_digits_def is_digit_def char_code_def
      digits_val_def digit_val_def Let_def)

end
