(* ===== verification/Session.thy ===== *)
theory Session
  imports Inputs
begin

section \<open>Cookies and sign-in state of a session (vtop-core/src/session.rs)\<close>

text \<open>The cookie pairs of a header, the state of a session, and the snapshot of one.\<close>

subsection \<open>Cookie headers\<close>

definition is_cookie_attribute_name :: "string \<Rightarrow> bool" where
  "is_cookie_attribute_name name \<longleftrightarrow> ascii_lower name \<in> {''path'', ''domain'', ''expires'', ''max-age'',
     ''secure'', ''httponly'', ''samesite'', ''priority'', ''partitioned''}"

text \<open>The first pair with the name, whatever its case, is replaced; otherwise the pair is added.\<close>

fun put_pair :: "string \<times> string \<Rightarrow> (string \<times> string) list \<Rightarrow> (string \<times> string) list" where
  "put_pair p [] = [p]"
| "put_pair p (q # ps) = (if eq_ignore_ascii_case (fst q) (fst p) then p # ps else q # put_pair p ps)"

definition cookie_part :: "(string \<times> string) list \<Rightarrow> string \<Rightarrow> (string \<times> string) list" where
  "cookie_part acc part =
     (case split_once CHR ''='' (trim part) of
        None \<Rightarrow> acc
      | Some (raw_name, raw_value) \<Rightarrow>
          (let name = trim raw_name; value = trim raw_value
           in if name = [] \<or> value = [] \<or> is_cookie_attribute_name name then acc
              else put_pair (name, value) acc))"

definition parse_cookie_pairs :: "string \<Rightarrow> (string \<times> string) list" where
  "parse_cookie_pairs header = foldl cookie_part [] (split_on CHR '';'' header)"

subsection \<open>The session\<close>

datatype AuthState =
    Anonymous "string option"
  | Restored "string option"
  | Authenticated string

fun state_csrf :: "AuthState \<Rightarrow> string option" where
  "state_csrf (Anonymous c) = c"
| "state_csrf (Restored c) = c"
| "state_csrf (Authenticated c) = Some c"

record SessionManager =
  sm_state :: AuthState
  sm_external_cookie_header :: "string option"
  sm_registration_number :: "string option"

definition session_new :: SessionManager where
  "session_new = \<lparr>sm_state = Anonymous None, sm_external_cookie_header = None, sm_registration_number = None\<rparr>"

definition set_csrf_token :: "string \<Rightarrow> SessionManager \<Rightarrow> SessionManager" where
  "set_csrf_token token s = s\<lparr>sm_state := (case sm_state s of
     Anonymous _ \<Rightarrow> Anonymous (Some token)
   | Restored _ \<Rightarrow> Restored (Some token)
   | Authenticated _ \<Rightarrow> Authenticated token)\<rparr>"

definition sm_csrf_token :: "SessionManager \<Rightarrow> string option" where
  "sm_csrf_token s = state_csrf (sm_state s)"

definition set_authenticated :: "bool \<Rightarrow> SessionManager \<Rightarrow> SessionManager" where
  "set_authenticated authenticated s = s\<lparr>sm_state := (case (authenticated, sm_csrf_token s) of
     (True, Some csrf_token) \<Rightarrow> Authenticated csrf_token
   | (True, None) \<Rightarrow> Anonymous None
   | (False, csrf_token) \<Rightarrow> Anonymous csrf_token)\<rparr>"

definition sm_is_authenticated :: "SessionManager \<Rightarrow> bool" where
  "sm_is_authenticated s = (case sm_state s of Authenticated _ \<Rightarrow> True | _ \<Rightarrow> False)"

definition is_cookie_external :: "SessionManager \<Rightarrow> bool" where
  "is_cookie_external s = (case sm_state s of Restored _ \<Rightarrow> True | _ \<Rightarrow> False)"

definition set_cookie_external :: "bool \<Rightarrow> SessionManager \<Rightarrow> SessionManager" where
  "set_cookie_external external s = s\<lparr>sm_state := (case (external, sm_state s, sm_csrf_token s) of
     (True, _, csrf_token) \<Rightarrow> Restored csrf_token
   | (False, Authenticated _, Some csrf_token) \<Rightarrow> Authenticated csrf_token
   | (False, _, csrf_token) \<Rightarrow> Anonymous csrf_token)\<rparr>"

definition session_clear :: "SessionManager \<Rightarrow> SessionManager" where
  "session_clear s = s\<lparr>sm_state := Anonymous None, sm_external_cookie_header := None,
     sm_registration_number := None\<rparr>"

definition set_external_cookie_header :: "string \<Rightarrow> SessionManager \<Rightarrow> SessionManager" where
  "set_external_cookie_header cookie s =
     (let s = s\<lparr>sm_external_cookie_header := Some cookie\<rparr> in s\<lparr>sm_state := Restored (sm_csrf_token s)\<rparr>)"

definition set_registration_number :: "string \<Rightarrow> SessionManager \<Rightarrow> SessionManager" where
  "set_registration_number r s = s\<lparr>sm_registration_number := Some r\<rparr>"

text \<open>What a caller keeps of a session, to resume it in another process.\<close>

record SessionState =
  st_cookies :: string
  st_csrf_token :: "string option"
  st_registration_number :: "string option"
  st_otp_issued_at :: "nat option"
  st_logged_in_at :: "nat option"

lemmas session_defs = set_csrf_token_def sm_csrf_token_def set_authenticated_def sm_is_authenticated_def
  is_cookie_external_def set_cookie_external_def session_clear_def set_external_cookie_header_def
  set_registration_number_def

subsection \<open>What the operations keep\<close>

text \<open>The state and its token, as two independent parts: what kind of session it is, and the token.\<close>

lemma set_csrf_token_state [simp]:
  "sm_csrf_token (set_csrf_token t s) = Some t"
  "sm_is_authenticated (set_csrf_token t s) = sm_is_authenticated s"
  "is_cookie_external (set_csrf_token t s) = is_cookie_external s"
  "sm_registration_number (set_csrf_token t s) = sm_registration_number s"
  "sm_external_cookie_header (set_csrf_token t s) = sm_external_cookie_header s"
  by (simp_all add: session_defs split: AuthState.split)

lemma set_authenticated_state [simp]:
  "sm_csrf_token (set_authenticated b s) = sm_csrf_token s"
  "sm_is_authenticated (set_authenticated b s) \<longleftrightarrow> b \<and> sm_csrf_token s \<noteq> None"
  "\<not> is_cookie_external (set_authenticated b s)"
  "sm_registration_number (set_authenticated b s) = sm_registration_number s"
  "sm_external_cookie_header (set_authenticated b s) = sm_external_cookie_header s"
  by (cases b; cases "sm_csrf_token s"; simp add: session_defs)+

lemma set_cookie_external_state [simp]:
  "sm_csrf_token (set_cookie_external b s) = sm_csrf_token s"
  "sm_is_authenticated (set_cookie_external b s) \<longleftrightarrow> \<not> b \<and> sm_is_authenticated s"
  "is_cookie_external (set_cookie_external b s) \<longleftrightarrow> b"
  "sm_registration_number (set_cookie_external b s) = sm_registration_number s"
  "sm_external_cookie_header (set_cookie_external b s) = sm_external_cookie_header s"
  by (cases b; cases "sm_state s"; simp add: session_defs)+

lemma session_clear_state [simp]:
  "sm_csrf_token (session_clear s) = None" "\<not> sm_is_authenticated (session_clear s)"
  "\<not> is_cookie_external (session_clear s)" "sm_registration_number (session_clear s) = None"
  "sm_external_cookie_header (session_clear s) = None"
  by (simp_all add: session_defs)

lemma set_external_cookie_header_state [simp]:
  "sm_csrf_token (set_external_cookie_header c s) = sm_csrf_token s"
  "\<not> sm_is_authenticated (set_external_cookie_header c s)"
  "is_cookie_external (set_external_cookie_header c s)"
  "sm_registration_number (set_external_cookie_header c s) = sm_registration_number s"
  "sm_external_cookie_header (set_external_cookie_header c s) = Some c"
  by (simp_all add: session_defs Let_def)

lemma set_registration_number_state [simp]:
  "sm_csrf_token (set_registration_number r s) = sm_csrf_token s"
  "sm_is_authenticated (set_registration_number r s) = sm_is_authenticated s"
  "is_cookie_external (set_registration_number r s) = is_cookie_external s"
  "sm_registration_number (set_registration_number r s) = Some r"
  "sm_external_cookie_header (set_registration_number r s) = sm_external_cookie_header s"
  by (simp_all add: session_defs)

lemma session_new_state [simp]:
  "sm_csrf_token session_new = None" "\<not> sm_is_authenticated session_new"
  "\<not> is_cookie_external session_new" "sm_registration_number session_new = None"
  "sm_external_cookie_header session_new = None"
  by (simp_all add: session_defs session_new_def)

lemma authenticated_csrf: "sm_is_authenticated s \<Longrightarrow> sm_csrf_token s \<noteq> None"
  by (auto simp: session_defs split: AuthState.splits)

end
