(* ===== verification/Web.thy ===== *)
theory Web
  imports Session
begin

section \<open>What the client sees of VTOP (vtop-core/src/client/mod.rs, parser/page.rs)\<close>

text \<open>
  The crates and the world outside are one record: URLs, the cookie jar, HTTP, HTML selectors,
  JSON, the clock.  HTTP gives the answer to the last of a list of requests, and the clock its
  reading by how often it was read, so that nothing is assumed of how one answer or reading
  depends on another.  The jar's type is a parameter.
\<close>

datatype Body =
    NoBody
  | Raw string
  | Form "(string \<times> string) list"
  | Multipart "(string \<times> string) list"

record HopRequest =
  hp_post :: bool
  hp_url :: string
  hp_cookie :: "string option"
  hp_headers :: "(string \<times> string) list"
  hp_body :: Body

record SendError =
  se_timeout :: bool
  se_connect :: bool

record HopResponse =
  hr_status :: nat
  hr_set_cookies :: "string list"
  hr_location :: "string option"
  hr_content_type :: "string option"
  hr_content_disposition :: "string option"
  hr_body :: "bytes option"

record 'j web =
  wb_url :: "string \<Rightarrow> string option"            \<comment> \<open>parsed and written out again\<close>
  wb_path :: "string \<Rightarrow> string"
  wb_join :: "string \<Rightarrow> string \<Rightarrow> string option"
  wb_with_query :: "string \<Rightarrow> (string \<times> string) list \<Rightarrow> string"
  wb_url_error :: "string \<Rightarrow> string \<Rightarrow> string"
  wb_jar_new :: 'j
  wb_jar_add :: "'j \<Rightarrow> string \<Rightarrow> string \<Rightarrow> 'j"
  wb_jar_set :: "'j \<Rightarrow> string list \<Rightarrow> string \<Rightarrow> 'j"
  wb_jar_header :: "'j \<Rightarrow> string \<Rightarrow> string option"
  wb_http :: "HopRequest list \<Rightarrow> SendError + HopResponse"
  wb_status_text :: "nat \<Rightarrow> string"
  wb_decode :: "bytes \<Rightarrow> string"                 \<comment> \<open>the text of a body\<close>
  wb_clock :: "nat \<Rightarrow> nat"
  wb_csrf_input :: "string \<Rightarrow> string option"      \<comment> \<open>an attribute of the first match in a page\<close>
  wb_registration_input :: "string \<Rightarrow> string option"
  wb_captcha_src :: "string \<Rightarrow> string option"
  wb_login_alert :: "string \<Rightarrow> string list option" \<comment> \<open>the texts in the first match\<close>
  wb_captcha :: "string \<Rightarrow> string + string"       \<comment> \<open>the text in an image, or why there is none\<close>
  wb_json :: json_lib
  wb_upper :: "string \<Rightarrow> string"
  wb_lower :: "string \<Rightarrow> string"
  wb_urlencode :: "string \<Rightarrow> string"
  wb_http_date :: "nat \<Rightarrow> string"

subsection \<open>The client\<close>

datatype AuthStage = Idle | LoggingIn | AwaitingOtp nat

record Credentials =
  cr_username :: string
  cr_password :: string

text \<open>
  The client's data, then two fields of the world it acts on: the requests sent so far and how
  often the clock was read.
\<close>

record 'j VtopClient =
  vc_base_url :: string
  vc_credentials :: "Credentials option"
  vc_jar :: 'j
  vc_session :: SessionManager
  vc_auth_stage :: AuthStage
  vc_logged_in_at :: "nat option"
  vc_auth_flow_id :: u64
  vc_sent :: "HopRequest list"
  vc_ticks :: nat

definition config_url :: "'j VtopClient \<Rightarrow> string \<Rightarrow> string" where
  "config_url c path = vc_base_url c @ path"

definition on_session :: "(SessionManager \<Rightarrow> SessionManager) \<Rightarrow> 'j VtopClient \<Rightarrow> 'j VtopClient" where
  "on_session f c = c\<lparr>vc_session := f (vc_session c)\<rparr>"

definition now_unix :: "'j web \<Rightarrow> (nat \<Rightarrow> ('j VtopClient, 'a) act) \<Rightarrow> ('j VtopClient, 'a) act" where
  "now_unix W f = (\<lambda>c. f (wb_clock W (vc_ticks c)) (c\<lparr>vc_ticks := vc_ticks c + 1\<rparr>))"

subsection \<open>Requests\<close>

definition MAX_REDIRECTS :: nat where "MAX_REDIRECTS = 10"

record Response =
  rs_url :: string
  rs_status :: nat
  rs_content_type :: "string option"
  rs_content_disposition :: "string option"
  rs_body :: "bytes option"

definition is_success :: "nat \<Rightarrow> bool" where "is_success s \<longleftrightarrow> 200 \<le> s \<and> s < 300"
definition is_client_error :: "nat \<Rightarrow> bool" where "is_client_error s \<longleftrightarrow> 400 \<le> s \<and> s < 500"
definition is_server_error :: "nat \<Rightarrow> bool" where "is_server_error s \<longleftrightarrow> 500 \<le> s \<and> s < 600"

definition get_request :: "string \<Rightarrow> HopRequest" where
  "get_request url = \<lparr>hp_post = False, hp_url = url, hp_cookie = None, hp_headers = [], hp_body = NoBody\<rparr>"

definition post_request :: "string \<Rightarrow> Body \<Rightarrow> HopRequest" where
  "post_request url body = \<lparr>hp_post = True, hp_url = url, hp_cookie = None, hp_headers = [], hp_body = body\<rparr>"

text \<open>The request as it leaves: with the jar's cookies unless it has a cookie header of its own.\<close>

definition with_cookies :: "'j web \<Rightarrow> 'j VtopClient \<Rightarrow> HopRequest \<Rightarrow> HopRequest" where
  "with_cookies W c rq = (if hp_cookie rq = None
     then rq\<lparr>hp_cookie := wb_jar_header W (vc_jar c) (hp_url rq)\<rparr> else rq)"

definition one_hop ::
  "'j web \<Rightarrow> HopRequest \<Rightarrow> 'j VtopClient \<Rightarrow> (SendError + HopResponse) \<times> 'j VtopClient" where
  "one_hop W rq c =
     (let c = c\<lparr>vc_sent := vc_sent c @ [with_cookies W c rq]\<rparr>
      in case wb_http W (vc_sent c) of
           Inl e \<Rightarrow> (Inl e, c)
         | Inr r \<Rightarrow> (Inr r, c\<lparr>vc_jar := wb_jar_set W (vc_jar c) (hr_set_cookies r) (hp_url rq)\<rparr>))"

definition answered :: "HopRequest \<Rightarrow> HopResponse \<Rightarrow> Response" where
  "answered rq r = \<lparr>rs_url = hp_url rq, rs_status = hr_status r, rs_content_type = hr_content_type r,
     rs_content_disposition = hr_content_disposition r, rs_body = hr_body r\<rparr>"

function follow ::
  "'j web \<Rightarrow> nat \<Rightarrow> HopRequest \<Rightarrow> 'j VtopClient \<Rightarrow> (SendError + Response) \<times> 'j VtopClient" where
  "follow W hops rq c =
     (case one_hop W rq c of
        (Inl e, c) \<Rightarrow> (Inl e, c)
      | (Inr r, c) \<Rightarrow>
          if hr_status r \<notin> {301, 302, 303} \<or> MAX_REDIRECTS \<le> hops then (Inr (answered rq r), c)
          else (case Option.bind (hr_location r) (wb_join W (hp_url rq)) of
              None \<Rightarrow> (Inr (answered rq r), c)
            | Some next \<Rightarrow> follow W (hops + 1) (get_request next) c))"
  by pat_completeness auto
termination by (relation "measure (\<lambda>(W, hops, rq, c). MAX_REDIRECTS - hops)") auto

declare follow.simps [simp del]

definition send_request ::
  "'j web \<Rightarrow> HopRequest \<Rightarrow> 'j VtopClient \<Rightarrow> (SendError + Response) \<times> 'j VtopClient" where
  "send_request W rq c =
     (case wb_url W (hp_url rq) of
        None \<Rightarrow> (Inl \<lparr>se_timeout = False, se_connect = False\<rparr>, c)
      | Some url \<Rightarrow> follow W 0 (rq\<lparr>hp_url := url\<rparr>) c)"

definition send_with ::
  "'j web \<Rightarrow> HopRequest \<Rightarrow> (SendError + Response \<Rightarrow> ('j VtopClient, 'a) act) \<Rightarrow> ('j VtopClient, 'a) act" where
  "send_with W rq f = (\<lambda>c. case send_request W rq c of (res, c) \<Rightarrow> f res c)"

subsection \<open>Pages\<close>

text \<open>\<^verbatim>\<open>split(marker).nth(1)\<close>: what is after the first marker, up to the next.\<close>

fun split_at_str :: "string \<Rightarrow> string \<Rightarrow> (string \<times> string) option" where
  "split_at_str m [] = (if m = [] then Some ([], []) else None)"
| "split_at_str m (x # xs) = (if prefix m (x # xs) then Some ([], drop (length m) (x # xs))
     else map_option (\<lambda>(a, b). (x # a, b)) (split_at_str m xs))"

definition second_part :: "string \<Rightarrow> string \<Rightarrow> string option" where
  "second_part m s = (case split_at_str m s of
     None \<Rightarrow> None
   | Some (_, rest) \<Rightarrow> Some (case split_at_str m rest of None \<Rightarrow> rest | Some (part, _) \<Rightarrow> part))"

definition extract_javascript_var :: "string \<Rightarrow> string \<Rightarrow> string option" where
  "extract_javascript_var page name = do {
     after_marker \<leftarrow> second_part (''var '' @ name) page;
     (_, rest) \<leftarrow> split_once CHR ''='' after_marker;
     (case trim_start rest of
        [] \<Rightarrow> None
      | quote # text \<Rightarrow>
          if quote \<noteq> CHR 0x22 \<and> quote \<noteq> CHR 0x27 then None
          else map_option fst (split_once quote text))
   }"

definition or_else :: "'a option \<Rightarrow> 'a option \<Rightarrow> 'a option" where
  "or_else a b = (case a of None \<Rightarrow> b | Some _ \<Rightarrow> a)"

definition extract_csrf_token :: "'j web \<Rightarrow> string \<Rightarrow> string option" where
  "extract_csrf_token W page = or_else (wb_csrf_input W page) (extract_javascript_var page ''csrfValue'')"

definition extract_session_fields :: "'j web \<Rightarrow> string \<Rightarrow> string option \<times> string option" where
  "extract_session_fields W page =
     (or_else (wb_csrf_input W page) (extract_javascript_var page ''csrfValue''),
      or_else (wb_registration_input W page) (extract_javascript_var page ''id''))"

definition extract_captcha_data :: "'j web \<Rightarrow> string \<Rightarrow> string option" where
  "extract_captcha_data W page = (case wb_captcha_src W page of
     Some src \<Rightarrow> if contains src ''base64,'' then Some src else None | None \<Rightarrow> None)"

definition login_alert_message :: "'j web \<Rightarrow> string \<Rightarrow> string option" where
  "login_alert_message W page =
     map_option (\<lambda>texts. join_with CHR '' '' (concat (map split_whitespace texts))) (wb_login_alert W page)"

definition login_page_error :: "'j web \<Rightarrow> string \<Rightarrow> string" where
  "login_page_error W page = (case login_alert_message W page of
     Some message \<Rightarrow> if message = [] then ''We could not sign you in. Please try again.'' else message
   | None \<Rightarrow> ''We could not sign you in because VTOP returned an unexpected response.'')"

definition is_invalid_credentials_response :: "'j web \<Rightarrow> string \<Rightarrow> bool" where
  "is_invalid_credentials_response W page \<longleftrightarrow> (case login_alert_message W page of
     None \<Rightarrow> False
   | Some message \<Rightarrow> (let message = wb_lower W message
       in contains message ''invalid username/password'' \<or> contains message ''invalid loginid/password''))"

definition is_security_otp_required_response :: "'j web \<Rightarrow> string \<Rightarrow> bool" where
  "is_security_otp_required_response W page \<longleftrightarrow>
     contains (wb_lower W page) ''otp sent to your registered email.''"

text \<open>\<^verbatim>\<open>solve_captcha\<close>: only an inline image is looked at; reading it is the parameter.\<close>

definition solve_data_url :: "'j web \<Rightarrow> string \<Rightarrow> string + string" where
  "solve_data_url W data_url =
     (case split_once CHR '','' data_url of
        Some (header, image_base64) \<Rightarrow>
          if prefix ''data:image/'' header \<and> contains header '';base64'' then wb_captcha W image_base64
          else Inl ''Unsupported CAPTCHA image data URL''
      | None \<Rightarrow> Inl ''Unsupported CAPTCHA image data URL'')"

definition solve_captcha :: "'j web \<Rightarrow> string \<Rightarrow> VtopError + string" where
  "solve_captcha W captcha_data = map_err ConfigurationError (solve_data_url W captcha_data)"

end
