(* ===== verification/VtopClient.thy ===== *)
theory VtopClient
  imports Web
begin

section \<open>The client and its session (vtop-core/src/client/mod.rs, auth.rs)\<close>

text \<open>
  What the fetchers and the sign-in share: errors by status, the reset of a session, signed-in
  requests with their one retry, the check of a session against VTOP, and the snapshots by which a
  session is saved and resumed.  One caller at a time is modelled, without the locks that keep
  several apart; log lines are left out.
\<close>

subsection \<open>Errors\<close>

definition server_error :: "string \<Rightarrow> string \<Rightarrow> VtopError" where
  "server_error context detail = VtopServerError (context @ '': '' @ detail)"

definition unavailable :: "string \<Rightarrow> VtopError" where
  "unavailable reason = VtopUnavailable reason"

definition slow_vtop_error :: VtopError where
  "slow_vtop_error = unavailable ''VTOP took too long to answer''"

definition send_error :: "SendError \<Rightarrow> VtopError" where
  "send_error e = (if se_timeout e then slow_vtop_error else NetworkError)"

definition is_unavailable_status :: "nat \<Rightarrow> bool" where
  "is_unavailable_status s \<longleftrightarrow> s \<in> {502, 503, 504}"

definition status_error :: "string \<Rightarrow> nat \<Rightarrow> string \<Rightarrow> VtopError" where
  "status_error context status detail =
     (if status = 504 then slow_vtop_error
      else if is_unavailable_status status then unavailable ''VTOP is down right now''
      else server_error context detail)"

definition missing_csrf_error :: VtopError where
  "missing_csrf_error = SessionExpired"

text \<open>Sending with the question mark on \<open>send_error\<close>, and the text of an answer with the one on
  \<^verbatim>\<open>network_error\<close>.\<close>

definition send_or_fail ::
  "'j web \<Rightarrow> HopRequest \<Rightarrow> (Response \<Rightarrow> ('j VtopClient, 'a) act) \<Rightarrow> ('j VtopClient, 'a) act" where
  "send_or_fail W rq f = send_with W rq (\<lambda>res. case res of Inl e \<Rightarrow> fail (send_error e) | Inr response \<Rightarrow> f response)"

definition text_or_fail ::
  "'j web \<Rightarrow> Response \<Rightarrow> (string \<Rightarrow> ('j VtopClient, 'a) act) \<Rightarrow> ('j VtopClient, 'a) act" where
  "text_or_fail W response f =
     (case rs_body response of None \<Rightarrow> fail NetworkError | Some b \<Rightarrow> f (wb_decode W b))"

subsection \<open>Building a client, resetting its session\<close>

definition client_new :: "'j web \<Rightarrow> string \<Rightarrow> Credentials option \<Rightarrow> 'j VtopClient" where
  "client_new W base_url credentials =
     \<lparr>vc_base_url = base_url, vc_credentials = credentials, vc_jar = wb_jar_new W,
      vc_session = session_new, vc_auth_stage = Idle, vc_logged_in_at = None,
      vc_auth_flow_id = 0, vc_sent = [], vc_ticks = 0\<rparr>"

definition with_credentials :: "'j web \<Rightarrow> string \<Rightarrow> string \<Rightarrow> string \<Rightarrow> 'j VtopClient" where
  "with_credentials W base_url username password =
     client_new W base_url (Some \<lparr>cr_username = Username_to_uppercase (wb_upper W) username,
       cr_password = password\<rparr>)"

definition reset_session_state :: "'j web \<Rightarrow> 'j VtopClient \<Rightarrow> 'j VtopClient" where
  "reset_session_state W c = c\<lparr>vc_session := session_clear (vc_session c), vc_auth_stage := Idle,
     vc_logged_in_at := None, vc_jar := wb_jar_new W\<rparr>"

definition mark_session_expired :: "'j web \<Rightarrow> 'j VtopClient \<Rightarrow> 'j VtopClient" where
  "mark_session_expired W c = reset_session_state W c"

definition is_login_url :: "'j web \<Rightarrow> string \<Rightarrow> bool" where
  "is_login_url W url = (case wb_url W url of
     Some parsed \<Rightarrow> prefix ''/vtop/login'' (wb_path W parsed)
   | None \<Rightarrow> contains (wb_lower W url) ''/vtop/login'')"

definition resolve_vtop_url :: "'j web \<Rightarrow> 'j VtopClient \<Rightarrow> string \<Rightarrow> VtopError + string" where
  "resolve_vtop_url W c path_or_url =
     (if wb_url W path_or_url \<noteq> None then Inr path_or_url
      else (case Option.bind (wb_url W (vc_base_url c)) (\<lambda>base. wb_join W base path_or_url) of
          Some url \<Rightarrow> Inr url
        | None \<Rightarrow> Inl (ConfigurationError (wb_url_error W (vc_base_url c) path_or_url))))"

definition vtop_url :: "'j web \<Rightarrow> 'j VtopClient \<Rightarrow> VtopError + string" where
  "vtop_url W c = (case wb_url W (config_url c ''/vtop'') of
     Some url \<Rightarrow> Inr url
   | None \<Rightarrow> Inl (ConfigurationError (''invalid base URL: '' @ wb_url_error W (vc_base_url c) ''/vtop'')))"

subsection \<open>Checking a session against VTOP\<close>

text \<open>
  \<open>store_session\<close> is what every reader of a signed-in page does with it: the token, then the
  registration number, and neither when one is missing.
\<close>

definition check_authenticated_session :: "'j web \<Rightarrow> bool \<Rightarrow> ('j VtopClient, bool) act" where
  "check_authenticated_session W server_error_is_error =
     reading (\<lambda>c. (get_request (config_url c ''/vtop/content''))
         \<lparr>hp_cookie := sm_external_cookie_header (vc_session c)\<rparr>) (\<lambda>rq.
     send_or_fail W rq (\<lambda>response.
       let final_url = rs_url response; status = rs_status response
       in if server_error_is_error \<and> is_server_error status \<and> \<not> is_login_url W final_url then
            fail (status_error ''validate_authenticated_session'' status (''HTTP '' @ wb_status_text W status))
          else if is_login_url W final_url \<or> \<not> is_success status then
            change (mark_session_expired W) (ret False)
          else
            text_or_fail W response (\<lambda>content.
              let (csrf, registration_number) = extract_session_fields W content
              in andthen (or_fail (ParseError ''VTOP's session page was missing its token'') csrf) (\<lambda>csrf.
                 andthen (or_fail RegistrationParsingError registration_number) (\<lambda>number.
                 andthen (from_result (RegistrationNumber_parse number)) (\<lambda>number.
                 change (on_session (set_csrf_token csrf))
                 (change (on_session (set_registration_number number))
                 (change (on_session (set_authenticated True))
                   (ret True)))))))))"

definition validate_authenticated_session :: "'j web \<Rightarrow> ('j VtopClient, bool) act" where
  "validate_authenticated_session W = check_authenticated_session W False"

definition has_usable_session :: "'j VtopClient \<Rightarrow> bool" where
  "has_usable_session c \<longleftrightarrow> sm_is_authenticated (vc_session c) \<and> sm_csrf_token (vc_session c) \<noteq> None \<and>
     sm_registration_number (vc_session c) \<noteq> None"

definition try_restore_existing_session :: "'j web \<Rightarrow> ('j VtopClient, bool) act" where
  "try_restore_existing_session W =
     match (validate_authenticated_session W) (\<lambda>r.
       if r = Inr True then change (on_session (set_cookie_external False)) (ret True)
       else change (reset_session_state W) (ret False))"

definition ensure_authenticated_session :: "'j web \<Rightarrow> ('j VtopClient, bool) act" where
  "ensure_authenticated_session W =
     reading (\<lambda>c. c) (\<lambda>c.
       if has_usable_session c then ret True
       else if sm_is_authenticated (vc_session c) then validate_authenticated_session W
       else if \<not> is_cookie_external (vc_session c) then ret False
       else try_restore_existing_session W)"

definition registration_number :: "('j VtopClient, string) act" where
  "registration_number =
     reading (\<lambda>c. sm_registration_number (vc_session c)) (or_fail RegistrationParsingError)"

definition verify_session :: "'j web \<Rightarrow> ('j VtopClient, string) act" where
  "verify_session W = andthen (check_authenticated_session W True) (\<lambda>valid.
     if \<not> valid then fail SessionExpired else registration_number)"

subsection \<open>Signed-in requests\<close>

record AuthorizedRequest =
  ar_csrf :: string
  ar_registration_number :: string

definition authorize :: "'j web \<Rightarrow> ('j VtopClient, AuthorizedRequest) act" where
  "authorize W = andthen (ensure_authenticated_session W) (\<lambda>authenticated.
     if \<not> authenticated then fail SessionExpired
     else reading vc_session (\<lambda>session.
       andthen (or_fail missing_csrf_error (sm_csrf_token session)) (\<lambda>csrf.
       andthen (or_fail RegistrationParsingError (sm_registration_number session)) (\<lambda>number.
         ret \<lparr>ar_csrf = csrf, ar_registration_number = number\<rparr>))))"

definition read_authenticated_response_text ::
  "'j web \<Rightarrow> string \<Rightarrow> Response \<Rightarrow> ('j VtopClient, string) act" where
  "read_authenticated_response_text W context response =
     (let final_url = rs_url response; status = rs_status response
      in if is_unavailable_status status then fail (status_error context status [])
         else if is_login_url W final_url then change (mark_session_expired W) (fail SessionExpired)
         else text_or_fail W response (\<lambda>text.
           if \<not> is_success status then
             change (mark_session_expired W)
               (fail (if is_client_error status then SessionExpired
                      else server_error context (''VTOP returned HTTP '' @ wb_status_text W status)))
           else ret text))"

definition send_authenticated :: "'j web \<Rightarrow> string \<Rightarrow> HopRequest \<Rightarrow> ('j VtopClient, string) act" where
  "send_authenticated W context rq =
     (let again = send_or_fail W rq (read_authenticated_response_text W context)
      in send_with W rq (\<lambda>res. case res of
           Inr response \<Rightarrow>
             if \<not> is_server_error (rs_status response) \<or> rs_status response = 504 then
               read_authenticated_response_text W context response
             else again
         | Inl e \<Rightarrow>
             if se_timeout e then fail slow_vtop_error
             else if se_connect e then again
             else fail (send_error e)))"

subsection \<open>Saving and resuming a session\<close>

definition import_cookie_header :: "'j web \<Rightarrow> string \<Rightarrow> ('j VtopClient, unit) act" where
  "import_cookie_header W cookie =
     (if trim cookie = [] then ret ()
      else reading (vtop_url W) (\<lambda>url. andthen (from_result url) (\<lambda>url.
        let cookies = (case parse_cookie_pairs cookie of
              [] \<Rightarrow> [cookie]
            | ps \<Rightarrow> map (\<lambda>(name, value). name @ ''='' @ value) ps)
        in change (\<lambda>c. c\<lparr>vc_jar := foldl (\<lambda>j cookie. wb_jar_add W j cookie url) (vc_jar c) cookies\<rparr>)
             (change (on_session (set_external_cookie_header cookie)) (ret ())))))"

definition cookie_header :: "'j web \<Rightarrow> 'j VtopClient \<Rightarrow> string option" where
  "cookie_header W c = (case vtop_url W c of Inl _ \<Rightarrow> None | Inr url \<Rightarrow> wb_jar_header W (vc_jar c) url)"

definition session_state :: "'j web \<Rightarrow> 'j VtopClient \<Rightarrow> SessionState" where
  "session_state W c =
     \<lparr>st_cookies = (case cookie_header W c of Some h \<Rightarrow> h | None \<Rightarrow> []),
      st_csrf_token = sm_csrf_token (vc_session c),
      st_registration_number = sm_registration_number (vc_session c),
      st_otp_issued_at = (case vc_auth_stage c of AwaitingOtp issued_at \<Rightarrow> Some issued_at | _ \<Rightarrow> None),
      st_logged_in_at = vc_logged_in_at c\<rparr>"

definition parse_registration :: "string option \<Rightarrow> VtopError + string option" where
  "parse_registration number = (case number of None \<Rightarrow> Inr None
     | Some n \<Rightarrow> (case RegistrationNumber_parse n of Inl e \<Rightarrow> Inl e | Inr n \<Rightarrow> Inr (Some n)))"

definition resume_session :: "'j web \<Rightarrow> SessionState \<Rightarrow> ('j VtopClient, unit) act" where
  "resume_session W snapshot =
     andthen (from_result (parse_registration (st_registration_number snapshot))) (\<lambda>number.
     change (reset_session_state W)
     (andthen (import_cookie_header W (st_cookies snapshot)) (\<lambda>_.
      change (\<lambda>c. c\<lparr>vc_logged_in_at := st_logged_in_at snapshot\<rparr>)
      (change (case st_csrf_token snapshot of Some csrf \<Rightarrow> on_session (set_csrf_token csrf) | None \<Rightarrow> (\<lambda>c. c))
        (case (st_otp_issued_at snapshot, number) of
           (Some issued_at, _) \<Rightarrow>
             change (on_session (set_cookie_external False))
               (change (\<lambda>c. c\<lparr>vc_auth_stage := AwaitingOtp issued_at\<rparr>) (ret ()))
         | (None, Some number) \<Rightarrow>
             if st_csrf_token snapshot \<noteq> None then
               change (on_session (set_registration_number number))
                 (change (on_session (set_authenticated True)) (ret ()))
             else ret ()
         | (None, None) \<Rightarrow> ret ())))))"

definition with_session :: "'j web \<Rightarrow> string \<Rightarrow> SessionState \<Rightarrow> VtopError + 'j VtopClient" where
  "with_session W base_url state =
     (case resume_session W state (client_new W base_url None) of
        (Inl e, _) \<Rightarrow> Inl e
      | (Inr _, c) \<Rightarrow> Inr c)"

text \<open>The session as the app saves it.\<close>

record PersistedVtopSession =
  pv_username :: string
  pv_saved_at_epoch_ms :: nat
  pv_cookies :: "string option"
  pv_csrf_token :: "string option"
  pv_registration_number :: "string option"
  pv_logged_in_at :: "nat option"

definition restore_persisted_session :: "'j web \<Rightarrow> PersistedVtopSession \<Rightarrow> ('j VtopClient, unit) act" where
  "restore_persisted_session W session =
     (case pv_cookies session of
        None \<Rightarrow> ret ()
      | Some cookies \<Rightarrow> resume_session W \<lparr>st_cookies = cookies, st_csrf_token = pv_csrf_token session,
          st_registration_number = pv_registration_number session, st_otp_issued_at = None,
          st_logged_in_at = pv_logged_in_at session\<rparr>)"

definition export_persisted_session :: "'j web \<Rightarrow> nat \<Rightarrow> 'j VtopClient \<Rightarrow> PersistedVtopSession" where
  "export_persisted_session W saved_at_epoch_ms c =
     (let state = session_state W c
      in \<lparr>pv_username = (case vc_credentials c of Some cr \<Rightarrow> cr_username cr | None \<Rightarrow> []),
          pv_saved_at_epoch_ms = saved_at_epoch_ms,
          pv_cookies = (if st_cookies state \<noteq> [] then Some (st_cookies state) else None),
          pv_csrf_token = st_csrf_token state,
          pv_registration_number = st_registration_number state,
          pv_logged_in_at = st_logged_in_at state\<rparr>)"

definition cookie_bytes :: "'j web \<Rightarrow> bool \<Rightarrow> 'j VtopClient \<Rightarrow> VtopError + bytes" where
  "cookie_bytes W check c =
     (if check \<and> \<not> sm_is_authenticated (vc_session c) then Inl SessionExpired
      else Inr (case cookie_header W c of Some h \<Rightarrow> as_bytes h | None \<Rightarrow> []))"

end
