(* ===== verification/Login.thy ===== *)
theory Login
  imports VtopClient
begin

section \<open>Signing in (vtop-core/src/client/auth.rs, otp.rs, email_otp.rs)\<close>

text \<open>
  Login with its CAPTCHA attempts, the security code VTOP emails, and the two loops that sign in
  with codes looked up elsewhere.
\<close>

definition MAX_CAPTCHA_ATTEMPTS :: nat where "MAX_CAPTCHA_ATTEMPTS = 40"
definition MAX_PRELOGIN_RELOADS :: nat where "MAX_PRELOGIN_RELOADS = 20"

subsection \<open>The password and the CAPTCHA\<close>

definition saturating_succ :: "u64 \<Rightarrow> u64" where
  "saturating_succ x = (if x = - 1 then x else x + 1)"

definition begin_auth_flow :: "'j VtopClient \<Rightarrow> 'j VtopClient" where
  "begin_auth_flow c = c\<lparr>vc_auth_flow_id := saturating_succ (vc_auth_flow_id c), vc_auth_stage := LoggingIn\<rparr>"

text \<open>\<^verbatim>\<open>finish_login\<close>, and in \<^verbatim>\<open>otp.rs\<close> the same as \<^verbatim>\<open>finish_otp\<close>.\<close>

definition finish_login :: "'j web \<Rightarrow> ('j VtopClient, unit) act" where
  "finish_login W =
     change (on_session (set_authenticated True))
     (change (on_session (set_cookie_external False))
     (change (\<lambda>c. c\<lparr>vc_auth_stage := Idle\<rparr>)
     (now_unix W (\<lambda>now. change (\<lambda>c. c\<lparr>vc_logged_in_at := Some now\<rparr>) (ret ())))))"

definition perform_login :: "'j web \<Rightarrow> Credentials \<Rightarrow> string \<Rightarrow> ('j VtopClient, unit) act" where
  "perform_login W credentials captcha_answer =
     reading (\<lambda>c. sm_csrf_token (vc_session c)) (\<lambda>token.
     andthen (or_fail missing_csrf_error token) (\<lambda>csrf.
     let login_data = ''_csrf='' @ csrf @ ''&username='' @ wb_urlencode W (cr_username credentials) @
           ''&password='' @ wb_urlencode W (cr_password credentials) @ ''&captchaStr='' @ captcha_answer
     in reading (\<lambda>c. post_request (config_url c ''/vtop/login'') (Raw login_data)) (\<lambda>rq.
        now_unix W (\<lambda>issued_at.
        send_or_fail W rq (\<lambda>response.
        text_or_fail W response (\<lambda>page.
          if \<not> contains (rs_url response) ''error'' then
            (let (csrf, registration_number) = extract_session_fields W page
             in andthen (or_fail (ParseError ''VTOP's response after sign-in was missing its session token'') csrf) (\<lambda>csrf.
                andthen (or_fail RegistrationParsingError registration_number) (\<lambda>number.
                andthen (from_result (RegistrationNumber_parse number)) (\<lambda>number.
                change (on_session (set_csrf_token csrf))
                (change (on_session (set_registration_number number)) (ret ()))))))
          else if contains page ''Invalid Captcha'' then fail (AuthenticationFailed ''Invalid Captcha'')
          else if is_security_otp_required_response W page then
            change (case extract_csrf_token W page of Some csrf \<Rightarrow> on_session (set_csrf_token csrf) | None \<Rightarrow> (\<lambda>c. c))
            (change (\<lambda>c. c\<lparr>vc_auth_stage := AwaitingOtp issued_at\<rparr>)
              (fail (OTPRequired ''Additional verification is required.'' issued_at)))
          else if is_invalid_credentials_response W page then fail InvalidCredentials
          else fail (AuthenticationFailed (login_page_error W page))))))))"

definition load_initial_page :: "'j web \<Rightarrow> ('j VtopClient, string) act" where
  "load_initial_page W =
     reading (\<lambda>c. config_url c ''/vtop/open/page'') (\<lambda>url.
     send_or_fail W (get_request url) (\<lambda>response.
       if \<not> is_success (rs_status response) then
         fail (status_error ''load_initial_page'' (rs_status response)
           (''VTOP returned HTTP '' @ wb_status_text W (rs_status response) @ '' at '' @ url))
       else text_or_fail W response ret))"

definition no_token_error :: "string \<Rightarrow> VtopError" where
  "no_token_error landing = VtopServerError (''VTOP's sign-in page loaded without a security token ('' @
     show_nat (char_count landing) @
     '' characters). This is usually a temporary VTOP or network problem '' @
     map char_of [226, 128, 148 :: nat] @ '' please try again.'')"

definition open_session :: "'j web \<Rightarrow> ('j VtopClient, unit) act" where
  "open_session W = andthen (load_initial_page W) (\<lambda>landing.
     andthen (or_fail (no_token_error landing) (extract_csrf_token W landing)) (\<lambda>csrf.
       change (on_session (set_csrf_token csrf)) (ret ())))"

fun load_captcha :: "'j web \<Rightarrow> HopRequest \<Rightarrow> nat \<Rightarrow> ('j VtopClient, string) act" where
  "load_captcha W rq 0 = fail CaptchaRequired"
| "load_captcha W rq (Suc reloads) =
     send_or_fail W rq (\<lambda>response.
       if \<not> is_success (rs_status response) then
         fail (status_error ''load_login_page'' (rs_status response)
           (''VTOP returned HTTP '' @ wb_status_text W (rs_status response) @ '' while preparing captcha''))
       else text_or_fail W response (\<lambda>page.
         if contains page ''base64,'' then or_fail CaptchaRequired (extract_captcha_data W page)
         else load_captcha W rq reloads))"

definition load_login_page :: "'j web \<Rightarrow> bool \<Rightarrow> ('j VtopClient, string) act" where
  "load_login_page W first =
     andthen (if first then open_session W else ret ()) (\<lambda>_.
     reading (\<lambda>c. sm_csrf_token (vc_session c)) (\<lambda>token.
     andthen (or_fail missing_csrf_error token) (\<lambda>csrf.
     reading (\<lambda>c. post_request (config_url c ''/vtop/prelogin/setup'') (Raw (''_csrf='' @ csrf @ ''&flag=VTOP'')))
       (\<lambda>rq. load_captcha W rq MAX_PRELOGIN_RELOADS))))"

definition exhausted :: VtopError where
  "exhausted = AuthenticationFailed ''We could not complete sign-in after several captcha attempts. Please try again.''"

definition captcha_rejected :: "VtopError \<Rightarrow> bool" where
  "captcha_rejected e = (case e of AuthenticationFailed message \<Rightarrow> contains message ''Invalid Captcha'' | _ \<Rightarrow> False)"

fun login_attempts :: "'j web \<Rightarrow> Credentials \<Rightarrow> bool \<Rightarrow> nat \<Rightarrow> ('j VtopClient, unit) act" where
  "login_attempts W credentials first 0 = fail exhausted"
| "login_attempts W credentials first (Suc attempts) =
     andthen (load_login_page W first) (\<lambda>captcha_data.
     andthen (from_result (solve_captcha W captcha_data)) (\<lambda>captcha_answer.
     match (perform_login W credentials captcha_answer) (\<lambda>r. case r of
         Inr _ \<Rightarrow> finish_login W
       | Inl e \<Rightarrow> if captcha_rejected e then login_attempts W credentials False attempts else fail e)))"

definition no_credentials :: VtopError where
  "no_credentials = ConfigurationError ''this client has no credentials to log in with''"

definition login :: "'j web \<Rightarrow> ('j VtopClient, unit) act" where
  "login W =
     reading vc_credentials (\<lambda>credentials. andthen (or_fail no_credentials credentials) (\<lambda>credentials.
     change begin_auth_flow
     (reading (\<lambda>c. is_cookie_external (vc_session c)) (\<lambda>external.
       if external then
         match (try_restore_existing_session W) (\<lambda>r.
           if r = Inr True then change (\<lambda>c. c\<lparr>vc_auth_stage := Idle\<rparr>) (ret ())
           else login_attempts W credentials True MAX_CAPTCHA_ATTEMPTS)
       else login_attempts W credentials True MAX_CAPTCHA_ATTEMPTS))))"

subsection \<open>The emailed code\<close>

record OtpReply =
  or_status :: "string option"
  or_message :: "string option"
  or_redirect_url :: "string option"

definition OtpReply_parse :: "'j web \<Rightarrow> string \<Rightarrow> OtpReply" where
  "OtpReply_parse W body =
     (case js_read (wb_json W) body of
        None \<Rightarrow> \<lparr>or_status = None, or_message = None, or_redirect_url = None\<rparr>
      | Some json \<Rightarrow>
          \<lparr>or_status = map_option (wb_upper W) (j_field json ''status''),
           or_message = j_field json ''message'',
           or_redirect_url = (case j_field json ''redirectUrl'' of
             Some url \<Rightarrow> if trim url \<noteq> [] then Some url else None | None \<Rightarrow> None)\<rparr>)"

definition is_json :: "OtpReply \<Rightarrow> bool" where
  "is_json r \<longleftrightarrow> or_status r \<noteq> None \<or> or_message r \<noteq> None \<or> or_redirect_url r \<noteq> None"

definition otp_failed :: "OtpReply \<Rightarrow> string \<Rightarrow> VtopError" where
  "otp_failed reply otherwise = AuthenticationFailed (case or_message reply of Some m \<Rightarrow> m | None \<Rightarrow> otherwise)"

definition otp_pending :: "('j VtopClient, string) act" where
  "otp_pending = reading (\<lambda>c. c) (\<lambda>c.
     case vc_auth_stage c of
       AwaitingOtp _ \<Rightarrow> or_fail missing_csrf_error (sm_csrf_token (vc_session c))
     | _ \<Rightarrow> fail (AuthenticationFailed ''No OTP challenge is active.''))"

definition finish_otp :: "'j web \<Rightarrow> ('j VtopClient, unit) act" where
  "finish_otp W =
     change (on_session (set_authenticated True))
     (change (on_session (set_cookie_external False))
     (change (\<lambda>c. c\<lparr>vc_auth_stage := Idle\<rparr>)
     (now_unix W (\<lambda>now. change (\<lambda>c. c\<lparr>vc_logged_in_at := Some now\<rparr>) (ret ())))))"

text \<open>The session page that follows: the registration number must be there, the token may.\<close>

definition store_page :: "'j web \<Rightarrow> string \<Rightarrow> ('j VtopClient, 'a) act \<Rightarrow> ('j VtopClient, 'a) act" where
  "store_page W page rest =
     (let (csrf, registration_number) = extract_session_fields W page
      in andthen (or_fail RegistrationParsingError registration_number) (\<lambda>number.
         andthen (from_result (RegistrationNumber_parse number)) (\<lambda>number.
         change (case csrf of Some csrf \<Rightarrow> on_session (set_csrf_token csrf) | None \<Rightarrow> (\<lambda>c. c))
         (change (on_session (set_registration_number number)) rest))))"

definition follow_security_otp_redirect :: "'j web \<Rightarrow> string \<Rightarrow> ('j VtopClient, bool) act" where
  "follow_security_otp_redirect W redirect_url =
     reading (\<lambda>c. resolve_vtop_url W c redirect_url) (\<lambda>url. andthen (from_result url) (\<lambda>url.
     send_or_fail W ((get_request url)\<lparr>hp_headers := [(''Accept'', ''*/*'')]\<rparr>) (\<lambda>response.
     text_or_fail W response (\<lambda>page.
       if is_login_url W (rs_url response) then change (mark_session_expired W) (ret False)
       else if \<not> is_success (rs_status response) then
         fail (status_error ''follow_security_otp_redirect'' (rs_status response)
           (''VTOP returned HTTP '' @ wb_status_text W (rs_status response) @ '' at '' @ rs_url response))
       else store_page W page
         (match (validate_authenticated_session W) (\<lambda>r.
            if r = Inr True then andthen (finish_otp W) (\<lambda>_. ret True) else ret False))))))"

definition otp_headers :: "'j VtopClient \<Rightarrow> (string \<times> string) list" where
  "otp_headers c = [(''Accept'', ''*/*''), (''Origin'', vc_base_url c),
     (''Referer'', config_url c ''/vtop/login/error''), (''Sec-Fetch-Dest'', ''empty''),
     (''Sec-Fetch-Mode'', ''cors''), (''Sec-Fetch-Site'', ''same-origin'')]"

definition otp_request :: "'j VtopClient \<Rightarrow> string \<Rightarrow> (string \<times> string) list \<Rightarrow> HopRequest" where
  "otp_request c path form =
     (post_request (config_url c path) (Multipart form))\<lparr>hp_headers := otp_headers c\<rparr>"

definition success_words :: "string list" where
  "success_words = [''VALID'', ''SUCCESS'', ''OK'']"

text \<open>What is left when the reply neither refuses the code nor leads to a session by itself.\<close>

definition confirm_otp :: "'j web \<Rightarrow> Response \<Rightarrow> string \<Rightarrow> OtpReply \<Rightarrow> ('j VtopClient, unit) act" where
  "confirm_otp W response page reply =
     (let declares_success = ((case or_status reply of Some s \<Rightarrow> s \<in> set success_words | None \<Rightarrow> False) \<or>
            wb_upper W (trim page) \<in> set success_words);
          landed_on_content = (is_success (rs_status response) \<and>
            suffix ''/vtop/content'' (trim_end_char CHR ''/'' (rs_url response)))
      in if (case or_status reply of Some s \<Rightarrow> s \<notin> set success_words | None \<Rightarrow> False) then
           fail (otp_failed reply ''Verification failed. Please try again.'')
         else if landed_on_content then store_page W page (finish_otp W)
         else match (validate_authenticated_session W) (\<lambda>r.
           if r = Inr True then finish_otp W
           else if declares_success then
             fail (AuthenticationFailed ''VTOP accepted the OTP, but did not open a signed-in session. Please try again.'')
           else fail (AuthenticationFailed ''We could not verify that OTP. Please try again.'')))"

definition submit_security_otp :: "'j web \<Rightarrow> string \<Rightarrow> ('j VtopClient, unit) act" where
  "submit_security_otp W otp_code =
     andthen otp_pending (\<lambda>csrf.
     andthen (from_result (OtpCode_parse otp_code)) (\<lambda>code.
     reading (\<lambda>c. otp_request c ''/vtop/validateSecurityOtp'' [(''otpCode'', code), (''_csrf'', csrf)]) (\<lambda>rq.
     send_or_fail W rq (\<lambda>response.
     text_or_fail W response (\<lambda>page.
       let reply = OtpReply_parse W page
       in if or_status reply = Some ''INVALID'' \<or> contains (wb_lower W page) ''invalid otp'' then
            fail (otp_failed reply ''Invalid OTP. Please try again.'')
          else if or_status reply = Some ''EXPIRED'' then
            fail (otp_failed reply ''OTP has expired. Please resend.'')
          else if or_status reply = Some ''SUCCESS'' then
            (case or_redirect_url reply of
               Some redirect_url \<Rightarrow> andthen (follow_security_otp_redirect W redirect_url) (\<lambda>signed_in.
                 if signed_in then ret () else confirm_otp W response page reply)
             | None \<Rightarrow> confirm_otp W response page reply)
          else confirm_otp W response page reply)))))"

definition RESEND_PATHS :: "string list" where
  "RESEND_PATHS = [''/vtop/resendSecurityOtp'', ''/vtop/resendSecurityOTP'']"

definition resend_failed :: VtopError where
  "resend_failed = AuthenticationFailed ''Failed to resend OTP. Please try again.''"

fun resend_at :: "'j web \<Rightarrow> string \<Rightarrow> string list \<Rightarrow> ('j VtopClient, unit) act" where
  "resend_at W csrf [] = fail resend_failed"
| "resend_at W csrf (path # paths) =
     reading (\<lambda>c. otp_request c path [(''_csrf'', csrf)]) (\<lambda>rq.
     send_or_fail W rq (\<lambda>response.
     text_or_fail W response (\<lambda>page.
       if rs_status response = 404 then resend_at W csrf paths
       else (let reply = OtpReply_parse W page
         in if is_json reply then
              (if or_status reply \<in> {Some ''SUCCESS'', Some ''SENT'', Some ''VALID'', Some ''OK''} then ret ()
               else fail (otp_failed reply ''Failed to resend OTP. Please try again.''))
            else (let lower = wb_lower W page
              in if is_success (rs_status response) \<and> contains lower ''otp'' \<and> contains lower ''sent'' then ret ()
                 else fail resend_failed)))))"

definition resend_security_otp :: "'j web \<Rightarrow> ('j VtopClient, unit) act" where
  "resend_security_otp W = andthen otp_pending (\<lambda>csrf. resend_at W csrf RESEND_PATHS)"

subsection \<open>Signing in with the codes that come by mail\<close>

text \<open>
  The loops end by the clock, so they may not end at all: \<open>None\<close> is that.  \<open>M\<close> is the monotonic
  clock by how often the clocks were read.  Where the codes come from keeps a state of its own
  between the calls and may read the clock and take any time itself: it is given the number of
  readings so far and says how many it made, or does not return.
\<close>

type_synonym clock = "nat \<Rightarrow> instant"

definition read_instant :: "clock \<Rightarrow> 'j VtopClient \<Rightarrow> instant \<times> 'j VtopClient" where
  "read_instant M c = (M (vc_ticks c), c\<lparr>vc_ticks := vc_ticks c + 1\<rparr>)"

type_synonym 's next_code =
  "'s \<Rightarrow> nat \<Rightarrow> nat \<Rightarrow> duration \<Rightarrow> string list \<Rightarrow> (string option \<times> 's \<times> nat) option"

definition readings :: "nat \<Rightarrow> 'j VtopClient \<Rightarrow> 'j VtopClient" where
  "readings n c = c\<lparr>vc_ticks := vc_ticks c + n\<rparr>"

partial_function (option) forwarded_loop ::
  "'j web \<Rightarrow> clock \<Rightarrow> 's next_code \<Rightarrow> string \<Rightarrow> nat \<Rightarrow> instant \<Rightarrow> string list \<Rightarrow> 's \<Rightarrow> 'j VtopClient \<Rightarrow>
   ((VtopError + unit) \<times> 's \<times> 'j VtopClient) option" where
  "forwarded_loop W M next_code message issued_at deadline tried s c =
     (case read_instant M c of (now, c) \<Rightarrow>
        let remaining = since deadline now
        in if remaining = 0 then Some (Inl (OTPRequired message issued_at), s, c)
           else (case next_code s (vc_ticks c) issued_at remaining tried of
               None \<Rightarrow> None
             | Some (None, s, n) \<Rightarrow> Some (Inl (OTPRequired message issued_at), s, readings n c)
             | Some (Some code, s, n) \<Rightarrow>
                 (case submit_security_otp W code (readings n c) of
                    (Inr _, c) \<Rightarrow> Some (Inr (), s, c)
                  | (Inl (AuthenticationFailed _), c) \<Rightarrow>
                      forwarded_loop W M next_code message issued_at deadline (tried @ [code]) s c
                  | (Inl e, c) \<Rightarrow> Some (Inl e, s, c))))"

definition login_with_otp_from ::
  "'j web \<Rightarrow> clock \<Rightarrow> 's next_code \<Rightarrow> duration \<Rightarrow> 's \<Rightarrow> 'j VtopClient \<Rightarrow>
   ((VtopError + unit) \<times> 's \<times> 'j VtopClient) option" where
  "login_with_otp_from W M next_code wait s c =
     (case login W c of
        (Inl (OTPRequired message issued_at), c) \<Rightarrow>
          (case read_instant M c of (now, c) \<Rightarrow>
             forwarded_loop W M next_code message issued_at (now + wait) [] s c)
      | (r, c) \<Rightarrow> Some (r, s, c))"

text \<open>The same with the student's Gmail: a code, with the message it was in, or why there is none.\<close>

type_synonym ('j, 'e) gmail = "'j VtopClient \<Rightarrow> nat \<Rightarrow> duration \<Rightarrow> string set \<Rightarrow> 'e + string \<times> string"

partial_function (option) gmail_loop ::
  "'j web \<Rightarrow> clock \<Rightarrow> ('j, 'e) gmail \<Rightarrow> string \<Rightarrow> nat \<Rightarrow> instant \<Rightarrow> string set \<Rightarrow> 'j VtopClient \<Rightarrow>
   (((VtopError + unit) \<times> 'e option) \<times> 'j VtopClient) option" where
  "gmail_loop W M gmail message issued_at deadline tried c =
     (case read_instant M c of (now, c) \<Rightarrow>
        let remaining = since deadline now
        in (case gmail c issued_at remaining tried of
              Inl e \<Rightarrow> Some ((Inl (OTPRequired message issued_at), Some e), c)
            | Inr (code, message_id) \<Rightarrow>
                (case submit_security_otp W code c of
                   (Inr _, c) \<Rightarrow> Some ((Inr (), None), c)
                 | (Inl e, c) \<Rightarrow>
                     if (case e of AuthenticationFailed _ \<Rightarrow> remaining \<noteq> 0 | _ \<Rightarrow> False) then
                       gmail_loop W M gmail message issued_at deadline (insert message_id tried) c
                     else Some ((Inl e, None), c))))"

definition login_with_gmail_otp ::
  "'j web \<Rightarrow> clock \<Rightarrow> ('j, 'e) gmail option \<Rightarrow> duration \<Rightarrow> 'j VtopClient \<Rightarrow>
   (((VtopError + unit) \<times> 'e option) \<times> 'j VtopClient) option" where
  "login_with_gmail_otp W M access wait c =
     (case login W c of
        (Inl (OTPRequired message issued_at), c) \<Rightarrow>
          (case access of
             None \<Rightarrow> Some ((Inl (OTPRequired message issued_at), None), c)
           | Some gmail \<Rightarrow>
               (case read_instant M c of (now, c) \<Rightarrow>
                  gmail_loop W M gmail message issued_at (now + wait) {} c))
      | (r, c) \<Rightarrow> Some ((r, None), c))"

end
