(* ===== verification/ClientFacts.thy ===== *)
theory ClientFacts
  imports Login
begin

section \<open>What a step of the client can do\<close>

text \<open>
  One request, with its redirects, changes the jar and adds to the requests sent; everything the
  client does is made of such requests and of changes to its own data.  The lemmas give the
  weakest precondition of a request, and with it the bounds on how many are sent.
\<close>

subsection \<open>One request\<close>

text \<open>The answer is what HTTP gave to the last request.\<close>

definition served :: "'j web \<Rightarrow> HopRequest list \<Rightarrow> Response \<Rightarrow> bool" where
  "served W sent response \<longleftrightarrow> sent \<noteq> [] \<and>
     (case wb_http W sent of Inl _ \<Rightarrow> False | Inr r \<Rightarrow> response = answered (last sent) r)"

text \<open>The requests of one call: the first is the one asked for, the others carry nothing.\<close>

definition hops_of :: "'j web \<Rightarrow> 'j VtopClient \<Rightarrow> HopRequest \<Rightarrow> HopRequest list \<Rightarrow> bool" where
  "hops_of W c rq hs \<longleftrightarrow> length hs \<le> MAX_REDIRECTS + 1 \<and>
     (hs \<noteq> [] \<longrightarrow> (\<exists>url. wb_url W (hp_url rq) = Some url \<and> hd hs = with_cookies W c (rq\<lparr>hp_url := url\<rparr>))) \<and>
     (\<forall>h \<in> set (tl hs). \<not> hp_post h \<and> hp_body h = NoBody \<and> hp_headers h = [])"

lemma with_cookies_fields [simp]:
  "hp_post (with_cookies W c rq) = hp_post rq" "hp_url (with_cookies W c rq) = hp_url rq"
  "hp_headers (with_cookies W c rq) = hp_headers rq" "hp_body (with_cookies W c rq) = hp_body rq"
  by (simp_all add: with_cookies_def)

lemma one_hop_cases:
  obtains e where "one_hop W rq c = (Inl e, c\<lparr>vc_sent := vc_sent c @ [with_cookies W c rq]\<rparr>)"
    | r j where "one_hop W rq c = (Inr r, c\<lparr>vc_jar := j, vc_sent := vc_sent c @ [with_cookies W c rq]\<rparr>)"
      "wb_http W (vc_sent c @ [with_cookies W c rq]) = Inr r"
      "served W (vc_sent c @ [with_cookies W c rq]) (answered rq r)"
proof (cases "wb_http W (vc_sent c @ [with_cookies W c rq])")
  case (Inl e)
  then have "one_hop W rq c = (Inl e, c\<lparr>vc_sent := vc_sent c @ [with_cookies W c rq]\<rparr>)"
    by (simp add: one_hop_def Let_def)
  then show ?thesis by (rule that(1))
next
  case (Inr r)
  have "one_hop W rq c = (Inr r, c\<lparr>vc_jar := wb_jar_set W (vc_jar c) (hr_set_cookies r) (hp_url rq),
      vc_sent := vc_sent c @ [with_cookies W c rq]\<rparr>)"
    using Inr by (simp add: one_hop_def Let_def)
  then show ?thesis using that(2) Inr by (simp add: served_def answered_def)
qed

lemma follow_hops:
  assumes "follow W n rq c = (res, c')" and "n \<le> MAX_REDIRECTS"
  shows "\<exists>j hs. c' = c\<lparr>vc_jar := j, vc_sent := vc_sent c @ hs\<rparr> \<and> hs \<noteq> [] \<and> length hs \<le> MAX_REDIRECTS - n + 1 \<and>
    hd hs = with_cookies W c rq \<and> (\<forall>h \<in> set (tl hs). \<not> hp_post h \<and> hp_body h = NoBody \<and> hp_headers h = []) \<and>
    (\<forall>response. res = Inr response \<longrightarrow> served W (vc_sent c') response)"
  using assms
proof (induction W n rq c arbitrary: res c' rule: follow.induct)
  case (1 W n rq c)
  let ?h = "with_cookies W c rq"
  show ?case
  proof (rule one_hop_cases [of W rq c])
    fix e
    assume h: "one_hop W rq c = (Inl e, c\<lparr>vc_sent := vc_sent c @ [?h]\<rparr>)"
    with 1(2) have "res = Inl e" "c' = c\<lparr>vc_sent := vc_sent c @ [?h]\<rparr>" by (simp_all add: follow.simps)
    then show ?thesis by (intro exI [of _ "vc_jar c"] exI [of _ "[?h]"]) simp
  next
    fix r j
    let ?c = "c\<lparr>vc_jar := j, vc_sent := vc_sent c @ [?h]\<rparr>"
    assume h: "one_hop W rq c = (Inr r, ?c)" and s: "served W (vc_sent c @ [?h]) (answered rq r)"
    show ?thesis
    proof (cases "hr_status r \<in> {301, 302, 303} \<and> n < MAX_REDIRECTS \<and> Option.bind (hr_location r) (wb_join W (hp_url rq)) \<noteq> None")
      case False
      then have "follow W n rq c = (Inr (answered rq r), ?c)"
        using h by (auto simp: follow.simps [of W n] split: option.split)
      then have "res = Inr (answered rq r)" "c' = ?c" using 1(2) by simp_all
      then show ?thesis using s by (intro exI [of _ j] exI [of _ "[?h]"]) simp
    next
      case True
      then obtain next' where n: "Option.bind (hr_location r) (wb_join W (hp_url rq)) = Some next'" by auto
      have f: "follow W n rq c = follow W (n + 1) (get_request next') ?c"
        using h True n by (simp add: follow.simps [of W n])
      have "follow W (n + 1) (get_request next') ?c = (res, c')" using 1(2) f by simp
      from 1(1) [OF h [symmetric] refl _ n this] True obtain j' hs where
        ih: "c' = ?c\<lparr>vc_jar := j', vc_sent := vc_sent ?c @ hs\<rparr>" "hs \<noteq> []" "length hs \<le> MAX_REDIRECTS - (n + 1) + 1"
          "hd hs = with_cookies W ?c (get_request next')"
          "\<forall>h \<in> set (tl hs). \<not> hp_post h \<and> hp_body h = NoBody \<and> hp_headers h = []"
          "\<forall>response. res = Inr response \<longrightarrow> served W (vc_sent c') response"
        by auto
      have "\<forall>h \<in> set hs. \<not> hp_post h \<and> hp_body h = NoBody \<and> hp_headers h = []"
        using ih(2,4,5) by (cases hs) (auto simp: get_request_def)
      moreover have "length (?h # hs) \<le> MAX_REDIRECTS - n + 1"
        using ih(3) conjunct1 [OF conjunct2 [OF True]] unfolding list.size by linarith
      ultimately show ?thesis using ih(1,6)
        by (intro exI [of _ j'] exI [of _ "?h # hs"]) simp
    qed
  qed
qed

text \<open>The weakest precondition of a request: any jar, any such requests, any answer to them.\<close>

lemma send_request_hops:
  assumes "send_request W rq c = (res, c')"
  shows "\<exists>j hs. c' = c\<lparr>vc_jar := j, vc_sent := vc_sent c @ hs\<rparr> \<and> hops_of W c rq hs \<and>
    (\<forall>response. res = Inr response \<longrightarrow> hs \<noteq> [] \<and> served W (vc_sent c') response)"
proof (cases "wb_url W (hp_url rq)")
  case None
  then show ?thesis using assms
    by (intro exI [of _ "vc_jar c"] exI [of _ "[]"]) (auto simp: send_request_def hops_of_def)
next
  case (Some url)
  then have "follow W 0 (rq\<lparr>hp_url := url\<rparr>) c = (res, c')" using assms by (simp add: send_request_def)
  from follow_hops [OF this] obtain j hs where
    h: "c' = c\<lparr>vc_jar := j, vc_sent := vc_sent c @ hs\<rparr>" "hs \<noteq> []" "length hs \<le> MAX_REDIRECTS + 1"
      "hd hs = with_cookies W c (rq\<lparr>hp_url := url\<rparr>)"
      "\<forall>h \<in> set (tl hs). \<not> hp_post h \<and> hp_body h = NoBody \<and> hp_headers h = []"
      "\<forall>response. res = Inr response \<longrightarrow> served W (vc_sent c') response" by auto
  then show ?thesis using Some by (intro exI [of _ j] exI [of _ hs]) (auto simp: hops_of_def)
qed

lemma wp_send_with:
  assumes "\<And>res j hs. hops_of W c rq hs \<Longrightarrow>
    (\<And>response. res = Inr response \<Longrightarrow> hs \<noteq> [] \<and> served W (vc_sent c @ hs) response) \<Longrightarrow>
    wp (f res) Q (c\<lparr>vc_jar := j, vc_sent := vc_sent c @ hs\<rparr>)"
  shows "wp (send_with W rq f) Q c"
proof -
  obtain res c' where s: "send_request W rq c = (res, c')" by (cases "send_request W rq c") auto
  from send_request_hops [OF this] obtain j hs where "c' = c\<lparr>vc_jar := j, vc_sent := vc_sent c @ hs\<rparr>"
      "hops_of W c rq hs" "\<forall>response. res = Inr response \<longrightarrow> hs \<noteq> [] \<and> served W (vc_sent c') response" by blast
  then have "wp (f res) Q c'" using assms [of hs res j] by simp
  then show ?thesis using s by (simp add: wp_def send_with_def)
qed

lemma wp_send_or_fail:
  assumes "\<And>e j hs. hops_of W c rq hs \<Longrightarrow> Q (Inl (send_error e)) (c\<lparr>vc_jar := j, vc_sent := vc_sent c @ hs\<rparr>)"
    and "\<And>response j hs. hops_of W c rq hs \<Longrightarrow> hs \<noteq> [] \<Longrightarrow> served W (vc_sent c @ hs) response \<Longrightarrow>
      wp (f response) Q (c\<lparr>vc_jar := j, vc_sent := vc_sent c @ hs\<rparr>)"
  shows "wp (send_or_fail W rq f) Q c"
  unfolding send_or_fail_def
proof (rule wp_send_with)
  fix res :: "SendError + Response" and j hs
  assume h: "hops_of W c rq hs" and r: "\<And>response. res = Inr response \<Longrightarrow> hs \<noteq> [] \<and> served W (vc_sent c @ hs) response"
  show "wp (case res of Inl e \<Rightarrow> fail (send_error e) | Inr response \<Rightarrow> f response) Q
      (c\<lparr>vc_jar := j, vc_sent := vc_sent c @ hs\<rparr>)"
    using assms(1) [OF h] assms(2) [OF h] r by (cases res) (simp_all add: wp_simps)
qed

lemma wp_text_or_fail [wp_simps]:
  "wp (text_or_fail W response f) Q c =
     (case rs_body response of None \<Rightarrow> Q (Inl NetworkError) c | Some b \<Rightarrow> wp (f (wb_decode W b)) Q c)"
  by (simp add: text_or_fail_def wp_simps split: option.split)

lemma wp_now_unix [wp_simps]:
  "wp (now_unix W f) Q c = wp (f (wb_clock W (vc_ticks c))) Q (c\<lparr>vc_ticks := vc_ticks c + 1\<rparr>)"
  by (simp add: wp_def now_unix_def)

subsection \<open>How much is sent\<close>

text \<open>
  At most so many requests, whatever the client and the world are; and the clocks are not turned
  back.
\<close>

definition sends :: "nat \<Rightarrow> ('j VtopClient, 'a) act \<Rightarrow> bool" where
  "sends n m \<longleftrightarrow> (\<forall>c. length (vc_sent (snd (m c))) \<le> length (vc_sent c) + n * (MAX_REDIRECTS + 1) \<and>
     vc_ticks c \<le> vc_ticks (snd (m c)))"

named_theorems sends_intros

lemma sendsD:
  assumes "sends n m" "m c = (r, c')"
  shows "length (vc_sent c') \<le> length (vc_sent c) + n * (MAX_REDIRECTS + 1)" "vc_ticks c \<le> vc_ticks c'"
  using assms unfolding sends_def by (metis snd_conv)+

lemma sendsI:
  "(\<And>c r c'. m c = (r, c') \<Longrightarrow> length (vc_sent c') \<le> length (vc_sent c) + n * (MAX_REDIRECTS + 1) \<and>
     vc_ticks c \<le> vc_ticks c') \<Longrightarrow> sends n m"
  unfolding sends_def by (metis prod.collapse)

lemma sends_mono:
  assumes "sends n m" "n \<le> n'" shows "sends n' m"
proof (rule sendsI)
  fix c r c'
  assume "m c = (r, c')"
  from sendsD [OF assms(1) this] mult_le_mono1 [OF assms(2), of "MAX_REDIRECTS + 1"]
  show "length (vc_sent c') \<le> length (vc_sent c) + n' * (MAX_REDIRECTS + 1) \<and> vc_ticks c \<le> vc_ticks c'" by linarith
qed

lemma sends_ret [sends_intros]: "sends n (ret x)"
  and sends_fail [sends_intros]: "sends n (fail e)"
  and sends_from_result [sends_intros]: "sends n (from_result r)"
  and sends_or_fail [sends_intros]: "sends n (or_fail e x')"
  by (auto simp: sends_def ret_def fail_def from_result_def or_fail_def split: option.split)

lemma sends_match:
  assumes "sends a m" and "\<And>r. sends b (f r)" shows "sends (a + b) (match m f)"
proof (rule sendsI)
  fix c r c'
  assume m: "match m f c = (r, c')"
  obtain r1 c1 where 1: "m c = (r1, c1)" by (cases "m c")
  then have "f r1 c1 = (r, c')" using m by (simp add: match_def)
  from sendsD [OF assms(1) 1] sendsD [OF assms(2) this]
  show "length (vc_sent c') \<le> length (vc_sent c) + (a + b) * (MAX_REDIRECTS + 1) \<and> vc_ticks c \<le> vc_ticks c'"
    unfolding add_mult_distrib by linarith
qed

lemma andthen_match: "andthen m f = match m (\<lambda>r. case r of Inl e \<Rightarrow> fail e | Inr x \<Rightarrow> f x)"
  by (auto simp: andthen_def match_def fail_def split: prod.split sum.split)

lemma sends_andthen:
  assumes "sends a m" and "\<And>x. sends b (f x)" shows "sends (a + b) (andthen m f)"
  unfolding andthen_match
proof (rule sends_match [OF assms(1)])
  fix r
  show "sends b (case r of Inl e \<Rightarrow> fail e | Inr x \<Rightarrow> f x)"
    using assms(2) sends_fail by (cases r) auto
qed

lemma sends_quiet [sends_intros]:
  "(\<And>x. sends n (f x)) \<Longrightarrow> sends n (andthen (or_fail e x') f)"
  "(\<And>x. sends n (f x)) \<Longrightarrow> sends n (andthen (from_result r) f)"
  using sends_andthen [OF sends_or_fail [of 0]] sends_andthen [OF sends_from_result [of 0]] by (metis add_0)+

lemma sends_reading [sends_intros]: "(\<And>x. sends n (f x)) \<Longrightarrow> sends n (reading g f)"
  by (simp add: sends_def reading_def)

lemma sends_change [sends_intros]: "(\<And>c. vc_sent (h c) = vc_sent c \<and> vc_ticks (h c) = vc_ticks c) \<Longrightarrow> sends n m \<Longrightarrow> sends n (change h m)"
  unfolding sends_def change_def by metis

lemma sends_now_unix [sends_intros]:
  assumes "\<And>t. sends n (f t)" shows "sends n (now_unix W f)"
proof (rule sendsI)
  fix c r c'
  assume "now_unix W f c = (r, c')"
  then have "f (wb_clock W (vc_ticks c)) (c\<lparr>vc_ticks := vc_ticks c + 1\<rparr>) = (r, c')" by (simp add: now_unix_def)
  from sendsD [OF assms this]
  show "length (vc_sent c') \<le> length (vc_sent c) + n * (MAX_REDIRECTS + 1) \<and> vc_ticks c \<le> vc_ticks c'" by simp
qed

lemma sends_text_or_fail [sends_intros]: "(\<And>x. sends n (f x)) \<Longrightarrow> sends n (text_or_fail W response f)"
  using sends_fail by (auto simp: text_or_fail_def split: option.split)

lemma sends_send_with [sends_intros]:
  assumes "\<And>res. sends n (f res)" shows "sends (Suc n) (send_with W rq f)"
proof (rule sendsI)
  fix c r c'
  assume s: "send_with W rq f c = (r, c')"
  obtain res c1 where 1: "send_request W rq c = (res, c1)" by (cases "send_request W rq c")
  from send_request_hops [OF this]
  have "length (vc_sent c1) \<le> length (vc_sent c) + (MAX_REDIRECTS + 1) \<and> vc_ticks c1 = vc_ticks c"
    by (auto simp: hops_of_def)
  moreover have "f res c1 = (r, c')" using s 1 by (simp add: send_with_def)
  note sendsD [OF assms this]
  ultimately show "length (vc_sent c') \<le> length (vc_sent c) + Suc n * (MAX_REDIRECTS + 1) \<and> vc_ticks c \<le> vc_ticks c'"
    unfolding mult_Suc by linarith
qed

lemma sends_send_or_fail [sends_intros]:
  assumes "\<And>response. sends n (f response)" shows "sends (Suc n) (send_or_fail W rq f)"
  unfolding send_or_fail_def
proof (rule sends_send_with)
  fix res :: "SendError + Response"
  show "sends n (case res of Inl e \<Rightarrow> fail (send_error e) | Inr response \<Rightarrow> f response)"
    using assms sends_fail by (cases res) auto
qed

lemma sends_if [sends_intros]: "sends n m \<Longrightarrow> sends n m' \<Longrightarrow> sends n (if b then m else m')"
  by simp

end
