(* ===== verification/LoginProps.thy ===== *)
theory LoginProps
  imports ClientFacts
begin

section \<open>What the sign-in keeps and proves\<close>

text \<open>How many requests a sign-in sends, and what the changes to the client leave alone.\<close>

lemma on_session_fields [simp]:
  "vc_session (on_session f c) = f (vc_session c)" "vc_sent (on_session f c) = vc_sent c"
  "vc_base_url (on_session f c) = vc_base_url c" "vc_auth_stage (on_session f c) = vc_auth_stage c"
  "vc_credentials (on_session f c) = vc_credentials c" "vc_jar (on_session f c) = vc_jar c"
  "vc_logged_in_at (on_session f c) = vc_logged_in_at c" "vc_ticks (on_session f c) = vc_ticks c"
  by (simp_all add: on_session_def)

lemma reset_fields [simp]:
  "vc_session (reset_session_state W c) = session_clear (vc_session c)"
  "vc_sent (reset_session_state W c) = vc_sent c" "vc_base_url (reset_session_state W c) = vc_base_url c"
  "vc_auth_stage (reset_session_state W c) = Idle" "vc_credentials (reset_session_state W c) = vc_credentials c"
  "vc_logged_in_at (reset_session_state W c) = None" "vc_ticks (reset_session_state W c) = vc_ticks c"
  by (simp_all add: reset_session_state_def)

lemma mark_session_expired_eq [simp]: "mark_session_expired W c = reset_session_state W c"
  by (simp add: mark_session_expired_def)

lemma begin_auth_flow_fields [simp]:
  "vc_session (begin_auth_flow c) = vc_session c" "vc_sent (begin_auth_flow c) = vc_sent c"
  "vc_ticks (begin_auth_flow c) = vc_ticks c" "vc_base_url (begin_auth_flow c) = vc_base_url c" "vc_auth_stage (begin_auth_flow c) = LoggingIn"
  by (simp_all add: begin_auth_flow_def)

subsection \<open>The number of requests\<close>

lemma sends_check [sends_intros]: "sends (Suc n) (check_authenticated_session W b)"
  unfolding check_authenticated_session_def Let_def split_beta by (intro sends_intros) simp_all

lemma sends_validate [sends_intros]: "sends (Suc n) (validate_authenticated_session W)"
  unfolding validate_authenticated_session_def by (rule sends_check)

lemma sends_try_restore: "sends 1 (try_restore_existing_session W)"
proof -
  have "sends (1 + 0) (try_restore_existing_session W)"
    unfolding try_restore_existing_session_def One_nat_def
    by (intro sends_match sends_intros) simp_all
  then show ?thesis by simp
qed

lemma sends_perform_login: "sends 1 (perform_login W cr a)"
  unfolding perform_login_def Let_def split_beta One_nat_def
  by (intro sends_intros) (simp_all split: option.split)

lemma sends_finish_login [sends_intros]: "sends n (finish_login W)" "sends n (finish_otp W)"
  unfolding finish_login_def finish_otp_def by (intro sends_intros; simp)+

lemma sends_load_captcha: "sends n (load_captcha W rq n)"
  by (induction n) (auto intro!: sends_intros)

lemma sends_load_login_page: "sends (of_bool first + 20) (load_login_page W first)"
proof -
  have "sends 1 (open_session W)"
  proof -
    have "sends 1 (load_initial_page W)"
      unfolding load_initial_page_def One_nat_def by (intro sends_intros)
    moreover have "sends 0 (andthen (or_fail (no_token_error l) (extract_csrf_token W l)) (\<lambda>csrf. change (on_session (set_csrf_token csrf)) (ret ())))" for l
      by (intro sends_intros) simp
    ultimately have "sends (1 + 0) (open_session W)" unfolding open_session_def by (rule sends_andthen)
    then show ?thesis by simp
  qed
  then have 1: "sends (of_bool first) (if first then open_session W else ret ())"
    by (cases first) (auto intro: sends_ret)
  have 2: "sends 20 (reading (\<lambda>c. sm_csrf_token (vc_session c)) (\<lambda>token.
     andthen (or_fail missing_csrf_error token) (\<lambda>csrf.
     reading (\<lambda>c. post_request (config_url c ''/vtop/prelogin/setup'') (Raw (''_csrf='' @ csrf @ ''&flag=VTOP'')))
       (\<lambda>rq. load_captcha W rq MAX_PRELOGIN_RELOADS))))"
    unfolding MAX_PRELOGIN_RELOADS_def by (intro sends_intros sends_load_captcha)
  show ?thesis unfolding load_login_page_def by (rule sends_andthen [OF 1 2])
qed

lemma sends_login_attempts: "sends (of_bool first + 21 * n) (login_attempts W cr first n)"
proof (induction n arbitrary: first)
  case 0
  show ?case by (simp add: sends_fail)
next
  case (Suc n)
  have a: "sends (21 * n) (case r of Inr x \<Rightarrow> finish_login W
      | Inl e \<Rightarrow> if captcha_rejected e then login_attempts W cr False n else fail e)" for r :: "VtopError + unit"
    using Suc [of False] by (auto intro!: sends_intros split: sum.split)
  have "sends (1 + 21 * n) (andthen (from_result (solve_captcha W d)) (\<lambda>captcha_answer.
      match (perform_login W cr captcha_answer) (\<lambda>r. case r of Inr x \<Rightarrow> finish_login W
      | Inl e \<Rightarrow> if captcha_rejected e then login_attempts W cr False n else fail e)))" for d
    by (intro sends_quiet sends_match sends_perform_login a)
  from sends_andthen [OF sends_load_login_page this, of first] show ?case
    by (simp add: algebra_simps)
qed

lemma sends_login: "sends 842 (login W)"
proof -
  let ?a = "\<lambda>cr. login_attempts W cr True MAX_CAPTCHA_ATTEMPTS"
  have a: "sends 841 (?a cr)" for cr
    using sends_login_attempts [of True 40 W cr] by (simp add: MAX_CAPTCHA_ATTEMPTS_def)
  have "sends (1 + 841) (match (try_restore_existing_session W) (\<lambda>r.
      if r = Inr True then change (\<lambda>c. c\<lparr>vc_auth_stage := Idle\<rparr>) (ret ()) else ?a cr))" for cr
    by (intro sends_match sends_try_restore sends_if a sends_intros) simp
  then show ?thesis unfolding login_def
    by (intro sends_reading sends_quiet sends_change sends_if sends_mono [OF a]) simp_all
qed

end
