(* ===== verification/SignIn.thy ===== *)
theory SignIn
  imports LoginProps
begin

section \<open>What a signed-in client rests on\<close>

subsection \<open>Pages of a session\<close>

text \<open>The last answer was a session page with this token and registration number.\<close>

definition session_page :: "'j web \<Rightarrow> HopRequest list \<Rightarrow> string \<Rightarrow> string \<Rightarrow> bool" where
  "session_page W sent csrf n \<longleftrightarrow> (\<exists>response b number. served W sent response \<and> rs_body response = Some b \<and>
     extract_session_fields W (wb_decode W b) = (Some csrf, Some number) \<and> RegistrationNumber_parse number = Inr n)"

text \<open>Some answer so far was a page with this registration number.\<close>

definition page_number :: "'j web \<Rightarrow> HopRequest list \<Rightarrow> string \<Rightarrow> bool" where
  "page_number W sent n \<longleftrightarrow> (\<exists>k \<le> length sent. \<exists>response b number. served W (take k sent) response \<and>
     rs_body response = Some b \<and> snd (extract_session_fields W (wb_decode W b)) = Some number \<and>
     RegistrationNumber_parse number = Inr n)"

lemma page_number_append: "page_number W sent n \<Longrightarrow> page_number W (sent @ hs) n"
  unfolding page_number_def
proof (elim exE conjE)
  fix k response b number
  assume "k \<le> length sent" "served W (take k sent) response" "rs_body response = Some b"
    "snd (extract_session_fields W (wb_decode W b)) = Some number" "RegistrationNumber_parse number = Inr n"
  then show "\<exists>k \<le> length (sent @ hs). \<exists>response b number. served W (take k (sent @ hs)) response \<and>
     rs_body response = Some b \<and> snd (extract_session_fields W (wb_decode W b)) = Some number \<and>
     RegistrationNumber_parse number = Inr n"
    by (intro exI [of _ k]) auto
qed

lemma page_numberI:
  assumes "served W sent response" "rs_body response = Some b"
    "snd (extract_session_fields W (wb_decode W b)) = Some number" "RegistrationNumber_parse number = Inr n"
  shows "page_number W sent n"
  unfolding page_number_def using assms by (intro exI [of _ "length sent"]) auto

lemma session_page_number: "session_page W sent csrf n \<Longrightarrow> page_number W sent n"
  by (auto simp: session_page_def intro: page_numberI)

text \<open>What a signed-in page makes of the session.\<close>

definition signed_in :: "string \<Rightarrow> string \<Rightarrow> SessionManager \<Rightarrow> SessionManager" where
  "signed_in csrf n s = set_authenticated True (set_registration_number n (set_csrf_token csrf s))"

lemma signed_in_state [simp]:
  "sm_csrf_token (signed_in csrf n s) = Some csrf" "sm_is_authenticated (signed_in csrf n s)"
  "\<not> is_cookie_external (signed_in csrf n s)" "sm_registration_number (signed_in csrf n s) = Some n"
  "sm_external_cookie_header (signed_in csrf n s) = sm_external_cookie_header s"
  by (simp_all add: signed_in_def)

subsection \<open>The steps, by what they may leave behind\<close>

text \<open>
  A request that carries anything goes to VTOP itself, under the client's own address.  \<open>after\<close> is
  a client that has sent such requests and is otherwise the same.
\<close>

definition home :: "'j web \<Rightarrow> string \<Rightarrow> HopRequest \<Rightarrow> bool" where
  "home W base h \<longleftrightarrow> hp_body h = NoBody \<or> (\<exists>path. wb_url W (base @ ''/vtop/'' @ path) = Some (hp_url h))"

definition after :: "'j web \<Rightarrow> 'j VtopClient \<Rightarrow> 'j VtopClient \<Rightarrow> bool" where
  "after W c c1 \<longleftrightarrow> (\<exists>j hs t. c1 = c\<lparr>vc_jar := j, vc_sent := vc_sent c @ hs, vc_ticks := t\<rparr> \<and> vc_ticks c \<le> t \<and>
     (\<forall>h \<in> set hs. home W (vc_base_url c) h))"

lemma afterI:
  "c1 = c\<lparr>vc_jar := j, vc_sent := vc_sent c @ hs, vc_ticks := t\<rparr> \<Longrightarrow> vc_ticks c \<le> t \<Longrightarrow>
   \<forall>h \<in> set hs. home W (vc_base_url c) h \<Longrightarrow> after W c c1"
  unfolding after_def by blast

lemma after_refl [simp]: "after W c c"
  by (rule afterI [where j = "vc_jar c" and hs = "[]" and t = "vc_ticks c"]) simp_all

lemma after_tick: "after W (c\<lparr>vc_ticks := vc_ticks c + 1\<rparr>) c1 \<Longrightarrow> after W c c1"
proof -
  assume "after W (c\<lparr>vc_ticks := vc_ticks c + 1\<rparr>) c1"
  then obtain j hs t where "c1 = c\<lparr>vc_jar := j, vc_sent := vc_sent c @ hs, vc_ticks := t\<rparr>" "vc_ticks c + 1 \<le> t"
      "\<forall>h \<in> set hs. home W (vc_base_url c) h"
    by (auto simp: after_def)
  then show "after W c c1" by (intro afterI [where j = j and hs = hs and t = t]) simp_all
qed

lemma after_fields:
  assumes "after W c c1"
  shows "vc_session c1 = vc_session c" "vc_base_url c1 = vc_base_url c" "vc_auth_stage c1 = vc_auth_stage c"
    "vc_credentials c1 = vc_credentials c" "vc_logged_in_at c1 = vc_logged_in_at c" "vc_ticks c \<le> vc_ticks c1"
    "\<exists>hs. vc_sent c1 = vc_sent c @ hs \<and> (\<forall>h \<in> set hs. home W (vc_base_url c) h)"
  using assms by (auto simp: after_def)

text \<open>A request without a body, or one under the client's address.\<close>

definition own_request :: "'j VtopClient \<Rightarrow> HopRequest \<Rightarrow> bool" where
  "own_request c rq \<longleftrightarrow> hp_body rq = NoBody \<or> (\<exists>path. hp_url rq = vc_base_url c @ ''/vtop/'' @ path)"

lemma hops_home:
  assumes "hops_of W c rq hs" "own_request c rq"
  shows "\<forall>h \<in> set hs. home W (vc_base_url c) h"
proof
  fix h
  assume h: "h \<in> set hs"
  then obtain h0 hs' where hs: "hs = h0 # hs'" by (cases hs) auto
  then obtain url where u: "wb_url W (hp_url rq) = Some url" "h0 = with_cookies W c (rq\<lparr>hp_url := url\<rparr>)"
    using assms(1) by (auto simp: hops_of_def)
  show "home W (vc_base_url c) h"
  proof (cases "h = h0")
    case True
    then show ?thesis using u assms(2) by (auto simp: home_def own_request_def)
  next
    case False
    then show ?thesis using h hs assms(1) by (auto simp: hops_of_def home_def)
  qed
qed

lemma after_hops:
  assumes "hops_of W c rq hs" "own_request c rq"
  shows "after W c (c\<lparr>vc_jar := j, vc_sent := vc_sent c @ hs\<rparr>)"
  using hops_home [OF assms] by (intro afterI [where j = j and hs = hs and t = "vc_ticks c"]) simp_all

lemma wp_request:
  assumes "own_request c rq"
    and "\<And>e c1. after W c c1 \<Longrightarrow> Q (Inl (send_error e)) c1"
    and "\<And>response c1. after W c c1 \<Longrightarrow> served W (vc_sent c1) response \<Longrightarrow> wp (f response) Q c1"
  shows "wp (send_or_fail W rq f) Q c"
  by (rule wp_send_or_fail) (use assms(2,3) after_hops [OF _ assms(1)] in auto)

lemma wp_request_any:
  assumes "own_request c rq"
    and "\<And>res c1. after W c c1 \<Longrightarrow> (\<And>response. res = Inr response \<Longrightarrow> served W (vc_sent c1) response) \<Longrightarrow> wp (f res) Q c1"
  shows "wp (send_with W rq f) Q c"
  by (rule wp_send_with) (use assms(2) after_hops [OF _ assms(1)] in auto)

lemma own_get [simp]: "own_request c (get_request url)" "own_request c ((get_request url)\<lparr>hp_cookie := k\<rparr>)"
  "own_request c ((get_request url)\<lparr>hp_headers := k'\<rparr>)"
  by (simp_all add: own_request_def get_request_def)

lemma own_post:
  "prefix ''/vtop/'' path \<Longrightarrow> own_request c (post_request (config_url c path) b)"
  "prefix ''/vtop/'' path \<Longrightarrow> own_request c (otp_request c path form)"
  by (auto simp: own_request_def post_request_def otp_request_def config_url_def prefix_def)

subsection \<open>Checking the session\<close>

lemma wp_check:
  assumes "\<And>e c1. after W c c1 \<Longrightarrow> Q (Inl e) c1"
    and "\<And>c1. after W c c1 \<Longrightarrow> Q (Inr False) (reset_session_state W c1)"
    and "\<And>c1 csrf n. after W c c1 \<Longrightarrow> session_page W (vc_sent c1) csrf n \<Longrightarrow>
      Q (Inr True) (on_session (signed_in csrf n) c1)"
  shows "wp (check_authenticated_session W b) Q c"
  unfolding check_authenticated_session_def wp_reading
proof (rule wp_request)
  fix response c1
  assume a: "after W c c1" and s: "served W (vc_sent c1) response"
  have T: "Q (Inr True) (on_session (set_authenticated True) (on_session (set_registration_number n)
      (on_session (set_csrf_token csrf) c1)))"
    if "rs_body response = Some b" "extract_session_fields W (wb_decode W b) = (Some csrf, Some number)"
      "RegistrationNumber_parse number = Inr n" for b csrf number n
  proof -
    have "session_page W (vc_sent c1) csrf n" using s that unfolding session_page_def by blast
    from assms(3) [OF a this] show ?thesis by (simp add: on_session_def signed_in_def)
  qed
  show "wp (let final_url = rs_url response; status = rs_status response
       in if b \<and> is_server_error status \<and> \<not> is_login_url W final_url then
            fail (status_error ''validate_authenticated_session'' status (''HTTP '' @ wb_status_text W status))
          else if is_login_url W final_url \<or> \<not> is_success status then change (mark_session_expired W) (ret False)
          else text_or_fail W response (\<lambda>content.
              let (csrf, registration_number) = extract_session_fields W content
              in andthen (or_fail (ParseError ''VTOP's session page was missing its token'') csrf) (\<lambda>csrf.
                 andthen (or_fail RegistrationParsingError registration_number) (\<lambda>number.
                 andthen (from_result (RegistrationNumber_parse number)) (\<lambda>number.
                 change (on_session (set_csrf_token csrf))
                 (change (on_session (set_registration_number number))
                 (change (on_session (set_authenticated True)) (ret True))))))))
      Q c1"
    using assms(1) [OF a] assms(2) [OF a] T
    by (auto simp: Let_def wp_simps split: option.split sum.split prod.split)
qed (use assms(1) in simp_all)

lemma wp_validate:
  assumes "\<And>e c1. after W c c1 \<Longrightarrow> Q (Inl e) c1"
    and "\<And>c1. after W c c1 \<Longrightarrow> Q (Inr False) (reset_session_state W c1)"
    and "\<And>c1 csrf n. after W c c1 \<Longrightarrow> session_page W (vc_sent c1) csrf n \<Longrightarrow>
      Q (Inr True) (on_session (signed_in csrf n) c1)"
  shows "wp (validate_authenticated_session W) Q c"
  unfolding validate_authenticated_session_def using assms by (rule wp_check)

lemma reset_twice [simp]: "reset_session_state W (reset_session_state W c) = reset_session_state W c"
  by (simp add: reset_session_state_def session_clear_def)

lemma wp_try_restore:
  assumes "\<And>c1. after W c c1 \<Longrightarrow> Q (Inr False) (reset_session_state W c1)"
    and "\<And>c1 csrf n. after W c c1 \<Longrightarrow> session_page W (vc_sent c1) csrf n \<Longrightarrow>
      Q (Inr True) (on_session (set_cookie_external False) (on_session (signed_in csrf n) c1))"
  shows "wp (try_restore_existing_session W) Q c"
  unfolding try_restore_existing_session_def wp_match
  by (rule wp_validate) (use assms in \<open>simp_all add: wp_simps\<close>)

lemma wp_ensure:
  assumes "has_usable_session c \<Longrightarrow> Q (Inr True) c" and "Q (Inr False) c"
    and "\<And>e c1. after W c c1 \<Longrightarrow> Q (Inl e) c1"
    and "\<And>c1. after W c c1 \<Longrightarrow> Q (Inr False) (reset_session_state W c1)"
    and "\<And>c1 csrf n. after W c c1 \<Longrightarrow> session_page W (vc_sent c1) csrf n \<Longrightarrow>
      Q (Inr True) (on_session (signed_in csrf n) c1)"
    and "\<And>c1 csrf n. after W c c1 \<Longrightarrow> session_page W (vc_sent c1) csrf n \<Longrightarrow>
      Q (Inr True) (on_session (set_cookie_external False) (on_session (signed_in csrf n) c1))"
  shows "wp (ensure_authenticated_session W) Q c"
  unfolding ensure_authenticated_session_def wp_reading
  using assms by (auto simp: wp_simps intro!: wp_validate wp_try_restore)

subsection \<open>Signing in\<close>

lemma wp_finish:
  assumes "\<And>t. Q (Inr ()) ((on_session (set_cookie_external False) (on_session (set_authenticated True) c))
      \<lparr>vc_auth_stage := Idle, vc_ticks := vc_ticks c + 1, vc_logged_in_at := Some t\<rparr>)"
  shows "wp (finish_login W) Q c" "wp (finish_otp W) Q c"
  using assms by (simp_all add: finish_login_def finish_otp_def wp_simps)

lemma wp_perform_login:
  assumes "\<And>e c1. after W c c1 \<Longrightarrow> (\<forall>m t. e \<noteq> OTPRequired m t) \<Longrightarrow> Q (Inl e) c1"
    and "\<And>c1 t f. after W c c1 \<Longrightarrow> f = id \<or> (\<exists>csrf. f = set_csrf_token csrf) \<Longrightarrow> sm_csrf_token (vc_session c) \<noteq> None \<Longrightarrow>
      Q (Inl (OTPRequired ''Additional verification is required.'' t)) ((on_session f c1)\<lparr>vc_auth_stage := AwaitingOtp t\<rparr>)"
    and "\<And>c1 csrf n. after W c c1 \<Longrightarrow> session_page W (vc_sent c1) csrf n \<Longrightarrow>
      Q (Inr ()) (on_session (set_registration_number n) (on_session (set_csrf_token csrf) c1))"
  shows "wp (perform_login W cr a) Q c"
proof (cases "sm_csrf_token (vc_session c)")
  case None
  then show ?thesis using assms(1) [of c missing_csrf_error]
    by (simp add: perform_login_def wp_simps missing_csrf_error_def)
next
  case (Some token)
  let ?c = "c\<lparr>vc_ticks := vc_ticks c + 1\<rparr>"
  have own: "own_request ?c (post_request (config_url c ''/vtop/login'') b)" for b
    using own_post(1) [of "''/vtop/login''" ?c b] by (simp add: config_url_def prefix_def)
  have err: "\<forall>m t. send_error e \<noteq> OTPRequired m t" for e
    by (simp add: send_error_def slow_vtop_error_def unavailable_def)
  show ?thesis
    unfolding perform_login_def wp_reading Some wp_andthen wp_or_fail option.case sum.case Let_def wp_now_unix
  proof (rule wp_request [OF own], goal_cases)
    case (1 e c1)
    then show ?case using assms(1) [OF after_tick [OF 1] err] by simp
  next
    case (2 response c1)
    note a = after_tick [OF 2(1)]
    have T: "Q (Inr ()) (on_session (set_registration_number n) (on_session (set_csrf_token csrf) c1))"
      if "rs_body response = Some b" "extract_session_fields W (wb_decode W b) = (Some csrf, Some number)"
        "RegistrationNumber_parse number = Inr n" for b csrf number n
      using that 2(2) by (intro assms(3) [OF a]) (auto simp: session_page_def)
    have "on_session id c1 = c1" by (simp add: on_session_def)
    then have O1: "Q (Inl (OTPRequired ''Additional verification is required.'' t)) (c1\<lparr>vc_auth_stage := AwaitingOtp t\<rparr>)" for t
      using assms(2) [OF a, of id] Some by simp
    have O2: "Q (Inl (OTPRequired ''Additional verification is required.'' t))
        ((on_session (set_csrf_token k) c1)\<lparr>vc_auth_stage := AwaitingOtp t\<rparr>)" for t k
      using assms(2) [OF a, of "set_csrf_token k"] Some by auto
    have R: "e = RegistrationParsingError" if "RegistrationNumber_parse x = Inl e" for x e
      using that by (auto simp: RegistrationNumber_parse_def Let_def split: if_splits)
    show ?case
      using assms(1) [OF a] T O1 O2
      by (auto simp: wp_simps split: option.split sum.split prod.split dest!: R)
  qed
qed

subsection \<open>The invariant\<close>

text \<open>
  A signed-in session has its token and registration number, a restored one the cookies it came
  with; the number is one of those trusted from outside, \<open>T\<close>, or was on a page VTOP served; and
  every request that carries anything went to VTOP.
\<close>

definition client_inv :: "'j web \<Rightarrow> string set \<Rightarrow> string \<Rightarrow> 'j VtopClient \<Rightarrow> bool" where
  "client_inv W T base c \<longleftrightarrow> vc_base_url c = base \<and>
     (sm_is_authenticated (vc_session c) \<longrightarrow> sm_registration_number (vc_session c) \<noteq> None) \<and>
     (is_cookie_external (vc_session c) \<longrightarrow> sm_external_cookie_header (vc_session c) \<noteq> None) \<and>
     (\<forall>n. sm_registration_number (vc_session c) = Some n \<longrightarrow> n \<in> T \<or> page_number W (vc_sent c) n) \<and>
     (\<forall>h \<in> set (vc_sent c). home W base h)"

lemma inv_new [simp]: "client_inv W T base (client_new W base cr)"
  by (simp add: client_inv_def client_new_def)

lemma inv_after [intro]:
  assumes "client_inv W T base c" "after W c c1" shows "client_inv W T base c1"
proof -
  obtain hs where "vc_sent c1 = vc_sent c @ hs" "\<forall>h \<in> set hs. home W (vc_base_url c) h"
    using after_fields(7) [OF assms(2)] by blast
  then show ?thesis using assms(1) after_fields(1,2) [OF assms(2)] page_number_append [of W "vc_sent c" _ hs]
    by (auto simp: client_inv_def)
qed

lemma inv_reset [simp, intro]: "client_inv W T base c \<Longrightarrow> client_inv W T base (reset_session_state W c)"
  by (simp add: client_inv_def)

lemma inv_csrf [simp, intro]: "client_inv W T base c \<Longrightarrow> client_inv W T base (on_session (set_csrf_token t) c)"
  by (simp add: client_inv_def)

lemma inv_not_external [simp, intro]:
  "client_inv W T base c \<Longrightarrow> client_inv W T base (on_session (set_cookie_external False) c)"
  by (simp add: client_inv_def)

lemma inv_number [intro]:
  "client_inv W T base c \<Longrightarrow> n \<in> T \<or> page_number W (vc_sent c) n \<Longrightarrow>
   client_inv W T base (on_session (set_registration_number n) c)"
  by (auto simp: client_inv_def)

lemma inv_authenticated [intro]:
  "client_inv W T base c \<Longrightarrow> sm_registration_number (vc_session c) \<noteq> None \<Longrightarrow>
   client_inv W T base (on_session (set_authenticated True) c)"
  by (auto simp: client_inv_def)

lemma inv_signed_in [intro]:
  "client_inv W T base c \<Longrightarrow> session_page W (vc_sent c) csrf n \<Longrightarrow> client_inv W T base (on_session (signed_in csrf n) c)"
  by (auto simp: client_inv_def dest: session_page_number)

lemma inv_updates [simp]:
  "client_inv W T base (c\<lparr>vc_auth_stage := st\<rparr>) = client_inv W T base c"
  "client_inv W T base (c\<lparr>vc_logged_in_at := l\<rparr>) = client_inv W T base c"
  "client_inv W T base (c\<lparr>vc_ticks := k\<rparr>) = client_inv W T base c"
  "client_inv W T base (begin_auth_flow c) = client_inv W T base c"
  by (simp_all add: client_inv_def begin_auth_flow_def)

lemma inv_finish [intro]:
  "client_inv W T base c \<Longrightarrow> sm_registration_number (vc_session c) \<noteq> None \<Longrightarrow>
   client_inv W T base ((on_session (set_cookie_external False) (on_session (set_authenticated True) c))
      \<lparr>vc_auth_stage := Idle, vc_ticks := k, vc_logged_in_at := l\<rparr>)"
  by (simp add: inv_authenticated)

text \<open>What a client that signed in looks like, and one that waits for a code.\<close>

definition is_signed_in :: "'j web \<Rightarrow> 'j VtopClient \<Rightarrow> bool" where
  "is_signed_in W c \<longleftrightarrow> vc_auth_stage c = Idle \<and> (\<exists>csrf n. sm_state (vc_session c) = Authenticated csrf \<and>
     sm_registration_number (vc_session c) = Some n \<and> session_page W (vc_sent c) csrf n)"

definition awaits_otp :: "nat \<Rightarrow> 'j VtopClient \<Rightarrow> bool" where
  "awaits_otp t c \<longleftrightarrow> vc_auth_stage c = AwaitingOtp t \<and> sm_csrf_token (vc_session c) \<noteq> None"

lemma authenticated_state: "sm_is_authenticated s \<Longrightarrow> sm_csrf_token s = Some t \<Longrightarrow> sm_state s = Authenticated t"
  by (auto simp: session_defs split: AuthState.splits)

lemma is_signed_inI:
  "vc_auth_stage c = Idle \<Longrightarrow> sm_is_authenticated (vc_session c) \<Longrightarrow> sm_csrf_token (vc_session c) = Some csrf \<Longrightarrow>
   sm_registration_number (vc_session c) = Some n \<Longrightarrow> session_page W (vc_sent c) csrf n \<Longrightarrow> is_signed_in W c"
  unfolding is_signed_in_def using authenticated_state by blast

definition login_post :: "'j web \<Rightarrow> VtopError + unit \<Rightarrow> 'j VtopClient \<Rightarrow> bool" where
  "login_post W r c \<longleftrightarrow> (r = Inr () \<longrightarrow> is_signed_in W c) \<and> (\<forall>m t. r = Inl (OTPRequired m t) \<longrightarrow> awaits_otp t c)"

lemma status_error_not_otp [simp]: "status_error a b d \<noteq> OTPRequired m t" "send_error e \<noteq> OTPRequired m t"
  "no_token_error p \<noteq> OTPRequired m t" "missing_csrf_error \<noteq> OTPRequired m t" "exhausted \<noteq> OTPRequired m t"
  by (simp_all add: status_error_def send_error_def slow_vtop_error_def unavailable_def server_error_def
      no_token_error_def missing_csrf_error_def exhausted_def)

abbreviation quiet :: "'j web \<Rightarrow> string set \<Rightarrow> string \<Rightarrow> VtopError + 'a \<Rightarrow> 'j VtopClient \<Rightarrow> bool" where
  "quiet W T base r c \<equiv> client_inv W T base c \<and> (\<forall>m t. r \<noteq> Inl (OTPRequired m t))"

lemma quiet_load_captcha:
  assumes "client_inv W T base c" "own_request c rq" "hp_url rq = vc_base_url c @ p"
  shows "wp (load_captcha W rq n) (quiet W T base) c"
  using assms
proof (induction n arbitrary: c)
  case (Suc n)
  show ?case
  proof (simp only: load_captcha.simps, rule wp_request [OF Suc.prems(2)])
    fix response c1
    assume a: "after W c c1"
    have "client_inv W T base c1" using Suc.prems(1) a by blast
    moreover from this have "wp (load_captcha W rq n) (quiet W T base) c1"
      using Suc.prems(2,3) after_fields(2) [OF a] by (intro Suc.IH) (auto simp: own_request_def)
    ultimately show "wp (if \<not> is_success (rs_status response) then
         fail (status_error ''load_login_page'' (rs_status response)
           (''VTOP returned HTTP '' @ wb_status_text W (rs_status response) @ '' while preparing captcha''))
       else text_or_fail W response (\<lambda>page.
         if contains page ''base64,'' then or_fail CaptchaRequired (extract_captcha_data W page)
         else load_captcha W rq n)) (quiet W T base) c1"
      by (auto simp: wp_simps split: option.split)
  qed (use Suc.prems(1) in auto)
qed (simp add: wp_simps)

lemma quiet_load_login_page:
  assumes "client_inv W T base c"
  shows "wp (load_login_page W first) (quiet W T base) c"
proof -
  have rest: "wp (reading (\<lambda>c. sm_csrf_token (vc_session c)) (\<lambda>token.
      andthen (or_fail missing_csrf_error token) (\<lambda>csrf.
      reading (\<lambda>c. post_request (config_url c ''/vtop/prelogin/setup'') (Raw (''_csrf='' @ csrf @ ''&flag=VTOP'')))
       (\<lambda>rq. load_captcha W rq MAX_PRELOGIN_RELOADS)))) (quiet W T base) c1"
    if "client_inv W T base c1" for c1
    using that own_post(1) [of "''/vtop/prelogin/setup''" c1]
    by (auto simp: wp_simps prefix_def post_request_def config_url_def intro!: quiet_load_captcha split: option.split)
  have "wp (open_session W) (\<lambda>r c'. quiet W T base r c') c"
    unfolding open_session_def load_initial_page_def wp_andthen wp_reading
    by (rule wp_request) (use assms in \<open>auto simp: wp_simps split: option.split\<close>)
  then have "wp (if first then open_session W else ret ()) (\<lambda>r c'. quiet W T base r c') c"
    using assms by (simp add: wp_simps)
  then show ?thesis unfolding load_login_page_def wp_andthen
    by (rule wp_mono) (use rest in \<open>auto split: sum.split\<close>)
qed

lemma captcha_rejected_not_otp [simp]: "\<not> captcha_rejected (OTPRequired m t)"
  by (simp add: captcha_rejected_def)

lemma solve_captcha_not_otp [simp]: "solve_captcha W d \<noteq> Inl (OTPRequired m t)"
  by (cases "solve_data_url W d") (simp_all add: solve_captcha_def)

lemma inv_login_attempts:
  assumes "client_inv W T base c"
  shows "wp (login_attempts W cr first n) (\<lambda>r c'. client_inv W T base c' \<and> login_post W r c') c"
  using assms
proof (induction n arbitrary: c first)
  case 0
  then show ?case by (simp add: wp_simps login_post_def)
next
  case (Suc n)
  have p: "wp (perform_login W cr a) (\<lambda>r. wp (case r of Inr x \<Rightarrow> finish_login W
      | Inl e \<Rightarrow> if captcha_rejected e then login_attempts W cr False n else fail e)
      (\<lambda>r c'. client_inv W T base c' \<and> login_post W r c')) c1" if i: "client_inv W T base c1" for c1 a
  proof (rule wp_perform_login, goal_cases)
    case (1 e c2)
    then have "client_inv W T base c2" using i by blast
    then show ?case using 1(2) Suc.IH by (auto simp: wp_simps login_post_def)
  next
    case (2 c2 t f)
    have "client_inv W T base c2" using 2(1) i by blast
    then have "client_inv W T base (on_session f c2)" using 2(2) by (auto simp: on_session_def [of id])
    then show ?case using 2 after_fields(1) [OF 2(1)]
      by (auto simp: wp_simps login_post_def awaits_otp_def on_session_def)
  next
    case (3 c2 csrf n')
    then have "client_inv W T base (on_session (set_registration_number n') (on_session (set_csrf_token csrf) c2))"
      using i by (intro inv_number inv_csrf) (auto dest: session_page_number)
    then show ?case using 3(2)
      by (auto intro!: wp_finish inv_finish is_signed_inI [where csrf = csrf and n = n'] simp: login_post_def)
  qed
  show ?case
    unfolding login_attempts.simps wp_andthen
  proof (rule wp_mono [OF quiet_load_login_page [OF Suc.prems]], goal_cases)
    case (1 r c1)
    then show ?case using p [of c1] solve_captcha_not_otp [of W]
      by (auto simp: wp_from_result wp_match login_post_def split: sum.split)
  qed
qed

lemma inv_login:
  assumes "client_inv W T base c"
  shows "wp (login W) (\<lambda>r c'. client_inv W T base c' \<and> login_post W r c') c"
proof -
  let ?Q = "\<lambda>r c'. client_inv W T base c' \<and> login_post W r c'"
  have a: "wp (login_attempts W cr True MAX_CAPTCHA_ATTEMPTS) ?Q c1" if "client_inv W T base c1" for c1 cr
    using that by (rule inv_login_attempts)
  have r: "wp (match (try_restore_existing_session W) (\<lambda>r. if r = Inr True then change (\<lambda>c. c\<lparr>vc_auth_stage := Idle\<rparr>) (ret ())
           else login_attempts W cr True MAX_CAPTCHA_ATTEMPTS)) ?Q c1" if i: "client_inv W T base c1" for cr c1
    unfolding wp_match
  proof (rule wp_try_restore, goal_cases)
    case (1 c2)
    then have "client_inv W T base (reset_session_state W c2)" using i by blast
    then show ?case using a by simp
  next
    case (2 c2 csrf n)
    then have "client_inv W T base (on_session (signed_in csrf n) c2)" using i by blast
    then show ?case using 2(2)
      by (auto simp: wp_simps login_post_def intro!: is_signed_inI [where csrf = csrf and n = n])
  qed
  have "client_inv W T base (begin_auth_flow c)" using assms by simp
  then show ?thesis unfolding login_def
    using assms a r by (auto simp: wp_simps login_post_def no_credentials_def split: option.split)
qed

end
