(* ===== verification/OtpProps.thy ===== *)
theory OtpProps
  imports SignIn
begin

section \<open>What answering the challenge keeps and proves\<close>

text \<open>Bounds, and what holds after a code was submitted: the invariant, and who is signed in.\<close>

subsection \<open>The number of requests\<close>

lemma sends_store_page [sends_intros]: "sends n rest \<Longrightarrow> sends n (store_page W page rest)"
  unfolding store_page_def split_beta Let_def by (intro sends_intros) (simp_all split: option.split)

lemma sends_confirm: "sends 1 (confirm_otp W response page reply)"
proof -
  have "sends (1 + 0) (match (validate_authenticated_session W) (\<lambda>r. if r = Inr True then finish_otp W else fail e))" for e
    unfolding One_nat_def by (intro sends_match sends_intros)
  then have v: "sends 1 (match (validate_authenticated_session W) (\<lambda>r. if r = Inr True then finish_otp W
      else if b then fail e else fail e'))" for b e e'
    by (cases b) simp_all
  show ?thesis unfolding confirm_otp_def Let_def by (intro sends_if sends_intros v)
qed

lemma sends_follow_redirect: "sends 2 (follow_security_otp_redirect W u)"
proof -
  have f: "sends 0 (andthen (finish_otp W) (\<lambda>_. ret True))"
    using sends_andthen [OF sends_finish_login(2) [of 0] sends_ret [of 0]] by simp
  have "sends (1 + 0) (match (validate_authenticated_session W)
      (\<lambda>r. if r = Inr True then andthen (finish_otp W) (\<lambda>_. ret True) else ret False))"
    unfolding One_nat_def by (intro sends_match sends_intros f)
  then have v: "sends (Suc 0) (match (validate_authenticated_session W)
      (\<lambda>r. if r = Inr True then andthen (finish_otp W) (\<lambda>_. ret True) else ret False))" by simp
  show ?thesis unfolding follow_security_otp_redirect_def numeral_2_eq_2
    by (intro sends_intros v) simp
qed

lemma sends_otp_pending [sends_intros]: "sends n otp_pending"
  unfolding otp_pending_def by (intro sends_reading) (simp add: sends_intros split: AuthStage.split)

lemma sends_submit: "sends 4 (submit_security_otp W code)"
proof -
  have f: "sends (2 + 1) (andthen (follow_security_otp_redirect W u) (\<lambda>signed_in.
      if signed_in then ret () else confirm_otp W response page reply))" for u response page reply
    by (intro sends_andthen sends_follow_redirect sends_if sends_ret sends_confirm)
  have c: "sends 3 (confirm_otp W response page reply)" for response page reply
    by (rule sends_mono [OF sends_confirm]) simp
  have "sends (Suc 3) (reading (\<lambda>c. otp_request c ''/vtop/validateSecurityOtp'' [(''otpCode'', k), (''_csrf'', csrf)]) (\<lambda>rq.
     send_or_fail W rq (\<lambda>response.
     text_or_fail W response (\<lambda>page.
       let reply = OtpReply_parse W page
       in if or_status reply = Some ''INVALID'' \<or> contains (wb_lower W page) ''invalid otp'' then
            fail (otp_failed reply ''Invalid OTP. Please try again.'')
          else if or_status reply = Some ''EXPIRED'' then
            fail (otp_failed reply ''OTP has expired. Please resend.'')
          else if or_status reply = Some ''SUCCESS'' then
            (case or_redirect_url reply of
               Some redirect_url \<Rightarrow> andthen (follow_security_otp_redirect W redirect_url) (\<lambda>signed_in.
                 if signed_in then ret () else confirm_otp W response page reply)
             | None \<Rightarrow> confirm_otp W response page reply)
          else confirm_otp W response page reply))))" for k csrf
    unfolding Let_def
    by (intro sends_reading sends_send_or_fail sends_text_or_fail sends_if sends_fail c)
      (use f in \<open>auto intro: c split: option.split\<close>)
  then have "sends (0 + 4) (submit_security_otp W code)" unfolding submit_security_otp_def
    by (intro sends_andthen sends_otp_pending sends_quiet) simp
  then show ?thesis by simp
qed

subsection \<open>A code that is answered\<close>

text \<open>
  Nothing is pending any more, the registration number is one VTOP served, and the session is
  signed in unless it has no token.
\<close>

definition confirmed :: "'j web \<Rightarrow> 'j VtopClient \<Rightarrow> bool" where
  "confirmed W c \<longleftrightarrow> vc_auth_stage c = Idle \<and>
     (sm_is_authenticated (vc_session c) \<longleftrightarrow> sm_csrf_token (vc_session c) \<noteq> None) \<and>
     (\<exists>n. sm_registration_number (vc_session c) = Some n \<and> page_number W (vc_sent c) n)"

text \<open>What holds after a submission from \<open>c\<close>: nobody is signed in by a code that was not taken.\<close>

definition otp_post :: "'j web \<Rightarrow> bool \<Rightarrow> VtopError + unit \<Rightarrow> 'j VtopClient \<Rightarrow> bool" where
  "otp_post W was r c \<longleftrightarrow> (r = Inr () \<longrightarrow> confirmed W c) \<and>
     (r \<noteq> Inr () \<longrightarrow> sm_is_authenticated (vc_session c) \<longrightarrow> was)"

lemma wp_store_page:
  assumes "\<And>e. Q (Inl e) c"
    and "\<And>f number n. f = id \<or> (\<exists>csrf. f = set_csrf_token csrf) \<Longrightarrow> snd (extract_session_fields W page) = Some number \<Longrightarrow>
      RegistrationNumber_parse number = Inr n \<Longrightarrow>
      wp rest Q (on_session (set_registration_number n) (on_session f c))"
  shows "wp (store_page W page rest) Q c"
proof -
  obtain csrf number where f: "extract_session_fields W page = (csrf, number)" by fastforce
  have 1: "wp rest Q (on_session (set_registration_number n) (on_session (set_csrf_token k) c))"
    if "number = Some x" "RegistrationNumber_parse x = Inr n" for x n k
    using assms(2) [of "set_csrf_token k"] that f by auto
  have "wp rest Q (on_session (set_registration_number n) c)"
    if "number = Some x" "RegistrationNumber_parse x = Inr n" for x n
    using assms(2) [of id] that f by (simp add: on_session_def [of id])
  with 1 assms(1) show ?thesis
    by (simp add: store_page_def f wp_simps split: option.split sum.split)
qed

lemma inv_stored:
  assumes "client_inv W T base c" "f = id \<or> (\<exists>csrf. f = set_csrf_token csrf)" "page_number W (vc_sent c) n"
  shows "client_inv W T base (on_session (set_registration_number n) (on_session f c))"
  using assms by (auto simp: on_session_def [of id] intro!: inv_number)

lemma stored_session:
  assumes "f = id \<or> (\<exists>csrf. f = set_csrf_token csrf)"
  shows "sm_is_authenticated (f s) = sm_is_authenticated s"
  using assms by auto

text \<open>Checking the session last: what a page makes of it is confirmed.\<close>

lemma confirm_finish:
  assumes "sm_registration_number (vc_session c) = Some n" "page_number W (vc_sent c) n"
  shows "confirmed W ((on_session (set_cookie_external False) (on_session (set_authenticated True) c))
      \<lparr>vc_auth_stage := Idle, vc_ticks := k, vc_logged_in_at := l\<rparr>)"
  using assms by (auto simp: confirmed_def)

lemma otp_validate:
  assumes i: "client_inv W T base c" and was: "sm_is_authenticated (vc_session c) \<longrightarrow> was"
  shows "wp (match (validate_authenticated_session W) (\<lambda>r. if r = Inr True then finish_otp W else fail e))
    (\<lambda>r c'. client_inv W T base c' \<and> otp_post W was r c') c"
  unfolding wp_match
proof (rule wp_validate, goal_cases)
  case (1 e' c1)
  then have "client_inv W T base c1" using i by blast
  then show ?case using was after_fields(1) [OF 1] by (simp add: wp_simps otp_post_def)
next
  case (2 c1)
  then have "client_inv W T base c1" using i by blast
  then show ?case by (simp add: wp_simps otp_post_def)
next
  case (3 c1 csrf n)
  then have "client_inv W T base (on_session (signed_in csrf n) c1)" using i by blast
  then show ?case using 3(2)
    by (auto intro!: wp_finish inv_finish confirm_finish simp: otp_post_def dest: session_page_number)
qed

lemma otp_confirm:
  assumes i: "client_inv W T base c" and was: "sm_is_authenticated (vc_session c) \<longrightarrow> was"
    and page: "\<And>number n. snd (extract_session_fields W page) = Some number \<Longrightarrow>
      RegistrationNumber_parse number = Inr n \<Longrightarrow> page_number W (vc_sent c) n"
  shows "wp (confirm_otp W response page reply) (\<lambda>r c'. client_inv W T base c' \<and> otp_post W was r c') c"
proof -
  let ?Q = "\<lambda>r c'. client_inv W T base c' \<and> otp_post W was r c'"
  have s: "wp (store_page W page (finish_otp W)) ?Q c"
  proof (rule wp_store_page, goal_cases)
    case (2 f number n)
    then show ?case using inv_stored [OF i 2(1) page [OF 2(2,3)]] page [OF 2(2,3)]
      by (auto intro!: wp_finish inv_finish confirm_finish simp: otp_post_def)
  qed (use i was in \<open>simp add: otp_post_def\<close>)
  have v: "wp (match (validate_authenticated_session W) (\<lambda>r. if r = Inr True then finish_otp W
      else if b then fail e else fail e')) ?Q c" for b e e'
    using otp_validate [OF i was] by (cases b) auto
  have f: "?Q (Inl e) c" for e using i was by (simp add: otp_post_def)
  show ?thesis unfolding confirm_otp_def Let_def wp_if using s v f by (simp add: wp_fail)
qed

lemma inv_follow_redirect:
  assumes i: "client_inv W T base c" and was: "sm_is_authenticated (vc_session c) \<longrightarrow> was"
  shows "wp (follow_security_otp_redirect W u) (\<lambda>r c'. client_inv W T base c' \<and>
      (r = Inr True \<longrightarrow> confirmed W c') \<and> (r \<noteq> Inr True \<longrightarrow> sm_is_authenticated (vc_session c') \<longrightarrow> was) \<and>
      (\<exists>hs. vc_sent c' = vc_sent c @ hs)) c"
    (is "wp _ ?Q _")
proof (cases "resolve_vtop_url W c u")
  case (Inl e)
  then show ?thesis using i was by (simp add: follow_security_otp_redirect_def wp_simps)
next
  case (Inr url)
  have v: "wp (match (validate_authenticated_session W)
      (\<lambda>r. if r = Inr True then andthen (finish_otp W) (\<lambda>_. ret True) else ret False)) ?Q c1"
    if "client_inv W T base c1" "sm_is_authenticated (vc_session c1) \<longrightarrow> was" "\<exists>hs. vc_sent c1 = vc_sent c @ hs" for c1
    unfolding wp_match
  proof (rule wp_validate, goal_cases)
    case (1 e' c2)
    then have "client_inv W T base c2" using that by blast
    then show ?case using that(2,3) after_fields(1,7) [OF 1] by (auto simp: wp_simps)
  next
    case (2 c2)
    then have "client_inv W T base c2" using that by blast
    then show ?case using that(3) after_fields(7) [OF 2] by (auto simp: wp_simps)
  next
    case (3 c2 csrf n)
    let ?c = "on_session (signed_in csrf n) c2"
    have "client_inv W T base ?c" using that 3 by blast
    moreover have "page_number W (vc_sent ?c) n" using 3(2) by (simp add: session_page_number)
    moreover have "\<exists>hs. vc_sent c2 = vc_sent c @ hs" using that(3) after_fields(7) [OF 3(1)] by auto
    ultimately show ?case
      using inv_finish [of W T base ?c] confirm_finish [of ?c n W] by (auto simp: wp_simps intro!: wp_finish)
  qed
  show ?thesis
    unfolding follow_security_otp_redirect_def wp_reading wp_andthen wp_from_result Inr sum.case
  proof (rule wp_request [OF own_get(3)], goal_cases)
    case (1 e c1)
    then show ?case using i was after_fields(1,7) [OF 1] by (auto simp: inv_after)
  next
    case (2 response c1)
    then have j: "client_inv W T base c1" using i by blast
    have w: "sm_is_authenticated (vc_session c1) \<longrightarrow> was" using was after_fields(1) [OF 2(1)] by simp
    have h: "\<exists>hs. vc_sent c1 = vc_sent c @ hs" using after_fields(7) [OF 2(1)] by blast
    have s: "wp (store_page W (wb_decode W b) (match (validate_authenticated_session W)
        (\<lambda>r. if r = Inr True then andthen (finish_otp W) (\<lambda>_. ret True) else ret False))) ?Q c1"
      if b: "rs_body response = Some b" for b
    proof (rule wp_store_page, goal_cases)
      case (2 f number n)
      have "page_number W (vc_sent c1) n" by (rule page_numberI [OF \<open>served W (vc_sent c1) response\<close> b 2(2,3)])
      with 2(1) show ?case
        by (intro v inv_stored [OF j]) (use w h stored_session [OF 2(1)] in auto)
    qed (use j w h in simp)
    show ?case using j w h s by (auto simp: wp_simps split: option.split)
  qed
qed

lemma inv_submit:
  assumes i: "client_inv W T base c" and was: "sm_is_authenticated (vc_session c) \<longrightarrow> was"
  shows "wp (submit_security_otp W code) (\<lambda>r c'. client_inv W T base c' \<and> otp_post W was r c') c"
    (is "wp _ ?Q _")
proof -
  have own: "own_request c (otp_request c ''/vtop/validateSecurityOtp'' form)" for form
    using own_post(2) [of "''/vtop/validateSecurityOtp''" c form] by (simp add: prefix_def)
  have f: "?Q (Inl e) c" for e using i was by (simp add: otp_post_def)
  have main: "wp (send_or_fail W (otp_request c ''/vtop/validateSecurityOtp'' form) (\<lambda>response.
     text_or_fail W response (\<lambda>page.
       let reply = OtpReply_parse W page
       in if or_status reply = Some ''INVALID'' \<or> contains (wb_lower W page) ''invalid otp'' then
            fail (otp_failed reply ''Invalid OTP. Please try again.'')
          else if or_status reply = Some ''EXPIRED'' then
            fail (otp_failed reply ''OTP has expired. Please resend.'')
          else if or_status reply = Some ''SUCCESS'' then
            (case or_redirect_url reply of
               Some redirect_url \<Rightarrow> andthen (follow_security_otp_redirect W redirect_url) (\<lambda>signed_in.
                 if signed_in then ret () else confirm_otp W response page reply)
             | None \<Rightarrow> confirm_otp W response page reply)
          else confirm_otp W response page reply))) ?Q c" for form
  proof (rule wp_request [OF own], goal_cases)
    case (1 e c1)
    then show ?case using i was after_fields(1) [OF 1] by (auto simp: inv_after otp_post_def)
  next
    case (2 response c1)
    then have j: "client_inv W T base c1" using i by blast
    have w: "sm_is_authenticated (vc_session c1) \<longrightarrow> was" using was after_fields(1) [OF 2(1)] by simp
    have f1: "?Q (Inl e) c1" for e using j w by (simp add: otp_post_def)
    show ?case
    proof (cases "rs_body response")
      case None
      then show ?thesis using f1 by (simp add: wp_simps)
    next
      case (Some b)
      have p: "page_number W (vc_sent c1) n"
        if "snd (extract_session_fields W (wb_decode W b)) = Some number" "RegistrationNumber_parse number = Inr n" for number n
        using page_numberI [OF 2(2) Some that] .
      have c1: "wp (confirm_otp W response (wb_decode W b) reply) ?Q c1" for reply
        by (rule otp_confirm [OF j w p])
      have r: "wp (andthen (follow_security_otp_redirect W u) (\<lambda>signed_in.
          if signed_in then ret () else confirm_otp W response (wb_decode W b) reply)) ?Q c1" for u reply
        unfolding wp_andthen
      proof (rule wp_mono [OF inv_follow_redirect [OF j w]], goal_cases)
        case (1 r c2)
        have "page_number W (vc_sent c2) n"
          if "snd (extract_session_fields W (wb_decode W b)) = Some number" "RegistrationNumber_parse number = Inr n" for number n
          using p [OF that] 1 page_number_append by metis
        then have "wp (confirm_otp W response (wb_decode W b) reply) ?Q c2" if "r \<noteq> Inr True"
          using 1 that by (intro otp_confirm) auto
        then show ?case using 1 by (auto simp: wp_simps otp_post_def split: sum.split)
      qed
      show ?thesis using Some f1 c1 r by (auto simp: wp_simps Let_def split: option.split)
    qed
  qed
  show ?thesis
    unfolding submit_security_otp_def otp_pending_def
    using f main by (auto simp: wp_simps split: AuthStage.split option.split sum.split)
qed

end
