(* ===== verification/HostelPages.thy ===== *)
theory HostelPages
  imports Web
begin

section \<open>The hostel outing pages (vtop-core/src/parser/hostel.rs, parser/mod.rs)\<close>

text \<open>
  What the parser makes of the two outing pages and of the pages that answer a request.  The
  HTML crate is a record: a parsed document or fragment, and for a document or an element the
  elements a CSS selector finds in it, in document order; an element's attributes, texts and markup.
\<close>

record ('d, 'e) dom =
  dm_parse :: "string \<Rightarrow> 'd"
  dm_select :: "string \<Rightarrow> 'd \<Rightarrow> 'e list"
  dm_within :: "string \<Rightarrow> 'e \<Rightarrow> 'e list"
  dm_attr :: "'e \<Rightarrow> string \<Rightarrow> string option"
  dm_texts :: "'e \<Rightarrow> string list"
  dm_fragment :: "string \<Rightarrow> 'd"
  dm_root :: "'d \<Rightarrow> 'e"
  dm_html :: "'e \<Rightarrow> string"

definition first :: "'a list \<Rightarrow> 'a option" where
  "first xs = (case xs of [] \<Rightarrow> None | x # _ \<Rightarrow> Some x)"

definition or_default :: "string option \<Rightarrow> string" where
  "or_default x = (case x of None \<Rightarrow> [] | Some s \<Rightarrow> s)"

definition words :: "string \<Rightarrow> string" where
  "words s = join_with CHR '' '' (split_whitespace s)"

definition word_text :: "('d, 'e) dom \<Rightarrow> 'e \<Rightarrow> string" where
  "word_text D e = join_with CHR '' '' (concat (map split_whitespace (dm_texts D e)))"

subsection \<open>The data\<close>

record OutingStudent =
  os_registration_number :: string
  os_name :: string
  os_application_no :: string
  os_gender :: string
  os_hostel_block :: string
  os_room_number :: string
  os_parent_contact_number :: string

record OutingOption =
  oo_value :: string
  oo_label :: string

record GeneralOutingRecord =
  gr_serial :: string
  gr_place :: string
  gr_purpose :: string
  gr_from_date :: string
  gr_from_time :: string
  gr_to_date :: string
  gr_to_time :: string
  gr_status :: string
  gr_pass_id :: string
  gr_cancel_id :: string

record GeneralOutingData =
  gd_student :: "OutingStudent option"
  gd_notice :: string
  gd_records :: "GeneralOutingRecord list"
  gd_out_hours :: "nat list"
  gd_in_hours :: "nat list"
  gd_place_max_length :: nat
  gd_purpose_max_length :: nat
  gd_max_days_ahead :: nat
  gd_max_days_away :: nat
  gd_update_time :: nat

record WeekendOutingRecord =
  wo_serial :: string
  wo_hostel_block :: string
  wo_room_number :: string
  wo_place :: string
  wo_purpose :: string
  wo_time_slot :: string
  wo_date :: string
  wo_status :: string
  wo_pass_id :: string
  wo_cancel_id :: string

record WeekendOutingData =
  wd_student :: "OutingStudent option"
  wd_notice :: string
  wd_records :: "WeekendOutingRecord list"
  wd_places :: "OutingOption list"
  wd_time_slots :: "OutingOption list"
  wd_purpose_max_length :: nat
  wd_max_days_ahead :: nat
  wd_weekdays :: "nat list"
  wd_update_time :: nat

record OutingApplyResult =
  oa_applied :: bool
  oa_message :: string

record OutingCancelResult =
  oc_cancelled :: bool
  oc_message :: string

subsection \<open>Reading a page\<close>

definition DEFAULT_OUT_HOURS :: "nat list" where "DEFAULT_OUT_HOURS = [6..<23]"
definition DEFAULT_IN_HOURS :: "nat list" where "DEFAULT_IN_HOURS = [6..<21]"
definition DEFAULT_TEXT_LENGTH :: nat where "DEFAULT_TEXT_LENGTH = 20"
definition DEFAULT_GENERAL_DAYS_AHEAD :: nat where "DEFAULT_GENERAL_DAYS_AHEAD = 30"
definition DEFAULT_GENERAL_DAYS_AWAY :: nat where "DEFAULT_GENERAL_DAYS_AWAY = 15"
definition DEFAULT_WEEKEND_DAYS_AHEAD :: nat where "DEFAULT_WEEKEND_DAYS_AHEAD = 6"
definition DEFAULT_WEEKEND_DAYS :: "nat list" where "DEFAULT_WEEKEND_DAYS = [0, 1]"

definition with_id :: "('d, 'e) dom \<Rightarrow> 'd \<Rightarrow> string \<Rightarrow> 'e option" where
  "with_id D doc ident = find (\<lambda>e. dm_attr D e ''id'' = Some ident) (dm_select D ''input[id]'' doc)"

definition input_value :: "('d, 'e) dom \<Rightarrow> 'd \<Rightarrow> string \<Rightarrow> string" where
  "input_value D doc ident =
     or_default (map_option words (Option.bind (with_id D doc ident) (\<lambda>e. dm_attr D e ''value'')))"

definition max_length :: "('d, 'e) dom \<Rightarrow> 'd \<Rightarrow> string \<Rightarrow> nat" where
  "max_length D doc ident =
     (case do { e \<leftarrow> with_id D doc ident; v \<leftarrow> dm_attr D e ''maxlength''; parse_u32 (trim v) } of
        Some len \<Rightarrow> if 0 < len then len else DEFAULT_TEXT_LENGTH
      | None \<Rightarrow> DEFAULT_TEXT_LENGTH)"

definition select_options :: "('d, 'e) dom \<Rightarrow> 'd \<Rightarrow> string \<Rightarrow> 'e list" where
  "select_options D doc ident =
     (case first (dm_select D (''select#'' @ ident) doc) of
        Some select \<Rightarrow> dm_within D ''option'' select | None \<Rightarrow> [])"

definition options :: "('d, 'e) dom \<Rightarrow> 'd \<Rightarrow> string \<Rightarrow> OutingOption list" where
  "options D doc ident = List.map_filter (\<lambda>opt. case dm_attr D opt ''value'' of
       None \<Rightarrow> None
     | Some v \<Rightarrow> if trim v = [] then None else Some \<lparr>oo_value = trim v, oo_label = trim v\<rparr>)
     (select_options D doc ident)"

definition hours :: "('d, 'e) dom \<Rightarrow> 'd \<Rightarrow> string \<Rightarrow> nat list \<Rightarrow> nat list" where
  "hours D doc ident otherwise =
     (let hours = filter (\<lambda>hour. hour < 24) (List.map_filter (\<lambda>opt.
            Option.bind (dm_attr D opt ''value'') (\<lambda>v. parse_uint 256 (trim v))) (select_options D doc ident))
      in if hours = [] then otherwise else hours)"

definition date_part :: "string \<Rightarrow> string" where
  "date_part value = or_default (first (split_whitespace value))"

text \<open>\<^verbatim>\<open>trim_start_matches\<close> of white space, colons and quotes.\<close>

function skip_marks :: "string \<Rightarrow> string" where
  "skip_marks s = (case s of [] \<Rightarrow> []
     | c # cs \<Rightarrow> if c = CHR '':'' \<or> c = CHR 0x27 then skip_marks cs
         else if ws_at s = 0 then s else skip_marks (drop (ws_at s) s))"
  by pat_completeness auto
termination by (relation "measure length") (auto split: if_splits)

declare skip_marks.simps [simp del]

definition number_after :: "string \<Rightarrow> string \<Rightarrow> nat option" where
  "number_after text' marker = Option.bind (split_at_str marker text') (\<lambda>(_, rest).
     parse_u32 (takeWhile is_digit (skip_marks rest)))"

definition datepicker_number :: "string \<Rightarrow> string \<Rightarrow> string \<Rightarrow> nat option" where
  "datepicker_number html ident key =
     (let start = CHR ''#'' # ident @ [CHR 0x22] @ '').datepicker(''
      in Option.bind (split_at_str start html) (\<lambda>(_, rest).
        let call = start @ rest
        in number_after (case split_at_str ''})'' call of Some (inside, _) \<Rightarrow> inside | None \<Rightarrow> call) key))"

text \<open>What follows each \<^verbatim>\<open>!=\<close>, which cannot overlap itself.\<close>

fun after_each :: "string \<Rightarrow> string \<Rightarrow> string list" where
  "after_each m [] = []"
| "after_each m (x # xs) = (if prefix m (x # xs) then [drop (length m) (x # xs)] else []) @ after_each m xs"

definition allowed_weekdays :: "string \<Rightarrow> nat list" where
  "allowed_weekdays html =
     (case split_at_str ''beforeShowDay'' html of
        None \<Rightarrow> DEFAULT_WEEKEND_DAYS
      | Some (_, rest) \<Rightarrow>
          (let body = takeWhile (\<lambda>c. c \<noteq> CHR '']'') (''beforeShowDay'' @ rest);
               blocked = List.map_filter (\<lambda>tail. case trim_start tail of
                   [] \<Rightarrow> None | c # _ \<Rightarrow> if is_digit c then Some (digit_val c) else None) (after_each ''!='' body)
           in if blocked = [] then DEFAULT_WEEKEND_DAYS else filter (\<lambda>day. day \<notin> set blocked) [0..<7]))"

definition student :: "('d, 'e) dom \<Rightarrow> 'd \<Rightarrow> OutingStudent option" where
  "student D doc =
     (let s = \<lparr>os_registration_number = input_value D doc ''regNo'', os_name = input_value D doc ''name'',
            os_application_no = input_value D doc ''applicationNo'', os_gender = input_value D doc ''gender'',
            os_hostel_block = input_value D doc ''hostelBlock'', os_room_number = input_value D doc ''roomNo'',
            os_parent_contact_number = input_value D doc ''parentContactNumber''\<rparr>
      in if os_registration_number s \<noteq> [] then Some s else None)"

definition notice :: "('d, 'e) dom \<Rightarrow> 'd \<Rightarrow> string" where
  "notice D doc =
     (let popup = input_value D doc ''jsonBom''
      in if popup \<noteq> [] then popup
         else (let in_requests = dm_select D ''table#BookingRequests span'' doc
           in or_default (find (\<lambda>t. t \<noteq> []) (map (word_text D) (filter (\<lambda>span. span \<notin> set in_requests \<and>
                contains (filter (\<lambda>c. c \<noteq> CHR '' '') (or_default (dm_attr D span ''style''))) ''color:red'')
                (dm_select D ''span[style]'' doc))))))"

record RequestRow =
  rr_cells :: "(string \<times> string) list"
  rr_pass_id :: string
  rr_cancel_id :: string

definition cell :: "RequestRow \<Rightarrow> string \<Rightarrow> string" where
  "cell row header = or_default (map_option snd (find (\<lambda>(name, _). name = header) (rr_cells row)))"

definition trim_quotes :: "string \<Rightarrow> string" where
  "trim_quotes s = trim_end_char CHR 0x27 (trim_start_matches CHR 0x27 s)"

definition row_pass_id :: "('d, 'e) dom \<Rightarrow> 'e \<Rightarrow> string" where
  "row_pass_id D row = or_default (do {
     link \<leftarrow> first (dm_within D ''a[data-url], a[data-leave-url]'' row);
     url \<leftarrow> or_else (dm_attr D link ''data-url'') (dm_attr D link ''data-leave-url'');
     Some (last (split_on CHR ''/'' url)) })"

definition call_argument :: "string \<Rightarrow> string option" where
  "call_argument call = do {
     (_, rest) \<leftarrow> split_at_str ''deleteStudentBookingInfo('' call;
     let arg = trim (hd (split_on CHR '')'' rest));
     (if prefix [CHR 0x27] arg then Some (trim_quotes arg) else None) }"

definition row_cancel_id :: "('d, 'e) dom \<Rightarrow> 'e \<Rightarrow> string" where
  "row_cancel_id D row = or_default (do {
     button \<leftarrow> first (dm_within D ''button[onclick*='deleteStudentBookingInfo']'' row);
     ident \<leftarrow> or_else (dm_attr D button ''data-bookingid'') (Option.bind (dm_attr D button ''onclick'') call_argument);
     (if trim ident \<noteq> [] \<and> list_all is_alphanumeric (trim ident) then Some (trim ident) else None) })"

definition request_rows :: "(string \<Rightarrow> string) \<Rightarrow> ('d, 'e) dom \<Rightarrow> 'd \<Rightarrow> RequestRow list" where
  "request_rows lower D doc =
     (case first (dm_select D ''table#BookingRequests'' doc) of
        None \<Rightarrow> []
      | Some table \<Rightarrow>
          (let headers = map (\<lambda>header. lower (word_text D header)) (dm_within D ''th'' table)
           in List.map_filter (\<lambda>row.
                let cells = dm_within D ''td'' row
                in if cells = [] \<or> length cells < length headers then None
                   else Some \<lparr>rr_cells = zip headers (map (word_text D) cells),
                     rr_pass_id = row_pass_id D row, rr_cancel_id = row_cancel_id D row\<rparr>)
                (dm_within D ''tr'' table)))"

subsection \<open>The two pages and the two answers\<close>

definition general_record :: "RequestRow \<Rightarrow> GeneralOutingRecord" where
  "general_record row =
     \<lparr>gr_serial = cell row ''s.no'', gr_place = cell row ''place of visit'',
      gr_purpose = cell row ''purpose of visit'', gr_from_date = date_part (cell row ''from date''),
      gr_from_time = cell row ''from time'', gr_to_date = date_part (cell row ''to date''),
      gr_to_time = cell row ''to time'', gr_status = cell row ''status'',
      gr_pass_id = rr_pass_id row, gr_cancel_id = rr_cancel_id row\<rparr>"

definition or_number :: "nat option \<Rightarrow> nat \<Rightarrow> nat" where
  "or_number x n = (case x of None \<Rightarrow> n | Some m \<Rightarrow> m)"

definition parse_general_outing ::
  "(string \<Rightarrow> string) \<Rightarrow> ('d, 'e) dom \<Rightarrow> string \<Rightarrow> nat \<Rightarrow> GeneralOutingData" where
  "parse_general_outing lower D html now =
     (let doc = dm_parse D html
      in \<lparr>gd_student = student D doc, gd_notice = notice D doc,
          gd_records = map general_record (request_rows lower D doc),
          gd_out_hours = hours D doc ''outTimeHr'' DEFAULT_OUT_HOURS,
          gd_in_hours = hours D doc ''inTimeHr'' DEFAULT_IN_HOURS,
          gd_place_max_length = max_length D doc ''placeOfVisit'',
          gd_purpose_max_length = max_length D doc ''purposeOfVisit'',
          gd_max_days_ahead = or_number (datepicker_number html ''outDate'' ''maxDate'') DEFAULT_GENERAL_DAYS_AHEAD,
          gd_max_days_away = or_number (number_after html ''getDate() +'') DEFAULT_GENERAL_DAYS_AWAY,
          gd_update_time = now\<rparr>)"

definition weekend_record :: "RequestRow \<Rightarrow> WeekendOutingRecord" where
  "weekend_record row =
     \<lparr>wo_serial = cell row ''s.no'', wo_hostel_block = cell row ''hostel block'',
      wo_room_number = cell row ''room number'', wo_place = cell row ''place of visit'',
      wo_purpose = cell row ''purpose of visit'', wo_time_slot = cell row ''time'',
      wo_date = date_part (cell row ''date''), wo_status = cell row ''status'',
      wo_pass_id = rr_pass_id row, wo_cancel_id = rr_cancel_id row\<rparr>"

definition parse_weekend_outing ::
  "(string \<Rightarrow> string) \<Rightarrow> ('d, 'e) dom \<Rightarrow> string \<Rightarrow> nat \<Rightarrow> WeekendOutingData" where
  "parse_weekend_outing lower D html now =
     (let doc = dm_parse D html
      in \<lparr>wd_student = student D doc, wd_notice = notice D doc,
          wd_records = map weekend_record (request_rows lower D doc),
          wd_places = options D doc ''outPlace'', wd_time_slots = options D doc ''outTime'',
          wd_purpose_max_length = max_length D doc ''purposeOfVisit'',
          wd_max_days_ahead = or_number (datepicker_number html ''outingDate'' ''maxDate'') DEFAULT_WEEKEND_DAYS_AHEAD,
          wd_weekdays = allowed_weekdays html,
          wd_update_time = now\<rparr>)"

definition parse_apply_response ::
  "(string \<Rightarrow> string) \<Rightarrow> ('d, 'e) dom \<Rightarrow> string \<Rightarrow> nat \<Rightarrow> OutingApplyResult" where
  "parse_apply_response lower D html requests_before =
     (let doc = dm_parse D html; success = input_value D doc ''success''; error = notice D doc;
          requests_now = length (request_rows lower D doc)
      in if error \<noteq> [] then \<lparr>oa_applied = False, oa_message = error\<rparr>
         else if success \<noteq> [] \<or> requests_before < requests_now then
           \<lparr>oa_applied = True,
            oa_message = (if success = [] then ''Applied. It now waits for approval.'' else success)\<rparr>
         else \<lparr>oa_applied = False,
            oa_message = (if dm_select D ''table#BookingRequests'' doc \<noteq> []
              then ''VTOP did not add the request. Check the list before trying again.''
              else ''VTOP sent back an unexpected page. Check the list before trying again.'')\<rparr>)"

definition parse_cancel_response ::
  "(string \<Rightarrow> string) \<Rightarrow> ('d, 'e) dom \<Rightarrow> string \<Rightarrow> string \<Rightarrow> OutingCancelResult" where
  "parse_cancel_response lower D html cancel_id =
     (let doc = dm_parse D html; error = notice D doc
      in if error \<noteq> [] then \<lparr>oc_cancelled = False, oc_message = error\<rparr>
         else if dm_select D ''table#BookingRequests'' doc = [] then
           \<lparr>oc_cancelled = False, oc_message = ''VTOP sent back an unexpected page. Check the list.''\<rparr>
         else (let still_there = list_ex (\<lambda>row. rr_cancel_id row = cancel_id) (request_rows lower D doc)
           in \<lparr>oc_cancelled = (\<not> still_there),
               oc_message = (if still_there then ''VTOP did not cancel the request. Check the list.''
                 else ''Request cancelled.'')\<rparr>))"

end
