(* ===== verification/Fetchers.thy ===== *)
theory Fetchers
  imports VtopClient HostelPages
begin

section \<open>The fetchers (vtop-core/src/client/academics.rs, exams.rs, biometric.rs, profile.rs, course_page.rs)\<close>

text \<open>
  Each fetcher makes sure the session is signed in, builds one request from the token, the
  registration number and its arguments, and sends it.  What the parsers make of the pages is not
  part of this theory.
\<close>

subsection \<open>Bodies the fetchers share\<close>

definition menu_body :: "AuthorizedRequest \<Rightarrow> Body" where
  "menu_body auth = Raw (''verifyMenu=true&authorizedID='' @ ar_registration_number auth @ ''&_csrf='' @ ar_csrf auth @
     ''&nocache=@(new Date().getTime())'')"

definition fetch_page ::
  "'j web \<Rightarrow> string \<Rightarrow> string \<Rightarrow> (AuthorizedRequest \<Rightarrow> Body) \<Rightarrow> ('j VtopClient, string) act" where
  "fetch_page W context path body =
     andthen (authorize W) (\<lambda>auth.
     reading (\<lambda>c. post_request (config_url c path) (body auth)) (send_authenticated W context))"

definition menu_page :: "'j web \<Rightarrow> string \<Rightarrow> string \<Rightarrow> ('j VtopClient, string) act" where
  "menu_page W context path = fetch_page W context path menu_body"

subsection \<open>Semesters, timetable, attendance, calendar\<close>

definition semesters_page :: "'j web \<Rightarrow> ('j VtopClient, string) act" where
  "semesters_page W = fetch_page W ''get_semesters'' ''/vtop/academics/common/StudentTimeTable'' menu_body"

definition semester_body :: "string \<Rightarrow> AuthorizedRequest \<Rightarrow> Body" where
  "semester_body semester auth = Raw (''_csrf='' @ ar_csrf auth @ ''&semesterSubId='' @ semester @
     ''&authorizedID='' @ ar_registration_number auth)"

definition timetable_page :: "'j web \<Rightarrow> string \<Rightarrow> ('j VtopClient, string) act" where
  "timetable_page W semester =
     fetch_page W ''get_timetable'' ''/vtop/processViewTimeTable'' (semester_body semester)"

definition attendance_page :: "'j web \<Rightarrow> string \<Rightarrow> ('j VtopClient, string) act" where
  "attendance_page W semester =
     fetch_page W ''get_attendance'' ''/vtop/processViewStudentAttendance'' (semester_body semester)"

definition full_attendance_page :: "'j web \<Rightarrow> string \<Rightarrow> string \<Rightarrow> string \<Rightarrow> ('j VtopClient, string) act" where
  "full_attendance_page W semester course course_type =
     fetch_page W ''get_full_attendance'' ''/vtop/processViewAttendanceDetail'' (\<lambda>auth.
       Raw (''_csrf='' @ ar_csrf auth @ ''&semesterSubId='' @ semester @
         ''&registerNumber='' @ ar_registration_number auth @ ''&courseId='' @ course @
         ''&courseType='' @ course_type @ ''&authorizedID='' @ ar_registration_number auth))"

definition CALENDAR_CLASS_GROUP :: string where "CALENDAR_CLASS_GROUP = ''COMB''"

definition calendar_months_page :: "'j web \<Rightarrow> string \<Rightarrow> ('j VtopClient, string) act" where
  "calendar_months_page W semester =
     fetch_page W ''get_calendar_months'' ''/vtop/getDateForSemesterPreview'' (\<lambda>auth.
       Raw (''_csrf='' @ ar_csrf auth @ ''&paramReturnId=getDateForSemesterPreview&semSubId='' @ semester @
         ''&authorizedID='' @ ar_registration_number auth))"

definition calendar_month_page :: "'j web \<Rightarrow> string \<Rightarrow> string \<Rightarrow> ('j VtopClient, string) act" where
  "calendar_month_page W semester cal_date =
     fetch_page W ''get_calendar_month'' ''/vtop/processViewCalendar'' (\<lambda>auth.
       Raw (''_csrf='' @ ar_csrf auth @ ''&calDate='' @ wb_urlencode W cal_date @ ''&semSubId='' @ semester @
         ''&classGroupId='' @ CALENDAR_CLASS_GROUP @ ''&authorizedID='' @ ar_registration_number auth))"

subsection \<open>Marks, exam schedule, grades\<close>

definition semester_form_page :: "'j web \<Rightarrow> string \<Rightarrow> string \<Rightarrow> string \<Rightarrow> ('j VtopClient, string) act" where
  "semester_form_page W context path semester = fetch_page W context path (\<lambda>auth.
     Multipart [(''authorizedID'', ar_registration_number auth), (''semesterSubId'', semester), (''_csrf'', ar_csrf auth)])"

definition marks_page :: "'j web \<Rightarrow> string \<Rightarrow> ('j VtopClient, string) act" where
  "marks_page W semester = semester_form_page W ''get_marks'' ''/vtop/examinations/doStudentMarkView'' semester"

definition exam_schedule_page :: "'j web \<Rightarrow> string \<Rightarrow> ('j VtopClient, string) act" where
  "exam_schedule_page W semester =
     semester_form_page W ''get_exam_schedule'' ''/vtop/examinations/doSearchExamScheduleForStudent'' semester"

definition grade_view_page :: "'j web \<Rightarrow> string \<Rightarrow> ('j VtopClient, string) act" where
  "grade_view_page W semester =
     semester_form_page W ''get_grade_view'' ''/vtop/examinations/examGradeView/doStudentGradeView'' semester"

definition grade_view_details_page :: "'j web \<Rightarrow> string \<Rightarrow> string \<Rightarrow> ('j VtopClient, string) act" where
  "grade_view_details_page W semester course =
     fetch_page W ''get_grade_view_details'' ''/vtop/examinations/examGradeView/getGradeViewDetails'' (\<lambda>auth.
       Form [(''authorizedID'', ar_registration_number auth), (''x'', ''codex''), (''semesterSubId'', semester),
         (''courseId'', course), (''_csrf'', ar_csrf auth)])"

definition grade_history_page :: "'j web \<Rightarrow> ('j VtopClient, string) act" where
  "grade_history_page W =
     fetch_page W ''get_grade_history'' ''/vtop/examinations/examGradeView/StudentGradeHistory'' menu_body"

subsection \<open>Biometric, profile\<close>

definition biometric_page :: "'j web \<Rightarrow> string \<Rightarrow> ('j VtopClient, string) act" where
  "biometric_page W date = fetch_page W ''get_biometric_history'' ''/vtop/getStudBioHistory'' (\<lambda>auth.
     Form [(''_csrf'', ar_csrf auth), (''fromDate'', date), (''authorizedID'', ar_registration_number auth)])"

definition profile_page :: "'j web \<Rightarrow> ('j VtopClient, string) act" where
  "profile_page W = menu_page W ''get_profile'' ''/vtop/studentsRecord/StudentProfileAllView''"

definition mentor_details_page :: "'j web \<Rightarrow> ('j VtopClient, string) act" where
  "mentor_details_page W = menu_page W ''get_mentor_details'' ''/vtop/proctor/viewProctorDetails''"

definition mentor_messages_page :: "'j web \<Rightarrow> ('j VtopClient, string) act" where
  "mentor_messages_page W = menu_page W ''get_mentor_messages'' ''/vtop/proctor/viewMessagesSendByProctor''"

subsection \<open>The course page\<close>

definition course_page_menu :: "'j web \<Rightarrow> ('j VtopClient, string) act" where
  "course_page_menu W = fetch_page W ''get_course_page'' ''/vtop/academics/common/StudentCoursePage'' menu_body"

definition course_page_courses_page :: "'j web \<Rightarrow> string \<Rightarrow> ('j VtopClient, string) act" where
  "course_page_courses_page W semester =
     fetch_page W ''get_course_page_courses'' ''/vtop/getCourseForCoursePage'' (\<lambda>auth.
       Form [(''_csrf'', ar_csrf auth), (''paramReturnId'', ''getCourseForCoursePage''), (''semSubId'', semester),
         (''authorizedID'', ar_registration_number auth)])"

definition course_page_classes_page :: "'j web \<Rightarrow> string \<Rightarrow> string \<Rightarrow> ('j VtopClient, string) act" where
  "course_page_classes_page W semester course_id =
     fetch_page W ''get_course_page_classes'' ''/vtop/getSlotIdForCoursePage'' (\<lambda>auth.
       Form [(''_csrf'', ar_csrf auth), (''classId'', course_id), (''praType'', ''source''),
         (''paramReturnId'', ''getSlotIdForCoursePage''), (''semSubId'', semester),
         (''authorizedID'', ar_registration_number auth)])"

definition course_page_detail_page :: "'j web \<Rightarrow> string \<Rightarrow> string \<Rightarrow> string \<Rightarrow> ('j VtopClient, string) act" where
  "course_page_detail_page W semester erp_id class_id =
     fetch_page W ''get_course_page_detail'' ''/vtop/processViewStudentCourseDetail'' (\<lambda>auth.
       Form [(''_csrf'', ar_csrf auth), (''semSubId'', semester), (''erpId'', erp_id), (''classId'', class_id),
         (''authorizedID'', ar_registration_number auth)])"

definition plain_id :: "string \<Rightarrow> string \<Rightarrow> VtopError + string" where
  "plain_id value label = (let value = trim value
     in if value = [] \<or> 40 < length value \<or> \<not> list_all is_alphanumeric value
        then Inl (ConfigurationError (label @ '' is not valid'')) else Inr value)"

record CourseFile =
  cf_file_name :: string
  cf_content_type :: string
  cf_bytes :: bytes

record CourseFileInfo =
  ci_content_disposition :: string
  ci_content_type :: string

definition file_name_from_disposition :: "string \<Rightarrow> string" where
  "file_name_from_disposition header =
     (case first (List.map_filter (\<lambda>part. let part = trim part
          in if prefix ''filename='' part then Some (drop (length ''filename='') part) else None)
          (split_on CHR '';'' header)) of
        None \<Rightarrow> []
      | Some name \<Rightarrow>
          (let name = trim (trim_end_char CHR 0x22 (trim_start_matches CHR 0x22 name))
           in last (split_on CHR 0x5C (last (split_on CHR ''/'' name)))))"

definition not_the_file :: VtopError where
  "not_the_file = VtopServerError ''VTOP did not send the file''"

definition query_request :: "'j web \<Rightarrow> string \<Rightarrow> (string \<times> string) list \<Rightarrow> HopRequest" where
  "query_request W url query = get_request (wb_with_query W url query)"

definition download_course_file ::
  "'j web \<Rightarrow> string \<Rightarrow> (string \<times> string) list \<Rightarrow> ('j VtopClient, CourseFile) act" where
  "download_course_file W url query =
     send_or_fail W (query_request W url query) (\<lambda>response.
       if is_login_url W (rs_url response) then change (mark_session_expired W) (fail SessionExpired)
       else (let content_type = or_default (rs_content_type response);
                 file_name = file_name_from_disposition (or_default (rs_content_disposition response))
         in andthen (or_fail NetworkError (rs_body response)) (\<lambda>bytes.
              if \<not> is_success (rs_status response) then
                fail (status_error ''get_course_page_file'' (rs_status response)
                  (''VTOP returned HTTP '' @ wb_status_text W (rs_status response)))
              else if prefix ''text/html'' content_type then fail not_the_file
              else ret \<lparr>cf_file_name = file_name, cf_content_type = content_type, cf_bytes = bytes\<rparr>)))"

definition course_file_info ::
  "'j web \<Rightarrow> string \<Rightarrow> (string \<times> string) list \<Rightarrow> ('j VtopClient, CourseFileInfo) act" where
  "course_file_info W url query =
     send_or_fail W (query_request W url query) (\<lambda>response.
       if is_login_url W (rs_url response) then change (mark_session_expired W) (fail SessionExpired)
       else if \<not> is_success (rs_status response) then
         fail (status_error ''get_course_page_file_info'' (rs_status response)
           (''VTOP returned HTTP '' @ wb_status_text W (rs_status response)))
       else (let content_type = or_default (rs_content_type response)
         in if prefix ''text/html'' content_type then fail not_the_file
            else ret \<lparr>ci_content_disposition = or_default (rs_content_disposition response),
              ci_content_type = content_type\<rparr>))"

text \<open>The query of a file, with the date of the clock, and of a course plan.\<close>

definition file_query :: "'j web \<Rightarrow> AuthorizedRequest \<Rightarrow> nat \<Rightarrow> (string \<times> string) list" where
  "file_query W auth now = [(''authorizedID'', ar_registration_number auth), (''_csrf'', ar_csrf auth),
     (''x'', wb_http_date W now)]"

definition plan_query :: "'j web \<Rightarrow> string \<Rightarrow> string \<Rightarrow> AuthorizedRequest \<Rightarrow> nat \<Rightarrow> (string \<times> string) list" where
  "plan_query W semester class_id auth now = [(''semesterSubId'', semester), (''classId'', class_id),
     (''authorizedID'', ar_registration_number auth), (''x'', wb_http_date W now)]"

definition course_page_file :: "'j web \<Rightarrow> string \<Rightarrow> ('j VtopClient, CourseFile) act" where
  "course_page_file W path = andthen (authorize W) (\<lambda>auth.
     now_unix W (\<lambda>now. reading (\<lambda>c. config_url c (''/vtop/'' @ path)) (\<lambda>url.
       download_course_file W url (file_query W auth now))))"

definition course_plan :: "'j web \<Rightarrow> string \<Rightarrow> string \<Rightarrow> ('j VtopClient, CourseFile) act" where
  "course_plan W semester class_id = andthen (from_result (plain_id class_id ''class id'')) (\<lambda>class_id.
     andthen (authorize W) (\<lambda>auth.
     now_unix W (\<lambda>now. reading (\<lambda>c. config_url c ''/vtop/academics/common/CoursePlanExcelDownload'') (\<lambda>url.
       download_course_file W url (plan_query W semester class_id auth now)))))"

definition course_page_file_info :: "'j web \<Rightarrow> string \<Rightarrow> ('j VtopClient, CourseFileInfo) act" where
  "course_page_file_info W path = andthen (authorize W) (\<lambda>auth.
     now_unix W (\<lambda>now. reading (\<lambda>c. config_url c (''/vtop/'' @ path)) (\<lambda>url.
       course_file_info W url (file_query W auth now))))"

definition course_plan_info :: "'j web \<Rightarrow> string \<Rightarrow> string \<Rightarrow> ('j VtopClient, CourseFileInfo) act" where
  "course_plan_info W semester class_id = andthen (from_result (plain_id class_id ''class id'')) (\<lambda>class_id.
     andthen (authorize W) (\<lambda>auth.
     now_unix W (\<lambda>now. reading (\<lambda>c. config_url c ''/vtop/academics/common/CoursePlanExcelDownload'') (\<lambda>url.
       course_file_info W url (plan_query W semester class_id auth now)))))"

end
