(* ===== verification/Outings.thy ===== *)
theory Outings
  imports Fetchers
begin

section \<open>Hostel outings (vtop-core/src/client/hostel.rs)\<close>

text \<open>
  Applying for an outing and cancelling one: the form or the list is fetched first, the request is
  checked against it, and then posted once, with no retry.
\<close>

record GeneralOutingApplication =
  ga_place :: string
  ga_purpose :: string
  ga_out_date :: string
  ga_out_time :: OutingTime
  ga_in_date :: string
  ga_in_time :: OutingTime

record WeekendOutingApplication =
  wa_place :: string
  wa_purpose :: string
  wa_date :: string
  wa_time_slot :: string
  wa_contact_number :: string

datatype OutingKind = General | Weekend

definition invalid :: "string \<Rightarrow> VtopError" where
  "invalid message = ConfigurationError message"

definition limited_text :: "string \<Rightarrow> string \<Rightarrow> nat \<Rightarrow> VtopError + string" where
  "limited_text value label limit =
     (let value = words value
      in if value = [] then Inl (invalid (label @ '' must not be empty''))
         else if limit < char_count value then
           Inl (invalid (label @ '' must be at most '' @ show_nat limit @ '' characters''))
         else Inr value)"

definition offered_time :: "OutingTime \<Rightarrow> nat list \<Rightarrow> string \<Rightarrow> VtopError + unit" where
  "offered_time time offered label =
     (if offered = [] then Inr ()
      else if unat (ot_hour time) \<notin> set offered \<or> (unat (ot_hour time) = last offered \<and> ot_minute time \<noteq> 0) then
        Inl (invalid (label @ '' time is outside the allowed hours''))
      else Inr ())"

definition check_general_outing ::
  "GeneralOutingData \<Rightarrow> GeneralOutingApplication \<Rightarrow> VtopError + string \<times> string" where
  "check_general_outing form application =
     and_then (limited_text (ga_place application) ''place'' (gd_place_max_length form)) (\<lambda>place.
     and_then (limited_text (ga_purpose application) ''purpose'' (gd_purpose_max_length form)) (\<lambda>purpose.
     and_then (offered_time (ga_out_time application) (gd_out_hours form) ''leaving'') (\<lambda>_.
     and_then (offered_time (ga_in_time application) (gd_in_hours form) ''return'') (\<lambda>_.
       Inr (place, purpose)))))"

definition today_in_india :: "nat \<Rightarrow> int" where
  "today_in_india now = (int now + 19800) div 86400"

definition check_weekend_outing ::
  "WeekendOutingData \<Rightarrow> WeekendOutingApplication \<Rightarrow> nat \<Rightarrow> VtopError + string" where
  "check_weekend_outing form application now =
     and_then (limited_text (wa_purpose application) ''purpose'' (wd_purpose_max_length form)) (\<lambda>purpose.
       if day_number (wa_date application) \<le> today_in_india now then
         Inl (invalid ''a weekend outing cannot be applied for on its own day'')
       else if \<not> list_ex (\<lambda>p. oo_value p = wa_place application) (wd_places form) then
         Inl (invalid ''place is not one VTOP offers'')
       else if \<not> list_ex (\<lambda>p. oo_value p = wa_time_slot application) (wd_time_slots form) then
         Inl (invalid ''time slot is not one VTOP offers'')
       else Inr purpose)"

definition student_fields :: "string \<Rightarrow> OutingStudent \<Rightarrow> string \<Rightarrow> (string \<times> string) list" where
  "student_fields authorized_id st id_field =
     [(''authorizedID'', authorized_id), (id_field, []), (''regNo'', os_registration_number st),
      (''name'', os_name st), (''applicationNo'', os_application_no st), (''gender'', os_gender st),
      (''hostelBlock'', os_hostel_block st), (''roomNo'', os_room_number st),
      (''parentContactNumber'', os_parent_contact_number st)]"

definition form_closed :: "string \<Rightarrow> OutingApplyResult" where
  "form_closed message = \<lparr>oa_applied = False,
     oa_message = (if message = [] then ''VTOP is not taking outing applications right now.'' else message)\<rparr>"

definition hostel_menu_page :: "'j web \<Rightarrow> string \<Rightarrow> string \<Rightarrow> ('j VtopClient, string) act" where
  "hostel_menu_page W context path = fetch_page W context path menu_body"

definition general_outing_page :: "'j web \<Rightarrow> ('j VtopClient, string) act" where
  "general_outing_page W = hostel_menu_page W ''get_general_outing'' ''/vtop/hostel/StudentGeneralOuting''"

definition weekend_outing_page :: "'j web \<Rightarrow> ('j VtopClient, string) act" where
  "weekend_outing_page W = hostel_menu_page W ''get_weekend_outing'' ''/vtop/hostel/StudentWeekendOuting''"

definition general_outing :: "'j web \<Rightarrow> ('d, 'e) dom \<Rightarrow> ('j VtopClient, GeneralOutingData) act" where
  "general_outing W D = andthen (general_outing_page W) (\<lambda>page.
     now_unix W (\<lambda>now. ret (parse_general_outing (wb_lower W) D page now)))"

definition weekend_outing :: "'j web \<Rightarrow> ('d, 'e) dom \<Rightarrow> ('j VtopClient, WeekendOutingData) act" where
  "weekend_outing W D = andthen (weekend_outing_page W) (\<lambda>page.
     now_unix W (\<lambda>now. ret (parse_weekend_outing (wb_lower W) D page now)))"

definition send_once :: "'j web \<Rightarrow> string \<Rightarrow> HopRequest \<Rightarrow> ('j VtopClient, string) act" where
  "send_once W context rq = send_or_fail W rq (read_authenticated_response_text W context)"

definition post_form :: "'j web \<Rightarrow> string \<Rightarrow> string \<Rightarrow> (string \<times> string) list \<Rightarrow> ('j VtopClient, string) act" where
  "post_form W context path form =
     reading (\<lambda>c. post_request (config_url c path) (Form form)) (send_once W context)"

definition apply_general_outing ::
  "'j web \<Rightarrow> ('d, 'e) dom \<Rightarrow> GeneralOutingApplication \<Rightarrow> ('j VtopClient, OutingApplyResult) act" where
  "apply_general_outing W D application = andthen (general_outing W D) (\<lambda>form.
     case gd_student form of
       None \<Rightarrow> ret (form_closed (gd_notice form))
     | Some st \<Rightarrow>
         andthen (from_result (check_general_outing form application)) (\<lambda>(place, purpose).
         andthen (authorize W) (\<lambda>auth. now_unix W (\<lambda>now.
         andthen (post_form W ''apply_general_outing'' ''/vtop/hostel/saveGeneralOutingForm''
             (student_fields (ar_registration_number auth) st ''LeaveId'' @
              [(''placeOfVisit'', place), (''purposeOfVisit'', purpose),
               (''outDate'', ga_out_date application), (''outTimeHr'', hour_field (ga_out_time application)),
               (''outTimeMin'', minute_field (ga_out_time application)), (''inDate'', ga_in_date application),
               (''inTimeHr'', hour_field (ga_in_time application)), (''inTimeMin'', minute_field (ga_in_time application)),
               (''_csrf'', ar_csrf auth), (''x'', wb_http_date W now)]))
           (\<lambda>page. ret (parse_apply_response (wb_lower W) D page (length (gd_records form))))))))"

definition apply_weekend_outing ::
  "'j web \<Rightarrow> ('d, 'e) dom \<Rightarrow> WeekendOutingApplication \<Rightarrow> ('j VtopClient, OutingApplyResult) act" where
  "apply_weekend_outing W D application = andthen (weekend_outing W D) (\<lambda>form.
     case wd_student form of
       None \<Rightarrow> ret (form_closed (wd_notice form))
     | Some st \<Rightarrow> now_unix W (\<lambda>today.
         andthen (from_result (check_weekend_outing form application today)) (\<lambda>purpose.
         andthen (authorize W) (\<lambda>auth. now_unix W (\<lambda>now.
         andthen (post_form W ''apply_weekend_outing'' ''/vtop/hostel/saveOutingForm''
             (student_fields (ar_registration_number auth) st ''BookingId'' @
              [(''outPlace'', wa_place application), (''purposeOfVisit'', purpose),
               (''outingDate'', wa_date application), (''outTime'', wa_time_slot application),
               (''contactNumber'', wa_contact_number application),
               (''_csrf'', ar_csrf auth), (''x'', wb_http_date W now)]))
           (\<lambda>page. ret (parse_apply_response (wb_lower W) D page (length (wd_records form)))))))))"

definition cancel_outing ::
  "'j web \<Rightarrow> ('d, 'e) dom \<Rightarrow> string \<Rightarrow> string \<Rightarrow> string \<Rightarrow> string \<Rightarrow> ('j VtopClient, OutingCancelResult) act" where
  "cancel_outing W D context path id_field ident = andthen (authorize W) (\<lambda>auth. now_unix W (\<lambda>now.
     andthen (post_form W context path
         [(''_csrf'', ar_csrf auth), (id_field, ident), (''authorizedID'', ar_registration_number auth),
          (''x'', wb_http_date W now)])
       (\<lambda>page. ret (parse_cancel_response (wb_lower W) D page ident))))"

definition not_cancellable :: VtopError where
  "not_cancellable = invalid ''VTOP no longer lets this request be cancelled''"

definition cancel_general_outing ::
  "'j web \<Rightarrow> ('d, 'e) dom \<Rightarrow> string \<Rightarrow> ('j VtopClient, OutingCancelResult) act" where
  "cancel_general_outing W D ident = andthen (general_outing W D) (\<lambda>page.
     if \<not> list_ex (\<lambda>r. gr_cancel_id r = ident) (gd_records page) then fail not_cancellable
     else cancel_outing W D ''cancel_general_outing'' ''/vtop/hostel/deleteGeneralOutingInfo'' ''LeaveId'' ident)"

definition cancel_weekend_outing ::
  "'j web \<Rightarrow> ('d, 'e) dom \<Rightarrow> string \<Rightarrow> ('j VtopClient, OutingCancelResult) act" where
  "cancel_weekend_outing W D ident = andthen (weekend_outing W D) (\<lambda>page.
     if \<not> list_ex (\<lambda>r. wo_cancel_id r = ident) (wd_records page) then fail not_cancellable
     else cancel_outing W D ''cancel_weekend_outing'' ''/vtop/hostel/deleteBookingInfo'' ''BookingId'' ident)"

definition outing_pass :: "'j web \<Rightarrow> OutingKind \<Rightarrow> string \<Rightarrow> ('j VtopClient, bytes) act" where
  "outing_pass W kind ident = andthen (authorize W) (\<lambda>auth. now_unix W (\<lambda>now.
     reading (\<lambda>c. config_url c ((case kind of General \<Rightarrow> ''/vtop/hostel/downloadLeavePass/''
       | Weekend \<Rightarrow> ''/vtop/hostel/downloadOutingForm/'') @ ident)) (\<lambda>url.
     send_or_fail W (query_request W url (file_query W auth now)) (\<lambda>response.
       if is_login_url W (rs_url response) then change (mark_session_expired W) (fail SessionExpired)
       else andthen (or_fail NetworkError (rs_body response)) (\<lambda>bytes.
         if \<not> is_success (rs_status response) then
           fail (status_error ''get_outing_pass'' (rs_status response)
             (''VTOP returned HTTP '' @ wb_status_text W (rs_status response)))
         else if \<not> prefix (as_bytes ''%PDF'') bytes then fail (VtopServerError ''VTOP did not return the pass'')
         else ret bytes)))))"

end
