(* ===== verification/ClientRun.thy ===== *)
theory ClientRun
  imports OtpProps Outings
begin

section \<open>A client's life\<close>

text \<open>
  Every public operation of the client is a step; the states a client reaches are those of the
  steps in any order.  The invariant is kept by each, composed from what each request keeps.
\<close>

subsection \<open>What keeps the invariant\<close>

definition keeps :: "'j web \<Rightarrow> string set \<Rightarrow> string \<Rightarrow> ('j VtopClient, 'a) act \<Rightarrow> bool" where
  "keeps W T base m \<longleftrightarrow> (\<forall>c. client_inv W T base c \<longrightarrow> wp m (\<lambda>_. client_inv W T base) c)"

named_theorems keeps_intros

lemma keepsD: "keeps W T base m \<Longrightarrow> client_inv W T base c \<Longrightarrow> m c = (r, c') \<Longrightarrow> client_inv W T base c'"
  unfolding keeps_def by (auto dest: wpD)

lemma keeps_leaf [keeps_intros]:
  "keeps W T base (ret x)" "keeps W T base (fail e)" "keeps W T base (from_result r)" "keeps W T base (or_fail e x')"
  by (simp_all add: keeps_def wp_simps split: option.split)

lemma keeps_match [keeps_intros]:
  assumes "keeps W T base m" "\<And>r. keeps W T base (f r)" shows "keeps W T base (match m f)"
  unfolding keeps_def wp_match
proof (intro allI impI)
  fix c
  assume "client_inv W T base c"
  then have "wp m (\<lambda>_. client_inv W T base) c" using assms(1) by (simp add: keeps_def)
  then show "wp m (\<lambda>r. wp (f r) (\<lambda>_. client_inv W T base)) c"
    by (rule wp_mono) (use assms(2) in \<open>simp add: keeps_def\<close>)
qed

lemma keeps_andthen [keeps_intros]:
  assumes "keeps W T base m" "\<And>x. keeps W T base (f x)" shows "keeps W T base (andthen m f)"
  unfolding andthen_match
proof (rule keeps_match [OF assms(1)])
  fix r :: "VtopError + 'b"
  show "keeps W T base (case r of Inl e \<Rightarrow> fail e | Inr x \<Rightarrow> f x)"
    using assms(2) by (cases r) (auto intro: keeps_leaf)
qed

lemma keeps_reading [keeps_intros]: "(\<And>x. keeps W T base (f x)) \<Longrightarrow> keeps W T base (reading g f)"
  by (simp add: keeps_def wp_simps)

lemma keeps_change [keeps_intros]:
  "(\<And>c. client_inv W T base c \<Longrightarrow> client_inv W T base (h c)) \<Longrightarrow> keeps W T base m \<Longrightarrow> keeps W T base (change h m)"
  by (simp add: keeps_def wp_simps)

lemma keeps_now [keeps_intros]: "(\<And>t. keeps W T base (f t)) \<Longrightarrow> keeps W T base (now_unix W f)"
  by (simp add: keeps_def wp_simps)

lemma keeps_if [keeps_intros]: "keeps W T base m \<Longrightarrow> keeps W T base m' \<Longrightarrow> keeps W T base (if b then m else m')"
  by simp

lemma keeps_text [keeps_intros]: "(\<And>t. keeps W T base (f t)) \<Longrightarrow> keeps W T base (text_or_fail W response f)"
  by (auto simp: text_or_fail_def intro: keeps_leaf split: option.split)

lemma keeps_send:
  assumes "\<And>c. client_inv W T base c \<Longrightarrow> own_request c (g c)" and "\<And>response. keeps W T base (f response)"
  shows "keeps W T base (reading g (\<lambda>rq. send_or_fail W rq f))"
  unfolding keeps_def wp_reading
proof (intro allI impI)
  fix c
  assume i: "client_inv W T base c"
  show "wp (send_or_fail W (g c) f) (\<lambda>_. client_inv W T base) c"
  proof (rule wp_request [OF assms(1) [OF i]])
    fix response c1
    assume "after W c c1"
    then have "client_inv W T base c1" using i by blast
    then show "wp (f response) (\<lambda>_. client_inv W T base) c1" using assms(2) by (simp add: keeps_def)
  qed (use i in blast)
qed

lemma keeps_get [keeps_intros]:
  assumes "\<And>response. keeps W T base (f response)"
  shows "keeps W T base (send_or_fail W (query_request W url query) f)"
proof -
  have "keeps W T base (reading (\<lambda>c. query_request W url query) (\<lambda>rq. send_or_fail W rq f))"
    using assms by (intro keeps_send) (simp_all add: query_request_def)
  then show ?thesis by (simp add: reading_def)
qed

lemma keeps_read [keeps_intros]: "keeps W T base (read_authenticated_response_text W context response)"
  unfolding read_authenticated_response_text_def Let_def
  by (intro keeps_intros) simp_all

lemma keeps_send_authenticated:
  assumes "\<And>c. client_inv W T base c \<Longrightarrow> own_request c (g c)"
  shows "keeps W T base (reading g (send_authenticated W context))"
  unfolding keeps_def wp_reading
proof (intro allI impI)
  fix c
  assume i: "client_inv W T base c"
  have r: "wp (read_authenticated_response_text W context response) (\<lambda>_. client_inv W T base) c1"
    if "client_inv W T base c1" for response c1
    using keeps_read [of W T base "context" response] that unfolding keeps_def by blast
  have again: "wp (send_or_fail W (g c) (read_authenticated_response_text W context)) (\<lambda>_. client_inv W T base) c1"
    if a: "after W c c1" for c1
  proof -
    have o1: "own_request c1 (g c)" using assms [OF i] after_fields(2) [OF a] by (simp add: own_request_def)
    have "client_inv W T base c1" using i a by blast
    then show ?thesis by (intro wp_request [OF o1]) (auto intro: r)
  qed
  show "wp (send_authenticated W context (g c)) (\<lambda>_. client_inv W T base) c"
    unfolding send_authenticated_def Let_def
  proof (rule wp_request_any [OF assms [OF i]])
    fix res :: "SendError + Response" and c1
    assume a: "after W c c1"
    then have "client_inv W T base c1" using i by blast
    then show "wp (case res of Inl e \<Rightarrow>
           if se_timeout e then fail slow_vtop_error
           else if se_connect e then send_or_fail W (g c) (read_authenticated_response_text W context)
           else fail (send_error e)
         | Inr response \<Rightarrow>
           if \<not> is_server_error (rs_status response) \<or> rs_status response = 504
           then read_authenticated_response_text W context response
           else send_or_fail W (g c) (read_authenticated_response_text W context)) (\<lambda>_. client_inv W T base) c1"
      using again [OF a] r by (auto simp: wp_simps split: sum.split)
  qed
qed

lemma inv_own_post:
  "prefix ''/vtop/'' path \<Longrightarrow> own_request c (post_request (config_url c path) b)"
  by (rule own_post)

subsection \<open>The operations\<close>

lemma keeps_check [keeps_intros]: "keeps W T base (check_authenticated_session W b)"
  unfolding keeps_def by (auto intro!: wp_check)

lemma keeps_ensure [keeps_intros]: "keeps W T base (ensure_authenticated_session W)"
  unfolding keeps_def by (auto intro!: wp_ensure)

lemma keeps_authorize [keeps_intros]: "keeps W T base (authorize W)"
  unfolding authorize_def by (intro keeps_intros)

lemma keeps_verify: "keeps W T base (verify_session W)"
  unfolding verify_session_def registration_number_def by (intro keeps_intros)

lemma keeps_login: "keeps W T base (login W)"
  unfolding keeps_def using inv_login by (metis (mono_tags, lifting) wp_mono)

lemma keeps_submit: "keeps W T base (submit_security_otp W code)"
  unfolding keeps_def using inv_submit by (metis (mono_tags, lifting) wp_mono)

lemma keeps_resend: "keeps W T base (resend_security_otp W)"
proof -
  have "\<forall>p \<in> set paths. prefix ''/vtop/'' p \<Longrightarrow> keeps W T base (resend_at W csrf paths)" for csrf paths
  proof (induction paths)
    case (Cons p ps)
    then show ?case unfolding resend_at.simps Let_def
      by (intro keeps_send keeps_intros) (auto intro: own_post(2))
  qed (simp add: keeps_leaf)
  moreover have "\<forall>p \<in> set RESEND_PATHS. prefix ''/vtop/'' p" by (simp add: RESEND_PATHS_def)
  moreover have "keeps W T base otp_pending"
    unfolding otp_pending_def by (intro keeps_reading) (auto intro: keeps_leaf split: AuthStage.split)
  ultimately show ?thesis unfolding resend_security_otp_def by (intro keeps_andthen) auto
qed

lemma keeps_fetch_page [keeps_intros]:
  "prefix ''/vtop/'' path \<Longrightarrow> keeps W T base (fetch_page W context path body)"
  unfolding fetch_page_def by (intro keeps_andthen keeps_authorize keeps_send_authenticated own_post)

lemma keeps_post_form [keeps_intros]:
  "prefix ''/vtop/'' path \<Longrightarrow> keeps W T base (post_form W context path form)"
  unfolding post_form_def send_once_def by (intro keeps_send own_post keeps_read)

lemma keeps_files:
  "keeps W T base (course_page_file W path)" "keeps W T base (course_page_file_info W path)"
  "keeps W T base (course_plan W semester class_id)" "keeps W T base (course_plan_info W semester class_id)"
  "keeps W T base (outing_pass W kind ident)"
  unfolding course_page_file_def course_page_file_info_def course_plan_def course_plan_info_def outing_pass_def
    download_course_file_def course_file_info_def Let_def
  by (intro keeps_intros; simp)+

lemma keeps_outing [keeps_intros]:
  "keeps W T base (general_outing W D)" "keeps W T base (weekend_outing W D)"
  unfolding general_outing_def weekend_outing_def general_outing_page_def weekend_outing_page_def hostel_menu_page_def
  by (intro keeps_intros; simp)+

lemma keeps_apply:
  "keeps W T base (apply_general_outing W D ga)" "keeps W T base (apply_weekend_outing W D wa)"
proof -
  show "keeps W T base (apply_general_outing W D ga)"
    unfolding apply_general_outing_def
    by (rule keeps_andthen [OF keeps_outing(1)])
      (auto intro!: keeps_intros simp: split_beta split: option.split)
  show "keeps W T base (apply_weekend_outing W D wa)"
    unfolding apply_weekend_outing_def
    by (rule keeps_andthen [OF keeps_outing(2)])
      (auto intro!: keeps_intros simp: split_beta split: option.split)
qed

lemma keeps_cancel:
  "keeps W T base (cancel_general_outing W D ident)" "keeps W T base (cancel_weekend_outing W D ident)"
  unfolding cancel_general_outing_def cancel_weekend_outing_def cancel_outing_def
  by (intro keeps_intros; simp)+

lemma keeps_import [keeps_intros]: "keeps W T base (import_cookie_header W cookie)"
  unfolding import_cookie_header_def Let_def
  by (intro keeps_intros) (auto simp: client_inv_def)

lemma keeps_resume:
  assumes "\<And>n. parse_registration (st_registration_number s) = Inr (Some n) \<Longrightarrow> n \<in> T"
  shows "keeps W T base (resume_session W s)"
proof (cases "parse_registration (st_registration_number s)")
  case (Inl e)
  then show ?thesis unfolding resume_session_def keeps_def by (simp add: wp_simps)
next
  case (Inr number)
  have n: "n \<in> T" if "number = Some n" for n using assms Inr that by simp
  have f: "keeps W T base (case (st_otp_issued_at s, number) of
           (Some issued_at, _) \<Rightarrow> change (on_session (set_cookie_external False))
               (change (\<lambda>c. c\<lparr>vc_auth_stage := AwaitingOtp issued_at\<rparr>) (ret ()))
         | (None, Some number) \<Rightarrow>
             if st_csrf_token s \<noteq> None then change (on_session (set_registration_number number))
                 (change (on_session (set_authenticated True)) (ret ()))
             else ret ()
         | (None, None) \<Rightarrow> ret ())"
    unfolding keeps_def using n
    by (auto simp: wp_simps split: option.split intro!: inv_authenticated inv_number)
  have "keeps W T base (change (reset_session_state W) (andthen (import_cookie_header W (st_cookies s)) (\<lambda>_.
      change (\<lambda>c. c\<lparr>vc_logged_in_at := st_logged_in_at s\<rparr>)
      (change (case st_csrf_token s of Some csrf \<Rightarrow> on_session (set_csrf_token csrf) | None \<Rightarrow> (\<lambda>c. c))
        (case (st_otp_issued_at s, number) of
           (Some issued_at, _) \<Rightarrow> change (on_session (set_cookie_external False))
               (change (\<lambda>c. c\<lparr>vc_auth_stage := AwaitingOtp issued_at\<rparr>) (ret ()))
         | (None, Some number) \<Rightarrow>
             if st_csrf_token s \<noteq> None then change (on_session (set_registration_number number))
                 (change (on_session (set_authenticated True)) (ret ()))
             else ret ()
         | (None, None) \<Rightarrow> ret ())))))"
    by (intro keeps_change keeps_andthen keeps_import f) (auto split: option.split)
  then show ?thesis
    unfolding resume_session_def keeps_def wp_andthen wp_from_result Inr sum.case by blast
qed

end
