(* ===== verification/VtopClaims.thy ===== *)
theory VtopClaims
  imports ClientRun
begin

section \<open>The VTOP client: its claims\<close>

text \<open>
  The operations of a client in any order, as a step relation; the invariant its runs keep; how a
  sign-in ends; whose session it is.  A world of one page, in which the operations compute, serves
  the witnesses.
\<close>

subsection \<open>Steps\<close>

inductive client_step :: "'j web \<Rightarrow> ('d, 'e) dom \<Rightarrow> string set \<Rightarrow> 'j VtopClient \<Rightarrow> 'j VtopClient \<Rightarrow> bool"
  for W D T where
  logs_in: "login W c = (r, c') \<Longrightarrow> client_step W D T c c'"
| submits: "submit_security_otp W code c = (r, c') \<Longrightarrow> client_step W D T c c'"
| resends: "resend_security_otp W c = (r, c') \<Longrightarrow> client_step W D T c c'"
| verifies: "verify_session W c = (r, c') \<Longrightarrow> client_step W D T c c'"
| fetches: "prefix ''/vtop/'' path \<Longrightarrow> fetch_page W context path body c = (r, c') \<Longrightarrow> client_step W D T c c'"
| downloads: "course_page_file W path c = (r, c') \<Longrightarrow> client_step W D T c c'"
| inspects: "course_page_file_info W path c = (r, c') \<Longrightarrow> client_step W D T c c'"
| plans: "course_plan W semester class_id c = (r, c') \<Longrightarrow> client_step W D T c c'"
| inspects_plan: "course_plan_info W semester class_id c = (r, c') \<Longrightarrow> client_step W D T c c'"
| applies: "apply_general_outing W D ga c = (r, c') \<Longrightarrow> client_step W D T c c'"
| applies_weekend: "apply_weekend_outing W D wa c = (r, c') \<Longrightarrow> client_step W D T c c'"
| cancels: "cancel_general_outing W D ident c = (r, c') \<Longrightarrow> client_step W D T c c'"
| cancels_weekend: "cancel_weekend_outing W D ident c = (r, c') \<Longrightarrow> client_step W D T c c'"
| passes: "outing_pass W kind ident c = (r, c') \<Longrightarrow> client_step W D T c c'"
| imports_cookies: "import_cookie_header W cookie c = (r, c') \<Longrightarrow> client_step W D T c c'"
| resumes: "(\<And>n. parse_registration (st_registration_number s) = Inr (Some n) \<Longrightarrow> n \<in> T) \<Longrightarrow>
    resume_session W s c = (r, c') \<Longrightarrow> client_step W D T c c'"
| restores: "(\<And>n. parse_registration (pv_registration_number p) = Inr (Some n) \<Longrightarrow> n \<in> T) \<Longrightarrow>
    restore_persisted_session W p c = (r, c') \<Longrightarrow> client_step W D T c c'"
| reads_clock: "client_step W D T c (c\<lparr>vc_ticks := vc_ticks c + 1\<rparr>)"

abbreviation client_run :: "'j web \<Rightarrow> ('d, 'e) dom \<Rightarrow> string set \<Rightarrow> 'j VtopClient \<Rightarrow> 'j VtopClient \<Rightarrow> bool" where
  "client_run W D T \<equiv> (client_step W D T)\<^sup>*\<^sup>*"

lemmas stays = rtranclp.rtrancl_refl [where r = "client_step W D T" for W D T]
lemmas goes = rtranclp.rtrancl_into_rtrancl [where r = "client_step W D T" for W D T]

lemma keepsE: "keeps W T base m \<Longrightarrow> m c = (r, c') \<Longrightarrow> client_inv W T base c \<Longrightarrow> client_inv W T base c'"
  by (rule keepsD)

lemma inv_step: "client_step W D T c c' \<Longrightarrow> client_inv W T base c \<Longrightarrow> client_inv W T base c'"
proof (induction rule: client_step.induct)
  case (fetches path "context" body c r c')
  from keepsE [OF keeps_fetch_page [OF fetches(1)] fetches(2,3)] show ?case .
next
  case (resumes s c r c')
  from keepsE [OF keeps_resume [OF resumes(1)] resumes(2,3)] show ?case .
next
  case (restores p c r c')
  then have "keeps W T base (restore_persisted_session W p)"
    unfolding restore_persisted_session_def
    by (auto intro!: keeps_resume keeps_leaf split: option.split)
  from keepsE [OF this restores(2,3)] show ?case .
next
  case (reads_clock c)
  then show ?case by simp
qed ((erule (1) keepsE [OF keeps_login] | erule (1) keepsE [OF keeps_submit] | erule (1) keepsE [OF
    keeps_resend] | erule (1) keepsE [OF keeps_verify] | erule (1) keepsE [OF keeps_files(1)] | erule
    (1) keepsE [OF keeps_files(2)] | erule (1) keepsE [OF keeps_files(3)] | erule (1) keepsE [OF
    keeps_files(4)] | erule (1) keepsE [OF keeps_files(5)] | erule (1) keepsE [OF keeps_apply(1)] |
    erule (1) keepsE [OF keeps_apply(2)] | erule (1) keepsE [OF keeps_cancel(1)] | erule (1) keepsE [OF
    keeps_cancel(2)] | erule (1) keepsE [OF keeps_import])+)

interpretation vtop: step_system "client_step W D T" "client_inv W T base" for W D T base
  by unfold_locales (rule inv_step)

lemmas inv_run = vtop.run_inv

subsection \<open>A world to run in\<close>

text \<open>One page answers everything: it opens a session, shows a CAPTCHA, and is the session page.\<close>

definition toy_page :: HopResponse where
  "toy_page = \<lparr>hr_status = 200, hr_set_cookies = [], hr_location = None, hr_content_type = None,
     hr_content_disposition = None, hr_body = Some (as_bytes ''base64,'')\<rparr>"

definition toy_web :: "(HopRequest list \<Rightarrow> SendError + HopResponse) \<Rightarrow> unit web" where
  "toy_web http = \<lparr>wb_url = Some, wb_path = (\<lambda>u. u), wb_join = (\<lambda>_ u. Some u), wb_with_query = (\<lambda>u _. u),
     wb_url_error = (\<lambda>_ _. []), wb_jar_new = (), wb_jar_add = (\<lambda>_ _ _. ()), wb_jar_set = (\<lambda>_ _ _. ()),
     wb_jar_header = (\<lambda>_ _. None), wb_http = http, wb_status_text = show_nat, wb_decode = of_bytes,
     wb_clock = (\<lambda>n. n), wb_csrf_input = (\<lambda>_. Some ''t''), wb_registration_input = (\<lambda>_. Some ''22BCE0001''),
     wb_captcha_src = (\<lambda>_. Some ''data:image/png;base64,AA''), wb_login_alert = (\<lambda>_. None),
     wb_captcha = (\<lambda>_. Inr ''ABC''), wb_json = \<lparr>js_read = (\<lambda>_. None), js_print = (\<lambda>_. [])\<rparr>,
     wb_upper = (\<lambda>s. s), wb_lower = (\<lambda>s. s), wb_urlencode = (\<lambda>s. s), wb_http_date = show_nat\<rparr>"

definition toy_client :: "unit VtopClient" where
  "toy_client = client_new (toy_web (\<lambda>_. Inr toy_page)) ''v'' (Some \<lparr>cr_username = ''A'', cr_password = ''p''\<rparr>)"

definition toy_dom :: "(unit, unit) dom" where
  "toy_dom = \<lparr>dm_parse = (\<lambda>_. ()), dm_select = (\<lambda>_ _. []), dm_within = (\<lambda>_ _. []), dm_attr = (\<lambda>_ _. None),
     dm_texts = (\<lambda>_. []), dm_fragment = (\<lambda>_. ()), dm_root = (\<lambda>_. ()), dm_html = (\<lambda>_. [])\<rparr>"

text \<open>C2: In whatever order a client's operations are called, and whatever VTOP answers: a session it
  calls signed in has its token and its registration number, and a restored one the cookies it
  came with; the registration number is one a resumed snapshot brought along or one that was on a
  page VTOP served; and a request that carries anything, so the password, a code or the token in a
  form, goes to the client's own VTOP address and never to where a redirect leads.\<close>

theorem client_invariant:
  assumes "client_run W D T (client_new W base cr) c"
  shows "(sm_is_authenticated (vc_session c) \<longrightarrow> has_usable_session c) \<and>
    (is_cookie_external (vc_session c) \<longrightarrow> sm_external_cookie_header (vc_session c) \<noteq> None) \<and>
    (\<forall>n. sm_registration_number (vc_session c) = Some n \<longrightarrow> n \<in> T \<or> page_number W (vc_sent c) n) \<and>
    (\<forall>h \<in> set (vc_sent c). hp_body h \<noteq> NoBody \<longrightarrow> (\<exists>path. wb_url W (base @ ''/vtop/'' @ path) = Some (hp_url h)))"
  using inv_run [OF assms inv_new] authenticated_csrf
  by (auto simp: client_inv_def has_usable_session_def home_def)

lemma toy_login: "login (toy_web (\<lambda>_. Inr toy_page)) toy_client = (fst (login (toy_web (\<lambda>_. Inr toy_page)) toy_client),
    snd (login (toy_web (\<lambda>_. Inr toy_page)) toy_client))"
  by simp

lemma toy_login_result:
  "fst (login (toy_web (\<lambda>_. Inr toy_page)) toy_client) = Inr ()"
  "sm_is_authenticated (vc_session (snd (login (toy_web (\<lambda>_. Inr toy_page)) toy_client)))"
  "length (vc_sent (snd (login (toy_web (\<lambda>_. Inr toy_page)) toy_client))) = 3"
  by code_simp+

lemma toy_run: "client_run (toy_web (\<lambda>_. Inr toy_page)) toy_dom {} toy_client
    (snd (login (toy_web (\<lambda>_. Inr toy_page)) toy_client))"
  by (rule goes [OF stays logs_in [OF toy_login]])

theorem client_invariant_witness:
  "has_usable_session (snd (login (toy_web (\<lambda>_. Inr toy_page)) toy_client))"
  using client_invariant [OF toy_run [unfolded toy_client_def]] toy_login_result(2) by (simp add: toy_client_def)

text \<open>C10: A sign-in ends, whatever VTOP answers, after at most 842 requests of at most 11 hops each;
  when it succeeds the last answer was a session page whose token and registration number the
  session now has, and when it asks for the emailed code the client waits for one, from the time
  the error names, with the token that submitting it needs.\<close>

theorem login_outcome:
  assumes "client_run W D T (client_new W base cr) c" and "login W c = (r, c')"
  shows "length (vc_sent c') \<le> length (vc_sent c) + 842 * 11 \<and>
    (r = Inr () \<longrightarrow> is_signed_in W c') \<and> (\<forall>m t. r = Inl (OTPRequired m t) \<longrightarrow> awaits_otp t c')"
proof -
  have "client_inv W T base c" by (rule inv_run [OF assms(1) inv_new])
  from wpD [OF inv_login [OF this] assms(2)] have "login_post W r c'" by blast
  moreover have "length (vc_sent c') \<le> length (vc_sent c) + 842 * 11"
    using sendsD(1) [OF sends_login assms(2)] by (simp add: MAX_REDIRECTS_def)
  ultimately show ?thesis by (simp add: login_post_def)
qed

theorem login_outcome_witness:
  "is_signed_in (toy_web (\<lambda>_. Inr toy_page)) (snd (login (toy_web (\<lambda>_. Inr toy_page)) toy_client))"
proof -
  have "client_run (toy_web (\<lambda>_. Inr toy_page)) toy_dom {} toy_client toy_client" by (rule stays)
  from login_outcome [OF this [unfolded toy_client_def] toy_login [unfolded toy_client_def]] toy_login_result(1)
  show ?thesis by (simp add: toy_client_def)
qed

subsection \<open>Whose session it is\<close>

text \<open>Requests do not look at the session.\<close>

lemma one_hop_session:
  "one_hop W rq (c\<lparr>vc_session := s\<rparr>) = (case one_hop W rq c of (res, c') \<Rightarrow> (res, c'\<lparr>vc_session := s\<rparr>))"
  by (auto simp: one_hop_def with_cookies_def Let_def split: sum.split)

lemma follow_session:
  "follow W n rq (c\<lparr>vc_session := s\<rparr>) = (case follow W n rq c of (res, c') \<Rightarrow> (res, c'\<lparr>vc_session := s\<rparr>))"
proof (induction W n rq c rule: follow.induct)
  case (1 W n rq c)
  obtain res c1 where h: "one_hop W rq c = (res, c1)" by (cases "one_hop W rq c")
  show ?case
  proof (cases res)
    case (Inl e)
    then show ?thesis using h by (simp add: follow.simps [of W n] one_hop_session)
  next
    case (Inr r)
    show ?thesis
    proof (cases "hr_status r \<notin> {301, 302, 303} \<or> MAX_REDIRECTS \<le> n")
      case True
      then show ?thesis using h Inr by (simp add: follow.simps [of W n] one_hop_session)
    next
      case False
      then show ?thesis using h Inr 1 [OF h [symmetric] Inr False]
        by (simp add: follow.simps [of W n] one_hop_session split: option.split)
    qed
  qed
qed

lemma send_request_session:
  "send_request W rq (c\<lparr>vc_session := s\<rparr>) =
     (case send_request W rq c of (res, c') \<Rightarrow> (res, c'\<lparr>vc_session := s\<rparr>))"
  by (simp add: send_request_def follow_session split: option.split)

text \<open>The session page that was read, and what the check answers, as a function of the answer.\<close>

definition checked :: "'j web \<Rightarrow> bool \<Rightarrow> SendError + Response \<Rightarrow> VtopError + (string \<times> string) option" where
  "checked W strict res = (case res of
     Inl e \<Rightarrow> Inl (send_error e)
   | Inr response \<Rightarrow>
       if strict \<and> is_server_error (rs_status response) \<and> \<not> is_login_url W (rs_url response) then
         Inl (status_error ''validate_authenticated_session'' (rs_status response)
           (''HTTP '' @ wb_status_text W (rs_status response)))
       else if is_login_url W (rs_url response) \<or> \<not> is_success (rs_status response) then Inr None
       else (case rs_body response of None \<Rightarrow> Inl NetworkError
         | Some b \<Rightarrow> (case extract_session_fields W (wb_decode W b) of
             (None, _) \<Rightarrow> Inl (ParseError ''VTOP's session page was missing its token'')
           | (Some csrf, None) \<Rightarrow> Inl RegistrationParsingError
           | (Some csrf, Some number) \<Rightarrow>
               and_then (RegistrationNumber_parse number) (\<lambda>n. Inr (Some (csrf, n))))))"

definition content_request :: "'j VtopClient \<Rightarrow> HopRequest" where
  "content_request c = (get_request (config_url c ''/vtop/content''))
     \<lparr>hp_cookie := sm_external_cookie_header (vc_session c)\<rparr>"

lemma check_eq:
  "check_authenticated_session W strict c =
     (case send_request W (content_request c) c of (res, c1) \<Rightarrow>
        (case checked W strict res of
           Inl e \<Rightarrow> (Inl e, c1)
         | Inr None \<Rightarrow> (Inr False, reset_session_state W c1)
         | Inr (Some (csrf, n)) \<Rightarrow> (Inr True, on_session (signed_in csrf n) c1)))"
  by (auto simp: check_authenticated_session_def reading_def send_or_fail_def send_with_def content_request_def
      checked_def Let_def fail_def change_def ret_def text_or_fail_def or_fail_def andthen_def from_result_def
      signed_in_def on_session_def split: prod.split sum.split option.split)

lemma checked_page:
  assumes "checked W strict res = Inr (Some (csrf, n))"
  obtains response b number where "res = Inr response" "rs_body response = Some b"
    "extract_session_fields W (wb_decode W b) = (Some csrf, Some number)" "RegistrationNumber_parse number = Inr n"
    "is_success (rs_status response)" "\<not> is_login_url W (rs_url response)"
proof -
  obtain response where r: "res = Inr response" using assms by (cases res) (auto simp: checked_def)
  then obtain b where b: "rs_body response = Some b"
    and ok: "is_success (rs_status response)" "\<not> is_login_url W (rs_url response)"
    using assms by (auto simp: checked_def split: if_splits option.splits)
  obtain k m where f: "extract_session_fields W (wb_decode W b) = (k, m)" by fastforce
  from assms r b ok f obtain number where "k = Some csrf" "m = Some number" "RegistrationNumber_parse number = Inr n"
    by (cases k; cases m; cases "RegistrationNumber_parse (the m)") (auto simp: checked_def split: if_splits)
  with r b ok f that show ?thesis by blast
qed

lemma verify_eq:
  "verify_session W c =
     (case send_request W (content_request c) c of (res, c1) \<Rightarrow>
        (case checked W True res of
           Inl e \<Rightarrow> (Inl e, c1)
         | Inr None \<Rightarrow> (Inl SessionExpired, reset_session_state W c1)
         | Inr (Some (csrf, n)) \<Rightarrow> (Inr n, on_session (signed_in csrf n) c1)))"
  by (auto simp: verify_session_def check_eq andthen_def registration_number_def reading_def or_fail_def fail_def ret_def
      split: prod.split sum.split option.split)

text \<open>C14: Asked whose a session is, the client loads the content page, once, and answers with the
  registration number on the page VTOP serves for it: neither the registration number, nor the
  token, nor the state the caller put in the session has any part in the answer, the error
  included, or in what is sent.\<close>

theorem verify_trusts_only_vtop:
  assumes "verify_session W c = (r, c')"
    and "sm_external_cookie_header s = sm_external_cookie_header (vc_session c)"
    and "verify_session W (c\<lparr>vc_session := s\<rparr>) = (r2, c2')"
  shows "r2 = r \<and> vc_sent c2' = vc_sent c' \<and> length (vc_sent c') \<le> length (vc_sent c) + 11 \<and>
    (\<forall>n. r = Inr n \<longrightarrow> (\<exists>csrf. session_page W (vc_sent c') csrf n \<and>
       sm_state (vc_session c') = Authenticated csrf \<and> sm_registration_number (vc_session c') = Some n))"
proof -
  obtain res c1 where q: "send_request W (content_request c) c = (res, c1)" by (cases "send_request W (content_request c) c")
  have "content_request (c\<lparr>vc_session := s\<rparr>) = content_request c"
    using assms(2) by (simp add: content_request_def config_url_def)
  then have q2: "send_request W (content_request (c\<lparr>vc_session := s\<rparr>)) (c\<lparr>vc_session := s\<rparr>) = (res, c1\<lparr>vc_session := s\<rparr>)"
    using q by (simp add: send_request_session)
  from send_request_hops [OF q] have l: "length (vc_sent c1) \<le> length (vc_sent c) + 11"
    and srv: "\<And>response. res = Inr response \<Longrightarrow> served W (vc_sent c1) response"
    by (auto simp: hops_of_def MAX_REDIRECTS_def)
  show ?thesis
  proof (cases "checked W True res")
    case (Inl e)
    then show ?thesis using assms(1,3) q q2 l by (auto simp: verify_eq)
  next
    case (Inr o')
    show ?thesis
    proof (cases o')
      case None
      then show ?thesis using assms(1,3) q q2 l Inr by (auto simp: verify_eq)
    next
      case (Some p)
      then obtain csrf n where p: "checked W True res = Inr (Some (csrf, n))" using Inr by (cases p) auto
      then have "session_page W (vc_sent c1) csrf n"
        using srv by (auto simp: session_page_def elim!: checked_page)
      moreover have "sm_state (signed_in csrf n s') = Authenticated csrf" for s'
        by (rule authenticated_state) simp_all
      ultimately show ?thesis using assms(1,3) q q2 l p by (auto simp: verify_eq)
    qed
  qed
qed

theorem verify_trusts_only_vtop_witness:
  "fst (verify_session (toy_web (\<lambda>_. Inr toy_page)) (toy_client\<lparr>vc_session := \<lparr>sm_state = Authenticated ''x'',
      sm_external_cookie_header = None, sm_registration_number = Some ''21MIS0002''\<rparr>\<rparr>)) = Inr ''22BCE0001''"
proof -
  let ?W = "toy_web (\<lambda>_. Inr toy_page)"
  let ?s = "\<lparr>sm_state = Authenticated ''x'', sm_external_cookie_header = None, sm_registration_number = Some ''21MIS0002''\<rparr>"
  have "fst (verify_session ?W toy_client) = Inr ''22BCE0001''" by code_simp
  moreover have "sm_external_cookie_header ?s = sm_external_cookie_header (vc_session toy_client)"
    by (simp add: toy_client_def client_new_def)
  ultimately show ?thesis
    using verify_trusts_only_vtop [OF prod.collapse [symmetric] _ prod.collapse [symmetric], of ?s toy_client ?W] by metis
qed

end
