(* ===== verification/SessionClaims.thy ===== *)
theory SessionClaims
  imports VtopClaims
begin

section \<open>Requests and snapshots: the claims\<close>

text \<open>What a signed-in request does to the session, and what a snapshot brings back.\<close>

subsection \<open>Signed-in requests\<close>

lemma session_clear_new: "session_clear s = session_new"
  by (simp add: session_clear_def session_new_def)

text \<open>What a signed-in request may do to the client: nothing, or end its session.\<close>

definition request_post ::
  "'j web \<Rightarrow> 'j VtopClient \<Rightarrow> VtopError + string \<Rightarrow> 'j VtopClient \<Rightarrow> bool" where
  "request_post W c r c' \<longleftrightarrow>
     (vc_session c' = vc_session c \<and> vc_auth_stage c' = vc_auth_stage c \<and> vc_logged_in_at c' = vc_logged_in_at c \<and>
        r \<noteq> Inl SessionExpired \<and>
        (\<forall>page. r = Inr page \<longrightarrow> (\<exists>response b. served W (vc_sent c') response \<and> is_success (rs_status response) \<and>
           \<not> is_login_url W (rs_url response) \<and> rs_body response = Some b \<and> page = wb_decode W b))) \<or>
     (vc_session c' = session_new \<and> vc_auth_stage c' = Idle \<and> vc_logged_in_at c' = None \<and> vc_jar c' = wb_jar_new W \<and>
        (r = Inl SessionExpired \<or> (\<exists>m. r = Inl (VtopServerError m))))"

lemma read_post:
  assumes "after W c c1" "served W (vc_sent c1) response"
  shows "wp (read_authenticated_response_text W context response) (request_post W c) c1"
proof -
  have e: "status_error context s d \<noteq> SessionExpired" for s d
    by (simp add: status_error_def slow_vtop_error_def unavailable_def server_error_def)
  have 1: "request_post W c (Inl (status_error context s d)) c1" for s d
    using after_fields [OF assms(1)] e by (simp add: request_post_def)
  have 2: "request_post W c (Inl NetworkError) c1"
    using after_fields [OF assms(1)] by (simp add: request_post_def)
  have 3: "request_post W c (Inr (wb_decode W b)) c1"
    if "rs_body response = Some b" "is_success (rs_status response)" "\<not> is_login_url W (rs_url response)" for b
    using after_fields [OF assms(1)] assms(2) that by (auto simp: request_post_def)
  have 4: "request_post W c (Inl e) (reset_session_state W c1)" if "e = SessionExpired \<or> (\<exists>m. e = VtopServerError m)" for e
    using that by (auto simp: request_post_def reset_session_state_def session_clear_new)
  show ?thesis
    unfolding read_authenticated_response_text_def Let_def
    using 1 2 3 4 by (auto simp: wp_simps server_error_def split: option.split)
qed

lemma send_once_post:
  assumes "own_request c rq"
  shows "wp (send_or_fail W rq (read_authenticated_response_text W context)) (request_post W c) c"
proof (rule wp_request [OF assms])
  fix e c1
  assume "after W c c1"
  from after_fields [OF this] show "request_post W c (Inl (send_error e)) c1"
    by (simp add: request_post_def send_error_def slow_vtop_error_def unavailable_def)
qed (rule read_post)

text \<open>A request with any address: for the post condition only the client's own fields matter.\<close>

lemma sends_read [sends_intros]: "sends n (read_authenticated_response_text W context response)"
  unfolding read_authenticated_response_text_def Let_def by (intro sends_intros) simp_all

lemma sends_send_authenticated: "sends 2 (send_authenticated W context rq)"
proof -
  have a: "sends (Suc 0) (send_or_fail W rq (read_authenticated_response_text W context))"
    by (intro sends_intros)
  have "sends (Suc 0) (case res of Inl e \<Rightarrow>
           if se_timeout e then fail slow_vtop_error
           else if se_connect e then send_or_fail W rq (read_authenticated_response_text W context)
           else fail (send_error e)
         | Inr response \<Rightarrow>
           if \<not> is_server_error (rs_status response) \<or> rs_status response = 504
           then read_authenticated_response_text W context response
           else send_or_fail W rq (read_authenticated_response_text W context))" for res
    using a by (cases res) (auto intro!: sends_intros)
  then show ?thesis unfolding send_authenticated_def Let_def numeral_2_eq_2 by (rule sends_send_with)
qed

lemma request_post_after:
  assumes "after W c c1" "request_post W c1 r c'" shows "request_post W c r c'"
  using assms(2) after_fields [OF assms(1)] by (simp add: request_post_def)

lemma send_authenticated_post:
  assumes "own_request c rq"
  shows "wp (send_authenticated W context rq) (request_post W c) c"
  unfolding send_authenticated_def Let_def
proof (rule wp_request_any [OF assms])
  fix res :: "SendError + Response" and c1
  assume a: "after W c c1" and s: "\<And>response. res = Inr response \<Longrightarrow> served W (vc_sent c1) response"
  have o1: "own_request c1 rq" using assms after_fields(2) [OF a] by (simp add: own_request_def)
  have again: "wp (send_or_fail W rq (read_authenticated_response_text W context)) (request_post W c) c1"
    using send_once_post [OF o1] by (rule wp_mono) (rule request_post_after [OF a])
  have f: "request_post W c (Inl e) c1" if "e \<noteq> SessionExpired" for e
    using that after_fields [OF a] by (simp add: request_post_def)
  show "wp (case res of Inl e \<Rightarrow>
           if se_timeout e then fail slow_vtop_error
           else if se_connect e then send_or_fail W rq (read_authenticated_response_text W context)
           else fail (send_error e)
         | Inr response \<Rightarrow>
           if \<not> is_server_error (rs_status response) \<or> rs_status response = 504
           then read_authenticated_response_text W context response
           else send_or_fail W rq (read_authenticated_response_text W context)) (request_post W c) c1"
    using again f read_post [OF a s]
    by (auto simp: wp_simps slow_vtop_error_def unavailable_def send_error_def split: sum.split)
qed

text \<open>C7: A signed-in request to VTOP is sent at most twice.  It gives a page only when the last
  answer was a success away from the login page, and then the session is untouched; the session is
  forgotten exactly when it is reported as expired or VTOP answered with an error of its own, so
  that neither an outage, nor a timeout, nor the phone being offline signs anybody out; and after a
  timeout, or an answer that is not a server error, nothing is sent again.\<close>

theorem signed_in_request_outcome:
  assumes "own_request c rq" and "send_authenticated W context rq c = (r, c')"
    and "send_request W rq c = (res, c1)"
  shows "request_post W c r c' \<and> length (vc_sent c') \<le> length (vc_sent c) + 22 \<and>
    (\<forall>e. res = Inl e \<longrightarrow> se_timeout e \<longrightarrow> r = Inl slow_vtop_error \<and> c' = c1) \<and>
    (\<forall>response. res = Inr response \<longrightarrow> \<not> is_server_error (rs_status response) \<or> rs_status response = 504 \<longrightarrow>
       vc_sent c' = vc_sent c1)"
proof (intro conjI allI impI)
  show "request_post W c r c'" by (rule wpD [OF send_authenticated_post [OF assms(1)] assms(2)])
  show "length (vc_sent c') \<le> length (vc_sent c) + 22"
    using sendsD(1) [OF sends_send_authenticated assms(2)] by (simp add: MAX_REDIRECTS_def)
  show "r = Inl slow_vtop_error" "c' = c1" if "res = Inl e" "se_timeout e" for e
    using assms(2,3) that by (simp_all add: send_authenticated_def send_with_def fail_def Let_def)
  show "vc_sent c' = vc_sent c1" if "res = Inr response" "\<not> is_server_error (rs_status response) \<or> rs_status response = 504"
    for response
    using assms(2,3) that
    by (auto simp: send_authenticated_def send_with_def Let_def read_authenticated_response_text_def fail_def change_def
        text_or_fail_def ret_def split: if_splits option.splits)
qed

theorem signed_in_request_outcome_witness:
  "request_post (toy_web (\<lambda>_. Inr (toy_page\<lparr>hr_status := 503\<rparr>))) toy_client (Inl (VtopUnavailable ''VTOP is down right now''))
     (snd (send_authenticated (toy_web (\<lambda>_. Inr (toy_page\<lparr>hr_status := 503\<rparr>))) ''c'' (get_request ''v/vtop/x'') toy_client))"
proof -
  let ?W = "toy_web (\<lambda>_. Inr (toy_page\<lparr>hr_status := 503\<rparr>))"
  have "fst (send_authenticated ?W ''c'' (get_request ''v/vtop/x'') toy_client) = Inl (VtopUnavailable ''VTOP is down right now'')"
    by code_simp
  moreover have "own_request toy_client (get_request ''v/vtop/x'')" by (rule own_get(1))
  ultimately show ?thesis
    using signed_in_request_outcome [of toy_client "get_request ''v/vtop/x''" ?W "''c''", OF _ prod.collapse [symmetric]
        prod.collapse [symmetric]] by metis
qed

subsection \<open>Snapshots\<close>

lemma import_cookies:
  "import_cookie_header W cookie c = (r, c') \<Longrightarrow>
     (trim cookie = [] \<and> r = Inr () \<and> c' = c) \<or>
     (trim cookie \<noteq> [] \<and> (\<exists>e. vtop_url W c = Inl e \<and> r = Inl e) \<and> c' = c) \<or>
     (trim cookie \<noteq> [] \<and> (\<exists>url. vtop_url W c = Inr url) \<and> r = Inr () \<and>
       (\<exists>j. c' = on_session (set_external_cookie_header cookie) (c\<lparr>vc_jar := j\<rparr>)))"
  by (auto simp: import_cookie_header_def reading_def andthen_def from_result_def change_def ret_def Let_def
      split: if_splits sum.splits)

definition resumed_as_signed_in :: "SessionState \<Rightarrow> bool" where
  "resumed_as_signed_in s \<longleftrightarrow>
     st_otp_issued_at s = None \<and> st_csrf_token s \<noteq> None \<and> st_registration_number s \<noteq> None"

text \<open>Resuming a snapshot, without what is sent and the jar.\<close>

definition resumed :: "SessionState \<Rightarrow> 'j VtopClient \<Rightarrow> bool" where
  "resumed s c \<longleftrightarrow>
     sm_csrf_token (vc_session c) = st_csrf_token s \<and>
     vc_auth_stage c = (case st_otp_issued_at s of Some t \<Rightarrow> AwaitingOtp t | None \<Rightarrow> Idle) \<and>
     vc_logged_in_at c = st_logged_in_at s \<and>
     (sm_is_authenticated (vc_session c) \<longleftrightarrow> resumed_as_signed_in s) \<and>
     sm_registration_number (vc_session c) =
       (if resumed_as_signed_in s then map_option trim (st_registration_number s) else None) \<and>
     (is_cookie_external (vc_session c) \<longleftrightarrow>
       trim (st_cookies s) \<noteq> [] \<and> st_otp_issued_at s = None \<and> \<not> resumed_as_signed_in s) \<and>
     sm_external_cookie_header (vc_session c) = (if trim (st_cookies s) = [] then None else Some (st_cookies s))"

lemma registration_trimmed:
  "parse_registration number = Inr m \<Longrightarrow> m = map_option trim number"
  by (auto simp: parse_registration_def RegistrationNumber_parse_def Let_def split: option.splits sum.splits if_splits)

lemma reset_session_fields [simp]:
  "vc_session (reset_session_state W c) = session_new" "vc_auth_stage (reset_session_state W c) = Idle"
  "vc_logged_in_at (reset_session_state W c) = None" "vc_jar (reset_session_state W c) = wb_jar_new W"
  "vc_sent (reset_session_state W c) = vc_sent c" "vc_base_url (reset_session_state W c) = vc_base_url c"
  "vc_credentials (reset_session_state W c) = vc_credentials c"
  by (simp_all add: reset_session_state_def session_clear_new)

lemma resume_after_import:
  assumes "resume_session W s c = (r, c')" "parse_registration (st_registration_number s) = Inr m"
    and "import_cookie_header W (st_cookies s) (reset_session_state W c) = (Inr (), c1)"
  shows "r = Inr () \<and> resumed s c' \<and> vc_sent c' = vc_sent c \<and> vc_base_url c' = vc_base_url c \<and>
    vc_credentials c' = vc_credentials c"
proof -
  note m = registration_trimmed [OF assms(2)]
  from import_cookies [OF assms(3)] obtain j where c1:
    "c1 = (if trim (st_cookies s) = [] then reset_session_state W c
       else on_session (set_external_cookie_header (st_cookies s)) ((reset_session_state W c)\<lparr>vc_jar := j\<rparr>))"
    by auto
  show ?thesis
    using assms c1 m
    by (cases "st_otp_issued_at s"; cases "st_csrf_token s"; cases "st_registration_number s")
      (auto simp: resume_session_def andthen_def from_result_def change_def ret_def resumed_def
        resumed_as_signed_in_def on_session_def split: if_splits)
qed

text \<open>C22: A snapshot that is resumed replaces the session: the token, a pending code and the time of the
  login are the snapshot's; the session counts as signed in exactly when the snapshot has both the
  token and the registration number and no code is pending, and otherwise has to be checked when it
  has cookies; nothing of the session before has any part in it, and nothing is sent.  A snapshot with
  a blank registration number is refused and changes nothing; with an address that is no URL the
  client is left with no session.\<close>

theorem resume_exact:
  assumes "resume_session W s c = (r, c')"
  shows "(r = Inr () \<and> resumed s c' \<or>
      r = Inl RegistrationParsingError \<and> c' = c \<and> map_option trim (st_registration_number s) = Some [] \<or>
      (\<exists>m. r = Inl (ConfigurationError m) \<and> c' = reset_session_state W c)) \<and> vc_sent c' = vc_sent c \<and>
    (r = Inr () \<longrightarrow> (\<forall>old stage t j. resume_session W s
      (c\<lparr>vc_session := old, vc_auth_stage := stage, vc_logged_in_at := t, vc_jar := j\<rparr>) = (Inr (), c')))"
proof (cases "parse_registration (st_registration_number s)")
  case (Inl e)
  then have "r = Inl e" "c' = c" using assms by (simp_all add: resume_session_def andthen_def from_result_def)
  moreover have "e = RegistrationParsingError" "map_option trim (st_registration_number s) = Some []"
    using Inl by (auto simp: parse_registration_def RegistrationNumber_parse_def Let_def
        split: option.splits sum.splits if_splits)
  ultimately show ?thesis by simp
next
  case (Inr m)
  obtain r1 c1 where i: "import_cookie_header W (st_cookies s) (reset_session_state W c) = (r1, c1)"
    by (cases "import_cookie_header W (st_cookies s) (reset_session_state W c)")
  have same: "reset_session_state W (c\<lparr>vc_session := old, vc_auth_stage := stage, vc_logged_in_at := t, vc_jar := j\<rparr>) =
      reset_session_state W c" for old stage t j
    by (simp add: reset_session_state_def session_clear_def)
  show ?thesis
  proof (cases r1)
    case (Inl e)
    then have "r = Inl e" "c' = c1" using assms Inr i
      by (simp_all add: resume_session_def andthen_def from_result_def change_def)
    moreover have "c1 = reset_session_state W c" "\<exists>m. e = ConfigurationError m"
      using import_cookies [OF i] Inl by (auto simp: vtop_url_def split: option.splits)
    ultimately show ?thesis by auto
  next
    case (Inr u)
    then have "import_cookie_header W (st_cookies s) (reset_session_state W c) = (Inr (), c1)" using i by simp
    from resume_after_import [OF assms \<open>parse_registration _ = Inr m\<close> this]
    have "r = Inr () \<and> resumed s c' \<and> vc_sent c' = vc_sent c" by blast
    moreover have "resume_session W s (c\<lparr>vc_session := old, vc_auth_stage := stage, vc_logged_in_at := t, vc_jar := j\<rparr>) =
        resume_session W s c" for old stage t j
      using \<open>parse_registration _ = Inr m\<close>
      by (simp add: resume_session_def andthen_def from_result_def change_def same)
    ultimately show ?thesis using assms by simp
  qed
qed

theorem resume_exact_witness:
  "resumed \<lparr>st_cookies = ''JSESSIONID=1'', st_csrf_token = Some ''t'', st_registration_number = Some '' 22BCE0001 '',
      st_otp_issued_at = None, st_logged_in_at = Some 5\<rparr>
    (snd (resume_session (toy_web (\<lambda>_. Inr toy_page)) \<lparr>st_cookies = ''JSESSIONID=1'', st_csrf_token = Some ''t'',
      st_registration_number = Some '' 22BCE0001 '', st_otp_issued_at = None, st_logged_in_at = Some 5\<rparr> toy_client))"
proof -
  let ?s = "\<lparr>st_cookies = ''JSESSIONID=1'', st_csrf_token = Some ''t'', st_registration_number = Some '' 22BCE0001 '',
      st_otp_issued_at = None, st_logged_in_at = Some 5\<rparr>"
  have "fst (resume_session (toy_web (\<lambda>_. Inr toy_page)) ?s toy_client) = Inr ()" by code_simp
  then show ?thesis using resume_exact [OF prod.collapse [symmetric], of "toy_web (\<lambda>_. Inr toy_page)" ?s toy_client] by auto
qed

end
