(* ===== verification/OtpClaims.thy ===== *)
theory OtpClaims
  imports SessionClaims
begin

section \<open>Answering the challenge: the claims\<close>

text \<open>What a submitted code does, and that the loops which look codes up come to an end.\<close>

subsection \<open>One code\<close>

text \<open>A client that waits for a code, in the world of one page: it resumed a snapshot that does.\<close>

definition waiting_state :: SessionState where
  "waiting_state = \<lparr>st_cookies = ''k=v'', st_csrf_token = Some ''t'', st_registration_number = None,
     st_otp_issued_at = Some 7, st_logged_in_at = None\<rparr>"

definition waiting_client :: "unit VtopClient" where
  "waiting_client = snd (resume_session (toy_web (\<lambda>_. Inr toy_page)) waiting_state toy_client)"

lemma waiting_run: "client_run (toy_web (\<lambda>_. Inr toy_page)) toy_dom {} toy_client waiting_client"
proof (rule goes [OF stays])
  show "client_step (toy_web (\<lambda>_. Inr toy_page)) toy_dom {} toy_client waiting_client"
    unfolding waiting_client_def
    by (rule resumes [where s = waiting_state, OF _ prod.collapse [symmetric]])
      (simp add: waiting_state_def parse_registration_def)
qed

text \<open>C12: Answering the challenge sends at most four requests of at most 11 hops each.  When it
  reports success nothing is pending, the registration number is one that VTOP served, and the
  session is signed in if it has a token; and a code that is not taken, whatever the reason, signs
  nobody in who was not signed in before.\<close>

theorem otp_submission:
  assumes "client_run W D T (client_new W base cr) c" and "submit_security_otp W code c = (r, c')"
  shows "length (vc_sent c') \<le> length (vc_sent c) + 4 * 11 \<and> (r = Inr () \<longrightarrow> confirmed W c') \<and>
    (r \<noteq> Inr () \<longrightarrow> sm_is_authenticated (vc_session c') \<longrightarrow> sm_is_authenticated (vc_session c))"
proof -
  have "client_inv W T base c" by (rule inv_run [OF assms(1) inv_new])
  from wpD [OF inv_submit [OF this, where was = "sm_is_authenticated (vc_session c)"] assms(2)]
  have "otp_post W (sm_is_authenticated (vc_session c)) r c'" by simp
  moreover have "length (vc_sent c') \<le> length (vc_sent c) + 4 * 11"
    using sendsD(1) [OF sends_submit assms(2)] by (simp add: MAX_REDIRECTS_def)
  ultimately show ?thesis by (simp add: otp_post_def)
qed

theorem otp_submission_witness:
  "confirmed (toy_web (\<lambda>_. Inr toy_page)) (snd (submit_security_otp (toy_web (\<lambda>_. Inr toy_page)) ''123456'' waiting_client))"
proof -
  have "fst (submit_security_otp (toy_web (\<lambda>_. Inr toy_page)) ''123456'' waiting_client) = Inr ()" by code_simp
  with otp_submission [OF waiting_run [unfolded toy_client_def] prod.collapse [symmetric], of "''123456''"]
  show ?thesis by blast
qed

text \<open>A code is sent only by a client that waits for one, and only when it is six digits: without
  a challenge, or with a code of another form, the client is as it was and the answer an error.  A
  code that VTOP refuses, as wrong or as too late, is an authentication error and leaves the
  challenge open, with nothing changed but what the request itself did, so that another code can
  be tried.\<close>

theorem otp_refusals:
  assumes "submit_security_otp W code c = (r, c')"
  shows "((\<forall>t. vc_auth_stage c \<noteq> AwaitingOtp t) \<longrightarrow>
        r = Inl (AuthenticationFailed ''No OTP challenge is active.'') \<and> c' = c) \<and>
    (length (trim code) \<noteq> 6 \<or> \<not> list_all is_digit (trim code) \<longrightarrow> (\<exists>e. r = Inl e) \<and> c' = c) \<and>
    (\<forall>t csrf response b c1. vc_auth_stage c = AwaitingOtp t \<longrightarrow> sm_csrf_token (vc_session c) = Some csrf \<longrightarrow>
       OtpCode_parse code = Inr (trim code) \<longrightarrow>
       send_request W (otp_request c ''/vtop/validateSecurityOtp'' [(''otpCode'', trim code), (''_csrf'', csrf)]) c =
         (Inr response, c1) \<longrightarrow> rs_body response = Some b \<longrightarrow>
       or_status (OtpReply_parse W (wb_decode W b)) \<in> {Some ''INVALID'', Some ''EXPIRED''} \<longrightarrow>
       (\<exists>m. r = Inl (AuthenticationFailed m)) \<and> c' = c1 \<and> vc_auth_stage c' = AwaitingOtp t \<and>
       vc_session c' = vc_session c)"
proof (intro conjI impI allI)
  assume "\<forall>t. vc_auth_stage c \<noteq> AwaitingOtp t"
  then show "r = Inl (AuthenticationFailed ''No OTP challenge is active.'')" "c' = c"
    using assms by (auto simp: submit_security_otp_def otp_pending_def andthen_def reading_def fail_def
        split: AuthStage.splits)
next
  assume "length (trim code) \<noteq> 6 \<or> \<not> list_all is_digit (trim code)"
  then have b: "OtpCode_parse code = Inl (AuthenticationFailed ''OTP must contain exactly 6 digits.'')"
    by (auto simp: OtpCode_parse_def Let_def)
  then show "\<exists>e. r = Inl e" "c' = c"
    using assms by (auto simp: submit_security_otp_def otp_pending_def andthen_def reading_def fail_def or_fail_def
        from_result_def ret_def split: AuthStage.splits option.splits)
next
  fix t csrf response b c1
  assume a: "vc_auth_stage c = AwaitingOtp t" "sm_csrf_token (vc_session c) = Some csrf"
    "OtpCode_parse code = Inr (trim code)" "rs_body response = Some b"
    "or_status (OtpReply_parse W (wb_decode W b)) \<in> {Some ''INVALID'', Some ''EXPIRED''}"
    and s: "send_request W (otp_request c ''/vtop/validateSecurityOtp'' [(''otpCode'', trim code), (''_csrf'', csrf)]) c =
      (Inr response, c1)"
  have "submit_security_otp W code c = (Inl (otp_failed (OtpReply_parse W (wb_decode W b))
      (if or_status (OtpReply_parse W (wb_decode W b)) = Some ''INVALID'' \<or>
          contains (wb_lower W (wb_decode W b)) ''invalid otp''
       then ''Invalid OTP. Please try again.'' else ''OTP has expired. Please resend.'')), c1)"
    using a s by (auto simp: submit_security_otp_def otp_pending_def andthen_def reading_def fail_def or_fail_def
        from_result_def ret_def send_or_fail_def send_with_def text_or_fail_def Let_def)
  then have r: "r = Inl (otp_failed (OtpReply_parse W (wb_decode W b))
      (if or_status (OtpReply_parse W (wb_decode W b)) = Some ''INVALID'' \<or>
          contains (wb_lower W (wb_decode W b)) ''invalid otp''
       then ''Invalid OTP. Please try again.'' else ''OTP has expired. Please resend.''))" and c: "c' = c1"
    using assms by simp_all
  from send_request_hops [OF s] have "vc_session c1 = vc_session c" "vc_auth_stage c1 = vc_auth_stage c" by auto
  then show "\<exists>m. r = Inl (AuthenticationFailed m)" "c' = c1" "vc_auth_stage c' = AwaitingOtp t"
    "vc_session c' = vc_session c"
    using r c a(1) by (auto simp: otp_failed_def)
qed

theorem otp_refusals_witness:
  "submit_security_otp (toy_web (\<lambda>_. Inr toy_page)) ''12345a'' waiting_client =
     (Inl (AuthenticationFailed ''OTP must contain exactly 6 digits.''), waiting_client)"
proof -
  have "fst (submit_security_otp (toy_web (\<lambda>_. Inr toy_page)) ''12345a'' waiting_client) =
      Inl (AuthenticationFailed ''OTP must contain exactly 6 digits.'')"
    by code_simp
  moreover have "\<not> list_all is_digit (trim ''12345a'')" by code_simp
  ultimately show ?thesis using otp_refusals [OF prod.collapse [symmetric]] by (metis prod.collapse)
qed

subsection \<open>Codes until the time is up\<close>

text \<open>What either loop ends with, and that every turn of it reads the clock.\<close>

definition otp_ends :: "'j web \<Rightarrow> VtopError + unit \<Rightarrow> 'j VtopClient \<Rightarrow> bool" where
  "otp_ends W r c \<longleftrightarrow> (r = Inr () \<longrightarrow> is_signed_in W c \<or> confirmed W c)"

lemma submit_ticks:
  assumes "submit_security_otp W code c = (r, c')" shows "vc_ticks c \<le> vc_ticks c'"
  using sendsD(2) [OF sends_submit assms] .

lemma submit_inv:
  assumes "client_inv W T base c" "submit_security_otp W code c = (r, c')"
  shows "client_inv W T base c'" "otp_ends W r c'"
  using wpD [OF inv_submit [OF assms(1), of True] assms(2)] by (simp_all add: otp_post_def otp_ends_def)

lemma read_instant_simps [simp]: "read_instant M c = (M (vc_ticks c), c\<lparr>vc_ticks := vc_ticks c + 1\<rparr>)"
  by (simp add: read_instant_def)

lemma since_zero: "deadline \<le> now \<Longrightarrow> since deadline now = 0"
  by (simp add: since_def)

lemma inv_readings [simp]: "client_inv W T base (readings n c) = client_inv W T base c"
  by (simp add: readings_def)

lemma forwarded_loop_ends:
  assumes "client_inv W T base c" "\<forall>m \<ge> N. deadline \<le> M m" "\<And>s t i r used. next_code s t i r used \<noteq> None"
  shows "\<exists>r s' c'. forwarded_loop W M next_code message issued_at deadline tried s c = Some (r, s', c') \<and> otp_ends W r c'"
  using assms(1)
proof (induction "N - vc_ticks c" arbitrary: c s tried rule: less_induct)
  case less
  let ?c = "c\<lparr>vc_ticks := vc_ticks c + 1\<rparr>" and ?left = "since deadline (M (vc_ticks c))"
  show ?case
  proof (cases "?left = 0")
    case True
    then show ?thesis by (subst forwarded_loop.simps) (simp add: otp_ends_def)
  next
    case time: False
    then have n: "vc_ticks c < N" using assms(2) since_zero not_le by metis
    obtain found s1 k where f: "next_code s (vc_ticks ?c) issued_at ?left tried = Some (found, s1, k)"
      using assms(3) by (metis not_Some_eq prod_cases3)
    show ?thesis
    proof (cases found)
      case None
      then show ?thesis using time f by (subst forwarded_loop.simps) (simp add: otp_ends_def)
    next
      case (Some code)
      let ?c1 = "readings k ?c"
      have i: "client_inv W T base ?c1" using less(2) by simp
      obtain r c1 where s: "submit_security_otp W code ?c1 = (r, c1)" by (cases "submit_security_otp W code ?c1")
      note e = submit_inv [OF i s]
      have "N - vc_ticks c1 < N - vc_ticks c" using submit_ticks [OF s] n by (simp add: readings_def)
      from less(1) [OF this e(1)] obtain r' s' c' where
        "forwarded_loop W M next_code message issued_at deadline (tried @ [code]) s1 c1 = Some (r', s', c')"
        "otp_ends W r' c'"
        by blast
      with s e(2) time f Some show ?thesis
        by (subst forwarded_loop.simps) (auto split: sum.split VtopError.split)
    qed
  qed
qed

lemma gmail_loop_ends:
  assumes "client_inv W T base c" "\<forall>m \<ge> N. deadline \<le> M m"
  shows "\<exists>r why c'. gmail_loop W M gmail message issued_at deadline tried c = Some ((r, why), c') \<and> otp_ends W r c'"
  using assms(1)
proof (induction "N - vc_ticks c" arbitrary: c tried rule: less_induct)
  case less
  let ?c = "c\<lparr>vc_ticks := vc_ticks c + 1\<rparr>" and ?left = "since deadline (M (vc_ticks c))"
  have i: "client_inv W T base ?c" using less(2) by simp
  show ?case
  proof (cases "gmail ?c issued_at ?left tried")
    case (Inl why)
    then show ?thesis by (subst gmail_loop.simps) (simp add: otp_ends_def Let_def)
  next
    case (Inr found)
    obtain code ident where f: "found = (code, ident)" by (cases found)
    obtain r c1 where s: "submit_security_otp W code ?c = (r, c1)" by (cases "submit_security_otp W code ?c")
    note e = submit_inv [OF i s]
    show ?thesis
    proof (cases "?left = 0")
      case True
      then show ?thesis using Inr f s e(2)
        by (subst gmail_loop.simps) (auto simp: otp_ends_def Let_def split: sum.split VtopError.split)
    next
      case False
      then have n: "vc_ticks c < N" using assms(2) since_zero not_le by metis
      have "N - vc_ticks c1 < N - vc_ticks c" using submit_ticks [OF s] n by simp
      from less(1) [OF this e(1)] obtain r' why c' where
        "gmail_loop W M gmail message issued_at deadline (insert ident tried) c1 = Some ((r', why), c')" "otp_ends W r' c'"
        by blast
      with s e(2) False Inr f show ?thesis
        by (subst gmail_loop.simps) (auto simp: Let_def split: sum.split)
    qed
  qed
qed

text \<open>C16: Signing in with codes that are looked up ends, on any client, in any world, and whatever
  codes are found, as soon as the clock only gets past any instant in the end: both with codes that
  the caller supplies, if looking each one up returns, and with those read from Gmail.  When it ends in success the client is signed
  in by a page VTOP served or by a code that was confirmed.\<close>

theorem otp_login_ends:
  assumes "\<forall>d. \<exists>n. \<forall>m \<ge> n. d \<le> M m" and "client_run W D T (client_new W base cr) c"
    and "\<And>s t i r used. next_code s t i r used \<noteq> None"
  shows "(\<exists>r s' c'. login_with_otp_from W M next_code wait s c = Some (r, s', c') \<and> otp_ends W r c') \<and>
    (\<exists>r why c'. login_with_gmail_otp W M access wait c = Some ((r, why), c') \<and> otp_ends W r c')"
proof -
  have "client_inv W T base c" by (rule inv_run [OF assms(2) inv_new])
  moreover obtain r c1 where l: "login W c = (r, c1)" by (cases "login W c")
  ultimately have i: "client_inv W T base c1" and p: "login_post W r c1" using wpD [OF inv_login l] by blast+
  let ?c = "c1\<lparr>vc_ticks := vc_ticks c1 + 1\<rparr>" and ?d = "M (vc_ticks c1) + wait"
  obtain N where N: "\<forall>m \<ge> N. ?d \<le> M m" using assms(1) by blast
  have i': "client_inv W T base ?c" using i by simp
  have e: "otp_ends W r c1" using p by (simp add: otp_ends_def login_post_def)
  have "\<exists>r s' c'. login_with_otp_from W M next_code wait s c = Some (r, s', c') \<and> otp_ends W r c'"
    using e l forwarded_loop_ends [OF i' N assms(3)]
    by (auto simp: login_with_otp_from_def otp_ends_def split: sum.split VtopError.split)
  moreover have "\<exists>r why c'. login_with_gmail_otp W M access wait c = Some ((r, why), c') \<and> otp_ends W r c'"
    using e l gmail_loop_ends [OF i' N]
    by (auto simp: login_with_gmail_otp_def otp_ends_def split: sum.split VtopError.split option.split)
  ultimately show ?thesis ..
qed

theorem otp_login_ends_witness:
  "\<exists>r s' c'. login_with_otp_from (toy_web (\<lambda>_. Inr toy_page)) (\<lambda>n. n) (\<lambda>_ _ _ _ _. Some (Some ''123456'', (), 0))
      (secs 90) () toy_client = Some (r, s', c') \<and> otp_ends (toy_web (\<lambda>_. Inr toy_page)) r c'"
proof -
  have "\<forall>d. \<exists>n. \<forall>m \<ge> n. d \<le> (\<lambda>n. n) (m :: nat)" by blast
  from otp_login_ends [OF this, of "toy_web (\<lambda>_. Inr toy_page)" toy_dom "{}" "''v''"
      "Some \<lparr>cr_username = ''A'', cr_password = ''p''\<rparr>" toy_client "\<lambda>_ _ _ _ _. Some (Some ''123456'', (), 0)"]
  show ?thesis using stays [of "toy_web (\<lambda>_. Inr toy_page)" toy_dom "{}" toy_client]
    unfolding toy_client_def by blast
qed

text \<open>
  The loops take every authentication error for a code that was refused with the challenge still
  open.  It need not be: when the session is gone, the first code closes the challenge, and the
  loop goes on and reports that a code is still wanted.
\<close>

lemma loop_outlives_challenge:
  "\<exists>c'. forwarded_loop (toy_web (\<lambda>_. Inr (toy_page\<lparr>hr_status := 500\<rparr>))) (\<lambda>_. 0)
      (\<lambda>_ _ _ _ tried. Some (if tried = [] then Some ''123456'' else None, (), 0)) ''m'' 7 1 [] () waiting_client =
        Some (Inl (OTPRequired ''m'' 7), (), c') \<and> vc_auth_stage c' = Idle"
proof -
  let ?W = "toy_web (\<lambda>_. Inr (toy_page\<lparr>hr_status := 500\<rparr>))"
  let ?next = "\<lambda>_ _ _ _ tried. Some (if tried = [] then Some ''123456'' else None, (), 0)"
  let ?c = "waiting_client\<lparr>vc_ticks := vc_ticks waiting_client + 1\<rparr>"
  obtain r c1 where s: "submit_security_otp ?W ''123456'' ?c = (r, c1)" by (cases "submit_security_otp ?W ''123456'' ?c")
  have "fst (submit_security_otp ?W ''123456'' ?c) = Inl (AuthenticationFailed ''We could not verify that OTP. Please try again.'')"
    "vc_auth_stage (snd (submit_security_otp ?W ''123456'' ?c)) = Idle"
    by code_simp+
  with s have r: "r = Inl (AuthenticationFailed ''We could not verify that OTP. Please try again.'')"
    and c: "vc_auth_stage c1 = Idle" by simp_all
  have "forwarded_loop ?W (\<lambda>_. 0) ?next ''m'' 7 1 [''123456''] () c1 =
      Some (Inl (OTPRequired ''m'' 7), (), c1\<lparr>vc_ticks := vc_ticks c1 + 1\<rparr>)"
    by (subst forwarded_loop.simps) (simp add: since_def readings_def)
  then show ?thesis
    using s r c by (subst forwarded_loop.simps) (simp add: since_def readings_def)
qed

end
