(* ===== verification/OutingClaims.thy ===== *)
theory OutingClaims
  imports SessionClaims
begin

section \<open>Outings: the claims\<close>

text \<open>
  An outing request is filed by one form, and a filed one cannot be taken back by sending it again:
  what is counted here are the forms that leave the client.
\<close>

subsection \<open>The forms that are sent\<close>

definition filed :: "HopRequest list \<Rightarrow> (string \<times> string) list list" where
  "filed hs = List.map_filter (\<lambda>h. case hp_body h of Form f \<Rightarrow> Some f | _ \<Rightarrow> None) hs"

lemma filed_simps [simp]:
  "filed [] = []" "filed (h # hs) = (case hp_body h of Form f \<Rightarrow> f # filed hs | _ \<Rightarrow> filed hs)"
  "filed (hs @ hs') = filed hs @ filed hs'"
  by (simp_all add: filed_def List.map_filter_simps split: Body.split) (simp add: List.map_filter_def)

lemma filed_none: "\<forall>h \<in> set hs. hp_body h = NoBody \<Longrightarrow> filed hs = []"
  by (induction hs) auto

lemma filed_hops:
  assumes "hops_of W c rq hs"
  shows "filed hs = (case hp_body rq of Form f \<Rightarrow> if hs = [] then [] else [f] | _ \<Rightarrow> [])"
proof (cases hs)
  case (Cons h hs')
  then have "filed hs' = []" "hp_body h = hp_body rq" using assms by (auto simp: hops_of_def intro!: filed_none)
  then show ?thesis using Cons by (simp split: Body.split)
qed (simp split: Body.split)

text \<open>Steps that send no form of some kind.\<close>

definition spares :: "((string \<times> string) list \<Rightarrow> bool) \<Rightarrow> ('j VtopClient, 'a) act \<Rightarrow> bool" where
  "spares P m \<longleftrightarrow> (\<forall>c. \<exists>hs. vc_sent (snd (m c)) = vc_sent c @ hs \<and> filter P (filed hs) = [])"

named_theorems spares_intros

lemma sparesD:
  assumes "spares P m" "m c = (r, c')" shows "\<exists>hs. vc_sent c' = vc_sent c @ hs \<and> filter P (filed hs) = []"
  using assms unfolding spares_def by (metis snd_conv)

lemma sparesI:
  "(\<And>c r c'. m c = (r, c') \<Longrightarrow> \<exists>hs. vc_sent c' = vc_sent c @ hs \<and> filter P (filed hs) = []) \<Longrightarrow> spares P m"
  unfolding spares_def by (metis prod.collapse)

lemma spares_leaf [spares_intros]:
  "spares P (ret x)" "spares P (fail e)" "spares P (from_result r)" "spares P (or_fail e x')"
  by (auto simp: spares_def ret_def fail_def from_result_def or_fail_def split: option.split)

lemma spares_match [spares_intros]:
  assumes "spares P m" "\<And>r. spares P (f r)" shows "spares P (match m f)"
proof (rule sparesI)
  fix c r c'
  assume m: "match m f c = (r, c')"
  obtain r1 c1 where 1: "m c = (r1, c1)" by (cases "m c")
  then have "f r1 c1 = (r, c')" using m by (simp add: match_def)
  from sparesD [OF assms(1) 1] sparesD [OF assms(2) this]
  show "\<exists>hs. vc_sent c' = vc_sent c @ hs \<and> filter P (filed hs) = []" by fastforce
qed

lemma spares_andthen [spares_intros]:
  assumes "spares P m" "\<And>x. spares P (f x)" shows "spares P (andthen m f)"
  unfolding andthen_match
proof (rule spares_match [OF assms(1)])
  fix r :: "VtopError + 'b"
  show "spares P (case r of Inl e \<Rightarrow> fail e | Inr x \<Rightarrow> f x)"
    using assms(2) by (cases r) (auto intro: spares_leaf)
qed

lemma spares_reading [spares_intros]: "(\<And>c. spares P (f (g c))) \<Longrightarrow> spares P (reading g f)"
  by (simp add: spares_def reading_def)

lemma spares_change [spares_intros]:
  assumes "\<And>c. vc_sent (h c) = vc_sent c" "spares P m" shows "spares P (change h m)"
  unfolding spares_def change_def using assms by (metis spares_def)

lemma spares_now [spares_intros]:
  assumes "\<And>t. spares P (k t)" shows "spares P (now_unix W k)"
proof (rule sparesI)
  fix c r c'
  assume "now_unix W k c = (r, c')"
  then have "k (wb_clock W (vc_ticks c)) (c\<lparr>vc_ticks := vc_ticks c + 1\<rparr>) = (r, c')" by (simp add: now_unix_def)
  from sparesD [OF assms this] show "\<exists>hs. vc_sent c' = vc_sent c @ hs \<and> filter P (filed hs) = []" by simp
qed

lemma spares_if [spares_intros]: "spares P m \<Longrightarrow> spares P m' \<Longrightarrow> spares P (if b then m else m')"
  by simp

lemma spares_text [spares_intros]: "(\<And>t. spares P (f t)) \<Longrightarrow> spares P (text_or_fail W response f)"
  by (auto simp: text_or_fail_def intro: spares_leaf split: option.split)

lemma spares_send_with [spares_intros]:
  assumes "\<And>f. hp_body rq = Form f \<Longrightarrow> \<not> P f" "\<And>res. spares P (k res)" shows "spares P (send_with W rq k)"
proof (rule sparesI)
  fix c r c'
  assume s: "send_with W rq k c = (r, c')"
  obtain res c1 where 1: "send_request W rq c = (res, c1)" by (cases "send_request W rq c")
  then have k: "k res c1 = (r, c')" using s by (simp add: send_with_def)
  from send_request_hops [OF 1] obtain hs where "vc_sent c1 = vc_sent c @ hs" "hops_of W c rq hs" by auto
  moreover from filed_hops [OF this(2)] have "filter P (filed hs) = []" using assms(1) by (cases "hp_body rq") auto
  ultimately show "\<exists>hs. vc_sent c' = vc_sent c @ hs \<and> filter P (filed hs) = []"
    using sparesD [OF assms(2) k] by fastforce
qed

lemma spares_send [spares_intros]:
  assumes "\<And>f. hp_body rq = Form f \<Longrightarrow> \<not> P f" "\<And>response. spares P (k response)" shows "spares P (send_or_fail W rq k)"
  unfolding send_or_fail_def
proof (rule spares_send_with [OF assms(1)])
  fix res :: "SendError + Response"
  show "spares P (case res of Inl e \<Rightarrow> fail (send_error e) | Inr response \<Rightarrow> k response)"
    using assms(2) by (cases res) (auto intro: spares_leaf)
qed

lemma spares_read [spares_intros]: "spares P (read_authenticated_response_text W context response)"
  unfolding read_authenticated_response_text_def Let_def mark_session_expired_def
  by (intro spares_intros) simp_all

lemma spares_send_authenticated:
  assumes "\<And>f. hp_body rq = Form f \<Longrightarrow> \<not> P f" shows "spares P (send_authenticated W context rq)"
  unfolding send_authenticated_def Let_def
proof (rule spares_send_with [OF assms])
  fix res :: "SendError + Response"
  have "spares P (send_or_fail W rq (read_authenticated_response_text W context))"
    by (intro spares_intros assms)
  then show "spares P (case res of Inl e \<Rightarrow>
           if se_timeout e then fail slow_vtop_error
           else if se_connect e then send_or_fail W rq (read_authenticated_response_text W context)
           else fail (send_error e)
         | Inr response \<Rightarrow>
           if \<not> is_server_error (rs_status response) \<or> rs_status response = 504
           then read_authenticated_response_text W context response
           else send_or_fail W rq (read_authenticated_response_text W context))"
    by (cases res) (auto intro!: spares_intros)
qed

lemma spares_check [spares_intros]: "spares P (check_authenticated_session W b)"
  unfolding check_authenticated_session_def Let_def split_beta mark_session_expired_def
  by (intro spares_intros) (simp_all add: get_request_def)

lemma spares_authorize [spares_intros]: "spares P (authorize W)"
  unfolding authorize_def ensure_authenticated_session_def try_restore_existing_session_def
    validate_authenticated_session_def
  by (intro spares_intros) simp_all

lemma spares_fetch:
  assumes "\<And>auth f. body auth = Form f \<Longrightarrow> \<not> P f" shows "spares P (fetch_page W context path body)"
  unfolding fetch_page_def
proof (intro spares_andthen spares_authorize)
  fix auth
  show "spares P (reading (\<lambda>c. post_request (config_url c path) (body auth)) (send_authenticated W context))"
    using assms by (intro spares_reading spares_send_authenticated) (simp add: post_request_def)
qed

lemma spares_outing [spares_intros]: "spares P (general_outing W D)" "spares P (weekend_outing W D)"
  unfolding general_outing_def weekend_outing_def general_outing_page_def weekend_outing_page_def hostel_menu_page_def
  by (intro spares_intros spares_fetch; simp add: menu_body_def)+

text \<open>Steps that send no form at all.\<close>

abbreviation formless :: "('j VtopClient, 'a) act \<Rightarrow> bool" where
  "formless \<equiv> spares (\<lambda>_. True)"

lemma formlessD: "formless m \<Longrightarrow> m c = (r, c') \<Longrightarrow> \<exists>hs. vc_sent c' = vc_sent c @ hs \<and> filed hs = []"
  by (drule (1) sparesD) simp

lemma post_form_files:
  assumes "post_form W context path form c = (r, c')"
  shows "\<exists>hs. vc_sent c' = vc_sent c @ hs \<and> filed hs \<in> {[], [form]} \<and> ((\<exists>x. r = Inr x) \<longrightarrow> filed hs = [form])"
proof -
  let ?rq = "post_request (config_url c path) (Form form)"
  obtain res c1 where s: "send_request W ?rq c = (res, c1)" by (cases "send_request W ?rq c")
  from send_request_hops [OF s] obtain hs where h: "vc_sent c1 = vc_sent c @ hs" "hops_of W c ?rq hs"
    and ne: "\<And>response. res = Inr response \<Longrightarrow> hs \<noteq> []" by auto
  from filed_hops [OF h(2)] have f: "filed hs = (if hs = [] then [] else [form])" by (simp add: post_request_def)
  show ?thesis
  proof (cases res)
    case (Inl e)
    then have "r = Inl (send_error e)" "c' = c1"
      using assms s by (simp_all add: post_form_def reading_def send_once_def send_or_fail_def send_with_def fail_def)
    then show ?thesis using h f by auto
  next
    case (Inr response)
    then have "read_authenticated_response_text W context response c1 = (r, c')"
      using assms s by (simp add: post_form_def reading_def send_once_def send_or_fail_def send_with_def)
    from formlessD [OF spares_read this] h f ne [OF Inr] show ?thesis by fastforce
  qed
qed

subsection \<open>Applying and cancelling\<close>

lemma andthen_cases:
  assumes "andthen m f c = (r, c')"
  obtains e where "m c = (Inl e, c')" "r = Inl e" | x c1 where "m c = (Inr x, c1)" "f x c1 = (r, c')"
  using assms that by (auto simp: andthen_def split: prod.splits sum.splits)

lemma andthen_ok: "m c = (Inr x, c1) \<Longrightarrow> andthen m f c = f x c1"
  by (simp add: andthen_def)

lemma andthen_result [simp]: "andthen (from_result (Inr x)) f = f x"
  by (rule ext) (simp add: andthen_def from_result_def)

lemma unlisted:
  assumes "andthen m (\<lambda>p. if \<not> ok p then fail e else k p) c = (r, c')" "m c = (page, c1)"
    and "\<not> (\<exists>p. page = Inr p \<and> ok p)"
  shows "c' = c1 \<and> (\<exists>e. r = Inl e)"
proof (cases page)
  case (Inl e')
  then show ?thesis using assms(1,2) by (auto simp: andthen_def)
next
  case (Inr p)
  then have "\<not> ok p" using assms(3) by simp
  then show ?thesis using assms(1,2) Inr by (auto simp: andthen_def fail_def)
qed

lemma now_cases:
  assumes "now_unix W f c = (r, c')"
  obtains t c1 where "f t c1 = (r, c')" "vc_sent c1 = vc_sent c"
  using assms that by (auto simp: now_unix_def)

text \<open>An authorised form, whatever it is made of, and what follows it.\<close>

lemma authorized_form:
  assumes "andthen (authorize W) (\<lambda>auth. now_unix W (\<lambda>now.
      andthen (post_form W context path (form auth now)) (\<lambda>page. ret (answer page)))) c = (r, c')"
  shows "\<exists>hs auth now. vc_sent c' = vc_sent c @ hs \<and> filed hs \<in> {[], [form auth now]} \<and>
    ((\<exists>x. r = Inr x) \<longrightarrow> filed hs = [form auth now])"
  using assms
proof (rule andthen_cases, goal_cases)
  case (1 e)
  from formlessD [OF spares_authorize 1(1)] show ?thesis using 1(2) by fastforce
next
  case (2 auth c1)
  from formlessD [OF spares_authorize 2(1)] obtain h1 where h1: "vc_sent c1 = vc_sent c @ h1" "filed h1 = []" by blast
  from 2(2) show ?thesis
  proof (rule now_cases)
    fix now c2
    assume n: "andthen (post_form W context path (form auth now)) (\<lambda>page. ret (answer page)) c2 = (r, c')"
      and c2: "vc_sent c2 = vc_sent c1"
    obtain p c3 where p: "post_form W context path (form auth now) c2 = (p, c3)"
      by (cases "post_form W context path (form auth now) c2")
    from post_form_files [OF p] obtain hs where
      "vc_sent c3 = vc_sent c2 @ hs" "filed hs \<in> {[], [form auth now]}" "(\<exists>x. p = Inr x) \<longrightarrow> filed hs = [form auth now]"
      by blast
    moreover have "c' = c3" "(\<exists>x. r = Inr x) \<longleftrightarrow> (\<exists>x. p = Inr x)"
      using n p by (auto simp: andthen_def ret_def split: sum.splits)
    ultimately show ?thesis using h1 c2
      by (intro exI [of _ "h1 @ hs"] exI [of _ auth] exI [of _ now]) auto
  qed
qed

definition general_form :: "GeneralOutingApplication \<Rightarrow> string \<Rightarrow> string \<Rightarrow> (string \<times> string) list \<Rightarrow> bool" where
  "general_form ga place purpose f \<longleftrightarrow> {(''LeaveId'', []), (''placeOfVisit'', place), (''purposeOfVisit'', purpose),
     (''outDate'', ga_out_date ga), (''outTimeHr'', hour_field (ga_out_time ga)),
     (''outTimeMin'', minute_field (ga_out_time ga)), (''inDate'', ga_in_date ga),
     (''inTimeHr'', hour_field (ga_in_time ga)), (''inTimeMin'', minute_field (ga_in_time ga))} \<subseteq> set f"

text \<open>C4: Applying for a day's leave sends the application at most once, whatever VTOP answers and however
  the connection fails, and only if the page just loaded was open for it and passed its checks: then
  with the tidied place and purpose and the dates and times asked for.  An application that is
  reported as made was sent.\<close>

theorem outing_filed_once:
  assumes "apply_general_outing W D ga c = (r, c')" and "general_outing W D c = (page, c1)"
  shows "\<exists>before hs. vc_sent c1 = vc_sent c @ before \<and> filed before = [] \<and> vc_sent c' = vc_sent c1 @ hs \<and>
    length (filed hs) \<le> 1 \<and>
    (\<forall>f \<in> set (filed hs). \<exists>form st place purpose. page = Inr form \<and> gd_student form = Some st \<and>
       check_general_outing form ga = Inr (place, purpose) \<and> general_form ga place purpose f) \<and>
    (\<forall>out. r = Inr out \<longrightarrow> oa_applied out \<longrightarrow> filed hs \<noteq> [])"
proof -
  from formlessD [OF spares_outing(1) assms(2)] obtain before where
    b: "vc_sent c1 = vc_sent c @ before" "filed before = []" by blast
  have "\<exists>hs. vc_sent c' = vc_sent c1 @ hs \<and> length (filed hs) \<le> 1 \<and>
    (\<forall>f \<in> set (filed hs). \<exists>form st place purpose. page = Inr form \<and> gd_student form = Some st \<and>
       check_general_outing form ga = Inr (place, purpose) \<and> general_form ga place purpose f) \<and>
    (\<forall>out. r = Inr out \<longrightarrow> oa_applied out \<longrightarrow> filed hs \<noteq> [])"
  proof (cases page)
    case (Inl e)
    then have "c' = c1" "r = Inl e" using assms by (simp_all add: apply_general_outing_def andthen_def)
    then show ?thesis by (intro exI [of _ "[]"]) simp
  next
    case (Inr form)
    show ?thesis
    proof (cases "gd_student form")
      case None
      then have "c' = c1" "r = Inr (form_closed (gd_notice form))"
        using assms Inr by (simp_all add: apply_general_outing_def andthen_def ret_def)
      then show ?thesis by (intro exI [of _ "[]"]) (simp add: form_closed_def)
    next
      case (Some st)
      show ?thesis
      proof (cases "check_general_outing form ga")
        case (Inl e)
        then have "c' = c1" "r = Inl e"
          using assms \<open>page = Inr form\<close> Some by (simp_all add: apply_general_outing_def andthen_def from_result_def)
        then show ?thesis by (intro exI [of _ "[]"]) simp
      next
        case (Inr pp)
        obtain place purpose where pp: "pp = (place, purpose)" by (cases pp)
        let ?form = "\<lambda>(auth :: AuthorizedRequest) now. student_fields (ar_registration_number auth) st ''LeaveId'' @
              [(''placeOfVisit'', place), (''purposeOfVisit'', purpose),
               (''outDate'', ga_out_date ga), (''outTimeHr'', hour_field (ga_out_time ga)),
               (''outTimeMin'', minute_field (ga_out_time ga)), (''inDate'', ga_in_date ga),
               (''inTimeHr'', hour_field (ga_in_time ga)), (''inTimeMin'', minute_field (ga_in_time ga)),
               (''_csrf'', ar_csrf auth), (''x'', wb_http_date W now)]"
        have "andthen (authorize W) (\<lambda>auth. now_unix W (\<lambda>now.
            andthen (post_form W ''apply_general_outing'' ''/vtop/hostel/saveGeneralOutingForm'' (?form auth now))
              (\<lambda>page. ret (parse_apply_response (wb_lower W) D page (length (gd_records form)))))) c1 = (r, c')"
          using assms \<open>page = Inr form\<close> Some Inr pp
          by (simp add: apply_general_outing_def andthen_ok [where m = "general_outing W D"])
        from authorized_form [OF this] obtain hs auth now where
          h: "vc_sent c' = vc_sent c1 @ hs" "filed hs \<in> {[], [?form auth now]}"
            "(\<exists>x. r = Inr x) \<longrightarrow> filed hs = [?form auth now]" by (elim exE conjE) (rule that, assumption+)
        have "general_form ga place purpose (?form auth now)"
          by (simp add: general_form_def student_fields_def)
        then show ?thesis using h \<open>page = Inr form\<close> Some Inr pp
          by (intro exI [of _ hs]) auto
      qed
    qed
  qed
  with b show ?thesis by blast
qed

text \<open>A client that is signed in, and a page whose form is open and that reports success.\<close>

definition outing_dom :: "(unit, string) dom" where
  "outing_dom = \<lparr>dm_parse = (\<lambda>_. ()), dm_select = (\<lambda>sel _. if sel = ''input[id]'' then [''regNo'', ''success''] else []),
     dm_within = (\<lambda>_ _. []), dm_attr = (\<lambda>e a. if a = ''id'' then Some e else if a = ''value'' then Some ''ok'' else None),
     dm_texts = (\<lambda>_. []), dm_fragment = (\<lambda>_. ()), dm_root = (\<lambda>_. []), dm_html = (\<lambda>_. [])\<rparr>"

definition day_out :: GeneralOutingApplication where
  "day_out = \<lparr>ga_place = '' the  city '', ga_purpose = ''books'', ga_out_date = ''11-Oct-2026'',
     ga_out_time = \<lparr>ot_hour = 10, ot_minute = 0\<rparr>, ga_in_date = ''11-Oct-2026'', ga_in_time = \<lparr>ot_hour = 18, ot_minute = 30\<rparr>\<rparr>"

definition member :: "unit VtopClient" where
  "member = toy_client\<lparr>vc_session := \<lparr>sm_state = Authenticated ''t'', sm_external_cookie_header = None,
     sm_registration_number = Some ''22BCE0001''\<rparr>\<rparr>"

theorem outing_filed_once_witness:
  "let W = toy_web (\<lambda>_. Inr toy_page); (r, c') = apply_general_outing W outing_dom day_out member
   in filed (vc_sent c') \<noteq> [] \<and> general_form day_out ''the city'' ''books'' (hd (filed (vc_sent c')))"
proof -
  let ?W = "toy_web (\<lambda>_. Inr toy_page)"
  obtain r c' where a: "apply_general_outing ?W outing_dom day_out member = (r, c')"
    by (cases "apply_general_outing ?W outing_dom day_out member")
  obtain page c1 where g: "general_outing ?W outing_dom member = (page, c1)" by (cases "general_outing ?W outing_dom member")
  have "fst (apply_general_outing ?W outing_dom day_out member) = Inr \<lparr>oa_applied = True, oa_message = ''ok''\<rparr>"
    by code_simp
  then have r: "r = Inr \<lparr>oa_applied = True, oa_message = ''ok''\<rparr>" using a by simp
  have "case fst (general_outing ?W outing_dom member) of Inl e \<Rightarrow> True
      | Inr form \<Rightarrow> check_general_outing form day_out = Inr (''the city'', ''books'')"
    by code_simp
  then have ok: "page = Inr form \<Longrightarrow> check_general_outing form day_out = Inr (''the city'', ''books'')" for form
    using g by simp
  have "vc_sent member = []" by (simp add: member_def toy_client_def client_new_def)
  with outing_filed_once [OF a g] obtain hs where h: "filed (vc_sent c') = filed hs"
    "\<forall>f \<in> set (filed hs). \<exists>form st place purpose. page = Inr form \<and> gd_student form = Some st \<and>
       check_general_outing form day_out = Inr (place, purpose) \<and> general_form day_out place purpose f"
    "\<forall>out. r = Inr out \<longrightarrow> oa_applied out \<longrightarrow> filed hs \<noteq> []"
    by (elim exE conjE) (rule that, simp_all)
  have n: "filed hs \<noteq> []" using h(3) r by simp
  have "general_form day_out ''the city'' ''books'' (hd (filed hs))"
  proof -
    obtain form place purpose where "page = Inr form" "check_general_outing form day_out = Inr (place, purpose)"
      "general_form day_out place purpose (hd (filed hs))"
      using h(2) hd_in_set [OF n] by blast
    with ok show ?thesis by simp
  qed
  then show ?thesis using a h(1) n by simp
qed

text \<open>C17: A request is cancelled by one form at most, with the id asked for, and only if the page just
  loaded lists a request with that id as one that can still be cancelled; otherwise nothing but the
  page is asked for.  This holds of both kinds of outings.\<close>

theorem cancel_only_listed:
  "(cancel_general_outing W D ident c = (r, c') \<longrightarrow> general_outing W D c = (page, c1) \<longrightarrow>
     (\<exists>before hs. vc_sent c1 = vc_sent c @ before \<and> filed before = [] \<and> vc_sent c' = vc_sent c1 @ hs \<and>
       (filed hs = [] \<or> (\<exists>f p. filed hs = [f] \<and> (''LeaveId'', ident) \<in> set f \<and> page = Inr p \<and>
          ident \<in> gr_cancel_id ` set (gd_records p))) \<and> ((\<exists>out. r = Inr out) \<longrightarrow> filed hs \<noteq> []))) \<and>
   (cancel_weekend_outing W D ident c = (r, c') \<longrightarrow> weekend_outing W D c = (wpage, c1) \<longrightarrow>
     (\<exists>before hs. vc_sent c1 = vc_sent c @ before \<and> filed before = [] \<and> vc_sent c' = vc_sent c1 @ hs \<and>
       (filed hs = [] \<or> (\<exists>f p. filed hs = [f] \<and> (''BookingId'', ident) \<in> set f \<and> wpage = Inr p \<and>
          ident \<in> wo_cancel_id ` set (wd_records p))) \<and> ((\<exists>out. r = Inr out) \<longrightarrow> filed hs \<noteq> [])))"
proof -
  have cancel: "\<exists>hs. vc_sent c' = vc_sent c1 @ hs \<and>
      (filed hs = [] \<or> (\<exists>f. filed hs = [f] \<and> (id_field, ident) \<in> set f)) \<and> ((\<exists>out. r = Inr out) \<longrightarrow> filed hs \<noteq> [])"
    if "cancel_outing W D context path id_field ident c1 = (r, c')" for "context" path id_field
    using authorized_form [OF that [unfolded cancel_outing_def]] by fastforce
  show ?thesis
  proof (intro conjI impI, goal_cases)
    case 1
    from formlessD [OF spares_outing(1) 1(2)] obtain before where b: "vc_sent c1 = vc_sent c @ before" "filed before = []"
      by blast
    show ?case
    proof (cases "\<exists>p. page = Inr p \<and> list_ex (\<lambda>r. gr_cancel_id r = ident) (gd_records p)")
      case True
      then obtain p where p: "page = Inr p" "list_ex (\<lambda>r. gr_cancel_id r = ident) (gd_records p)" by blast
      have "cancel_outing W D ''cancel_general_outing'' ''/vtop/hostel/deleteGeneralOutingInfo'' ''LeaveId'' ident c1 = (r, c')"
        using 1 p by (simp add: cancel_general_outing_def andthen_ok [where m = "general_outing W D"])
      from cancel [OF this] obtain hs where "vc_sent c' = vc_sent c1 @ hs"
        "filed hs = [] \<or> (\<exists>f. filed hs = [f] \<and> (''LeaveId'', ident) \<in> set f)" "(\<exists>out. r = Inr out) \<longrightarrow> filed hs \<noteq> []"
        by blast
      with b p show ?thesis by (intro exI [of _ before] exI [of _ hs]) (auto simp: list_ex_iff)
    next
      case False
      from unlisted [OF 1(1) [unfolded cancel_general_outing_def] 1(2) this] b show ?thesis by auto
    qed
  next
    case 2
    from formlessD [OF spares_outing(2) 2(2)] obtain before where b: "vc_sent c1 = vc_sent c @ before" "filed before = []"
      by blast
    show ?case
    proof (cases "\<exists>p. wpage = Inr p \<and> list_ex (\<lambda>r. wo_cancel_id r = ident) (wd_records p)")
      case True
      then obtain p where p: "wpage = Inr p" "list_ex (\<lambda>r. wo_cancel_id r = ident) (wd_records p)" by blast
      have "cancel_outing W D ''cancel_weekend_outing'' ''/vtop/hostel/deleteBookingInfo'' ''BookingId'' ident c1 = (r, c')"
        using 2 p by (simp add: cancel_weekend_outing_def andthen_ok [where m = "weekend_outing W D"])
      from cancel [OF this] obtain hs where "vc_sent c' = vc_sent c1 @ hs"
        "filed hs = [] \<or> (\<exists>f. filed hs = [f] \<and> (''BookingId'', ident) \<in> set f)" "(\<exists>out. r = Inr out) \<longrightarrow> filed hs \<noteq> []"
        by blast
      with b p show ?thesis by (intro exI [of _ before] exI [of _ hs]) (auto simp: list_ex_iff)
    next
      case False
      from unlisted [OF 2(1) [unfolded cancel_weekend_outing_def] 2(2) this] b show ?thesis by auto
    qed
  qed
qed

theorem cancel_only_listed_witness:
  "filed (vc_sent (snd (cancel_general_outing (toy_web (\<lambda>_. Inr toy_page)) outing_dom ''L1'' member))) = []"
proof -
  let ?W = "toy_web (\<lambda>_. Inr toy_page)"
  have "case fst (general_outing ?W outing_dom member) of Inl e \<Rightarrow> True | Inr p \<Rightarrow> gd_records p = []" by code_simp
  then have "\<forall>p. fst (general_outing ?W outing_dom member) = Inr p \<longrightarrow> gd_records p = []" by auto
  moreover have "vc_sent member = []" by (simp add: member_def toy_client_def client_new_def)
  ultimately show ?thesis
    using cancel_only_listed [of ?W outing_dom "''L1''" member "fst (cancel_general_outing ?W outing_dom ''L1'' member)"
        "snd (cancel_general_outing ?W outing_dom ''L1'' member)" "fst (general_outing ?W outing_dom member)"
        "snd (general_outing ?W outing_dom member)"]
    by fastforce
qed

text \<open>The checks do not look at the dates: neither how far ahead they are nor which comes first.\<close>

lemma dates_unchecked:
  "check_general_outing form (ga\<lparr>ga_out_date := leaving, ga_in_date := back'\<rparr>) = check_general_outing form ga"
  by (simp add: check_general_outing_def)

end
