(* ===== verification/Gmail.thy ===== *)
theory Gmail
  imports CoreBase
begin

section \<open>Reading the code from the student's Gmail (vtop-core/src/gmail.rs)\<close>

text \<open>
  One look at the mailbox, the polling around it, and how a code is found in a message.  Gmail's
  answers are a function of the requests sent so far, the clocks of how often they were read;
  base64 and Unicode lower case are parameters.
\<close>

definition SENDER :: string where "SENDER = ''noreply.sdc@vitap.ac.in''"
definition API :: string where "API = ''https://gmail.googleapis.com/gmail/v1/users/me/messages''"
definition POLL_EVERY :: duration where "POLL_EVERY = secs 3"
definition CLOCK_SLACK_SECS :: nat where "CLOCK_SLACK_SECS = 30"

record GmailAccess =
  ga_access_token :: string
  ga_delete_after_reading :: bool
  ga_expires_at :: "nat option"

record GmailOtp =
  go_code :: string
  go_message_id :: string

datatype GmailOtpError = Unauthorized | Forbidden | NotFound | Unavailable

fun GmailOtpError_code :: "GmailOtpError \<Rightarrow> string" where
  "GmailOtpError_code Unauthorized = ''gmail_unauthorized''"
| "GmailOtpError_code Forbidden = ''gmail_forbidden''"
| "GmailOtpError_code NotFound = ''gmail_otp_not_found''"
| "GmailOtpError_code Unavailable = ''gmail_unavailable''"

record GmailGet =
  gq_url :: string
  gq_bearer :: string
  gq_query :: "(string \<times> string) list"

record gmail_lib =
  gl_http :: "GmailGet list \<Rightarrow> (nat \<times> json option) option" \<comment> \<open>the status and the body, if it is JSON\<close>
  gl_lower :: "string \<Rightarrow> string"
  gl_decode :: "string \<Rightarrow> bytes option"
  gl_instant :: "nat \<Rightarrow> instant"
  gl_unix :: "nat \<Rightarrow> nat"

text \<open>What changes while mail is looked for: the requests sent and the clock readings made.\<close>

record gmail_world =
  gs_sent :: "GmailGet list"
  gs_ticks :: nat

definition gm_tick :: "gmail_world \<Rightarrow> gmail_world" where
  "gm_tick w = w\<lparr>gs_ticks := gs_ticks w + 1\<rparr>"

subsection \<open>JSON\<close>

fun j_arr :: "json \<Rightarrow> json list" where
  "j_arr (JArr vs) = vs"
| "j_arr _ = []"

definition j_items :: "json option \<Rightarrow> json list" where
  "j_items v = (case v of None \<Rightarrow> [] | Some v \<Rightarrow> j_arr v)"

text \<open>\<^verbatim>\<open>Value::pointer\<close> of two names.\<close>

definition j_pointer2 :: "json \<Rightarrow> string \<Rightarrow> string \<Rightarrow> json option" where
  "j_pointer2 v a b = Option.bind (j_get v a) (\<lambda>w. j_get w b)"

subsection \<open>Text\<close>

text \<open>
  \<^verbatim>\<open>String::from_utf8_lossy\<close>: every longest part of a sequence that is not finished, and every
  byte that begins none, becomes the replacement character.
\<close>

definition replacement :: string where
  "replacement = of_bytes [0xEF, 0xBF, 0xBD]"

definition utf8_len :: "u8 \<Rightarrow> nat" where
  "utf8_len b = (if 0xC2 \<le> b \<and> b \<le> 0xDF then 2 else if 0xE0 \<le> b \<and> b \<le> 0xEF then 3
     else if 0xF0 \<le> b \<and> b \<le> 0xF4 then 4 else 0)"

definition utf8_second :: "u8 \<Rightarrow> u8 \<Rightarrow> bool" where
  "utf8_second b c \<longleftrightarrow> utf8_tail c \<and> (b = 0xE0 \<longrightarrow> 0xA0 \<le> c) \<and> (b = 0xED \<longrightarrow> c \<le> 0x9F) \<and>
     (b = 0xF0 \<longrightarrow> 0x90 \<le> c) \<and> (b = 0xF4 \<longrightarrow> c \<le> 0x8F)"

fun from_utf8_lossy :: "bytes \<Rightarrow> string" where
  "from_utf8_lossy [] = []"
| "from_utf8_lossy (b # rest) =
     (if b < 0x80 then byte_char b # from_utf8_lossy rest
      else if utf8_len b = 0 then replacement @ from_utf8_lossy rest
      else (case rest of
          [] \<Rightarrow> replacement
        | c # r \<Rightarrow>
            if \<not> utf8_second b c then replacement @ from_utf8_lossy rest
            else if utf8_len b = 2 then byte_char b # byte_char c # from_utf8_lossy r
            else (case r of
                [] \<Rightarrow> replacement
              | d # r' \<Rightarrow>
                  if \<not> utf8_tail d then replacement @ from_utf8_lossy r
                  else if utf8_len b = 3 then byte_char b # byte_char c # byte_char d # from_utf8_lossy r'
                  else (case r' of
                      [] \<Rightarrow> replacement
                    | e # r'' \<Rightarrow>
                        if \<not> utf8_tail e then replacement @ from_utf8_lossy r'
                        else byte_char b # byte_char c # byte_char d # byte_char e # from_utf8_lossy r''))))"

text \<open>\<^verbatim>\<open>str::replace(pattern, "")\<close>, for a pattern that is not empty.\<close>

function remove_all :: "string \<Rightarrow> string \<Rightarrow> string" where
  "remove_all p [] = []"
| "remove_all p (x # xs) = (if p \<noteq> [] \<and> prefix p (x # xs) then remove_all p (drop (length p) (x # xs))
     else x # remove_all p xs)"
  by pat_completeness auto
termination by (relation "measure (length \<circ> snd)") auto

function quoted_bytes :: "string \<Rightarrow> bytes" where
  "quoted_bytes [] = []"
| "quoted_bytes (x # xs) =
     (case (x = CHR ''='', xs) of
        (True, a # b # rest) \<Rightarrow>
          (case unhex_pair a b of
             Some value \<Rightarrow> value # quoted_bytes rest
           | None \<Rightarrow> char_byte x # quoted_bytes xs)
      | _ \<Rightarrow> char_byte x # quoted_bytes xs)"
  by pat_completeness auto
termination by (relation "measure length") auto

definition decode_quoted_printable :: "string \<Rightarrow> string" where
  "decode_quoted_printable input =
     from_utf8_lossy (quoted_bytes (remove_all [CHR ''='', CHR 0x0A] (remove_all [CHR ''='', CHR 0x0D, CHR 0x0A] input)))"

text \<open>The first run of exactly six digits; a longer or shorter run is passed over whole.\<close>

function first_six_digit_code :: "string \<Rightarrow> string option" where
  "first_six_digit_code [] = None"
| "first_six_digit_code (x # xs) =
     (if \<not> is_digit x then first_six_digit_code xs
      else (let run = takeWhile is_digit (x # xs)
        in if length run = 6 then Some run else first_six_digit_code (dropWhile is_digit (x # xs))))"
  by pat_completeness auto
termination
  by (relation "measure length") (auto simp: less_Suc_eq_le length_dropWhile_le)

subsection \<open>A message\<close>

definition from_vtop :: "gmail_lib \<Rightarrow> json \<Rightarrow> bool" where
  "from_vtop G message = list_ex (\<lambda>header.
       map_option (gl_lower G) (Option.bind (j_get header ''name'') j_str) = Some ''from'' \<and>
       (case Option.bind (j_get header ''value'') j_str of
          None \<Rightarrow> False | Some value \<Rightarrow> contains (gl_lower G value) SENDER))
     (j_items (j_pointer2 message ''payload'' ''headers''))"

text \<open>The decoded body of a part, and then of its parts, each on a line; the nesting is finite.\<close>

definition part_body :: "gmail_lib \<Rightarrow> json \<Rightarrow> string" where
  "part_body G part =
     (case Option.bind (j_pointer2 part ''body'' ''data'') j_str of
        None \<Rightarrow> []
      | Some data \<Rightarrow> (case gl_decode G (trim_end_char CHR ''='' data) of
          None \<Rightarrow> [] | Some b \<Rightarrow> from_utf8_lossy b @ [CHR 0x0A]))"

lemma size_j_get: "j_get v k = Some w \<Longrightarrow> size w < size v"
proof (induction v k rule: j_get.induct)
  case (1 m k)
  then have "(k, w) \<in> set m" by (simp add: map_of_SomeD)
  then show ?case by (induction m) auto
qed auto

lemma size_j_arr: "w \<in> set (j_arr v) \<Longrightarrow> size w < size v"
proof (cases v)
  case (JArr vs)
  assume "w \<in> set (j_arr v)"
  then have "w \<in> set vs" using JArr by simp
  then have "size w < Suc (size_list size vs)" by (induction vs) auto
  then show ?thesis using JArr by simp
qed auto

lemma size_j_items: "w \<in> set (j_items (j_get v k)) \<Longrightarrow> size w < size v"
  by (cases "j_get v k") (auto simp: j_items_def dest!: size_j_get size_j_arr)

function append_parts :: "gmail_lib \<Rightarrow> json \<Rightarrow> string" where
  "append_parts G part = part_body G part @ concat (map (append_parts G) (j_items (j_get part ''parts'')))"
  by pat_completeness auto
termination by (relation "measure (size \<circ> snd)") (auto simp: size_j_items)

declare append_parts.simps [simp del]

definition message_text :: "gmail_lib \<Rightarrow> json \<Rightarrow> string" where
  "message_text G message = decode_quoted_printable
     ((case Option.bind (j_get message ''snippet'') j_str of None \<Rightarrow> [] | Some snippet \<Rightarrow> snippet @ [CHR 0x0A]) @
      (case j_get message ''payload'' of None \<Rightarrow> [] | Some payload \<Rightarrow> append_parts G payload))"

subsection \<open>One look at the mailbox\<close>

definition get_json ::
  "gmail_lib \<Rightarrow> GmailAccess \<Rightarrow> string \<Rightarrow> (string \<times> string) list \<Rightarrow> gmail_world \<Rightarrow>
   (GmailOtpError + json) \<times> gmail_world" where
  "get_json G access url query w =
     (let w = w\<lparr>gs_sent := gs_sent w @ [\<lparr>gq_url = url, gq_bearer = trim (ga_access_token access), gq_query = query\<rparr>]\<rparr>
      in (case gl_http G (gs_sent w) of
            None \<Rightarrow> Inl Unavailable
          | Some (status, body) \<Rightarrow>
              if status = 200 then (case body of None \<Rightarrow> Inl Unavailable | Some v \<Rightarrow> Inr v)
              else if status = 401 then Inl Unauthorized
              else if status = 403 then Inl Forbidden
              else Inl Unavailable, w))"

definition message_ids :: "string set \<Rightarrow> json \<Rightarrow> string list" where
  "message_ids tried listing = filter (\<lambda>ident. ident \<notin> tried)
     (List.map_filter (\<lambda>message. Option.bind (j_get message ''id'') j_str) (j_items (j_get listing ''messages'')))"

definition received_ms :: "json \<Rightarrow> nat" where
  "received_ms message =
     (case Option.bind (Option.bind (j_get message ''internalDate'') j_str) (parse_uint (2 ^ 64)) of
        None \<Rightarrow> 0 | Some n \<Rightarrow> n)"

definition code_in :: "gmail_lib \<Rightarrow> nat \<Rightarrow> json \<Rightarrow> string option" where
  "code_in G since_secs message =
     (if received_ms message < since_secs * 1000 \<or> \<not> from_vtop G message then None
      else first_six_digit_code (message_text G message))"

fun first_otp ::
  "gmail_lib \<Rightarrow> GmailAccess \<Rightarrow> nat \<Rightarrow> string list \<Rightarrow> gmail_world \<Rightarrow>
   (GmailOtpError + GmailOtp option) \<times> gmail_world" where
  "first_otp G access since_secs [] w = (Inr None, w)"
| "first_otp G access since_secs (ident # ids) w =
     (case get_json G access (API @ ''/'' @ ident) [(''format'', ''full'')] w of
        (Inl e, w) \<Rightarrow> (Inl e, w)
      | (Inr message, w) \<Rightarrow>
          (case code_in G since_secs message of
             Some code \<Rightarrow> (Inr (Some \<lparr>go_code = code, go_message_id = ident\<rparr>), w)
           | None \<Rightarrow> first_otp G access since_secs ids w))"

definition newest_otp ::
  "gmail_lib \<Rightarrow> GmailAccess \<Rightarrow> nat \<Rightarrow> string set \<Rightarrow> gmail_world \<Rightarrow>
   (GmailOtpError + GmailOtp option) \<times> gmail_world" where
  "newest_otp G access since_secs tried w =
     (case get_json G access API [(''maxResults'', ''3''),
         (''q'', ''from:'' @ SENDER @ '' after:'' @ show_nat since_secs)] w of
        (Inl e, w) \<Rightarrow> (Inl e, w)
      | (Inr listing, w) \<Rightarrow> first_otp G access since_secs (message_ids tried listing) w)"

text \<open>The expiry is looked at with the clock; \<open>margin\<close> is in whole seconds, as \<^verbatim>\<open>as_secs\<close> gives them.\<close>

definition expires_within ::
  "gmail_lib \<Rightarrow> GmailAccess \<Rightarrow> nat \<Rightarrow> gmail_world \<Rightarrow> bool \<times> gmail_world" where
  "expires_within G access margin w =
     (case ga_expires_at access of
        None \<Rightarrow> (False, w)
      | Some expires_at \<Rightarrow> (expires_at \<le> gl_unix G (gs_ticks w) + margin, gm_tick w))"

definition find_otp ::
  "gmail_lib \<Rightarrow> GmailAccess \<Rightarrow> nat \<Rightarrow> string set \<Rightarrow> gmail_world \<Rightarrow>
   (GmailOtpError + GmailOtp option) \<times> gmail_world" where
  "find_otp G access issued_at tried w =
     (case expires_within G access 5 w of (lapsed, w) \<Rightarrow>
        if lapsed then (Inl Unauthorized, w) else newest_otp G access (issued_at - CLOCK_SLACK_SECS) tried w)"

subsection \<open>Waiting for it\<close>

text \<open>The loop ends by the clock; \<open>None\<close> is that it does not.\<close>

partial_function (option) poll_otp ::
  "gmail_lib \<Rightarrow> GmailAccess \<Rightarrow> nat \<Rightarrow> instant \<Rightarrow> string set \<Rightarrow> gmail_world \<Rightarrow>
   ((GmailOtpError + GmailOtp) \<times> gmail_world) option" where
  "poll_otp G access issued_at deadline tried w =
     (case find_otp G access issued_at tried w of
        (Inl e, w) \<Rightarrow> Some (Inl e, w)
      | (Inr (Some found), w) \<Rightarrow> Some (Inr found, w)
      | (Inr None, w) \<Rightarrow>
          if deadline < gl_instant G (gs_ticks w) + POLL_EVERY then Some (Inl NotFound, gm_tick w)
          else (case expires_within G access 8 (gm_tick w) of (lapses, w) \<Rightarrow>
            if lapses then Some (Inl Unauthorized, w) else poll_otp G access issued_at deadline tried w))"

definition wait_for_otp ::
  "gmail_lib \<Rightarrow> GmailAccess \<Rightarrow> nat \<Rightarrow> duration \<Rightarrow> string set \<Rightarrow> gmail_world \<Rightarrow>
   ((GmailOtpError + GmailOtp) \<times> gmail_world) option" where
  "wait_for_otp G access issued_at wait tried w =
     poll_otp G access issued_at (gl_instant G (gs_ticks w) + wait) tried (gm_tick w)"

text \<open>
  \<^verbatim>\<open>tidy_up\<close> as the request it sends: its URL and its JSON body; what Gmail answers is only
  logged.
\<close>

definition tidy_up :: "GmailAccess \<Rightarrow> string \<Rightarrow> string \<times> string \<times> json option" where
  "tidy_up access ident =
     (if ga_delete_after_reading access then (API @ ''/'' @ ident @ ''/trash'', trim (ga_access_token access), None)
      else (API @ ''/'' @ ident @ ''/modify'', trim (ga_access_token access),
        Some (JObj [(''removeLabelIds'', JArr [JStr ''UNREAD''])])))"

end
