(* ===== verification/Bridge.thy ===== *)
theory Bridge
  imports Login EngineTypes MailSeal Gmail
begin

section \<open>Errors, settings and JSON of the engine (vtop-bridge)\<close>

text \<open>
  What every route of the engine uses: the errors of the client as answers, the settings, the check
  of the shared secret, and the session and the saved credentials as JSON.
\<close>

subsection \<open>Errors\<close>

fun VtopError_text :: "VtopError \<Rightarrow> string" where
  "VtopError_text NetworkError = ''Network connection error''"
| "VtopError_text (VtopServerError s) = ''VTOP server error: '' @ s"
| "VtopError_text (AuthenticationFailed s) = ''Authentication failed: '' @ s"
| "VtopError_text RegistrationParsingError = ''Failed to parse registration number''"
| "VtopError_text VtopError.InvalidCredentials = ''Invalid username or password''"
| "VtopError_text SessionExpired = ''Session has expired''"
| "VtopError_text (ParseError s) = ''Parse error: '' @ s"
| "VtopError_text (ConfigurationError s) = ''Configuration error: '' @ s"
| "VtopError_text CaptchaRequired = ''Captcha verification required''"
| "VtopError_text InvalidResponse = ''Invalid response from server''"
| "VtopError_text (OTPRequired s t) = ''OTP required: '' @ s @ '' at '' @ show_nat t"
| "VtopError_text (VtopUnavailable s) = ''VTOP is unavailable: '' @ s"

record ApiError =
  api_status :: nat
  api_code :: string
  api_message :: string

definition api_error :: "nat \<Rightarrow> string \<Rightarrow> string \<Rightarrow> ApiError" where
  "api_error status code message = \<lparr>api_status = status, api_code = code, api_message = message\<rparr>"

definition error_json :: "ApiError \<Rightarrow> json" where
  "error_json e = JObj [(''code'', JStr (api_code e)), (''error'', JStr (api_message e))]"

definition bad_request :: "string \<Rightarrow> ApiError" where
  "bad_request message = api_error 400 ''bad_request'' message"

definition bad_arguments :: "string \<Rightarrow> ApiError" where
  "bad_arguments message = api_error 400 ''bad_arguments'' message"

definition session_expired :: ApiError where
  "session_expired = api_error 401 ''session_expired'' ''Session has expired''"

fun vtop_error :: "VtopError \<Rightarrow> ApiError" where
  "vtop_error SessionExpired = session_expired"
| "vtop_error (AuthenticationFailed s) = session_expired"
| "vtop_error VtopError.InvalidCredentials = session_expired"
| "vtop_error (OTPRequired s t) = session_expired"
| "vtop_error NetworkError = api_error 502 ''vtop_unavailable'' (VtopError_text NetworkError)"
| "vtop_error (VtopServerError s) = api_error 502 ''vtop_unavailable'' (VtopError_text (VtopServerError s))"
| "vtop_error (VtopUnavailable s) = api_error 502 ''vtop_unavailable'' (VtopError_text (VtopUnavailable s))"
| "vtop_error (ParseError s) = api_error 502 ''parse_error'' (VtopError_text (ParseError s))"
| "vtop_error InvalidResponse = api_error 502 ''parse_error'' (VtopError_text InvalidResponse)"
| "vtop_error (ConfigurationError s) = bad_arguments (VtopError_text (ConfigurationError s))"
| "vtop_error RegistrationParsingError = api_error 502 ''vtop_error'' (VtopError_text RegistrationParsingError)"
| "vtop_error CaptchaRequired = api_error 502 ''vtop_error'' (VtopError_text CaptchaRequired)"

fun login_error :: "VtopError \<Rightarrow> ApiError" where
  "login_error VtopError.InvalidCredentials =
     api_error 401 ''invalid_credentials'' (VtopError_text VtopError.InvalidCredentials)"
| "login_error (AuthenticationFailed message) = api_error 401 ''authentication_failed'' message"
| "login_error CaptchaRequired = api_error 502 ''authentication_failed'' (VtopError_text CaptchaRequired)"
| "login_error RegistrationParsingError =
     api_error 502 ''authentication_failed'' (VtopError_text RegistrationParsingError)"
| "login_error (ConfigurationError message) = bad_arguments message"
| "login_error e = vtop_error e"

datatype VerifyError = VerifyExpired | VerifyUnavailable string

fun map_verify_error :: "VtopError \<Rightarrow> VerifyError" where
  "map_verify_error SessionExpired = VerifyExpired"
| "map_verify_error (AuthenticationFailed s) = VerifyExpired"
| "map_verify_error RegistrationParsingError = VerifyExpired"
| "map_verify_error e = VerifyUnavailable (VtopError_text e)"

datatype LoginError = LoginInvalid | LoginFailed string

fun map_outcome :: "VtopError + unit \<Rightarrow> LoginError + unit" where
  "map_outcome (Inr u) = Inr u"
| "map_outcome (Inl VtopError.InvalidCredentials) = Inl LoginInvalid"
| "map_outcome (Inl (OTPRequired s t)) = Inl (LoginFailed ''otp_not_found: the OTP mail did not arrive'')"
| "map_outcome (Inl e) = Inl (LoginFailed (VtopError_text e))"

subsection \<open>Settings\<close>

record Config =
  eg_vault_key :: bytes
  eg_edge_url :: string
  eg_mail_relay_secret :: string
  eg_otp_wait :: duration
  eg_port :: nat

type_synonym lookup = "string \<Rightarrow> string option"

definition required :: "lookup \<Rightarrow> string \<Rightarrow> string + string" where
  "required lookup name =
     (case map_option trim (lookup name) of
        Some value \<Rightarrow> if value \<noteq> [] then Inr value else Inl (name @ '' is required'')
      | None \<Rightarrow> Inl (name @ '' is required''))"

definition parse_setting :: "(string \<Rightarrow> nat option) \<Rightarrow> lookup \<Rightarrow> string \<Rightarrow> nat \<Rightarrow> string + nat" where
  "parse_setting read lookup name dflt =
     (case lookup name of
        None \<Rightarrow> Inr dflt
      | Some raw \<Rightarrow> (case read (trim raw) of None \<Rightarrow> Inl (name @ '' has an invalid value'') | Some n \<Rightarrow> Inr n))"

text \<open>\<open>decode\<close> is the standard base64 of the crate.\<close>

definition Config_from_lookup :: "(string \<Rightarrow> bytes option) \<Rightarrow> lookup \<Rightarrow> string + Config" where
  "Config_from_lookup decode lookup =
     and_then (required lookup ''VAULT_KEY'') (\<lambda>encoded.
     and_then (case decode encoded of
         Some b \<Rightarrow> if length b = 32 then Inr b else Inl ''VAULT_KEY must be 32 bytes, base64''
       | None \<Rightarrow> Inl ''VAULT_KEY must be 32 bytes, base64'') (\<lambda>vault_key.
     and_then (required lookup ''EDGE_URL'') (\<lambda>url.
     let edge_url = trim_end_char CHR ''/'' url
     in if \<not> prefix ''https://'' edge_url \<and> \<not> prefix ''http://'' edge_url
        then Inl ''EDGE_URL must be an HTTP(S) URL''
        else
     and_then (required lookup ''MAIL_RELAY_SECRET'') (\<lambda>secret.
     if length secret < 32 then Inl ''MAIL_RELAY_SECRET must be at least 32 characters''
     else
     and_then (parse_setting (parse_uint (2 ^ 64)) lookup ''OTP_WAIT_SECS'' 45) (\<lambda>wait.
     and_then (parse_setting (parse_uint (2 ^ 16)) lookup ''PORT'' 8080) (\<lambda>port.
       Inr \<lparr>eg_vault_key = vault_key, eg_edge_url = edge_url, eg_mail_relay_secret = secret,
         eg_otp_wait = secs wait, eg_port = port\<rparr>))))))"

text \<open>The environment: an empty variable counts as none.\<close>

definition Config_from_env :: "(string \<Rightarrow> bytes option) \<Rightarrow> lookup \<Rightarrow> string + Config" where
  "Config_from_env decode var =
     Config_from_lookup decode (\<lambda>name. case var name of Some v \<Rightarrow> if v \<noteq> [] then Some v else None | None \<Rightarrow> None)"

subsection \<open>The shared secret\<close>

text \<open>
  The first \<^verbatim>\<open>Authorization\<close> header: its text if it is visible ASCII, what is after
  \<^verbatim>\<open>Bearer\<close>, or nothing.
\<close>

definition header_text :: "string \<Rightarrow> string option" where
  "header_text value = (if list_all (\<lambda>c. 32 \<le> char_code c \<and> char_code c < 127 \<or> char_code c = 9) value
     then Some value else None)"

definition presented :: "string option \<Rightarrow> string" where
  "presented auth =
     trim (case Option.bind auth header_text of
         Some value \<Rightarrow> if prefix ''Bearer '' value then drop (length ''Bearer '') value else []
       | None \<Rightarrow> [])"

definition require_secret :: "(bytes \<Rightarrow> bytes) \<Rightarrow> Config \<Rightarrow> string option \<Rightarrow> ApiError + unit" where
  "require_secret H config auth =
     (if \<not> hashes_equal (token_hash H (eg_mail_relay_secret config)) (token_hash H (presented auth))
      then Inl (api_error 401 ''unauthorized'' ''The engine secret is required.'')
      else Inr ())"

subsection \<open>Sessions and saved credentials as JSON\<close>

definition opt_num :: "string \<Rightarrow> nat option \<Rightarrow> (string \<times> json) list" where
  "opt_num k v = (case v of None \<Rightarrow> [] | Some n \<Rightarrow> [(k, JNum (show_nat n))])"

definition opt_num_field :: "string list \<Rightarrow> (string \<times> json) list \<Rightarrow> nat option option" where
  "opt_num_field names m = do { f \<leftarrow> find_field names m;
     case f of None \<Rightarrow> Some None | Some JNull \<Rightarrow> Some None | Some v \<Rightarrow> map_option (Some \<circ> unat) (j_u64 v) }"

definition session_state_json :: "SessionState \<Rightarrow> json" where
  "session_state_json s = JObj ([(''cookies'', JStr (st_cookies s))] @
     opt_entry ''csrf_token'' (st_csrf_token s) @ opt_entry ''registration_number'' (st_registration_number s) @
     opt_num ''otp_issued_at'' (st_otp_issued_at s) @ opt_num ''logged_in_at'' (st_logged_in_at s))"

definition session_state_of :: "json \<Rightarrow> SessionState option" where
  "session_state_of v = do { m \<leftarrow> j_fields v; cookies \<leftarrow> str_field [''cookies''] m;
     csrf \<leftarrow> opt_field [''csrf_token''] m; number \<leftarrow> opt_field [''registration_number''] m;
     issued \<leftarrow> opt_num_field [''otp_issued_at''] m; logged_in \<leftarrow> opt_num_field [''logged_in_at''] m;
     Some \<lparr>st_cookies = cookies, st_csrf_token = csrf, st_registration_number = number,
           st_otp_issued_at = issued, st_logged_in_at = logged_in\<rparr> }"

definition cookies_only :: "string \<Rightarrow> SessionState" where
  "cookies_only cookies = \<lparr>st_cookies = trim cookies, st_csrf_token = None, st_registration_number = None,
     st_otp_issued_at = None, st_logged_in_at = None\<rparr>"

record Vault =
  va_username :: string
  va_password :: string
  va_gmail :: "GmailGrant option"

definition vault_json :: "Vault \<Rightarrow> json" where
  "vault_json v = JObj ([(''username'', JStr (va_username v)), (''password'', JStr (va_password v))] @
     (case va_gmail v of None \<Rightarrow> [] | Some g \<Rightarrow> [(''gmail'', grant_json g)]))"

definition vault_of :: "json \<Rightarrow> Vault option" where
  "vault_of v = do { m \<leftarrow> j_fields v; username \<leftarrow> str_field [''username''] m;
     password \<leftarrow> str_field [''password''] m; f \<leftarrow> find_field [''gmail''] m;
     gmail \<leftarrow> (case f of None \<Rightarrow> Some None | Some JNull \<Rightarrow> Some None | Some g \<Rightarrow> map_option Some (grant_of g));
     Some \<lparr>va_username = username, va_password = password, va_gmail = gmail\<rparr> }"

definition accounts_aad :: "string \<Rightarrow> string" where
  "accounts_aad account = ''accounts/'' @ account"

lemma session_state_rt:
  assumes "\<And>n. st_otp_issued_at s = Some n \<Longrightarrow> n < 2 ^ 64" and "\<And>n. st_logged_in_at s = Some n \<Longrightarrow> n < 2 ^ 64"
  shows "session_state_of (session_state_json s) = Some s"
proof -
  have n: "j_u64 (JNum (show_nat n)) = Some (of_nat n)" if "n < 2 ^ 64" for n
    using that by simp
  have u: "unat (word_of_nat n :: u64) = n" if "n < 2 ^ 64" for n
    using that by (simp add: unat_of_nat take_bit_nat_eq_self)
  show ?thesis
    using assms by (cases "st_csrf_token s"; cases "st_registration_number s"; cases "st_otp_issued_at s";
        cases "st_logged_in_at s")
      (simp_all add: session_state_of_def session_state_json_def opt_num_def opt_num_field_def field_defs n u
        del: j_u64.simps)
qed

lemma vault_rt: "vault_of (vault_json v) = Some v"
proof (cases "va_gmail v")
  case (Some g)
  then show ?thesis
    using grant_rt [of g] grant_json_obj [of g]
    by (auto simp: vault_of_def vault_json_def field_defs)
qed (simp add: vault_of_def vault_json_def field_defs)

end
