(* ===== verification/BridgeEngine.thy ===== *)
theory BridgeEngine
  imports Bridge
begin

section \<open>Whose a session is, and signing in with saved credentials (vtop-bridge/src/engine.rs)\<close>

text \<open>
  The engine keeps nothing between requests: a handler is a function of the request, of the
  settings and of what the edge, VTOP and Google answer.  Each of those answers is a function of
  the requests sent to it so far; random draws are arguments.  A handler also tells which requests
  it sent to VTOP.
\<close>

subsection \<open>The edge over HTTPS\<close>

datatype EdgeError = NoMailbox | EdgeUnavailable string

record EdgeRequest =
  er_post :: bool
  er_url :: string
  er_bearer :: string
  er_body :: "json option"
  er_timeout :: duration

record EdgeReply =
  ey_status :: nat
  ey_body :: "json option"

record 'j bridge =
  br_config :: Config
  br_web :: "'j web"
  br_base_url :: string
  br_box :: box_crypto
  br_sha :: "bytes \<Rightarrow> bytes"
  br_edge :: "EdgeRequest list \<Rightarrow> string + EdgeReply"
  br_instant :: clock
  br_google :: "(string \<times> string) list \<Rightarrow> string + nat \<times> json option"
  br_gmail :: gmail_lib

abbreviation br_json :: "'j bridge \<Rightarrow> json_lib" where
  "br_json E \<equiv> wb_json (br_web E)"

abbreviation br_account :: "'j bridge \<Rightarrow> string \<Rightarrow> string" where
  "br_account E \<equiv> account_id (wb_upper (br_web E))"

definition edge_send :: "'j bridge \<Rightarrow> EdgeRequest \<Rightarrow> EdgeRequest list \<Rightarrow> (string + EdgeReply) \<times> EdgeRequest list" where
  "edge_send E rq sent = (br_edge E (sent @ [rq]), sent @ [rq])"

definition edge_post ::
  "'j bridge \<Rightarrow> string \<Rightarrow> json \<Rightarrow> EdgeRequest list \<Rightarrow> (EdgeError + EdgeReply) \<times> EdgeRequest list" where
  "edge_post E path body sent =
     apfst (map_err EdgeUnavailable) (edge_send E \<lparr>er_post = True, er_url = eg_edge_url (br_config E) @ path,
       er_bearer = eg_mail_relay_secret (br_config E), er_body = Some body, er_timeout = secs 40\<rparr> sent)"

definition await_otp ::
  "'j bridge \<Rightarrow> OtpAwait \<Rightarrow> EdgeRequest list \<Rightarrow> (EdgeError + string option) \<times> EdgeRequest list" where
  "await_otp E a sent =
     apfst (\<lambda>r. and_then r (\<lambda>response.
         if ey_status response = 200 then
           (case Option.bind (ey_body response) otp_awaited_of of
              None \<Rightarrow> Inl (EdgeUnavailable ''error decoding response body'') | Some sealed \<Rightarrow> Inr sealed)
         else if ey_status response = 404 then Inl NoMailbox
         else Inl (EdgeUnavailable (''edge answered '' @ show_nat (ey_status response)))))
       (edge_post E OTP_AWAIT (otp_await_json a) sent)"

definition login_done :: "'j bridge \<Rightarrow> LoginDone \<Rightarrow> EdgeRequest list \<Rightarrow> (EdgeError + unit) \<times> EdgeRequest list" where
  "login_done E d sent =
     apfst (\<lambda>r. and_then r (\<lambda>response.
         if is_success (ey_status response) then Inr ()
         else Inl (EdgeUnavailable (''edge answered '' @ wb_status_text (br_web E) (ey_status response)))))
       (edge_post E LOGIN_DONE (login_done_json d) sent)"

definition edge_udp_keys :: "'j bridge \<Rightarrow> EdgeError + string" where
  "edge_udp_keys E =
     and_then (map_err EdgeUnavailable (fst (edge_send E \<lparr>er_post = False,
         er_url = eg_edge_url (br_config E) @ UDP_KEYS_INTERNAL, er_bearer = eg_mail_relay_secret (br_config E),
         er_body = None, er_timeout = secs 10\<rparr> []))) (\<lambda>response.
       if \<not> is_success (ey_status response) then
         Inl (EdgeUnavailable (''edge answered '' @ wb_status_text (br_web E) (ey_status response)))
       else (case ey_body response of
           None \<Rightarrow> Inl (EdgeUnavailable ''error decoding response body'')
         | Some body \<Rightarrow> (case j_field body ''sealed'' of
             Some sealed \<Rightarrow> Inr sealed | None \<Rightarrow> Inl (EdgeUnavailable ''no sealed keys in the answer''))))"

subsection \<open>Codes from forwarded mail\<close>

definition FORWARD_SLACK_SECS :: nat where "FORWARD_SLACK_SECS = 120"
definition AWAIT_STEP_SECS :: nat where "AWAIT_STEP_SECS = 25"

record ForwardedCodes =
  fc_owner_hash :: string
  fc_secret :: string
  fc_public_key :: string
  fc_no_mailbox :: bool
  fc_sent :: "EdgeRequest list"

definition ForwardedCodes_new :: "'j bridge \<Rightarrow> string \<Rightarrow> bytes \<Rightarrow> ForwardedCodes" where
  "ForwardedCodes_new E owner secret =
     (case generate_keypair (br_box E) secret of (secret, public_key) \<Rightarrow>
        \<lparr>fc_owner_hash = owner, fc_secret = secret, fc_public_key = public_key, fc_no_mailbox = False,
         fc_sent = []\<rparr>)"

definition await_request :: "ForwardedCodes \<Rightarrow> nat \<Rightarrow> nat \<Rightarrow> OtpAwait" where
  "await_request f since_secs wait_secs =
     \<lparr>oa_owner_hash = fc_owner_hash f, oa_public_key = fc_public_key f,
      oa_since = of_nat since_secs, oa_wait_secs = of_nat wait_secs\<rparr>"

definition codes_register :: "'j bridge \<Rightarrow> nat \<Rightarrow> ForwardedCodes \<Rightarrow> (EdgeError + unit) \<times> ForwardedCodes" where
  "codes_register E now f =
     (case await_otp E (await_request f (now - FORWARD_SLACK_SECS) 0) (fc_sent f) of
        (r, sent) \<Rightarrow> (and_then r (\<lambda>_. Inr ()), f\<lparr>fc_sent := sent\<rparr>))"

definition payload_code :: "json \<Rightarrow> string option" where
  "payload_code v = do { m \<leftarrow> j_fields v; kind \<leftarrow> str_field [''kind''] m; code \<leftarrow> opt_field [''code''] m;
     if kind = ''otp'' then code else None }"

definition codes_open :: "'j bridge \<Rightarrow> ForwardedCodes \<Rightarrow> string \<Rightarrow> string option" where
  "codes_open E f sealed =
     (case box_open (br_box E) (fc_secret f) (fc_owner_hash f) sealed of
        Inl _ \<Rightarrow> None
      | Inr plaintext \<Rightarrow> do { s \<leftarrow> from_utf8 plaintext; v \<leftarrow> js_read (br_json E) s; payload_code v })"

text \<open>The loop, from a number of clock readings to one; it ends by the clock, if it does.\<close>

partial_function (option) codes_loop ::
  "'j bridge \<Rightarrow> nat \<Rightarrow> instant \<Rightarrow> string list \<Rightarrow> ForwardedCodes \<Rightarrow> nat \<Rightarrow>
   (string option \<times> ForwardedCodes \<times> nat) option" where
  "codes_loop E issued_at deadline tried f t =
     (let left = since deadline (br_instant E t)
      in if left < secs 1 then Some (None, f, t + 1)
         else (case await_otp E (await_request f (issued_at - FORWARD_SLACK_SECS)
                 (min (left div secs 1) AWAIT_STEP_SECS)) (fc_sent f) of
             (Inr (Some sealed), sent) \<Rightarrow>
               (case codes_open E f sealed of
                  Some code \<Rightarrow>
                    if code \<notin> set tried then Some (Some code, f\<lparr>fc_sent := sent\<rparr>, t + 1)
                    else codes_loop E issued_at deadline tried (f\<lparr>fc_sent := sent\<rparr>) (t + 1)
                | None \<Rightarrow> codes_loop E issued_at deadline tried (f\<lparr>fc_sent := sent\<rparr>) (t + 1))
           | (Inr None, sent) \<Rightarrow> codes_loop E issued_at deadline tried (f\<lparr>fc_sent := sent\<rparr>) (t + 1)
           | (Inl NoMailbox, sent) \<Rightarrow> Some (None, f\<lparr>fc_sent := sent, fc_no_mailbox := True\<rparr>, t + 1)
           | (Inl (EdgeUnavailable _), sent) \<Rightarrow>
               codes_loop E issued_at deadline tried (f\<lparr>fc_sent := sent\<rparr>) (t + 1)))"

definition forwarded_next :: "'j bridge \<Rightarrow> ForwardedCodes next_code" where
  "forwarded_next E f t issued_at remaining tried =
     map_option (\<lambda>(code, f, t'). (code, f, t' - t))
       (codes_loop E issued_at (br_instant E t + remaining) tried f (t + 1))"

subsection \<open>Asking VTOP whose a session is (verify.rs)\<close>

definition CoreVerifier_registration_number ::
  "'j bridge \<Rightarrow> SessionState \<Rightarrow> (VerifyError + string) \<times> HopRequest list" where
  "CoreVerifier_registration_number E session =
     (let cookies = \<lparr>st_cookies = st_cookies session, st_csrf_token = None, st_registration_number = None,
            st_otp_issued_at = None, st_logged_in_at = None\<rparr>
      in case with_session (br_web E) (br_base_url E) cookies of
           Inl _ \<Rightarrow> (Inl VerifyExpired, [])
         | Inr c \<Rightarrow>
             (case verify_session (br_web E) c of
                (Inl e, c) \<Rightarrow> (Inl (map_verify_error e), vc_sent c)
              | (Inr number, c) \<Rightarrow> (Inr (to_uppercase (wb_upper (br_web E)) (trim number)), vc_sent c)))"

subsection \<open>The routes\<close>

datatype Reply = JsonReply json | PackedReply bytes | StatusReply nat

text \<open>What every route with a body does first; \<open>bad\<close> is its answer to a body that it cannot read.\<close>

definition route ::
  "'j bridge \<Rightarrow> string option \<Rightarrow> ApiError \<Rightarrow> (json \<Rightarrow> 'b option) \<Rightarrow> json option \<Rightarrow>
   ('b \<Rightarrow> (ApiError + 'r) \<times> HopRequest list) \<Rightarrow> (ApiError + 'r) \<times> HopRequest list" where
  "route E auth bad rd body f =
     (case require_secret (br_sha E) (br_config E) auth of
        Inl e \<Rightarrow> (Inl e, [])
      | Inr _ \<Rightarrow> (case Option.bind body rd of None \<Rightarrow> (Inl bad, []) | Some b \<Rightarrow> f b))"

definition bad_json :: ApiError where
  "bad_json = bad_request ''Invalid JSON body.''"

definition checked_as :: "SessionStatus \<Rightarrow> SessionChecked" where
  "checked_as status = \<lparr>sd_status = status, sd_registration_number = None, sd_cookies = None,
     sd_csrf_token = None, sd_sealed_session = None, sd_owner_hash = None\<rparr>"

definition seal_account :: "'j bridge \<Rightarrow> bytes \<Rightarrow> string \<Rightarrow> ('a \<Rightarrow> json) \<Rightarrow> 'a \<Rightarrow> string" where
  "seal_account E iv account wr x =
     seal_json (br_box E) (br_json E) wr (eg_vault_key (br_config E)) iv (accounts_aad account) x"

definition open_account :: "'j bridge \<Rightarrow> string \<Rightarrow> (json \<Rightarrow> 'a option) \<Rightarrow> string \<Rightarrow> VaultError + 'a" where
  "open_account E account rd sealed =
     open_json (br_box E) (br_json E) rd (eg_vault_key (br_config E)) (accounts_aad account) sealed"

definition br_owner_hash :: "'j bridge \<Rightarrow> string \<Rightarrow> string" where
  "br_owner_hash E account =
     owner_hash (br_sha E) (wb_upper (br_web E)) (eg_vault_key (br_config E)) account"

text \<open>The session to ask about and whose it has to be; \<open>None\<close> is a cached one that does not open.\<close>

definition session_target ::
  "'j bridge \<Rightarrow> SessionCheck \<Rightarrow> ApiError + (SessionState \<times> string option) option" where
  "session_target E check =
     (if (case sc_cookies check of Some cookies \<Rightarrow> trim cookies \<noteq> [] | None \<Rightarrow> False) then
        Inr (Some (cookies_only (the (sc_cookies check)), None))
      else (case (sc_sealed_session check, sc_account check) of
          (Some sealed, Some account) \<Rightarrow>
            (let account = br_account E account
             in case open_account E account session_state_of sealed of
                  Inr session \<Rightarrow> Inr (Some (cookies_only (st_cookies session), Some account))
                | Inl _ \<Rightarrow> Inr None)
        | _ \<Rightarrow> Inl (bad_request ''cookies, or sealedSession and account, are required.'')))"

definition session_outcome ::
  "'j bridge \<Rightarrow> bytes \<Rightarrow> SessionState \<Rightarrow> string option \<Rightarrow> VerifyError + string \<Rightarrow> SessionChecked" where
  "session_outcome E iv session expected result =
     (case result of
        Inr owner \<Rightarrow>
          if expected = None \<or> expected = Some owner then
            (let owner = br_account E owner
             in \<lparr>sd_status = Valid, sd_registration_number = Some owner, sd_cookies = Some (st_cookies session),
                 sd_csrf_token = st_csrf_token session,
                 sd_sealed_session = Some (seal_account E iv owner session_state_json session),
                 sd_owner_hash = Some (br_owner_hash E owner)\<rparr>)
          else checked_as Expired
      | Inl VerifyExpired \<Rightarrow> checked_as Expired
      | Inl (VerifyUnavailable reason) \<Rightarrow>
          (checked_as Unknown)\<lparr>sd_csrf_token := (if expected = None then None else st_csrf_token session),
            sd_cookies := (if expected = None then None else Some (st_cookies session))\<rparr>)"

definition engine_session ::
  "'j bridge \<Rightarrow> bytes \<Rightarrow> string option \<Rightarrow> json option \<Rightarrow> (ApiError + SessionChecked) \<times> HopRequest list" where
  "engine_session E iv auth body = route E auth bad_json session_check_of body (\<lambda>check.
     case session_target E check of
       Inl e \<Rightarrow> (Inl e, [])
     | Inr None \<Rightarrow> (Inr (checked_as Expired), [])
     | Inr (Some (session, expected)) \<Rightarrow>
         (case CoreVerifier_registration_number E session of (result, sent) \<Rightarrow>
            (Inr (session_outcome E iv session expected result), sent)))"

definition udp_keys :: "'j bridge \<Rightarrow> string option \<Rightarrow> ApiError + Reply" where
  "udp_keys E auth = and_then (require_secret (br_sha E) (br_config E) auth) (\<lambda>_.
     case edge_udp_keys E of
       Inr sealed \<Rightarrow> Inr (JsonReply (JObj [(''sealed'', JStr sealed)]))
     | Inl _ \<Rightarrow> Inl (api_error 503 ''edge_unavailable'' ''The edge did not hand out the UDP keys.''))"

definition engine_seal ::
  "'j bridge \<Rightarrow> bytes \<Rightarrow> string option \<Rightarrow> json option \<Rightarrow> (ApiError + string) \<times> HopRequest list" where
  "engine_seal E iv auth body = route E auth bad_json seal_vault_of body (\<lambda>body.
     let account = br_account E (sv_account body); username = trim (sv_username body)
     in if account = [] \<or> username = [] \<or> sv_password body = [] then
          (Inl (bad_request ''account, username and password are required.''), [])
        else (Inr (seal_account E iv account vault_json \<lparr>va_username = username, va_password = sv_password body,
               va_gmail = Option.bind (sv_gmail body) usable\<rparr>), []))"

subsection \<open>Signing in (login.rs, gmail.rs)\<close>

definition CoreLogin_login ::
  "'j bridge \<Rightarrow> 's next_code \<Rightarrow> 's \<Rightarrow> string \<Rightarrow> string \<Rightarrow>
   ((LoginError + SessionState) \<times> 's \<times> HopRequest list) option" where
  "CoreLogin_login E next_code s username password =
     (case and_then (Username_parse username) (\<lambda>u. and_then (Password_parse password) (\<lambda>p. Inr (u, p))) of
        Inl e \<Rightarrow> Some (Inl (LoginFailed (VtopError_text e)), s, [])
      | Inr (u, p) \<Rightarrow>
          (case login_with_otp_from (br_web E) (br_instant E) next_code (eg_otp_wait (br_config E)) s
              (with_credentials (br_web E) (br_base_url E) u p) of
             None \<Rightarrow> None
           | Some (result, s, c) \<Rightarrow>
               Some (and_then (map_outcome result) (\<lambda>_. Inr (session_state (br_web E) c)), s, vc_sent c)))"

definition signed_in_outcome ::
  "'j bridge \<Rightarrow> bytes \<Rightarrow> string \<Rightarrow> LoginError + SessionState \<Rightarrow> LoginOutcome" where
  "signed_in_outcome E iv account result =
     (case result of
        Inr session \<Rightarrow>
          if map_option (br_account E) (st_registration_number session) \<noteq> Some account then VaultUnusable
          else OutcomeOk (st_cookies session) (seal_account E iv account session_state_json session)
                 (st_csrf_token session)
      | Inl LoginInvalid \<Rightarrow> LoginOutcome.InvalidCredentials
      | Inl (LoginFailed reason) \<Rightarrow> OutcomeFailed reason)"

text \<open>An access token from Google, for the refresh token of the grant.\<close>

datatype RefreshError = InvalidGrant | RefreshUnavailable string

record FreshToken =
  ft_access_token :: string
  ft_expires_at :: nat

definition gmail_refresh :: "'j bridge \<Rightarrow> nat \<Rightarrow> GmailGrant \<Rightarrow> RefreshError + FreshToken" where
  "gmail_refresh E now grant =
     (let form = [(''grant_type'', ''refresh_token''), (''refresh_token'', gg_refresh_token grant),
            (''client_id'', gg_client_id grant)] @
            (case gg_client_secret grant of Some secret \<Rightarrow> [(''client_secret'', secret)] | None \<Rightarrow> []);
          unavailable = (\<lambda>reason. Inl (RefreshUnavailable (''gmail refresh: '' @ reason)))
      in case br_google E form of
           Inl reason \<Rightarrow> unavailable reason
         | Inr (status, reply) \<Rightarrow>
             (let body = (case reply of Some v \<Rightarrow> v | None \<Rightarrow> JNull)
              in if \<not> is_success status then
                   (if j_field body ''error'' = Some ''invalid_grant'' then Inl InvalidGrant
                    else unavailable (''HTTP '' @ wb_status_text (br_web E) status @ '', '' @
                      (case j_field body ''error'' of Some e \<Rightarrow> e | None \<Rightarrow> ''no error code'')))
                 else (case j_field body ''access_token'' of
                     Some token \<Rightarrow>
                       if token = [] then unavailable ''no access_token in reply''
                       else Inr \<lparr>ft_access_token = token, ft_expires_at = now +
                         (case Option.bind (j_get body ''expires_in'') j_u64 of Some n \<Rightarrow> unat n | None \<Rightarrow> 3600)\<rparr>
                   | None \<Rightarrow> unavailable ''no access_token in reply'')))"

record GmailCodes =
  gc_access :: GmailAccess
  gc_handed_out :: "(string \<times> string) list"
  gc_world :: gmail_world

definition GmailCodes_new :: "FreshToken \<Rightarrow> bool \<Rightarrow> GmailCodes" where
  "GmailCodes_new token delete_after_reading =
     \<lparr>gc_access = \<lparr>ga_access_token = ft_access_token token, ga_delete_after_reading = delete_after_reading,
        ga_expires_at = Some (ft_expires_at token)\<rparr>,
      gc_handed_out = [], gc_world = \<lparr>gs_sent = [], gs_ticks = 0\<rparr>\<rparr>"

definition gmail_next :: "gmail_lib \<Rightarrow> GmailCodes next_code" where
  "gmail_next G g t issued_at remaining tried =
     (let skip = set (map snd (filter (\<lambda>(code, _). code \<in> set tried) (gc_handed_out g)))
      in case wait_for_otp G (gc_access g) issued_at remaining skip ((gc_world g)\<lparr>gs_ticks := t\<rparr>) of
           None \<Rightarrow> None
         | Some (Inr found, w) \<Rightarrow>
             Some (Some (go_code found), g\<lparr>gc_handed_out := gc_handed_out g @ [(go_code found, go_message_id found)],
               gc_world := w\<rparr>, gs_ticks w - t)
         | Some (Inl _, w) \<Rightarrow> Some (None, g\<lparr>gc_world := w\<rparr>, gs_ticks w - t))"

text \<open>What is tidied up after a sign-in: the mail of the last code handed out.\<close>

definition GmailCodes_tidy_up :: "GmailCodes \<Rightarrow> (string \<times> string \<times> json option) option" where
  "GmailCodes_tidy_up g =
     (if gc_handed_out g = [] then None else Some (tidy_up (gc_access g) (snd (last (gc_handed_out g)))))"

text \<open>A sign-in's outcome, the requests sent to VTOP, and what is sent to Gmail to tidy up.\<close>

type_synonym tidied = "(string \<times> string \<times> json option) option"

definition sign_in_with_gmail ::
  "'j bridge \<Rightarrow> nat \<Rightarrow> bytes \<Rightarrow> string \<Rightarrow> Vault \<Rightarrow> GmailGrant \<Rightarrow> (LoginOutcome \<times> HopRequest list \<times> tidied) option" where
  "sign_in_with_gmail E now iv account vault grant =
     (case gmail_refresh E now grant of
        Inl InvalidGrant \<Rightarrow> Some (GmailRevoked (seal_account E iv account vault_json (vault\<lparr>va_gmail := None\<rparr>)), [], None)
      | Inl (RefreshUnavailable _) \<Rightarrow>
          Some (OutcomeFailed ''gmail_unavailable: Gmail could not be reached'', [], None)
      | Inr token \<Rightarrow>
          (case CoreLogin_login E (gmail_next (br_gmail E)) (GmailCodes_new token (gg_delete_after_reading grant))
              (va_username vault) (va_password vault) of
             None \<Rightarrow> None
           | Some (result, codes, sent) \<Rightarrow>
               Some (signed_in_outcome E iv account result, sent,
                 case result of Inr _ \<Rightarrow> GmailCodes_tidy_up codes | Inl _ \<Rightarrow> None)))"

text \<open>
  The whole sign-in: \<open>now\<close> is the time when it registers at the edge, \<open>later\<close> when a Gmail token
  is refreshed.
\<close>

record trace =
  tr_edge :: "EdgeRequest list"
  tr_vtop :: "HopRequest list"
  tr_tidied :: tidied

definition engine_sign_in ::
  "'j bridge \<Rightarrow> nat \<Rightarrow> nat \<Rightarrow> bytes \<Rightarrow> bytes \<Rightarrow> string \<Rightarrow> string \<Rightarrow> (LoginOutcome \<times> trace) option" where
  "engine_sign_in E now later secret iv account sealed_vault =
     (case open_account E account vault_of sealed_vault of
        Inl _ \<Rightarrow> Some (VaultUnusable, \<lparr>tr_edge = [], tr_vtop = [], tr_tidied = None\<rparr>)
      | Inr vault \<Rightarrow>
          (case codes_register E now (ForwardedCodes_new E (br_owner_hash E account) secret) of
             (Inl NoMailbox, codes) \<Rightarrow>
               (case Option.bind (va_gmail vault) usable of
                  Some grant \<Rightarrow> map_option (\<lambda>(outcome, sent, tidied).
                      (outcome, \<lparr>tr_edge = fc_sent codes, tr_vtop = sent, tr_tidied = tidied\<rparr>))
                    (sign_in_with_gmail E later iv account vault grant)
                | None \<Rightarrow> Some (ForwardingRequired, \<lparr>tr_edge = fc_sent codes, tr_vtop = [], tr_tidied = None\<rparr>))
           | (_, codes) \<Rightarrow>
               (case CoreLogin_login E (forwarded_next E) codes (va_username vault) (va_password vault) of
                  None \<Rightarrow> None
                | Some (result, codes, sent) \<Rightarrow>
                    Some (if (case result of Inl (LoginFailed _) \<Rightarrow> fc_no_mailbox codes | _ \<Rightarrow> False)
                        then ForwardingRequired else signed_in_outcome E iv account result,
                      \<lparr>tr_edge = fc_sent codes, tr_vtop = sent, tr_tidied = None\<rparr>))))"

text \<open>The outcome goes to the edge, in at most three tries.\<close>

fun report :: "'j bridge \<Rightarrow> LoginDone \<Rightarrow> nat \<Rightarrow> EdgeRequest list \<Rightarrow> EdgeRequest list" where
  "report E d 0 sent = sent"
| "report E d (Suc n) sent =
     (case login_done E d sent of (Inr _, sent) \<Rightarrow> sent | (Inl _, sent) \<Rightarrow> report E d n sent)"

definition login_job ::
  "'j bridge \<Rightarrow> nat \<Rightarrow> nat \<Rightarrow> bytes \<Rightarrow> bytes \<Rightarrow> LoginStart \<Rightarrow> (LoginDone \<times> trace) option" where
  "login_job E now later secret iv start =
     (let account = br_account E (ls_account start)
      in map_option (\<lambda>(outcome, tr).
           let d = \<lparr>ld_account = account, ld_request_id = ls_request_id start, ld_outcome = outcome\<rparr>
           in (d, tr\<lparr>tr_edge := report E d 3 (tr_edge tr)\<rparr>))
         (engine_sign_in E now later secret iv account (ls_sealed_vault start)))"

text \<open>The route itself answers at once; the second part is the sign-in that goes on.\<close>

definition engine_login :: "'j bridge \<Rightarrow> string option \<Rightarrow> json option \<Rightarrow> ApiError + Reply \<times> LoginStart" where
  "engine_login E auth body =
     fst (route E auth bad_json login_start_of body (\<lambda>start. (Inr (StatusReply 202, start), [])))"

definition session_body_of :: "json \<Rightarrow> string option" where
  "session_body_of v = do { m \<leftarrow> j_fields v; f \<leftarrow> find_field [''cookies''] m;
     case f of None \<Rightarrow> Some [] | Some c \<Rightarrow> j_str c }"

definition owner_check ::
  "'j bridge \<Rightarrow> string option \<Rightarrow> json option \<Rightarrow> (ApiError + Reply) \<times> HopRequest list" where
  "owner_check E auth body = route E auth bad_json session_body_of body (\<lambda>cookies.
     if trim cookies = [] then (Inl (bad_request ''session.cookies is required.''), [])
     else (case CoreVerifier_registration_number E (cookies_only cookies) of (result, sent) \<Rightarrow>
       (case result of
          Inr account \<Rightarrow> Inr (JsonReply (JObj [(''ownerHash'', JStr (br_owner_hash E (br_account E account)))]))
        | Inl VerifyExpired \<Rightarrow>
            Inl (api_error 401 ''session_invalid'' ''VTOP does not accept this session; sign in again.'')
        | Inl (VerifyUnavailable _) \<Rightarrow>
            Inl (api_error 503 ''vtop_unreachable'' ''VTOP is unreachable; try again.''), sent)))"

end
