(* ===== verification/PagesAcademic.thy ===== *)
theory PagesAcademic
  imports HostelPages EngineTypes "HOL-Library.Product_Lexorder"
begin

section \<open>Attendance, biometric, calendar, exams, marks (vtop-core/src/parser)\<close>

text \<open>
  What each parser makes of its page: rows that do not have the expected shape are skipped, cells
  that are missing are empty.  The time at which the page is read is an argument, and so is Unicode
  lower case.
\<close>

subsection \<open>Cells (parser/mod.rs)\<close>

definition compact_text :: "('d, 'e) dom \<Rightarrow> 'e \<Rightarrow> string" where
  "compact_text D e = filter (\<lambda>c. c \<noteq> CHR 0x09 \<and> c \<noteq> CHR 0x0A) (trim (concat (dm_texts D e)))"

definition nth_opt :: "'a list \<Rightarrow> nat \<Rightarrow> 'a option" where
  "nth_opt xs i = (if i < length xs then Some (xs ! i) else None)"

definition compact_cell :: "('d, 'e) dom \<Rightarrow> 'e list \<Rightarrow> nat \<Rightarrow> string" where
  "compact_cell D cells i = or_default (map_option (compact_text D) (nth_opt cells i))"

definition word_cell :: "('d, 'e) dom \<Rightarrow> 'e list \<Rightarrow> nat \<Rightarrow> string" where
  "word_cell D cells i = or_default (map_option (word_text D) (nth_opt cells i))"

definition tds :: "('d, 'e) dom \<Rightarrow> 'e \<Rightarrow> 'e list" where
  "tds D row = dm_within D ''td'' row"

definition without :: "char \<Rightarrow> string \<Rightarrow> string" where
  "without c s = filter (\<lambda>x. x \<noteq> c) s"

subsection \<open>Attendance (attendance.rs)\<close>

record AttendanceRecord =
  at_serial :: string
  at_category :: string
  at_course_name :: string
  at_course_code :: string
  at_course_type :: string
  at_faculty_detail :: string
  at_classes_attended :: string
  at_total_classes :: string
  at_attendance_percentage :: string
  at_attendence_fat_cat :: string
  at_debar_status :: string
  at_course_id :: string

record AttendanceData =
  ad_records :: "AttendanceRecord list"
  ad_semester_id :: string
  ad_update_time :: nat

definition SUMMARY_MIN_CELLS :: nat where "SUMMARY_MIN_CELLS = 10"

definition detail_link_args :: "('d, 'e) dom \<Rightarrow> 'e \<Rightarrow> (string \<times> string) option" where
  "detail_link_args D td = (let args = split_on CHR '','' (dm_html D td)
     in do { course_id \<leftarrow> nth_opt args 2; rest \<leftarrow> nth_opt args 3;
             Some (without CHR 0x27 course_id, without CHR 0x27 (hd (split_on CHR '')'' rest))) })"

definition summary_row :: "('d, 'e) dom \<Rightarrow> 'e \<Rightarrow> AttendanceRecord option" where
  "summary_row D row =
     (let cells = tds D row; text = compact_cell D cells; has_fat_cat = SUMMARY_MIN_CELLS < length cells
      in if length cells < SUMMARY_MIN_CELLS then None
         else map_option (\<lambda>(course_id, course_type).
           \<lparr>at_serial = text 0, at_category = text 1, at_course_name = text 2, at_course_code = text 3,
            at_course_type = course_type, at_faculty_detail = text 4, at_classes_attended = text 5,
            at_total_classes = text 6, at_attendance_percentage = text 7,
            at_attendence_fat_cat = (if has_fat_cat then text 8 else ''-''),
            at_debar_status = text (if has_fat_cat then 9 else 8), at_course_id = course_id\<rparr>)
           (detail_link_args D (last cells)))"

definition parse_attendance :: "('d, 'e) dom \<Rightarrow> string \<Rightarrow> string \<Rightarrow> nat \<Rightarrow> AttendanceData" where
  "parse_attendance D html sem now =
     \<lparr>ad_records = List.map_filter (summary_row D) (drop 1 (dm_select D ''tr'' (dm_parse D html))),
      ad_semester_id = sem, ad_update_time = now\<rparr>"

record FullAttendanceRecord =
  fa_serial :: string
  fa_date :: string
  fa_slot :: string
  fa_day_time :: string
  fa_status :: string
  fa_remark :: string

record FullAttendanceData =
  fd_records :: "FullAttendanceRecord list"
  fd_semester_id :: string
  fd_update_time :: nat
  fd_course_id :: string
  fd_course_type :: string

definition DETAIL_HEADER_ROWS :: nat where "DETAIL_HEADER_ROWS = 3"

definition detail_row :: "('d, 'e) dom \<Rightarrow> 'e \<Rightarrow> FullAttendanceRecord option" where
  "detail_row D row =
     (let cells = tds D row
      in if length cells \<le> 5 then None
         else Some \<lparr>fa_serial = compact_text D (cells ! 0), fa_date = compact_text D (cells ! 1),
           fa_slot = compact_text D (cells ! 2), fa_day_time = compact_text D (cells ! 3),
           fa_status = compact_text D (cells ! 4), fa_remark = compact_text D (cells ! 5)\<rparr>)"

definition parse_full_attendance ::
  "('d, 'e) dom \<Rightarrow> string \<Rightarrow> string \<Rightarrow> string \<Rightarrow> string \<Rightarrow> nat \<Rightarrow> FullAttendanceData" where
  "parse_full_attendance D html sem course_id course_type now =
     \<lparr>fd_records = List.map_filter (detail_row D) (drop DETAIL_HEADER_ROWS (dm_select D ''tr'' (dm_parse D html))),
      fd_semester_id = sem, fd_update_time = now, fd_course_id = course_id, fd_course_type = course_type\<rparr>"

subsection \<open>Biometric history (biometric.rs)\<close>

record BiometricRecord =
  bi_serial :: string
  bi_punch_date :: string
  bi_punch_time :: string
  bi_venue :: string

record BiometricData =
  bd_records :: "BiometricRecord list"
  bd_requested_date :: string
  bd_update_time :: nat

definition punch_row :: "('d, 'e) dom \<Rightarrow> 'e \<Rightarrow> BiometricRecord option" where
  "punch_row D row =
     (case tds D row of
        [serial, punch_date, punch_time, venue] \<Rightarrow>
          (let serial = word_text D serial
           in if eq_ignore_ascii_case serial ''sl.no'' \<or> parse_u32 serial = None then None
              else Some \<lparr>bi_serial = serial, bi_punch_date = word_text D punch_date,
                bi_punch_time = word_text D punch_time, bi_venue = word_text D venue\<rparr>)
      | _ \<Rightarrow> None)"

definition parse_biometric :: "('d, 'e) dom \<Rightarrow> string \<Rightarrow> string \<Rightarrow> nat \<Rightarrow> BiometricData" where
  "parse_biometric D html requested_date now =
     \<lparr>bd_records = List.map_filter (punch_row D) (dm_select D ''tr'' (dm_parse D html)),
      bd_requested_date = requested_date, bd_update_time = now\<rparr>"

subsection \<open>The academic calendar (calendar.rs)\<close>

record CalendarEntry =
  ce_date :: string
  ce_kind :: string
  ce_group :: string
  ce_note :: string

definition CALENDAR_MONTHS :: "string list" where
  "CALENDAR_MONTHS = [''JAN'', ''FEB'', ''MAR'', ''APR'', ''MAY'', ''JUN'', ''JUL'', ''AUG'', ''SEP'', ''OCT'',
     ''NOV'', ''DEC'']"

definition month_of :: "string \<Rightarrow> (nat \<times> nat) option" where
  "month_of cal_date = (let parts = split_on CHR ''-'' cal_date
     in do { m \<leftarrow> nth_opt parts 1; y \<leftarrow> nth_opt parts 2; year \<leftarrow> parse_u32 y;
             i \<leftarrow> position (map ascii_upper m) CALENDAR_MONTHS; Some (year, i + 1) })"

definition parse_calendar_months :: "('d, 'e) dom \<Rightarrow> string \<Rightarrow> string list" where
  "parse_calendar_months D html = List.map_filter (\<lambda>link. do {
       onclick \<leftarrow> dm_attr D link ''onclick'';
       (_, rest) \<leftarrow> split_at_str ''processViewCalendar('' onclick;
       date \<leftarrow> nth_opt (split_on CHR 0x27 rest) 1;
       map_option (\<lambda>_. date) (month_of date) })
     (dm_select D ''a[onclick]'' (dm_fragment D html))"

definition pad :: "nat \<Rightarrow> nat \<Rightarrow> string" where
  "pad w n = replicate (w - length (show_nat n)) CHR ''0'' @ show_nat n"

text \<open>\<^verbatim>\<open>rsplit_once\<close>: at the last place where the pattern is.\<close>

definition rsplit_once :: "string \<Rightarrow> string \<Rightarrow> (string \<times> string) option" where
  "rsplit_once m s = map_option (\<lambda>(a, b). (rev b, rev a)) (split_at_str (rev m) (rev s))"

text \<open>\<^verbatim>\<open>chunks(2)\<close>: each event and the note after it.\<close>

fun events :: "string list \<Rightarrow> (string \<times> string option) list" where
  "events [] = []"
| "events [e] = [(e, None)]"
| "events (e # n # rest) = (e, Some n) # events rest"

definition bare_note :: "string \<Rightarrow> string" where
  "bare_note note = (if note \<noteq> [] \<and> hd note = CHR ''('' \<and> tl note \<noteq> [] \<and> last (tl note) = CHR '')''
     then butlast (tl note) else note)"

definition calendar_entry :: "string \<Rightarrow> string \<times> string option \<Rightarrow> CalendarEntry option" where
  "calendar_entry date pair =
     (case pair of (event, note) \<Rightarrow>
        if event = [] then None
        else (case (case rsplit_once '' - '' event of Some p \<Rightarrow> p | None \<Rightarrow> (event, [])) of (kind, grp) \<Rightarrow>
          Some \<lparr>ce_date = date, ce_kind = trim kind, ce_group = trim grp,
            ce_note = trim (bare_note (or_default note))\<rparr>))"

definition calendar_cell :: "('d, 'e) dom \<Rightarrow> nat \<Rightarrow> nat \<Rightarrow> 'e \<Rightarrow> CalendarEntry list" where
  "calendar_cell D year month td =
     (let spans = map (word_text D) (dm_within D ''span'' td)
      in case Option.bind (first spans) parse_u32 of
           None \<Rightarrow> []
         | Some day \<Rightarrow>
             if \<not> (1 \<le> day \<and> day \<le> 31) then []
             else List.map_filter (calendar_entry (pad 4 year @ ''-'' @ pad 2 month @ ''-'' @ pad 2 day))
               (events (drop 1 spans)))"

definition parse_calendar_month :: "('d, 'e) dom \<Rightarrow> string \<Rightarrow> string \<Rightarrow> CalendarEntry list" where
  "parse_calendar_month D html cal_date =
     (case month_of cal_date of
        None \<Rightarrow> []
      | Some (year, month) \<Rightarrow> concat (map (calendar_cell D year month) (dm_select D ''td'' (dm_fragment D html))))"

subsection \<open>The exam schedule (exam_schedule.rs)\<close>

record ExamScheduleRecord =
  ex_serial :: string
  ex_slot :: string
  ex_course_name :: string
  ex_course_code :: string
  ex_course_type :: string
  ex_course_id :: string
  ex_exam_date :: string
  ex_exam_session :: string
  ex_reporting_time :: string
  ex_exam_time :: string
  ex_venue :: string
  ex_seat_location :: string
  ex_seat_no :: string

record PerExamScheduleRecord =
  px_records :: "ExamScheduleRecord list"
  px_exam_type :: string

record ExamScheduleData =
  ed_exams :: "PerExamScheduleRecord list"
  ed_semester_id :: string
  ed_update_time :: nat

definition HEADER_ROWS :: nat where "HEADER_ROWS = 2"
definition RECORD_MIN_CELLS :: nat where "RECORD_MIN_CELLS = 13"

definition exam_record :: "('d, 'e) dom \<Rightarrow> 'e list \<Rightarrow> ExamScheduleRecord" where
  "exam_record D cells = (let text = (\<lambda>i. compact_text D (cells ! i))
     in \<lparr>ex_serial = text 0, ex_slot = text 5, ex_course_name = text 2, ex_course_code = text 1,
         ex_course_type = text 3, ex_course_id = text 4, ex_exam_date = text 6, ex_exam_session = text 7,
         ex_reporting_time = text 8, ex_exam_time = text 9, ex_venue = text 10, ex_seat_location = text 11,
         ex_seat_no = text 12\<rparr>)"

definition exam_group :: "string \<Rightarrow> PerExamScheduleRecord" where
  "exam_group title = \<lparr>px_records = [], px_exam_type = title\<rparr>"

definition push_exam :: "ExamScheduleRecord \<Rightarrow> PerExamScheduleRecord list \<Rightarrow> PerExamScheduleRecord list" where
  "push_exam r exams = (let exams = (if exams = [] then [exam_group []] else exams); grp = last exams
     in butlast exams @ [grp\<lparr>px_records := px_records grp @ [r]\<rparr>])"

definition exam_row :: "('d, 'e) dom \<Rightarrow> PerExamScheduleRecord list \<Rightarrow> 'e \<Rightarrow> PerExamScheduleRecord list" where
  "exam_row D exams row =
     (let cells = tds D row
      in if length cells < 3 then
           (case cells of [] \<Rightarrow> exams | title # _ \<Rightarrow> exams @ [exam_group (compact_text D title)])
         else if RECORD_MIN_CELLS \<le> length cells then push_exam (exam_record D cells) exams
         else exams)"

definition parse_schedule :: "('d, 'e) dom \<Rightarrow> string \<Rightarrow> string \<Rightarrow> nat \<Rightarrow> ExamScheduleData" where
  "parse_schedule D html sem now =
     \<lparr>ed_exams = foldl (exam_row D) [] (drop HEADER_ROWS (dm_select D ''tr'' (dm_parse D html))),
      ed_semester_id = sem, ed_update_time = now\<rparr>"

subsection \<open>Marks (marks.rs)\<close>

record MarksRecordEach =
  me_serial :: string
  me_markstitle :: string
  me_maxmarks :: string
  me_weightage :: string
  me_status :: string
  me_scoredmark :: string
  me_weightagemark :: string
  me_remark :: string

record MarksRecord =
  mr_serial :: string
  mr_coursecode :: string
  mr_coursetitle :: string
  mr_coursetype :: string
  mr_faculity :: string
  mr_slot :: string
  mr_marks :: "MarksRecordEach list"

record MarksData =
  md_records :: "MarksRecord list"
  md_semester_id :: string
  md_update_time :: nat

definition course_row :: "('d, 'e) dom \<Rightarrow> 'e list \<Rightarrow> MarksRecord" where
  "course_row D cells = (let td = compact_cell D cells
     in \<lparr>mr_serial = td 0, mr_coursecode = td 2, mr_coursetitle = td 3, mr_coursetype = td 4,
         mr_faculity = td 6, mr_slot = td 7, mr_marks = []\<rparr>)"

text \<open>A title in pieces: a number, at most the greatest of 64 bits, or text in lower case.\<close>

function natural_key :: "(string \<Rightarrow> string) \<Rightarrow> string \<Rightarrow> (nat \<times> nat \<times> string) list" where
  "natural_key lower [] = []"
| "natural_key lower (c # cs) =
     (if is_digit c then
        (0, (case parse_uint (2 ^ 64) (takeWhile is_digit (c # cs)) of Some n \<Rightarrow> n | None \<Rightarrow> 2 ^ 64 - 1), [])
          # natural_key lower (dropWhile is_digit (c # cs))
      else (1, 0, lower (takeWhile (\<lambda>x. \<not> is_digit x) (c # cs)))
          # natural_key lower (dropWhile (\<lambda>x. \<not> is_digit x) (c # cs)))"
  by pat_completeness auto
termination by (relation "measure (length \<circ> snd)") (auto simp: less_Suc_eq_le length_dropWhile_le)

declare natural_key.simps [simp del]

type_synonym natural = "(nat \<times> nat \<times> string) list"

definition mark_key ::
  "(string \<Rightarrow> string) \<Rightarrow> MarksRecordEach \<Rightarrow> natural \<times> natural \<times> natural \<times> string \<times> string \<times> string" where
  "mark_key lower m = (natural_key lower (me_markstitle m), natural_key lower (me_maxmarks m),
     natural_key lower (me_weightage m), me_scoredmark m, me_status m, me_remark m)"

definition in_fixed_order :: "(string \<Rightarrow> string) \<Rightarrow> MarksRecordEach list \<Rightarrow> MarksRecordEach list" where
  "in_fixed_order lower marks =
     map (\<lambda>(i, m). m\<lparr>me_serial := show_nat (i + 1)\<rparr>) (enumerate 0 (sort_key (mark_key lower) marks))"

definition mark_row :: "('d, 'e) dom \<Rightarrow> 'e \<Rightarrow> MarksRecordEach" where
  "mark_row D row = (let td = compact_cell D (tds D row)
     in \<lparr>me_serial = td 0, me_markstitle = td 1, me_maxmarks = td 2, me_weightage = td 3,
         me_status = td 4, me_scoredmark = td 5, me_weightagemark = td 6, me_remark = td 7\<rparr>)"

definition mark_rows :: "(string \<Rightarrow> string) \<Rightarrow> ('d, 'e) dom \<Rightarrow> 'e option \<Rightarrow> MarksRecordEach list" where
  "mark_rows lower D container = (case container of
     None \<Rightarrow> []
   | Some c \<Rightarrow> in_fixed_order lower (map (mark_row D) (dm_within D ''tr.tableContent-level1'' c)))"

text \<open>Every other row is a course, the one after it holds its marks.\<close>

definition marks_step ::
  "(string \<Rightarrow> string) \<Rightarrow> ('d, 'e) dom \<Rightarrow> MarksRecord option \<times> MarksRecord list \<Rightarrow> nat \<times> 'e \<Rightarrow>
   MarksRecord option \<times> MarksRecord list" where
  "marks_step lower D st ir =
     (case (st, ir) of ((course, records), (i, row)) \<Rightarrow>
        (let cells = tds D row
         in if even i then (Some (course_row D cells), records)
            else (let r = (case course of Some c \<Rightarrow> c | None \<Rightarrow> course_row D [])
              in (None, records @ [r\<lparr>mr_marks := mark_rows lower D (first cells)\<rparr>]))))"

definition parse_marks :: "(string \<Rightarrow> string) \<Rightarrow> ('d, 'e) dom \<Rightarrow> string \<Rightarrow> string \<Rightarrow> nat \<Rightarrow> MarksData" where
  "parse_marks lower D html sem now =
     \<lparr>md_records = snd (foldl (marks_step lower D) (None, [])
        (enumerate 0 (dm_select D ''tr.tableContent'' (dm_parse D html)))),
      md_semester_id = sem, md_update_time = now\<rparr>"

end
