(* ===== verification/PagesGrades.thy ===== *)
theory PagesGrades
  imports PagesAcademic "HOL-Library.AList"
begin

section \<open>Grades and the grade history (vtop-core/src/parser/grades.rs, grade_history.rs)\<close>

text \<open>
  The grade view with its semesters, the details of one course over all its classes, and the
  history with the attempts of each course.  Tables are recognised by what they say.
\<close>

subsection \<open>Splitting and joining\<close>

text \<open>\<^verbatim>\<open>split(pattern)\<close>, for a pattern that is not empty.\<close>

lemma split_at_str_shorter: "m \<noteq> [] \<Longrightarrow> split_at_str m s = Some (a, b) \<Longrightarrow> length b < length s"
  by (induction m s arbitrary: a rule: split_at_str.induct) (auto split: if_splits)

function split_str :: "string \<Rightarrow> string \<Rightarrow> string list" where
  "split_str m s = (case (if m = [] then None else split_at_str m s) of
     None \<Rightarrow> [s] | Some (a, rest) \<Rightarrow> a # split_str m rest)"
  by pat_completeness auto
termination
  by (relation "measure (length \<circ> snd)") (auto split: if_splits dest: split_at_str_shorter)

declare split_str.simps [simp del]

fun join_text :: "string \<Rightarrow> string list \<Rightarrow> string" where
  "join_text sep [] = []"
| "join_text sep [p] = p"
| "join_text sep (p # ps) = p @ sep @ join_text sep ps"

text \<open>\<^verbatim>\<open>find_map\<close>.\<close>

definition find_map :: "('a \<Rightarrow> 'b option) \<Rightarrow> 'a list \<Rightarrow> 'b option" where
  "find_map f xs = first (List.map_filter f xs)"

subsection \<open>The grade view (grades.rs)\<close>

record SemesterInfo =
  si_id :: string
  si_name :: string

record GradeCourseRecord =
  gw_serial :: string
  gw_course_code :: string
  gw_course_title :: string
  gw_course_type :: string
  gw_grading_type :: string
  gw_grand_total :: string
  gw_grade :: string
  gw_course_id :: string

record GradeViewData =
  gv_courses :: "GradeCourseRecord list"
  gv_semesters :: "SemesterInfo list"
  gv_semester_id :: string
  gv_update_time :: nat

definition DETAILS_BUTTON :: string where "DETAILS_BUTTON = ''button[onclick]''"

definition extract_course_id :: "('d, 'e) dom \<Rightarrow> 'e \<Rightarrow> string" where
  "extract_course_id D button_cell = or_default (do {
     button \<leftarrow> first (dm_within D DETAILS_BUTTON button_cell);
     onclick \<leftarrow> dm_attr D button ''onclick'';
     (_, sliced) \<leftarrow> split_at_str ''getGradeViewDetails('' onclick;
     (_, right) \<leftarrow> split_once CHR 0x27 sliced;
     (course_id, _) \<leftarrow> split_once CHR 0x27 right;
     Some course_id })"

definition semester_option :: "('d, 'e) dom \<Rightarrow> 'e \<Rightarrow> SemesterInfo option" where
  "semester_option D opt = Option.bind (dm_attr D opt ''value'') (\<lambda>ident.
     if trim ident = [] then None else Some \<lparr>si_id = trim ident, si_name = word_text D opt\<rparr>)"

definition grade_row :: "('d, 'e) dom \<Rightarrow> 'e \<Rightarrow> GradeCourseRecord option" where
  "grade_row D row =
     (let cells = tds D row; text = word_cell D cells
      in if length cells < 8 then None
         else if dm_within D DETAILS_BUTTON (last cells) = [] then None
         else if parse_u32 (text 0) = None then None
         else Some \<lparr>gw_serial = text 0, gw_course_code = text 1, gw_course_title = text 2, gw_course_type = text 3,
           gw_grading_type = text 4, gw_grand_total = text 5, gw_grade = text 6,
           gw_course_id = extract_course_id D (last cells)\<rparr>)"

definition parse_grade_view :: "('d, 'e) dom \<Rightarrow> string \<Rightarrow> string \<Rightarrow> nat \<Rightarrow> GradeViewData" where
  "parse_grade_view D html sem now =
     (let doc = dm_parse D html
      in \<lparr>gv_courses = List.map_filter (grade_row D) (dm_select D ''tr'' doc),
          gv_semesters = List.map_filter (semester_option D) (dm_select D ''select#semesterSubId option'' doc),
          gv_semester_id = sem, gv_update_time = now\<rparr>)"

subsection \<open>The details of a course\<close>

record GradeDetailMark =
  dk_serial :: string
  dk_mark_title :: string
  dk_max_mark :: string
  dk_weightage :: string
  dk_status :: string
  dk_scored_mark :: string
  dk_weightage_mark :: string

record GradeRange =
  rg_grade :: string
  rg_range :: string

record GradeDetailsData =
  gt_semester_id :: string
  gt_course_id :: string
  gt_class_number :: string
  gt_class_course_type :: string
  gt_grand_total :: string
  gt_marks :: "GradeDetailMark list"
  gt_grade_ranges :: "GradeRange list"
  gt_update_time :: nat

definition GRADE_LABELS :: "string list" where
  "GRADE_LABELS = [''S'', ''A'', ''B'', ''C'', ''D'', ''E'', ''F'']"

definition clean_grade_range_text :: "string \<Rightarrow> string" where
  "clean_grade_range_text input = trim (without CHR ''#'' input)"

definition looks_like_grade_range :: "string \<Rightarrow> bool" where
  "looks_like_grade_range input \<longleftrightarrow> CHR ''>'' \<in> set input \<or> CHR ''<'' \<in> set input"

definition labelled :: "(string \<times> string) list \<Rightarrow> GradeRange list" where
  "labelled ps = map (\<lambda>(label, range). \<lparr>rg_grade = label, rg_range = range\<rparr>) ps"

text \<open>The ranges of a row: by its columns, or else by its spans.\<close>

definition ranges_by_column :: "('d, 'e) dom \<Rightarrow> 'e list \<Rightarrow> GradeRange list" where
  "ranges_by_column D cells =
     (if 11 \<le> length cells then labelled (filter (\<lambda>(label, txt). txt \<noteq> [] \<and> looks_like_grade_range txt)
        (map (\<lambda>(i, label). (label, clean_grade_range_text (word_cell D cells (4 + i)))) (enumerate 0 GRADE_LABELS)))
      else [])"

definition ranges_by_span :: "('d, 'e) dom \<Rightarrow> 'e \<Rightarrow> GradeRange list" where
  "ranges_by_span D row =
     (let cleaned = filter (\<lambda>txt. txt \<noteq> [] \<and> looks_like_grade_range txt)
            (map (\<lambda>sp. clean_grade_range_text (word_text D sp)) (dm_within D ''span'' row))
      in if 7 \<le> length cleaned then labelled (zip GRADE_LABELS cleaned) else [])"

definition row_ranges :: "('d, 'e) dom \<Rightarrow> 'e \<Rightarrow> GradeRange list option" where
  "row_ranges D row =
     (let by_column = ranges_by_column D (tds D row);
          parsed = (if length by_column < 7 then ranges_by_span D row else by_column)
      in if 6 \<le> length parsed then Some parsed else None)"

definition grade_ranges :: "('d, 'e) dom \<Rightarrow> 'd \<Rightarrow> GradeRange list" where
  "grade_ranges D doc =
     (case find_map (\<lambda>table. if contains (word_text D table) ''Range of Grades''
          then find_map (row_ranges D) (dm_within D ''tr'' table) else None) (dm_select D ''table'' doc) of
        None \<Rightarrow> [] | Some ranges \<Rightarrow> ranges)"

record ClassMarks =
  cm_number :: string
  cm_type :: string
  cm_total :: string
  cm_marks :: "GradeDetailMark list"

definition after_label :: "string \<Rightarrow> string \<Rightarrow> string" where
  "after_label label line = trim (without CHR '':'' (or_default (nth_opt (split_str label line) 1)))"

definition detail_mark :: "('d, 'e) dom \<Rightarrow> 'e list \<Rightarrow> GradeDetailMark" where
  "detail_mark D outputs = (let text = word_cell D outputs
     in \<lparr>dk_serial = text 0, dk_mark_title = text 1, dk_max_mark = text 2, dk_weightage = text 3,
         dk_status = text 4, dk_scored_mark = text 5, dk_weightage_mark = text 6\<rparr>)"

text \<open>A row of a class: a mark has seven outputs, the total is in the last heading of its row.\<close>

definition class_row :: "('d, 'e) dom \<Rightarrow> string \<times> GradeDetailMark list \<Rightarrow> 'e \<Rightarrow> string \<times> GradeDetailMark list" where
  "class_row D st row =
     (case st of (grand, marks) \<Rightarrow>
        (let outputs = dm_within D ''output'' row; ths = dm_within D ''th'' row
         in if length outputs = 7 then (grand, marks @ [detail_mark D outputs])
            else if tds D row \<noteq> [] \<and> contains (join_text '' '' (map (word_text D) ths)) ''Total'' \<and> ths \<noteq> []
              then (word_text D (last ths), marks)
            else (grand, marks)))"

definition class_table :: "('d, 'e) dom \<Rightarrow> 'e \<Rightarrow> ClassMarks option" where
  "class_table D table =
     (let ths = dm_within D ''th'' table; header_line = word_cell D ths 0
      in if length ths < 2 \<or> \<not> contains header_line ''Class Number'' then None
         else (case foldl (class_row D) ([], []) (dm_within D ''tr'' table) of (grand, marks) \<Rightarrow>
           Some \<lparr>cm_number = after_label ''Class Number'' header_line,
             cm_type = after_label ''Course Type'' (word_cell D ths 1), cm_total = grand, cm_marks = marks\<rparr>))"

definition joined :: "string list \<Rightarrow> string" where
  "joined ss = join_text '' | '' (filter (\<lambda>s. s \<noteq> []) ss)"

definition bullet :: string where
  "bullet = of_bytes [0x20, 0xE2, 0x80, 0xA2, 0x20]"

definition class_marks :: "ClassMarks list \<Rightarrow> GradeDetailMark list" where
  "class_marks classes = concat (map (\<lambda>c. map (\<lambda>m.
       if 1 < length classes \<and> cm_type c \<noteq> [] then m\<lparr>dk_mark_title := cm_type c @ bullet @ dk_mark_title m\<rparr> else m)
     (cm_marks c)) classes)"

definition parse_grade_view_details ::
  "('d, 'e) dom \<Rightarrow> string \<Rightarrow> string \<Rightarrow> string \<Rightarrow> nat \<Rightarrow> GradeDetailsData" where
  "parse_grade_view_details D html sem course_id now =
     (let doc = dm_parse D html; classes = List.map_filter (class_table D) (dm_select D ''table'' doc)
      in \<lparr>gt_semester_id = sem, gt_course_id = course_id, gt_class_number = joined (map cm_number classes),
          gt_class_course_type = joined (map cm_type classes), gt_grand_total = joined (map cm_total classes),
          gt_marks = class_marks classes, gt_grade_ranges = grade_ranges D doc, gt_update_time = now\<rparr>)"

subsection \<open>The grade history (grade_history.rs)\<close>

record GradeHistoryStudentInfo =
  gu_reg_no :: string
  gu_name :: string
  gu_programme_branch :: string
  gu_programme_mode :: string
  gu_study_system :: string
  gu_gender :: string
  gu_year_joined :: string
  gu_edu_status :: string
  gu_school :: string
  gu_campus :: string

record GradeHistoryAttempt =
  tt_course_code :: string
  tt_course_title :: string
  tt_course_type :: string
  tt_credits :: string
  tt_grade :: string
  tt_exam_month :: string
  tt_result_declared :: string

record GradeHistoryRecord =
  gh_serial :: string
  gh_course_code :: string
  gh_course_title :: string
  gh_course_type :: string
  gh_credits :: string
  gh_grade :: string
  gh_exam_month :: string
  gh_result_declared :: string
  gh_course_distribution :: string
  gh_attempts :: "GradeHistoryAttempt list"

record GradeHistoryCgpa =
  gp_credits_registered :: string
  gp_credits_earned :: string
  gp_cgpa :: string
  gp_s_grades :: string
  gp_a_grades :: string
  gp_b_grades :: string
  gp_c_grades :: string
  gp_d_grades :: string
  gp_e_grades :: string
  gp_f_grades :: string
  gp_n_grades :: string

record GradeHistoryData =
  hd_student :: GradeHistoryStudentInfo
  hd_records :: "GradeHistoryRecord list"
  hd_cgpa :: GradeHistoryCgpa
  hd_update_time :: nat

definition history_student :: "('d, 'e) dom \<Rightarrow> 'e list \<Rightarrow> GradeHistoryStudentInfo" where
  "history_student D cells = (let text = word_cell D cells
     in \<lparr>gu_reg_no = text 0, gu_name = text 1, gu_programme_branch = text 2, gu_programme_mode = text 3,
         gu_study_system = text 4, gu_gender = text 5, gu_year_joined = text 6, gu_edu_status = text 7,
         gu_school = text 8, gu_campus = text 9\<rparr>)"

definition student_info :: "('d, 'e) dom \<Rightarrow> 'e list \<Rightarrow> GradeHistoryStudentInfo" where
  "student_info D tables =
     (case do { table \<leftarrow> first tables; row \<leftarrow> first (dm_within D ''tr.tableContent'' table);
                let cells = tds D row; (if 10 \<le> length cells then Some cells else None) } of
        None \<Rightarrow> history_student D [] | Some cells \<Rightarrow> history_student D cells)"

definition attempt :: "('d, 'e) dom \<Rightarrow> 'e \<Rightarrow> GradeHistoryAttempt option" where
  "attempt D nested = (let cells = tds D nested; text = word_cell D cells
     in if length cells < 7 then None
        else Some \<lparr>tt_course_code = text 0, tt_course_title = text 1, tt_course_type = text 2, tt_credits = text 3,
          tt_grade = text 4, tt_exam_month = text 5, tt_result_declared = text 6\<rparr>)"

definition add_attempts ::
  "('d, 'e) dom \<Rightarrow> (string, GradeHistoryAttempt list) hmap \<Rightarrow> 'e \<Rightarrow> (string, GradeHistoryAttempt list) hmap" where
  "add_attempts D m row =
     (case dm_attr D row ''id'' of
        None \<Rightarrow> m
      | Some ident \<Rightarrow>
          if \<not> prefix ''detailsView_'' ident then m
          else AList.update (drop (length ''detailsView_'') ident)
            (List.map_filter (attempt D) (dm_within D ''tr.tableContent-level1'' row)) m)"

text \<open>A course takes the attempts of its code out of the map.\<close>

definition history_row ::
  "('d, 'e) dom \<Rightarrow> (string, GradeHistoryAttempt list) hmap \<times> GradeHistoryRecord list \<Rightarrow> 'e \<Rightarrow>
   (string, GradeHistoryAttempt list) hmap \<times> GradeHistoryRecord list" where
  "history_row D st row =
     (case st of (m, records) \<Rightarrow>
        (let cells = tds D row; text = word_cell D cells
         in if dm_attr D row ''id'' \<noteq> None \<or> length cells < 9 \<or> parse_u32 (text 0) = None then (m, records)
            else (AList.delete (text 1) m, records @
              [\<lparr>gh_serial = text 0, gh_course_code = text 1, gh_course_title = text 2, gh_course_type = text 3,
                gh_credits = text 4, gh_grade = text 5, gh_exam_month = text 6, gh_result_declared = text 7,
                gh_course_distribution = text 8,
                gh_attempts = (case map_of m (text 1) of Some a \<Rightarrow> a | None \<Rightarrow> [])\<rparr>])))"

definition history_records :: "('d, 'e) dom \<Rightarrow> 'e option \<Rightarrow> GradeHistoryRecord list" where
  "history_records D table = (case table of
     None \<Rightarrow> []
   | Some table \<Rightarrow>
       (let rows = dm_within D ''tr.tableContent'' table
        in snd (foldl (history_row D) (foldl (add_attempts D) [] rows, []) rows)))"

definition cgpa_of :: "('d, 'e) dom \<Rightarrow> 'e list \<Rightarrow> GradeHistoryCgpa" where
  "cgpa_of D cells = (let text = word_cell D cells
     in \<lparr>gp_credits_registered = text 0, gp_credits_earned = text 1, gp_cgpa = text 2, gp_s_grades = text 3,
         gp_a_grades = text 4, gp_b_grades = text 5, gp_c_grades = text 6, gp_d_grades = text 7,
         gp_e_grades = text 8, gp_f_grades = text 9, gp_n_grades = text 10\<rparr>)"

definition cgpa_row :: "('d, 'e) dom \<Rightarrow> 'e \<Rightarrow> 'e list option" where
  "cgpa_row D row = (let cells = tds D row
     in if 11 \<le> length cells \<and> \<not> eq_ignore_ascii_case (word_cell D cells 0) ''Credits Registered'' then Some cells
        else None)"

definition cgpa_table :: "('d, 'e) dom \<Rightarrow> 'e \<Rightarrow> 'e list option" where
  "cgpa_table D table = (let text = word_text D table
     in if \<not> contains text ''CGPA'' \<and> \<not> contains text ''Credits Registered'' then None
        else find_map (cgpa_row D) (dm_within D ''tr'' table))"

definition parse_grade_history :: "('d, 'e) dom \<Rightarrow> string \<Rightarrow> nat \<Rightarrow> GradeHistoryData" where
  "parse_grade_history D html now =
     (let doc = dm_parse D html; tables = dm_select D ''table.customTable'' doc
      in \<lparr>hd_student = student_info D tables,
          hd_records = history_records D (nth_opt tables 1),
          hd_cgpa = (case find_map (cgpa_table D) (dm_select D ''table.table'' doc) of
            None \<Rightarrow> cgpa_of D [] | Some cells \<Rightarrow> cgpa_of D cells),
          hd_update_time = now\<rparr>)"

end
