(* ===== verification/PagesCourses.thy ===== *)
theory PagesCourses
  imports PagesGrades
begin

section \<open>Timetable, course page, profile and mentor (vtop-core/src/parser)\<close>

text \<open>
  The registered courses and the weekly grid; the courses, classes and lectures of the course page,
  whose tables are read by their headings; the profile and the mentor's pages, read as labels and
  values.
\<close>

subsection \<open>The registered courses (timetable.rs)\<close>

datatype ClassKind = Theory | Lab

record TimetableSlot =
  tm_serial :: string
  tm_day :: string
  tm_slot :: string
  tm_course_code :: string
  tm_course_type :: string
  tm_room_no :: string
  tm_block :: string
  tm_start_time :: string
  tm_end_time :: string
  tm_name :: string
  tm_kind :: ClassKind
  tm_faculty :: string
  tm_credits :: string

record TimetableCourse =
  tc_course_code :: string
  tc_name :: string
  tc_course_type :: string
  tc_credits :: string

record TimetableData =
  td_slots :: "TimetableSlot list"
  td_courses :: "TimetableCourse list"
  td_semester_id :: string
  td_update_time :: nat

record Registration =
  re_courses :: "TimetableCourse list"
  re_names :: "(string, string) hmap"
  re_theory_faculty :: "(string, string) hmap"
  re_lab_faculty :: "(string, string) hmap"
  re_credits :: "(string \<times> bool, string) hmap"

definition no_registration :: Registration where
  "no_registration = \<lparr>re_courses = [], re_names = [], re_theory_faculty = [], re_lab_faculty = [], re_credits = []\<rparr>"

text \<open>\<^verbatim>\<open>entry(k).or_insert(v)\<close>.\<close>

definition or_insert :: "'k \<Rightarrow> 'v \<Rightarrow> ('k, 'v) hmap \<Rightarrow> ('k, 'v) hmap" where
  "or_insert k v m = (if map_of m k = None then m @ [(k, v)] else m)"

text \<open>The code, name and type of a \<^verbatim>\<open>CODE - Name (Type)\<close>; \<open>None\<close> is a td that is not one.\<close>

definition course_cell :: "string \<Rightarrow> (string \<times> string \<times> string) option" where
  "course_cell course =
     (case filter (\<lambda>part. part \<noteq> []) (case split_once CHR ''-'' course of Some (a, b) \<Rightarrow> [a, b] | None \<Rightarrow> [course]) of
        [code, rest] \<Rightarrow>
          (case (case split_once CHR ''('' rest of Some p \<Rightarrow> p | None \<Rightarrow> ([], [])) of (name, kind) \<Rightarrow>
            Some (trim code, trim name, trim (trim_end_char CHR '')'' (trim kind))))
      | _ \<Rightarrow> None)"

definition credits_of :: "('d, 'e) dom \<Rightarrow> 'e \<Rightarrow> string" where
  "credits_of D td = (let words = concat (map split_whitespace (dm_texts D td))
     in if words = [] then [] else last words)"

definition add_course :: "TimetableCourse \<Rightarrow> TimetableCourse list \<Rightarrow> TimetableCourse list" where
  "add_course c courses =
     (if list_ex (\<lambda>known. tc_course_code known = tc_course_code c \<and> tc_course_type known = tc_course_type c) courses
      then courses else courses @ [c])"

definition add_row :: "(string \<Rightarrow> string) \<Rightarrow> ('d, 'e) dom \<Rightarrow> Registration \<Rightarrow> 'e list \<Rightarrow> Registration" where
  "add_row lower D r cells =
     (case course_cell (compact_text D (cells ! 2)) of
        None \<Rightarrow> r
      | Some (code, name, course_type) \<Rightarrow>
          (let is_lab = contains (lower course_type) ''lab''; credits = credits_of D (cells ! 3);
               faculty = compact_text D (cells ! 8)
           in \<lparr>re_courses = add_course \<lparr>tc_course_code = code, tc_name = name, tc_course_type = course_type,
                 tc_credits = credits\<rparr> (re_courses r),
               re_names = or_insert code name (re_names r),
               re_theory_faculty = (if is_lab then re_theory_faculty r else or_insert code faculty (re_theory_faculty r)),
               re_lab_faculty = (if is_lab then or_insert code faculty (re_lab_faculty r) else re_lab_faculty r),
               re_credits = AList.update (code, is_lab) credits (re_credits r)\<rparr>))"

definition Registration_parse :: "(string \<Rightarrow> string) \<Rightarrow> ('d, 'e) dom \<Rightarrow> 'e \<Rightarrow> Registration" where
  "Registration_parse lower D table =
     foldl (\<lambda>r row. let cells = tds D row in if 8 < length cells then add_row lower D r cells else r)
       no_registration (dm_within D ''tr'' table)"

subsection \<open>The grid\<close>

definition found :: "('k, string) hmap \<Rightarrow> 'k \<Rightarrow> string" where
  "found m k = or_default (map_of m k)"

definition grid_slot ::
  "string \<Rightarrow> nat \<Rightarrow> string \<Rightarrow> ClassKind \<Rightarrow> Registration \<Rightarrow> TimetableSlot option" where
  "grid_slot text column day kind r =
     (let parts = split_on CHR ''-'' text; part = (\<lambda>i. trim (or_default (nth_opt parts i)))
      in if length text \<le> 5 \<or> column = 0 \<or> length (filter (\<lambda>p. p \<noteq> []) parts) \<le> 2 then None
         else Some \<lparr>tm_serial = show_nat column, tm_day = day, tm_slot = part 0, tm_course_code = part 1,
           tm_course_type = part 2, tm_room_no = part 3, tm_block = join_text '' '' (take 2 (drop 4 parts)),
           tm_start_time = [], tm_end_time = [], tm_name = found (re_names r) (part 1), tm_kind = kind,
           tm_faculty = found (if kind = Lab then re_lab_faculty r else re_theory_faculty r) (part 1),
           tm_credits = found (re_credits r) (part 1, kind = Lab)\<rparr>)"

record grid_state =
  gq_theory :: "(string \<times> string) list"
  gq_lab :: "(string \<times> string) list"
  gq_slots :: "TimetableSlot list"
  gq_day :: string
  gq_row :: nat

definition set_end :: "nat \<Rightarrow> string \<Rightarrow> (string \<times> string) list \<Rightarrow> (string \<times> string) list" where
  "set_end column text ts = (case nth_opt ts column of
     None \<Rightarrow> ts | Some (start, _) \<Rightarrow> ts[column := (start, text)])"

definition grid_cell :: "('d, 'e) dom \<Rightarrow> Registration \<Rightarrow> grid_state \<Rightarrow> nat \<times> 'e \<Rightarrow> grid_state" where
  "grid_cell D r g cc =
     (case cc of (column, td) \<Rightarrow>
        (let text = compact_text D td
         in if gq_row g = 0 then g\<lparr>gq_theory := gq_theory g @ [(text, [])]\<rparr>
            else if gq_row g = 1 then g\<lparr>gq_theory := set_end column text (gq_theory g)\<rparr>
            else if gq_row g = 2 then g\<lparr>gq_lab := gq_lab g @ [(text, [])]\<rparr>
            else if gq_row g = 3 then g\<lparr>gq_lab := set_end column text (gq_lab g)\<rparr>
            else (case grid_slot text column (gq_day g) (if odd (gq_row g) then Lab else Theory) r of
                None \<Rightarrow> g | Some slot \<Rightarrow> g\<lparr>gq_slots := gq_slots g @ [slot]\<rparr>)))"

text \<open>Every other row starts with the name of its day.\<close>

definition grid_row :: "('d, 'e) dom \<Rightarrow> Registration \<Rightarrow> grid_state \<Rightarrow> 'e \<Rightarrow> grid_state" where
  "grid_row D r g row =
     (let cells = tds D row
      in if length cells \<le> 6 then g
         else (let g = (if even (gq_row g) then g\<lparr>gq_day := compact_text D (hd cells)\<rparr> else g);
                   cells = (if even (gq_row g) then tl cells else cells);
                   g = foldl (grid_cell D r) g (enumerate 0 cells)
               in g\<lparr>gq_row := gq_row g + 1\<rparr>))"

definition with_times :: "grid_state \<Rightarrow> TimetableSlot \<Rightarrow> TimetableSlot" where
  "with_times g slot =
     (case Option.bind (parse_uint (2 ^ 64) (tm_serial slot))
         (nth_opt (case tm_kind slot of Theory \<Rightarrow> gq_theory g | Lab \<Rightarrow> gq_lab g)) of
        Some (start, end_time) \<Rightarrow> slot\<lparr>tm_start_time := start, tm_end_time := end_time\<rparr>
      | None \<Rightarrow> slot)"

definition parse_grid :: "('d, 'e) dom \<Rightarrow> 'e \<Rightarrow> Registration \<Rightarrow> TimetableSlot list" where
  "parse_grid D grid r =
     (let g = foldl (grid_row D r) \<lparr>gq_theory = [], gq_lab = [], gq_slots = [], gq_day = [], gq_row = 0\<rparr>
            (dm_within D ''tr'' grid)
      in map (with_times g) (gq_slots g))"

definition parse_timetable ::
  "(string \<Rightarrow> string) \<Rightarrow> ('d, 'e) dom \<Rightarrow> string \<Rightarrow> string \<Rightarrow> nat \<Rightarrow> TimetableData" where
  "parse_timetable lower D html sem now =
     (let tables = dm_select D ''tbody'' (dm_parse D html);
          r = (case nth_opt tables 0 of None \<Rightarrow> no_registration | Some table \<Rightarrow> Registration_parse lower D table)
      in \<lparr>td_slots = (case nth_opt tables 1 of None \<Rightarrow> [] | Some grid \<Rightarrow> parse_grid D grid r),
          td_courses = re_courses r, td_semester_id = sem, td_update_time = now\<rparr>)"

record SemesterData =
  sm_semesters :: "SemesterInfo list"
  sm_update_time :: nat

definition picker_option :: "('d, 'e) dom \<Rightarrow> 'e \<Rightarrow> SemesterInfo option" where
  "picker_option D opt = do { ident \<leftarrow> dm_attr D opt ''value''; name \<leftarrow> first (dm_texts D opt);
     Some \<lparr>si_id = trim ident, si_name = concat (split_str ''- AMR'' (trim name))\<rparr> }"

definition parse_semid_timetable :: "('d, 'e) dom \<Rightarrow> string \<Rightarrow> nat \<Rightarrow> SemesterData" where
  "parse_semid_timetable D html now =
     \<lparr>sm_semesters = List.map_filter (picker_option D)
        (drop 1 (dm_select D (''select[name='' @ [CHR 0x22] @ ''semesterSubId'' @ [CHR 0x22] @ ''] option'') (dm_parse D html))),
      sm_update_time = now\<rparr>"

subsection \<open>The course page (course_page.rs)\<close>

record CoursePageCourse =
  ck_id :: string
  ck_code :: string
  ck_title :: string
  ck_course_type :: string

record CoursePageCourses =
  cs_semester_id :: string
  cs_courses :: "CoursePageCourse list"
  cs_update_time :: nat

record CoursePageClass =
  cl_class_id :: string
  cl_erp_id :: string
  cl_class_group :: string
  cl_course_code :: string
  cl_course_title :: string
  cl_course_type :: string
  cl_slot :: string
  cl_faculty :: string
  cl_faculty_school :: string

record CoursePageClasses =
  cw_semester_id :: string
  cw_course_id :: string
  cw_classes :: "CoursePageClass list"
  cw_update_time :: nat

record CourseMaterial =
  cu_label :: string
  cu_path :: string

record CourseLecture =
  le_serial :: string
  le_date :: string
  le_day :: string
  le_topic :: string
  le_materials :: "CourseMaterial list"

record CoursePageDetail =
  cd_semester_id :: string
  cd_class :: CoursePageClass
  cd_course_id :: string
  cd_all_materials_path :: string
  cd_general_materials_path :: string
  cd_syllabus_path :: string
  cd_has_course_plan :: bool
  cd_lectures :: "CourseLecture list"
  cd_update_time :: nat

text \<open>\<^verbatim>\<open>CODE - Title - TYPE\<close>: the title is what is between the ends.\<close>

definition course_label :: "string \<Rightarrow> string \<times> string \<times> string" where
  "course_label label =
     (let parts = split_str '' - '' label
      in if 3 \<le> length parts then (hd parts, join_text '' - '' (butlast (tl parts)), last parts)
         else ([], label, []))"

definition course_option :: "('d, 'e) dom \<Rightarrow> 'e \<Rightarrow> CoursePageCourse option" where
  "course_option D opt = Option.bind (dm_attr D opt ''value'') (\<lambda>value.
     if trim value = [] then None
     else (case course_label (word_text D opt) of (code, title, course_type) \<Rightarrow>
       Some \<lparr>ck_id = trim value, ck_code = code, ck_title = title, ck_course_type = course_type\<rparr>))"

definition parse_courses :: "('d, 'e) dom \<Rightarrow> string \<Rightarrow> string \<Rightarrow> nat \<Rightarrow> CoursePageCourses" where
  "parse_courses D html semester_id now =
     \<lparr>cs_semester_id = semester_id,
      cs_courses = List.map_filter (course_option D) (dm_select D ''select#courseCode option'' (dm_parse D html)),
      cs_update_time = now\<rparr>"

definition call_args :: "string \<Rightarrow> string \<Rightarrow> string list option" where
  "call_args script name = do {
     (_, rest) \<leftarrow> split_at_str name script; (inner, _) \<leftarrow> split_once CHR '')'' rest;
     Some (map (\<lambda>arg. trim (trim_quotes (trim arg))) (split_on CHR '','' inner)) }"

record 'e HeaderRow =
  ho_headers :: "string list"
  ho_cells :: "'e list"
  ho_view_args :: "string list option"

definition row_has :: "'e HeaderRow \<Rightarrow> string \<Rightarrow> bool" where
  "row_has row heading \<longleftrightarrow> heading \<in> set (ho_headers row)"

definition row_element :: "'e HeaderRow \<Rightarrow> string \<Rightarrow> 'e option" where
  "row_element row heading = Option.bind (position heading (ho_headers row)) (nth_opt (ho_cells row))"

definition row_cell :: "('d, 'e) dom \<Rightarrow> 'e HeaderRow \<Rightarrow> string \<Rightarrow> string" where
  "row_cell D row heading = or_default (map_option (word_text D) (row_element row heading))"

definition body_row :: "('d, 'e) dom \<Rightarrow> string list \<Rightarrow> 'e \<Rightarrow> 'e HeaderRow option" where
  "body_row D headers row =
     (let cells = tds D row
      in if length cells < length headers then None
         else Some \<lparr>ho_headers = headers, ho_cells = cells,
           ho_view_args = find_map (\<lambda>call. call_args call ''processViewStudentCourseDetail('')
             (List.map_filter (\<lambda>button. dm_attr D button ''onclick'') (dm_within D ''button[onclick]'' row))\<rparr>)"

definition header_rows :: "(string \<Rightarrow> string) \<Rightarrow> ('d, 'e) dom \<Rightarrow> 'e \<Rightarrow> 'e HeaderRow list" where
  "header_rows lower D table =
     (case dm_within D ''tr'' table of
        [] \<Rightarrow> []
      | heading # rows \<Rightarrow>
          List.map_filter (body_row D (map (\<lambda>td. lower (word_text D td)) (tds D heading))) rows)"

definition split_faculty :: "string \<Rightarrow> string \<times> string" where
  "split_faculty value =
     (case map trim (split_str '' - '' value) of
        [_, name, school] \<Rightarrow> (name, school)
      | [_, name] \<Rightarrow> (name, [])
      | _ \<Rightarrow> (value, []))"

text \<open>A class from the cells \<open>text\<close> of its row.\<close>

definition class_of_row :: "string \<Rightarrow> string \<Rightarrow> (string \<Rightarrow> string) \<Rightarrow> CoursePageClass" where
  "class_of_row class_id erp_id text =
     (case split_faculty (text ''faculty'') of (faculty, school) \<Rightarrow>
        \<lparr>cl_class_id = class_id, cl_erp_id = erp_id, cl_class_group = text ''class group'',
         cl_course_code = text ''course code'', cl_course_title = text ''course title'',
         cl_course_type = text ''course type'', cl_slot = text ''slot'', cl_faculty = faculty,
         cl_faculty_school = school\<rparr>)"

definition class_row_of :: "('d, 'e) dom \<Rightarrow> 'e HeaderRow \<Rightarrow> CoursePageClass option" where
  "class_row_of D row =
     (case ho_view_args row of
        Some [_, erp_id, class_id] \<Rightarrow> Some (class_of_row class_id erp_id (row_cell D row))
      | _ \<Rightarrow> None)"

definition parse_classes ::
  "(string \<Rightarrow> string) \<Rightarrow> ('d, 'e) dom \<Rightarrow> string \<Rightarrow> string \<Rightarrow> string \<Rightarrow> nat \<Rightarrow> CoursePageClasses" where
  "parse_classes lower D html semester_id course_id now =
     (let rows = (case find_map (\<lambda>table. let rows = header_rows lower D table
              in if list_ex (\<lambda>row. row_has row ''faculty'' \<and> row_has row ''class id'') rows then Some rows else None)
            (dm_select D ''table'' (dm_parse D html)) of None \<Rightarrow> [] | Some rows \<Rightarrow> rows)
      in \<lparr>cw_semester_id = semester_id, cw_course_id = course_id,
          cw_classes = List.map_filter (class_row_of D) rows, cw_update_time = now\<rparr>)"

definition DOWNLOAD_LINK :: string where "DOWNLOAD_LINK = ''a[href*='vtopDownload']''"

definition download_path :: "('d, 'e) dom \<Rightarrow> 'e \<Rightarrow> string option" where
  "download_path D link = do {
     href \<leftarrow> dm_attr D link ''href''; args \<leftarrow> call_args href ''vtopDownload(''; path \<leftarrow> first args;
     (if path \<noteq> [] then Some path else None) }"

definition lecture_date :: "('d, 'e) dom \<Rightarrow> 'e \<Rightarrow> string" where
  "lecture_date D td =
     (let raw = (case first (dm_within D ''span'' td) of Some span \<Rightarrow> word_text D span | None \<Rightarrow> word_text D td)
      in case split_on CHR ''-'' raw of
           [day, month, year] \<Rightarrow> if length year = 4 then year @ ''-'' @ month @ ''-'' @ day else raw
         | _ \<Rightarrow> raw)"

definition materials :: "('d, 'e) dom \<Rightarrow> 'e \<Rightarrow> CourseMaterial list" where
  "materials D td = List.map_filter (\<lambda>link.
       map_option (\<lambda>path. \<lparr>cu_label = word_text D link, cu_path = path\<rparr>) (download_path D link))
     (dm_within D DOWNLOAD_LINK td)"

definition trimmed_input :: "('d, 'e) dom \<Rightarrow> 'd \<Rightarrow> string \<Rightarrow> string" where
  "trimmed_input D doc ident =
     or_default (map_option trim (Option.bind (with_id D doc ident) (\<lambda>e. dm_attr D e ''value'')))"

definition lecture_row :: "('d, 'e) dom \<Rightarrow> 'e HeaderRow \<Rightarrow> CourseLecture option" where
  "lecture_row D row =
     (if \<not> row_has row ''lecture topic'' \<or> parse_u32 (row_cell D row ''sl.no.'') = None then None
      else map_option (\<lambda>date_cell.
        \<lparr>le_serial = row_cell D row ''sl.no.'', le_date = lecture_date D date_cell,
         le_day = row_cell D row ''lecture day'', le_topic = row_cell D row ''lecture topic'',
         le_materials = (case row_element row ''reference material'' of Some td \<Rightarrow> materials D td | None \<Rightarrow> [])\<rparr>)
        (row_element row ''lecture date''))"

definition link_titled :: "('d, 'e) dom \<Rightarrow> 'd \<Rightarrow> string \<Rightarrow> string" where
  "link_titled D doc title = or_default (Option.bind
     (find (\<lambda>link. eq_ignore_ascii_case (word_text D link) title) (dm_select D DOWNLOAD_LINK doc)) (download_path D))"

definition parse_detail ::
  "(string \<Rightarrow> string) \<Rightarrow> ('d, 'e) dom \<Rightarrow> string \<Rightarrow> string \<Rightarrow> string \<Rightarrow> nat \<Rightarrow> CoursePageDetail" where
  "parse_detail lower D html semester_id erp_id now =
     (let doc = dm_parse D html; rows = concat (map (header_rows lower D) (dm_select D ''table'' doc));
          info = find (\<lambda>row. row_has row ''class id'' \<and> row_has row ''faculty'') rows;
          text = (\<lambda>heading. or_default (map_option (\<lambda>r. row_cell D r heading) info))
      in \<lparr>cd_semester_id = semester_id,
          cd_class = class_of_row (trimmed_input D doc ''classId'') erp_id text,
          cd_course_id = trimmed_input D doc ''courseId'',
          cd_all_materials_path = link_titled D doc ''Download ALL Materials'',
          cd_general_materials_path = link_titled D doc ''Download General Materials'',
          cd_syllabus_path = or_default (find (prefix ''courseSyllabusDownload/'')
            (List.map_filter (download_path D) (dm_select D DOWNLOAD_LINK doc))),
          cd_has_course_plan = list_ex (\<lambda>a. eq_ignore_ascii_case (word_text D a) ''Download Course Plan'')
            (dm_select D ''a'' doc),
          cd_lectures = List.map_filter (lecture_row D) rows, cd_update_time = now\<rparr>)"

subsection \<open>The profile (profile.rs)\<close>

record ProfileField =
  pf_label :: string
  pf_value :: string

record ProfileGroup =
  pq_title :: string
  pq_fields :: "ProfileField list"

record ProfileSection =
  ps_title :: string
  ps_groups :: "ProfileGroup list"

record StudentProfile =
  sp_name :: string
  sp_registration_number :: string
  sp_vit_email :: string
  sp_program :: string
  sp_school :: string
  sp_photo :: string
  sp_sections :: "ProfileSection list"
  sp_update_time :: nat

definition header_fields :: "('d, 'e) dom \<Rightarrow> 'd \<Rightarrow> (string \<times> string) list" where
  "header_fields D doc = (let labels = map (word_text D) (dm_select D ''label'' doc)
     in List.map_filter (\<lambda>(key, value). if key \<noteq> [] \<and> last key = CHR '':'' \<and> \<not> (value \<noteq> [] \<and> last value = CHR '':'')
          then Some (trim (butlast key), value) else None) (zip labels (tl labels)))"

definition push_field :: "ProfileField \<Rightarrow> ProfileGroup list \<Rightarrow> ProfileGroup list" where
  "push_field f groups = (if groups = [] then []
     else butlast groups @ [(last groups)\<lparr>pq_fields := pq_fields (last groups) @ [f]\<rparr>])"

definition group_row :: "('d, 'e) dom \<Rightarrow> ProfileGroup list \<Rightarrow> 'e \<Rightarrow> ProfileGroup list" where
  "group_row D groups row =
     (case tds D row of
        [] \<Rightarrow> groups
      | [title] \<Rightarrow> if word_text D title = [] then groups
          else groups @ [\<lparr>pq_title = word_text D title, pq_fields = []\<rparr>]
      | label # value # _ \<Rightarrow> if word_text D label = [] then groups
          else push_field \<lparr>pf_label = word_text D label, pf_value = word_text D value\<rparr> groups)"

definition groups :: "('d, 'e) dom \<Rightarrow> 'e \<Rightarrow> ProfileGroup list" where
  "groups D item = filter (\<lambda>g. pq_fields g \<noteq> [])
     (foldl (group_row D) [\<lparr>pq_title = [], pq_fields = []\<rparr>] (dm_within D ''tr'' item))"

definition profile_field :: "ProfileSection list \<Rightarrow> string \<Rightarrow> string" where
  "profile_field sections label = or_default (map_option pf_value
     (find (\<lambda>f. eq_ignore_ascii_case (pf_label f) label)
       (concat (map pq_fields (concat (map ps_groups sections))))))"

text \<open>All white space is left out.\<close>

function squeeze :: "string \<Rightarrow> string" where
  "squeeze s = (case s of [] \<Rightarrow> [] | c # cs \<Rightarrow> if ws_at s = 0 then c # squeeze cs else squeeze (drop (ws_at s) s))"
  by pat_completeness auto
termination by (relation "measure length") (auto split: if_splits)

declare squeeze.simps [simp del]

definition photo :: "('d, 'e) dom \<Rightarrow> 'd \<Rightarrow> string" where
  "photo D doc = or_default (map_option (\<lambda>(_, data). squeeze data)
     (find_map (split_at_str ''base64,'') (List.map_filter (\<lambda>img. dm_attr D img ''src'')
       (dm_select D ''img[src^='data:']'' doc))))"

definition profile_section :: "('d, 'e) dom \<Rightarrow> 'e \<Rightarrow> ProfileSection" where
  "profile_section D item =
     \<lparr>ps_title = or_default (map_option (word_text D) (first (dm_within D ''.accordion-header'' item))),
      ps_groups = groups D item\<rparr>"

definition parse_profile :: "('d, 'e) dom \<Rightarrow> string \<Rightarrow> nat \<Rightarrow> StudentProfile" where
  "parse_profile D html now =
     (let doc = dm_parse D html; fields = header_fields D doc;
          header_value = (\<lambda>key. or_default (map_option snd (find (\<lambda>(label, _). label = key) fields)));
          sections = filter (\<lambda>s. ps_groups s \<noteq> []) (map (profile_section D) (dm_select D ''.accordion-item'' doc));
          name = or_default (find (\<lambda>text. text \<noteq> []) (map (word_text D) (dm_select D ''p'' doc)));
          number = header_value ''REGISTER NUMBER''
      in \<lparr>sp_name = (if name = [] then profile_field sections ''STUDENT NAME'' else name),
          sp_registration_number = (if number = [] then profile_field sections ''Register Number'' else number),
          sp_vit_email = header_value ''VIT EMAIL'', sp_program = header_value ''PROGRAM & BRANCH'',
          sp_school = header_value ''SCHOOL NAME'', sp_photo = photo D doc, sp_sections = sections,
          sp_update_time = now\<rparr>)"

subsection \<open>The mentor's pages (mentor.rs)\<close>

record MentorMessage =
  mm_fields :: "ProfileField list"

record MentorData =
  mn_details :: "ProfileField list"
  mn_messages :: "MentorMessage list"
  mn_update_time :: nat

definition row_texts :: "('d, 'e) dom \<Rightarrow> 'e \<Rightarrow> string list" where
  "row_texts D row = map (word_text D) (dm_within D ''th'' row) @ map (word_text D) (tds D row)"

definition mentor_message :: "('d, 'e) dom \<Rightarrow> string list \<Rightarrow> 'e \<Rightarrow> MentorMessage option" where
  "mentor_message D headings row =
     (let values = row_texts D row
      in if list_all (\<lambda>v. v = []) values then None
         else Some \<lparr>mm_fields = map (\<lambda>(i, v). \<lparr>pf_label = or_default (nth_opt headings i), pf_value = v\<rparr>)
           (enumerate 0 values)\<rparr>)"

definition table_messages :: "('d, 'e) dom \<Rightarrow> 'e \<Rightarrow> MentorMessage list" where
  "table_messages D table =
     (case dm_within D ''tr'' table of
        [] \<Rightarrow> [] | heading # rows \<Rightarrow> List.map_filter (mentor_message D (row_texts D heading)) rows)"

definition parse_messages :: "('d, 'e) dom \<Rightarrow> string \<Rightarrow> MentorMessage list" where
  "parse_messages D html = concat (map (table_messages D) (dm_select D ''table'' (dm_parse D html)))"

definition parse_mentor :: "('d, 'e) dom \<Rightarrow> string \<Rightarrow> string \<Rightarrow> nat \<Rightarrow> MentorData" where
  "parse_mentor D details_html messages_html now =
     \<lparr>mn_details = concat (map pq_fields (groups D (dm_root D (dm_parse D details_html)))),
      mn_messages = parse_messages D messages_html, mn_update_time = now\<rparr>"

end
