(* ===== verification/PageValues.thy ===== *)
theory PageValues
  imports PagesCourses Outings
begin

section \<open>The pages as values (vtop-core/src/types.rs, client)\<close>

text \<open>
  What \<^verbatim>\<open>serde_json::to_value\<close> makes of the data of each page, by its derived
  \<^verbatim>\<open>Serialize\<close>, and the methods of the client that fetch a page and parse it.
\<close>

definition to_value :: "(string \<times> json) list \<Rightarrow> json" where
  "to_value entries = JObj (foldl (\<lambda>m (k, v). bt_insert k v m) [] entries)"

fun ClassKind_value :: "ClassKind \<Rightarrow> json" where
  "ClassKind_value Theory = JStr ''Theory''"
| "ClassKind_value Lab = JStr ''Lab''"

record AcademicCalendarData =
  ac_entries :: "CalendarEntry list"
  ac_semester_id :: string
  ac_update_time :: nat

definition FullAttendanceRecord_value :: "FullAttendanceRecord \<Rightarrow> json" where
  "FullAttendanceRecord_value r = to_value [(''serial'', JStr (fa_serial r)), (''date'', JStr (fa_date r)),
     (''slot'', JStr (fa_slot r)), (''day_time'', JStr (fa_day_time r)), (''status'', JStr (fa_status r)),
     (''remark'', JStr (fa_remark r))]"

definition FullAttendanceData_value :: "FullAttendanceData \<Rightarrow> json" where
  "FullAttendanceData_value r = to_value [(''records'', JArr (map FullAttendanceRecord_value (fd_records r))),
     (''semester_id'', JStr (fd_semester_id r)), (''update_time'', JNum (show_nat (fd_update_time r))),
     (''course_id'', JStr (fd_course_id r)), (''course_type'', JStr (fd_course_type r))]"

definition AttendanceRecord_value :: "AttendanceRecord \<Rightarrow> json" where
  "AttendanceRecord_value r = to_value [(''serial'', JStr (at_serial r)), (''category'', JStr (at_category r)),
     (''course_name'', JStr (at_course_name r)), (''course_code'', JStr (at_course_code r)),
     (''course_type'', JStr (at_course_type r)), (''faculty_detail'', JStr (at_faculty_detail r)),
     (''classes_attended'', JStr (at_classes_attended r)), (''total_classes'', JStr (at_total_classes r)),
     (''attendance_percentage'', JStr (at_attendance_percentage r)),
     (''attendence_fat_cat'', JStr (at_attendence_fat_cat r)), (''debar_status'', JStr (at_debar_status r)),
     (''course_id'', JStr (at_course_id r))]"

definition AttendanceData_value :: "AttendanceData \<Rightarrow> json" where
  "AttendanceData_value r = to_value [(''records'', JArr (map AttendanceRecord_value (ad_records r))),
     (''semester_id'', JStr (ad_semester_id r)), (''update_time'', JNum (show_nat (ad_update_time r)))]"

definition BiometricRecord_value :: "BiometricRecord \<Rightarrow> json" where
  "BiometricRecord_value r = to_value [(''serial'', JStr (bi_serial r)), (''punch_date'', JStr (bi_punch_date r)),
     (''punch_time'', JStr (bi_punch_time r)), (''venue'', JStr (bi_venue r))]"

definition BiometricData_value :: "BiometricData \<Rightarrow> json" where
  "BiometricData_value r = to_value [(''records'', JArr (map BiometricRecord_value (bd_records r))),
     (''requested_date'', JStr (bd_requested_date r)), (''update_time'', JNum (show_nat (bd_update_time r)))]"

definition ProfileField_value :: "ProfileField \<Rightarrow> json" where
  "ProfileField_value r = to_value [(''label'', JStr (pf_label r)), (''value'', JStr (pf_value r))]"

definition ProfileGroup_value :: "ProfileGroup \<Rightarrow> json" where
  "ProfileGroup_value r = to_value [(''title'', JStr (pq_title r)),
     (''fields'', JArr (map ProfileField_value (pq_fields r)))]"

definition ProfileSection_value :: "ProfileSection \<Rightarrow> json" where
  "ProfileSection_value r = to_value [(''title'', JStr (ps_title r)),
     (''groups'', JArr (map ProfileGroup_value (ps_groups r)))]"

definition StudentProfile_value :: "StudentProfile \<Rightarrow> json" where
  "StudentProfile_value r = to_value [(''name'', JStr (sp_name r)),
     (''registration_number'', JStr (sp_registration_number r)), (''vit_email'', JStr (sp_vit_email r)),
     (''program'', JStr (sp_program r)), (''school'', JStr (sp_school r)), (''photo'', JStr (sp_photo r)),
     (''sections'', JArr (map ProfileSection_value (sp_sections r))),
     (''update_time'', JNum (show_nat (sp_update_time r)))]"

definition MentorMessage_value :: "MentorMessage \<Rightarrow> json" where
  "MentorMessage_value r = to_value [(''fields'', JArr (map ProfileField_value (mm_fields r)))]"

definition MentorData_value :: "MentorData \<Rightarrow> json" where
  "MentorData_value r = to_value [(''details'', JArr (map ProfileField_value (mn_details r))),
     (''messages'', JArr (map MentorMessage_value (mn_messages r))),
     (''update_time'', JNum (show_nat (mn_update_time r)))]"

definition TimetableSlot_value :: "TimetableSlot \<Rightarrow> json" where
  "TimetableSlot_value r = to_value [(''serial'', JStr (tm_serial r)), (''day'', JStr (tm_day r)),
     (''slot'', JStr (tm_slot r)), (''course_code'', JStr (tm_course_code r)),
     (''course_type'', JStr (tm_course_type r)), (''room_no'', JStr (tm_room_no r)), (''block'', JStr (tm_block r)),
     (''start_time'', JStr (tm_start_time r)), (''end_time'', JStr (tm_end_time r)), (''name'', JStr (tm_name r)),
     (''kind'', ClassKind_value (tm_kind r)), (''faculty'', JStr (tm_faculty r)), (''credits'', JStr (tm_credits r))]"

definition TimetableCourse_value :: "TimetableCourse \<Rightarrow> json" where
  "TimetableCourse_value r = to_value [(''course_code'', JStr (tc_course_code r)), (''name'', JStr (tc_name r)),
     (''course_type'', JStr (tc_course_type r)), (''credits'', JStr (tc_credits r))]"

definition TimetableData_value :: "TimetableData \<Rightarrow> json" where
  "TimetableData_value r = to_value [(''slots'', JArr (map TimetableSlot_value (td_slots r))),
     (''courses'', JArr (map TimetableCourse_value (td_courses r))), (''semester_id'', JStr (td_semester_id r)),
     (''update_time'', JNum (show_nat (td_update_time r)))]"

definition MarksRecordEach_value :: "MarksRecordEach \<Rightarrow> json" where
  "MarksRecordEach_value r = to_value [(''serial'', JStr (me_serial r)), (''markstitle'', JStr (me_markstitle r)),
     (''maxmarks'', JStr (me_maxmarks r)), (''weightage'', JStr (me_weightage r)), (''status'', JStr (me_status r)),
     (''scoredmark'', JStr (me_scoredmark r)), (''weightagemark'', JStr (me_weightagemark r)),
     (''remark'', JStr (me_remark r))]"

definition MarksRecord_value :: "MarksRecord \<Rightarrow> json" where
  "MarksRecord_value r = to_value [(''serial'', JStr (mr_serial r)), (''coursecode'', JStr (mr_coursecode r)),
     (''coursetitle'', JStr (mr_coursetitle r)), (''coursetype'', JStr (mr_coursetype r)),
     (''faculity'', JStr (mr_faculity r)), (''slot'', JStr (mr_slot r)),
     (''marks'', JArr (map MarksRecordEach_value (mr_marks r)))]"

definition MarksData_value :: "MarksData \<Rightarrow> json" where
  "MarksData_value r = to_value [(''records'', JArr (map MarksRecord_value (md_records r))),
     (''semester_id'', JStr (md_semester_id r)), (''update_time'', JNum (show_nat (md_update_time r)))]"

definition ExamScheduleRecord_value :: "ExamScheduleRecord \<Rightarrow> json" where
  "ExamScheduleRecord_value r = to_value [(''serial'', JStr (ex_serial r)), (''slot'', JStr (ex_slot r)),
     (''course_name'', JStr (ex_course_name r)), (''course_code'', JStr (ex_course_code r)),
     (''course_type'', JStr (ex_course_type r)), (''course_id'', JStr (ex_course_id r)),
     (''exam_date'', JStr (ex_exam_date r)), (''exam_session'', JStr (ex_exam_session r)),
     (''reporting_time'', JStr (ex_reporting_time r)), (''exam_time'', JStr (ex_exam_time r)),
     (''venue'', JStr (ex_venue r)), (''seat_location'', JStr (ex_seat_location r)),
     (''seat_no'', JStr (ex_seat_no r))]"

definition PerExamScheduleRecord_value :: "PerExamScheduleRecord \<Rightarrow> json" where
  "PerExamScheduleRecord_value r = to_value [(''records'', JArr (map ExamScheduleRecord_value (px_records r))),
     (''exam_type'', JStr (px_exam_type r))]"

definition ExamScheduleData_value :: "ExamScheduleData \<Rightarrow> json" where
  "ExamScheduleData_value r = to_value [(''exams'', JArr (map PerExamScheduleRecord_value (ed_exams r))),
     (''semester_id'', JStr (ed_semester_id r)), (''update_time'', JNum (show_nat (ed_update_time r)))]"

definition CalendarEntry_value :: "CalendarEntry \<Rightarrow> json" where
  "CalendarEntry_value r = to_value [(''date'', JStr (ce_date r)), (''kind'', JStr (ce_kind r)),
     (''group'', JStr (ce_group r)), (''note'', JStr (ce_note r))]"

definition SemesterInfo_value :: "SemesterInfo \<Rightarrow> json" where
  "SemesterInfo_value r = to_value [(''id'', JStr (si_id r)), (''name'', JStr (si_name r))]"

definition SemesterData_value :: "SemesterData \<Rightarrow> json" where
  "SemesterData_value r = to_value [(''semesters'', JArr (map SemesterInfo_value (sm_semesters r))),
     (''update_time'', JNum (show_nat (sm_update_time r)))]"

definition GradeCourseRecord_value :: "GradeCourseRecord \<Rightarrow> json" where
  "GradeCourseRecord_value r = to_value [(''serial'', JStr (gw_serial r)),
     (''course_code'', JStr (gw_course_code r)), (''course_title'', JStr (gw_course_title r)),
     (''course_type'', JStr (gw_course_type r)), (''grading_type'', JStr (gw_grading_type r)),
     (''grand_total'', JStr (gw_grand_total r)), (''grade'', JStr (gw_grade r)),
     (''course_id'', JStr (gw_course_id r))]"

definition GradeViewData_value :: "GradeViewData \<Rightarrow> json" where
  "GradeViewData_value r = to_value [(''courses'', JArr (map GradeCourseRecord_value (gv_courses r))),
     (''semesters'', JArr (map SemesterInfo_value (gv_semesters r))), (''semester_id'', JStr (gv_semester_id r)),
     (''update_time'', JNum (show_nat (gv_update_time r)))]"

definition GradeDetailMark_value :: "GradeDetailMark \<Rightarrow> json" where
  "GradeDetailMark_value r = to_value [(''serial'', JStr (dk_serial r)), (''mark_title'', JStr (dk_mark_title r)),
     (''max_mark'', JStr (dk_max_mark r)), (''weightage'', JStr (dk_weightage r)), (''status'', JStr (dk_status r)),
     (''scored_mark'', JStr (dk_scored_mark r)), (''weightage_mark'', JStr (dk_weightage_mark r))]"

definition GradeRange_value :: "GradeRange \<Rightarrow> json" where
  "GradeRange_value r = to_value [(''grade'', JStr (rg_grade r)), (''range'', JStr (rg_range r))]"

definition GradeDetailsData_value :: "GradeDetailsData \<Rightarrow> json" where
  "GradeDetailsData_value r = to_value [(''semester_id'', JStr (gt_semester_id r)),
     (''course_id'', JStr (gt_course_id r)), (''class_number'', JStr (gt_class_number r)),
     (''class_course_type'', JStr (gt_class_course_type r)), (''grand_total'', JStr (gt_grand_total r)),
     (''marks'', JArr (map GradeDetailMark_value (gt_marks r))),
     (''grade_ranges'', JArr (map GradeRange_value (gt_grade_ranges r))),
     (''update_time'', JNum (show_nat (gt_update_time r)))]"

definition GradeHistoryStudentInfo_value :: "GradeHistoryStudentInfo \<Rightarrow> json" where
  "GradeHistoryStudentInfo_value r = to_value [(''reg_no'', JStr (gu_reg_no r)), (''name'', JStr (gu_name r)),
     (''programme_branch'', JStr (gu_programme_branch r)), (''programme_mode'', JStr (gu_programme_mode r)),
     (''study_system'', JStr (gu_study_system r)), (''gender'', JStr (gu_gender r)),
     (''year_joined'', JStr (gu_year_joined r)), (''edu_status'', JStr (gu_edu_status r)),
     (''school'', JStr (gu_school r)), (''campus'', JStr (gu_campus r))]"

definition GradeHistoryAttempt_value :: "GradeHistoryAttempt \<Rightarrow> json" where
  "GradeHistoryAttempt_value r = to_value [(''course_code'', JStr (tt_course_code r)),
     (''course_title'', JStr (tt_course_title r)), (''course_type'', JStr (tt_course_type r)),
     (''credits'', JStr (tt_credits r)), (''grade'', JStr (tt_grade r)), (''exam_month'', JStr (tt_exam_month r)),
     (''result_declared'', JStr (tt_result_declared r))]"

definition GradeHistoryRecord_value :: "GradeHistoryRecord \<Rightarrow> json" where
  "GradeHistoryRecord_value r = to_value [(''serial'', JStr (gh_serial r)),
     (''course_code'', JStr (gh_course_code r)), (''course_title'', JStr (gh_course_title r)),
     (''course_type'', JStr (gh_course_type r)), (''credits'', JStr (gh_credits r)), (''grade'', JStr (gh_grade r)),
     (''exam_month'', JStr (gh_exam_month r)), (''result_declared'', JStr (gh_result_declared r)),
     (''course_distribution'', JStr (gh_course_distribution r)),
     (''attempts'', JArr (map GradeHistoryAttempt_value (gh_attempts r)))]"

definition GradeHistoryCgpa_value :: "GradeHistoryCgpa \<Rightarrow> json" where
  "GradeHistoryCgpa_value r = to_value [(''credits_registered'', JStr (gp_credits_registered r)),
     (''credits_earned'', JStr (gp_credits_earned r)), (''cgpa'', JStr (gp_cgpa r)),
     (''s_grades'', JStr (gp_s_grades r)), (''a_grades'', JStr (gp_a_grades r)),
     (''b_grades'', JStr (gp_b_grades r)), (''c_grades'', JStr (gp_c_grades r)),
     (''d_grades'', JStr (gp_d_grades r)), (''e_grades'', JStr (gp_e_grades r)),
     (''f_grades'', JStr (gp_f_grades r)), (''n_grades'', JStr (gp_n_grades r))]"

definition GradeHistoryData_value :: "GradeHistoryData \<Rightarrow> json" where
  "GradeHistoryData_value r = to_value [(''student'', GradeHistoryStudentInfo_value (hd_student r)),
     (''records'', JArr (map GradeHistoryRecord_value (hd_records r))),
     (''cgpa'', GradeHistoryCgpa_value (hd_cgpa r)), (''update_time'', JNum (show_nat (hd_update_time r)))]"

definition OutingStudent_value :: "OutingStudent \<Rightarrow> json" where
  "OutingStudent_value r = to_value [(''registration_number'', JStr (os_registration_number r)),
     (''name'', JStr (os_name r)), (''application_no'', JStr (os_application_no r)),
     (''gender'', JStr (os_gender r)), (''hostel_block'', JStr (os_hostel_block r)),
     (''room_number'', JStr (os_room_number r)), (''parent_contact_number'', JStr (os_parent_contact_number r))]"

definition OutingOption_value :: "OutingOption \<Rightarrow> json" where
  "OutingOption_value r = to_value [(''value'', JStr (oo_value r)), (''label'', JStr (oo_label r))]"

definition GeneralOutingRecord_value :: "GeneralOutingRecord \<Rightarrow> json" where
  "GeneralOutingRecord_value r = to_value [(''serial'', JStr (gr_serial r)), (''place'', JStr (gr_place r)),
     (''purpose'', JStr (gr_purpose r)), (''from_date'', JStr (gr_from_date r)),
     (''from_time'', JStr (gr_from_time r)), (''to_date'', JStr (gr_to_date r)), (''to_time'', JStr (gr_to_time r)),
     (''status'', JStr (gr_status r)), (''pass_id'', JStr (gr_pass_id r)), (''cancel_id'', JStr (gr_cancel_id r))]"

definition GeneralOutingData_value :: "GeneralOutingData \<Rightarrow> json" where
  "GeneralOutingData_value r = to_value [
     (''student'', (case gd_student r of None \<Rightarrow> JNull | Some x \<Rightarrow> OutingStudent_value x)),
     (''notice'', JStr (gd_notice r)), (''records'', JArr (map GeneralOutingRecord_value (gd_records r))),
     (''out_hours'', JArr (map (\<lambda>n. JNum (show_nat n)) (gd_out_hours r))),
     (''in_hours'', JArr (map (\<lambda>n. JNum (show_nat n)) (gd_in_hours r))),
     (''place_max_length'', JNum (show_nat (gd_place_max_length r))),
     (''purpose_max_length'', JNum (show_nat (gd_purpose_max_length r))),
     (''max_days_ahead'', JNum (show_nat (gd_max_days_ahead r))),
     (''max_days_away'', JNum (show_nat (gd_max_days_away r))),
     (''update_time'', JNum (show_nat (gd_update_time r)))]"

definition WeekendOutingRecord_value :: "WeekendOutingRecord \<Rightarrow> json" where
  "WeekendOutingRecord_value r = to_value [(''serial'', JStr (wo_serial r)),
     (''hostel_block'', JStr (wo_hostel_block r)), (''room_number'', JStr (wo_room_number r)),
     (''place'', JStr (wo_place r)), (''purpose'', JStr (wo_purpose r)), (''time_slot'', JStr (wo_time_slot r)),
     (''date'', JStr (wo_date r)), (''status'', JStr (wo_status r)), (''pass_id'', JStr (wo_pass_id r)),
     (''cancel_id'', JStr (wo_cancel_id r))]"

definition WeekendOutingData_value :: "WeekendOutingData \<Rightarrow> json" where
  "WeekendOutingData_value r = to_value [
     (''student'', (case wd_student r of None \<Rightarrow> JNull | Some x \<Rightarrow> OutingStudent_value x)),
     (''notice'', JStr (wd_notice r)), (''records'', JArr (map WeekendOutingRecord_value (wd_records r))),
     (''places'', JArr (map OutingOption_value (wd_places r))),
     (''time_slots'', JArr (map OutingOption_value (wd_time_slots r))),
     (''purpose_max_length'', JNum (show_nat (wd_purpose_max_length r))),
     (''max_days_ahead'', JNum (show_nat (wd_max_days_ahead r))),
     (''weekdays'', JArr (map (\<lambda>n. JNum (show_nat n)) (wd_weekdays r))),
     (''update_time'', JNum (show_nat (wd_update_time r)))]"

definition CoursePageCourse_value :: "CoursePageCourse \<Rightarrow> json" where
  "CoursePageCourse_value r = to_value [(''id'', JStr (ck_id r)), (''code'', JStr (ck_code r)),
     (''title'', JStr (ck_title r)), (''course_type'', JStr (ck_course_type r))]"

definition CoursePageCourses_value :: "CoursePageCourses \<Rightarrow> json" where
  "CoursePageCourses_value r = to_value [(''semester_id'', JStr (cs_semester_id r)),
     (''courses'', JArr (map CoursePageCourse_value (cs_courses r))),
     (''update_time'', JNum (show_nat (cs_update_time r)))]"

definition CoursePageClass_value :: "CoursePageClass \<Rightarrow> json" where
  "CoursePageClass_value r = to_value [(''class_id'', JStr (cl_class_id r)), (''erp_id'', JStr (cl_erp_id r)),
     (''class_group'', JStr (cl_class_group r)), (''course_code'', JStr (cl_course_code r)),
     (''course_title'', JStr (cl_course_title r)), (''course_type'', JStr (cl_course_type r)),
     (''slot'', JStr (cl_slot r)), (''faculty'', JStr (cl_faculty r)),
     (''faculty_school'', JStr (cl_faculty_school r))]"

definition CoursePageClasses_value :: "CoursePageClasses \<Rightarrow> json" where
  "CoursePageClasses_value r = to_value [(''semester_id'', JStr (cw_semester_id r)),
     (''course_id'', JStr (cw_course_id r)), (''classes'', JArr (map CoursePageClass_value (cw_classes r))),
     (''update_time'', JNum (show_nat (cw_update_time r)))]"

definition CourseMaterial_value :: "CourseMaterial \<Rightarrow> json" where
  "CourseMaterial_value r = to_value [(''label'', JStr (cu_label r)), (''path'', JStr (cu_path r))]"

definition CourseLecture_value :: "CourseLecture \<Rightarrow> json" where
  "CourseLecture_value r = to_value [(''serial'', JStr (le_serial r)), (''date'', JStr (le_date r)),
     (''day'', JStr (le_day r)), (''topic'', JStr (le_topic r)),
     (''materials'', JArr (map CourseMaterial_value (le_materials r)))]"

definition CoursePageDetail_value :: "CoursePageDetail \<Rightarrow> json" where
  "CoursePageDetail_value r = to_value [(''semester_id'', JStr (cd_semester_id r)),
     (''class'', CoursePageClass_value (cd_class r)), (''course_id'', JStr (cd_course_id r)),
     (''all_materials_path'', JStr (cd_all_materials_path r)),
     (''general_materials_path'', JStr (cd_general_materials_path r)),
     (''syllabus_path'', JStr (cd_syllabus_path r)), (''has_course_plan'', JBool (cd_has_course_plan r)),
     (''lectures'', JArr (map CourseLecture_value (cd_lectures r))),
     (''update_time'', JNum (show_nat (cd_update_time r)))]"

definition AcademicCalendarData_value :: "AcademicCalendarData \<Rightarrow> json" where
  "AcademicCalendarData_value r = to_value [(''entries'', JArr (map CalendarEntry_value (ac_entries r))),
     (''semester_id'', JStr (ac_semester_id r)), (''update_time'', JNum (show_nat (ac_update_time r)))]"

subsection \<open>Fetching and parsing (vtop-core/src/client)\<close>

text \<open>A page, parsed at the time of the clock.\<close>

definition read_page ::
  "'j web \<Rightarrow> (string \<Rightarrow> nat \<Rightarrow> 'a) \<Rightarrow> ('j VtopClient, string) act \<Rightarrow> ('j VtopClient, 'a) act" where
  "read_page W parse m = andthen m (\<lambda>page. now_unix W (\<lambda>now. ret (parse page now)))"

definition semesters :: "'j web \<Rightarrow> ('d, 'e) dom \<Rightarrow> ('j VtopClient, SemesterData) act" where
  "semesters W D = read_page W (parse_semid_timetable D) (semesters_page W)"

definition timetable :: "'j web \<Rightarrow> ('d, 'e) dom \<Rightarrow> string \<Rightarrow> ('j VtopClient, TimetableData) act" where
  "timetable W D semester = read_page W (\<lambda>page. parse_timetable (wb_lower W) D page semester) (timetable_page W semester)"

definition attendance :: "'j web \<Rightarrow> ('d, 'e) dom \<Rightarrow> string \<Rightarrow> ('j VtopClient, AttendanceData) act" where
  "attendance W D semester = read_page W (\<lambda>page. parse_attendance D page semester) (attendance_page W semester)"

definition full_attendance ::
  "'j web \<Rightarrow> ('d, 'e) dom \<Rightarrow> string \<Rightarrow> string \<Rightarrow> string \<Rightarrow> ('j VtopClient, FullAttendanceData) act" where
  "full_attendance W D semester course kind =
     read_page W (\<lambda>page. parse_full_attendance D page semester course kind) (full_attendance_page W semester course kind)"

fun calendar_months ::
  "'j web \<Rightarrow> ('d, 'e) dom \<Rightarrow> string \<Rightarrow> string list \<Rightarrow> CalendarEntry list \<Rightarrow> ('j VtopClient, CalendarEntry list) act" where
  "calendar_months W D semester [] entries = ret entries"
| "calendar_months W D semester (cal_date # months) entries =
     andthen (calendar_month_page W semester cal_date) (\<lambda>page.
       calendar_months W D semester months (entries @ parse_calendar_month D page cal_date))"

definition academic_calendar :: "'j web \<Rightarrow> ('d, 'e) dom \<Rightarrow> string \<Rightarrow> ('j VtopClient, AcademicCalendarData) act" where
  "academic_calendar W D semester =
     andthen (calendar_months_page W semester) (\<lambda>page.
     andthen (calendar_months W D semester (parse_calendar_months D page) []) (\<lambda>entries.
     now_unix W (\<lambda>now. ret \<lparr>ac_entries = sort_key ce_date entries, ac_semester_id = semester, ac_update_time = now\<rparr>)))"

definition marks :: "'j web \<Rightarrow> ('d, 'e) dom \<Rightarrow> string \<Rightarrow> ('j VtopClient, MarksData) act" where
  "marks W D semester = read_page W (\<lambda>page. parse_marks (wb_lower W) D page semester) (marks_page W semester)"

definition exam_schedule :: "'j web \<Rightarrow> ('d, 'e) dom \<Rightarrow> string \<Rightarrow> ('j VtopClient, ExamScheduleData) act" where
  "exam_schedule W D semester = read_page W (\<lambda>page. parse_schedule D page semester) (exam_schedule_page W semester)"

definition grade_view :: "'j web \<Rightarrow> ('d, 'e) dom \<Rightarrow> string \<Rightarrow> ('j VtopClient, GradeViewData) act" where
  "grade_view W D semester = read_page W (\<lambda>page. parse_grade_view D page semester) (grade_view_page W semester)"

definition grade_view_details ::
  "'j web \<Rightarrow> ('d, 'e) dom \<Rightarrow> string \<Rightarrow> string \<Rightarrow> ('j VtopClient, GradeDetailsData) act" where
  "grade_view_details W D semester course =
     read_page W (\<lambda>page. parse_grade_view_details D page semester course) (grade_view_details_page W semester course)"

definition grade_history :: "'j web \<Rightarrow> ('d, 'e) dom \<Rightarrow> ('j VtopClient, GradeHistoryData) act" where
  "grade_history W D = read_page W (parse_grade_history D) (grade_history_page W)"

definition biometric_history :: "'j web \<Rightarrow> ('d, 'e) dom \<Rightarrow> string \<Rightarrow> ('j VtopClient, BiometricData) act" where
  "biometric_history W D date = read_page W (\<lambda>page. parse_biometric D page date) (biometric_page W date)"

definition profile :: "'j web \<Rightarrow> ('d, 'e) dom \<Rightarrow> ('j VtopClient, StudentProfile) act" where
  "profile W D = read_page W (parse_profile D) (profile_page W)"

definition mentor :: "'j web \<Rightarrow> ('d, 'e) dom \<Rightarrow> ('j VtopClient, MentorData) act" where
  "mentor W D = andthen (mentor_details_page W) (\<lambda>details.
     read_page W (parse_mentor D details) (mentor_messages_page W))"

definition course_page_courses :: "'j web \<Rightarrow> ('d, 'e) dom \<Rightarrow> string \<Rightarrow> ('j VtopClient, CoursePageCourses) act" where
  "course_page_courses W D semester =
     read_page W (\<lambda>page. parse_courses D page semester) (course_page_courses_page W semester)"

definition course_page_classes ::
  "'j web \<Rightarrow> ('d, 'e) dom \<Rightarrow> string \<Rightarrow> string \<Rightarrow> ('j VtopClient, CoursePageClasses) act" where
  "course_page_classes W D semester course_id =
     andthen (from_result (plain_id course_id ''course id'')) (\<lambda>course_id.
       read_page W (\<lambda>page. parse_classes (wb_lower W) D page semester course_id)
         (course_page_classes_page W semester course_id))"

definition course_page_detail ::
  "'j web \<Rightarrow> ('d, 'e) dom \<Rightarrow> string \<Rightarrow> string \<Rightarrow> string \<Rightarrow> ('j VtopClient, CoursePageDetail) act" where
  "course_page_detail W D semester erp_id class_id =
     andthen (from_result (plain_id erp_id ''faculty id'')) (\<lambda>erp_id.
     andthen (from_result (plain_id class_id ''class id'')) (\<lambda>class_id.
       read_page W (\<lambda>page. parse_detail (wb_lower W) D page semester erp_id)
         (course_page_detail_page W semester erp_id class_id)))"

end
