(* ===== verification/BridgeFetch.thy ===== *)
theory BridgeFetch
  imports BridgeEngine PageValues
begin

section \<open>Signing in and fetching on a phone's session (vtop-bridge/src/vtop_login.rs, fetch.rs, pages.rs)\<close>

text \<open>
  The routes for a phone that signs in itself and lets the engine fetch.  Each has a time limit
  at which it drops what it does: whether it runs out is an argument, since nothing that the
  answer depends on is used after it.
\<close>

subsection \<open>Signing in\<close>

definition PHONE_LOGIN_TIMEOUT :: duration where "PHONE_LOGIN_TIMEOUT = secs 28"
definition FETCH_TIMEOUT :: duration where "FETCH_TIMEOUT = secs 25"

record LoginBody =
  lb_username :: string
  lb_password :: string

definition login_body_of :: "json \<Rightarrow> LoginBody option" where
  "login_body_of v = do { m \<leftarrow> j_fields v; username \<leftarrow> str_field [''username''] m;
     password \<leftarrow> str_field [''password''] m; Some \<lparr>lb_username = username, lb_password = password\<rparr> }"

record OtpBody =
  ob_session :: SessionState
  ob_otp :: string

definition session_field :: "(string \<times> json) list \<Rightarrow> SessionState option" where
  "session_field m = do { f \<leftarrow> find_field [''session''] m; v \<leftarrow> f; session_state_of v }"

definition otp_body_of :: "json \<Rightarrow> OtpBody option" where
  "otp_body_of v = do { m \<leftarrow> j_fields v; session \<leftarrow> session_field m; otp \<leftarrow> str_field [''otp''] m;
     Some \<lparr>ob_session = session, ob_otp = otp\<rparr> }"

definition resend_body_of :: "json \<Rightarrow> SessionState option" where
  "resend_body_of v = Option.bind (j_fields v) session_field"

text \<open>What is left of a sign-in: its result and the client; past the limit, the error and a client
  that is not looked at any more but for the requests it sent.\<close>

definition timed ::
  "'j VtopClient option \<Rightarrow> ('j VtopClient, unit) act \<Rightarrow> ('j VtopClient, unit) act" where
  "timed stopped m c = (case stopped of
     None \<Rightarrow> m c | Some c' \<Rightarrow> (Inl (VtopUnavailable ''VTOP took too long to sign in.''), c'))"

definition otp_required_json :: "string \<Rightarrow> nat option \<Rightarrow> SessionState \<Rightarrow> json" where
  "otp_required_json message issued_at session =
     JObj [(''issuedAt'', case issued_at of None \<Rightarrow> JNull | Some n \<Rightarrow> JNum (show_nat n)), (''message'', JStr message),
       (''session'', session_state_json session), (''status'', JStr ''otp_required'')]"

definition phone_outcome :: "'j web \<Rightarrow> (VtopError + unit) \<times> 'j VtopClient \<Rightarrow> ApiError + json" where
  "phone_outcome W res =
     (case res of
        (Inr _, c) \<Rightarrow> Inr (JObj [(''session'', session_state_json (session_state W c)), (''status'', JStr ''ok'')])
      | (Inl (OTPRequired message issued_at), c) \<Rightarrow>
          Inr (otp_required_json message (Some issued_at) (session_state W c))
      | (Inl e, c) \<Rightarrow> Inl (login_error e))"

definition vtop_login ::
  "'j bridge \<Rightarrow> 'j VtopClient option \<Rightarrow> string option \<Rightarrow> json option \<Rightarrow> (ApiError + json) \<times> HopRequest list" where
  "vtop_login E stopped auth body = route E auth bad_json login_body_of body (\<lambda>body.
     case and_then (Username_parse (trim (lb_username body))) (\<lambda>u.
         and_then (Password_parse (lb_password body)) (\<lambda>p. Inr (u, p))) of
       Inl e \<Rightarrow> (Inl (login_error e), [])
     | Inr (u, p) \<Rightarrow>
         (let res = timed stopped (login (br_web E)) (with_credentials (br_web E) (br_base_url E) u p)
          in (phone_outcome (br_web E) res, vc_sent (snd res))))"

definition pending :: "'j bridge \<Rightarrow> SessionState \<Rightarrow> ApiError + 'j VtopClient" where
  "pending E session =
     (if st_otp_issued_at session = None \<or> trim (st_cookies session) = [] then
        Inl (api_error 400 ''no_pending_login'' ''This session is not waiting for an OTP; sign in again.'')
      else map_err login_error (with_session (br_web E) (br_base_url E) session))"

definition vtop_otp ::
  "'j bridge \<Rightarrow> 'j VtopClient option \<Rightarrow> string option \<Rightarrow> json option \<Rightarrow> (ApiError + json) \<times> HopRequest list" where
  "vtop_otp E stopped auth body = route E auth bad_json otp_body_of body (\<lambda>body.
     case pending E (ob_session body) of
       Inl e \<Rightarrow> (Inl e, [])
     | Inr c \<Rightarrow>
         (let res = timed stopped (submit_security_otp (br_web E) (trim (ob_otp body))) c
          in (phone_outcome (br_web E) res, vc_sent (snd res))))"

definition vtop_resend ::
  "'j bridge \<Rightarrow> 'j VtopClient option \<Rightarrow> string option \<Rightarrow> json option \<Rightarrow> (ApiError + json) \<times> HopRequest list" where
  "vtop_resend E stopped auth body = route E auth bad_json resend_body_of body (\<lambda>session.
     case pending E session of
       Inl e \<Rightarrow> (Inl e, [])
     | Inr c \<Rightarrow>
         (case timed stopped (resend_security_otp (br_web E)) c of
            (Inl e, c) \<Rightarrow> (Inl (login_error e), vc_sent c)
          | (Inr _, c) \<Rightarrow>
              (let session = session_state (br_web E) c
               in (Inr (otp_required_json ''A new OTP was sent to your registered email.''
                     (st_otp_issued_at session) session), vc_sent c))))"

subsection \<open>The pages\<close>

text \<open>The crates for HTML and for base64.\<close>

record ('d, 'e) page_lib =
  pl_dom :: "('d, 'e) dom"
  pl_base64 :: "bytes \<Rightarrow> string"

type_synonym Args = "(string, string) bmap"

type_synonym 'j page_call = "string \<Rightarrow> Args \<Rightarrow> ('j VtopClient, json) act"

record 'j PageDef =
  pg_name :: string
  pg_args :: "string list"
  pg_call :: "'j page_call"

definition arg :: "Args \<Rightarrow> string \<Rightarrow> string" where
  "arg args name = (case map_of args name of Some v \<Rightarrow> v | None \<Rightarrow> [])"

definition page :: "string \<Rightarrow> string list \<Rightarrow> 'j page_call \<Rightarrow> 'j PageDef" where
  "page name args call = \<lparr>pg_name = name, pg_args = args, pg_call = call\<rparr>"

text \<open>A page's data as a value, and the pages of one semester.\<close>

definition json_of :: "('a \<Rightarrow> json) \<Rightarrow> ('w, 'a) act \<Rightarrow> ('w, json) act" where
  "json_of value m = andthen m (\<lambda>x. ret (value x))"

definition of_semester :: "string \<Rightarrow> (string \<Rightarrow> ('w, 'a) act) \<Rightarrow> ('w, 'a) act" where
  "of_semester s f = andthen (from_result (SemesterId_parse s)) f"

definition plain_call :: "('a \<Rightarrow> json) \<Rightarrow> ('j VtopClient, 'a) act \<Rightarrow> 'j page_call" where
  "plain_call value get s a = json_of value get"

definition semester_call :: "('a \<Rightarrow> json) \<Rightarrow> (string \<Rightarrow> ('j VtopClient, 'a) act) \<Rightarrow> 'j page_call" where
  "semester_call value get s a = of_semester s (\<lambda>semester. json_of value (get semester))"

definition full_attendance_call :: "'j web \<Rightarrow> ('d, 'e) page_lib \<Rightarrow> 'j page_call" where
  "full_attendance_call W P s a = of_semester s (\<lambda>semester.
     andthen (from_result (CourseId_parse (arg a ''course_id''))) (\<lambda>course.
     andthen (from_result (CourseType_parse (arg a ''course_type''))) (\<lambda>kind.
       json_of FullAttendanceData_value (full_attendance W (pl_dom P) semester course kind))))"

definition grade_details_call :: "'j web \<Rightarrow> ('d, 'e) page_lib \<Rightarrow> 'j page_call" where
  "grade_details_call W P s a = of_semester s (\<lambda>semester.
     andthen (from_result (CourseId_parse (arg a ''course_id''))) (\<lambda>course.
       json_of GradeDetailsData_value (grade_view_details W (pl_dom P) semester course)))"

definition biometric_call :: "'j web \<Rightarrow> ('d, 'e) page_lib \<Rightarrow> 'j page_call" where
  "biometric_call W P s a = andthen (from_result (BiometricDate_parse (arg a ''date''))) (\<lambda>date.
     json_of BiometricData_value (biometric_history W (pl_dom P) date))"

definition outing_kind :: "string \<Rightarrow> VtopError + OutingKind" where
  "outing_kind kind = (if kind = ''general'' then Inr General else if kind = ''weekend'' then Inr Weekend
     else Inl (ConfigurationError (''No outing kind '' @ kind @ ''.'')))"

definition pdf :: "('d, 'e) page_lib \<Rightarrow> bytes \<Rightarrow> json" where
  "pdf P b = JObj [(''pdf'', JStr (pl_base64 P b))]"

definition outing_pass_call :: "'j web \<Rightarrow> ('d, 'e) page_lib \<Rightarrow> 'j page_call" where
  "outing_pass_call W P s a = andthen (from_result (outing_kind (arg a ''kind''))) (\<lambda>kind.
     andthen (from_result (OutingPassId_parse (arg a ''pass_id''))) (\<lambda>ident.
     json_of (pdf P) (outing_pass W kind ident)))"

definition course_page_classes_call :: "'j web \<Rightarrow> ('d, 'e) page_lib \<Rightarrow> 'j page_call" where
  "course_page_classes_call W P s a = of_semester s (\<lambda>semester.
     json_of CoursePageClasses_value (course_page_classes W (pl_dom P) semester (arg a ''course_id'')))"

definition course_page_detail_call :: "'j web \<Rightarrow> ('d, 'e) page_lib \<Rightarrow> 'j page_call" where
  "course_page_detail_call W P s a = of_semester s (\<lambda>semester.
     json_of CoursePageDetail_value (course_page_detail W (pl_dom P) semester (arg a ''erp_id'') (arg a ''class_id'')))"

definition file_info_json :: "CourseFileInfo \<Rightarrow> json" where
  "file_info_json i = JObj [(''content_disposition'', JStr (ci_content_disposition i)),
     (''content_type'', JStr (ci_content_type i))]"

definition course_file_info_call :: "'j web \<Rightarrow> 'j page_call" where
  "course_file_info_call W s a = andthen (from_result (CourseFilePath_parse (arg a ''path''))) (\<lambda>path.
     json_of file_info_json (course_page_file_info W path))"

definition course_plan_info_call :: "'j web \<Rightarrow> 'j page_call" where
  "course_plan_info_call W s a = of_semester s (\<lambda>semester.
     json_of file_info_json (course_plan_info W semester (arg a ''class_id'')))"

definition PAGES :: "'j web \<Rightarrow> ('d, 'e) page_lib \<Rightarrow> 'j PageDef list" where
  "PAGES W P = (let D = pl_dom P in
     [page ''semesters'' [] (plain_call SemesterData_value (semesters W D)),
      page ''attendance'' [] (semester_call AttendanceData_value (attendance W D)),
      page ''full_attendance'' [''course_id'', ''course_type''] (full_attendance_call W P),
      page ''timetable'' [] (semester_call TimetableData_value (timetable W D)),
      page ''marks'' [] (semester_call MarksData_value (marks W D)),
      page ''exam_schedule'' [] (semester_call ExamScheduleData_value (exam_schedule W D)),
      page ''grades'' [] (semester_call GradeViewData_value (grade_view W D)),
      page ''academic_calendar'' [] (semester_call AcademicCalendarData_value (academic_calendar W D)),
      page ''grade_details'' [''course_id''] (grade_details_call W P),
      page ''grade_history'' [] (plain_call GradeHistoryData_value (grade_history W D)),
      page ''biometric'' [''date''] (biometric_call W P),
      page ''profile'' [] (plain_call StudentProfile_value (profile W D)),
      page ''mentor'' [] (plain_call MentorData_value (mentor W D)),
      page ''general_outing'' [] (plain_call GeneralOutingData_value (general_outing W D)),
      page ''weekend_outing'' [] (plain_call WeekendOutingData_value (weekend_outing W D)),
      page ''outing_pass'' [''kind'', ''pass_id''] (outing_pass_call W P),
      page ''course_page_courses'' [] (semester_call CoursePageCourses_value (course_page_courses W D)),
      page ''course_page_classes'' [''course_id''] (course_page_classes_call W P),
      page ''course_page_detail'' [''erp_id'', ''class_id''] (course_page_detail_call W P),
      page ''course_file_info'' [''path''] (course_file_info_call W),
      page ''course_plan_info'' [''class_id''] (course_plan_info_call W)])"

definition find_page :: "'j web \<Rightarrow> ('d, 'e) page_lib \<Rightarrow> string \<Rightarrow> 'j PageDef option" where
  "find_page W P name = find (\<lambda>d. pg_name d = name) (PAGES W P)"

subsection \<open>Fetching one\<close>

text \<open>The dictionary of the pages, and Brotli with a dictionary, which is a crate.\<close>

record ('d, 'e) fetch_lib =
  fl_pages :: "('d, 'e) page_lib"
  fl_parts :: Parts
  fl_brotli :: "bytes \<Rightarrow> bytes \<Rightarrow> bytes option"

definition takes_args :: "'j PageDef \<Rightarrow> Args \<Rightarrow> bool" where
  "takes_args d args \<longleftrightarrow> length args = length (pg_args d) \<and> list_all (\<lambda>name. map_of args name \<noteq> None) (pg_args d)"

definition page_reply :: "'j bridge \<Rightarrow> ('d, 'e) fetch_lib \<Rightarrow> string option \<Rightarrow> string \<Rightarrow> json \<Rightarrow> Reply" where
  "page_reply E F dictionary name data =
     (if dictionary = Some (pd_id (fl_parts F)) then
        (case pack (br_json E) (fl_brotli F) (fl_parts F) name data of
           Some packed \<Rightarrow> PackedReply packed
         | None \<Rightarrow> JsonReply (JObj [(''data'', data)]))
      else JsonReply (JObj [(''data'', data)]))"

definition engine_fetch ::
  "'j bridge \<Rightarrow> ('d, 'e) fetch_lib \<Rightarrow> HopRequest list option \<Rightarrow> string option \<Rightarrow> json option \<Rightarrow>
   (ApiError + Reply) \<times> HopRequest list" where
  "engine_fetch E F late auth body =
     route E auth (bad_arguments ''Invalid JSON body.'') page_fetch_of body (\<lambda>rq.
     case session_state_of (pf_session rq) of
       None \<Rightarrow> (Inl (bad_arguments ''session is not a VTOP session.''), [])
     | Some session \<Rightarrow>
         if trim (st_cookies session) = [] then (Inl session_expired, [])
         else (case find_page (br_web E) (fl_pages F) (pf_name rq) of
             None \<Rightarrow> (Inl (api_error 404 ''unknown_page'' (''No page named '' @ pf_name rq @ ''.'')), [])
           | Some d \<Rightarrow>
               if \<not> takes_args d (pf_args rq) then
                 (Inl (bad_arguments (pg_name d @ '' takes: '' @ join_text '', '' (pg_args d) @ ''.'')), [])
               else (case with_session (br_web E) (br_base_url E) session of
                   Inl e \<Rightarrow> (Inl (vtop_error e), [])
                 | Inr c \<Rightarrow>
                     (case late of
                        Some sent \<Rightarrow> (Inl (api_error 504 ''vtop_timeout'' ''VTOP took too long to answer.''), sent)
                      | None \<Rightarrow>
                          (case pg_call d (or_default (pf_semester rq)) (pf_args rq) c of
                             (Inl e, c) \<Rightarrow> (Inl (vtop_error e), vc_sent c)
                           | (Inr data, c) \<Rightarrow>
                               (Inr (page_reply E F (pf_dictionary rq) (pg_name d) data), vc_sent c))))))"

subsection \<open>The router\<close>

text \<open>
  A body is JSON that the extractor could read: it says so, is not over the limit, and parses.  A
  handler is told of any other only that it is not.
\<close>

definition MAX_BODY_BYTES :: nat where "MAX_BODY_BYTES = 64 * 1024"

record EngineRequest =
  eq_post :: bool
  eq_path :: string
  eq_auth :: "string option"
  eq_is_json :: bool
  eq_body :: bytes

definition json_body :: "json_lib \<Rightarrow> EngineRequest \<Rightarrow> json option" where
  "json_body J rq = (if \<not> eq_is_json rq \<or> MAX_BODY_BYTES < length (eq_body rq) then None
     else Option.bind (from_utf8 (eq_body rq)) (js_read J))"

datatype Route = Healthz | OwnerCheck | SessionRoute | SealRoute | UdpKeysRoute | LoginRoute | FetchRoute
  | VtopLoginRoute | VtopOtpRoute | VtopResendRoute

definition routes_of_router :: "(string \<times> bool \<times> Route) list" where
  "routes_of_router = [(''/healthz'', False, Healthz), (''/internal/mail-otp/owner'', True, OwnerCheck),
     (SESSION, True, SessionRoute), (SEAL, True, SealRoute), (UDP_KEYS, False, UdpKeysRoute),
     (LOGIN, True, LoginRoute), (FETCH, True, FetchRoute), (VTOP_LOGIN, True, VtopLoginRoute),
     (VTOP_LOGIN_OTP, True, VtopOtpRoute), (VTOP_LOGIN_RESEND, True, VtopResendRoute)]"

definition healthz :: json where
  "healthz = JObj [(''service'', JStr ''vtop-engine''), (''status'', JStr ''ok'')]"

fun into_response :: "ApiError + Reply \<Rightarrow> nat \<times> Reply" where
  "into_response (Inl e) = (api_status e, JsonReply (error_json e))"
| "into_response (Inr (StatusReply n)) = (n, StatusReply n)"
| "into_response (Inr r) = (200, r)"

text \<open>
  What one request draws from outside: the nonce of a seal, and where a time limit cut a sign-in or
  a fetch.
\<close>

record 'j draws =
  dw_iv :: bytes
  dw_stopped :: "'j VtopClient option"
  dw_late :: "HopRequest list option"

record served_request =
  sq_reply :: "nat \<times> Reply"
  sq_vtop :: "HopRequest list"
  sq_job :: "LoginStart option"

definition as_served :: "(ApiError + Reply) \<times> HopRequest list \<Rightarrow> served_request" where
  "as_served res = \<lparr>sq_reply = into_response (fst res), sq_vtop = snd res, sq_job = None\<rparr>"

definition as_json :: "('a \<Rightarrow> json) \<Rightarrow> (ApiError + 'a) \<times> HopRequest list \<Rightarrow> served_request" where
  "as_json f res = as_served (and_then (fst res) (\<lambda>x. Inr (JsonReply (f x))), snd res)"

definition serve :: "'j bridge \<Rightarrow> ('d, 'e) fetch_lib \<Rightarrow> 'j draws \<Rightarrow> EngineRequest \<Rightarrow> served_request" where
  "serve E F w rq =
     (let auth = eq_auth rq; body = json_body (br_json E) rq
      in case map_of routes_of_router (eq_path rq) of
           None \<Rightarrow> as_served (Inr (StatusReply 404), [])
         | Some (is_post, r) \<Rightarrow>
             if is_post \<noteq> eq_post rq then as_served (Inr (StatusReply 405), [])
             else (case r of
                 Healthz \<Rightarrow> as_served (Inr (JsonReply healthz), [])
               | OwnerCheck \<Rightarrow> as_served (owner_check E auth body)
               | SessionRoute \<Rightarrow> as_json session_checked_json (engine_session E (dw_iv w) auth body)
               | SealRoute \<Rightarrow> as_json (\<lambda>s. JObj [(''sealedVault'', JStr s)]) (engine_seal E (dw_iv w) auth body)
               | UdpKeysRoute \<Rightarrow> as_served (udp_keys E auth, [])
               | LoginRoute \<Rightarrow> (case engine_login E auth body of
                     Inl e \<Rightarrow> as_served (Inl e, [])
                   | Inr (reply, start) \<Rightarrow> (as_served (Inr reply, []))\<lparr>sq_job := Some start\<rparr>)
               | FetchRoute \<Rightarrow> as_served (engine_fetch E F (dw_late w) auth body)
               | VtopLoginRoute \<Rightarrow> as_json (\<lambda>v. v) (vtop_login E (dw_stopped w) auth body)
               | VtopOtpRoute \<Rightarrow> as_json (\<lambda>v. v) (vtop_otp E (dw_stopped w) auth body)
               | VtopResendRoute \<Rightarrow> as_json (\<lambda>v. v) (vtop_resend E (dw_stopped w) auth body)))"

end
