(* ===== verification/GmailClaims.thy ===== *)
theory GmailClaims
  imports Gmail
begin

section \<open>The code in the mail: the claims\<close>

text \<open>Which digits of a text are taken for a code, which mail is taken for VTOP's, and that waiting ends.\<close>

subsection \<open>Six digits\<close>

text \<open>\<open>c\<close> stands alone in \<open>s\<close> after \<open>a\<close>: six digits with no digit next to them.\<close>

definition six_at :: "string \<Rightarrow> string \<Rightarrow> string \<Rightarrow> bool" where
  "six_at s a c \<longleftrightarrow> (\<exists>b. s = a @ c @ b \<and> (b = [] \<or> \<not> is_digit (hd b))) \<and> length c = 6 \<and> list_all is_digit c \<and>
     (a = [] \<or> \<not> is_digit (last a))"

lemma six_at_skip:
  assumes "\<not> is_digit x"
  shows "six_at (x # xs) a c \<longleftrightarrow> (\<exists>a'. a = x # a' \<and> six_at xs a' c)"
proof (cases a)
  case Nil
  then show ?thesis using assms by (cases c) (auto simp: six_at_def)
next
  case (Cons y a')
  then show ?thesis using assms by (cases a') (auto simp: six_at_def)
qed

lemma six_at_run:
  assumes r: "list_all is_digit r" "r \<noteq> []" "length r \<noteq> 6" and b: "rest = [] \<or> \<not> is_digit (hd rest)"
  shows "six_at (r @ rest) a c \<longleftrightarrow> (\<exists>a'. a = r @ a' \<and> six_at rest a' c)"
proof
  assume s: "six_at (r @ rest) a c"
  then obtain b' where e: "r @ rest = a @ c @ b'" and b': "b' = [] \<or> \<not> is_digit (hd b')"
    and c: "length c = 6" "list_all is_digit c" and a: "a = [] \<or> \<not> is_digit (last a)"
    by (auto simp: six_at_def)
  from e consider u where "r = a @ u" "u @ rest = c @ b'" | u where "a = r @ u" "rest = u @ c @ b'"
    by (auto simp: append_eq_append_conv2)
  then show "\<exists>a'. a = r @ a' \<and> six_at rest a' c"
  proof cases
    case 1
    have "a = []" using a 1(1) r(1) by (cases "a = []") (auto simp: list_all_iff)
    then have u: "r @ rest = c @ b'" using 1 by simp
    have "takeWhile is_digit (r @ rest) = r" "takeWhile is_digit (c @ b') = c"
      using r(1) b c(2) b' by (auto simp: takeWhile_append list_all_iff takeWhile_eq_Nil_iff hd_conv_nth neq_Nil_conv)
    then show ?thesis using u r(3) c(1) by simp
  next
    case 2
    have "u \<noteq> []"
    proof
      assume "u = []"
      then show False using 2 a r(1,2) by (auto simp: list_all_iff)
    qed
    then show ?thesis using 2 b' c a by (auto simp: six_at_def)
  qed
next
  assume "\<exists>a'. a = r @ a' \<and> six_at rest a' c"
  then obtain a' where a': "a = r @ a'" "six_at rest a' c" by blast
  have "a' \<noteq> []"
  proof
    assume "a' = []"
    with a'(2) show False using b by (cases c) (auto simp: six_at_def)
  qed
  then show "six_at (r @ rest) a c" using a' by (auto simp: six_at_def)
qed

text \<open>What the search has to find, and that it may leave out a beginning in which no code begins.\<close>

definition first_at :: "string \<Rightarrow> string option \<Rightarrow> bool" where
  "first_at s found = (case found of
     Some c \<Rightarrow> \<exists>a. six_at s a c \<and> (\<forall>a' c'. six_at s a' c' \<longrightarrow> length a \<le> length a')
   | None \<Rightarrow> \<forall>a c. \<not> six_at s a c)"

lemma first_at_skip:
  assumes p: "\<And>a c. six_at (p @ s) a c \<longleftrightarrow> (\<exists>a'. a = p @ a' \<and> six_at s a' c)" and s: "first_at s found"
  shows "first_at (p @ s) found"
proof (cases found)
  case None
  then have "\<not> six_at s a c" for a c using s by (simp add: first_at_def)
  then have "\<not> six_at (p @ s) a c" for a c unfolding p by blast
  then show ?thesis using None by (simp add: first_at_def)
next
  case (Some c)
  then obtain a where a: "six_at s a c" "\<And>a' c'. six_at s a' c' \<Longrightarrow> length a \<le> length a'"
    using s by (auto simp: first_at_def)
  have "length (p @ a) \<le> length a'" if "six_at (p @ s) a' c'" for a' c'
  proof -
    from that obtain u where "a' = p @ u" "six_at s u c'" unfolding p by blast
    then show ?thesis using a(2) by simp
  qed
  moreover have "six_at (p @ s) (p @ a) c" unfolding p using a(1) by blast
  ultimately show ?thesis unfolding first_at_def Some option.case by blast
qed

text \<open>C35: The code taken from a text is the first group of exactly six digits that stands alone: digits
  that are part of a longer or shorter number are passed over, and when there is no such group no
  code is found.\<close>

theorem six_digit_code_spec:
  "case first_six_digit_code s of
     Some c \<Rightarrow> \<exists>a. six_at s a c \<and> (\<forall>a' c'. six_at s a' c' \<longrightarrow> length a \<le> length a')
   | None \<Rightarrow> \<forall>a c. \<not> six_at s a c"
  unfolding first_at_def [symmetric]
proof (induction s rule: first_six_digit_code.induct)
  case 1
  show ?case by (auto simp: six_at_def first_at_def)
next
  case (2 x xs)
  show ?case
  proof (cases "is_digit x")
    case False
    have f: "first_six_digit_code (x # xs) = first_six_digit_code xs"
      unfolding first_six_digit_code.simps(2) using False by (rule if_P)
    from 2(1) [OF False] first_at_skip [where p = "[x]"] six_at_skip [OF False] show ?thesis
      unfolding f by simp
  next
    case True
    define r rest where "r = takeWhile is_digit (x # xs)" and "rest = dropWhile is_digit (x # xs)"
    have s: "x # xs = r @ rest" unfolding r_def rest_def by (rule takeWhile_dropWhile_id [symmetric])
    have r1: "list_all is_digit r" unfolding r_def list_all_iff by (metis set_takeWhileD)
    have r2: "r \<noteq> []" unfolding r_def using True by simp
    note r = r1 r2
    have b: "rest = [] \<or> \<not> is_digit (hd rest)" unfolding rest_def using hd_dropWhile by blast
    show ?thesis
    proof (cases "length r = 6")
      case l: True
      have "first_six_digit_code (x # xs) = Some r" using l True unfolding r_def first_six_digit_code.simps(2) Let_def by simp
      moreover have "six_at (x # xs) [] r" unfolding s six_at_def using r b l by auto
      ultimately show ?thesis by (auto simp: first_at_def intro!: exI [of _ "[]"])
    next
      case l: False
      have f: "first_six_digit_code (x # xs) = first_six_digit_code rest"
        using l True unfolding r_def rest_def first_six_digit_code.simps(2) Let_def by simp
      have "first_at rest (first_six_digit_code rest)"
        unfolding rest_def using True l unfolding r_def by (intro 2(2) [OF _ refl]) simp
      then show ?thesis unfolding f unfolding s by (rule first_at_skip [OF six_at_run [OF r l b]])
    qed
  qed
qed

theorem six_digit_code_spec_witness:
  "\<exists>a. six_at ''ref 12345678 then 654321'' a ''654321''"
proof -
  have "first_six_digit_code ''ref 12345678 then 654321'' = Some ''654321''" by code_simp
  then show ?thesis using six_digit_code_spec [of "''ref 12345678 then 654321''"] by auto
qed

subsection \<open>The mail\<close>

text \<open>The last answer was a mail from VTOP, not older than allowed, whose text has this code.\<close>

definition mail_with :: "gmail_lib \<Rightarrow> nat \<Rightarrow> gmail_world \<Rightarrow> GmailOtp \<Rightarrow> bool" where
  "mail_with G issued_at w found \<longleftrightarrow> (\<exists>message. gl_http G (gs_sent w) = Some (200, Some message) \<and>
     gs_sent w \<noteq> [] \<and> gq_url (last (gs_sent w)) = API @ ''/'' @ go_message_id found \<and>
     from_vtop G message \<and> (issued_at - CLOCK_SLACK_SECS) * 1000 \<le> received_ms message \<and>
     first_six_digit_code (message_text G message) = Some (go_code found))"

text \<open>What a look at the mailbox does: it only reads, with the access token it was lent.\<close>

definition reads_mail :: "GmailAccess \<Rightarrow> gmail_world \<Rightarrow> gmail_world \<Rightarrow> bool" where
  "reads_mail access w w' \<longleftrightarrow> gs_ticks w \<le> gs_ticks w' \<and> (\<exists>rqs. gs_sent w' = gs_sent w @ rqs \<and>
     (\<forall>rq \<in> set rqs. gq_bearer rq = trim (ga_access_token access) \<and> prefix API (gq_url rq)))"

lemma reads_mail_refl [simp]: "reads_mail access w w"
  by (simp add: reads_mail_def)

lemma reads_mail_trans [trans]: "reads_mail access w w' \<Longrightarrow> reads_mail access w' w'' \<Longrightarrow> reads_mail access w w''"
  unfolding reads_mail_def by fastforce

lemma reads_mail_tick [simp]: "reads_mail access w (gm_tick w)"
  by (simp add: reads_mail_def gm_tick_def)

lemma get_json_reads:
  assumes "get_json G access url query w = (r, w')" "prefix API url"
  shows "reads_mail access w w'" "gs_sent w' \<noteq> []" "gq_url (last (gs_sent w')) = url"
    "r = Inr v \<Longrightarrow> gl_http G (gs_sent w') = Some (200, Some v)"
  using assms by (auto simp: get_json_def Let_def reads_mail_def split: option.splits prod.splits if_splits)

lemma first_otp_found:
  assumes "first_otp G access (issued_at - CLOCK_SLACK_SECS) ids w = (r, w')"
  shows "reads_mail access w w' \<and> (\<forall>found. r = Inr (Some found) \<longrightarrow>
    go_message_id found \<in> set ids \<and> mail_with G issued_at w' found)"
  using assms
proof (induction ids arbitrary: w)
  case (Cons ident ids)
  obtain r1 w1 where g: "get_json G access (API @ ''/'' @ ident) [(''format'', ''full'')] w = (r1, w1)"
    by (cases "get_json G access (API @ ''/'' @ ident) [(''format'', ''full'')] w")
  note m = get_json_reads [OF g]
  show ?case
  proof (cases r1)
    case (Inl e)
    then show ?thesis using Cons.prems g m(1) by auto
  next
    case (Inr message)
    show ?thesis
    proof (cases "code_in G (issued_at - CLOCK_SLACK_SECS) message")
      case None
      then have "first_otp G access (issued_at - CLOCK_SLACK_SECS) ids w1 = (r, w')" using Cons.prems g Inr by simp
      from Cons.IH [OF this] m(1) show ?thesis by (auto intro: reads_mail_trans)
    next
      case (Some code)
      then have "r = Inr (Some \<lparr>go_code = code, go_message_id = ident\<rparr>)" "w' = w1" using Cons.prems g Inr by simp_all
      then show ?thesis using m Inr Some
        by (auto simp: mail_with_def code_in_def split: if_splits)
    qed
  qed
qed auto

lemma message_ids_untried: "ident \<in> set (message_ids tried listing) \<Longrightarrow> ident \<notin> tried"
  by (simp add: message_ids_def)

lemma find_otp_found:
  assumes "find_otp G access issued_at tried w = (r, w')"
  shows "reads_mail access w w'" "r = Inr (Some found) \<Longrightarrow> go_message_id found \<notin> tried \<and> mail_with G issued_at w' found"
proof -
  let ?query = "[(''maxResults'', ''3''),
      (''q'', ''from:'' @ SENDER @ '' after:'' @ show_nat (issued_at - CLOCK_SLACK_SECS))]"
  obtain lapsed w1 where e: "expires_within G access 5 w = (lapsed, w1)" by (cases "expires_within G access 5 w")
  have w1: "reads_mail access w w1" using e by (auto simp: expires_within_def split: option.splits)
  have "reads_mail access w w' \<and> (r = Inr (Some found) \<longrightarrow> go_message_id found \<notin> tried \<and> mail_with G issued_at w' found)"
  proof (cases lapsed)
    case True
    then show ?thesis using assms e w1 by (auto simp: find_otp_def)
  next
    case False
    then have n: "newest_otp G access (issued_at - CLOCK_SLACK_SECS) tried w1 = (r, w')"
      using assms e by (simp add: find_otp_def)
    obtain r2 w2 where g: "get_json G access API ?query w1 = (r2, w2)" by (cases "get_json G access API ?query w1")
    note m = get_json_reads(1) [OF g prefix_order.refl]
    show ?thesis
    proof (cases r2)
      case (Inl e')
      then show ?thesis using n g m w1 by (auto simp: newest_otp_def intro: reads_mail_trans)
    next
      case (Inr listing)
      then have "first_otp G access (issued_at - CLOCK_SLACK_SECS) (message_ids tried listing) w2 = (r, w')"
        using n g by (simp add: newest_otp_def)
      from first_otp_found [OF this] m w1 show ?thesis
        by (auto intro: reads_mail_trans dest: message_ids_untried)
    qed
  qed
  then show "reads_mail access w w'" "r = Inr (Some found) \<Longrightarrow> go_message_id found \<notin> tried \<and> mail_with G issued_at w' found"
    by blast+
qed

text \<open>
  Waiting ends when the clock gets past every instant; \<open>N\<close> is a number of readings after which it is
  past the deadline.
\<close>

lemma poll_otp_ends:
  assumes "\<forall>m \<ge> N. deadline < gl_instant G m + POLL_EVERY"
  shows "\<exists>r w'. poll_otp G access issued_at deadline tried w = Some (r, w') \<and> reads_mail access w w' \<and>
    (\<forall>found. r = Inr found \<longrightarrow> go_message_id found \<notin> tried \<and> mail_with G issued_at w' found)"
proof (induction "N - gs_ticks w" arbitrary: w rule: less_induct)
  case less
  obtain r1 w1 where f: "find_otp G access issued_at tried w = (r1, w1)" by (cases "find_otp G access issued_at tried w")
  note m = find_otp_found(1) [OF f] and g = find_otp_found(2) [OF f]
  obtain lapses w2 where e: "expires_within G access 8 (gm_tick w1) = (lapses, w2)"
    by (cases "expires_within G access 8 (gm_tick w1)")
  then have w2: "reads_mail access (gm_tick w1) w2" by (auto simp: expires_within_def split: option.splits)
  have t: "reads_mail access w (gm_tick w1)" by (rule reads_mail_trans [OF m reads_mail_tick])
  consider (err) why where "r1 = Inl why" | (found) x where "r1 = Inr (Some x)" | (none) "r1 = Inr None"
    by (metis sum.exhaust option.exhaust)
  then show ?case
  proof cases
    case err
    then show ?thesis using f m by (subst poll_otp.simps) simp
  next
    case found
    then show ?thesis using f m g by (subst poll_otp.simps) simp
  next
    case none
    show ?thesis
    proof (cases "deadline < gl_instant G (gs_ticks w1) + POLL_EVERY")
      case True
      then show ?thesis using none f t by (subst poll_otp.simps) simp
    next
      case False
      then have n: "gs_ticks w1 < N" using assms by (metis not_le)
      show ?thesis
      proof (cases lapses)
        case True
        then show ?thesis using False none f e reads_mail_trans [OF t w2] by (subst poll_otp.simps) simp
      next
        case False'': False
        have "gs_ticks w \<le> gs_ticks w1" "gs_ticks w1 < gs_ticks w2"
          using m w2 by (auto simp: reads_mail_def gm_tick_def)
        then have "N - gs_ticks w2 < N - gs_ticks w" using n by linarith
        from less [OF this] obtain r w' where "poll_otp G access issued_at deadline tried w2 = Some (r, w')"
          "reads_mail access w2 w'"
          "\<forall>found. r = Inr found \<longrightarrow> go_message_id found \<notin> tried \<and> mail_with G issued_at w' found" by blast
        then show ?thesis using \<open>\<not> deadline < _\<close> False'' none f e reads_mail_trans [OF reads_mail_trans [OF t w2]]
          by (subst poll_otp.simps) simp
      qed
    qed
  qed
qed

text \<open>C34: Waiting for a code in the student's Gmail ends when the clock gets past every instant, and only
  reads the mailbox, with the token it was lent.  A code it hands out was in a mail that was not
  tried before, whose sender is VTOP's, and that Gmail took in no earlier than half a minute before
  VTOP issued the challenge.\<close>

theorem gmail_wait:
  assumes "\<forall>d. \<exists>n. \<forall>m \<ge> n. d \<le> gl_instant G m"
  shows "\<exists>r w'. wait_for_otp G access issued_at wait tried w = Some (r, w') \<and> reads_mail access w w' \<and>
    (\<forall>found. r = Inr found \<longrightarrow> go_message_id found \<notin> tried \<and> mail_with G issued_at w' found)"
proof -
  let ?d = "gl_instant G (gs_ticks w) + wait"
  obtain N where "\<forall>m \<ge> N. ?d \<le> gl_instant G m" using assms by blast
  then have "\<forall>m \<ge> N. ?d < gl_instant G m + POLL_EVERY" by (auto simp: POLL_EVERY_def intro: le_less_trans)
  from poll_otp_ends [OF this, of access issued_at tried "gm_tick w"] show ?thesis
    unfolding wait_for_otp_def using reads_mail_trans [OF reads_mail_tick] by blast
qed

definition toy_mail :: json where
  "toy_mail = JObj [(''id'', JStr ''m1''), (''internalDate'', JStr ''1000000''), (''snippet'', JStr ''OTP is 123456.''),
     (''messages'', JArr [JObj [(''id'', JStr ''m1'')]]),
     (''payload'', JObj [(''headers'', JArr [JObj [(''name'', JStr ''from''), (''value'', JStr SENDER)]])])]"

definition toy_gmail :: gmail_lib where
  "toy_gmail = \<lparr>gl_http = (\<lambda>_. Some (200, Some toy_mail)), gl_lower = (\<lambda>s. s), gl_decode = (\<lambda>_. None),
     gl_instant = (\<lambda>n. n), gl_unix = (\<lambda>n. n)\<rparr>"

theorem gmail_wait_witness:
  "\<exists>r w'. wait_for_otp toy_gmail \<lparr>ga_access_token = ''t'', ga_delete_after_reading = False, ga_expires_at = None\<rparr>
     1000 (secs 45) {} \<lparr>gs_sent = [], gs_ticks = 0\<rparr> = Some (r, w') \<and>
     (\<forall>found. r = Inr found \<longrightarrow> mail_with toy_gmail 1000 w' found)"
proof -
  have "\<forall>d. \<exists>n. \<forall>m \<ge> n. d \<le> gl_instant toy_gmail m" by (auto simp: toy_gmail_def)
  from gmail_wait [OF this, of _ 1000 "secs 45" "{}"] show ?thesis by blast
qed

text \<open>A mail in which the code is found.\<close>

lemma toy_mail_found:
  "map_option fst (wait_for_otp toy_gmail \<lparr>ga_access_token = ''t'', ga_delete_after_reading = False, ga_expires_at = None\<rparr>
     1000 (secs 45) {} \<lparr>gs_sent = [], gs_ticks = 0\<rparr>) = Some (Inr \<lparr>go_code = ''123456'', go_message_id = ''m1''\<rparr>)"
proof -
  have r: "received_ms toy_mail = 1000000"
    by (simp add: received_ms_def toy_mail_def parse_uint_def parse_digits_def is_digit_def char_code_def digits_val_def
        digit_val_def)
  have v: "from_vtop toy_gmail toy_mail" "first_six_digit_code (message_text toy_gmail toy_mail) = Some ''123456''"
      "message_ids {} toy_mail = [''m1'']"
    by code_simp+
  have "code_in toy_gmail 970 toy_mail = Some ''123456''"
    using r v by (simp add: code_in_def)
  then have "fst (find_otp toy_gmail \<lparr>ga_access_token = ''t'', ga_delete_after_reading = False, ga_expires_at = None\<rparr>
     1000 {} \<lparr>gs_sent = [], gs_ticks = 1\<rparr>) = Inr (Some \<lparr>go_code = ''123456'', go_message_id = ''m1''\<rparr>)"
    using v(3) by (simp add: find_otp_def expires_within_def newest_otp_def get_json_def toy_gmail_def Let_def
        CLOCK_SLACK_SECS_def)
  then show ?thesis
    unfolding wait_for_otp_def gm_tick_def
    by (subst poll_otp.simps) (auto split: prod.splits sum.splits option.splits)
qed

end
