(* ===== verification/BridgeProps.thy ===== *)
theory BridgeProps
  imports BridgeFetch GmailClaims OtpClaims
begin

section \<open>The engine: what its parts guarantee\<close>

text \<open>
  Partial correctness of the loops that look codes up, whatever their source; what VTOP vouches for
  when a session is verified or a sign-in succeeds; what the forwarded codes are.
\<close>

subsection \<open>Signing in, whatever the source of the codes\<close>

lemma forwarded_loop_post:
  assumes "forwarded_loop W M next_code message issued_at deadline tried s c = Some y" and "client_inv W T base c"
  shows "client_inv W T base (snd (snd y)) \<and> otp_ends W (fst y) (snd (snd y))"
proof -
  have "client_inv W T base c \<longrightarrow> client_inv W T base (snd (snd y)) \<and> otp_ends W (fst y) (snd (snd y))"
  proof (rule forwarded_loop.raw_induct [where P = "\<lambda>W M next_code message issued_at deadline tried s c y.
      client_inv W T base c \<longrightarrow> client_inv W T base (snd (snd y)) \<and> otp_ends W (fst y) (snd (snd y))", OF _ assms(1)],
      intro impI)
    fix loop W M next_code message issued_at deadline tried s c y
    assume IH: "\<And>W M next_code message issued_at deadline tried s c y.
          loop W M next_code message issued_at deadline tried s c = Some y \<Longrightarrow>
          client_inv W T base c \<longrightarrow> client_inv W T base (snd (snd y)) \<and> otp_ends W (fst y) (snd (snd y))"
      and turn: "(case read_instant M c of (now, c) \<Rightarrow>
          let remaining = since deadline now
          in if remaining = 0 then Some (Inl (OTPRequired message issued_at), s, c)
             else (case next_code s (vc_ticks c) issued_at remaining tried of
                 None \<Rightarrow> None
               | Some (None, s, n) \<Rightarrow> Some (Inl (OTPRequired message issued_at), s, readings n c)
               | Some (Some code, s, n) \<Rightarrow>
                   (case submit_security_otp W code (readings n c) of
                      (Inr _, c) \<Rightarrow> Some (Inr (), s, c)
                    | (Inl (AuthenticationFailed _), c) \<Rightarrow>
                        loop W M next_code message issued_at deadline (tried @ [code]) s c
                    | (Inl e, c) \<Rightarrow> Some (Inl e, s, c)))) = Some y"
      and i: "client_inv W T base c"
    let ?c = "c\<lparr>vc_ticks := vc_ticks c + 1\<rparr>" and ?left = "since deadline (M (vc_ticks c))"
    show "client_inv W T base (snd (snd y)) \<and> otp_ends W (fst y) (snd (snd y))"
    proof (cases "?left = 0")
      case True
      then show ?thesis using turn i by (auto simp: otp_ends_def)
    next
      case time: False
      obtain found s1 k where f: "next_code s (vc_ticks ?c) issued_at ?left tried = Some (found, s1, k)"
        using turn time by (auto split: option.splits)
      show ?thesis
      proof (cases found)
        case None
        then show ?thesis using turn i time f by (auto simp: otp_ends_def)
      next
        case (Some code)
        obtain r1 c1 where sb: "submit_security_otp W code (readings k ?c) = (r1, c1)"
          by (cases "submit_security_otp W code (readings k ?c)")
        have "client_inv W T base (readings k ?c)" using i by simp
        note e = submit_inv [OF this sb]
        show ?thesis
        proof (cases "\<exists>m. r1 = Inl (AuthenticationFailed m)")
          case True
          then have "loop W M next_code message issued_at deadline (tried @ [code]) s1 c1 = Some y"
            using turn time f Some sb by auto
          from IH [OF this] e(1) show ?thesis by simp
        next
          case False
          then have "y = (r1, s1, c1)" using turn time f Some sb by (auto split: sum.splits VtopError.splits)
          then show ?thesis using e by simp
        qed
      qed
    qed
  qed
  then show ?thesis using assms(2) by blast
qed

lemma login_with_otp_post:
  assumes "login_with_otp_from W M next_code wait s c = Some (r, s', c')" and "client_inv W T base c"
  shows "client_inv W T base c' \<and> otp_ends W r c'"
proof -
  obtain r1 c1 where l: "login W c = (r1, c1)" by (cases "login W c")
  have p: "client_inv W T base c1" "login_post W r1 c1" using wpD [OF inv_login [OF assms(2)] l] by blast+
  show ?thesis
  proof (cases "\<exists>m t. r1 = Inl (OTPRequired m t)")
    case True
    then obtain m t where r1: "r1 = Inl (OTPRequired m t)" by blast
    have "client_inv W T base (c1\<lparr>vc_ticks := vc_ticks c1 + 1\<rparr>)" using p(1) by simp
    from forwarded_loop_post [OF _ this] show ?thesis
      using assms(1) l r1 by (fastforce simp: login_with_otp_from_def)
  next
    case False
    then have "r = r1" "c' = c1"
      using assms(1) l by (auto simp: login_with_otp_from_def split: sum.splits VtopError.splits)
    then show ?thesis using p by (auto simp: otp_ends_def login_post_def)
  qed
qed

text \<open>A sign-in with saved credentials: whose session it is, VTOP has said on a page.\<close>

lemma CoreLogin_served:
  assumes "CoreLogin_login E next_code s username password = Some (r, s', sent)"
  shows "(\<forall>session n. r = Inr session \<longrightarrow> st_registration_number session = Some n \<longrightarrow> page_number (br_web E) sent n) \<and>
    (\<forall>h \<in> set sent. home (br_web E) (br_base_url E) h)"
proof (cases "and_then (Username_parse username) (\<lambda>u. and_then (Password_parse password) (\<lambda>p. Inr (u, p)))")
  case (Inl e)
  then show ?thesis using assms by (auto simp: CoreLogin_login_def)
next
  case (Inr up)
  obtain u p where up: "up = (u, p)" by (cases up)
  let ?c = "with_credentials (br_web E) (br_base_url E) u p"
  from assms Inr up obtain result c where
    l: "login_with_otp_from (br_web E) (br_instant E) next_code (eg_otp_wait (br_config E)) s ?c = Some (result, s', c)"
    and r: "r = and_then (map_outcome result) (\<lambda>_. Inr (session_state (br_web E) c))" "sent = vc_sent c"
    by (auto simp: CoreLogin_login_def split: option.splits)
  have "client_inv (br_web E) {} (br_base_url E) ?c" by (simp add: with_credentials_def)
  from login_with_otp_post [OF l this] have "client_inv (br_web E) {} (br_base_url E) c" by blast
  then show ?thesis using r by (auto simp: client_inv_def and_then_Inr session_state_def)
qed

subsection \<open>Whose a session is\<close>

lemma resume_sends_nothing: "resume_session W s c = (r, c') \<Longrightarrow> vc_sent c' = vc_sent c \<and> vc_base_url c' = vc_base_url c"
  by (auto simp: resume_session_def import_cookie_header_def andthen_def from_result_def change_def reading_def ret_def
      on_session_def reset_session_state_def split: sum.splits option.splits if_splits prod.splits)

lemma with_session_fresh: "with_session W base s = Inr c \<Longrightarrow> vc_sent c = [] \<and> vc_base_url c = base"
  by (auto simp: with_session_def client_new_def split: prod.splits sum.splits dest!: resume_sends_nothing)

lemma verify_page:
  assumes "verify_session W c = (r, c')" "vc_sent c = []"
  shows "length (vc_sent c') \<le> 11 \<and> (\<forall>n. r = Inr n \<longrightarrow> (\<exists>csrf. session_page W (vc_sent c') csrf n))"
proof -
  obtain res c1 where q: "send_request W (content_request c) c = (res, c1)" by (cases "send_request W (content_request c) c")
  from send_request_hops [OF q] assms(2) have l: "length (vc_sent c1) \<le> 11"
    and srv: "\<And>response. res = Inr response \<Longrightarrow> served W (vc_sent c1) response"
    by (auto simp: hops_of_def MAX_REDIRECTS_def)
  show ?thesis
  proof (cases "\<exists>csrf n. checked W True res = Inr (Some (csrf, n))")
    case True
    then obtain csrf n where p: "checked W True res = Inr (Some (csrf, n))" by blast
    then have "session_page W (vc_sent c1) csrf n" using srv by (auto simp: session_page_def elim!: checked_page)
    then show ?thesis using assms(1) q p l by (auto simp: verify_eq)
  next
    case False
    then have "r = Inr n \<Longrightarrow> False" and "vc_sent c' = vc_sent c1" for n
      using assms(1) q by (auto simp: verify_eq split: sum.splits option.splits)
    then show ?thesis using l by auto
  qed
qed

lemma verifier_served:
  assumes "CoreVerifier_registration_number E session = (r, sent)"
  shows "length sent \<le> 11 \<and> (\<forall>n. r = Inr n \<longrightarrow> (\<exists>csrf m. session_page (br_web E) sent csrf m \<and> n = br_account E m))"
proof -
  let ?s = "\<lparr>st_cookies = st_cookies session, st_csrf_token = None, st_registration_number = None,
      st_otp_issued_at = None, st_logged_in_at = None\<rparr>"
  show ?thesis
  proof (cases "with_session (br_web E) (br_base_url E) ?s")
    case (Inl e)
    then show ?thesis using assms by (auto simp: CoreVerifier_registration_number_def)
  next
    case (Inr c)
    obtain r1 c1 where v: "verify_session (br_web E) c = (r1, c1)" by (cases "verify_session (br_web E) c")
    from verify_page [OF v] with_session_fresh [OF Inr] Inr v assms show ?thesis
      by (auto simp: CoreVerifier_registration_number_def account_id_def split: sum.splits)
  qed
qed

subsection \<open>Forwarded codes\<close>

text \<open>
  What asking the edge leaves: requests for this sign-in's own codes, each waiting no longer than
  allowed; the keys of the sign-in stay.
\<close>

definition asks :: "'j bridge \<Rightarrow> ForwardedCodes \<Rightarrow> EdgeRequest \<Rightarrow> bool" where
  "asks E f rq \<longleftrightarrow> er_post rq \<and> er_url rq = eg_edge_url (br_config E) @ OTP_AWAIT \<and>
     er_bearer rq = eg_mail_relay_secret (br_config E) \<and>
     (\<exists>since_secs wait. wait \<le> AWAIT_STEP_SECS \<and> er_body rq = Some (otp_await_json (await_request f since_secs wait)))"

definition asked :: "'j bridge \<Rightarrow> ForwardedCodes \<Rightarrow> ForwardedCodes \<Rightarrow> bool" where
  "asked E f f' \<longleftrightarrow> fc_owner_hash f' = fc_owner_hash f \<and> fc_secret f' = fc_secret f \<and>
     fc_public_key f' = fc_public_key f \<and> (\<exists>rqs. fc_sent f' = fc_sent f @ rqs \<and> (\<forall>rq \<in> set rqs. asks E f rq))"

lemma asked_refl [simp]: "asked E f f"
  by (simp add: asked_def)

lemma asked_trans:
  assumes "asked E f g" "asked E g h" shows "asked E f h"
proof -
  have "await_request g = await_request f"
    using assms(1) by (auto simp: asked_def await_request_def fun_eq_iff)
  then have "asks E g = asks E f" by (simp add: asks_def fun_eq_iff)
  then show ?thesis using assms unfolding asked_def by fastforce
qed

definition await_rq :: "'j bridge \<Rightarrow> OtpAwait \<Rightarrow> EdgeRequest" where
  "await_rq E a = \<lparr>er_post = True, er_url = eg_edge_url (br_config E) @ OTP_AWAIT,
     er_bearer = eg_mail_relay_secret (br_config E), er_body = Some (otp_await_json a), er_timeout = secs 40\<rparr>"

lemma await_otp_sent: "await_otp E a sent = (r, sent') \<Longrightarrow> sent' = sent @ [await_rq E a]"
  by (auto simp: await_otp_def edge_post_def edge_send_def await_rq_def)

lemma asks_await: "wait \<le> AWAIT_STEP_SECS \<Longrightarrow> asks E f (await_rq E (await_request f since_secs wait))"
  unfolding asks_def await_rq_def by auto

lemma await_otp_asks:
  assumes "await_otp E (await_request f since_secs wait) (fc_sent f) = (r, sent)" "wait \<le> AWAIT_STEP_SECS"
  shows "asked E f (f\<lparr>fc_sent := sent\<rparr>)" "asked E f (f\<lparr>fc_sent := sent, fc_no_mailbox := b\<rparr>)"
  using await_otp_sent [OF assms(1)] asks_await [OF assms(2)] by (simp_all add: asked_def)

text \<open>The edge's last answer held this sealed mail; or said that there is no mailbox.\<close>

definition edge_gave :: "'j bridge \<Rightarrow> EdgeRequest list \<Rightarrow> string option \<Rightarrow> bool" where
  "edge_gave E sent sealed \<longleftrightarrow> (\<exists>reply body. br_edge E sent = Inr reply \<and> ey_status reply = 200 \<and>
     ey_body reply = Some body \<and> otp_awaited_of body = Some sealed)"

lemma await_otp_result:
  assumes "await_otp E a sent = (r, sent')"
  shows "r = and_then (map_err EdgeUnavailable (br_edge E sent')) (\<lambda>response.
      if ey_status response = 200 then
        (case Option.bind (ey_body response) otp_awaited_of of
           None \<Rightarrow> Inl (EdgeUnavailable ''error decoding response body'') | Some sealed \<Rightarrow> Inr sealed)
      else if ey_status response = 404 then Inl NoMailbox
      else Inl (EdgeUnavailable (''edge answered '' @ show_nat (ey_status response))))"
  using assms unfolding await_otp_sent [OF assms] by (simp add: await_otp_def edge_post_def edge_send_def await_rq_def)

lemma await_otp_answer:
  assumes "await_otp E a sent = (r, sent')"
  shows "r = Inr sealed \<Longrightarrow> edge_gave E sent' sealed"
    "r = Inl NoMailbox \<longleftrightarrow> (\<exists>reply. br_edge E sent' = Inr reply \<and> ey_status reply = 404)"
  using await_otp_result [OF assms]
  by (cases "br_edge E sent'"; auto simp: edge_gave_def bind_eq_Some_conv split: if_splits option.splits)+

lemma codes_open_keys: "fc_secret g = fc_secret f \<Longrightarrow> fc_owner_hash g = fc_owner_hash f \<Longrightarrow> codes_open E g = codes_open E f"
  by (simp add: codes_open_def fun_eq_iff)

text \<open>What a wait for a forwarded code leaves behind.\<close>

definition codes_post ::
  "'j bridge \<Rightarrow> string list \<Rightarrow> ForwardedCodes \<Rightarrow> string option \<Rightarrow> ForwardedCodes \<Rightarrow> bool" where
  "codes_post E tried f code f' \<longleftrightarrow> asked E f f' \<and>
     (\<forall>c. code = Some c \<longrightarrow> c \<notin> set tried \<and>
        (\<exists>sealed. edge_gave E (fc_sent f') (Some sealed) \<and> codes_open E f sealed = Some c)) \<and>
     (fc_no_mailbox f' \<longrightarrow> fc_no_mailbox f \<or>
        code = None \<and> (\<exists>reply. br_edge E (fc_sent f') = Inr reply \<and> ey_status reply = 404))"

lemma codes_post_step:
  assumes "asked E f g" "fc_no_mailbox g = fc_no_mailbox f" "codes_post E tried g code f'"
  shows "codes_post E tried f code f'"
proof -
  have "codes_open E g = codes_open E f" using assms(1) by (intro codes_open_keys) (simp_all add: asked_def)
  then show ?thesis using assms asked_trans [OF assms(1)] by (auto simp: codes_post_def)
qed

lemma codes_loop_ends:
  assumes "\<forall>m \<ge> N. deadline \<le> br_instant E m"
  shows "\<exists>code f' t'. codes_loop E issued_at deadline tried f t = Some (code, f', t') \<and> codes_post E tried f code f'"
proof (induction "N - t" arbitrary: f t rule: less_induct)
  case less
  let ?left = "since deadline (br_instant E t)"
  show ?case
  proof (cases "?left < secs 1")
    case True
    then show ?thesis by (subst codes_loop.simps) (simp add: codes_post_def)
  next
    case left: False
    then have n: "t < N" using assms by (metis not_le since_zero zero_less_numeral mult_1 zero_less_mult_iff zero_less_one)
    let ?a = "await_request f (issued_at - FORWARD_SLACK_SECS) (min (?left div secs 1) AWAIT_STEP_SECS)"
    obtain r sent where w: "await_otp E ?a (fc_sent f) = (r, sent)" by (cases "await_otp E ?a (fc_sent f)")
    let ?f = "f\<lparr>fc_sent := sent\<rparr>"
    have a: "asked E f ?f" "asked E f (f\<lparr>fc_sent := sent, fc_no_mailbox := True\<rparr>)"
      by (rule await_otp_asks [OF w], simp)+
    have "N - (t + 1) < N - t" using n by linarith
    from less [OF this, of ?f] obtain code f' t' where
      l: "codes_loop E issued_at deadline tried ?f (t + 1) = Some (code, f', t')" "codes_post E tried ?f code f'"
      by blast
    have again: "codes_post E tried f code f'" by (rule codes_post_step [OF a(1) _ l(2)]) simp
    have more: ?thesis if "codes_loop E issued_at deadline tried f t = codes_loop E issued_at deadline tried ?f (t + 1)"
      using that l(1) again by auto
    note unfolded = codes_loop.simps [of E issued_at deadline tried f t]
    consider (sealed) m where "r = Inr (Some m)" | (nothing) "r = Inr None" | (gone) "r = Inl NoMailbox"
      | (down) why where "r = Inl (EdgeUnavailable why)"
      by (metis sum.exhaust option.exhaust EdgeError.exhaust)
    then show ?thesis
    proof cases
      case sealed
      show ?thesis
      proof (cases "\<exists>c. codes_open E f m = Some c \<and> c \<notin> set tried")
        case True
        then obtain c where c: "codes_open E f m = Some c" "c \<notin> set tried" by blast
        then have "codes_loop E issued_at deadline tried f t = Some (Some c, ?f, t + 1)"
          using left w sealed by (simp add: unfolded)
        moreover have "codes_post E tried f (Some c) ?f"
          using a(1) c await_otp_answer(1) [OF w sealed] by (auto simp: codes_post_def)
        ultimately show ?thesis by blast
      next
        case False
        then show ?thesis using left w sealed by (intro more) (auto simp: unfolded split: option.split)
      qed
    next
      case gone
      then have "codes_loop E issued_at deadline tried f t = Some (None, f\<lparr>fc_sent := sent, fc_no_mailbox := True\<rparr>, t + 1)"
        using left w by (simp add: unfolded)
      moreover have "codes_post E tried f None (f\<lparr>fc_sent := sent, fc_no_mailbox := True\<rparr>)"
        using a(2) gone await_otp_answer(2) [OF w] by (auto simp: codes_post_def)
      ultimately show ?thesis by blast
    next
      case nothing
      then show ?thesis using left w by (intro more) (simp add: unfolded)
    next
      case down
      then show ?thesis using left w by (intro more) (simp add: unfolded)
    qed
  qed
qed

text \<open>Both sources of codes return, whenever they are asked.\<close>

lemma forwarded_next_returns:
  assumes "\<forall>d. \<exists>n. \<forall>m \<ge> n. d \<le> br_instant E m"
  shows "forwarded_next E s t issued_at remaining tried \<noteq> None"
proof -
  obtain N where "\<forall>m \<ge> N. br_instant E t + remaining \<le> br_instant E m" using assms by blast
  from codes_loop_ends [OF this] show ?thesis by (fastforce simp: forwarded_next_def)
qed

lemma gmail_next_returns:
  assumes "\<forall>d. \<exists>n. \<forall>m \<ge> n. d \<le> gl_instant G m"
  shows "gmail_next G s t issued_at remaining tried \<noteq> None"
proof -
  let ?w = "(gc_world s)\<lparr>gs_ticks := t\<rparr>"
  obtain N where "\<forall>m \<ge> N. gl_instant G t + remaining \<le> gl_instant G m" using assms by blast
  then have "\<forall>m \<ge> N. gl_instant G (gs_ticks ?w) + remaining < gl_instant G m + POLL_EVERY"
    by (auto simp: POLL_EVERY_def intro: le_less_trans)
  from poll_otp_ends [OF this, of "gc_access s" issued_at
      "set (map snd (filter (\<lambda>(code, _). code \<in> set tried) (gc_handed_out s)))" "gm_tick ?w"]
  obtain r w' where "wait_for_otp G (gc_access s) issued_at remaining
      (set (map snd (filter (\<lambda>(code, _). code \<in> set tried) (gc_handed_out s)))) ?w = Some (r, w')"
    by (auto simp: wait_for_otp_def)
  then show ?thesis by (cases r) (auto simp: gmail_next_def Let_def)
qed

text \<open>A sign-in with either source ends.\<close>

lemma login_with_otp_ends:
  assumes "\<forall>d. \<exists>n. \<forall>m \<ge> n. d \<le> M m" and "\<And>s t i r used. next_code s t i r used \<noteq> None"
    and "client_inv W T base c"
  shows "login_with_otp_from W M next_code wait s c \<noteq> None"
proof -
  obtain r c1 where l: "login W c = (r, c1)" by (cases "login W c")
  then have i: "client_inv W T base (c1\<lparr>vc_ticks := vc_ticks c1 + 1\<rparr>)" using wpD [OF inv_login [OF assms(3)] l] by simp
  obtain N where "\<forall>m \<ge> N. M (vc_ticks c1) + wait \<le> M m" using assms(1) by blast
  from forwarded_loop_ends [OF i this assms(2)] l show ?thesis
    by (fastforce simp: login_with_otp_from_def split: sum.split VtopError.split)
qed

lemma CoreLogin_returns:
  assumes "\<forall>d. \<exists>n. \<forall>m \<ge> n. d \<le> br_instant E m" and "\<And>s t i r used. next_code s t i r used \<noteq> None"
  shows "CoreLogin_login E next_code s username password \<noteq> None"
proof -
  have i: "client_inv (br_web E) {} (br_base_url E) (with_credentials (br_web E) (br_base_url E) u p)" for u p
    by (simp add: with_credentials_def)
  have "login_with_otp_from (br_web E) (br_instant E) next_code wait s (with_credentials (br_web E) (br_base_url E) u p) \<noteq> None"
    for wait u p by (rule login_with_otp_ends [OF assms(1) assms(2) i])
  then show ?thesis by (auto simp: CoreLogin_login_def simp del: not_None_eq split: sum.split option.split)
qed

end
