(* ===== verification/BridgeSent.thy ===== *)
theory BridgeSent
  imports BridgeProps
begin

section \<open>The engine: what a sign-in sends besides VTOP\<close>

text \<open>
  Whatever the edge and VTOP answer, a wait for forwarded codes sends the edge requests for this
  sign-in's codes and nothing else; and of Google a sign-in depends on one answer, to the form of
  the saved grant.
\<close>

subsection \<open>What the edge is asked\<close>

lemma codes_loop_asked:
  assumes "codes_loop E issued_at deadline tried f t = Some y"
  shows "asked E f (fst (snd y))"
proof (rule codes_loop.raw_induct [where P = "\<lambda>E issued_at deadline tried f t y. asked E f (fst (snd y))", OF _ assms])
  fix loop :: "'a bridge \<Rightarrow> nat \<Rightarrow> instant \<Rightarrow> string list \<Rightarrow> ForwardedCodes \<Rightarrow> nat \<Rightarrow> (string option \<times> ForwardedCodes \<times> nat) option"
  fix E :: "'a bridge" and issued_at deadline tried f t y
  assume IH: "\<And>E issued_at deadline tried f t y. loop E issued_at deadline tried f t = Some y \<Longrightarrow> asked E f (fst (snd y))"
    and turn: "(let left = since deadline (br_instant E t)
      in if left < secs 1 then Some (None, f, t + 1)
         else (case await_otp E (await_request f (issued_at - FORWARD_SLACK_SECS)
                 (min (left div secs 1) AWAIT_STEP_SECS)) (fc_sent f) of
             (Inr (Some sealed), sent) \<Rightarrow>
               (case codes_open E f sealed of
                  Some code \<Rightarrow>
                    if code \<notin> set tried then Some (Some code, f\<lparr>fc_sent := sent\<rparr>, t + 1)
                    else loop E issued_at deadline tried (f\<lparr>fc_sent := sent\<rparr>) (t + 1)
                | None \<Rightarrow> loop E issued_at deadline tried (f\<lparr>fc_sent := sent\<rparr>) (t + 1))
           | (Inr None, sent) \<Rightarrow> loop E issued_at deadline tried (f\<lparr>fc_sent := sent\<rparr>) (t + 1)
           | (Inl NoMailbox, sent) \<Rightarrow> Some (None, f\<lparr>fc_sent := sent, fc_no_mailbox := True\<rparr>, t + 1)
           | (Inl (EdgeUnavailable _), sent) \<Rightarrow>
               loop E issued_at deadline tried (f\<lparr>fc_sent := sent\<rparr>) (t + 1))) = Some y"
  let ?left = "since deadline (br_instant E t)"
  let ?a = "await_request f (issued_at - FORWARD_SLACK_SECS) (min (?left div secs 1) AWAIT_STEP_SECS)"
  obtain r sent where w: "await_otp E ?a (fc_sent f) = (r, sent)" by (cases "await_otp E ?a (fc_sent f)")
  have a: "asked E f (f\<lparr>fc_sent := sent\<rparr>)" "asked E f (f\<lparr>fc_sent := sent, fc_no_mailbox := True\<rparr>)"
    by (rule await_otp_asks [OF w], simp)+
  have go: "asked E f (fst (snd y))" if "loop E issued_at deadline tried (f\<lparr>fc_sent := sent\<rparr>) (t + 1) = Some y"
    using asked_trans [OF a(1) IH [OF that]] .
  show "asked E f (fst (snd y))"
    using turn a go w
    by (auto simp: Let_def split: if_splits sum.splits option.splits EdgeError.splits)
qed

lemma forwarded_next_asked:
  "forwarded_next E f t issued_at remaining tried = Some (code, f', n) \<Longrightarrow> asked E f f'"
  using codes_loop_asked by (fastforce simp: forwarded_next_def)

text \<open>A source of codes keeps what each asking of it keeps.\<close>

lemma forwarded_loop_source:
  assumes "forwarded_loop W M next_code message issued_at deadline tried s c = Some y"
    and "\<And>s t i r used code s' n. next_code s t i r used = Some (code, s', n) \<Longrightarrow> R s s'"
    and "\<And>s. R s s" and "\<And>s1 s2 s3. R s1 s2 \<Longrightarrow> R s2 s3 \<Longrightarrow> R s1 s3"
  shows "R s (fst (snd y))"
proof -
  have "(\<forall>s t i r used code s' n. next_code s t i r used = Some (code, s', n) \<longrightarrow> R s s') \<longrightarrow> R s (fst (snd y))"
  proof (rule forwarded_loop.raw_induct [where P = "\<lambda>W M next_code message issued_at deadline tried s c y.
      (\<forall>s t i r used code s' n. next_code s t i r used = Some (code, s', n) \<longrightarrow> R s s') \<longrightarrow> R s (fst (snd y))", OF _ assms(1)],
      intro impI)
    fix loop W M next_code message issued_at deadline tried s c y
    assume IH: "\<And>W M next_code message issued_at deadline tried s c y.
          loop W M next_code message issued_at deadline tried s c = Some y \<Longrightarrow>
          (\<forall>s t i r used code s' n. next_code s t i r used = Some (code, s', n) \<longrightarrow> R s s') \<longrightarrow> R s (fst (snd y))"
      and turn: "(case read_instant M c of (now, c) \<Rightarrow>
          let remaining = since deadline now
          in if remaining = 0 then Some (Inl (OTPRequired message issued_at), s, c)
             else (case next_code s (vc_ticks c) issued_at remaining tried of
                 None \<Rightarrow> None
               | Some (None, s, n) \<Rightarrow> Some (Inl (OTPRequired message issued_at), s, readings n c)
               | Some (Some code, s, n) \<Rightarrow>
                   (case submit_security_otp W code (readings n c) of
                      (Inr _, c) \<Rightarrow> Some (Inr (), s, c)
                    | (Inl (AuthenticationFailed _), c) \<Rightarrow>
                        loop W M next_code message issued_at deadline (tried @ [code]) s c
                    | (Inl e, c) \<Rightarrow> Some (Inl e, s, c)))) = Some y"
      and keep: "\<forall>s t i r used code s' n. next_code s t i r used = Some (code, s', n) \<longrightarrow> R s s'"
    let ?c = "c\<lparr>vc_ticks := vc_ticks c + 1\<rparr>" and ?left = "since deadline (M (vc_ticks c))"
    show "R s (fst (snd y))"
    proof (cases "?left = 0")
      case True
      then show ?thesis using turn assms(3) by auto
    next
      case time: False
      obtain found s1 k where f: "next_code s (vc_ticks ?c) issued_at ?left tried = Some (found, s1, k)"
        using turn time by (auto split: option.splits)
      then have s1: "R s s1" using keep by blast
      show ?thesis
      proof (cases found)
        case None
        then show ?thesis using turn time f s1 by auto
      next
        case (Some code)
        obtain r1 c1 where sb: "submit_security_otp W code (readings k ?c) = (r1, c1)"
          by (cases "submit_security_otp W code (readings k ?c)")
        show ?thesis
        proof (cases "\<exists>m. r1 = Inl (AuthenticationFailed m)")
          case True
          then have "loop W M next_code message issued_at deadline (tried @ [code]) s1 c1 = Some y"
            using turn time f Some sb by auto
          from IH [OF this] keep s1 show ?thesis using assms(4) by blast
        next
          case False
          then have "y = (r1, s1, c1)" using turn time f Some sb by (auto split: sum.splits VtopError.splits)
          then show ?thesis using s1 by simp
        qed
      qed
    qed
  qed
  then show ?thesis using assms(2) by blast
qed

lemma CoreLogin_source:
  assumes "CoreLogin_login E next_code s username password = Some (result, s', sent)"
    and "\<And>s t i r used code s' n. next_code s t i r used = Some (code, s', n) \<Longrightarrow> R s s'"
    and "\<And>s. R s s" and "\<And>s1 s2 s3. R s1 s2 \<Longrightarrow> R s2 s3 \<Longrightarrow> R s1 s3"
  shows "R s s'"
proof -
  have "login_with_otp_from W M next_code wait s c = Some (r, s', c') \<Longrightarrow> R s s'" for W M wait c r c'
    using forwarded_loop_source [of W M next_code _ _ _ "[]" s _ "(r, s', c')" R] assms(2-4)
    by (fastforce simp: login_with_otp_from_def split: prod.splits sum.splits VtopError.splits)
  then show ?thesis using assms(1,3) by (auto simp: CoreLogin_login_def split: sum.splits option.splits)
qed

subsection \<open>What Google is asked\<close>

definition refresh_form :: "GmailGrant \<Rightarrow> (string \<times> string) list" where
  "refresh_form grant = [(''grant_type'', ''refresh_token''), (''refresh_token'', gg_refresh_token grant),
     (''client_id'', gg_client_id grant)] @
     (case gg_client_secret grant of Some secret \<Rightarrow> [(''client_secret'', secret)] | None \<Rightarrow> [])"

lemma bridge_google:
  "br_config (E\<lparr>br_google := g\<rparr>) = br_config E" "br_web (E\<lparr>br_google := g\<rparr>) = br_web E"
  "br_base_url (E\<lparr>br_google := g\<rparr>) = br_base_url E" "br_box (E\<lparr>br_google := g\<rparr>) = br_box E"
  "br_sha (E\<lparr>br_google := g\<rparr>) = br_sha E" "br_edge (E\<lparr>br_google := g\<rparr>) = br_edge E"
  "br_instant (E\<lparr>br_google := g\<rparr>) = br_instant E" "br_gmail (E\<lparr>br_google := g\<rparr>) = br_gmail E"
  "br_google (E\<lparr>br_google := g\<rparr>) = g"
  by simp_all

lemma refresh_google:
  "g (refresh_form grant) = br_google E (refresh_form grant) \<Longrightarrow>
     gmail_refresh (E\<lparr>br_google := g\<rparr>) now grant = gmail_refresh E now grant"
  unfolding gmail_refresh_def Let_def bridge_google refresh_form_def [symmetric] by simp

lemma await_google [simp]: "await_otp (E\<lparr>br_google := g\<rparr>) = await_otp E"
  unfolding await_otp_def edge_post_def edge_send_def fun_eq_iff bridge_google by simp

lemma open_google [simp]: "codes_open (E\<lparr>br_google := g\<rparr>) = codes_open E"
  unfolding codes_open_def fun_eq_iff bridge_google by simp

lemma codes_loop_google_Some:
  assumes "codes_loop E issued_at deadline tried f t = Some y"
  shows "codes_loop (E\<lparr>br_google := g\<rparr>) issued_at deadline tried f t = Some y"
proof (rule codes_loop.raw_induct [where P = "\<lambda>E issued_at deadline tried f t y.
    codes_loop (E\<lparr>br_google := g\<rparr>) issued_at deadline tried f t = Some y", OF _ assms])
  fix loop :: "'a bridge \<Rightarrow> nat \<Rightarrow> instant \<Rightarrow> string list \<Rightarrow> ForwardedCodes \<Rightarrow> nat \<Rightarrow> (string option \<times> ForwardedCodes \<times> nat) option"
  fix E :: "'a bridge" and issued_at deadline tried f t y
  assume IH: "\<And>E issued_at deadline tried f t y. loop E issued_at deadline tried f t = Some y \<Longrightarrow>
      codes_loop (E\<lparr>br_google := g\<rparr>) issued_at deadline tried f t = Some y"
    and turn: "(let left = since deadline (br_instant E t)
      in if left < secs 1 then Some (None, f, t + 1)
         else (case await_otp E (await_request f (issued_at - FORWARD_SLACK_SECS)
                 (min (left div secs 1) AWAIT_STEP_SECS)) (fc_sent f) of
             (Inr (Some sealed), sent) \<Rightarrow>
               (case codes_open E f sealed of
                  Some code \<Rightarrow>
                    if code \<notin> set tried then Some (Some code, f\<lparr>fc_sent := sent\<rparr>, t + 1)
                    else loop E issued_at deadline tried (f\<lparr>fc_sent := sent\<rparr>) (t + 1)
                | None \<Rightarrow> loop E issued_at deadline tried (f\<lparr>fc_sent := sent\<rparr>) (t + 1))
           | (Inr None, sent) \<Rightarrow> loop E issued_at deadline tried (f\<lparr>fc_sent := sent\<rparr>) (t + 1)
           | (Inl NoMailbox, sent) \<Rightarrow> Some (None, f\<lparr>fc_sent := sent, fc_no_mailbox := True\<rparr>, t + 1)
           | (Inl (EdgeUnavailable _), sent) \<Rightarrow>
               loop E issued_at deadline tried (f\<lparr>fc_sent := sent\<rparr>) (t + 1))) = Some y"
  show "codes_loop (E\<lparr>br_google := g\<rparr>) issued_at deadline tried f t = Some y"
    using turn
    by (subst codes_loop.simps) (auto simp: Let_def dest!: IH split: if_splits sum.splits prod.splits option.splits EdgeError.splits)
qed

lemma codes_loop_google: "codes_loop (E\<lparr>br_google := g\<rparr>) = codes_loop E"
proof (intro ext)
  fix issued_at deadline tried f t
  show "codes_loop (E\<lparr>br_google := g\<rparr>) issued_at deadline tried f t = codes_loop E issued_at deadline tried f t"
    using codes_loop_google_Some [of E issued_at deadline tried f t _ g]
      codes_loop_google_Some [of "E\<lparr>br_google := g\<rparr>" issued_at deadline tried f t _ "br_google E"]
    by (cases "codes_loop E issued_at deadline tried f t";
        cases "codes_loop (E\<lparr>br_google := g\<rparr>) issued_at deadline tried f t") auto
qed

lemma engine_sign_in_google:
  assumes "\<forall>vault grant. open_account E account vault_of sealed_vault = Inr vault \<longrightarrow>
      Option.bind (va_gmail vault) usable = Some grant \<longrightarrow> g (refresh_form grant) = br_google E (refresh_form grant)"
  shows "engine_sign_in (E\<lparr>br_google := g\<rparr>) now later secret iv account sealed_vault =
    engine_sign_in E now later secret iv account sealed_vault"
proof -
  let ?E = "E\<lparr>br_google := g\<rparr>"
  have same: "CoreLogin_login ?E next_code s u p = CoreLogin_login E next_code s u p" for next_code :: "'s next_code" and s u p
    unfolding CoreLogin_login_def bridge_google ..
  have next': "forwarded_next ?E = forwarded_next E"
    unfolding forwarded_next_def codes_loop_google bridge_google ..
  have out: "signed_in_outcome ?E = signed_in_outcome E" "codes_register ?E = codes_register E"
    "ForwardedCodes_new ?E = ForwardedCodes_new E" "br_owner_hash ?E = br_owner_hash E"
    unfolding signed_in_outcome_def seal_account_def br_owner_hash_def codes_register_def await_google
        ForwardedCodes_new_def bridge_google fun_eq_iff by simp_all
  have acc: "open_account ?E account vault_of = open_account E account vault_of"
    "seal_account ?E iv account vault_json = seal_account E iv account vault_json"
    unfolding seal_account_def open_account_def bridge_google fun_eq_iff by simp_all
  have gm: "sign_in_with_gmail ?E later iv account vault grant = sign_in_with_gmail E later iv account vault grant"
    if "open_account E account vault_of sealed_vault = Inr vault" "Option.bind (va_gmail vault) usable = Some grant" for vault grant
    using refresh_google [of g grant E later] assms that
    unfolding sign_in_with_gmail_def out acc same bridge_google by simp
  show ?thesis
    unfolding engine_sign_in_def out acc same next' bridge_google
    using gm by (auto split: sum.split prod.split EdgeError.split option.split)
qed

end
