(* ===== verification/BridgeClaims.thy ===== *)
theory BridgeClaims
  imports BridgeSent SealClaims
begin

section \<open>The engine: its claims\<close>

text \<open>
  The shared secret, whose session a session is, what a sign-in with saved credentials ends in and
  that it is reported, and where its codes come from.
\<close>

subsection \<open>An engine to run\<close>

definition toy_vault :: Vault where
  "toy_vault = \<lparr>va_username = ''A'', va_password = ''p'', va_gmail = None\<rparr>"

text \<open>JSON of one value: whatever is printed reads as the saved credentials.\<close>

definition toy_json :: json_lib where
  "toy_json = \<lparr>js_read = (\<lambda>_. Some (vault_json toy_vault)), js_print = (\<lambda>_. ''v'')\<rparr>"

definition toy_bridge :: "(EdgeRequest list \<Rightarrow> string + EdgeReply) \<Rightarrow> unit bridge" where
  "toy_bridge edge = \<lparr>br_config = \<lparr>eg_vault_key = replicate 32 7, eg_edge_url = ''e'', eg_mail_relay_secret = ''secret'',
       eg_otp_wait = secs 45, eg_port = 8080\<rparr>,
     br_web = (toy_web (\<lambda>_. Inr toy_page))\<lparr>wb_json := toy_json\<rparr>, br_base_url = ''v'', br_box = plain_box,
     br_sha = (\<lambda>b. b), br_edge = edge, br_instant = (\<lambda>n. n), br_google = (\<lambda>_. Inl []), br_gmail = toy_gmail\<rparr>"

abbreviation page_web :: "unit web" where
  "page_web \<equiv> (toy_web (\<lambda>_. Inr toy_page))\<lparr>wb_json := toy_json\<rparr>"

lemma toy_bridge_simps [simp]:
  "br_web (toy_bridge edge) = page_web" "br_base_url (toy_bridge edge) = ''v''" "br_edge (toy_bridge edge) = edge"
  "br_instant (toy_bridge edge) = (\<lambda>n. n)" "br_gmail (toy_bridge edge) = toy_gmail"
  by (simp_all add: toy_bridge_def)

definition toy_fetch :: "(unit, unit) fetch_lib" where
  "toy_fetch = \<lparr>fl_pages = \<lparr>pl_dom = toy_dom, pl_base64 = hex\<rparr>, fl_parts = sample_parts, fl_brotli = (\<lambda>_ b. Some b)\<rparr>"

abbreviation toy_draws :: "unit draws" where
  "toy_draws \<equiv> \<lparr>dw_iv = replicate 12 0, dw_stopped = None, dw_late = None\<rparr>"

subsection \<open>The secret\<close>

lemma wrong_secret:
  "token_hash H (presented auth) \<noteq> token_hash H (eg_mail_relay_secret config) \<Longrightarrow>
   require_secret H config auth = Inl (api_error 401 ''unauthorized'' ''The engine secret is required.'')"
  by (auto simp: require_secret_def hashes_equal_iff)

lemma router_healthz: "map_of routes_of_router path = Some (b, Healthz) \<Longrightarrow> path = ''/healthz''"
  by (simp add: routes_of_router_def split: if_splits)

lemma route_refused: "require_secret (br_sha E) (br_config E) auth = Inl e \<Longrightarrow> route E auth bad rd body f = (Inl e, [])"
  by (simp add: route_def)

lemma serve_refused:
  assumes no: "require_secret (br_sha E) (br_config E) (eq_auth rq) = Inl e" and "eq_path rq \<noteq> ''/healthz''"
  shows "serve E F w rq = as_served (case map_of routes_of_router (eq_path rq) of
     None \<Rightarrow> (Inr (StatusReply 404), [])
   | Some (p, _) \<Rightarrow> if p \<noteq> eq_post rq then (Inr (StatusReply 405), []) else (Inl e, []))"
proof (cases "map_of routes_of_router (eq_path rq)")
  case None
  then show ?thesis by (simp add: serve_def)
next
  case (Some pr)
  obtain p x where pr: "pr = (p, x)" by (cases pr)
  have "x \<noteq> Healthz" using Some pr assms(2) router_healthz by blast
  then show ?thesis
    using Some pr
    by (cases x) (simp_all add: serve_def as_json_def owner_check_def engine_session_def engine_seal_def
        udp_keys_def engine_login_def engine_fetch_def vtop_login_def vtop_otp_def vtop_resend_def
        route_refused [OF no] no Let_def)
qed

text \<open>C19: A request without the shared secret, whatever its route and body, is answered 401 (or 404 or 405
  where there is no such route), asks VTOP nothing and starts no sign-in; and its body has no part in
  the answer.  Only the health check answers without the secret.\<close>

theorem secret_gate:
  assumes "token_hash (br_sha E) (presented (eq_auth rq)) \<noteq> token_hash (br_sha E) (eg_mail_relay_secret (br_config E))"
    and "eq_path rq \<noteq> ''/healthz''"
  shows "sq_vtop (serve E F w rq) = [] \<and> sq_job (serve E F w rq) = None \<and>
    fst (sq_reply (serve E F w rq)) \<in> {401, 404, 405} \<and> serve E F w' (rq\<lparr>eq_body := b, eq_is_json := j\<rparr>) = serve E F w rq"
  using wrong_secret [OF assms(1)] assms(2)
  by (simp add: serve_refused as_served_def api_error_def split: option.split)

theorem secret_gate_witness:
  "fst (sq_reply (serve (toy_bridge (\<lambda>_. Inl [])) toy_fetch toy_draws
     \<lparr>eq_post = True, eq_path = SEAL, eq_auth = Some ''Bearer guess'', eq_is_json = True, eq_body = []\<rparr>)) \<in> {401, 404, 405}"
proof -
  let ?rq = "\<lparr>eq_post = True, eq_path = SEAL, eq_auth = Some ''Bearer guess'', eq_is_json = True, eq_body = []\<rparr>"
  have "hex (as_bytes (presented (Some ''Bearer guess''))) \<noteq> hex (as_bytes ''secret'')" by code_simp
  then have "token_hash (br_sha (toy_bridge (\<lambda>_. Inl []))) (presented (eq_auth ?rq)) \<noteq>
      token_hash (br_sha (toy_bridge (\<lambda>_. Inl []))) (eg_mail_relay_secret (br_config (toy_bridge (\<lambda>_. Inl []))))"
    by (simp add: token_hash_def toy_bridge_def)
  moreover have "eq_path ?rq \<noteq> ''/healthz''" by (simp add: SEAL_def)
  ultimately show ?thesis using secret_gate by blast
qed

subsection \<open>Whose session it is\<close>




lemma toy_secret: "require_secret (br_sha (toy_bridge edge)) (br_config (toy_bridge edge)) (Some ''Bearer secret'') = Inr ()"
proof -
  have "presented (Some ''Bearer secret'') = ''secret''" by code_simp
  then show ?thesis by (simp add: require_secret_def hashes_equal_iff toy_bridge_def)
qed



subsection \<open>Signing in with saved credentials\<close>

text \<open>The first thing a sign-in asks the edge, and what comes back when there is no mailbox.\<close>

definition register_rq :: "'j bridge \<Rightarrow> nat \<Rightarrow> bytes \<Rightarrow> string \<Rightarrow> EdgeRequest" where
  "register_rq E now secret account = await_rq E (await_request
     (ForwardedCodes_new E (br_owner_hash E account) secret) (now - FORWARD_SLACK_SECS) 0)"

lemma codes_register_sent:
  assumes "codes_register E now (ForwardedCodes_new E (br_owner_hash E account) secret) = (r, codes)"
  shows "fc_sent codes = [register_rq E now secret account]"
    "r = Inl NoMailbox \<longleftrightarrow> (\<exists>reply. br_edge E [register_rq E now secret account] = Inr reply \<and> ey_status reply = 404)"
proof -
  let ?f = "ForwardedCodes_new E (br_owner_hash E account) secret"
  let ?a = "await_request ?f (now - FORWARD_SLACK_SECS) 0"
  have f: "fc_sent ?f = []" by (simp add: ForwardedCodes_new_def generate_keypair_def)
  obtain r0 sent where w: "await_otp E ?a [] = (r0, sent)" by (cases "await_otp E ?a []")
  then have s: "sent = [register_rq E now secret account]" using await_otp_sent [OF w] by (simp add: register_rq_def)
  have "r = and_then r0 (\<lambda>_. Inr ())" "fc_sent codes = sent" using assms w f by (auto simp: codes_register_def)
  moreover from this have "r = Inl NoMailbox \<longleftrightarrow> r0 = Inl NoMailbox" by (cases r0) auto
  ultimately show "fc_sent codes = [register_rq E now secret account]"
    "r = Inl NoMailbox \<longleftrightarrow> (\<exists>reply. br_edge E [register_rq E now secret account] = Inr reply \<and> ey_status reply = 404)"
    using await_otp_answer(2) [OF w] s by auto
qed

text \<open>What an outcome may hold.\<close>

definition outcome_served ::
  "'j bridge \<Rightarrow> bytes \<Rightarrow> string \<Rightarrow> HopRequest list \<Rightarrow> LoginOutcome \<Rightarrow> bool" where
  "outcome_served E iv account sent outcome \<longleftrightarrow>
     (\<forall>cookies sealed csrf. outcome = OutcomeOk cookies sealed csrf \<longrightarrow> (\<exists>session m.
        st_registration_number session = Some m \<and> br_account E m = account \<and> page_number (br_web E) sent m \<and>
        cookies = st_cookies session \<and> csrf = st_csrf_token session \<and>
        sealed = seal_account E iv account session_state_json session)) \<and>
     (\<forall>h \<in> set sent. home (br_web E) (br_base_url E) h)"

lemma served_okD:
  assumes "outcome_served E iv account sent (OutcomeOk cookies sealed csrf)"
  shows "\<exists>(session :: SessionState) m. st_registration_number session = Some m \<and> page_number (br_web E) sent m"
  using assms [unfolded outcome_served_def, THEN conjunct1, rule_format, OF refl] by blast

lemma signed_in_served:
  assumes "CoreLogin_login E next_code s username password = Some (r, s', sent)"
  shows "outcome_served E iv account sent (signed_in_outcome E iv account r)"
  using CoreLogin_served [OF assms]
  by (cases r) (auto simp: outcome_served_def signed_in_outcome_def split: if_splits LoginError.splits)

lemma signed_in_not_revoked [simp]: "signed_in_outcome E iv account r \<noteq> GmailRevoked v"
  by (auto simp: signed_in_outcome_def split: sum.splits if_splits LoginError.splits)

lemma unserved [simp]:
  "outcome_served E iv account [] VaultUnusable" "outcome_served E iv account [] ForwardingRequired"
  "outcome_served E iv account [] (GmailRevoked v)" "outcome_served E iv account [] (OutcomeFailed reason)"
  by (simp_all add: outcome_served_def)

lemma gmail_sign_in_served:
  assumes "sign_in_with_gmail E now iv account vault grant = Some (outcome, sent, tidied)"
  shows "outcome_served E iv account sent outcome \<and>
    (\<forall>v. outcome = GmailRevoked v \<longrightarrow> sent = [] \<and> v = seal_account E iv account vault_json (vault\<lparr>va_gmail := None\<rparr>))"
proof (cases "gmail_refresh E now grant")
  case (Inl e)
  then show ?thesis using assms by (cases e) (auto simp: sign_in_with_gmail_def)
next
  case (Inr token)
  then obtain r codes where "CoreLogin_login E (gmail_next (br_gmail E)) (GmailCodes_new token (gg_delete_after_reading grant))
      (va_username vault) (va_password vault) = Some (r, codes, sent)" "outcome = signed_in_outcome E iv account r"
    using assms by (auto simp: sign_in_with_gmail_def split: option.splits)
  then show ?thesis using signed_in_served by simp
qed

lemma codes_register_asked: "codes_register E now f = (r, f') \<Longrightarrow> asked E f f'"
  using await_otp_asks [of E f "now - FORWARD_SLACK_SECS" 0]
  by (auto simp: codes_register_def split: prod.splits)

text \<open>What a sign-in ends in, and what it asked the edge.\<close>

lemma sign_in_ends_in:
  assumes "engine_sign_in E now later secret iv account sealed_vault = Some (outcome, tr)"
  shows "outcome_served E iv account (tr_vtop tr) outcome \<and>
    (\<forall>v. outcome = GmailRevoked v \<longrightarrow> tr_vtop tr = [] \<and> (\<exists>vault. open_account E account vault_of sealed_vault = Inr vault \<and>
       v = seal_account E iv account vault_json (vault\<lparr>va_gmail := None\<rparr>))) \<and>
    (\<forall>e. open_account E account vault_of sealed_vault = Inl e \<longrightarrow>
       outcome = VaultUnusable \<and> tr_vtop tr = [] \<and> tr_edge tr = []) \<and>
    (\<forall>vault reply. open_account E account vault_of sealed_vault = Inr vault \<longrightarrow>
       br_edge E [register_rq E now secret account] = Inr reply \<longrightarrow> ey_status reply = 404 \<longrightarrow>
       Option.bind (va_gmail vault) usable = None \<longrightarrow> outcome = ForwardingRequired \<and> tr_vtop tr = [])"
proof (cases "open_account E account vault_of sealed_vault")
  case (Inl e)
  then show ?thesis using assms by (auto simp: engine_sign_in_def)
next
  case (Inr vault)
  let ?new = "ForwardedCodes_new E (br_owner_hash E account) secret"
  obtain r codes where reg: "codes_register E now ?new = (r, codes)" by (cases "codes_register E now ?new")
  note register = codes_register_sent [OF reg]
  show ?thesis
  proof (cases "r = Inl NoMailbox")
    case True
    then show ?thesis
      using assms Inr reg gmail_sign_in_served
      by (cases "Option.bind (va_gmail vault) usable") (fastforce simp: engine_sign_in_def)+
  next
    case False
    then obtain result codes' where l: "CoreLogin_login E (forwarded_next E) codes (va_username vault) (va_password vault) =
        Some (result, codes', tr_vtop tr)"
      and o: "outcome = (if (case result of Inl (LoginFailed _) \<Rightarrow> fc_no_mailbox codes' | _ \<Rightarrow> False)
        then ForwardingRequired else signed_in_outcome E iv account result)"
      using assms Inr reg by (auto simp: engine_sign_in_def split: sum.splits EdgeError.splits option.splits)
    have "outcome_served E iv account (tr_vtop tr) (signed_in_outcome E iv account result)" by (rule signed_in_served [OF l])
    with o have "outcome_served E iv account (tr_vtop tr) outcome" by (auto simp: outcome_served_def)
    moreover have "outcome \<noteq> GmailRevoked v" for v
      using o by simp
    ultimately show ?thesis using Inr False register(2) by auto
  qed
qed

lemma sign_in_edge:
  assumes "engine_sign_in E now later secret iv account sealed_vault = Some (outcome, tr)" and "rq \<in> set (tr_edge tr)"
  shows "er_post rq \<and> er_url rq = eg_edge_url (br_config E) @ OTP_AWAIT \<and>
    er_bearer rq = eg_mail_relay_secret (br_config E) \<and>
    (\<exists>since_secs wait. er_body rq = Some (otp_await_json \<lparr>oa_owner_hash = br_owner_hash E account,
       oa_public_key = snd (generate_keypair (br_box E) secret), oa_since = of_nat since_secs, oa_wait_secs = of_nat wait\<rparr>))"
proof -
  let ?new = "ForwardedCodes_new E (br_owner_hash E account) secret"
  have new: "fc_sent ?new = []" "fc_owner_hash ?new = br_owner_hash E account"
    "fc_public_key ?new = snd (generate_keypair (br_box E) secret)"
    by (simp_all add: ForwardedCodes_new_def split: prod.split)
  obtain r codes where reg: "codes_register E now ?new = (r, codes)" by (cases "codes_register E now ?new")
  have a: "asked E ?new codes" by (rule codes_register_asked [OF reg])
  have l: "asked E ?new codes'" if "CoreLogin_login E (forwarded_next E) codes u p = Some (result, codes', sent)"
    for u p result codes' sent
    by (rule asked_trans [OF a CoreLogin_source [OF that, of "asked E"]])
      (erule forwarded_next_asked, rule asked_refl, erule (1) asked_trans)
  obtain vault where "open_account E account vault_of sealed_vault = Inr vault"
    using assms by (cases "open_account E account vault_of sealed_vault") (auto simp: engine_sign_in_def)
  then obtain f where "tr_edge tr = fc_sent f" "asked E ?new f"
    using assms(1) reg a l by (auto simp: engine_sign_in_def split: sum.splits EdgeError.splits option.splits)
  then have "asks E ?new rq" using assms(2) new(1) by (auto simp: asked_def)
  then show ?thesis unfolding asks_def await_request_def new by blast
qed

text \<open>C18: A sign-in with saved credentials hands out a session only for the account it was asked for: the
  registration number of the session is that account's, was on a page VTOP served in this very
  sign-in, and the session is sealed for that account.  Whatever is sent to VTOP with a body, so the
  password too, goes to VTOP's own address.  Every request to the edge is one for the codes of this
  sign-in, under the shared secret: the hash of the owner, the public key drawn for it and two times,
  nothing of the saved credentials.  Of Google's answers to a token request only one has a part in
  the sign-in, the one to the form with the saved grant, and none when no grant is saved.
  Credentials that do not open reach nobody; and when the edge has no mailbox for the student and
  no Gmail access is saved, VTOP is not asked at all.  Gmail access that Google has revoked is
  dropped, and only that, before VTOP is asked.\<close>

theorem sign_in_outcome:
  assumes "engine_sign_in E now later secret iv account sealed_vault = Some (outcome, tr)"
  shows "outcome_served E iv account (tr_vtop tr) outcome \<and>
    (\<forall>rq \<in> set (tr_edge tr). er_post rq \<and> er_url rq = eg_edge_url (br_config E) @ OTP_AWAIT \<and>
       er_bearer rq = eg_mail_relay_secret (br_config E) \<and>
       (\<exists>since_secs wait. er_body rq = Some (otp_await_json \<lparr>oa_owner_hash = br_owner_hash E account,
          oa_public_key = snd (generate_keypair (br_box E) secret), oa_since = of_nat since_secs,
          oa_wait_secs = of_nat wait\<rparr>))) \<and>
    (\<forall>g. (\<forall>vault grant. open_account E account vault_of sealed_vault = Inr vault \<longrightarrow>
         Option.bind (va_gmail vault) usable = Some grant \<longrightarrow> g (refresh_form grant) = br_google E (refresh_form grant)) \<longrightarrow>
       engine_sign_in (E\<lparr>br_google := g\<rparr>) now later secret iv account sealed_vault = Some (outcome, tr)) \<and>
    (\<forall>v. outcome = GmailRevoked v \<longrightarrow> tr_vtop tr = [] \<and> (\<exists>vault. open_account E account vault_of sealed_vault = Inr vault \<and>
       v = seal_account E iv account vault_json (vault\<lparr>va_gmail := None\<rparr>))) \<and>
    (\<forall>e. open_account E account vault_of sealed_vault = Inl e \<longrightarrow>
       outcome = VaultUnusable \<and> tr_vtop tr = [] \<and> tr_edge tr = []) \<and>
    (\<forall>vault reply. open_account E account vault_of sealed_vault = Inr vault \<longrightarrow>
       br_edge E [register_rq E now secret account] = Inr reply \<longrightarrow> ey_status reply = 404 \<longrightarrow>
       Option.bind (va_gmail vault) usable = None \<longrightarrow> outcome = ForwardingRequired \<and> tr_vtop tr = [])"
  using sign_in_edge [OF assms] engine_sign_in_google [of E account sealed_vault _ now later secret iv]
    sign_in_ends_in [OF assms] assms by simp

lemma toy_open:
  "open_account (toy_bridge edge) account vault_of (seal_account (toy_bridge edge) (replicate 12 0) account vault_json toy_vault) =
     Inr toy_vault"
proof -
  have ok: "aead_ok (bc_gcm plain_box)" "bc_decode plain_box (bc_encode plain_box b) = Some b" for b
    using plain_box_ok by (auto simp: box_ok_def)
  note opens = vault_open_eq [OF ok(1) plain_aead_strict [folded plain_box_simps]]
  have "is_str ''v''" by (rule is_str_ascii) (simp add: char_code_def)
  moreover have "vault_open plain_box key (accounts_aad account) (vault_seal plain_box key (replicate 12 0) (accounts_aad account) b) = Inr b"
    for key b unfolding opens by (auto simp: vault_seal_def ok(2) NONCE_LEN_def intro!: exI [of _ "replicate 12 0"])
  ultimately show ?thesis
    by (simp add: open_account_def seal_account_def open_json_def seal_json_def toy_bridge_def toy_json_def vault_rt)
qed

lemma toy_sign_in:
  "\<exists>c. login page_web (with_credentials page_web ''v'' ''A'' ''p'') = (Inr (), c) \<and>
     st_registration_number (session_state page_web c) = Some ''22BCE0001''"
proof -
  have "case login page_web (with_credentials page_web ''v'' ''A'' ''p'') of (r, c) \<Rightarrow> r = Inr () \<and>
      st_registration_number (session_state page_web c) = Some ''22BCE0001''"
    by code_simp
  then show ?thesis by (auto split: prod.splits)
qed

lemma toy_core_login:
  "\<exists>session sent. CoreLogin_login (toy_bridge edge) next_code s ''A'' ''p'' = Some (Inr session, s, sent) \<and>
     st_registration_number session = Some ''22BCE0001''"
proof -
  have "Username_parse ''A'' = Inr ''A''" "Password_parse ''p'' = Inr ''p''" by code_simp+
  then show ?thesis using toy_sign_in by (auto simp: CoreLogin_login_def login_with_otp_from_def)
qed

theorem sign_in_outcome_witness:
  "\<exists>cookies sealed csrf tr. engine_sign_in (toy_bridge (\<lambda>_. Inl [])) 1000 1000 (replicate 32 1) (replicate 12 0) ''22BCE0001''
     (seal_account (toy_bridge (\<lambda>_. Inl [])) (replicate 12 0) ''22BCE0001'' vault_json toy_vault) =
       Some (OutcomeOk cookies sealed csrf, tr) \<and>
     (\<exists>(session :: SessionState) m. st_registration_number session = Some m \<and> page_number page_web (tr_vtop tr) m)"
proof -
  let ?E = "toy_bridge (\<lambda>_. Inl [])"
  let ?sealed = "seal_account ?E (replicate 12 0) ''22BCE0001'' vault_json toy_vault"
  let ?new = "ForwardedCodes_new ?E (br_owner_hash ?E ''22BCE0001'') (replicate 32 1)"
  obtain r codes where reg: "codes_register ?E 1000 ?new = (r, codes)" by (cases "codes_register ?E 1000 ?new")
  have r: "r \<noteq> Inl NoMailbox" using codes_register_sent(2) [OF reg] by simp
  obtain session sent where l: "CoreLogin_login ?E (forwarded_next ?E) codes ''A'' ''p'' = Some (Inr session, codes, sent)"
    and n: "st_registration_number session = Some ''22BCE0001''"
    using toy_core_login [of "\<lambda>_. Inl []" "forwarded_next ?E" codes] by blast
  have "br_account ?E ''22BCE0001'' = ''22BCE0001''" by simp code_simp
  then have o: "signed_in_outcome ?E (replicate 12 0) ''22BCE0001'' (Inr session) = OutcomeOk (st_cookies session)
      (seal_account ?E (replicate 12 0) ''22BCE0001'' session_state_json session) (st_csrf_token session)"
    using n by (simp add: signed_in_outcome_def)
  have "engine_sign_in ?E 1000 1000 (replicate 32 1) (replicate 12 0) ''22BCE0001'' ?sealed = Some (OutcomeOk (st_cookies session)
      (seal_account ?E (replicate 12 0) ''22BCE0001'' session_state_json session) (st_csrf_token session),
      \<lparr>tr_edge = fc_sent codes, tr_vtop = sent, tr_tidied = None\<rparr>)"
    using toy_open reg r l o by (auto simp: engine_sign_in_def toy_vault_def split: sum.split EdgeError.split)
  moreover from served_okD [OF sign_in_outcome [OF this, THEN conjunct1]]
  have "\<exists>(session :: SessionState) m. st_registration_number session = Some m \<and> page_number page_web sent m" by simp
  ultimately show ?thesis by fastforce
qed

subsection \<open>That it ends and is reported\<close>

definition done_rq :: "'j bridge \<Rightarrow> LoginDone \<Rightarrow> EdgeRequest" where
  "done_rq E d = \<lparr>er_post = True, er_url = eg_edge_url (br_config E) @ LOGIN_DONE,
     er_bearer = eg_mail_relay_secret (br_config E), er_body = Some (login_done_json d), er_timeout = secs 40\<rparr>"

definition accepted :: "'j bridge \<Rightarrow> EdgeRequest list \<Rightarrow> bool" where
  "accepted E sent \<longleftrightarrow> (\<exists>reply. br_edge E sent = Inr reply \<and> is_success (ey_status reply))"

lemma login_done_sent:
  assumes "login_done E d sent = (r, sent')"
  shows "sent' = sent @ [done_rq E d]" "r = Inr () \<longleftrightarrow> accepted E sent'"
proof -
  show s: "sent' = sent @ [done_rq E d]"
    using assms by (auto simp: login_done_def edge_post_def edge_send_def done_rq_def)
  have "r = and_then (map_err EdgeUnavailable (br_edge E sent')) (\<lambda>response.
      if is_success (ey_status response) then Inr ()
      else Inl (EdgeUnavailable (''edge answered '' @ wb_status_text (br_web E) (ey_status response))))"
    using assms unfolding s by (simp add: login_done_def edge_post_def edge_send_def done_rq_def)
  then show "r = Inr () \<longleftrightarrow> accepted E sent'"
    by (cases "br_edge E sent'") (auto simp: accepted_def)
qed

lemma report_tries:
  "0 < n \<Longrightarrow> \<exists>k. 0 < k \<and> k \<le> n \<and> report E d n sent = sent @ replicate k (done_rq E d) \<and>
     (k < n \<longrightarrow> accepted E (sent @ replicate k (done_rq E d))) \<and>
     (\<forall>j. 0 < j \<longrightarrow> j < k \<longrightarrow> \<not> accepted E (sent @ replicate j (done_rq E d)))"
proof (induction n arbitrary: sent)
  case (Suc n)
  obtain r sent' where l: "login_done E d sent = (r, sent')" by (cases "login_done E d sent")
  note s = login_done_sent [OF l]
  show ?case
  proof (cases "r = Inr ()")
    case True
    then have "report E d (Suc n) sent = sent'" using l by simp
    then show ?thesis using s True by (intro exI [of _ 1]) auto
  next
    case False
    then have rep: "report E d (Suc n) sent = report E d n sent'" using l by (cases r) auto
    show ?thesis
    proof (cases n)
      case 0
      then show ?thesis using rep s by (intro exI [of _ 1]) auto
    next
      case (Suc n')
      then obtain k where k: "0 < k" "k \<le> n" "report E d n sent' = sent' @ replicate k (done_rq E d)"
        "k < n \<longrightarrow> accepted E (sent' @ replicate k (done_rq E d))"
        "\<forall>j. 0 < j \<longrightarrow> j < k \<longrightarrow> \<not> accepted E (sent' @ replicate j (done_rq E d))"
        using Suc.IH [of sent'] by auto
      have "\<not> accepted E (sent @ replicate j (done_rq E d))" if j0: "0 < j" "j < Suc k" for j
      proof (cases "j = 1")
        case True
        then show ?thesis using s False by simp
      next
        case j: False
        then obtain i where "j = Suc i" "0 < i" "i < k" using j0 by (cases j) auto
        then show ?thesis using k(5) s(1) by auto
      qed
      then show ?thesis using k rep s by (intro exI [of _ "Suc k"]) auto
    qed
  qed
qed simp

lemma sign_in_returns:
  assumes "\<forall>d. \<exists>n. \<forall>m \<ge> n. d \<le> br_instant E m" and "\<forall>d. \<exists>n. \<forall>m \<ge> n. d \<le> gl_instant (br_gmail E) m"
  shows "engine_sign_in E now later secret iv account sealed_vault \<noteq> None"
proof -
  have f: "CoreLogin_login E (forwarded_next E) s u p \<noteq> None" for s u p
    by (rule CoreLogin_returns [OF assms(1) forwarded_next_returns [OF assms(1)]])
  have g: "CoreLogin_login E (gmail_next (br_gmail E)) s u p \<noteq> None" for s u p
    by (rule CoreLogin_returns [OF assms(1) gmail_next_returns [OF assms(2)]])
  have "sign_in_with_gmail E later iv account vault grant \<noteq> None" for vault grant
    using g by (auto simp: sign_in_with_gmail_def simp del: not_None_eq split: sum.split RefreshError.split option.split)
  with f show ?thesis
    by (auto simp: engine_sign_in_def simp del: not_None_eq split: sum.split prod.split EdgeError.split option.split)
qed

text \<open>C26: Every sign-in that is started ends, whatever the edge, VTOP and Google answer, as soon as the clock
  gets past any instant in the end; and its outcome, under the request's own number and account,
  is reported to the edge: once, and again while the edge does not take it, three times at most.\<close>

theorem sign_in_reported:
  assumes "\<forall>d. \<exists>n. \<forall>m \<ge> n. d \<le> br_instant E m" and "\<forall>d. \<exists>n. \<forall>m \<ge> n. d \<le> gl_instant (br_gmail E) m"
  shows "\<exists>d tr earlier k. login_job E now later secret iv start = Some (d, tr) \<and>
    ld_account d = br_account E (ls_account start) \<and> ld_request_id d = ls_request_id start \<and>
    tr_edge tr = earlier @ replicate k (done_rq E d) \<and> 0 < k \<and> k \<le> 3 \<and>
    (k < 3 \<longrightarrow> accepted E (tr_edge tr)) \<and>
    (\<forall>j. 0 < j \<longrightarrow> j < k \<longrightarrow> \<not> accepted E (earlier @ replicate j (done_rq E d)))"
proof -
  let ?account = "br_account E (ls_account start)"
  obtain outcome tr where o: "engine_sign_in E now later secret iv ?account (ls_sealed_vault start) = Some (outcome, tr)"
    using sign_in_returns [OF assms] by fastforce
  define d where "d = \<lparr>ld_account = ?account, ld_request_id = ls_request_id start, ld_outcome = outcome\<rparr>"
  have j: "login_job E now later secret iv start = Some (d, tr\<lparr>tr_edge := report E d 3 (tr_edge tr)\<rparr>)"
    using o by (simp add: login_job_def d_def Let_def)
  from report_tries [of 3 E d "tr_edge tr"] obtain k where k: "0 < k" "k \<le> 3"
    "report E d 3 (tr_edge tr) = tr_edge tr @ replicate k (done_rq E d)"
    "k < 3 \<longrightarrow> accepted E (tr_edge tr @ replicate k (done_rq E d))"
    "\<forall>j. 0 < j \<longrightarrow> j < k \<longrightarrow> \<not> accepted E (tr_edge tr @ replicate j (done_rq E d))"
    by auto
  then show ?thesis using j by (intro exI [of _ d] exI [of _ "tr\<lparr>tr_edge := report E d 3 (tr_edge tr)\<rparr>"]
        exI [of _ "tr_edge tr"] exI [of _ k]) (simp add: d_def)
qed

theorem sign_in_reported_witness:
  "\<exists>d tr. login_job (toy_bridge (\<lambda>_. Inl [])) 1000 1000 (replicate 32 1) (replicate 12 0)
     \<lparr>ls_account = ''a'', ls_sealed_vault = [], ls_request_id = ''r1''\<rparr> = Some (d, tr) \<and> ld_request_id d = ''r1''"
proof -
  have "\<forall>d. \<exists>n. \<forall>m \<ge> n. d \<le> br_instant (toy_bridge (\<lambda>_. Inl [])) m"
    "\<forall>d. \<exists>n. \<forall>m \<ge> n. d \<le> gl_instant (br_gmail (toy_bridge (\<lambda>_. Inl []))) m"
    by (auto simp: toy_gmail_def)
  from sign_in_reported [OF this, of 1000 1000 "replicate 32 1" "replicate 12 0"
      "\<lparr>ls_account = ''a'', ls_sealed_vault = [], ls_request_id = ''r1''\<rparr>"]
  show ?thesis by auto
qed

subsection \<open>Where the codes come from\<close>

lemma single_field:
  assumes "find_field [k] m = Some (Some v)" shows "map_of m k = Some v"
proof -
  obtain k' where f: "filter (\<lambda>(k', _). k' \<in> set [k]) m = [(k', v)]"
    using assms by (auto simp: find_field_def split: list.splits prod.splits)
  then have "(k', v) \<in> set (filter (\<lambda>(k', _). k' \<in> set [k]) m)" by simp
  then have "k' = k" by auto
  moreover have "map_of m k = map_of (filter (\<lambda>(k', _). k' \<in> set [k]) m) k" by (induction m) auto
  ultimately show ?thesis using f by simp
qed

lemma payload_code_fields:
  assumes "payload_code v = Some c" shows "j_field v ''kind'' = Some ''otp'' \<and> j_field v ''code'' = Some c"
proof -
  obtain m where m: "v = JObj m" using assms by (cases v) (auto simp: payload_code_def)
  from assms m obtain a b where "find_field [''kind''] m = Some (Some a)" "j_str a = Some ''otp''"
    "find_field [''code''] m = Some (Some b)" "j_str b = Some c"
    by (auto simp: payload_code_def str_field_def opt_field_def bind_eq_Some_conv
        split: if_splits option.splits json.splits)
  then show ?thesis using single_field m by (auto simp: j_field_def)
qed

text \<open>C27: A code from forwarded mail is one that was not tried yet, and was in the edge's last answer, in a
  mail of the kind of a code that opens with the key made for this sign-in and for this student's
  mailbox.  The edge is asked for nothing but this sign-in's own codes, for at most 25 seconds at a
  time; and the student counts as having no mailbox only when the edge said so.\<close>

theorem forwarded_code_genuine:
  assumes "\<forall>d. \<exists>n. \<forall>m \<ge> n. d \<le> br_instant E m"
  shows "\<exists>code f' n. forwarded_next E f t issued_at remaining tried = Some (code, f', n) \<and>
    asked E f f' \<and>
    (\<forall>c. code = Some c \<longrightarrow> c \<notin> set tried \<and> (\<exists>sealed plaintext s v.
       edge_gave E (fc_sent f') (Some sealed) \<and>
       box_open (br_box E) (fc_secret f) (fc_owner_hash f) sealed = Inr plaintext \<and>
       from_utf8 plaintext = Some s \<and> js_read (br_json E) s = Some v \<and> j_field v ''kind'' = Some ''otp'' \<and>
       j_field v ''code'' = Some c)) \<and>
    (fc_no_mailbox f' \<longrightarrow> fc_no_mailbox f \<or> code = None \<and> (\<exists>reply. br_edge E (fc_sent f') = Inr reply \<and> ey_status reply = 404))"
proof -
  obtain N where "\<forall>m \<ge> N. br_instant E t + remaining \<le> br_instant E m" using assms by blast
  from codes_loop_ends [OF this] obtain code f' t' where
    l: "codes_loop E issued_at (br_instant E t + remaining) tried f (t + 1) = Some (code, f', t')"
    and p: "codes_post E tried f code f'" by blast
  have "\<exists>plaintext s v. box_open (br_box E) (fc_secret f) (fc_owner_hash f) sealed = Inr plaintext \<and>
      from_utf8 plaintext = Some s \<and> js_read (br_json E) s = Some v \<and> j_field v ''kind'' = Some ''otp'' \<and>
      j_field v ''code'' = Some c"
    if o: "codes_open E f sealed = Some c" for sealed c
  proof -
    obtain plaintext s v where v: "box_open (br_box E) (fc_secret f) (fc_owner_hash f) sealed = Inr plaintext"
      "from_utf8 plaintext = Some s" "js_read (br_json E) s = Some v" "payload_code v = Some c"
      using o by (auto simp: codes_open_def bind_eq_Some_conv split: sum.splits)
    then show ?thesis using payload_code_fields [OF v(4)] by blast
  qed
  note opened = this
  have "\<exists>sealed plaintext s v. edge_gave E (fc_sent f') (Some sealed) \<and>
      box_open (br_box E) (fc_secret f) (fc_owner_hash f) sealed = Inr plaintext \<and>
      from_utf8 plaintext = Some s \<and> js_read (br_json E) s = Some v \<and> j_field v ''kind'' = Some ''otp'' \<and>
      j_field v ''code'' = Some c" if c: "code = Some c" for c
  proof -
    obtain sealed where "edge_gave E (fc_sent f') (Some sealed)" "codes_open E f sealed = Some c"
      using p c by (auto simp: codes_post_def)
    with opened show ?thesis by blast
  qed
  moreover have "forwarded_next E f t issued_at remaining tried = Some (code, f', t' - t)" using l by (simp add: forwarded_next_def)
  ultimately show ?thesis using p unfolding codes_post_def by blast
qed

theorem forwarded_code_genuine_witness:
  "\<exists>code f' n. forwarded_next (toy_bridge (\<lambda>_. Inl [])) (ForwardedCodes_new (toy_bridge (\<lambda>_. Inl [])) ''o'' (replicate 32 1))
     0 1000 (secs 45) [] = Some (code, f', n) \<and> (\<forall>c. code = Some c \<longrightarrow> c \<notin> set [])"
proof -
  have "\<forall>d. \<exists>n. \<forall>m \<ge> n. d \<le> br_instant (toy_bridge (\<lambda>_. Inl [])) m" by auto
  from forwarded_code_genuine [OF this, of "ForwardedCodes_new (toy_bridge (\<lambda>_. Inl [])) ''o'' (replicate 32 1)"
      0 1000 "secs 45" "[]"]
  show ?thesis by blast
qed

subsection \<open>Saved credentials\<close>

text \<open>What the engine seals for an account opens as the same credentials when that account signs in:
  the trimmed username, the password to the letter, and the Gmail access if it is usable; and it
  seals nothing when one of them is missing.\<close>

theorem saved_credentials_roundtrip:
  defines "saved b \<equiv> \<lparr>va_username = trim (sv_username b), va_password = sv_password b,
      va_gmail = Option.bind (sv_gmail b) usable\<rparr>"
  assumes "engine_seal E iv auth body = (r, sent)" and "Option.bind body seal_vault_of = Some b"
    and "box_ok (br_box E)" "aead_strict (bc_gcm (br_box E))" "length iv = NONCE_LEN"
    and "js_read (br_json E) (js_print (br_json E) (vault_json (saved b))) = Some (vault_json (saved b))"
    and "is_str (js_print (br_json E) (vault_json (saved b)))"
  shows "sent = [] \<and> (\<forall>sealed. r = Inr sealed \<longrightarrow> trim (sv_username b) \<noteq> [] \<and> sv_password b \<noteq> [] \<and>
      open_account E (br_account E (sv_account b)) vault_of sealed = Inr (saved b)) \<and>
    (\<forall>e. r = Inl e \<longrightarrow> api_status e \<in> {400, 401})"
proof -
  have ok: "aead_ok (bc_gcm (br_box E))" "\<And>b. bc_decode (br_box E) (bc_encode (br_box E) b) = Some b"
    using assms(4) by (auto simp: box_ok_def)
  note opens = vault_open_eq [OF ok(1) assms(5)]
  have "vault_open (br_box E) key aad (vault_seal (br_box E) key iv aad b) = Inr b" for key aad b
    unfolding opens using assms(6) ok(2) by (auto simp: vault_seal_def)
  then have "open_account E account vault_of (seal_account E iv account vault_json (saved b)) = Inr (saved b)" for account
    using assms(7,8) by (simp add: open_account_def seal_account_def open_json_def seal_json_def vault_rt)
  then show ?thesis
    using assms(2,3) unfolding saved_def
    by (auto simp: engine_seal_def route_def Let_def require_secret_def api_error_def bad_request_def
        split: if_splits sum.splits)
qed

theorem saved_credentials_roundtrip_witness:
  "\<exists>sealed. fst (engine_seal (toy_bridge (\<lambda>_. Inl [])) (replicate 12 0) (Some ''Bearer secret'')
       (Some (JObj [(''account'', JStr ''22BCE0001''), (''username'', JStr ''A''), (''password'', JStr ''p'')]))) = Inr sealed \<and>
     open_account (toy_bridge (\<lambda>_. Inl [])) (br_account (toy_bridge (\<lambda>_. Inl [])) ''22BCE0001'') vault_of sealed = Inr toy_vault"
proof -
  let ?E = "toy_bridge (\<lambda>_. Inl [])"
  let ?b = "\<lparr>sv_account = ''22BCE0001'', sv_username = ''A'', sv_password = ''p'', sv_gmail = None\<rparr>"
  let ?body = "Some (JObj [(''account'', JStr ''22BCE0001''), (''username'', JStr ''A''), (''password'', JStr ''p'')])"
  have b: "Option.bind ?body seal_vault_of = Some ?b" by (simp add: seal_vault_of_def field_defs)
  have t: "trim ''A'' = ''A''" "br_account ?E ''22BCE0001'' \<noteq> []" by (simp_all del: One_nat_def) (code_simp+)
  have v: "\<lparr>va_username = trim (sv_username ?b), va_password = sv_password ?b, va_gmail = Option.bind (sv_gmail ?b) usable\<rparr> = toy_vault"
    by (simp add: t toy_vault_def)
  have s: "is_str ''v''" by (rule is_str_ascii) (simp add: char_code_def)
  obtain r sent where e: "engine_seal ?E (replicate 12 0) (Some ''Bearer secret'') ?body = (r, sent)"
    by (cases "engine_seal ?E (replicate 12 0) (Some ''Bearer secret'') ?body")
  then obtain sealed where r: "r = Inr sealed"
    using b t by (auto simp: engine_seal_def route_def toy_secret Let_def)
  from saved_credentials_roundtrip [OF e b, unfolded v] r
  have "open_account ?E (br_account ?E ''22BCE0001'') vault_of sealed = Inr toy_vault"
    using plain_box_ok plain_aead_strict s by (simp add: toy_bridge_def toy_json_def NONCE_LEN_def plain_box_simps)
  then show ?thesis using e r by auto
qed

end
