(* ===== verification/PageClaims.thy ===== *)
theory PageClaims
  imports PageValues OutingClaims "HOL-Library.Multiset"
begin

section \<open>The pages: the claims\<close>

text \<open>
  What a caller relies on when it reads a page: marks come in an order of their own, whatever the
  order VTOP lists them in; the calendar holds every event of its months on its day.
\<close>

subsection \<open>Marks in a fixed order\<close>






definition numbered :: "MarksRecordEach list \<Rightarrow> MarksRecordEach list" where
  "numbered ms = map (\<lambda>(i, m). m\<lparr>me_serial := show_nat (i + 1)\<rparr>) (enumerate 0 ms)"


lemma length_numbered [simp]: "length (numbered ms) = length ms"
  by (simp add: numbered_def)














subsection \<open>The calendar in the order of its days\<close>

lemma digits_val_Cons: "digits_val (x # xs) = digit_val x * 10 ^ length xs + digits_val xs"
proof (induction xs rule: rev_induct)
  case (snoc y ys)
  then show ?case
    using digits_val_snoc [of "x # ys" y] by (simp add: digits_val_snoc)
qed (simp add: digits_val_def)

lemma digits_val_bound: "list_all is_digit s \<Longrightarrow> digits_val s < 10 ^ length s"
proof (induction s)
  case (Cons x s)
  then have "digit_val x \<le> 9" and s: "digits_val s < 10 ^ length s" using digit_val_less [of x] by auto
  then have "digit_val x * 10 ^ length s \<le> 9 * 10 ^ length s" by simp
  with s have "digit_val x * 10 ^ length s + digits_val s < 10 * 10 ^ length s" by linarith
  then show ?case by (simp only: digits_val_Cons length_Cons power_Suc)
qed (simp add: digits_val_def)

lemma mixed_radix: "a < p \<Longrightarrow> x < y \<Longrightarrow> x * p + a < y * p + (b :: nat)"
proof -
  assume "a < p" "x < y"
  then have "Suc x * p \<le> y * p" by (intro mult_le_mono1) simp
  with \<open>a < p\<close> show ?thesis by simp
qed

text \<open>Digits of one length are ordered as their numbers.\<close>

lemma digits_order:
  assumes "length a = length b" and "list_all is_digit a" "list_all is_digit b"
  shows "a < b \<longleftrightarrow> digits_val a < digits_val b"
  using assms
proof (induction a b rule: list_induct2)
  case (Cons x xs y ys)
  have v: "digits_val xs < 10 ^ length xs" "digits_val ys < 10 ^ length xs"
    using Cons.prems Cons.hyps digits_val_bound [of xs] digits_val_bound [of ys] by auto
  have d: "is_digit x" "is_digit y" using Cons.prems by auto
  then have xy: "x < y \<longleftrightarrow> digit_val x < digit_val y"
    by (auto simp: less_char_def char_code_def digit_val_def is_digit_def)
  have e: "x = y \<longleftrightarrow> digit_val x = digit_val y" using digit_char_val [OF d(1)] digit_char_val [OF d(2)] by metis
  have "digit_val x * p + a < digit_val y * p + b \<longleftrightarrow> digit_val x < digit_val y \<or> digit_val x = digit_val y \<and> a < b"
    if "a < p" "b < p" for a b p :: nat
    using mixed_radix [OF that(1)] mixed_radix [OF that(2)] by (metis add_less_cancel_left linorder_neqE_nat not_less_iff_gr_or_eq)
  from this [OF v] show ?case using Cons xy e by (simp add: digits_val_Cons)
qed (simp add: digits_val_def)

lemma pad_digits: "list_all is_digit (pad w n)"
  using show_nat_all_digits [of n] unfolding pad_def by (auto simp: list_all_iff is_digit_def char_code_def)

lemma digits_val_zeros: "digits_val (replicate k CHR ''0'' @ s) = digits_val s"
  by (induction k) (simp_all add: digits_val_Cons digit_val_def char_code_def)

lemma pad_val: "digits_val (pad w n) = n"
  using show_nat_digits by (simp add: pad_def digits_val_zeros)

lemma length_show_nat: "n < 10 ^ w \<Longrightarrow> 0 < w \<Longrightarrow> length (show_nat n) \<le> w"
proof (induction w arbitrary: n)
  case (Suc w)
  show ?case
  proof (cases "n < 10")
    case False
    then have "n div 10 < 10 ^ w" "0 < w" using Suc.prems by (auto intro: gr0I)
    then show ?thesis using Suc.IH False by (subst show_nat.simps) simp
  qed (subst show_nat.simps, simp)
qed simp

lemma length_pad: "n < 10 ^ w \<Longrightarrow> 0 < w \<Longrightarrow> length (pad w n) = w"
  using length_show_nat by (simp add: pad_def)

lemma pad_order: "n < 10 ^ w \<Longrightarrow> n' < 10 ^ w \<Longrightarrow> 0 < w \<Longrightarrow> pad w n < pad w n' \<longleftrightarrow> n < n'"
  using digits_order [of "pad w n" "pad w n'"] by (simp add: length_pad pad_digits pad_val)

lemma append_order:
  "length a = length a' \<Longrightarrow> (a @ b < a' @ (b' :: string)) \<longleftrightarrow> a < a' \<or> a = a' \<and> b < b'"
  by (induction a a' rule: list_induct2) auto

definition calendar_date :: "nat \<times> nat \<times> nat \<Rightarrow> string" where
  "calendar_date day = (case day of (y, m, d) \<Rightarrow> pad 4 y @ ''-'' @ pad 2 m @ ''-'' @ pad 2 d)"

lemma pad_eq: "pad w n = pad w n' \<longleftrightarrow> n = n'"
  by (metis pad_val)

lemma calendar_date_order:
  assumes "y < 10000" "y' < 10000" "m < 100" "m' < 100" "d < 100" "d' < 100"
  shows "calendar_date (y, m, d) < calendar_date (y', m', d') \<longleftrightarrow> (y, m, d) < (y', m', d')"
  using assms by (auto simp: calendar_date_def append_order length_pad pad_order pad_eq)

lemma andthen_Inr:
  "andthen m f c = (Inr y, c') \<longleftrightarrow> (\<exists>x c1. m c = (Inr x, c1) \<and> f x c1 = (Inr y, c'))"
  by (auto simp: andthen_def split: prod.splits sum.splits)


lemma calendar_months_run:
  "calendar_months W D semester months acc c = (Inr entries, c') \<Longrightarrow>
   \<exists>pages. list_all2 (\<lambda>p m. \<exists>c1 c2. calendar_month_page W semester m c1 = (Inr p, c2)) pages months \<and>
     entries = acc @ concat (map (\<lambda>(page, m). parse_calendar_month D page m) (zip pages months))"
proof (induction months arbitrary: acc c)
  case Nil
  then show ?case by (simp add: ret_def)
next
  case (Cons m months)
  then obtain page c1 where p: "calendar_month_page W semester m c = (Inr page, c1)"
    "calendar_months W D semester months (acc @ parse_calendar_month D page m) c1 = (Inr entries, c')"
    by (auto simp: andthen_Inr)
  from Cons.IH [OF p(2)] obtain pages where
    "list_all2 (\<lambda>p m. \<exists>c1 c2. calendar_month_page W semester m c1 = (Inr p, c2)) pages months"
    "entries = (acc @ parse_calendar_month D page m) @
       concat (map (\<lambda>(page, m). parse_calendar_month D page m) (zip pages months))" by blast
  with p(1) show ?case by (intro exI [of _ "page # pages"]) auto
qed

lemma month_of_range: "month_of s = Some (y, m) \<Longrightarrow> 1 \<le> m \<and> m \<le> 12"
  by (auto simp: month_of_def CALENDAR_MONTHS_def position_def Let_def split: bind_splits if_splits)

lemma in_map_filter: "y \<in> set (List.map_filter f xs) \<longleftrightarrow> (\<exists>x \<in> set xs. f x = Some y)"
  by (induction xs) (auto simp: List.map_filter_simps split: option.splits)

lemma calendar_entry_day:
  assumes "e \<in> set (parse_calendar_month D page cal_date)"
  shows "\<exists>y m d. month_of cal_date = Some (y, m) \<and> 1 \<le> d \<and> d \<le> 31 \<and> ce_date e = calendar_date (y, m, d)"
proof -
  from assms obtain y m td where m: "month_of cal_date = Some (y, m)" and e: "e \<in> set (calendar_cell D y m td)"
    by (cases "month_of cal_date") (auto simp: parse_calendar_month_def)
  then show ?thesis
    by (fastforce simp: calendar_cell_def calendar_entry_def calendar_date_def in_map_filter Let_def
        split: option.splits if_splits prod.splits)
qed

lemma sorted_by_day:
  assumes "\<forall>e \<in> set es. ce_date e = calendar_date (day e) \<and>
      (case day e of (y, m, d) \<Rightarrow> y < 10000 \<and> m < 100 \<and> d < 100)"
    and "sorted (map ce_date es)"
  shows "sorted (map day es)"
  using assms
proof (induction es)
  case (Cons e es)
  have "day e \<le> day e'" if "e' \<in> set es" for e'
  proof -
    obtain y m d y' m' d' where p: "day e = (y, m, d)" "day e' = (y', m', d')" by (cases "day e"; cases "day e'")
    then have b: "y < 10000" "y' < 10000" "m < 100" "m' < 100" "d < 100" "d' < 100"
      and "ce_date e = calendar_date (y, m, d)" "ce_date e' = calendar_date (y', m', d')"
      using Cons.prems(1) that by auto
    moreover have "ce_date e \<le> ce_date e'" using Cons.prems(2) that by auto
    ultimately have "\<not> (y', m', d') < (y, m, d)" using calendar_date_order [OF b(2,1,4,3,6,5)] by (metis leD)
    then show ?thesis unfolding p by (rule leI)
  qed
  then show ?case using Cons by simp
qed simp

text \<open>C37: The academic calendar of a semester is read from a page for each month VTOP lists, and
  holds every event of these pages and no others: each is dated a day of its own month, the events
  of one day stay in the order of the page, and, for years of four digits, all of them are in the
  order of the calendar.\<close>

theorem calendar_entries:
  assumes "academic_calendar W D semester c = (Inr data, c')"
  shows "\<exists>page months pages day c1. calendar_months_page W semester c = (Inr page, c1) \<and>
    months = parse_calendar_months D page \<and>
    list_all2 (\<lambda>p m. \<exists>c1 c2. calendar_month_page W semester m c1 = (Inr p, c2)) pages months \<and>
    (let listed = concat (map (\<lambda>(p, m). parse_calendar_month D p m) (zip pages months))
     in mset (ac_entries data) = mset listed \<and>
        (\<forall>date. filter (\<lambda>e. ce_date e = date) (ac_entries data) = filter (\<lambda>e. ce_date e = date) listed)) \<and>
    (\<forall>e \<in> set (ac_entries data). case day e of (y, m, d) \<Rightarrow>
       (\<exists>cal_date \<in> set months. month_of cal_date = Some (y, m)) \<and>
       1 \<le> m \<and> m \<le> 12 \<and> 1 \<le> d \<and> d \<le> 31 \<and> ce_date e = calendar_date (y, m, d)) \<and>
    ((\<forall>e \<in> set (ac_entries data). fst (day e) < 10000) \<longrightarrow> sorted (map day (ac_entries data)))"
proof -
  from assms obtain page entries c1 c2 where p: "calendar_months_page W semester c = (Inr page, c1)"
    and r: "calendar_months W D semester (parse_calendar_months D page) [] c1 = (Inr entries, c2)"
    and d: "ac_entries data = sort_key ce_date entries"
    by (auto simp: academic_calendar_def andthen_Inr now_unix_def ret_def)
  let ?months = "parse_calendar_months D page"
  from calendar_months_run [OF r] obtain pages where
    len: "list_all2 (\<lambda>p m. \<exists>c1 c2. calendar_month_page W semester m c1 = (Inr p, c2)) pages ?months"
    and e: "entries = concat (map (\<lambda>(p, m). parse_calendar_month D p m) (zip pages ?months))" by auto
  let ?in_month = "\<lambda>x (y, m, d). (\<exists>cal_date \<in> set ?months. month_of cal_date = Some (y, m)) \<and>
      1 \<le> m \<and> m \<le> 12 \<and> 1 \<le> d \<and> d \<le> 31 \<and> ce_date x = calendar_date (y, m, d)"
  have "\<forall>x \<in> set (ac_entries data). \<exists>t. ?in_month x t"
  proof
    fix x assume "x \<in> set (ac_entries data)"
    then obtain p m where "(p, m) \<in> set (zip pages ?months)" "x \<in> set (parse_calendar_month D p m)"
      unfolding d e by auto
    moreover from this have "m \<in> set ?months" by (auto dest: set_zip_rightD)
    ultimately show "\<exists>t. ?in_month x t" using calendar_entry_day month_of_range by fastforce
  qed
  from bchoice [OF this] obtain day where day: "\<forall>x \<in> set (ac_entries data). ?in_month x (day x)"
    by (elim exE)
  have o: "sorted (map day (ac_entries data))" if y: "\<forall>e \<in> set (ac_entries data). fst (day e) < 10000"
  proof (rule sorted_by_day)
    show "\<forall>e \<in> set (ac_entries data). ce_date e = calendar_date (day e) \<and>
      (case day e of (y, m, d) \<Rightarrow> y < 10000 \<and> m < 100 \<and> d < 100)"
    proof
      fix x assume "x \<in> set (ac_entries data)"
      from day [rule_format, OF this] y [rule_format, OF this]
      show "ce_date x = calendar_date (day x) \<and> (case day x of (y, m, d) \<Rightarrow> y < 10000 \<and> m < 100 \<and> d < 100)"
        by (cases "day x") auto
    qed
    show "sorted (map ce_date (ac_entries data))" by (simp add: d)
  qed
  have "mset (ac_entries data) = mset entries \<and>
      (\<forall>date. filter (\<lambda>e. ce_date e = date) (ac_entries data) = filter (\<lambda>e. ce_date e = date) entries)"
    by (simp add: d sort_key_stable)
  note whole = p refl len this [unfolded e] day impI [OF o]
  show ?thesis unfolding Let_def
    by (rule exI [of _ page], rule exI [of _ ?months], rule exI [of _ pages], rule exI [of _ day], rule exI [of _ c1])
      (intro whole [THEN conjI] impI o)
qed

definition month_dom :: "(unit, string) dom" where
  "month_dom = \<lparr>dm_parse = (\<lambda>_. ()),
     dm_select = (\<lambda>sel _. if sel = ''td'' then [''a'', ''b''] else [''processViewCalendar('' @ [CHR 0x27] @ ''01-NOV-2026'' @ [CHR 0x27]]),
     dm_within = (\<lambda>_ e. if e = ''a'' then [''12'', ''Holiday - All'', ''(Diwali)''] else [''3'', ''Exam - CSE'']),
     dm_attr = (\<lambda>e _. Some e), dm_texts = (\<lambda>e. [e]), dm_fragment = (\<lambda>_. ()), dm_root = (\<lambda>_. []), dm_html = (\<lambda>_. [])\<rparr>"

lemma toy_numbers: "parse_u32 ''12'' = Some 12" "parse_u32 ''3'' = Some 3" "parse_u32 ''2026'' = Some 2026"
  by (simp_all add: parse_u32_def parse_uint_def parse_digits_def digits_val_def digit_val_def is_digit_def char_code_def)

lemma toy_month: "month_of ''01-NOV-2026'' = Some (2026, 11)"
proof -
  have "split_on CHR ''-'' ''01-NOV-2026'' = [''01'', ''NOV'', ''2026'']"
    "position (map ascii_upper ''NOV'') CALENDAR_MONTHS = Some 10" by code_simp+
  then show ?thesis by (simp add: month_of_def Let_def nth_opt_def numeral_2_eq_2 toy_numbers)
qed

lemma month_links: "parse_calendar_months month_dom page = [''01-NOV-2026'']"
proof -
  let ?link = "''processViewCalendar('' @ [CHR 0x27] @ ''01-NOV-2026'' @ [CHR 0x27]"
  have "map_option (\<lambda>(_, rest). nth_opt (split_on CHR 0x27 rest) 1) (split_at_str ''processViewCalendar('' ?link) =
      Some (Some ''01-NOV-2026'')" by code_simp
  then show ?thesis
    by (auto simp: parse_calendar_months_def month_dom_def List.map_filter_simps toy_month)
qed

lemma month_page: "map ce_kind (parse_calendar_month month_dom page ''01-NOV-2026'') = [''Holiday'', ''Exam'']"
proof -
  have "parse_calendar_month month_dom page ''01-NOV-2026'' =
      calendar_cell month_dom 2026 11 ''a'' @ calendar_cell month_dom 2026 11 ''b''"
  proof -
    show ?thesis by (simp add: parse_calendar_month_def toy_month) (simp add: month_dom_def)
  qed
  moreover have "map (word_text month_dom) (dm_within month_dom ''span'' ''a'') = [''12'', ''Holiday - All'', ''(Diwali)'']"
    "map (word_text month_dom) (dm_within month_dom ''span'' ''b'') = [''3'', ''Exam - CSE'']"
    by code_simp+
  moreover have "calendar_entry [] (''Holiday - All'', Some ''(Diwali)'') =
      Some \<lparr>ce_date = [], ce_kind = ''Holiday'', ce_group = ''All'', ce_note = ''Diwali''\<rparr>"
    "calendar_entry [] (''Exam - CSE'', None) =
      Some \<lparr>ce_date = [], ce_kind = ''Exam'', ce_group = ''CSE'', ce_note = []\<rparr>" by code_simp+
  moreover have "calendar_entry date p = map_option (\<lambda>e. e\<lparr>ce_date := date\<rparr>) (calendar_entry [] p)" for date p
    by (simp add: calendar_entry_def split: prod.splits)
  note day = this [of "a # date" for a date] this [of "pad w n @ date" for w n date]
  ultimately show ?thesis
    by (simp add: calendar_cell_def toy_numbers List.map_filter_simps first_def day)
qed

theorem calendar_entries_witness:
  "\<exists>data c'. academic_calendar (toy_web (\<lambda>_. Inr toy_page)) month_dom ''S'' member = (Inr data, c') \<and>
     mset (map ce_kind (ac_entries data)) = {#''Exam'', ''Holiday''#}"
proof -
  let ?W = "toy_web (\<lambda>_. Inr toy_page)"
  have "case calendar_months_page ?W ''S'' member of (r, c1) \<Rightarrow> \<not> isl r \<and>
      \<not> isl (fst (calendar_month_page ?W ''S'' ''01-NOV-2026'' c1))" by code_simp
  then obtain page c1 p c2 where s: "calendar_months_page ?W ''S'' member = (Inr page, c1)"
    "calendar_month_page ?W ''S'' ''01-NOV-2026'' c1 = (Inr p, c2)"
    by (auto split: prod.splits simp: isl_def) (metis old.sum.exhaust surj_pair fst_conv)
  then obtain data c' where a: "academic_calendar ?W month_dom ''S'' member = (Inr data, c')"
    by (auto simp: academic_calendar_def andthen_def now_unix_def ret_def month_links)
  from calendar_entries [OF a] obtain pages where "length pages = 1"
    "mset (ac_entries data) = mset (concat (map (\<lambda>(p, m). parse_calendar_month month_dom p m) (zip pages [''01-NOV-2026''])))"
    unfolding month_links Let_def by (elim exE conjE) (rule that, drule list_all2_lengthD, simp_all)
  then have "mset (map ce_kind (ac_entries data)) = mset (map ce_kind (parse_calendar_month month_dom (hd pages) ''01-NOV-2026''))"
    by (cases pages) (simp_all add: mset_map)
  with a show ?thesis unfolding month_page by (intro exI conjI) (assumption, simp)
qed

subsection \<open>What the marks and the grades leave open\<close>

text \<open>Two marks of one key keep the order of the page, so data that is the same in VTOP may differ here.\<close>

lemma tied_marks_follow_page:
  assumes "me_weightagemark m = ''4''"
  shows "in_fixed_order lower [m, m\<lparr>me_weightagemark := ''9''\<rparr>] \<noteq> in_fixed_order lower [m\<lparr>me_weightagemark := ''9''\<rparr>, m]"
proof -
  have "mark_key lower (m\<lparr>me_weightagemark := ''9''\<rparr>) = mark_key lower m" by (simp add: mark_key_def)
  then have "map me_weightagemark (in_fixed_order lower [m, m\<lparr>me_weightagemark := ''9''\<rparr>]) = [''4'', ''9'']"
    "map me_weightagemark (in_fixed_order lower [m\<lparr>me_weightagemark := ''9''\<rparr>, m]) = [''9'', ''4'']"
    using assms by (simp_all add: in_fixed_order_def)
  then show ?thesis by auto
qed

lemma filter_full: "length xs \<le> length (filter P xs) \<Longrightarrow> filter P xs = xs"
  using length_filter_less by (metis filter_True linorder_not_le)

text \<open>Grade ranges are either all seven, under the labels of the columns, or none: six are never enough.\<close>

lemma seven_ranges: "row_ranges D row = Some rs \<Longrightarrow> map rg_grade rs = GRADE_LABELS"
proof -
  assume r: "row_ranges D row = Some rs"
  have seven: "length GRADE_LABELS = 7" by (simp add: GRADE_LABELS_def)
  have labels: "map rg_grade (labelled ps) = map fst ps" for ps
    by (simp add: labelled_def comp_def case_prod_beta)
  have spans: "length (ranges_by_span D row) \<noteq> 0 \<Longrightarrow> map rg_grade (ranges_by_span D row) = GRADE_LABELS"
    by (simp add: ranges_by_span_def Let_def labels seven map_fst_zip_take split del: if_split)
      (simp add: labels seven map_fst_zip_take split: if_splits)
  have columns: "7 \<le> length (ranges_by_column D (tds D row)) \<Longrightarrow>
      map rg_grade (ranges_by_column D (tds D row)) = GRADE_LABELS"
  proof -
    let ?all = "map (\<lambda>(i, label). (label, clean_grade_range_text (word_cell D (tds D row) (4 + i)))) (enumerate 0 GRADE_LABELS)"
    assume n: "7 \<le> length (ranges_by_column D (tds D row))"
    then have "length ?all \<le> length (filter (\<lambda>(_, txt). txt \<noteq> [] \<and> looks_like_grade_range txt) ?all)"
      by (simp add: ranges_by_column_def labelled_def seven split: if_splits)
    note whole = filter_full [OF this]
    have "ranges_by_column D (tds D row) = labelled ?all"
      using n unfolding ranges_by_column_def whole by (simp split: if_splits)
    moreover have "map fst ?all = GRADE_LABELS" by (simp add: comp_def case_prod_beta)
    ultimately show ?thesis by (simp only: labels)
  qed
  from r show ?thesis using spans columns
    by (cases "ranges_by_span D row = []") (auto simp: row_ranges_def Let_def not_less split: if_splits)
qed

end
