(* ===== verification/McpBridge.thy ===== *)
theory McpBridge
  imports Bridge PageValues
begin

section \<open>The tools' sessions (vtop-mcp/src/bridge.rs, lib.rs, config.rs)\<close>

text \<open>
  Where the tools get VTOP sessions from: the bridge, asked with the caller's own access key, and
  before it a cache that keeps each key's session for a while; and the check of the key on each
  request.  The world is the requests sent to the bridge so far with the time of each, the time in
  milliseconds, the two caches, and the clients that were used of VTOP.  One tool runs at a time.
  The answers of the bridge, and how long it and a pause take, are a parameter of the requests sent.
\<close>

record BridgeRequest =
  bq_post :: bool
  bq_path :: string
  bq_key :: string

text \<open>A client that was used of VTOP: for whom, on which session, from when on, and what it sent.\<close>

record VtopUse =
  vu_key :: string
  vu_session :: SessionState
  vu_at :: nat
  vu_sent :: "HopRequest list"

record mcp_world =
  mw_asked :: "(nat \<times> BridgeRequest) list"
  mw_now :: nat
  mw_kept :: "(string, nat \<times> SessionState) hmap"
  mw_known :: "(string, nat) hmap"
  mw_used :: "VtopUse list"

definition mcp_start :: mcp_world where
  "mcp_start = \<lparr>mw_asked = [], mw_now = 0, mw_kept = [], mw_known = [], mw_used = []\<rparr>"

record bridge_edge =
  be_http :: "(nat \<times> BridgeRequest) list \<Rightarrow> string + nat \<times> string option"
  be_json :: json_lib
  be_took :: "(nat \<times> BridgeRequest) list \<Rightarrow> nat"
  be_late :: "nat \<Rightarrow> nat"

text \<open>A step may fail with a message; what it changed stays.\<close>

type_synonym 'a mcp_act = "mcp_world \<Rightarrow> (string + 'a) \<times> mcp_world"

definition mret :: "'a \<Rightarrow> 'a mcp_act" where "mret x = (\<lambda>s. (Inr x, s))"
definition mfail :: "string \<Rightarrow> 'a mcp_act" where "mfail e = (\<lambda>s. (Inl e, s))"

definition mthen :: "'a mcp_act \<Rightarrow> ('a \<Rightarrow> 'b mcp_act) \<Rightarrow> 'b mcp_act" where
  "mthen m f = (\<lambda>s. case m s of (Inl e, s) \<Rightarrow> (Inl e, s) | (Inr x, s) \<Rightarrow> f x s)"

subsection \<open>Who a key belongs to\<close>

record Identity =
  iy_registration_number :: string
  iy_key_label :: "string option"
  iy_semester_id :: "string option"
  iy_outings :: bool

text \<open>The trait \<^verbatim>\<open>SessionSource\<close>.\<close>

record SessionSource =
  so_whoami :: "string \<Rightarrow> Identity option mcp_act"
  so_session :: "string \<Rightarrow> SessionState mcp_act"
  so_expire :: "string \<Rightarrow> unit mcp_act"

definition PENDING_WAIT :: nat where "PENDING_WAIT = 110000"

definition error_text :: "json \<Rightarrow> string \<Rightarrow> string" where
  "error_text body fallback =
     (let code = (case j_field body ''code'' of Some c \<Rightarrow> c | None \<Rightarrow> ''bridge_error'');
          message = (case j_field body ''error'' of Some m \<Rightarrow> m | None \<Rightarrow> fallback)
      in if prefix code message then message else code @ '': '' @ message)"

definition session_of :: "json \<Rightarrow> string + SessionState" where
  "session_of body = (case Option.bind (j_get body ''session'') session_state_of of
     Some session \<Rightarrow> Inr session | None \<Rightarrow> Inl ''bridge: unreadable session reply'')"

subsection \<open>Asking the bridge\<close>

definition ask :: "bridge_edge \<Rightarrow> BridgeRequest \<Rightarrow> mcp_world \<Rightarrow> (string + nat \<times> string option) \<times> mcp_world" where
  "ask E rq s = (let asked = mw_asked s @ [(mw_now s, rq)]
     in (be_http E asked, s\<lparr>mw_asked := asked, mw_now := mw_now s + be_took E asked\<rparr>))"

definition pause :: "bridge_edge \<Rightarrow> nat \<Rightarrow> mcp_world \<Rightarrow> mcp_world" where
  "pause E ms s = s\<lparr>mw_now := mw_now s + ms + be_late E (mw_now s)\<rparr>"

definition body_of :: "bridge_edge \<Rightarrow> string option \<Rightarrow> json" where
  "body_of E text = (case Option.bind text (js_read (be_json E)) of Some v \<Rightarrow> v | None \<Rightarrow> JNull)"

text \<open>The loop of \<^verbatim>\<open>call\<close> from its attempt \<open>n\<close> on.\<close>

function call_from :: "bridge_edge \<Rightarrow> BridgeRequest \<Rightarrow> nat \<Rightarrow> (nat \<times> json) mcp_act" where
  "call_from E rq n s =
     (case ask E rq s of
        (Inl e, s) \<Rightarrow> if n = 1 then call_from E rq (n + 1) s else (Inl (''bridge unreachable: '' @ e), s)
      | (Inr (status, text), s) \<Rightarrow>
          (let body = body_of E text;
               waking = (status \<in> {502, 503} \<and> j_get body ''code'' = None)
           in if waking \<and> n = 1 then call_from E rq (n + 1) (pause E 500 s)
              else (Inr (status, body), s)))"
  by pat_completeness auto
termination by (relation "measure (\<lambda>(E, rq, n, s). 2 - n)") auto

declare call_from.simps [simp del]

definition bridge_call :: "bridge_edge \<Rightarrow> string \<Rightarrow> bool \<Rightarrow> string \<Rightarrow> string \<Rightarrow> (nat \<times> json) mcp_act" where
  "bridge_call E base_url post path key = call_from E \<lparr>bq_post = post, bq_path = base_url @ path, bq_key = key\<rparr> 1"

definition identity_of :: "json \<Rightarrow> Identity option" where
  "identity_of body = map_option (\<lambda>number. \<lparr>iy_registration_number = number,
     iy_key_label = j_field body ''keyLabel'', iy_semester_id = j_field body ''semesterId'',
     iy_outings = (Option.bind (j_get body ''keyOutings'') j_bool = Some True)\<rparr>) (j_field body ''registrationNumber'')"

definition bridge_whoami :: "bridge_edge \<Rightarrow> string \<Rightarrow> string \<Rightarrow> Identity option mcp_act" where
  "bridge_whoami E base_url key = mthen (bridge_call E base_url False ''/v1/whoami'' key) (\<lambda>(status, body).
     if status = 200 then mret (identity_of body)
     else if status = 401 then mret None
     else mfail (error_text body (show_nat status)))"

text \<open>How long to pause before asking for a pending session again: between 10 ms and 5 s.\<close>

definition poll_after :: "json \<Rightarrow> nat" where
  "poll_after body = (let ms = (case Option.bind (j_get body ''pollAfterMs'') j_u64 of Some n \<Rightarrow> unat n | None \<Rightarrow> 1500)
     in max 10 (min 5000 ms))"

definition phone_timeout :: string where
  "phone_timeout = ''phone_timeout: The phone did not answer in time.''"

text \<open>What an answer about a pending session says: \<open>None\<close> to ask again.\<close>

definition pending_answer :: "nat \<Rightarrow> json \<Rightarrow> (string + SessionState) option" where
  "pending_answer status body =
     (if status = 202 then None
      else Some (if status = 200 then
          (if j_field body ''status'' = Some ''ready'' then session_of body
           else Inl (error_text body ''the session request failed''))
        else if status = 410 then Inl phone_timeout
        else Inl (error_text body (show_nat status))))"

lemma ask_now: "ask E rq s = (r, s') \<Longrightarrow> mw_now s \<le> mw_now s'"
  by (auto simp: ask_def Let_def)

lemma call_now: "call_from E rq n s = (r, s') \<Longrightarrow> mw_now s \<le> mw_now s'"
proof (induction E rq n s rule: call_from.induct)
  case (1 E rq n s)
  obtain a s1 where a: "ask E rq s = (a, s1)" by (cases "ask E rq s")
  note s1 = ask_now [OF a]
  show ?case
  proof (cases a)
    case (Inl e)
    show ?thesis
    proof (cases "n = 1")
      case True
      with "1.prems" have "call_from E rq (n + 1) s1 = (r, s')" using a Inl by (subst (asm) call_from.simps) simp
      from "1.IH"(1) [OF a [symmetric] Inl True this] s1 show ?thesis by linarith
    next
      case False
      with "1.prems" have "s' = s1" using a Inl by (subst (asm) call_from.simps) simp
      then show ?thesis using s1 by simp
    qed
  next
    case (Inr x)
    obtain status b where x: "x = (status, b)" by (cases x)
    have p: "mw_now s1 \<le> mw_now (pause E 500 s1)" by (simp add: pause_def)
    show ?thesis
    proof (cases "(status \<in> {502, 503} \<and> j_get (body_of E b) ''code'' = None) \<and> n = 1")
      case True
      with "1.prems" have "call_from E rq (n + 1) (pause E 500 s1) = (r, s')"
        using a Inr x by (subst (asm) call_from.simps) simp
      from "1.IH"(2) [OF a [symmetric] Inr x [symmetric] refl refl True this]
      have "mw_now (pause E 500 s1) \<le> mw_now s'" .
      with p s1 show ?thesis by linarith
    next
      case False
      with "1.prems" have "s' = s1" using a Inr x by (subst (asm) call_from.simps) (auto simp: Let_def split: if_splits)
      then show ?thesis using s1 by simp
    qed
  qed
qed

lemma bridge_call_now: "bridge_call E base_url post path key s = (r, s') \<Longrightarrow> mw_now s \<le> mw_now s'"
  unfolding bridge_call_def by (rule call_now)

text \<open>The loop ends since each turn pauses.\<close>

function session_wait ::
  "bridge_edge \<Rightarrow> string \<Rightarrow> string \<Rightarrow> string \<Rightarrow> json \<Rightarrow> nat \<Rightarrow> SessionState mcp_act" where
  "session_wait E base_url key path body deadline s =
     (case bridge_call E base_url False path key (pause E (poll_after body) s) of
        (Inl e, s) \<Rightarrow> (Inl e, s)
      | (Inr (status, answer), s) \<Rightarrow>
          (case pending_answer status answer of
             Some r \<Rightarrow> (r, s)
           | None \<Rightarrow> if deadline \<le> mw_now s then (Inl phone_timeout, s)
               else session_wait E base_url key path body deadline s))"
  by pat_completeness auto
termination
proof (relation "measure (\<lambda>(E, base_url, key, path, body, deadline, s). deadline - mw_now s)", simp, goal_cases)
  case (1 E base_url key path body deadline s r s1 x status answer)
  have "mw_now s + 10 \<le> mw_now (pause E (poll_after body) s)" by (simp add: pause_def poll_after_def Let_def)
  with bridge_call_now [OF 1(1) [symmetric]] 1(5) show ?case by simp
qed

declare session_wait.simps [simp del]

definition bridge_session :: "bridge_edge \<Rightarrow> string \<Rightarrow> string \<Rightarrow> SessionState mcp_act" where
  "bridge_session E base_url key = mthen (bridge_call E base_url True ''/v1/session'' key) (\<lambda>(status, body).
     if status = 200 then (\<lambda>s. (session_of body, s))
     else if status \<noteq> 202 then mfail (error_text body (show_nat status))
     else (case j_field body ''requestId'' of
         None \<Rightarrow> mfail ''bridge: pending reply without requestId''
       | Some request_id \<Rightarrow> (\<lambda>s. session_wait E base_url key (''/v1/session/requests/'' @ request_id) body
           (mw_now s + PENDING_WAIT) s)))"

definition bridge_expire :: "bridge_edge \<Rightarrow> string \<Rightarrow> string \<Rightarrow> unit mcp_act" where
  "bridge_expire E base_url key = mthen (bridge_call E base_url True ''/v1/session/expire'' key) (\<lambda>(status, body).
     if is_success status then mret () else mfail (error_text body (show_nat status)))"

definition BridgeClient :: "bridge_edge \<Rightarrow> string \<Rightarrow> SessionSource" where
  "BridgeClient E base_url = (let base_url = trim_end_char CHR ''/'' base_url
     in \<lparr>so_whoami = bridge_whoami E base_url, so_session = bridge_session E base_url,
         so_expire = bridge_expire E base_url\<rparr>)"

subsection \<open>Keeping sessions for a while\<close>

definition cached_session :: "SessionSource \<Rightarrow> nat \<Rightarrow> string \<Rightarrow> SessionState mcp_act" where
  "cached_session src ttl key s =
     (let s = s\<lparr>mw_kept := filter (\<lambda>(_, at, _). mw_now s - at < ttl) (mw_kept s)\<rparr>
      in case map_of (mw_kept s) key of
           Some (_, session) \<Rightarrow> (Inr session, s)
         | None \<Rightarrow>
             (case so_session src key s of
                (Inl e, s) \<Rightarrow> (Inl e, s)
              | (Inr session, s) \<Rightarrow>
                  (Inr session, if st_otp_issued_at session = None
                     then s\<lparr>mw_kept := AList.update key (mw_now s, session) (mw_kept s)\<rparr> else s)))"

definition cached_expire :: "SessionSource \<Rightarrow> string \<Rightarrow> unit mcp_act" where
  "cached_expire src key s = so_expire src key (s\<lparr>mw_kept := AList.delete key (mw_kept s)\<rparr>)"

definition CachedSessions :: "SessionSource \<Rightarrow> nat \<Rightarrow> SessionSource" where
  "CachedSessions src ttl = \<lparr>so_whoami = so_whoami src, so_session = cached_session src ttl,
     so_expire = cached_expire src\<rparr>"

subsection \<open>The key of a request (lib.rs)\<close>

definition key_check :: "(bytes \<Rightarrow> bytes) \<Rightarrow> SessionSource \<Rightarrow> nat \<Rightarrow> string \<Rightarrow> bool mcp_act" where
  "key_check H src ttl key s =
     (let hash = token_hash H key; now = mw_now s;
          s = s\<lparr>mw_known := filter (\<lambda>(_, checked). now - checked < ttl) (mw_known s)\<rparr>
      in if map_of (mw_known s) hash \<noteq> None then (Inr True, s)
         else mthen (so_whoami src key) (\<lambda>identity s.
           (Inr (identity \<noteq> None), if identity \<noteq> None
              then s\<lparr>mw_known := AList.update hash now (mw_known s)\<rparr> else s)) s)"

record McpRequest =
  mq_authorization :: "string option"
  mq_path :: string

datatype McpAnswer =
    Unauthorized
  | BridgeUnavailable
  | Served string

definition nonempty :: "string \<Rightarrow> string option" where
  "nonempty s = (if s = [] then None else Some s)"

definition after_prefix :: "string \<Rightarrow> string \<Rightarrow> string option" where
  "after_prefix p s = (if prefix p s then Some (drop (length p) s) else None)"

text \<open>The header wins over the path.\<close>

definition presented_key :: "McpRequest \<Rightarrow> string" where
  "presented_key rq =
     (let from_header = do { value \<leftarrow> mq_authorization rq; value \<leftarrow> header_text value;
            rest \<leftarrow> after_prefix ''Bearer '' value; nonempty (trim rest) };
          from_path = do { rest \<leftarrow> after_prefix ''/mcp/'' (mq_path rq);
            nonempty (trim (hd (split_on CHR ''/'' rest))) }
      in or_default (or_else from_header from_path))"

text \<open>\<open>Served key\<close>: the request goes on, under this key.\<close>

definition require_bearer :: "(bytes \<Rightarrow> bytes) \<Rightarrow> SessionSource \<Rightarrow> nat \<Rightarrow> McpRequest \<Rightarrow> mcp_world \<Rightarrow> McpAnswer \<times> mcp_world" where
  "require_bearer H src ttl rq s =
     (let presented = presented_key rq
      in if presented = [] then (Unauthorized, s)
         else (case key_check H src ttl presented s of
             (Inr True, s) \<Rightarrow> (Served presented, s)
           | (Inr False, s) \<Rightarrow> (Unauthorized, s)
           | (Inl _, s) \<Rightarrow> (BridgeUnavailable, s)))"

subsection \<open>Settings (config.rs)\<close>

record McpConfig =
  mg_bridge_url :: string
  mg_port :: nat

definition McpConfig_from_lookup :: "(string \<Rightarrow> bool) \<Rightarrow> (string \<Rightarrow> string option) \<Rightarrow> string + McpConfig" where
  "McpConfig_from_lookup is_url lookup =
     (case Option.bind (map_option (\<lambda>url. trim_end_char CHR ''/'' (trim url)) (lookup ''BRIDGE_URL'')) nonempty of
        None \<Rightarrow> Inl ''BRIDGE_URL is required''
      | Some bridge_url \<Rightarrow>
          if \<not> is_url bridge_url then Inl ''BRIDGE_URL must be a URL''
          else (case (case lookup ''PORT'' of None \<Rightarrow> Some 8080 | Some raw \<Rightarrow> parse_uint (2 ^ 16) (trim raw)) of
              None \<Rightarrow> Inl ''PORT has an invalid value''
            | Some port \<Rightarrow> Inr \<lparr>mg_bridge_url = bridge_url, mg_port = port\<rparr>))"

end
