(* ===== verification/McpTools.thy ===== *)
theory McpTools
  imports McpBridge
begin

section \<open>The tools (vtop-mcp/src/tools.rs)\<close>

text \<open>
  Each tool checks its arguments, signs in with a session of the caller's key, and hands over what
  VTOP shows as JSON or as a file.  The names, schemas and texts the tools are described with are
  left out.  What is printed as JSON is given as a value: the crate prints the fields of a record in
  their order.
\<close>

datatype Content =
    TextBlock string
  | BlobBlock string string string  \<comment> \<open>the file, its address, its type\<close>

record CallToolResult =
  ct_error :: bool
  ct_content :: "Content list"

type_synonym tool_act = "mcp_world \<Rightarrow> CallToolResult \<times> mcp_world"

text \<open>
  The tools' source of sessions and the world around: VTOP, which may answer each client as it likes
  given what the earlier ones sent, the time a client takes, the clock, and the crates.
\<close>

record ('j, 'd, 'e) mcp_env =
  me_source :: SessionSource
  me_web :: "VtopUse list \<Rightarrow> 'j web"
  me_dom :: "('d, 'e) dom"
  me_took :: "HopRequest list \<Rightarrow> nat"
  me_unix :: "nat \<Rightarrow> nat"
  me_sha :: "bytes \<Rightarrow> bytes"
  me_print :: "json \<Rightarrow> string"
  me_base64 :: "bytes \<Rightarrow> string"

definition DEFAULT_BASE_URL :: string where "DEFAULT_BASE_URL = ''https://vtop.vitap.ac.in''"

text \<open>What the client did is noted, and the time it took passes.\<close>

definition noted_use :: "('j, 'd, 'e) mcp_env \<Rightarrow> string \<Rightarrow> SessionState \<Rightarrow> 'j VtopClient \<Rightarrow> mcp_world \<Rightarrow> mcp_world" where
  "noted_use M key session c s = s\<lparr>mw_now := mw_now s + me_took M (vc_sent c),
     mw_used := mw_used s @ [\<lparr>vu_key = key, vu_session = session, vu_at = mw_now s, vu_sent = vc_sent c\<rparr>]\<rparr>"

definition stale :: "VtopError \<Rightarrow> bool" where
  "stale e \<longleftrightarrow> (case e of SessionExpired \<Rightarrow> True | VtopServerError _ \<Rightarrow> True | _ \<Rightarrow> False)"

function with_retry_from ::
  "('j, 'd, 'e) mcp_env \<Rightarrow> string \<Rightarrow> ('j web \<Rightarrow> ('j VtopClient, 'a) act) \<Rightarrow> bool \<Rightarrow> 'a mcp_act" where
  "with_retry_from M key call retried s =
     (case so_session (me_source M) key s of
        (Inl message, s) \<Rightarrow> (Inl message, s)
      | (Inr session, s) \<Rightarrow>
          (let W = me_web M (mw_used s)
           in case with_session W DEFAULT_BASE_URL session of
                Inl e \<Rightarrow> (Inl (VtopError_text e), s)
              | Inr client \<Rightarrow>
                  (case call W client of
                     (Inr x, c) \<Rightarrow> (Inr x, noted_use M key session c s)
                   | (Inl e, c) \<Rightarrow>
                       if stale e \<and> \<not> retried then
                         (case so_expire (me_source M) key (noted_use M key session c s) of
                            (Inl message, s) \<Rightarrow> (Inl message, s)
                          | (Inr _, s) \<Rightarrow> with_retry_from M key call True s)
                       else (Inl (VtopError_text e), noted_use M key session c s))))"
  by pat_completeness auto
termination by (relation "measure (\<lambda>(M, key, call, retried, s). if retried then 0 else 1)") auto

declare with_retry_from.simps [simp del]

definition with_retry ::
  "('j, 'd, 'e) mcp_env \<Rightarrow> string \<Rightarrow> ('j web \<Rightarrow> ('j VtopClient, 'a) act) \<Rightarrow> 'a mcp_act" where
  "with_retry M key call = with_retry_from M key call False"

subsection \<open>Results\<close>

definition tool_error :: "string \<Rightarrow> CallToolResult" where
  "tool_error message = \<lparr>ct_error = True, ct_content = [TextBlock message]\<rparr>"

definition json_result :: "('j, 'd, 'e) mcp_env \<Rightarrow> json \<Rightarrow> CallToolResult" where
  "json_result M value = \<lparr>ct_error = False, ct_content = [TextBlock (me_print M value)]\<rparr>"

text \<open>\<^verbatim>\<open>input\<close> with the early return on it.\<close>

definition with_input :: "VtopError + 'a \<Rightarrow> ('a \<Rightarrow> tool_act) \<Rightarrow> tool_act" where
  "with_input parsed f = (case parsed of
     Inl e \<Rightarrow> (\<lambda>s. (tool_error (''invalid input: '' @ VtopError_text e), s))
   | Inr x \<Rightarrow> f x)"

text \<open>The caller's key, or its error.\<close>

definition with_caller :: "string option \<Rightarrow> (string \<Rightarrow> tool_act) \<Rightarrow> tool_act" where
  "with_caller caller f = (case caller of
     None \<Rightarrow> (\<lambda>s. (tool_error ''no caller on the request'', s)) | Some key \<Rightarrow> f key)"

text \<open>A step, with the early return on its message.\<close>

definition or_error :: "'a mcp_act \<Rightarrow> ('a \<Rightarrow> tool_act) \<Rightarrow> tool_act" where
  "or_error m f s = (case m s of (Inl message, s) \<Rightarrow> (tool_error message, s) | (Inr x, s) \<Rightarrow> f x s)"

definition answer :: "CallToolResult \<Rightarrow> tool_act" where
  "answer r = (\<lambda>s. (r, s))"

definition MAX_FILE_BYTES :: nat where "MAX_FILE_BYTES = 10 * 1024 * 1024"

definition file_result :: "('j, 'd, 'e) mcp_env \<Rightarrow> string \<Rightarrow> string \<Rightarrow> bytes \<Rightarrow> string \<Rightarrow> CallToolResult" where
  "file_result M file_name content_type b uri =
     (if MAX_FILE_BYTES < length b then
        tool_error (file_name @ '' is '' @ show_nat (length b div (1024 * 1024)) @
          '' MB, too large to hand over (limit '' @ show_nat (MAX_FILE_BYTES div (1024 * 1024)) @
          '' MB); open it with get_session instead'')
      else \<lparr>ct_error = False, ct_content =
        [TextBlock (me_print M (to_value [(''file_name'', JStr file_name), (''content_type'', JStr content_type),
           (''size_bytes'', JNum (show_nat (length b)))])),
         BlobBlock (me_base64 M b) uri content_type]\<rparr>)"

text \<open>\<^verbatim>\<open>fetch\<close> and \<^verbatim>\<open>fetch_file\<close>.\<close>

definition tool_fetch ::
  "('j, 'd, 'e) mcp_env \<Rightarrow> string option \<Rightarrow> ('a \<Rightarrow> json) \<Rightarrow> ('j web \<Rightarrow> ('j VtopClient, 'a) act) \<Rightarrow> tool_act" where
  "tool_fetch M caller value call = with_caller caller (\<lambda>key.
     or_error (with_retry M key call) (\<lambda>x. answer (json_result M (value x))))"

definition tool_fetch_file ::
  "('j, 'd, 'e) mcp_env \<Rightarrow> string option \<Rightarrow> string \<Rightarrow> ('j web \<Rightarrow> ('j VtopClient, CourseFile) act) \<Rightarrow> tool_act" where
  "tool_fetch_file M caller uri call = with_caller caller (\<lambda>key.
     or_error (with_retry M key call) (\<lambda>f.
       answer (file_result M (cf_file_name f) (cf_content_type f) (cf_bytes f) uri)))"

subsection \<open>The current semester, the browser's session, the profile\<close>

definition opt_json :: "string option \<Rightarrow> json" where
  "opt_json s = (case s of None \<Rightarrow> JNull | Some s \<Rightarrow> JStr s)"

definition current_semester :: "SemesterData \<Rightarrow> string option \<Rightarrow> string option" where
  "current_semester data picked =
     or_else (Option.bind picked (\<lambda>i. if list_ex (\<lambda>sem. si_id sem = i) (sm_semesters data) then Some i else None))
       (map_option si_id (first (sm_semesters data)))"

definition mark_current :: "SemesterData \<Rightarrow> string option \<Rightarrow> json" where
  "mark_current data picked =
     (let current = current_semester data picked
      in to_value [(''current_semester_id'', opt_json current),
          (''semesters'', JArr (map (\<lambda>sem. to_value [(''id'', JStr (si_id sem)), (''name'', JStr (si_name sem)),
             (''current'', JBool (current = Some (si_id sem)))]) (sm_semesters data)))])"

definition VTOP_HOST :: string where "VTOP_HOST = ''vtop.vitap.ac.in''"

definition cookie_pairs :: "string \<Rightarrow> (string \<times> string) list" where
  "cookie_pairs cookies =
     filter (\<lambda>(name, _). name \<noteq> [])
       (map (\<lambda>(name, value). (trim name, trim value))
         (List.map_filter (\<lambda>part. split_once CHR ''='' (trim part)) (split_on CHR '';'' cookies)))"

definition browser_session :: "string \<Rightarrow> json" where
  "browser_session cookies =
     (let ps = cookie_pairs cookies
      in to_value [(''url'', JStr (''https://'' @ VTOP_HOST @ ''/vtop/content'')),
          (''cookie_header'', JStr (join_text ''; '' (map (\<lambda>(name, value). name @ ''='' @ value) ps))),
          (''cookies'', JArr (map (\<lambda>(name, value). to_value [(''name'', JStr name), (''value'', JStr value),
             (''domain'', JStr VTOP_HOST), (''path'', JStr ''/''), (''secure'', JBool True), (''httpOnly'', JBool True)]) ps))])"

text \<open>The characters of a text: a byte that begins one, and the bytes that continue it.\<close>

definition begins :: "char \<Rightarrow> bool" where
  "begins c \<longleftrightarrow> char_code c < 128 \<or> 192 \<le> char_code c"

function chars :: "string \<Rightarrow> string list" where
  "chars [] = []"
| "chars (c # cs) = (c # takeWhile (\<lambda>x. \<not> begins x) cs) # chars (dropWhile (\<lambda>x. \<not> begins x) cs)"
  by pat_completeness auto
termination by (relation "measure length") (auto simp: le_imp_less_Suc length_dropWhile_le)

definition masked :: "string \<Rightarrow> string" where
  "masked value =
     (let digits = length (filter is_digit value); cs = chars value
      in if digits > 4 then replicate (digits - 4) CHR ''X'' @ concat (drop (length cs - 4) cs) else value)"

definition agent_field :: "ProfileField \<Rightarrow> ProfileField" where
  "agent_field f =
     (let label = map ascii_upper (pf_label f)
      in if contains label ''AADHAR'' \<or> contains label ''AADHAAR'' then f\<lparr>pf_value := masked (pf_value f)\<rparr> else f)"

definition for_agent :: "StudentProfile \<Rightarrow> StudentProfile" where
  "for_agent p = p\<lparr>sp_photo := [], sp_sections := map (\<lambda>section. section\<lparr>ps_groups :=
     map (\<lambda>grp. grp\<lparr>pq_fields := map agent_field (pq_fields grp)\<rparr>) (ps_groups section)\<rparr>) (sp_sections p)\<rparr>"

subsection \<open>Dates\<close>

text \<open>
  The numbers are those of dates with four digits of year, far from the bounds of \<^verbatim>\<open>i64\<close>.
  \<^verbatim>\<open>{:0w}\<close> of a number counts its sign.
\<close>

definition MAX_BIOMETRIC_DAYS :: int where "MAX_BIOMETRIC_DAYS = 14"

definition civil_day_number :: "int \<Rightarrow> int \<Rightarrow> int \<Rightarrow> int" where
  "civil_day_number day month year =
     (let year = (if month \<le> 2 then year - 1 else year);
          era = year div 400;
          year_of_era = year - era * 400;
          day_of_year = (153 * ((month + 9) mod 12) + 2) div 5 + day - 1;
          day_of_era = year_of_era * 365 + year_of_era div 4 - year_of_era div 100 + day_of_year
      in era * 146097 + day_of_era - 719468)"

definition civil_date :: "int \<Rightarrow> int \<times> int \<times> int" where
  "civil_date days =
     (let z = days + 719468;
          era = z div 146097;
          day_of_era = z - era * 146097;
          year_of_era = (day_of_era - day_of_era div 1460 + day_of_era div 36524 - day_of_era div 146096) div 365;
          day_of_year = day_of_era - (365 * year_of_era + year_of_era div 4 - year_of_era div 100);
          mp = (5 * day_of_year + 2) div 153;
          day = day_of_year - (153 * mp + 2) div 5 + 1;
          month = (if mp < 10 then mp + 3 else mp - 9);
          year = year_of_era + era * 400 + (if month \<le> 2 then 1 else 0)
      in (year, month, day))"

definition pad_int :: "nat \<Rightarrow> int \<Rightarrow> string" where
  "pad_int w z = (if z < 0 then CHR ''-'' # pad (w - 1) (nat (- z)) else pad w (nat z))"

definition biometric_day :: "string \<Rightarrow> int" where
  "biometric_day date =
     (let parts = split_on CHR ''/'' date;
          part = (\<lambda>i d. case nth_part i parts of None \<Rightarrow> d
                    | Some p \<Rightarrow> (case parse_i64 p of Some n \<Rightarrow> n | None \<Rightarrow> 1))
      in civil_day_number (part 0 1) (part 1 1) (part 2 1970))"

definition biometric_text :: "int \<Rightarrow> string" where
  "biometric_text days = (case civil_date days of (year, month, day) \<Rightarrow>
     pad_int 2 day @ ''/'' @ pad_int 2 month @ ''/'' @ pad_int 4 year)"

text \<open>Results collected into one, up to the first error.\<close>

fun collected :: "('e + 'a) list \<Rightarrow> 'e + 'a list" where
  "collected [] = Inr []"
| "collected (r # rs) = (case r of Inl e \<Rightarrow> Inl e | Inr x \<Rightarrow>
     (case collected rs of Inl e \<Rightarrow> Inl e | Inr xs \<Rightarrow> Inr (x # xs)))"

definition biometric_days :: "string \<Rightarrow> string \<Rightarrow> VtopError + string list" where
  "biometric_days start to =
     and_then (BiometricDate_parse start) (\<lambda>first_date.
     and_then (BiometricDate_parse to) (\<lambda>last_date.
       let f = biometric_day first_date; l = biometric_day last_date
       in if l < f then Inl (ConfigurationError ''to must not be before from'')
          else if l - f \<ge> MAX_BIOMETRIC_DAYS then
            Inl (ConfigurationError (''at most '' @ show_nat (nat MAX_BIOMETRIC_DAYS) @ '' days at a time''))
          else collected (map (\<lambda>days. BiometricDate_parse (biometric_text days)) [f..l])))"

text \<open>The punches of each day, by one request each.\<close>

fun biometric_each ::
  "'j web \<Rightarrow> ('d, 'e) dom \<Rightarrow> string list \<Rightarrow> BiometricData list \<Rightarrow> ('j VtopClient, BiometricData list) act" where
  "biometric_each W D [] read = ret read"
| "biometric_each W D (date # dates) read = andthen (biometric_history W D date) (\<lambda>data.
     biometric_each W D dates (read @ [data]))"

subsection \<open>The tools that read\<close>

definition tool_plain_id :: "string \<Rightarrow> string \<Rightarrow> VtopError + string" where
  "tool_plain_id value label = (let value = trim value
     in if value = [] \<or> 40 < length value \<or> \<not> list_all is_alphanumeric value
        then Inl (ConfigurationError (label @ '' is not valid'')) else Inr value)"

definition get_semesters :: "('j, 'd, 'e) mcp_env \<Rightarrow> string option \<Rightarrow> tool_act" where
  "get_semesters M caller = with_caller caller (\<lambda>key.
     or_error (with_retry M key (\<lambda>W. semesters W (me_dom M))) (\<lambda>data s.
       case so_whoami (me_source M) key s of (identity, s) \<Rightarrow>
         (let picked = (case identity of Inr (Some i) \<Rightarrow> iy_semester_id i | _ \<Rightarrow> None)
          in (json_result M (mark_current data picked), s))))"

definition get_attendance :: "('j, 'd, 'e) mcp_env \<Rightarrow> string \<Rightarrow> string option \<Rightarrow> tool_act" where
  "get_attendance M semester_id caller = with_input (SemesterId_parse semester_id) (\<lambda>semester.
     tool_fetch M caller AttendanceData_value (\<lambda>W. attendance W (me_dom M) semester))"

definition get_full_attendance ::
  "('j, 'd, 'e) mcp_env \<Rightarrow> string \<Rightarrow> string \<Rightarrow> string \<Rightarrow> string option \<Rightarrow> tool_act" where
  "get_full_attendance M semester_id course_id course_type caller =
     with_input (and_then (SemesterId_parse semester_id) (\<lambda>semester. and_then (CourseId_parse course_id) (\<lambda>course.
         and_then (CourseType_parse course_type) (\<lambda>kind. Inr (semester, course, kind)))))
       (\<lambda>(semester, course, kind). tool_fetch M caller FullAttendanceData_value
         (\<lambda>W. full_attendance W (me_dom M) semester course kind))"

definition get_timetable :: "('j, 'd, 'e) mcp_env \<Rightarrow> string \<Rightarrow> string option \<Rightarrow> tool_act" where
  "get_timetable M semester_id caller = with_input (SemesterId_parse semester_id) (\<lambda>semester.
     tool_fetch M caller TimetableData_value (\<lambda>W. timetable W (me_dom M) semester))"

definition get_marks :: "('j, 'd, 'e) mcp_env \<Rightarrow> string \<Rightarrow> string option \<Rightarrow> tool_act" where
  "get_marks M semester_id caller = with_input (SemesterId_parse semester_id) (\<lambda>semester.
     tool_fetch M caller MarksData_value (\<lambda>W. marks W (me_dom M) semester))"

definition get_exam_schedule :: "('j, 'd, 'e) mcp_env \<Rightarrow> string \<Rightarrow> string option \<Rightarrow> tool_act" where
  "get_exam_schedule M semester_id caller = with_input (SemesterId_parse semester_id) (\<lambda>semester.
     tool_fetch M caller ExamScheduleData_value (\<lambda>W. exam_schedule W (me_dom M) semester))"

definition get_grades :: "('j, 'd, 'e) mcp_env \<Rightarrow> string \<Rightarrow> string option \<Rightarrow> tool_act" where
  "get_grades M semester_id caller = with_input (SemesterId_parse semester_id) (\<lambda>semester.
     tool_fetch M caller GradeViewData_value (\<lambda>W. grade_view W (me_dom M) semester))"

definition get_grade_details :: "('j, 'd, 'e) mcp_env \<Rightarrow> string \<Rightarrow> string \<Rightarrow> string option \<Rightarrow> tool_act" where
  "get_grade_details M semester_id course_id caller =
     with_input (and_then (SemesterId_parse semester_id) (\<lambda>semester. and_then (CourseId_parse course_id) (\<lambda>course.
         Inr (semester, course))))
       (\<lambda>(semester, course). tool_fetch M caller GradeDetailsData_value
         (\<lambda>W. grade_view_details W (me_dom M) semester course))"

definition get_grade_history :: "('j, 'd, 'e) mcp_env \<Rightarrow> string option \<Rightarrow> tool_act" where
  "get_grade_history M caller = tool_fetch M caller GradeHistoryData_value (\<lambda>W. grade_history W (me_dom M))"

definition get_biometric :: "('j, 'd, 'e) mcp_env \<Rightarrow> string \<Rightarrow> string option \<Rightarrow> tool_act" where
  "get_biometric M date caller = with_input (BiometricDate_parse date) (\<lambda>date.
     tool_fetch M caller BiometricData_value (\<lambda>W. biometric_history W (me_dom M) date))"

definition get_profile :: "('j, 'd, 'e) mcp_env \<Rightarrow> string option \<Rightarrow> tool_act" where
  "get_profile M caller = tool_fetch M caller StudentProfile_value
     (\<lambda>W. andthen (profile W (me_dom M)) (\<lambda>p. ret (for_agent p)))"

definition get_mentor :: "('j, 'd, 'e) mcp_env \<Rightarrow> string option \<Rightarrow> tool_act" where
  "get_mentor M caller = tool_fetch M caller MentorData_value (\<lambda>W. mentor W (me_dom M))"

definition get_academic_calendar :: "('j, 'd, 'e) mcp_env \<Rightarrow> string \<Rightarrow> string option \<Rightarrow> tool_act" where
  "get_academic_calendar M semester_id caller = with_input (SemesterId_parse semester_id) (\<lambda>semester.
     tool_fetch M caller AcademicCalendarData_value (\<lambda>W. academic_calendar W (me_dom M) semester))"

definition get_courses :: "('j, 'd, 'e) mcp_env \<Rightarrow> string \<Rightarrow> string option \<Rightarrow> tool_act" where
  "get_courses M semester_id caller = with_input (SemesterId_parse semester_id) (\<lambda>semester.
     tool_fetch M caller CoursePageCourses_value (\<lambda>W. course_page_courses W (me_dom M) semester))"

definition get_course_classes :: "('j, 'd, 'e) mcp_env \<Rightarrow> string \<Rightarrow> string \<Rightarrow> string option \<Rightarrow> tool_act" where
  "get_course_classes M semester_id course_id caller =
     with_input (and_then (SemesterId_parse semester_id) (\<lambda>semester.
         and_then (tool_plain_id course_id ''course id'') (\<lambda>course. Inr (semester, course))))
       (\<lambda>(semester, course). tool_fetch M caller CoursePageClasses_value
         (\<lambda>W. course_page_classes W (me_dom M) semester course))"

definition get_course_detail ::
  "('j, 'd, 'e) mcp_env \<Rightarrow> string \<Rightarrow> string \<Rightarrow> string \<Rightarrow> string option \<Rightarrow> tool_act" where
  "get_course_detail M semester_id erp_id class_id caller =
     with_input (and_then (SemesterId_parse semester_id) (\<lambda>semester.
         and_then (tool_plain_id erp_id ''faculty id'') (\<lambda>erp.
         and_then (tool_plain_id class_id ''class id'') (\<lambda>cls. Inr (semester, erp, cls)))))
       (\<lambda>(semester, erp, cls). tool_fetch M caller CoursePageDetail_value
         (\<lambda>W. course_page_detail W (me_dom M) semester erp cls))"

definition get_course_file :: "('j, 'd, 'e) mcp_env \<Rightarrow> string \<Rightarrow> string option \<Rightarrow> tool_act" where
  "get_course_file M path caller = with_input (CourseFilePath_parse path) (\<lambda>path.
     tool_fetch_file M caller (''vtop://course-page/'' @ path) (\<lambda>W. course_page_file W path))"

definition get_course_plan :: "('j, 'd, 'e) mcp_env \<Rightarrow> string \<Rightarrow> string \<Rightarrow> string option \<Rightarrow> tool_act" where
  "get_course_plan M semester_id class_id caller =
     with_input (and_then (SemesterId_parse semester_id) (\<lambda>semester.
         and_then (tool_plain_id class_id ''class id'') (\<lambda>cls. Inr (semester, cls))))
       (\<lambda>(semester, cls). tool_fetch_file M caller (''vtop://course-plan/'' @ semester @ ''/'' @ cls)
         (\<lambda>W. course_plan W semester cls))"

definition get_biometric_range :: "('j, 'd, 'e) mcp_env \<Rightarrow> string \<Rightarrow> string \<Rightarrow> string option \<Rightarrow> tool_act" where
  "get_biometric_range M start to caller = with_input (biometric_days start to) (\<lambda>days.
     tool_fetch M caller (\<lambda>read. JArr (map BiometricData_value read)) (\<lambda>W. biometric_each W (me_dom M) days []))"

definition get_general_outing :: "('j, 'd, 'e) mcp_env \<Rightarrow> string option \<Rightarrow> tool_act" where
  "get_general_outing M caller = tool_fetch M caller GeneralOutingData_value (\<lambda>W. general_outing W (me_dom M))"

definition get_weekend_outing :: "('j, 'd, 'e) mcp_env \<Rightarrow> string option \<Rightarrow> tool_act" where
  "get_weekend_outing M caller = tool_fetch M caller WeekendOutingData_value (\<lambda>W. weekend_outing W (me_dom M))"

definition get_session :: "('j, 'd, 'e) mcp_env \<Rightarrow> string option \<Rightarrow> tool_act" where
  "get_session M caller = with_caller caller (\<lambda>key.
     or_error (so_session (me_source M) key) (\<lambda>session. answer (json_result M (browser_session (st_cookies session)))))"

definition Identity_value :: "Identity \<Rightarrow> json" where
  "Identity_value i = JObj [(''registrationNumber'', JStr (iy_registration_number i)),
     (''keyLabel'', opt_json (iy_key_label i)), (''semesterId'', opt_json (iy_semester_id i)),
     (''outings'', JBool (iy_outings i))]"

definition key_unknown :: string where
  "key_unknown = ''key_unknown: Unknown or revoked access key.''"

definition tool_whoami :: "('j, 'd, 'e) mcp_env \<Rightarrow> string option \<Rightarrow> tool_act" where
  "tool_whoami M caller = with_caller caller (\<lambda>key.
     or_error (so_whoami (me_source M) key) (\<lambda>identity. answer (case identity of
       Some i \<Rightarrow> json_result M (Identity_value i) | None \<Rightarrow> tool_error key_unknown)))"

end
