(* ===== verification/McpOutings.thy ===== *)
theory McpOutings
  imports McpTools
begin

section \<open>The outing tools (vtop-mcp/src/outings.rs)\<close>

text \<open>
  Applying for an outing and cancelling one take two calls.  The first checks the request against a
  fresh copy of VTOP's form and returns it with a confirmation code; the second, with the same
  arguments and the code, sends it.  The server keeps nothing between the two.
\<close>

definition CONFIRM_SECONDS :: nat where "CONFIRM_SECONDS = 600"

definition WEEKDAYS :: "string list" where
  "WEEKDAYS = [''Sunday'', ''Monday'', ''Tuesday'', ''Wednesday'', ''Thursday'', ''Friday'', ''Saturday'']"

record GeneralOutingArgs =
  go_place :: string
  go_purpose :: string
  go_out_date :: string
  go_out_time :: string
  go_in_date :: string
  go_in_time :: string
  go_confirmation :: "string option"

record WeekendOutingArgs =
  wq_place :: string
  wq_purpose :: string
  wq_date :: string
  wq_time_slot :: string
  wq_contact_number :: string
  wq_confirmation :: "string option"

record CancelOutingArgs =
  co_kind :: string
  co_cancel_id :: string
  co_confirmation :: "string option"

record OutingPassArgs =
  op_kind :: string
  op_pass_id :: string

definition tool_outing_kind :: "string \<Rightarrow> VtopError + OutingKind" where
  "tool_outing_kind raw = (let kind = ascii_lower (trim raw)
     in if kind = ''general'' then Inr General else if kind = ''weekend'' then Inr Weekend
        else Inl (invalid ''kind must be general or weekend''))"

definition parse_u8 :: "string \<Rightarrow> u8 option" where
  "parse_u8 s = map_option of_nat (parse_uint (2 ^ 8) s)"

definition outing_time :: "string \<Rightarrow> VtopError + OutingTime" where
  "outing_time raw =
     (case do { (hour, minute) \<leftarrow> split_once CHR '':'' (trim raw);
           (if length hour \<le> 2 \<and> length minute = 2 then Some () else None);
           h \<leftarrow> parse_u8 hour; m \<leftarrow> parse_u8 minute; Some (h, m) } of
        None \<Rightarrow> Inl (invalid ''time must be 24-hour HH:MM, e.g. 09:30'')
      | Some (h, m) \<Rightarrow> OutingTime_new h m)"

definition tool_today :: "('j, 'd, 'e) mcp_env \<Rightarrow> mcp_world \<Rightarrow> int" where
  "tool_today M s = (int (me_unix M (mw_now s)) + 19800) div 86400"

definition weekday :: "int \<Rightarrow> string" where
  "weekday days = WEEKDAYS ! nat ((days + 4) mod 7)"

definition iso_date :: "int \<Rightarrow> string" where
  "iso_date days = (case civil_date days of (year, month, day) \<Rightarrow>
     pad_int 4 year @ ''-'' @ pad_int 2 month @ ''-'' @ pad_int 2 day)"

subsection \<open>Confirmation codes\<close>

text \<open>What is hashed: each part with a zero byte after it.\<close>

definition confirmed_bytes :: "string \<Rightarrow> string \<Rightarrow> string list \<Rightarrow> nat \<Rightarrow> bytes" where
  "confirmed_bytes key action args expires =
     concat (map (\<lambda>part. as_bytes part @ [0]) ([key, action, show_nat expires] @ args))"

definition confirmation_code ::
  "(bytes \<Rightarrow> bytes) \<Rightarrow> string \<Rightarrow> string \<Rightarrow> string list \<Rightarrow> nat \<Rightarrow> string" where
  "confirmation_code H key action args expires =
     show_nat expires @ ''-'' @ hex (take 12 (H (confirmed_bytes key action args expires)))"

definition new_confirmation ::
  "('j, 'd, 'e) mcp_env \<Rightarrow> string \<Rightarrow> string \<Rightarrow> string list \<Rightarrow> mcp_world \<Rightarrow> string" where
  "new_confirmation M key action args s =
     confirmation_code (me_sha M) key action args (me_unix M (mw_now s) + CONFIRM_SECONDS)"

definition check_confirmation ::
  "('j, 'd, 'e) mcp_env \<Rightarrow> string \<Rightarrow> string \<Rightarrow> string \<Rightarrow> string list \<Rightarrow> mcp_world \<Rightarrow> string + unit" where
  "check_confirmation M code key action args s =
     (case Option.bind (split_once CHR ''-'' (trim code)) (\<lambda>(expires, _). parse_uint (2 ^ 64) expires) of
        None \<Rightarrow> Inl ''confirmation is not one this tool gave; call without it first''
      | Some expires \<Rightarrow>
          if expires < me_unix M (mw_now s) then
            Inl ''confirmation expired; call without it to check the request again''
          else if confirmation_code (me_sha M) key action args expires \<noteq> trim code then
            Inl (''confirmation does not match this request: the arguments changed, so call '' @
              ''without it, show the student the new request and get their yes again'')
          else Inr ())"

definition with_confirmation ::
  "('j, 'd, 'e) mcp_env \<Rightarrow> string \<Rightarrow> string \<Rightarrow> string \<Rightarrow> string list \<Rightarrow> tool_act \<Rightarrow> tool_act" where
  "with_confirmation M code key action args m s =
     (case check_confirmation M code key action args s of
        Inl message \<Rightarrow> (tool_error message, s) | Inr _ \<Rightarrow> m s)"

subsection \<open>Checks of the dates\<close>

definition student_json :: "OutingStudent \<Rightarrow> json" where
  "student_json st = to_value [(''name'', JStr (os_name st)),
     (''registration_number'', JStr (os_registration_number st)),
     (''hostel_block'', JStr (os_hostel_block st)), (''room_number'', JStr (os_room_number st))]"

definition closed :: "string \<Rightarrow> string" where
  "closed message = (if message = [] then ''VTOP is not taking outing applications right now''
     else ''VTOP is not taking outing applications: '' @ message)"

text \<open>A date, hour and minute are before another's.\<close>

definition not_later :: "int \<times> nat \<times> nat \<Rightarrow> int \<times> nat \<times> nat \<Rightarrow> bool" where
  "not_later a b \<longleftrightarrow> (case (a, b) of ((d, h, m), (d', h', m')) \<Rightarrow>
     d < d' \<or> (d = d' \<and> (h < h' \<or> (h = h' \<and> m \<le> m'))))"

definition check_general_dates :: "GeneralOutingData \<Rightarrow> GeneralOutingApplication \<Rightarrow> int \<Rightarrow> VtopError + unit" where
  "check_general_dates form application today =
     (let out = day_number (ga_out_date application); return = day_number (ga_in_date application)
      in if out < today then Inl (invalid ''leaving date is in the past'')
         else if gd_max_days_ahead form > 0 \<and> out > today + int (gd_max_days_ahead form) then
           Inl (invalid (''leaving date can be at most '' @ show_nat (gd_max_days_ahead form) @ '' days ahead''))
         else if not_later (return, unat (ot_hour (ga_in_time application)), unat (ot_minute (ga_in_time application)))
             (out, unat (ot_hour (ga_out_time application)), unat (ot_minute (ga_out_time application))) then
           Inl (invalid ''return must be after leaving'')
         else if gd_max_days_away form > 0 \<and> return > out + int (gd_max_days_away form) then
           Inl (invalid (''return date can be at most '' @ show_nat (gd_max_days_away form) @ '' days after leaving''))
         else Inr ())"

definition check_weekend_date :: "WeekendOutingData \<Rightarrow> WeekendOutingApplication \<Rightarrow> int \<Rightarrow> VtopError + unit" where
  "check_weekend_date form application today =
     (let date = day_number (wa_date application); day = nat ((date + 4) mod 7)
      in if wd_max_days_ahead form > 0 \<and> date > today + int (wd_max_days_ahead form) then
           Inl (invalid (''outing date can be at most '' @ show_nat (wd_max_days_ahead form) @ '' days ahead''))
         else if wd_weekdays form \<noteq> [] \<and> day \<notin> set (wd_weekdays form) then
           Inl (invalid (''weekend outings can only be on '' @
             join_text '', '' (map (\<lambda>d. WEEKDAYS ! (d mod 7)) (wd_weekdays form))))
         else Inr ())"

definition hhmm :: "OutingTime \<Rightarrow> string" where
  "hhmm t = pad2 (unat (ot_hour t)) @ '':'' @ pad2 (unat (ot_minute t))"

text \<open>The arrow between menu entries, in UTF-8.\<close>

definition menu_arrow :: string where
  "menu_arrow = '' '' @ [CHR 0xE2, CHR 0x86, CHR 0x92] @ '' ''"

definition OUTINGS_OFF :: string where
  "OUTINGS_OFF = ''outings_off: The student has not allowed this access key to apply for or cancel outings. '' @
     ''They can turn it on in VITAP Mate'' @ menu_arrow @ ''Settings'' @ menu_arrow @ ''Connected apps'' @
     menu_arrow @ ''this key'' @ menu_arrow @ ''Allow outing applications. Reading outings still works.''"

text \<open>The caller's key if the student lets it act, asked anew each time; or the error.\<close>

definition with_outing_caller :: "('j, 'd, 'e) mcp_env \<Rightarrow> string option \<Rightarrow> (string \<Rightarrow> tool_act) \<Rightarrow> tool_act" where
  "with_outing_caller M caller f = with_caller caller (\<lambda>key s.
     case so_whoami (me_source M) key s of
       (Inl message, s) \<Rightarrow> (tool_error message, s)
     | (Inr None, s) \<Rightarrow> (tool_error key_unknown, s)
     | (Inr (Some identity), s) \<Rightarrow> if iy_outings identity then f key s else (tool_error OUTINGS_OFF, s))"

subsection \<open>Applying\<close>

definition general_application :: "GeneralOutingArgs \<Rightarrow> VtopError + GeneralOutingApplication" where
  "general_application a =
     and_then (OutingDate_parse (trim (go_out_date a))) (\<lambda>out_date.
     and_then (outing_time (go_out_time a)) (\<lambda>out_time.
     and_then (OutingDate_parse (trim (go_in_date a))) (\<lambda>in_date.
     and_then (outing_time (go_in_time a)) (\<lambda>in_time.
       Inr \<lparr>ga_place = words (go_place a), ga_purpose = words (go_purpose a), ga_out_date = out_date,
         ga_out_time = out_time, ga_in_date = in_date, ga_in_time = in_time\<rparr>))))"

definition general_args :: "GeneralOutingApplication \<Rightarrow> string list" where
  "general_args ga = [ga_place ga, ga_purpose ga, ga_out_date ga, hhmm (ga_out_time ga), ga_in_date ga,
     hhmm (ga_in_time ga)]"

definition checked_request :: "VtopError + unit \<Rightarrow> tool_act \<Rightarrow> tool_act" where
  "checked_request r f = (case r of
     Inl e \<Rightarrow> answer (tool_error (''VTOP would not take this request: '' @ VtopError_text e))
   | Inr _ \<Rightarrow> f)"

definition preview_general ::
  "('j, 'd, 'e) mcp_env \<Rightarrow> string \<Rightarrow> GeneralOutingApplication \<Rightarrow> tool_act" where
  "preview_general M key ga =
     or_error (with_retry M key (\<lambda>W. general_outing W (me_dom M))) (\<lambda>form s.
       case gd_student form of
         None \<Rightarrow> (tool_error (closed (gd_notice form)), s)
       | Some st \<Rightarrow>
           checked_request (and_then (check_general_outing form ga) (\<lambda>_. check_general_dates form ga (tool_today M s)))
             (answer (json_result M (to_value [(''sent'', JBool False),
               (''request'', to_value [(''place'', JStr (ga_place ga)), (''purpose'', JStr (ga_purpose ga)),
                 (''leaving'', JStr (weekday (day_number (ga_out_date ga)) @ '' '' @ ga_out_date ga @ '', '' @
                    hhmm (ga_out_time ga))),
                 (''returning'', JStr (weekday (day_number (ga_in_date ga)) @ '' '' @ ga_in_date ga @ '', '' @
                    hhmm (ga_in_time ga)))]),
               (''for'', student_json st),
               (''confirmation'', JStr (new_confirmation M key ''apply_general_outing'' (general_args ga) s)),
               (''next'', JStr (''Show the student this request and ask them to confirm. Only if they say yes, call '' @
                  ''apply_general_outing again with the same arguments and this confirmation.''))]))) s)"

definition already_general :: VtopError where
  "already_general = invalid
     ''a request for this place and leaving date is already on VTOP; see get_general_outing''"

text \<open>A request that VTOP already lists is not sent again.\<close>

definition file_general ::
  "('d, 'e) dom \<Rightarrow> GeneralOutingApplication \<Rightarrow> 'j web \<Rightarrow> ('j VtopClient, OutingApplyResult) act" where
  "file_general D ga W = andthen (general_outing W D) (\<lambda>form.
     if list_ex (\<lambda>r. gr_from_date r = iso_date (day_number (ga_out_date ga)) \<and>
          eq_ignore_ascii_case (gr_place r) (ga_place ga)) (gd_records form)
     then fail already_general else apply_general_outing W D ga)"

definition OutingApplyResult_value :: "OutingApplyResult \<Rightarrow> json" where
  "OutingApplyResult_value r = JObj [(''applied'', JBool (oa_applied r)), (''message'', JStr (oa_message r))]"

definition tool_apply_general :: "('j, 'd, 'e) mcp_env \<Rightarrow> GeneralOutingArgs \<Rightarrow> string option \<Rightarrow> tool_act" where
  "tool_apply_general M a caller = with_outing_caller M caller (\<lambda>key.
     with_input (general_application a) (\<lambda>ga.
       case go_confirmation a of
         None \<Rightarrow> preview_general M key ga
       | Some code \<Rightarrow> with_confirmation M code key ''apply_general_outing'' (general_args ga)
           (or_error (with_retry M key (file_general (me_dom M) ga)) (\<lambda>r.
             answer (json_result M (OutingApplyResult_value r))))))"

definition weekend_application :: "WeekendOutingArgs \<Rightarrow> VtopError + WeekendOutingApplication" where
  "weekend_application a =
     and_then (OutingDate_parse (trim (wq_date a))) (\<lambda>date.
     and_then (ContactNumber_parse (wq_contact_number a)) (\<lambda>contact_number.
       Inr \<lparr>wa_place = trim (wq_place a), wa_purpose = words (wq_purpose a), wa_date = date,
         wa_time_slot = trim (wq_time_slot a), wa_contact_number = contact_number\<rparr>))"

definition weekend_args :: "WeekendOutingApplication \<Rightarrow> string list" where
  "weekend_args wa = [wa_place wa, wa_purpose wa, wa_date wa, wa_time_slot wa, wa_contact_number wa]"

definition option_label :: "OutingOption list \<Rightarrow> string \<Rightarrow> string" where
  "option_label opts value = (case find (\<lambda>p. oo_value p = value) opts of
     None \<Rightarrow> value | Some p \<Rightarrow> oo_label p)"

definition preview_weekend ::
  "('j, 'd, 'e) mcp_env \<Rightarrow> string \<Rightarrow> WeekendOutingApplication \<Rightarrow> tool_act" where
  "preview_weekend M key wa =
     or_error (with_retry M key (\<lambda>W. weekend_outing W (me_dom M))) (\<lambda>form s.
       case wd_student form of
         None \<Rightarrow> (tool_error (closed (wd_notice form)), s)
       | Some st \<Rightarrow>
           checked_request (and_then (check_weekend_outing form wa (me_unix M (mw_now s)))
               (\<lambda>_. check_weekend_date form wa (tool_today M s)))
             (answer (json_result M (to_value [(''sent'', JBool False),
               (''request'', to_value [(''place'', JStr (option_label (wd_places form) (wa_place wa))),
                 (''purpose'', JStr (wa_purpose wa)),
                 (''date'', JStr (weekday (day_number (wa_date wa)) @ '' '' @ wa_date wa)),
                 (''time_slot'', JStr (option_label (wd_time_slots form) (wa_time_slot wa))),
                 (''contact_number'', JStr (wa_contact_number wa))]),
               (''for'', student_json st),
               (''confirmation'', JStr (new_confirmation M key ''apply_weekend_outing'' (weekend_args wa) s)),
               (''next'', JStr (''Show the student this request and ask them to confirm. Only if they say yes, call '' @
                  ''apply_weekend_outing again with the same arguments and this confirmation.''))]))) s)"

definition already_weekend :: VtopError where
  "already_weekend = invalid ''a weekend outing for this date is already on VTOP; see get_weekend_outing''"

definition file_weekend ::
  "('d, 'e) dom \<Rightarrow> WeekendOutingApplication \<Rightarrow> 'j web \<Rightarrow> ('j VtopClient, OutingApplyResult) act" where
  "file_weekend D wa W = andthen (weekend_outing W D) (\<lambda>form.
     if list_ex (\<lambda>r. wo_date r = iso_date (day_number (wa_date wa))) (wd_records form)
     then fail already_weekend else apply_weekend_outing W D wa)"

definition tool_apply_weekend :: "('j, 'd, 'e) mcp_env \<Rightarrow> WeekendOutingArgs \<Rightarrow> string option \<Rightarrow> tool_act" where
  "tool_apply_weekend M a caller = with_outing_caller M caller (\<lambda>key.
     with_input (weekend_application a) (\<lambda>wa.
       case wq_confirmation a of
         None \<Rightarrow> preview_weekend M key wa
       | Some code \<Rightarrow> with_confirmation M code key ''apply_weekend_outing'' (weekend_args wa)
           (or_error (with_retry M key (file_weekend (me_dom M) wa)) (\<lambda>r.
             answer (json_result M (OutingApplyResult_value r))))))"

subsection \<open>Cancelling, and the pass\<close>

definition kind_name :: "OutingKind \<Rightarrow> string" where
  "kind_name kind = (case kind of General \<Rightarrow> ''general'' | Weekend \<Rightarrow> ''weekend'')"

definition listed_request ::
  "('d, 'e) dom \<Rightarrow> OutingKind \<Rightarrow> string \<Rightarrow> 'j web \<Rightarrow> ('j VtopClient, json option) act" where
  "listed_request D kind ident W = (case kind of
     General \<Rightarrow> andthen (general_outing W D) (\<lambda>form.
       ret (map_option GeneralOutingRecord_value (find (\<lambda>r. gr_cancel_id r = ident) (gd_records form))))
   | Weekend \<Rightarrow> andthen (weekend_outing W D) (\<lambda>form.
       ret (map_option WeekendOutingRecord_value (find (\<lambda>r. wo_cancel_id r = ident) (wd_records form)))))"

definition preview_cancel :: "('j, 'd, 'e) mcp_env \<Rightarrow> string \<Rightarrow> OutingKind \<Rightarrow> string \<Rightarrow> tool_act" where
  "preview_cancel M key kind ident =
     or_error (with_retry M key (listed_request (me_dom M) kind ident)) (\<lambda>listed s. (case listed of
       None \<Rightarrow> tool_error (''no request with that cancel_id that VTOP still lets be cancelled; '' @
         ''it may be approved already'')
     | Some record \<Rightarrow> json_result M (to_value [(''cancelled'', JBool False), (''request'', record),
         (''confirmation'', JStr (new_confirmation M key ''cancel_outing'' [kind_name kind, ident] s)),
         (''next'', JStr (''Show the student this request and ask them to confirm cancelling it. Only if they say yes, '' @
            ''call cancel_outing again with the same arguments and this confirmation.''))]), s))"

definition cancel_listed ::
  "('d, 'e) dom \<Rightarrow> OutingKind \<Rightarrow> string \<Rightarrow> 'j web \<Rightarrow> ('j VtopClient, OutingCancelResult) act" where
  "cancel_listed D kind ident W = (case kind of
     General \<Rightarrow> cancel_general_outing W D ident | Weekend \<Rightarrow> cancel_weekend_outing W D ident)"

definition OutingCancelResult_value :: "OutingCancelResult \<Rightarrow> json" where
  "OutingCancelResult_value r = JObj [(''cancelled'', JBool (oc_cancelled r)), (''message'', JStr (oc_message r))]"

definition kind_and_id :: "string \<Rightarrow> string \<Rightarrow> VtopError + OutingKind \<times> string" where
  "kind_and_id kind ident = and_then (tool_outing_kind kind) (\<lambda>kind. and_then (OutingPassId_parse ident) (\<lambda>ident.
     Inr (kind, ident)))"

definition tool_cancel_outing :: "('j, 'd, 'e) mcp_env \<Rightarrow> CancelOutingArgs \<Rightarrow> string option \<Rightarrow> tool_act" where
  "tool_cancel_outing M a caller = with_outing_caller M caller (\<lambda>key.
     with_input (kind_and_id (co_kind a) (co_cancel_id a)) (\<lambda>(kind, ident).
       case co_confirmation a of
         None \<Rightarrow> preview_cancel M key kind ident
       | Some code \<Rightarrow> with_confirmation M code key ''cancel_outing'' [kind_name kind, ident]
           (or_error (with_retry M key (cancel_listed (me_dom M) kind ident)) (\<lambda>r.
             answer (json_result M (OutingCancelResult_value r))))))"

definition get_outing_pass :: "('j, 'd, 'e) mcp_env \<Rightarrow> OutingPassArgs \<Rightarrow> string option \<Rightarrow> tool_act" where
  "get_outing_pass M a caller = with_caller caller (\<lambda>key.
     with_input (kind_and_id (op_kind a) (op_pass_id a)) (\<lambda>(kind, ident).
       or_error (with_retry M key (\<lambda>W. outing_pass W kind ident)) (\<lambda>b.
         answer (file_result M (ident @ ''.pdf'') ''application/pdf'' b (''vtop://outing-pass/'' @ ident)))))"

subsection \<open>All the tools\<close>

text \<open>A call of a tool, with its arguments, and what the routers run for it.\<close>

datatype ToolCall =
    GetSemesters
  | GetAttendance string
  | GetFullAttendance string string string
  | GetTimetable string
  | GetMarks string
  | GetExamSchedule string
  | GetGrades string
  | GetGradeDetails string string
  | GetGradeHistory
  | GetBiometric string
  | GetProfile
  | GetMentor
  | GetAcademicCalendar string
  | GetCourses string
  | GetCourseClasses string string
  | GetCourseDetail string string string
  | GetCourseFile string
  | GetCoursePlan string string
  | GetBiometricRange string string
  | GetGeneralOuting
  | GetWeekendOuting
  | GetSession
  | Whoami
  | ApplyGeneralOuting GeneralOutingArgs
  | ApplyWeekendOuting WeekendOutingArgs
  | CancelOuting CancelOutingArgs
  | GetOutingPass OutingPassArgs

fun run_tool :: "('j, 'd, 'e) mcp_env \<Rightarrow> ToolCall \<Rightarrow> string option \<Rightarrow> tool_act" where
  "run_tool M GetSemesters = get_semesters M"
| "run_tool M (GetAttendance s) = get_attendance M s"
| "run_tool M (GetFullAttendance s c k) = get_full_attendance M s c k"
| "run_tool M (GetTimetable s) = get_timetable M s"
| "run_tool M (GetMarks s) = get_marks M s"
| "run_tool M (GetExamSchedule s) = get_exam_schedule M s"
| "run_tool M (GetGrades s) = get_grades M s"
| "run_tool M (GetGradeDetails s c) = get_grade_details M s c"
| "run_tool M GetGradeHistory = get_grade_history M"
| "run_tool M (GetBiometric d) = get_biometric M d"
| "run_tool M GetProfile = get_profile M"
| "run_tool M GetMentor = get_mentor M"
| "run_tool M (GetAcademicCalendar s) = get_academic_calendar M s"
| "run_tool M (GetCourses s) = get_courses M s"
| "run_tool M (GetCourseClasses s c) = get_course_classes M s c"
| "run_tool M (GetCourseDetail s e c) = get_course_detail M s e c"
| "run_tool M (GetCourseFile p) = get_course_file M p"
| "run_tool M (GetCoursePlan s c) = get_course_plan M s c"
| "run_tool M (GetBiometricRange a b) = get_biometric_range M a b"
| "run_tool M GetGeneralOuting = get_general_outing M"
| "run_tool M GetWeekendOuting = get_weekend_outing M"
| "run_tool M GetSession = get_session M"
| "run_tool M Whoami = tool_whoami M"
| "run_tool M (ApplyGeneralOuting a) = tool_apply_general M a"
| "run_tool M (ApplyWeekendOuting a) = tool_apply_weekend M a"
| "run_tool M (CancelOuting a) = tool_cancel_outing M a"
| "run_tool M (GetOutingPass a) = get_outing_pass M a"

text \<open>A request to the server: its key is checked, and the tool runs for that key.\<close>

definition mcp_serve ::
  "('j, 'd, 'e) mcp_env \<Rightarrow> nat \<Rightarrow> McpRequest \<Rightarrow> ToolCall \<Rightarrow> mcp_world \<Rightarrow>
   (McpAnswer \<times> CallToolResult option) \<times> mcp_world" where
  "mcp_serve M key_ttl rq t s =
     (case require_bearer (me_sha M) (me_source M) key_ttl rq s of
        (Served key, s) \<Rightarrow> (case run_tool M t (Some key) s of (r, s) \<Rightarrow> ((Served key, Some r), s))
      | (a, s) \<Rightarrow> ((a, None), s))"

text \<open>The requests a server answers, one after another, and the time between them.\<close>

inductive mcp_run :: "('j, 'd, 'e) mcp_env \<Rightarrow> nat \<Rightarrow> mcp_world \<Rightarrow> bool" for M key_ttl where
  start: "mcp_run M key_ttl mcp_start"
| serve: "mcp_run M key_ttl s \<Longrightarrow> mcp_serve M key_ttl rq t s = (a, s') \<Longrightarrow> mcp_run M key_ttl s'"
| wait: "mcp_run M key_ttl s \<Longrightarrow> mcp_run M key_ttl (s\<lparr>mw_now := mw_now s + ms\<rparr>)"

end
