(* ===== verification/McpSessions.thy ===== *)
theory McpSessions
  imports McpOutings
begin

section \<open>What the tools rely on of their sessions\<close>

text \<open>
  The contract of \<^verbatim>\<open>SessionSource\<close>: a session for a key is one the bridge handed out for this
  very key, and not long ago.  The bridge's client keeps it, and so does the cache before a source
  that does.  What the tools do with sessions is proved once from the contract.
\<close>

subsection \<open>What the bridge handed out\<close>

definition granted :: "bridge_edge \<Rightarrow> (nat \<times> BridgeRequest) list \<Rightarrow> nat \<Rightarrow> string \<Rightarrow> SessionState \<Rightarrow> bool" where
  "granted E asked n key st \<longleftrightarrow> n < length asked \<and> bq_key (snd (asked ! n)) = key \<and>
     (\<exists>content. be_http E (take (Suc n) asked) = Inr (200, content) \<and> session_of (body_of E content) = Inr st)"

definition answered_at :: "bridge_edge \<Rightarrow> (nat \<times> BridgeRequest) list \<Rightarrow> nat \<Rightarrow> nat" where
  "answered_at E asked n = fst (asked ! n) + be_took E (take (Suc n) asked)"

definition later :: "mcp_world \<Rightarrow> mcp_world \<Rightarrow> bool" where
  "later s s' \<longleftrightarrow> prefix (mw_asked s) (mw_asked s') \<and> mw_now s \<le> mw_now s' \<and> mw_used s' = mw_used s"

lemma later_refl [simp]: "later s s"
  by (simp add: later_def)

lemma later_trans [trans]: "later s s1 \<Longrightarrow> later s1 s2 \<Longrightarrow> later s s2"
  by (auto simp: later_def)

lemma granted_prefix:
  assumes "granted E asked n key st" "prefix asked asked'"
  shows "granted E asked' n key st" "answered_at E asked' n = answered_at E asked n"
  using assms by (auto simp: granted_def answered_at_def prefix_def nth_append)

text \<open>The last answer of the bridge, which came now.\<close>

definition bridge_answered :: "bridge_edge \<Rightarrow> BridgeRequest \<Rightarrow> nat \<Rightarrow> json \<Rightarrow> mcp_world \<Rightarrow> bool" where
  "bridge_answered E rq status body s \<longleftrightarrow> mw_asked s \<noteq> [] \<and> snd (last (mw_asked s)) = rq \<and>
     mw_now s = fst (last (mw_asked s)) + be_took E (mw_asked s) \<and>
     (\<exists>content. be_http E (mw_asked s) = Inr (status, content) \<and> body = body_of E content)"

lemma answered_granted:
  assumes "bridge_answered E rq 200 body s" "session_of body = Inr st"
  shows "\<exists>n. granted E (mw_asked s) n (bq_key rq) st \<and> mw_now s = answered_at E (mw_asked s) n"
  using assms
  by (intro exI [of _ "length (mw_asked s) - 1"])
    (auto simp: bridge_answered_def granted_def answered_at_def last_conv_nth)

lemma ask_answer:
  assumes "ask E rq s = (a, s')"
  shows "later s s'" "mw_kept s' = mw_kept s" "mw_known s' = mw_known s"
    "a = Inr (status, content) \<Longrightarrow> bridge_answered E rq status (body_of E content) s'"
  using assms by (auto simp: ask_def Let_def later_def bridge_answered_def)

lemma pause_later [simp]: "later s (pause E ms s)" "mw_kept (pause E ms s) = mw_kept s"
  "mw_known (pause E ms s) = mw_known s"
  by (simp_all add: pause_def later_def)

lemma call_answer:
  "call_from E rq n s = (r, s') \<Longrightarrow> later s s' \<and> mw_kept s' = mw_kept s \<and> mw_known s' = mw_known s \<and>
     (\<forall>status body. r = Inr (status, body) \<longrightarrow> bridge_answered E rq status body s')"
proof (induction E rq n s rule: call_from.induct)
  case (1 E rq n s)
  obtain a s1 where a: "ask E rq s = (a, s1)" by (cases "ask E rq s")
  note s1 = ask_answer [OF a]
  show ?case
  proof (cases a)
    case (Inl e)
    show ?thesis
    proof (cases "n = 1")
      case True
      with "1.prems" have "call_from E rq (n + 1) s1 = (r, s')" using a Inl by (subst (asm) call_from.simps) simp
      from "1.IH"(1) [OF a [symmetric] Inl True this] s1 show ?thesis using later_trans by metis
    next
      case False
      with "1.prems" have "s' = s1" "\<exists>m. r = Inl m" using a Inl by (subst (asm) call_from.simps, auto)+
      then show ?thesis using s1 by auto
    qed
  next
    case (Inr x)
    obtain status b where x: "x = (status, b)" by (cases x)
    have p: "later s (pause E 500 s1)" using s1(1) pause_later(1) later_trans by blast
    show ?thesis
    proof (cases "(status \<in> {502, 503} \<and> j_get (body_of E b) ''code'' = None) \<and> n = 1")
      case True
      with "1.prems" have "call_from E rq (n + 1) (pause E 500 s1) = (r, s')"
        using a Inr x by (subst (asm) call_from.simps) simp
      from "1.IH"(2) [OF a [symmetric] Inr x [symmetric] refl refl True this] p s1
      show ?thesis using later_trans by (metis pause_later(2,3))
    next
      case False
      with "1.prems" have "s' = s1" "r = Inr (status, body_of E b)"
        using a Inr x by (subst (asm) call_from.simps, auto simp: Let_def split: if_splits)+
      then show ?thesis using s1 Inr x by auto
    qed
  qed
qed

lemma mthen_cases:
  assumes "mthen m f s = (r, s')"
  obtains e where "m s = (Inl e, s')" "r = Inl e" | x s1 where "m s = (Inr x, s1)" "f x s1 = (r, s')"
  using assms that by (auto simp: mthen_def split: prod.splits sum.splits)

text \<open>What a step of the source leaves as it is.\<close>

definition steady :: "mcp_world \<Rightarrow> mcp_world \<Rightarrow> bool" where
  "steady s s' \<longleftrightarrow> later s s' \<and> mw_kept s' = mw_kept s \<and> mw_known s' = mw_known s"

lemma steady_trans: "steady s s1 \<Longrightarrow> steady s1 s2 \<Longrightarrow> steady s s2"
  unfolding steady_def using later_trans by metis

lemma bridge_call_answer:
  assumes "bridge_call E base_url post path key s = (r, s')"
  shows "steady s s'"
    "r = Inr (status, body) \<Longrightarrow> bridge_answered E \<lparr>bq_post = post, bq_path = base_url @ path, bq_key = key\<rparr> status body s'"
  using call_answer [OF assms [unfolded bridge_call_def]] by (auto simp: steady_def)

lemma bridge_whoami_steady: "bridge_whoami E base_url key s = (r, s') \<Longrightarrow> steady s s'"
  unfolding bridge_whoami_def
  by (erule mthen_cases) (auto dest!: bridge_call_answer(1) simp: mret_def mfail_def split: if_splits)

lemma bridge_expire_steady: "bridge_expire E base_url key s = (r, s') \<Longrightarrow> steady s s'"
  unfolding bridge_expire_def
  by (erule mthen_cases) (auto dest!: bridge_call_answer(1) simp: mret_def mfail_def split: if_splits)

lemma wait_granted:
  "session_wait E base_url key path body deadline s = (r, s') \<Longrightarrow> steady s s' \<and>
     (\<forall>st. r = Inr st \<longrightarrow> (\<exists>n. granted E (mw_asked s') n key st \<and> mw_now s' = answered_at E (mw_asked s') n))"
proof (induction E base_url key path body deadline s rule: session_wait.induct)
  case (1 E base_url key path body deadline s)
  obtain a s1 where a: "bridge_call E base_url False path key (pause E (poll_after body) s) = (a, s1)"
    by (cases "bridge_call E base_url False path key (pause E (poll_after body) s)")
  have s1: "steady s s1"
    using bridge_call_answer(1) [OF a] pause_later later_trans unfolding steady_def by metis
  note run = "1.prems" [unfolded session_wait.simps [of E base_url key path body deadline s] a]
  show ?case
  proof (cases a)
    case (Inl e)
    then show ?thesis using run s1 by auto
  next
    case (Inr x)
    obtain status b where x: "x = (status, b)" by (cases x)
    note ans = bridge_call_answer(2) [OF a Inr [unfolded x]]
    show ?thesis
    proof (cases "pending_answer status b")
      case (Some p)
      then have "r = p" "s' = s1" using run Inr x by auto
      moreover have "status = 200 \<and> session_of b = Inr st" if "p = Inr st" for st
        using Some that by (auto simp: pending_answer_def split: if_splits)
      ultimately show ?thesis using s1 ans answered_granted by (metis BridgeRequest.select_convs(3))
    next
      case None
      show ?thesis
      proof (cases "deadline \<le> mw_now s1")
        case True
        then show ?thesis using run Inr x None s1 by auto
      next
        case False
        then have "session_wait E base_url key path body deadline s1 = (r, s')" using run Inr x None by simp
        from "1.IH" [OF a [symmetric] Inr x [symmetric] None False this] s1 steady_trans show ?thesis by blast
      qed
    qed
  qed
qed

lemma bridge_session_granted:
  assumes "bridge_session E base_url key s = (r, s')"
  shows "steady s s'"
    "r = Inr st \<Longrightarrow> \<exists>n. granted E (mw_asked s') n key st \<and> mw_now s' = answered_at E (mw_asked s') n"
proof -
  have "steady s s' \<and> (\<forall>st. r = Inr st \<longrightarrow>
      (\<exists>n. granted E (mw_asked s') n key st \<and> mw_now s' = answered_at E (mw_asked s') n))"
    using assms unfolding bridge_session_def
  proof (rule mthen_cases, goal_cases)
    case (1 e)
    then show ?thesis using bridge_call_answer(1) by blast
  next
    case (2 x s1)
    obtain status b where x: "x = (status, b)" by (cases x)
    note c = 2(1) [unfolded x]
    note s1 = bridge_call_answer(1) [OF c] and ans = bridge_call_answer(2) [OF c refl]
    consider "status = 200" | "status \<noteq> 200" "status \<noteq> 202" | "status = 202" by blast
    then show ?thesis
    proof cases
      case 1
      then have "r = session_of b" "s' = s1" using 2(2) x by auto
      then show ?thesis using s1 ans 1 answered_granted by (metis BridgeRequest.select_convs(3))
    next
      case 2
      then show ?thesis using \<open>(case x of (status, body) \<Rightarrow> _ status body) s1 = (r, s')\<close> x s1 by (auto simp: mfail_def)
    next
      case 3
      show ?thesis
      proof (cases "j_field b ''requestId''")
        case None
        then show ?thesis using 2(2) x 3 s1 by (auto simp: mfail_def)
      next
        case (Some i)
        then have "session_wait E base_url key (''/v1/session/requests/'' @ i) b (mw_now s1 + PENDING_WAIT) s1 = (r, s')"
          using 2(2) x 3 by simp
        from wait_granted [OF this] s1 steady_trans show ?thesis by blast
      qed
    qed
  qed
  then show "steady s s'"
    "r = Inr st \<Longrightarrow> \<exists>n. granted E (mw_asked s') n key st \<and> mw_now s' = answered_at E (mw_asked s') n" by auto
qed

subsection \<open>The contract\<close>

text \<open>A use of VTOP for a key: on a session the bridge granted it, at most \<open>ttl\<close> earlier.\<close>

definition good_use :: "bridge_edge \<Rightarrow> (nat \<times> BridgeRequest) list \<Rightarrow> nat \<Rightarrow> string \<Rightarrow> VtopUse \<Rightarrow> bool" where
  "good_use E asked ttl key u \<longleftrightarrow> vu_key u = key \<and> (\<exists>n. granted E asked n key (vu_session u) \<and>
     answered_at E asked n \<le> vu_at u \<and> vu_at u \<le> answered_at E asked n + ttl)"

definition advances :: "bridge_edge \<Rightarrow> nat \<Rightarrow> string \<Rightarrow> mcp_world \<Rightarrow> mcp_world \<Rightarrow> bool" where
  "advances E ttl key s s' \<longleftrightarrow> prefix (mw_asked s) (mw_asked s') \<and> mw_now s \<le> mw_now s' \<and> mw_known s' = mw_known s \<and>
     (\<exists>us. mw_used s' = mw_used s @ us \<and> (\<forall>u \<in> set us. good_use E (mw_asked s') ttl key u))"

lemma good_use_prefix: "good_use E asked ttl key u \<Longrightarrow> prefix asked asked' \<Longrightarrow> good_use E asked' ttl key u"
  unfolding good_use_def using granted_prefix by metis

lemma advances_later: "later s s' \<Longrightarrow> mw_known s' = mw_known s \<Longrightarrow> advances E ttl key s s'"
  by (auto simp: later_def advances_def)

lemma advances_refl [simp]: "advances E ttl key s s"
  by (simp add: advances_later)

lemma advances_trans:
  assumes "advances E ttl key s s1" "advances E ttl key s1 s2" shows "advances E ttl key s s2"
proof -
  from assms obtain us us' where u: "mw_used s1 = mw_used s @ us" "mw_used s2 = mw_used s1 @ us'"
    and g: "\<forall>u \<in> set us. good_use E (mw_asked s1) ttl key u" "\<forall>u \<in> set us'. good_use E (mw_asked s2) ttl key u"
    by (auto simp: advances_def)
  moreover have "\<forall>u \<in> set us. good_use E (mw_asked s2) ttl key u"
    using g(1) assms(2) good_use_prefix unfolding advances_def by blast
  ultimately show ?thesis using assms by (auto simp: advances_def)
qed

locale session_source =
  fixes E :: bridge_edge and src :: SessionSource and ttl :: nat and fine :: "mcp_world \<Rightarrow> bool"
  assumes whoami_law: "fine s \<Longrightarrow> so_whoami src key s = (i, s') \<Longrightarrow> fine s' \<and> later s s' \<and> mw_known s' = mw_known s"
    and expire_law: "fine s \<Longrightarrow> so_expire src key s = (x, s') \<Longrightarrow> fine s' \<and> later s s' \<and> mw_known s' = mw_known s"
    and session_law: "fine s \<Longrightarrow> so_session src key s = (r, s') \<Longrightarrow> fine s' \<and> later s s' \<and> mw_known s' = mw_known s \<and>
      (\<forall>st. r = Inr st \<longrightarrow> (\<exists>n. granted E (mw_asked s') n key st \<and> answered_at E (mw_asked s') n \<le> mw_now s' \<and>
         mw_now s' \<le> answered_at E (mw_asked s') n + ttl))"
    and time_law: "fine s \<Longrightarrow> mw_asked s' = mw_asked s \<Longrightarrow> mw_kept s' = mw_kept s \<Longrightarrow> mw_now s \<le> mw_now s' \<Longrightarrow> fine s'"
begin

text \<open>Steps that use VTOP for one key only.\<close>

definition for_key :: "string \<Rightarrow> (mcp_world \<Rightarrow> 'r \<times> mcp_world) \<Rightarrow> bool" where
  "for_key key m \<longleftrightarrow> (\<forall>s r s'. fine s \<longrightarrow> m s = (r, s') \<longrightarrow> fine s' \<and> advances E ttl key s s')"

lemma for_keyD: "for_key key m \<Longrightarrow> fine s \<Longrightarrow> m s = (r, s') \<Longrightarrow> fine s' \<and> advances E ttl key s s'"
  unfolding for_key_def by blast

lemma for_keyI: "(\<And>s r s'. fine s \<Longrightarrow> m s = (r, s') \<Longrightarrow> fine s' \<and> advances E ttl key s s') \<Longrightarrow> for_key key m"
  unfolding for_key_def by blast

lemma noted_for_key:
  assumes "fine s" "granted E (mw_asked s) n key session"
    and "answered_at E (mw_asked s) n \<le> mw_now s" "mw_now s \<le> answered_at E (mw_asked s) n + ttl"
  shows "fine (noted_use M key session c s)" "advances E ttl key s (noted_use M key session c s)"
proof -
  show "fine (noted_use M key session c s)" by (rule time_law [OF assms(1)]) (simp_all add: noted_use_def)
  show "advances E ttl key s (noted_use M key session c s)"
    using assms by (auto simp: advances_def noted_use_def good_use_def)
qed

lemma retry_for_key:
  assumes "me_source M = src"
  shows "fine s \<Longrightarrow> with_retry_from M key call retried s = (r, s') \<Longrightarrow> fine s' \<and> advances E ttl key s s'"
proof (induction "if retried then 0 else (1 :: nat)" arbitrary: retried s r s' rule: less_induct)
  case less
  obtain q s1 where q: "so_session (me_source M) key s = (q, s1)" by (cases "so_session (me_source M) key s")
  note law = session_law [OF less.prems(1) q [unfolded assms]]
  then have s1: "fine s1" "advances E ttl key s s1" by (auto intro: advances_later)
  note run = less.prems(2) [unfolded with_retry_from.simps [of M key call retried s] q]
  show ?case
  proof (cases q)
    case (Inl e)
    then show ?thesis using run s1 by auto
  next
    case (Inr session)
    from law Inr obtain n where n: "granted E (mw_asked s1) n key session"
      "answered_at E (mw_asked s1) n \<le> mw_now s1" "mw_now s1 \<le> answered_at E (mw_asked s1) n + ttl" by blast
    let ?W = "me_web M (mw_used s1)"
    show ?thesis
    proof (cases "with_session ?W DEFAULT_BASE_URL session")
      case (Inl e)
      then show ?thesis using run Inr s1 by (auto simp: Let_def)
    next
      case 2: (Inr client)
      obtain a c where a: "call ?W client = (a, c)" by (cases "call ?W client")
      let ?u = "noted_use M key session c s1"
      note u = noted_for_key [OF s1(1) n, of M c]
      show ?thesis
      proof (cases "\<exists>e. a = Inl e \<and> stale e \<and> \<not> retried")
        case False
        then have "s' = ?u" using run Inr 2 a by (auto simp: Let_def split: sum.splits if_splits)
        then show ?thesis using u advances_trans [OF s1(2)] by blast
      next
        case True
        obtain x s2 where x: "so_expire (me_source M) key ?u = (x, s2)" by (cases "so_expire (me_source M) key ?u")
        note law2 = expire_law [OF u(1) x [unfolded assms]]
        then have s2: "fine s2" "advances E ttl key s s2"
          using u(2) s1(2) advances_trans advances_later by metis+
        show ?thesis
        proof (cases x)
          case (Inl m)
          then show ?thesis using run \<open>q = Inr session\<close> 2 a True x s2 by (auto simp: Let_def)
        next
          case 3: (Inr y)
          then have "with_retry_from M key call True s2 = (r, s')"
            using run Inr 2 a True x by (auto simp: Let_def)
          from less.hyps [OF _ s2(1) this] True s2(2) advances_trans show ?thesis by auto
        qed
      qed
    qed
  qed
qed

lemma for_key_retry: "me_source M = src \<Longrightarrow> for_key key (with_retry M key call)"
  unfolding with_retry_def by (rule for_keyI) (rule retry_for_key)

lemma for_key_answer: "for_key key (answer r)" "for_key key (\<lambda>s. (r' s, s))"
  by (auto simp: for_key_def answer_def)

lemma for_key_source: "for_key key (so_whoami src key)" "for_key key (so_session src key)"
proof -
  show "for_key key (so_whoami src key)" by (rule for_keyI) (drule (1) whoami_law, simp add: advances_later)
  show "for_key key (so_session src key)" by (rule for_keyI) (drule (1) session_law, simp add: advances_later)
qed

lemma for_key_or_error:
  assumes "for_key key m" "\<And>x. for_key key (f x)" shows "for_key key (or_error m f)"
proof (rule for_keyI)
  fix s r s'
  assume s: "fine s" "or_error m f s = (r, s')"
  obtain a s1 where a: "m s = (a, s1)" by (cases "m s")
  note s1 = for_keyD [OF assms(1) s(1) a]
  show "fine s' \<and> advances E ttl key s s'"
  proof (cases a)
    case (Inl e)
    then show ?thesis using s(2) a s1 by (auto simp: or_error_def)
  next
    case (Inr x)
    then have "f x s1 = (r, s')" using s(2) a by (simp add: or_error_def)
    from for_keyD [OF assms(2) _ this] s1 show ?thesis using advances_trans by blast
  qed
qed

lemma for_key_input: "(\<And>x. for_key key (f x)) \<Longrightarrow> for_key key (with_input parsed f)"
  by (auto simp: with_input_def intro: for_key_answer split: sum.split)

lemma for_key_caller: "for_key key (f key) \<Longrightarrow> for_key key (with_caller (Some key) f)"
  by (simp add: with_caller_def)

lemma for_key_split: "(\<And>a b. for_key key (f a b)) \<Longrightarrow> for_key key (case p of (a, b) \<Rightarrow> f a b)"
  by (simp add: case_prod_beta)

lemma for_key_outing_caller:
  assumes "me_source M = src" "for_key key (f key)" shows "for_key key (with_outing_caller M (Some key) f)"
  unfolding with_outing_caller_def
proof (rule for_key_caller, rule for_keyI, goal_cases)
  case (1 s r s')
  obtain i s1 where i: "so_whoami (me_source M) key s = (i, s1)" by (cases "so_whoami (me_source M) key s")
  have s1: "fine s1 \<and> advances E ttl key s s1" by (rule for_keyD [OF for_key_source(1) 1(1) i [unfolded assms(1)]])
  consider "s' = s1" | "f key s1 = (r, s')" using 1(2) i by (auto split: sum.splits option.splits if_splits)
  then show ?case using s1 for_keyD [OF assms(2)] advances_trans by cases blast+
qed

lemma for_key_confirmation: "for_key key m \<Longrightarrow> for_key key (with_confirmation M code k a args m)"
  by (auto simp: for_key_def with_confirmation_def split: sum.splits)

lemmas for_key_intros = for_key_retry for_key_answer for_key_source for_key_or_error for_key_input for_key_caller
  for_key_split for_key_outing_caller for_key_confirmation

lemma fetch_for_key:
  assumes "me_source M = src"
  shows "for_key key (tool_fetch M (Some key) value call)" "for_key key (tool_fetch_file M (Some key) uri call')"
  unfolding tool_fetch_def tool_fetch_file_def by (intro for_key_intros assms)+

lemma semesters_for_key: "me_source M = src \<Longrightarrow> for_key key (get_semesters M (Some key))"
proof -
  assume M: "me_source M = src"
  have "for_key key (\<lambda>s. case so_whoami (me_source M) key s of (i, s) \<Rightarrow> (g i, s))" for g
    using for_key_source(1) [of key] by (auto simp: M for_key_def split: prod.splits)
  then show ?thesis unfolding get_semesters_def Let_def by (intro for_key_intros M)
qed

lemma for_key_preview:
  "for_key key (\<lambda>s. case st of None \<Rightarrow> (n, s) | Some x \<Rightarrow> checked_request (ok s) (answer (res x s)) s)"
  by (auto simp: for_key_def checked_request_def answer_def split: option.splits sum.splits)

lemma preview_for_key:
  assumes "me_source M = src"
  shows "for_key key (preview_general M key ga)" "for_key key (preview_weekend M key wa)"
    "for_key key (preview_cancel M key kind ident)"
proof -
  show "for_key key (preview_general M key ga)"
    unfolding preview_general_def by (rule for_key_or_error [OF for_key_retry [OF assms]], rule for_key_preview)
  show "for_key key (preview_weekend M key wa)"
    unfolding preview_weekend_def by (rule for_key_or_error [OF for_key_retry [OF assms]], rule for_key_preview)
  show "for_key key (preview_cancel M key kind ident)"
    unfolding preview_cancel_def by (intro for_key_intros assms)
qed

lemma tools_for_key: "me_source M = src \<Longrightarrow> for_key key (run_tool M t (Some key))"
proof (cases t)
  case (ApplyGeneralOuting a)
  assume M: "me_source M = src"
  show ?thesis unfolding ApplyGeneralOuting run_tool.simps tool_apply_general_def
    by (cases "go_confirmation a") (simp_all, (intro for_key_intros preview_for_key M)+)
next
  case (ApplyWeekendOuting a)
  assume M: "me_source M = src"
  show ?thesis unfolding ApplyWeekendOuting run_tool.simps tool_apply_weekend_def
    by (cases "wq_confirmation a") (simp_all, (intro for_key_intros preview_for_key M)+)
next
  case (CancelOuting a)
  assume M: "me_source M = src"
  show ?thesis unfolding CancelOuting run_tool.simps tool_cancel_outing_def
    by (cases "co_confirmation a") (simp_all, (intro for_key_intros preview_for_key M)+)
qed (simp_all add: get_attendance_def get_full_attendance_def get_timetable_def get_marks_def
    get_exam_schedule_def get_grades_def get_grade_details_def get_grade_history_def get_biometric_def get_profile_def
    get_mentor_def get_academic_calendar_def get_courses_def get_course_classes_def get_course_detail_def
    get_course_file_def get_course_plan_def get_biometric_range_def get_general_outing_def get_weekend_outing_def
    get_session_def tool_whoami_def get_outing_pass_def,
    (intro for_key_intros fetch_for_key semesters_for_key | simp)+)

end

subsection \<open>The bridge's client and the cache\<close>

text \<open>The cache before a source: what it keeps was granted not long before it was kept.\<close>

definition kept_fine :: "bridge_edge \<Rightarrow> nat \<Rightarrow> (mcp_world \<Rightarrow> bool) \<Rightarrow> mcp_world \<Rightarrow> bool" where
  "kept_fine E ttl fine s \<longleftrightarrow> fine s \<and> (\<forall>(key, at, st) \<in> set (mw_kept s). at \<le> mw_now s \<and>
     (\<exists>n. granted E (mw_asked s) n key st \<and> answered_at E (mw_asked s) n \<le> at \<and> at \<le> answered_at E (mw_asked s) n + ttl))"

lemma kept_fine_later:
  assumes "kept_fine E ttl fine s" "fine s'" "prefix (mw_asked s) (mw_asked s')" "mw_now s \<le> mw_now s'"
    and "set (mw_kept s') \<subseteq> set (mw_kept s)"
  shows "kept_fine E ttl fine s'"
  unfolding kept_fine_def
proof (intro conjI ballI, rule assms(2), clarify)
  fix key at st assume "(key, at, st) \<in> set (mw_kept s')"
  then have "(key, at, st) \<in> set (mw_kept s)" using assms(5) by blast
  then obtain n where n: "at \<le> mw_now s" "granted E (mw_asked s) n key st"
    "answered_at E (mw_asked s) n \<le> at" "at \<le> answered_at E (mw_asked s) n + ttl"
    using assms(1) unfolding kept_fine_def by blast
  show "at \<le> mw_now s' \<and> (\<exists>n. granted E (mw_asked s') n key st \<and> answered_at E (mw_asked s') n \<le> at \<and>
      at \<le> answered_at E (mw_asked s') n + ttl)"
    using n assms(4) granted_prefix [OF n(2) assms(3)] by (intro conjI exI [of _ n]) simp_all
qed

lemma update_subset: "set (AList.update k v al) \<subseteq> insert (k, v) (set al)"
  by (induction al) auto

locale cached_sessions = session_source E src ttl fine
  for E :: bridge_edge and src :: SessionSource and ttl :: nat and fine :: "mcp_world \<Rightarrow> bool" +
  fixes keep :: nat
  assumes kept_law: "so_whoami src key s = (i, s') \<Longrightarrow> mw_kept s' = mw_kept s"
      "so_expire src key s = (x, s') \<Longrightarrow> mw_kept s' = mw_kept s"
      "so_session src key s = (r, s') \<Longrightarrow> mw_kept s' = mw_kept s"
    and free_law: "fine s \<Longrightarrow> fine (s\<lparr>mw_kept := kept\<rparr>)"
begin

lemma kept_whoami:
  assumes "kept_fine E ttl fine s" "so_whoami (CachedSessions src keep) key s = (i, s')"
  shows "kept_fine E ttl fine s' \<and> later s s' \<and> mw_known s' = mw_known s"
proof -
  have i: "so_whoami src key s = (i, s')" using assms(2) by (simp add: CachedSessions_def)
  have "fine s' \<and> later s s' \<and> mw_known s' = mw_known s"
    using assms(1) i by (intro whoami_law) (simp_all add: kept_fine_def)
  then show ?thesis using kept_fine_later [OF assms(1)] kept_law(1) [OF i] by (simp add: later_def)
qed

lemma kept_expire:
  assumes "kept_fine E ttl fine s" "so_expire (CachedSessions src keep) key s = (x, s')"
  shows "kept_fine E ttl fine s' \<and> later s s' \<and> mw_known s' = mw_known s"
proof -
  let ?s = "s\<lparr>mw_kept := AList.delete key (mw_kept s)\<rparr>"
  have x: "so_expire src key ?s = (x, s')" using assms(2) by (simp add: CachedSessions_def cached_expire_def)
  have f: "fine ?s" using assms(1) free_law by (simp add: kept_fine_def)
  have "set (AList.delete key (mw_kept s)) \<subseteq> set (mw_kept s)" by (auto simp: AList.delete_eq)
  then have k: "kept_fine E ttl fine ?s" by (intro kept_fine_later [OF assms(1) f]) simp_all
  have l: "fine s'" "later ?s s'" "mw_known s' = mw_known s" using expire_law [OF f x] by auto
  moreover have "kept_fine E ttl fine s'"
    using kept_fine_later [OF k l(1)] l(2) kept_law(2) [OF x] by (simp add: later_def)
  ultimately show ?thesis by (simp add: later_def)
qed

lemma kept_session:
  assumes "kept_fine E ttl fine s" "so_session (CachedSessions src keep) key s = (r, s')"
  shows "kept_fine E ttl fine s' \<and> later s s' \<and> mw_known s' = mw_known s \<and>
    (\<forall>st. r = Inr st \<longrightarrow> (\<exists>n. granted E (mw_asked s') n key st \<and> answered_at E (mw_asked s') n \<le> mw_now s' \<and>
       mw_now s' \<le> answered_at E (mw_asked s') n + (ttl + keep)))"
proof -
  let ?s = "s\<lparr>mw_kept := filter (\<lambda>(_, at, _). mw_now s - at < keep) (mw_kept s)\<rparr>"
  have f: "fine ?s" using assms(1) free_law by (simp add: kept_fine_def)
  have k: "kept_fine E ttl fine ?s" by (rule kept_fine_later [OF assms(1) f]) auto
  have run: "(case map_of (mw_kept ?s) key of
           Some (_, session) \<Rightarrow> (Inr session, ?s)
         | None \<Rightarrow>
             (case so_session src key ?s of
                (Inl e, s) \<Rightarrow> (Inl e, s)
              | (Inr session, s) \<Rightarrow>
                  (Inr session, if st_otp_issued_at session = None
                     then s\<lparr>mw_kept := AList.update key (mw_now s, session) (mw_kept s)\<rparr> else s))) = (r, s')"
    using assms(2) by (simp add: CachedSessions_def cached_session_def Let_def)
  show ?thesis
  proof (cases "map_of (mw_kept ?s) key")
    case (Some v)
    obtain at session where v: "v = (at, session)" by (cases v)
    then have r: "r = Inr session" "s' = ?s" using run Some by auto
    have m: "(key, at, session) \<in> set (mw_kept ?s)" using map_of_SomeD [OF Some] v by blast
    then obtain n where "at \<le> mw_now ?s" "granted E (mw_asked ?s) n key session"
      "answered_at E (mw_asked ?s) n \<le> at" "at \<le> answered_at E (mw_asked ?s) n + ttl"
      using k unfolding kept_fine_def by blast
    moreover have "mw_now s - at < keep" using m by auto
    ultimately show ?thesis using r k
      by (auto simp: later_def intro!: exI [of _ n])
  next
    case None
    obtain q s1 where q: "so_session src key ?s = (q, s1)" by (cases "so_session src key ?s")
    have l: "fine s1" "later ?s s1" "mw_known s1 = mw_known s"
      "\<forall>st. q = Inr st \<longrightarrow> (\<exists>n. granted E (mw_asked s1) n key st \<and> answered_at E (mw_asked s1) n \<le> mw_now s1 \<and>
         mw_now s1 \<le> answered_at E (mw_asked s1) n + ttl)"
      using session_law [OF f q] by auto
    have k1: "kept_fine E ttl fine s1"
      using kept_fine_later [OF k l(1)] l(2) kept_law(3) [OF q] by (simp add: later_def)
    show ?thesis
    proof (cases q)
      case (Inl e)
      then show ?thesis using run None q l k1 by (auto simp: later_def)
    next
      case (Inr session)
      from l(4) Inr obtain n where n: "granted E (mw_asked s1) n key session"
        "answered_at E (mw_asked s1) n \<le> mw_now s1" "mw_now s1 \<le> answered_at E (mw_asked s1) n + ttl" by blast
      have w: "r = Inr session" "mw_asked s' = mw_asked s1" "mw_now s' = mw_now s1" "mw_used s' = mw_used s1"
        "mw_known s' = mw_known s1" "mw_kept s' = mw_kept s1 \<or> mw_kept s' = AList.update key (mw_now s1, session) (mw_kept s1)"
        "s' = s1\<lparr>mw_kept := mw_kept s'\<rparr>"
        using run None q Inr by auto
      have "fine s'" using w(7) free_law [OF l(1)] by metis
      moreover have "set (mw_kept s') \<subseteq> insert (key, mw_now s1, session) (set (mw_kept s1))"
        using w(6) update_subset [of key "(mw_now s1, session)" "mw_kept s1"] by auto
      ultimately have "kept_fine E ttl fine s'" using k1 n unfolding kept_fine_def w(2,3) by fastforce
      then show ?thesis using l(2,3) n w by (auto simp: later_def intro!: exI [of _ n])
    qed
  qed
qed

end

sublocale cached_sessions \<subseteq> held: session_source E "CachedSessions src keep" "ttl + keep" "kept_fine E ttl fine"
proof unfold_locales
  fix s s' :: mcp_world
  assume a: "kept_fine E ttl fine s" "mw_asked s' = mw_asked s" "mw_kept s' = mw_kept s" "mw_now s \<le> mw_now s'"
  then have "fine s" by (simp add: kept_fine_def)
  from time_law [OF this a(2-4)] show "kept_fine E ttl fine s'"
    by (rule kept_fine_later [OF a(1)]) (simp_all add: a)
qed (use kept_whoami kept_expire kept_session in blast)+

interpretation bridge: session_source E "BridgeClient E base_url" 0 "\<lambda>_. True" for E base_url
proof unfold_locales
  fix s key r s' assume s: "so_session (BridgeClient E base_url) key s = (r, s')"
  then have "bridge_session E (trim_end_char CHR ''/'' base_url) key s = (r, s')" by (simp add: BridgeClient_def Let_def)
  note b = bridge_session_granted [OF this]
  then show "True \<and> later s s' \<and> mw_known s' = mw_known s \<and>
      (\<forall>st. r = Inr st \<longrightarrow> (\<exists>n. granted E (mw_asked s') n key st \<and> answered_at E (mw_asked s') n \<le> mw_now s' \<and>
         mw_now s' \<le> answered_at E (mw_asked s') n + 0))"
    by (force simp: steady_def)
qed (auto simp: BridgeClient_def Let_def steady_def dest: bridge_whoami_steady bridge_expire_steady)

interpretation kept: cached_sessions E "BridgeClient E base_url" 0 "\<lambda>_. True" keep for E base_url keep
  by unfold_locales
    (auto simp: BridgeClient_def Let_def steady_def dest: bridge_whoami_steady bridge_expire_steady bridge_session_granted(1))

end
