(* ===== verification/McpDates.thy ===== *)
theory McpDates
  imports PageClaims McpSessions InputClaims
begin

section \<open>The days of a range\<close>

text \<open>
  The tools count days themselves.  The number of a date and the date of a number are each other's
  inverse, so that a range of days lists the days of the calendar one by one.
\<close>

subsection \<open>The year of a day\<close>

text \<open>The days before a year of a 400-year era, and the number the year is computed from.\<close>

definition era_day :: "int \<Rightarrow> int" where
  "era_day y = (if y = 400 then 146097 else 365 * y + y div 4 - y div 100)"

definition spread :: "int \<Rightarrow> int" where
  "spread r = r - r div 1460 + r div 36524 - r div 146096"

lemma spread_step:
  assumes "0 \<le> r" "r < 146096" shows "spread r \<le> spread (r + 1)"
proof (cases "r = 146095")
  case False
  then have z: "(r + 1) div 146096 = 0" "r div 146096 = 0" using assms by simp_all
  have "(r + 1) div 1460 \<le> (r + 1460) div 1460" by (rule zdiv_mono1) simp_all
  then have a: "(r + 1) div 1460 \<le> r div 1460 + 1" by simp
  have b: "r div 36524 \<le> (r + 1) div 36524" by (rule zdiv_mono1) simp_all
  have "r - p + q - 0 \<le> r + 1 - p' + q' - 0" if "p' \<le> p + 1" "q \<le> q'" for p p' q q' :: int using that by linarith
  from this [OF a b] show ?thesis unfolding spread_def z .
qed (simp add: spread_def)

lemma spread_mono:
  assumes "0 \<le> a" "a \<le> b" "b \<le> 146096" shows "spread a \<le> spread b"
  using assms(2,3)
proof (induction b rule: int_ge_induct)
  case (step i)
  then show ?case using spread_step [of i] assms(1) by simp
qed simp

lemma era_ends:
  assumes "0 \<le> y" "y < 400"
  shows "spread (era_day y) div 365 = y \<and> spread (era_day (y + 1) - 1) div 365 = y \<and>
    (era_day (y + 1) - era_day y = 365 \<or> era_day (y + 1) - era_day y = 366 \<and>
       ((y + 1) mod 4 = 0 \<and> ((y + 1) mod 100 \<noteq> 0 \<or> (y + 1) mod 400 = 0)))"
proof -
  have "list_all (\<lambda>y. spread (era_day y) div 365 = y \<and> spread (era_day (y + 1) - 1) div 365 = y \<and>
    (era_day (y + 1) - era_day y = 365 \<or> era_day (y + 1) - era_day y = 366 \<and>
       ((y + 1) mod 4 = 0 \<and> ((y + 1) mod 100 \<noteq> 0 \<or> (y + 1) mod 400 = 0)))) [0..399]"
    by code_simp
  then show ?thesis using assms by (simp add: list_all_iff)
qed

lemma era_day_bounds: "0 \<le> y \<Longrightarrow> y \<le> 400 \<Longrightarrow> 0 \<le> era_day y \<and> era_day y \<le> 146097"
  by (auto simp: era_day_def)

lemma year_of_day:
  assumes "0 \<le> r" "r < 146097"
  shows "let y = spread r div 365 in 0 \<le> y \<and> y < 400 \<and> era_day y \<le> r \<and> r < era_day (y + 1)"
proof -
  have "\<exists>y \<ge> 0. y < n \<and> era_day y \<le> r \<and> r < era_day (y + 1)" if "0 \<le> n" "n \<le> 400" "r < era_day n" for n
    using that
  proof (induction n rule: int_ge_induct)
    case base
    then show ?case using assms by (simp add: era_day_def)
  next
    case (step i)
    show ?case
    proof (cases "r < era_day i")
      case True
      then show ?thesis using step by force
    next
      case False
      then show ?thesis using step by (intro exI [of _ i]) simp
    qed
  qed
  from this [of 400] assms obtain y where y: "0 \<le> y" "y < 400" "era_day y \<le> r" "r < era_day (y + 1)"
    by (auto simp: era_day_def)
  have b: "0 \<le> era_day y" "era_day (y + 1) \<le> 146097" using y era_day_bounds [of y] era_day_bounds [of "y + 1"] by auto
  have "spread (era_day y) \<le> spread r" "spread r \<le> spread (era_day (y + 1) - 1)"
    using y b by (auto intro!: spread_mono)
  then have "spread (era_day y) div 365 \<le> spread r div 365" "spread r div 365 \<le> spread (era_day (y + 1) - 1) div 365"
    by (auto intro: zdiv_mono1)
  then have "spread r div 365 = y" using era_ends [OF y(1,2)] by linarith
  with y show ?thesis by (simp add: Let_def)
qed

subsection \<open>The month of a day of the year\<close>

definition month_fits :: "int \<Rightarrow> bool" where
  "month_fits d \<longleftrightarrow> (let mp = (5 * d + 2) div 153; day = d - (153 * mp + 2) div 5 + 1;
        m = (if mp < 10 then mp + 3 else mp - 9)
    in 1 \<le> m \<and> m \<le> 12 \<and> 1 \<le> day \<and> (153 * ((m + 9) mod 12) + 2) div 5 + day - 1 = d \<and>
      (m \<le> 2 \<longleftrightarrow> 306 \<le> d) \<and>
      day \<le> (if m = 2 then (if d = 365 then 29 else 28) else if m = 4 \<or> m = 6 \<or> m = 9 \<or> m = 11 then 30 else 31))"

lemma month_of_day: "0 \<le> d \<Longrightarrow> d \<le> 365 \<Longrightarrow> month_fits d"
proof -
  have "list_all month_fits [0..365]" by code_simp
  then show "0 \<le> d \<Longrightarrow> d \<le> 365 \<Longrightarrow> month_fits d" by (simp add: list_all_iff)
qed

subsection \<open>The date of a day\<close>

lemma civil_date_parts:
  assumes "civil_date z = (y, m, d)"
  obtains e yoe doy where "z + 719468 = e * 146097 + era_day yoe + doy" "0 \<le> yoe" "yoe < 400" "0 \<le> doy"
    "doy < era_day (yoe + 1) - era_day yoe" "y = yoe + e * 400 + (if m \<le> 2 then 1 else 0)"
    "1 \<le> m" "m \<le> 12" "1 \<le> d" "(153 * ((m + 9) mod 12) + 2) div 5 + d - 1 = doy" "m \<le> 2 \<longleftrightarrow> 306 \<le> doy"
    "d \<le> (if m = 2 then (if doy = 365 then 29 else 28) else if m = 4 \<or> m = 6 \<or> m = 9 \<or> m = 11 then 30 else 31)"
proof -
  define e where "e = (z + 719468) div 146097"
  define r where "r = z + 719468 - e * 146097"
  define yoe where "yoe = spread r div 365"
  define doy where "doy = r - (365 * yoe + yoe div 4 - yoe div 100)"
  have r: "0 \<le> r" "r < 146097" by (simp_all add: r_def e_def minus_div_mult_eq_mod)
  have y: "0 \<le> yoe" "yoe < 400" "era_day yoe \<le> r" "r < era_day (yoe + 1)"
    using year_of_day [OF r] by (simp_all add: yoe_def Let_def)
  have E: "era_day yoe = 365 * yoe + yoe div 4 - yoe div 100" using y(2) by (simp add: era_day_def)
  have doy: "0 \<le> doy" "doy < era_day (yoe + 1) - era_day yoe" using y E by (simp_all add: doy_def)
  then have "doy \<le> 365" using era_ends [OF y(1,2)] by linarith
  note fits = month_of_day [OF doy(1) this, unfolded month_fits_def Let_def]
  define mp where "mp = (5 * doy + 2) div 153"
  have u: "(r - r div 1460 + r div 36524 - r div 146096) div 365 = yoe" by (simp add: yoe_def spread_def)
  have "civil_date z = (yoe + e * 400 + (if (if mp < 10 then mp + 3 else mp - 9) \<le> 2 then 1 else 0),
      if mp < 10 then mp + 3 else mp - 9, doy - (153 * mp + 2) div 5 + 1)"
    unfolding civil_date_def Let_def e_def [symmetric] r_def [symmetric] u doy_def [symmetric] mp_def [symmetric] ..
  then have c: "y = yoe + e * 400 + (if m \<le> 2 then 1 else 0)" "m = (if mp < 10 then mp + 3 else mp - 9)"
    "d = doy - (153 * mp + 2) div 5 + 1"
    using assms by simp_all
  have z: "z + 719468 = e * 146097 + era_day yoe + doy" by (simp add: doy_def r_def E)
  from fits have "1 \<le> m" "m \<le> 12" "1 \<le> d" "(153 * ((m + 9) mod 12) + 2) div 5 + d - 1 = doy" "m \<le> 2 \<longleftrightarrow> 306 \<le> doy"
    "d \<le> (if m = 2 then (if doy = 365 then 29 else 28) else if m = 4 \<or> m = 6 \<or> m = 9 \<or> m = 11 then 30 else 31)"
    unfolding c(2,3) mp_def by auto
  from that [OF z y(1,2) doy c(1) this] show ?thesis .
qed

lemma civil_date_inverse:
  assumes "civil_date z = (y, m, d)" shows "civil_days y m d = z" "1 \<le> m" "m \<le> 12" "1 \<le> d"
proof -
  obtain e yoe doy where p: "z + 719468 = e * 146097 + era_day yoe + doy" "0 \<le> yoe" "yoe < 400"
    "y = yoe + e * 400 + (if m \<le> 2 then 1 else 0)" "1 \<le> m" "m \<le> 12" "1 \<le> d"
    "(153 * ((m + 9) mod 12) + 2) div 5 + d - 1 = doy"
    by (rule civil_date_parts [OF assms]) blast
  have y: "(if m \<le> 2 then y - 1 else y) = yoe + e * 400" using p(4) by simp
  have e: "(yoe + e * 400) div 400 = e" using p(2,3) by simp
  show "civil_days y m d = z"
    unfolding civil_days_def Let_def y e using p(1,3,8) by (simp add: era_day_def)
qed (use assms in \<open>rule civil_date_parts, blast\<close>)+

lemma civil_date_real:
  assumes "civil_date z = (y, m, d)" "0 \<le> y" shows "real_date (nat y) (nat m) (nat d)"
proof -
  obtain e yoe doy where p: "0 \<le> yoe" "yoe < 400" "0 \<le> doy" "doy < era_day (yoe + 1) - era_day yoe"
    "y = yoe + e * 400 + (if m \<le> 2 then 1 else 0)" "1 \<le> m" "m \<le> 12" "1 \<le> d"
    "d \<le> (if m = 2 then (if doy = 365 then 29 else 28) else if m = 4 \<or> m = 6 \<or> m = 9 \<or> m = 11 then 30 else 31)"
    by (rule civil_date_parts [OF assms(1)]) blast
  have leap: "leap (nat y)" if "doy = 365" "m = 2"
  proof -
    have "(yoe + 1) mod 4 = 0" "(yoe + 1) mod 100 \<noteq> 0 \<or> (yoe + 1) mod 400 = 0"
      using era_ends [OF p(1,2)] p(4) that(1) by linarith+
    moreover have y: "y = yoe + 1 + e * 400" using p(5) that(2) by simp
    moreover have "y = (yoe + 1) + (100 * e) * 4" "y = (yoe + 1) + (4 * e) * 100" "y = (yoe + 1) + e * 400"
      using y by simp_all
    then have "y mod 4 = (yoe + 1) mod 4" "y mod 100 = (yoe + 1) mod 100" "y mod 400 = (yoe + 1) mod 400"
      by (metis mod_mult_self1)+
    ultimately have n: "y mod 4 = 0" "y mod 100 \<noteq> 0 \<or> y mod 400 = 0" by simp_all
    have "int (nat y mod k) = y mod int k" for k using assms(2) by (simp add: zmod_int)
    from this [of 4] this [of 100] this [of 400] n show ?thesis unfolding leap_def by auto
  qed
  have "m = 1 \<or> m = 2 \<or> m = 3 \<or> m = 4 \<or> m = 5 \<or> m = 6 \<or> m = 7 \<or> m = 8 \<or> m = 9 \<or> m = 10 \<or> m = 11 \<or> m = 12"
    using p(6,7) by arith
  then show ?thesis using p(8,9) leap
    by (elim disjE) (auto simp: real_date_def month_days_def nat_le_iff split: if_splits)
qed

text \<open>Four digits of year are enough for the days between two dates with four digits of year.\<close>

lemma civil_date_years:
  assumes "civil_date z = (y, m, d)"
  shows "- 719528 \<le> z \<Longrightarrow> 0 \<le> y" "z \<le> 2932896 \<Longrightarrow> y \<le> 9999"
proof -
  obtain e yoe doy where p: "z + 719468 = e * 146097 + era_day yoe + doy" "0 \<le> yoe" "yoe < 400" "0 \<le> doy"
    "doy < era_day (yoe + 1) - era_day yoe" "y = yoe + e * 400 + (if m \<le> 2 then 1 else 0)" "m \<le> 2 \<longleftrightarrow> 306 \<le> doy"
    by (rule civil_date_parts [OF assms]) blast
  have E: "era_day yoe = 365 * yoe + yoe div 4 - yoe div 100" using p(3) by (simp add: era_day_def)
  have b: "0 \<le> yoe div 4" "yoe div 4 \<le> 99" "0 \<le> yoe div 100" "yoe div 100 \<le> 3" "yoe div 100 \<le> yoe div 4" "doy \<le> 365"
    using p(2,3) era_ends [OF p(2,3)] p(5) by auto
  {
    assume z: "- 719528 \<le> z"
    show "0 \<le> y"
    proof (rule ccontr)
      assume "\<not> 0 \<le> y"
      then have "e < 0" using p(2,6) by (auto split: if_splits)
      then have "e = -1" using z p(1) E b p(3) by linarith
      then have "- 60 \<le> - 146097 + era_day yoe + doy" using z p(1) by linarith
      moreover have "yoe \<le> 398 \<or> yoe = 399" using p(3) by linarith
      ultimately show False using \<open>\<not> 0 \<le> y\<close> \<open>e = -1\<close> p(6,7) E b by (elim disjE) (auto split: if_splits)
    qed
  }
  {
    assume z: "z \<le> 2932896"
    show "y \<le> 9999"
    proof (rule ccontr)
      assume n: "\<not> y \<le> 9999"
      then have "24 \<le> e" using p(3,6) by (auto split: if_splits)
      then have "e = 24 \<or> 25 \<le> e" by linarith
      then show False
      proof
        assume "25 \<le> e"
        then show False using z p(1,4) E b p(2) by linarith
      next
        assume e: "e = 24"
        then have "yoe = 399" "306 \<le> doy" using n p(3,6,7) by (auto split: if_splits)
        then show False using z p(1) E e by simp
      qed
    qed
  }
qed

subsection \<open>Days of the biometric log\<close>

text \<open>How a text reads as a day of the log.\<close>

definition biometric_reads :: "string \<Rightarrow> nat \<Rightarrow> nat \<Rightarrow> nat \<Rightarrow> bool" where
  "biometric_reads raw y m d \<longleftrightarrow> real_date y m d \<and> (\<exists>dt mt yt. raw = dt @ CHR ''/'' # mt @ CHR ''/'' # yt \<and>
     length dt = 2 \<and> length mt = 2 \<and> length yt = 4 \<and>
     parse_u32 dt = Some d \<and> parse_u32 mt = Some m \<and> parse_u32 yt = Some y)"

lemma biometric_reads_parse: "biometric_reads raw y m d \<Longrightarrow> BiometricDate_parse raw = Inr raw"
  using biometric_iff by (auto simp: biometric_reads_def)

lemma biometric_parse_reads: "BiometricDate_parse raw = Inr s \<Longrightarrow> s = raw \<and> (\<exists>y m d. biometric_reads raw y m d)"
proof -
  assume p: "BiometricDate_parse raw = Inr s"
  then obtain dt mt yt where x: "split_on CHR ''/'' raw = [dt, mt, yt]"
    by (auto simp: BiometricDate_parse_def split: list.splits)
  then have raw: "raw = dt @ CHR ''/'' # mt @ CHR ''/'' # yt" using join_split [of "CHR ''/''" raw] by simp
  obtain d m y where q: "length dt = 2" "length mt = 2" "length yt = 4"
      "parse_u32 dt = Some d" "parse_u32 mt = Some m" "parse_u32 yt = Some y"
    using p x by (auto simp: BiometricDate_parse_def split: if_splits option.splits)
  then have "s = raw" "real_date y m d" using p biometric_iff [OF q] raw by (auto split: if_splits)
  with q raw show ?thesis unfolding biometric_reads_def by blast
qed

lemma biometric_day_reads:
  assumes "biometric_reads raw y m d"
  shows "biometric_day raw = int (days_before y m d) - int (days_before 1970 1 1)"
proof -
  obtain dt mt yt where q: "raw = dt @ CHR ''/'' # mt @ CHR ''/'' # yt"
      "parse_u32 dt = Some d" "parse_u32 mt = Some m" "parse_u32 yt = Some y" and real: "real_date y m d"
    using assms by (auto simp: biometric_reads_def)
  then have "split_on CHR ''/'' raw = [dt, mt, yt]"
    by (simp add: split_on_append split_on_none parse_u32_separators)
  then have "biometric_day raw = civil_days (int y) (int m) (int d)"
    using q by (simp add: biometric_day_def nth_part_def parse_i64_u32 civil_day_number_def civil_days_def Let_def)
  then show ?thesis using civil_days_exact real by (simp add: real_date_def)
qed

lemma pad_reads: "n < 10 ^ w \<Longrightarrow> 0 < w \<Longrightarrow> w \<le> 4 \<Longrightarrow> parse_u32 (pad w n) = Some n \<and> length (pad w n) = w"
proof -
  assume n: "n < 10 ^ w" "0 < w" "w \<le> 4"
  have "(10 :: nat) ^ w \<le> 10 ^ 4" using n(3) by (rule power_increasing) simp
  then have "n < 2 ^ 32" using n(1) by simp
  moreover obtain c cs where c: "pad w n = c # cs" using length_pad [OF n(1,2)] n(2) by (cases "pad w n") auto
  moreover have "c \<noteq> CHR ''+''" using pad_digits [of w n] c by (auto simp: is_digit_def char_code_def)
  ultimately show ?thesis using pad_digits [of w n] pad_val [of w n] length_pad [OF n(1,2)]
    by (simp add: parse_u32_def parse_uint_def parse_digits_def)
qed

lemma biometric_text_reads:
  assumes "- 719528 \<le> z" "z \<le> 2932896"
  shows "\<exists>y m d. biometric_reads (biometric_text z) y m d \<and> int (days_before y m d) = z + int (days_before 1970 1 1)"
proof -
  obtain y m d where c: "civil_date z = (y, m, d)" by (cases "civil_date z")
  note inv = civil_date_inverse [OF c] and y = civil_date_years [OF c]
  have r: "real_date (nat y) (nat m) (nat d)" by (rule civil_date_real [OF c y(1) [OF assms(1)]])
  then have "nat d \<le> 31" unfolding real_date_eq by (simp split: if_splits)
  moreover have "nat m \<le> 12" "nat y < 10000" using y(2) [OF assms(2)] inv(3) by simp_all
  moreover have "biometric_text z = pad 2 (nat d) @ CHR ''/'' # pad 2 (nat m) @ CHR ''/'' # pad 4 (nat y)"
    using inv y(1) [OF assms(1)] by (simp add: biometric_text_def c pad_int_def)
  moreover have "parse_u32 (pad 2 (nat d)) = Some (nat d) \<and> length (pad 2 (nat d)) = 2"
    "parse_u32 (pad 2 (nat m)) = Some (nat m) \<and> length (pad 2 (nat m)) = 2"
    "parse_u32 (pad 4 (nat y)) = Some (nat y) \<and> length (pad 4 (nat y)) = 4"
    using \<open>nat d \<le> 31\<close> \<open>nat m \<le> 12\<close> \<open>nat y < 10000\<close> by (intro pad_reads; simp)+
  ultimately have "biometric_reads (biometric_text z) (nat y) (nat m) (nat d)"
    using r unfolding biometric_reads_def by blast
  moreover have "civil_days (int (nat y)) (int (nat m)) (int (nat d)) = z" using inv y(1) [OF assms(1)] by simp
  then have "int (days_before (nat y) (nat m) (nat d)) = z + int (days_before 1970 1 1)"
    using civil_days_exact [of "nat m" "nat d" "nat y"] inv by simp
  ultimately show ?thesis by blast
qed

lemma digits_below: "parse_digits s = Some n \<Longrightarrow> n < 10 ^ length s"
  using digits_val_bound by (auto simp: parse_digits_def split: if_splits)

lemma parse_u32_four:
  assumes "parse_u32 t = Some n" "length t = 4" shows "n \<le> 9999"
proof -
  obtain s where s: "parse_digits s = Some n" "length s \<le> 4"
    using assms by (auto simp: parse_u32_def parse_uint_def split: list.splits option.splits if_splits)
  have "(10 :: nat) ^ length s \<le> 10 ^ 4" using s(2) by (rule power_increasing) simp
  then show ?thesis using digits_below [OF s(1)] by simp
qed

lemma collected_Inr: "(\<And>x. x \<in> set xs \<Longrightarrow> f x = Inr (h x)) \<Longrightarrow> collected (map f xs) = Inr (map h xs)"
  by (induction xs) auto

text \<open>The days of years of four digits.\<close>

lemma days_before_range:
  assumes "real_date y m d" "y \<le> 9999"
  shows "- 719528 \<le> int (days_before y m d) - int (days_before 1970 1 1)"
    "int (days_before y m d) - int (days_before 1970 1 1) \<le> 2932896"
proof -
  show "- 719528 \<le> int (days_before y m d) - int (days_before 1970 1 1)"
    unfolding epoch_days by simp
  have m: "1 \<le> m" "m \<le> 12" "1 \<le> d" "d \<le> month_days y m" using assms(1) by (auto simp: real_date_def)
  have "sum_list (map (month_days y) [1..<m]) + d \<le> sum_list (map (month_days y) [1..<13])"
  proof -
    have "[1..<13] = [1..<m] @ m # [m + 1..<13]" using m upt_add_eq_append [of 1 m "13 - m"] by (simp add: upt_conv_Cons)
    then show ?thesis using m(4) by simp
  qed
  then have "days_before y m d \<le> days_before_year (Suc y) - 1" using m(3) by (simp add: days_before_def)
  moreover have "mono days_before_year" by (rule mono_iff_le_Suc [THEN iffD2]) simp
  then have "days_before_year (Suc y) \<le> days_before_year 10000" by (rule monoD) (use assms(2) in simp)
  moreover have "int (days_before_year 10000) = 3652425" by (simp only: year_sum) (simp add: leap_days_def)
  ultimately show "int (days_before y m d) - int (days_before 1970 1 1) \<le> 2932896" unfolding epoch_days by simp
qed

text \<open>C39: A range of days in the log is read day by day: for two dates it lists each day of the calendar from
  the first to the last, and no other, when they are at most 14 days, so when the last is at most 13
  days after the first; a last day before the first, more days, or a text that is not a date, is
  refused.\<close>

theorem biometric_range:
  "(\<forall>y m d y' m' d'. biometric_reads a y m d \<longrightarrow> biometric_reads b y' m' d' \<longrightarrow>
      (if days_before y m d \<le> days_before y' m' d' \<and> days_before y' m' d' < days_before y m d + 14
       then \<exists>days. biometric_days a b = Inr days \<and> length days = days_before y' m' d' - days_before y m d + 1 \<and>
         (\<forall>i < length days. \<exists>y1 m1 d1. biometric_reads (days ! i) y1 m1 d1 \<and> days_before y1 m1 d1 = days_before y m d + i)
       else \<exists>e. biometric_days a b = Inl (ConfigurationError e))) \<and>
   ((\<nexists>y m d. biometric_reads a y m d) \<or> (\<nexists>y m d. biometric_reads b y m d) \<longrightarrow>
      (\<exists>e. biometric_days a b = Inl e))"
proof (intro conjI allI impI)
  fix y m d y' m' d'
  assume r: "biometric_reads a y m d" "biometric_reads b y' m' d'"
  define f l where "f = biometric_day a" and "l = biometric_day b"
  have years: "y \<le> 9999" "y' \<le> 9999"
    using r parse_u32_four by (auto simp: biometric_reads_def)
  have f: "f = int (days_before y m d) - int (days_before 1970 1 1)"
    and l: "l = int (days_before y' m' d') - int (days_before 1970 1 1)"
    using biometric_day_reads [OF r(1)] biometric_day_reads [OF r(2)] by (simp_all only: f_def l_def)
  have range: "- 719528 \<le> f" "l \<le> 2932896"
    using days_before_range [of y m d] days_before_range [of y' m' d'] r years
    unfolding f l by (auto simp: biometric_reads_def)
  have run: "biometric_days a b = (if l < f then Inl (ConfigurationError ''to must not be before from'')
          else if l - f \<ge> MAX_BIOMETRIC_DAYS then
            Inl (ConfigurationError (''at most '' @ show_nat (nat MAX_BIOMETRIC_DAYS) @ '' days at a time''))
          else collected (map (\<lambda>days. BiometricDate_parse (biometric_text days)) [f..l]))"
    by (simp add: biometric_days_def biometric_reads_parse [OF r(1)] biometric_reads_parse [OF r(2)] Let_def f_def l_def)
  show "if days_before y m d \<le> days_before y' m' d' \<and> days_before y' m' d' < days_before y m d + 14
       then \<exists>days. biometric_days a b = Inr days \<and> length days = days_before y' m' d' - days_before y m d + 1 \<and>
         (\<forall>i < length days. \<exists>y1 m1 d1. biometric_reads (days ! i) y1 m1 d1 \<and> days_before y1 m1 d1 = days_before y m d + i)
       else \<exists>e. biometric_days a b = Inl (ConfigurationError e)"
  proof (cases "f \<le> l \<and> l - f < 14")
    case False
    then have "\<exists>e. biometric_days a b = Inl (ConfigurationError e)" unfolding run by (auto simp: MAX_BIOMETRIC_DAYS_def)
    then show ?thesis using False unfolding f l by auto
  next
    case True
    let ?days = "map biometric_text [f..l]"
    have each: "\<exists>y1 m1 d1. biometric_reads (biometric_text z) y1 m1 d1 \<and> int (days_before y1 m1 d1) = z + int (days_before 1970 1 1)"
      if "z \<in> set [f..l]" for z
      using biometric_text_reads [of z] that range by simp
    have "collected (map (\<lambda>days. BiometricDate_parse (biometric_text days)) [f..l]) = Inr ?days"
      by (rule collected_Inr) (use each biometric_reads_parse in blast)
    then have "biometric_days a b = Inr ?days" using True run by (simp add: MAX_BIOMETRIC_DAYS_def)
    moreover have "length ?days = days_before y' m' d' - days_before y m d + 1"
      using True unfolding f l by (simp add: nat_diff_distrib [symmetric]) arith
    moreover have "\<exists>y1 m1 d1. biometric_reads (?days ! i) y1 m1 d1 \<and> days_before y1 m1 d1 = days_before y m d + i"
      if i: "i < length ?days" for i
    proof -
      have "[f..l] ! i = f + int i" using i by (simp add: nth_upto)
      moreover have "f + int i \<in> set [f..l]" using i by simp
      note each [OF this]
      ultimately obtain y1 m1 d1 where "biometric_reads (?days ! i) y1 m1 d1"
        "int (days_before y1 m1 d1) = f + int i + int (days_before 1970 1 1)" using i by auto
      then show ?thesis unfolding f by (intro exI [of _ y1] exI [of _ m1] exI [of _ d1]) linarith
    qed
    ultimately show ?thesis using True unfolding f l by auto
  qed
next
  assume "(\<nexists>y m d. biometric_reads a y m d) \<or> (\<nexists>y m d. biometric_reads b y m d)"
  then have "isl (BiometricDate_parse a) \<or> isl (BiometricDate_parse b)"
    using biometric_parse_reads by (metis isl_def sum.exhaust)
  then show "\<exists>e. biometric_days a b = Inl e"
    by (cases "BiometricDate_parse a"; cases "BiometricDate_parse b") (auto simp: biometric_days_def isl_def)
qed

lemma sample_days: "biometric_reads ''27/02/2024'' 2024 2 27" "biometric_reads ''02/03/2024'' 2024 3 2"
proof -
  have n: "parse_u32 ''27'' = Some 27" "parse_u32 ''02'' = Some 2" "parse_u32 ''03'' = Some 3" "parse_u32 ''2024'' = Some 2024"
    by (simp_all add: parse_u32_def parse_uint_def parse_digits_def digits_val_def digit_val_def is_digit_def char_code_def)
  have r: "real_date 2024 2 27" "real_date 2024 3 2" by (simp_all add: real_date_def month_days_def leap_def)
  show "biometric_reads ''27/02/2024'' 2024 2 27" "biometric_reads ''02/03/2024'' 2024 3 2"
    unfolding biometric_reads_def
    by (intro conjI r exI [of _ "''27''"] exI [of _ "''02''"] exI [of _ "''03''"] exI [of _ "''2024''"]; simp add: n)+
qed

theorem biometric_range_witness: "\<exists>days. biometric_days ''27/02/2024'' ''02/03/2024'' = Inr days \<and> length days = 5"
proof -
  have "int (days_before 2024 3 2) - int (days_before 1970 1 1) = 19784" "int (days_before 2024 2 27) - int (days_before 1970 1 1) = 19780"
    using civil_days_exact [of 3 2 2024] civil_days_exact [of 2 27 2024] by (simp_all add: civil_days_def)
  then have "days_before 2024 3 2 = days_before 2024 2 27 + 4" by linarith
  then show ?thesis using biometric_range [of "''27/02/2024''" "''02/03/2024''"] sample_days by fastforce
qed

end
