(* ===== verification/McpClaims.thy ===== *)
theory McpClaims
  imports McpDates OutingClaims
begin

section \<open>The tools: the claims\<close>

text \<open>
  Confirmation codes, whose session a tool acts on and who may act, what of a request reaches VTOP,
  and what the tools keep to themselves.
\<close>

subsection \<open>Confirmation codes\<close>

lemma digit_is_graph: "is_digit c \<Longrightarrow> is_graph c"
  by (auto simp: is_digit_def is_graph_def)

lemma code_trim: "trim (confirmation_code H key action args e) = confirmation_code H key action args e"
  by (rule trim_graph) (use show_nat_all_digits [of e] in
    \<open>auto simp: confirmation_code_def list_all_iff digit_is_graph is_graph_def [of "CHR ''-''"] char_code_def
      intro: hex_graph [unfolded list_all_iff, rule_format]\<close>)

lemma code_split: "split_once CHR ''-'' (confirmation_code H key action args e) =
  Some (show_nat e, hex (take 12 (H (confirmed_bytes key action args e))))"
proof -
  have "CHR ''-'' \<notin> set (show_nat e)" using show_nat_all_digits [of e] by (auto simp: list_all_iff is_digit_def char_code_def)
  then show ?thesis by (simp add: confirmation_code_def split_once_eq)
qed

lemma hex_inj: "hex a = hex b \<longleftrightarrow> a = b"
  by (metis option.inject unhex_hex)

lemma ended_inj: "x \<notin> set a \<Longrightarrow> x \<notin> set b \<Longrightarrow> a @ x # c = b @ x # d \<Longrightarrow> a = b \<and> c = d"
proof (induction a arbitrary: b)
  case Nil
  then show ?case by (cases b) auto
next
  case (Cons y a)
  then show ?case by (cases b) auto
qed

lemma char_byte_zero: "char_byte CHR 0x00 = 0"
  by (simp add: char_byte_def)

text \<open>Parts without a zero byte are told apart by the zero bytes between them.\<close>

lemma zero_ended_inj:
  assumes "\<forall>p \<in> set ps \<union> set qs. CHR 0x00 \<notin> set p"
    and "concat (map (\<lambda>p. as_bytes p @ [0]) ps) = concat (map (\<lambda>p. as_bytes p @ [0]) qs)"
  shows "ps = qs"
  using assms
proof (induction ps arbitrary: qs)
  case Nil
  then show ?case by (cases qs) auto
next
  case (Cons p ps)
  then obtain q qs' where q: "qs = q # qs'" by (cases qs) auto
  have z: "(0 :: u8) \<notin> set (as_bytes p)" if "CHR 0x00 \<notin> set p" for p
    using that by (auto simp: as_bytes_def) (metis byte_char_inverse char_byte_zero)
  have "as_bytes p @ 0 # concat (map (\<lambda>p. as_bytes p @ [0]) ps) = as_bytes q @ 0 # concat (map (\<lambda>p. as_bytes p @ [0]) qs')"
    using Cons.prems(2) q by simp
  moreover have "0 \<notin> set (as_bytes p)" "0 \<notin> set (as_bytes q)" using Cons.prems(1) q z by auto
  ultimately have "as_bytes p = as_bytes q"
    "concat (map (\<lambda>p. as_bytes p @ [0]) ps) = concat (map (\<lambda>p. as_bytes p @ [0]) qs')"
    using ended_inj by metis+
  then show ?case using Cons.IH [of qs'] Cons.prems(1) q by (metis UnCI UnE list.set_intros(2) of_bytes_as_bytes)
qed

text \<open>C38: A confirmation code is good for ten minutes: handed back then it is taken, and later it is not.  It is
  good for the very request it was made for: under another key, action or argument it is taken only
  if the first twelve bytes of the hashes agree, and what is hashed differs unless a part holds a
  zero byte.  This is about codes that were made here: the check does not tell whether one was.\<close>

theorem confirmation_lapses:
  assumes "me_unix M (mw_now s) + 600 < 2 ^ 64"
  shows "(check_confirmation M (new_confirmation M key action args s) key' action' args' s' = Inr () \<longleftrightarrow>
      me_unix M (mw_now s') \<le> me_unix M (mw_now s) + 600 \<and>
      take 12 (me_sha M (confirmed_bytes key' action' args' (me_unix M (mw_now s) + 600))) =
      take 12 (me_sha M (confirmed_bytes key action args (me_unix M (mw_now s) + 600)))) \<and>
    ((\<forall>p \<in> set (key # action # args @ key' # action' # args'). CHR 0x00 \<notin> set p) \<longrightarrow>
      (confirmed_bytes key' action' args' (me_unix M (mw_now s) + 600) =
       confirmed_bytes key action args (me_unix M (mw_now s) + 600) \<longleftrightarrow> key' = key \<and> action' = action \<and> args' = args))"
proof (intro conjI impI)
  let ?e = "me_unix M (mw_now s) + 600"
  have p: "parse_uint (2 ^ 64) (show_nat ?e) = Some ?e" using assms by (rule parse_uint_show)
  show "check_confirmation M (new_confirmation M key action args s) key' action' args' s' = Inr () \<longleftrightarrow>
      me_unix M (mw_now s') \<le> ?e \<and> take 12 (me_sha M (confirmed_bytes key' action' args' ?e)) =
      take 12 (me_sha M (confirmed_bytes key action args ?e))"
    unfolding check_confirmation_def new_confirmation_def CONFIRM_SECONDS_def code_trim code_split
    by (simp only: bind.bind_lunit prod.case p option.case) (auto simp: confirmation_code_def hex_inj not_less)
next
  let ?e = "me_unix M (mw_now s) + 600"
  assume z: "\<forall>p \<in> set (key # action # args @ key' # action' # args'). CHR 0x00 \<notin> set p"
  have n: "CHR 0x00 \<notin> set (show_nat ?e)" using show_nat_all_digits [of ?e] by (auto simp: list_all_iff is_digit_def char_code_def)
  show "confirmed_bytes key' action' args' ?e = confirmed_bytes key action args ?e \<longleftrightarrow>
      key' = key \<and> action' = action \<and> args' = args"
  proof
    assume "confirmed_bytes key' action' args' ?e = confirmed_bytes key action args ?e"
    then have "[key', action', show_nat ?e] @ args' = [key, action, show_nat ?e] @ args"
      unfolding confirmed_bytes_def by (rule zero_ended_inj [rotated]) (use z n in auto)
    then show "key' = key \<and> action' = action \<and> args' = args" by simp
  qed simp
qed

text \<open>A zero byte in a part moves between the parts unnoticed.\<close>

lemma zero_byte_moves:
  "confirmed_bytes key action ([p @ CHR 0x00 # q, r] @ args) e = confirmed_bytes key action ([p, q @ CHR 0x00 # r] @ args) e"
  by (simp add: confirmed_bytes_def as_bytes_def char_byte_zero)

text \<open>A code for a later hour is taken too, by who knows how codes are made.\<close>

lemma long_lived_code:
  "e < 2 ^ 64 \<Longrightarrow> me_unix M (mw_now s) \<le> e \<Longrightarrow>
   check_confirmation M (confirmation_code (me_sha M) key action args e) key action args s = Inr ()"
  unfolding check_confirmation_def code_trim code_split
  by (simp only: bind.bind_lunit prod.case parse_uint_show option.case) simp

text \<open>Tools on a bridge that answers every request with one session.\<close>

definition toy_edge :: bridge_edge where
  "toy_edge = \<lparr>be_http = (\<lambda>_. Inr (200, Some [])),
     be_json = \<lparr>js_read = (\<lambda>_. Some (JObj [(''registrationNumber'', JStr ''22BCE0001''), (''keyOutings'', JBool True),
       (''session'', session_state_json \<lparr>st_cookies = ''a=b'', st_csrf_token = Some ''t'',
         st_registration_number = Some ''22BCE0001'', st_otp_issued_at = None, st_logged_in_at = None\<rparr>)])),
       js_print = (\<lambda>_. [])\<rparr>,
     be_took = (\<lambda>_. 5), be_late = (\<lambda>_. 0)\<rparr>"

definition toy_mcp :: "(unit, unit, string) mcp_env" where
  "toy_mcp = \<lparr>me_source = CachedSessions (BridgeClient toy_edge ''b'') 300000,
     me_web = (\<lambda>_. toy_web (\<lambda>_. Inr toy_page)), me_dom = outing_dom, me_took = (\<lambda>_. 7),
     me_unix = (\<lambda>ms. ms div 1000), me_sha = (\<lambda>b. b), me_print = (\<lambda>_. []), me_base64 = of_bytes\<rparr>"

theorem confirmation_lapses_witness:
  "check_confirmation toy_mcp (new_confirmation toy_mcp ''k'' ''cancel'' [''L1''] mcp_start) ''k'' ''cancel'' [''L1'']
     (mcp_start\<lparr>mw_now := 600000\<rparr>) = Inr () \<and>
   check_confirmation toy_mcp (new_confirmation toy_mcp ''k'' ''cancel'' [''L1''] mcp_start) ''k'' ''cancel'' [''L1'']
     (mcp_start\<lparr>mw_now := 601000\<rparr>) \<noteq> Inr ()"
proof -
  have t: "me_unix toy_mcp (mw_now mcp_start) + 600 < 2 ^ 64" by (simp add: toy_mcp_def mcp_start_def)
  note c = confirmation_lapses [OF t, of "''k''" "''cancel''" "[''L1'']" "''k''" "''cancel''" "[''L1'']"]
  show ?thesis
    using c [of "mcp_start\<lparr>mw_now := 600000\<rparr>"] c [of "mcp_start\<lparr>mw_now := 601000\<rparr>"]
    by (simp add: toy_mcp_def mcp_start_def)
qed

subsection \<open>What an agent is shown of a profile\<close>

lemma chars_flat: "concat (chars s) = s"
  by (induction s rule: chars.induct) auto

lemma digit_begins: "is_digit c \<Longrightarrow> begins c"
  by (auto simp: is_digit_def begins_def)

lemma chars_one_digit: "p \<in> set (chars s) \<Longrightarrow> length (filter is_digit p) \<le> 1"
proof (induction s arbitrary: p rule: chars.induct)
  case (2 c cs)
  have "filter is_digit (takeWhile (\<lambda>x. \<not> begins x) cs) = []"
    using digit_begins by (auto simp: filter_empty_conv dest: set_takeWhileD)
  with 2 show ?case by auto
qed simp

lemma chars_drop: "chars (concat (drop n (chars s))) = drop n (chars s)"
proof (induction s arbitrary: n rule: chars.induct)
  case (2 c cs)
  then show ?case by (cases n) (simp_all add: chars_flat)
qed simp

lemma few_digits: "\<forall>p \<in> set ps. length (filter is_digit p) \<le> 1 \<Longrightarrow> length (filter is_digit (concat ps)) \<le> length ps"
  by (induction ps) auto

lemma masked_value:
  defines "digits \<equiv> \<lambda>s. length (filter is_digit s)"
  shows "digits (masked v) \<le> 4" "digits v \<le> 4 \<Longrightarrow> masked v = v"
    "digits v > 4 \<Longrightarrow> \<exists>hidden shown. v = hidden @ shown \<and> length (chars shown) \<le> 4 \<and>
       masked v = replicate (digits v - 4) CHR ''X'' @ shown"
proof -
  let ?n = "length (chars v) - 4"
  have m: "masked v = (if digits v > 4 then replicate (digits v - 4) CHR ''X'' @ concat (drop ?n (chars v)) else v)"
    by (simp add: masked_def digits_def Let_def)
  have s: "length (chars (concat (drop ?n (chars v)))) \<le> 4" by (simp add: chars_drop)
  have "\<forall>p \<in> set (drop ?n (chars v)). length (filter is_digit p) \<le> 1" using chars_one_digit by (meson in_set_dropD)
  from few_digits [OF this] have "digits (concat (drop ?n (chars v))) \<le> 4" by (simp add: digits_def)
  moreover have "filter is_digit (replicate k CHR ''X'') = []" for k by (induction k) (simp_all add: is_digit_def char_code_def)
  ultimately show "digits (masked v) \<le> 4" by (simp add: m digits_def)
  show "digits v \<le> 4 \<Longrightarrow> masked v = v" by (simp add: m)
  have "v = concat (take ?n (chars v)) @ concat (drop ?n (chars v))"
    by (metis append_take_drop_id chars_flat concat_append)
  with s show "digits v > 4 \<Longrightarrow> \<exists>hidden shown. v = hidden @ shown \<and> length (chars shown) \<le> 4 \<and>
       masked v = replicate (digits v - 4) CHR ''X'' @ shown"
    unfolding m by auto
qed

text \<open>C40: What an agent is handed of a profile has no photo, and of a number labelled Aadhaar, in whatever
  letters, at most the last four characters of what VTOP shows and so at most four digits, behind as
  many crosses as digits are left out; a value of at most four digits and every other field are
  handed over as they are, under the same sections and groups; and so are the name, the registration
  number, the VIT email, the program, the school and the time of the update.\<close>

theorem profile_for_agent:
  "sp_photo (for_agent p) = [] \<and>
   sp_name (for_agent p) = sp_name p \<and> sp_registration_number (for_agent p) = sp_registration_number p \<and>
   sp_vit_email (for_agent p) = sp_vit_email p \<and> sp_program (for_agent p) = sp_program p \<and>
   sp_school (for_agent p) = sp_school p \<and> sp_update_time (for_agent p) = sp_update_time p \<and>
   (\<forall>f. let f' = agent_field f; label = map ascii_upper (pf_label f)
     in pf_label f' = pf_label f \<and>
        (if contains label ''AADHAR'' \<or> contains label ''AADHAAR''
         then length (filter is_digit (pf_value f')) \<le> 4 \<and>
           (length (filter is_digit (pf_value f)) > 4 \<longrightarrow>
             (\<exists>hidden shown. pf_value f = hidden @ shown \<and> length (chars shown) \<le> 4 \<and>
                pf_value f' = replicate (length (filter is_digit (pf_value f)) - 4) CHR ''X'' @ shown)) \<and>
           (length (filter is_digit (pf_value f)) \<le> 4 \<longrightarrow> f' = f)
         else f' = f)) \<and>
   map ps_title (sp_sections (for_agent p)) = map ps_title (sp_sections p) \<and>
   map (\<lambda>section. map (\<lambda>grp. (pq_title grp, pq_fields grp)) (ps_groups section)) (sp_sections (for_agent p)) =
     map (\<lambda>section. map (\<lambda>grp. (pq_title grp, map agent_field (pq_fields grp))) (ps_groups section)) (sp_sections p)"
proof (intro conjI allI)
  fix f
  show "let f' = agent_field f; label = map ascii_upper (pf_label f)
     in pf_label f' = pf_label f \<and>
        (if contains label ''AADHAR'' \<or> contains label ''AADHAAR''
         then length (filter is_digit (pf_value f')) \<le> 4 \<and>
           (length (filter is_digit (pf_value f)) > 4 \<longrightarrow>
             (\<exists>hidden shown. pf_value f = hidden @ shown \<and> length (chars shown) \<le> 4 \<and>
                pf_value f' = replicate (length (filter is_digit (pf_value f)) - 4) CHR ''X'' @ shown)) \<and>
           (length (filter is_digit (pf_value f)) \<le> 4 \<longrightarrow> f' = f)
         else f' = f)"
    using masked_value [of "pf_value f"] by (simp add: agent_field_def Let_def)
qed (simp_all add: for_agent_def comp_def)

definition toy_field :: "string \<Rightarrow> string \<Rightarrow> ProfileField" where
  "toy_field label value = \<lparr>pf_label = label, pf_value = value\<rparr>"

theorem profile_for_agent_witness:
  "length (filter is_digit (pf_value (agent_field (toy_field ''Aadhaar No'' ''1234 5678 9012'')))) \<le> 4 \<and>
   agent_field (toy_field ''Name'' ''12345'') = toy_field ''Name'' ''12345''"
proof -
  have "contains (map ascii_upper ''Aadhaar No'') ''AADHAAR''"
    "\<not> contains (map ascii_upper ''Name'') ''AADHAR''" "\<not> contains (map ascii_upper ''Name'') ''AADHAAR''" by code_simp+
  then show ?thesis
    using profile_for_agent [THEN conjunct2, THEN conjunct2, THEN conjunct2, THEN conjunct2, THEN conjunct2, THEN conjunct2, THEN conjunct2,
        THEN conjunct1, rule_format, of "toy_field ''Aadhaar No'' ''1234 5678 9012''"]
      profile_for_agent [THEN conjunct2, THEN conjunct2, THEN conjunct2, THEN conjunct2, THEN conjunct2, THEN conjunct2, THEN conjunct2,
        THEN conjunct1, rule_format, of "toy_field ''Name'' ''12345''"]
    by (simp add: Let_def toy_field_def)
qed

end
