(* ===== verification/McpCallers.thy ===== *)
theory McpCallers
  imports McpClaims
begin

section \<open>The tools: whose session a tool acts on\<close>

text \<open>
  The keys the server takes are keys the bridge vouched for, and the sessions its tools use are
  those the bridge handed out for the caller's key.  The contract of the sessions comes from the
  interpretation of the locale of \<^theory_text>\<open>McpSessions\<close> on the cache before the bridge's client.
\<close>

text \<open>The source the server runs with.\<close>

abbreviation server_source :: "bridge_edge \<Rightarrow> string \<Rightarrow> nat \<Rightarrow> SessionSource" where
  "server_source E base_url keep \<equiv> CachedSessions (BridgeClient E base_url) keep"

abbreviation server_fine :: "bridge_edge \<Rightarrow> mcp_world \<Rightarrow> bool" where
  "server_fine E \<equiv> kept_fine E 0 (\<lambda>_. True)"

text \<open>The bridge said that a key is someone's, and of when on its answer is.\<close>

definition vouched :: "bridge_edge \<Rightarrow> string \<Rightarrow> (nat \<times> BridgeRequest) list \<Rightarrow> nat \<Rightarrow> string \<Rightarrow> bool" where
  "vouched E base_url asked n key \<longleftrightarrow> n < length asked \<and>
     snd (asked ! n) = \<lparr>bq_post = False, bq_path = trim_end_char CHR ''/'' base_url @ ''/v1/whoami'', bq_key = key\<rparr> \<and>
     (\<exists>content. be_http E (take (Suc n) asked) = Inr (200, content) \<and> identity_of (body_of E content) \<noteq> None)"

lemma vouched_prefix:
  assumes "vouched E base_url asked n key" "prefix asked asked'"
  shows "vouched E base_url asked' n key" "fst (asked' ! n) = fst (asked ! n)"
  using assms by (auto simp: vouched_def prefix_def nth_append)

lemma call_asked_since: "call_from E rq n s = (r, s') \<Longrightarrow> r = Inr x \<Longrightarrow> mw_now s \<le> fst (last (mw_asked s'))"
proof (induction E rq n s rule: call_from.induct)
  case (1 E rq n s)
  obtain a s1 where a: "ask E rq s = (a, s1)" by (cases "ask E rq s")
  then have s1: "mw_now s \<le> mw_now s1" "fst (last (mw_asked s1)) = mw_now s" by (auto simp: ask_def Let_def)
  show ?case
  proof (cases a)
    case (Inl e)
    then have n: "n = 1" "call_from E rq (n + 1) s1 = (r, s')"
      using "1.prems" a by (subst (asm) (1) call_from.simps, auto split: if_splits)+
    from "1.IH"(1) [OF a [symmetric] Inl n "1.prems"(2)] s1 show ?thesis by linarith
  next
    case (Inr y)
    obtain status b where y: "y = (status, b)" by (cases y)
    show ?thesis
    proof (cases "(status \<in> {502, 503} \<and> j_get (body_of E b) ''code'' = None) \<and> n = 1")
      case True
      with "1.prems"(1) have "call_from E rq (n + 1) (pause E 500 s1) = (r, s')"
        using a Inr y by (subst (asm) call_from.simps) simp
      from "1.IH"(2) [OF a [symmetric] Inr y [symmetric] refl refl True this "1.prems"(2)] s1
      show ?thesis by (simp add: pause_def)
    next
      case False
      with "1.prems"(1) have "s' = s1"
        using a Inr y by (subst (asm) call_from.simps, auto simp: Let_def split: if_splits)
      then show ?thesis using s1 by simp
    qed
  qed
qed

lemma whoami_vouched:
  assumes "so_whoami (server_source E base_url keep) key s = (Inr (Some i), s')"
  shows "\<exists>n. vouched E base_url (mw_asked s') n key \<and> mw_now s \<le> fst (mw_asked s' ! n)"
proof -
  let ?url = "trim_end_char CHR ''/'' base_url"
  from assms obtain status body where c: "bridge_call E ?url False ''/v1/whoami'' key s = (Inr (status, body), s')"
    and ok: "status = 200" "identity_of body = Some i"
    by (auto simp: CachedSessions_def BridgeClient_def Let_def bridge_whoami_def mret_def mfail_def
      elim!: mthen_cases split: if_splits)
  from bridge_call_answer(2) [OF c refl] obtain content where "mw_asked s' \<noteq> []"
    "snd (last (mw_asked s')) = \<lparr>bq_post = False, bq_path = ?url @ ''/v1/whoami'', bq_key = key\<rparr>"
    "be_http E (mw_asked s') = Inr (200, content)" "body = body_of E content"
    using ok by (auto simp: bridge_answered_def)
  then have "vouched E base_url (mw_asked s') (length (mw_asked s') - 1) key"
    using ok by (simp add: vouched_def last_conv_nth)
  moreover have "mw_now s \<le> fst (mw_asked s' ! (length (mw_asked s') - 1))"
    using call_asked_since [OF c [unfolded bridge_call_def] refl] \<open>mw_asked s' \<noteq> []\<close> by (simp add: last_conv_nth)
  ultimately show ?thesis by blast
qed

text \<open>What the server knows of keys, the bridge said.\<close>

definition known_fine :: "(bytes \<Rightarrow> bytes) \<Rightarrow> bridge_edge \<Rightarrow> string \<Rightarrow> mcp_world \<Rightarrow> bool" where
  "known_fine H E base_url s \<longleftrightarrow> (\<forall>(hash, at) \<in> set (mw_known s). \<exists>n key. token_hash H key = hash \<and>
     vouched E base_url (mw_asked s) n key \<and> at \<le> fst (mw_asked s ! n))"

lemma known_fine_later:
  assumes "known_fine H E base_url s" "prefix (mw_asked s) (mw_asked s')" "set (mw_known s') \<subseteq> set (mw_known s)"
  shows "known_fine H E base_url s'"
  unfolding known_fine_def
proof clarify
  fix hash at assume "(hash, at) \<in> set (mw_known s')"
  then have "(hash, at) \<in> set (mw_known s)" using assms(3) by blast
  then obtain n key where n: "token_hash H key = hash" "vouched E base_url (mw_asked s) n key" "at \<le> fst (mw_asked s ! n)"
    using assms(1) unfolding known_fine_def by blast
  from n vouched_prefix [OF n(2) assms(2)]
  show "\<exists>n key. token_hash H key = hash \<and> vouched E base_url (mw_asked s') n key \<and> at \<le> fst (mw_asked s' ! n)"
    by (intro exI [of _ n] exI [of _ key]) simp
qed

text \<open>The bridge vouched, at most \<open>ttl\<close> before \<open>now\<close>, for a key with the hash of this one.\<close>

definition recently_vouched ::
  "(bytes \<Rightarrow> bytes) \<Rightarrow> bridge_edge \<Rightarrow> string \<Rightarrow> (nat \<times> BridgeRequest) list \<Rightarrow> nat \<Rightarrow> nat \<Rightarrow> string \<Rightarrow> bool" where
  "recently_vouched H E base_url asked now ttl key \<longleftrightarrow> (\<exists>n key'. token_hash H key' = token_hash H key \<and>
     vouched E base_url asked n key' \<and> now \<le> fst (asked ! n) + ttl)"

lemma recently_vouched_prefix:
  assumes "recently_vouched H E base_url asked now ttl key" "prefix asked asked'"
  shows "recently_vouched H E base_url asked' now ttl key"
proof -
  from assms(1) obtain n key' where "token_hash H key' = token_hash H key" "vouched E base_url asked n key'"
    "now \<le> fst (asked ! n) + ttl" unfolding recently_vouched_def by blast
  with vouched_prefix [OF this(2) assms(2)] show ?thesis unfolding recently_vouched_def by (metis (no_types))
qed

text \<open>The key of a request is checked.\<close>

lemma key_checked:
  assumes k: "known_fine H E base_url s" "server_fine E s"
    and run: "key_check H (server_source E base_url keep) key_ttl key s = (r, s')"
  shows "known_fine H E base_url s' \<and> server_fine E s' \<and> later s s' \<and>
    (r = Inr True \<longrightarrow> recently_vouched H E base_url (mw_asked s') (mw_now s) key_ttl key)"
proof -
  let ?s = "s\<lparr>mw_known := filter (\<lambda>(_, checked). mw_now s - checked < key_ttl) (mw_known s)\<rparr>"
  have k1: "known_fine H E base_url ?s" by (rule known_fine_later [OF k(1)]) auto
  have f1: "server_fine E ?s" by (rule kept_fine_later [OF k(2)]) auto
  show ?thesis
  proof (cases "map_of (mw_known ?s) (token_hash H key)")
    case (Some at)
    then have r: "s' = ?s" using run by (simp add: key_check_def Let_def)
    from map_of_SomeD [OF Some] have "(token_hash H key, at) \<in> set (mw_known ?s)" .
    then obtain n key' where n: "token_hash H key' = token_hash H key" "vouched E base_url (mw_asked ?s) n key'"
      "at \<le> fst (mw_asked ?s ! n)" and "mw_now s - at < key_ttl"
      using k1 unfolding known_fine_def by fastforce
    then have "mw_now s \<le> fst (mw_asked ?s ! n) + key_ttl" by linarith
    then show ?thesis using n(1,2) r k1 f1 unfolding recently_vouched_def by (auto simp: later_def)
  next
    case None
    obtain i s1 where i: "so_whoami (server_source E base_url keep) key ?s = (i, s1)"
      by (cases "so_whoami (server_source E base_url keep) key ?s")
    note law = kept.held.whoami_law [OF f1 i]
    have k2: "known_fine H E base_url s1" by (rule known_fine_later [OF k1]) (use law in \<open>auto simp: later_def\<close>)
    show ?thesis
    proof (cases "\<exists>x. i = Inr (Some x)")
      case False
      then have "s' = s1" "r \<noteq> Inr True" using run None i
        by (auto simp: key_check_def Let_def mthen_def split: sum.splits)
      then show ?thesis using law k2 by (auto simp: later_def)
    next
      case True
      then obtain x where x: "i = Inr (Some x)" by blast
      then have s': "s' = s1\<lparr>mw_known := AList.update (token_hash H key) (mw_now s) (mw_known s1)\<rparr>"
        using run None i by (simp add: key_check_def Let_def mthen_def)
      from whoami_vouched [OF i [unfolded x]] obtain n where
        n: "vouched E base_url (mw_asked s1) n key" "mw_now s \<le> fst (mw_asked s1 ! n)" by auto
      have "known_fine H E base_url s'"
        unfolding known_fine_def
      proof clarify
        fix hash at assume "(hash, at) \<in> set (mw_known s')"
        then consider "(hash, at) = (token_hash H key, mw_now s)" | "(hash, at) \<in> set (mw_known s1)"
          using update_subset [of "token_hash H key" "mw_now s" "mw_known s1"] s' by auto
        then show "\<exists>n key. token_hash H key = hash \<and> vouched E base_url (mw_asked s') n key \<and> at \<le> fst (mw_asked s' ! n)"
          using n k2 unfolding known_fine_def by cases (auto simp: s')
      qed
      moreover have "server_fine E s'" by (rule kept_fine_later [of _ _ _ s1]) (use law s' in auto)
      ultimately show ?thesis using n law s' by (auto simp: later_def recently_vouched_def intro!: exI [of _ n] exI [of _ key])
    qed
  qed
qed

lemma bearer_checked:
  assumes "known_fine H E base_url s" "server_fine E s"
    and "require_bearer H (server_source E base_url keep) key_ttl rq s = (a, s')"
  shows "known_fine H E base_url s' \<and> server_fine E s' \<and> later s s' \<and>
    (\<forall>key. a = Served key \<longrightarrow> key = presented_key rq \<and> key \<noteq> [] \<and>
       recently_vouched H E base_url (mw_asked s') (mw_now s) key_ttl key)"
proof (cases "presented_key rq = []")
  case True
  then show ?thesis using assms by (auto simp: require_bearer_def)
next
  case False
  obtain r s1 where r: "key_check H (server_source E base_url keep) key_ttl (presented_key rq) s = (r, s1)"
    by (cases "key_check H (server_source E base_url keep) key_ttl (presented_key rq) s")
  have "s' = s1" "a = Served key \<Longrightarrow> r = Inr True \<and> key = presented_key rq" for key
    using assms(3) r False by (auto simp: require_bearer_def Let_def split: sum.splits bool.splits)
  with key_checked [OF assms(1,2) r] False show ?thesis by auto
qed

lemma serve_checked:
  assumes M: "me_source M = server_source E base_url keep"
    and s: "known_fine (me_sha M) E base_url s" "server_fine E s"
    and run: "mcp_serve M key_ttl rq t s = ((a, r), s')"
  shows "known_fine (me_sha M) E base_url s' \<and> server_fine E s' \<and>
    (\<exists>us. mw_used s' = mw_used s @ us \<and> (\<forall>u \<in> set us. good_use E (mw_asked s') keep (presented_key rq) u) \<and>
      ((\<forall>key. a \<noteq> Served key) \<longrightarrow> us = [])) \<and>
    (\<forall>key. a = Served key \<longrightarrow> key = presented_key rq \<and> key \<noteq> [] \<and>
       recently_vouched (me_sha M) E base_url (mw_asked s') (mw_now s) key_ttl key)"
proof -
  obtain b s1 where b: "require_bearer (me_sha M) (server_source E base_url keep) key_ttl rq s = (b, s1)"
    by (cases "require_bearer (me_sha M) (server_source E base_url keep) key_ttl rq s")
  note c = bearer_checked [OF s b]
  show ?thesis
  proof (cases "\<exists>key. b = Served key")
    case False
    then have "s' = s1" "a = b" using run b by (auto simp: mcp_serve_def M split: McpAnswer.splits)
    then show ?thesis using c False by (simp add: later_def)
  next
    case True
    then obtain key where key: "b = Served key" by blast
    obtain q s2 where q: "run_tool M t (Some key) s1 = (q, s2)" by (cases "run_tool M t (Some key) s1")
    have r: "s' = s2" "a = Served key" using run b key q by (auto simp: mcp_serve_def M)
    have s2: "server_fine E s2 \<and> advances E keep key s1 s2"
      using kept.held.for_keyD [OF kept.held.tools_for_key [OF M] _ q] c by simp
    have "known_fine (me_sha M) E base_url s2"
      by (rule known_fine_later [of _ _ _ s1]) (use c s2 in \<open>auto simp: advances_def\<close>)
    moreover have "recently_vouched (me_sha M) E base_url (mw_asked s2) (mw_now s) key_ttl key"
      by (rule recently_vouched_prefix [of _ _ _ "mw_asked s1"]) (use c key s2 in \<open>auto simp: advances_def\<close>)
    ultimately show ?thesis using s2 c key r by (auto simp: advances_def later_def)
  qed
qed

lemma run_checked:
  assumes "me_source M = server_source E base_url keep" "mcp_run M key_ttl s"
  shows "known_fine (me_sha M) E base_url s \<and> server_fine E s"
  using assms(2)
proof induction
  case start
  show ?case by (simp add: known_fine_def kept_fine_def mcp_start_def)
next
  case (serve s rq t a s')
  then show ?case using serve_checked [OF assms(1)] by (cases a) blast
next
  case (wait s ms)
  then show ?case by (auto intro: known_fine_later kept_fine_later)
qed

text \<open>C20: Whatever the server was asked before, a tool uses VTOP only on sessions that the bridge handed out for the
  very key the request presents, and each of them at most as long after as sessions are kept.  A
  request whose key is refused uses none, and a key is taken only if the bridge vouched, no longer
  ago than keys are remembered, for a key with the same hash.\<close>

theorem tool_calls_for_caller:
  assumes "me_source M = CachedSessions (BridgeClient E base_url) keep"
    and "mcp_run M key_ttl s" and "mcp_serve M key_ttl rq t s = ((a, r), s')"
  shows "\<exists>us. mw_used s' = mw_used s @ us \<and> (us \<noteq> [] \<longrightarrow> a = Served (presented_key rq)) \<and>
     (\<forall>u \<in> set us. good_use E (mw_asked s') keep (presented_key rq) u) \<and>
     (\<forall>key. a = Served key \<longrightarrow> key = presented_key rq \<and> key \<noteq> [] \<and>
       recently_vouched (me_sha M) E base_url (mw_asked s') (mw_now s) key_ttl key)"
proof -
  note inv = run_checked [OF assms(1,2)]
  from serve_checked [OF assms(1) conjunct1 [OF inv] conjunct2 [OF inv] assms(3)] obtain us where
    us: "mw_used s' = mw_used s @ us" "\<forall>u \<in> set us. good_use E (mw_asked s') keep (presented_key rq) u"
      "(\<forall>key. a \<noteq> Served key) \<longrightarrow> us = []"
    and key: "\<forall>key. a = Served key \<longrightarrow> key = presented_key rq \<and> key \<noteq> [] \<and>
       recently_vouched (me_sha M) E base_url (mw_asked s') (mw_now s) key_ttl key" by blast
  have "us \<noteq> [] \<longrightarrow> a = Served (presented_key rq)" using us(3) key by metis
  with us(1,2) key show ?thesis by blast
qed

text \<open>A first call uses VTOP once, on the session the bridge handed out for its key.\<close>

abbreviation toy_state :: SessionState where
  "toy_state \<equiv> \<lparr>st_cookies = ''a=b'', st_csrf_token = Some ''t'', st_registration_number = Some ''22BCE0001'',
     st_otp_issued_at = None, st_logged_in_at = None\<rparr>"

abbreviation asked_now :: "BridgeRequest \<Rightarrow> mcp_world \<Rightarrow> mcp_world" where
  "asked_now rq s \<equiv> s\<lparr>mw_asked := mw_asked s @ [(mw_now s, rq)], mw_now := mw_now s + 5\<rparr>"

lemma toy_bridge_call: "bridge_call toy_edge base post path key s =
  (Inr (200, body_of toy_edge (Some [])), asked_now \<lparr>bq_post = post, bq_path = base @ path, bq_key = key\<rparr> s)"
  by (simp add: bridge_call_def call_from.simps ask_def toy_edge_def Let_def)

lemma toy_bridge_body: "identity_of (body_of toy_edge (Some [])) \<noteq> None" "session_of (body_of toy_edge (Some [])) = Inr toy_state"
proof -
  have "session_state_of (session_state_json toy_state) = Some toy_state" by (rule session_state_rt) simp_all
  then show "identity_of (body_of toy_edge (Some [])) \<noteq> None" "session_of (body_of toy_edge (Some [])) = Inr toy_state"
    by (simp_all add: body_of_def toy_edge_def identity_of_def session_of_def j_field_def)
qed

lemma toy_source: "me_source toy_mcp = CachedSessions (BridgeClient toy_edge ''b'') 300000"
  by (simp add: toy_mcp_def)

lemma toy_sources:
  "so_whoami (me_source toy_mcp) key s = (Inr (identity_of (body_of toy_edge (Some []))),
     asked_now \<lparr>bq_post = False, bq_path = ''b/v1/whoami'', bq_key = key\<rparr> s)"
  "mw_kept s = [] \<Longrightarrow> so_session (me_source toy_mcp) key s = (Inr toy_state, (asked_now \<lparr>bq_post = True, bq_path = ''b/v1/session'', bq_key = key\<rparr> s)
     \<lparr>mw_kept := [(key, mw_now s + 5, toy_state)]\<rparr>)"
  by (simp_all add: toy_source CachedSessions_def BridgeClient_def bridge_whoami_def bridge_session_def cached_session_def mthen_def
    mret_def toy_bridge_call toy_bridge_body trim_end_char_def Let_def)

abbreviation toy_signed_in :: "unit VtopClient" where
  "toy_signed_in \<equiv> snd (resume_session (toy_web (\<lambda>_. Inr toy_page)) toy_state (client_new (toy_web (\<lambda>_. Inr toy_page)) DEFAULT_BASE_URL None))"

lemma toy_with_session: "with_session (toy_web (\<lambda>_. Inr toy_page)) DEFAULT_BASE_URL toy_state = Inr toy_signed_in"
proof -
  have "fst (resume_session (toy_web (\<lambda>_. Inr toy_page)) toy_state (client_new (toy_web (\<lambda>_. Inr toy_page)) DEFAULT_BASE_URL None)) = Inr ()"
    by code_simp
  then show ?thesis by (simp add: with_session_def split_beta)
qed

lemma toy_mentor: "\<exists>x. fst (mentor (toy_web (\<lambda>_. Inr toy_page)) outing_dom toy_signed_in) = Inr x"
proof -
  have "case_sum (\<lambda>_. False) (\<lambda>_. True) (fst (mentor (toy_web (\<lambda>_. Inr toy_page)) outing_dom toy_signed_in))"
    by code_simp
  then show ?thesis by (simp split: sum.splits)
qed

abbreviation toy_call :: "(McpAnswer \<times> CallToolResult option) \<times> mcp_world" where
  "toy_call \<equiv> mcp_serve toy_mcp 60000 \<lparr>mq_authorization = Some ''Bearer k'', mq_path = ''/mcp''\<rparr> GetMentor mcp_start"

lemma toy_retry:
  assumes "mw_kept s = []"
  shows "length (mw_used (snd (with_retry toy_mcp key (\<lambda>W. mentor W outing_dom) s))) = Suc (length (mw_used s))"
proof -
  obtain x c where "mentor (toy_web (\<lambda>_. Inr toy_page)) outing_dom toy_signed_in = (Inr x, c)"
    using toy_mentor by (metis prod.collapse)
  moreover have "me_web toy_mcp = (\<lambda>_. toy_web (\<lambda>_. Inr toy_page))" by (simp add: toy_mcp_def)
  ultimately show ?thesis using assms
    by (simp add: with_retry_def with_retry_from.simps toy_sources toy_with_session Let_def noted_use_def)
qed

lemma toy_call_uses: "length (mw_used (snd toy_call)) = 1"
proof -
  have k: "presented_key \<lparr>mq_authorization = Some ''Bearer k'', mq_path = ''/mcp''\<rparr> = ''k''" by code_simp
  obtain i where i: "identity_of (body_of toy_edge (Some [])) = Some i" using toy_bridge_body(1) by blast
  let ?s = "(asked_now \<lparr>bq_post = False, bq_path = ''b/v1/whoami'', bq_key = ''k''\<rparr> mcp_start)
    \<lparr>mw_known := [(token_hash (me_sha toy_mcp) ''k'', 0)]\<rparr>"
  have "require_bearer (me_sha toy_mcp) (me_source toy_mcp) 60000 \<lparr>mq_authorization = Some ''Bearer k'', mq_path = ''/mcp''\<rparr>
      mcp_start = (Served ''k'', ?s)"
    by (simp add: require_bearer_def k key_check_def mcp_start_def Let_def mthen_def toy_sources i)
  moreover have "mw_kept ?s = []" "mw_used ?s = []" by (simp_all add: mcp_start_def)
  moreover have "mw_used (snd (get_mentor toy_mcp (Some ''k'') s)) = mw_used (snd (with_retry toy_mcp ''k'' (\<lambda>W. mentor W outing_dom) s))" for s
    by (simp add: get_mentor_def tool_fetch_def with_caller_def or_error_def answer_def toy_mcp_def split: prod.split sum.split)
  ultimately show ?thesis using toy_retry [of ?s "''k''"] by (simp add: mcp_serve_def split_beta)
qed

theorem tool_calls_for_caller_witness:
  "\<exists>u. mw_used (snd toy_call) = [u] \<and> good_use toy_edge (mw_asked (snd toy_call)) 300000 ''k'' u"
proof -
  let ?rq = "\<lparr>mq_authorization = Some ''Bearer k'', mq_path = ''/mcp''\<rparr>"
  have "toy_call = ((fst (fst toy_call), snd (fst toy_call)), snd toy_call)" by simp
  moreover have "me_source toy_mcp = CachedSessions (BridgeClient toy_edge ''b'') 300000" by (simp add: toy_mcp_def)
  ultimately obtain us where us: "mw_used (snd toy_call) = mw_used mcp_start @ us"
    "\<forall>u \<in> set us. good_use toy_edge (mw_asked (snd toy_call)) 300000 (presented_key ?rq) u"
    using tool_calls_for_caller [OF _ mcp_run.start, of toy_mcp toy_edge "''b''" 300000 60000 ?rq GetMentor] by blast
  have "presented_key ?rq = ''k''" by code_simp
  with us toy_call_uses show ?thesis by (cases us) (simp_all add: mcp_start_def)
qed

end
