(* ===== verification/McpActs.thy ===== *)
theory McpActs
  imports McpCallers BridgeProps InputClaims
begin

section \<open>The tools: who may file an outing\<close>

text \<open>
  Which tools send VTOP a form about a request for leave, how often, and what they ask for first.
\<close>

subsection \<open>What a step sends\<close>

text \<open>Forms that file a request for leave or take one back; others only read.\<close>

definition leave_form :: "(string \<times> string) list \<Rightarrow> bool" where
  "leave_form f \<longleftrightarrow> ''LeaveId'' \<in> fst ` set f \<or> ''BookingId'' \<in> fst ` set f"

text \<open>Steps that send at most \<open>n\<close> of them.\<close>

definition sends_leave :: "nat \<Rightarrow> ('j VtopClient, 'a) act \<Rightarrow> bool" where
  "sends_leave n m \<longleftrightarrow> (\<forall>c. \<exists>hs. vc_sent (snd (m c)) = vc_sent c @ hs \<and> length (filter leave_form (filed hs)) \<le> n)"

lemma sends_leaveD:
  "sends_leave n m \<Longrightarrow> m c = (r, c') \<Longrightarrow> \<exists>hs. vc_sent c' = vc_sent c @ hs \<and> length (filter leave_form (filed hs)) \<le> n"
  unfolding sends_leave_def by (metis snd_conv)

lemma sends_leaveI:
  "(\<And>c r c'. m c = (r, c') \<Longrightarrow> \<exists>hs. vc_sent c' = vc_sent c @ hs \<and> length (filter leave_form (filed hs)) \<le> n) \<Longrightarrow>
   sends_leave n m"
  unfolding sends_leave_def by (metis prod.collapse)

lemma spares_leave: "spares leave_form m \<Longrightarrow> sends_leave n m"
  unfolding spares_def sends_leave_def by (metis le0 list.size(3))

lemma leave_after:
  assumes "spares leave_form m" "\<And>x. sends_leave n (f x)" shows "sends_leave n (andthen m f)"
proof (rule sends_leaveI)
  fix c r c'
  assume "andthen m f c = (r, c')"
  then show "\<exists>hs. vc_sent c' = vc_sent c @ hs \<and> length (filter leave_form (filed hs)) \<le> n"
  proof (rule andthen_cases, goal_cases)
    case (1 e)
    from sparesD [OF assms(1) 1(1)] show ?case by fastforce
  next
    case (2 x c1)
    from sparesD [OF assms(1) 2(1)] sends_leaveD [OF assms(2) 2(2)] show ?case by fastforce
  qed
qed

lemma leave_now:
  assumes "\<And>t. sends_leave n (k t)" shows "sends_leave n (now_unix W k)"
proof (rule sends_leaveI)
  fix c r c'
  assume "now_unix W k c = (r, c')"
  then show "\<exists>hs. vc_sent c' = vc_sent c @ hs \<and> length (filter leave_form (filed hs)) \<le> n"
    by (rule now_cases) (use sends_leaveD [OF assms] in metis)
qed

lemma leave_form_once:
  "sends_leave 1 (andthen (authorize W) (\<lambda>auth. now_unix W (\<lambda>now.
     andthen (post_form W context path (form auth now)) (\<lambda>page. ret (read page)))))"
proof (rule sends_leaveI)
  fix c r c'
  assume "andthen (authorize W) (\<lambda>auth. now_unix W (\<lambda>now.
     andthen (post_form W context path (form auth now)) (\<lambda>page. ret (read page)))) c = (r, c')"
  from authorized_form [OF this] obtain hs auth now where "vc_sent c' = vc_sent c @ hs"
    "filed hs \<in> {[], [form auth now]}" by blast
  then show "\<exists>hs. vc_sent c' = vc_sent c @ hs \<and> length (filter leave_form (filed hs)) \<le> 1" by auto
qed

lemma leave_leaf: "sends_leave n (ret x)" "sends_leave n (fail e)"
  by (auto simp: sends_leave_def ret_def fail_def)

lemma leave_cases:
  "sends_leave n m \<Longrightarrow> sends_leave n m' \<Longrightarrow> sends_leave n (if b then m else m')"
  "sends_leave n m \<Longrightarrow> (\<And>y. sends_leave n (g y)) \<Longrightarrow> sends_leave n (case z of None \<Rightarrow> m | Some y \<Rightarrow> g y)"
  "(\<And>a b. sends_leave n (h a b)) \<Longrightarrow> sends_leave n (case p of (a, b) \<Rightarrow> h a b)"
  by (auto split: option.split prod.split)

lemma apply_sends_leave:
  "sends_leave 1 (apply_general_outing W D ga)" "sends_leave 1 (apply_weekend_outing W D wa)"
  "sends_leave 1 (cancel_general_outing W D ident)" "sends_leave 1 (cancel_weekend_outing W D ident)"
  unfolding apply_general_outing_def apply_weekend_outing_def cancel_general_outing_def cancel_weekend_outing_def cancel_outing_def
  by (rule leave_form_once leave_now leave_cases leave_leaf leave_after spares_leaf spares_outing)+

lemma file_sends_leave:
  "sends_leave 1 (file_general D ga W)" "sends_leave 1 (file_weekend D wa W)" "sends_leave 1 (cancel_listed D kind ident W)"
  unfolding file_general_def file_weekend_def cancel_listed_def
  by (auto split: OutingKind.split intro!: leave_after leave_cases leave_leaf
    apply_sends_leave [unfolded One_nat_def] spares_outing)

text \<open>The pages and files that are only read.\<close>

lemma spares_page: "spares P m \<Longrightarrow> spares P (read_page W parse m)"
  unfolding read_page_def by (intro spares_intros)

lemmas page_defs = semesters_page_def timetable_page_def attendance_page_def full_attendance_page_def
  calendar_months_page_def calendar_month_page_def semester_form_page_def marks_page_def exam_schedule_page_def
  grade_view_page_def grade_view_details_page_def grade_history_page_def biometric_page_def menu_page_def
  profile_page_def mentor_details_page_def mentor_messages_page_def course_page_courses_page_def
  course_page_classes_page_def course_page_detail_page_def

lemma pages_spare_leave:
  "spares leave_form (semesters_page W)" "spares leave_form (timetable_page W s)" "spares leave_form (attendance_page W s)"
  "spares leave_form (full_attendance_page W s c k)" "spares leave_form (calendar_months_page W s)"
  "spares leave_form (calendar_month_page W s d)" "spares leave_form (marks_page W s)"
  "spares leave_form (exam_schedule_page W s)" "spares leave_form (grade_view_page W s)"
  "spares leave_form (grade_view_details_page W s c)" "spares leave_form (grade_history_page W)"
  "spares leave_form (biometric_page W d)" "spares leave_form (profile_page W)" "spares leave_form (mentor_details_page W)"
  "spares leave_form (mentor_messages_page W)" "spares leave_form (course_page_courses_page W s)"
  "spares leave_form (course_page_classes_page W s c)" "spares leave_form (course_page_detail_page W s e c)"
  unfolding page_defs by (rule spares_fetch, auto simp: menu_body_def semester_body_def leave_form_def)+

lemma months_spare_leave: "spares leave_form (calendar_months W D s ms es)"
  by (induction ms arbitrary: es) (auto intro!: spares_intros pages_spare_leave)

lemma reads_spare_leave:
  "spares leave_form (semesters W D)" "spares leave_form (timetable W D s)" "spares leave_form (attendance W D s)"
  "spares leave_form (full_attendance W D s c k)" "spares leave_form (academic_calendar W D s)"
  "spares leave_form (marks W D s)" "spares leave_form (exam_schedule W D s)" "spares leave_form (grade_view W D s)"
  "spares leave_form (grade_view_details W D s c)" "spares leave_form (grade_history W D)"
  "spares leave_form (biometric_history W D d)" "spares leave_form (profile W D)" "spares leave_form (mentor W D)"
  "spares leave_form (course_page_courses W D s)" "spares leave_form (course_page_classes W D s c)"
  "spares leave_form (course_page_detail W D s e c)"
  unfolding semesters_def timetable_def attendance_def full_attendance_def academic_calendar_def marks_def
    exam_schedule_def grade_view_def grade_view_details_def grade_history_def biometric_history_def profile_def
    mentor_def course_page_courses_def course_page_classes_def course_page_detail_def
  by (intro spares_intros spares_page pages_spare_leave months_spare_leave)+

lemma files_spare:
  "spares P (course_page_file W path)" "spares P (course_plan W s c)" "spares P (outing_pass W kind ident)"
  unfolding course_page_file_def course_plan_def outing_pass_def download_course_file_def Let_def mark_session_expired_def
  by (intro spares_intros; simp add: query_request_def get_request_def)+

lemma each_spares_leave: "spares leave_form (biometric_each W D days read)"
  by (induction days arbitrary: read) (auto intro!: spares_intros reads_spare_leave)

lemma listed_spares: "spares P (listed_request D kind ident W)"
  unfolding listed_request_def by (cases kind) (auto intro!: spares_intros)

subsection \<open>What a tool sends\<close>

definition leave_forms :: "VtopUse list \<Rightarrow> (string \<times> string) list list" where
  "leave_forms us = concat (map (\<lambda>u. filter leave_form (filed (vu_sent u))) us)"

lemma leave_forms_simps [simp]: "leave_forms [] = []" "leave_forms (us @ us') = leave_forms us @ leave_forms us'"
  by (simp_all add: leave_forms_def)

text \<open>Steps of a tool that send at most \<open>n\<close> of these forms; its source of sessions sends none.\<close>

definition acts :: "nat \<Rightarrow> (mcp_world \<Rightarrow> 'r \<times> mcp_world) \<Rightarrow> bool" where
  "acts n m \<longleftrightarrow> (\<forall>s r s'. m s = (r, s') \<longrightarrow> (\<exists>us. mw_used s' = mw_used s @ us \<and> length (leave_forms us) \<le> n))"

lemma actsD: "acts n m \<Longrightarrow> m s = (r, s') \<Longrightarrow> \<exists>us. mw_used s' = mw_used s @ us \<and> length (leave_forms us) \<le> n"
  unfolding acts_def by blast

lemma actsI:
  "(\<And>s r s'. m s = (r, s') \<Longrightarrow> \<exists>us. mw_used s' = mw_used s @ us \<and> length (leave_forms us) \<le> n) \<Longrightarrow> acts n m"
  unfolding acts_def by blast

definition source_idle :: "SessionSource \<Rightarrow> bool" where
  "source_idle src \<longleftrightarrow> (\<forall>key s. mw_used (snd (so_whoami src key s)) = mw_used s \<and>
     mw_used (snd (so_session src key s)) = mw_used s \<and> mw_used (snd (so_expire src key s)) = mw_used s)"

lemma source_idleD:
  assumes "source_idle src"
  shows "so_whoami src key s = (i, s') \<Longrightarrow> mw_used s' = mw_used s" "so_session src key s = (r, s') \<Longrightarrow> mw_used s' = mw_used s"
    "so_expire src key s = (x, s') \<Longrightarrow> mw_used s' = mw_used s"
  using assms unfolding source_idle_def by (metis snd_conv)+

lemma bridge_idle: "source_idle (BridgeClient E base_url)"
  unfolding source_idle_def BridgeClient_def Let_def
  using bridge_whoami_steady bridge_session_granted(1) bridge_expire_steady
  by (simp add: steady_def later_def) (metis prod.collapse)

lemma cached_idle:
  assumes "source_idle src" shows "source_idle (CachedSessions src keep)"
  unfolding source_idle_def
proof (intro allI conjI)
  fix key s
  show "mw_used (snd (so_whoami (CachedSessions src keep) key s)) = mw_used s"
    using assms by (simp add: CachedSessions_def source_idle_def)
  show "mw_used (snd (so_expire (CachedSessions src keep) key s)) = mw_used s"
    using assms by (simp add: CachedSessions_def cached_expire_def source_idle_def)
  show "mw_used (snd (so_session (CachedSessions src keep) key s)) = mw_used s"
    using source_idleD(2) [OF assms]
    by (auto simp: CachedSessions_def cached_session_def Let_def split: option.split prod.split sum.split)
qed

lemma server_idle: "source_idle (server_source E base_url keep)"
  by (rule cached_idle [OF bridge_idle])

lemma retry_acts:
  assumes "source_idle (me_source M)" "\<And>W. sends_leave n (call W)"
  shows "with_retry_from M key call retried s = (r, s') \<Longrightarrow>
    \<exists>us. mw_used s' = mw_used s @ us \<and> length (leave_forms us) \<le> (if retried then n else 2 * n)"
proof (induction "if retried then 0 else (1 :: nat)" arbitrary: retried s r s' rule: less_induct)
  case less
  obtain q s1 where q: "so_session (me_source M) key s = (q, s1)" by (cases "so_session (me_source M) key s")
  note u1 = source_idleD(2) [OF assms(1) q]
  note run = less.prems [unfolded with_retry_from.simps [of M key call retried s] q]
  show ?case
  proof (cases q)
    case (Inl e)
    then show ?thesis using run u1 by simp
  next
    case (Inr session)
    let ?W = "me_web M (mw_used s1)"
    show ?thesis
    proof (cases "with_session ?W DEFAULT_BASE_URL session")
      case (Inl e)
      then show ?thesis using run Inr u1 by (simp add: Let_def)
    next
      case 2: (Inr client)
      obtain a c where a: "call ?W client = (a, c)" by (cases "call ?W client")
      from sends_leaveD [OF assms(2) a] with_session_fresh [OF 2]
      have f: "length (filter leave_form (filed (vc_sent c))) \<le> n" by auto
      let ?u = "noted_use M key session c s1"
      have u: "\<exists>u. mw_used ?u = mw_used s @ [u] \<and> length (leave_forms [u]) \<le> n"
        using f u1 by (simp add: noted_use_def leave_forms_def)
      show ?thesis
      proof (cases "\<exists>e. a = Inl e \<and> stale e \<and> \<not> retried")
        case False
        then have "s' = ?u" using run Inr 2 a by (auto simp: Let_def split: sum.splits if_splits)
        then show ?thesis using u by fastforce
      next
        case True
        obtain x s2 where x: "so_expire (me_source M) key ?u = (x, s2)" by (cases "so_expire (me_source M) key ?u")
        note u2 = source_idleD(3) [OF assms(1) x]
        show ?thesis
        proof (cases x)
          case (Inl m)
          then have "s' = s2" using run \<open>q = Inr session\<close> 2 a True x by (auto simp: Let_def)
          then show ?thesis using u u2 by fastforce
        next
          case 3: (Inr y)
          then have "with_retry_from M key call True s2 = (r, s')"
            using run Inr 2 a True x by (auto simp: Let_def)
          from less.hyps [OF _ this] True obtain us where
            "mw_used s' = mw_used s2 @ us" "length (leave_forms us) \<le> n" by auto
          moreover from u obtain u' where "mw_used ?u = mw_used s @ [u']" "length (leave_forms [u']) \<le> n" by blast
          moreover have "\<not> retried" using True by blast
          ultimately show ?thesis using u2
            by (intro exI [of _ "[u'] @ us"]) (simp del: append.simps add: append_assoc)
        qed
      qed
    qed
  qed
qed

lemma acts_retry:
  assumes "source_idle (me_source M)" "\<And>W. sends_leave n (call W)" shows "acts (2 * n) (with_retry M key call)"
  unfolding with_retry_def by (rule actsI) (drule retry_acts [OF assms], simp)

lemma acts_retry_read:
  assumes "source_idle (me_source M)" "\<And>W. spares leave_form (call W)" shows "acts 0 (with_retry M key call)"
  using acts_retry [OF assms(1), of 0 call] spares_leave [OF assms(2)] by simp

lemma acts_answer: "acts n (answer r)" "acts n (\<lambda>s. (r' s, s))"
  by (auto simp: acts_def answer_def)

lemma acts_source: "source_idle src \<Longrightarrow> acts 0 (so_whoami src key)" "source_idle src \<Longrightarrow> acts 0 (so_session src key)"
  by (rule actsI, drule (1) source_idleD, simp)+

lemma acts_or_error:
  assumes "acts n m" "\<And>x. acts 0 (f x)" shows "acts n (or_error m f)"
proof (rule actsI)
  fix s r s'
  assume s: "or_error m f s = (r, s')"
  obtain a s1 where a: "m s = (a, s1)" by (cases "m s")
  from actsD [OF assms(1) a] obtain us where us: "mw_used s1 = mw_used s @ us" "length (leave_forms us) \<le> n" by blast
  show "\<exists>us. mw_used s' = mw_used s @ us \<and> length (leave_forms us) \<le> n"
  proof (cases a)
    case (Inl e)
    then show ?thesis using s a us by (auto simp: or_error_def)
  next
    case (Inr x)
    then have "f x s1 = (r, s')" using s a by (simp add: or_error_def)
    from actsD [OF assms(2) this] us show ?thesis by fastforce
  qed
qed

lemma acts_input: "(\<And>x. acts n (f x)) \<Longrightarrow> acts n (with_input parsed f)"
  by (auto simp: with_input_def intro: acts_answer split: sum.split)

lemma acts_caller: "(\<And>key. acts n (f key)) \<Longrightarrow> acts n (with_caller caller f)"
  by (auto simp: with_caller_def intro: acts_answer split: option.split)

lemma acts_split: "(\<And>a b. acts n (f a b)) \<Longrightarrow> acts n (case p of (a, b) \<Rightarrow> f a b)"
  by (simp add: case_prod_beta)

lemmas acts_intros = acts_answer acts_or_error acts_input acts_caller acts_split

lemma acts_fetch:
  assumes "source_idle (me_source M)"
  shows "(\<And>W. spares leave_form (call W)) \<Longrightarrow> acts 0 (tool_fetch M caller value call)"
    "(\<And>W. spares leave_form (call' W)) \<Longrightarrow> acts 0 (tool_fetch_file M caller uri call')"
  unfolding tool_fetch_def tool_fetch_file_def by (intro acts_intros acts_retry_read assms; simp)+

lemma acts_semesters:
  assumes "source_idle (me_source M)" shows "acts 0 (get_semesters M caller)"
proof -
  have "acts 0 (\<lambda>s. case so_whoami (me_source M) key s of (i, s) \<Rightarrow> (g i, s))" for key and g :: "_ \<Rightarrow> CallToolResult"
    using acts_source(1) [OF assms, of key] by (auto simp: acts_def split: prod.splits)
  then show ?thesis unfolding get_semesters_def Let_def
    by (intro acts_caller acts_or_error acts_retry_read assms reads_spare_leave)
qed

lemma acts_preview:
  assumes "source_idle (me_source M)"
  shows "acts 0 (preview_general M key ga)" "acts 0 (preview_weekend M key wa)" "acts 0 (preview_cancel M key kind ident)"
proof -
  have p: "acts 0 (\<lambda>s. case st of None \<Rightarrow> (n, s) | Some x \<Rightarrow> checked_request (ok s) (answer (res x s)) s)"
    for st :: "'x option" and n ok res
    by (auto simp: acts_def checked_request_def answer_def split: option.splits sum.splits)
  show "acts 0 (preview_general M key ga)"
    unfolding preview_general_def
    by (rule acts_or_error [OF acts_retry_read [OF assms spares_outing(1)]], rule p)
  show "acts 0 (preview_weekend M key wa)"
    unfolding preview_weekend_def
    by (rule acts_or_error [OF acts_retry_read [OF assms spares_outing(2)]], rule p)
  show "acts 0 (preview_cancel M key kind ident)"
    unfolding preview_cancel_def by (intro acts_intros acts_retry_read assms listed_spares)
qed

subsection \<open>What a tool asks for first\<close>

text \<open>The confirmation a call brings, and what it is to be a confirmation of.\<close>

fun confirmed_act :: "ToolCall \<Rightarrow> (string \<times> string \<times> string list) option" where
  "confirmed_act (ApplyGeneralOuting a) = (case (go_confirmation a, general_application a) of
     (Some code, Inr ga) \<Rightarrow> Some (code, ''apply_general_outing'', general_args ga) | _ \<Rightarrow> None)"
| "confirmed_act (ApplyWeekendOuting a) = (case (wq_confirmation a, weekend_application a) of
     (Some code, Inr wa) \<Rightarrow> Some (code, ''apply_weekend_outing'', weekend_args wa) | _ \<Rightarrow> None)"
| "confirmed_act (CancelOuting a) = (case (co_confirmation a, kind_and_id (co_kind a) (co_cancel_id a)) of
     (Some code, Inr (kind, ident)) \<Rightarrow> Some (code, ''cancel_outing'', [kind_name kind, ident]) | _ \<Rightarrow> None)"
| "confirmed_act _ = None"

lemma reads_never_act:
  assumes M: "source_idle (me_source M)"
    and "\<And>a. t \<noteq> ApplyGeneralOuting a" "\<And>a. t \<noteq> ApplyWeekendOuting a" "\<And>a. t \<noteq> CancelOuting a"
  shows "acts 0 (run_tool M t caller)"
proof (cases t)
  case (ApplyGeneralOuting a)
  with assms(2) show ?thesis by blast
next
  case (ApplyWeekendOuting a)
  with assms(3) show ?thesis by blast
next
  case (CancelOuting a)
  with assms(4) show ?thesis by blast
next
  case GetProfile
  have "spares leave_form (andthen (profile W (me_dom M)) (\<lambda>p. ret (for_agent p)))" for W :: "'a web"
    by (intro spares_andthen spares_leaf reads_spare_leave)
  then show ?thesis unfolding GetProfile run_tool.simps get_profile_def by (rule acts_fetch(1) [OF M])
qed (simp_all add: get_attendance_def get_full_attendance_def get_timetable_def get_marks_def
    get_exam_schedule_def get_grades_def get_grade_details_def get_grade_history_def get_biometric_def
    get_mentor_def get_academic_calendar_def get_courses_def get_course_classes_def get_course_detail_def
    get_course_file_def get_course_plan_def get_biometric_range_def get_general_outing_def get_weekend_outing_def
    get_session_def tool_whoami_def get_outing_pass_def acts_semesters M,
    (intro acts_input acts_split acts_caller acts_or_error acts_fetch acts_retry_read acts_source acts_answer M
      reads_spare_leave files_spare each_spares_leave spares_outing | simp)+)

text \<open>A tool that acts: the caller is let act, and its request was confirmed.\<close>

definition let_act :: "('j, 'd, 'e) mcp_env \<Rightarrow> ToolCall \<Rightarrow> string option \<Rightarrow> mcp_world \<Rightarrow> bool" where
  "let_act M t caller s \<longleftrightarrow> (\<exists>key identity s1 code action args. caller = Some key \<and>
     so_whoami (me_source M) key s = (Inr (Some identity), s1) \<and> iy_outings identity \<and>
     confirmed_act t = Some (code, action, args) \<and> check_confirmation M code key action args s1 = Inr ())"

lemma outing_tool_acts:
  assumes M: "source_idle (me_source M)"
    and run: "with_outing_caller M caller f s = (r, s')"
    and f: "\<And>key s r s'. f key s = (r, s') \<Longrightarrow> \<exists>us. mw_used s' = mw_used s @ us \<and> length (leave_forms us) \<le> 2 \<and>
      (leave_forms us \<noteq> [] \<longrightarrow> (\<exists>code action args. confirmed_act t = Some (code, action, args) \<and>
         check_confirmation M code key action args s = Inr ()))"
  shows "\<exists>us. mw_used s' = mw_used s @ us \<and> length (leave_forms us) \<le> 2 \<and> (leave_forms us \<noteq> [] \<longrightarrow> let_act M t caller s)"
proof (cases caller)
  case None
  then show ?thesis using run by (auto simp: with_outing_caller_def with_caller_def)
next
  case (Some key)
  obtain i s1 where i: "so_whoami (me_source M) key s = (i, s1)" by (cases "so_whoami (me_source M) key s")
  note u = source_idleD(1) [OF M i]
  show ?thesis
  proof (cases "\<exists>identity. i = Inr (Some identity) \<and> iy_outings identity")
    case False
    then have "s' = s1" using run Some i
      by (auto simp: with_outing_caller_def with_caller_def split: sum.splits option.splits if_splits)
    then show ?thesis using u by simp
  next
    case True
    then have "f key s1 = (r, s')" using run Some i by (auto simp: with_outing_caller_def with_caller_def)
    from f [OF this] u True Some i show ?thesis unfolding let_act_def by auto
  qed
qed

lemma request_acts:
  assumes "with_input parsed f s = (r, s')"
    and f: "\<And>x. f x = (case given of None \<Rightarrow> preview x | Some code \<Rightarrow> with_confirmation M code key action (args x) (m x))"
    and "\<And>x. acts 0 (preview x)" "\<And>x. acts 2 (m x)"
    and "\<And>x code. parsed = Inr x \<Longrightarrow> given = Some code \<Longrightarrow> confirmed_act t = Some (code, action, args x)"
  shows "\<exists>us. mw_used s' = mw_used s @ us \<and> length (leave_forms us) \<le> 2 \<and>
      (leave_forms us \<noteq> [] \<longrightarrow> (\<exists>code action args. confirmed_act t = Some (code, action, args) \<and>
         check_confirmation M code key action args s = Inr ()))"
proof (cases parsed)
  case (Inl e)
  then show ?thesis using assms(1) by (auto simp: with_input_def)
next
  case (Inr x)
  then have run: "f x s = (r, s')" using assms(1) by (simp add: with_input_def)
  show ?thesis
  proof (cases given)
    case None
    then have "preview x s = (r, s')" using run f by simp
    from actsD [OF assms(3) this] show ?thesis by auto
  next
    case (Some code)
    show ?thesis
    proof (cases "check_confirmation M code key action (args x) s")
      case (Inl e)
      then show ?thesis using run f Some by (auto simp: with_confirmation_def)
    next
      case 2: (Inr y)
      then have "m x s = (r, s')" using run f Some by (simp add: with_confirmation_def)
      from actsD [OF assms(4) this] 2 assms(5) [OF Inr Some] show ?thesis by auto
    qed
  qed
qed

lemma cancel_request:
  "(case x of (kind, ident) \<Rightarrow> case co_confirmation a of None \<Rightarrow> preview_cancel M key kind ident
     | Some code \<Rightarrow> with_confirmation M code key ''cancel_outing'' [kind_name kind, ident]
         (or_error (with_retry M key (cancel_listed (me_dom M) kind ident)) (\<lambda>r.
           answer (json_result M (OutingCancelResult_value r))))) =
   (case co_confirmation a of None \<Rightarrow> preview_cancel M key (fst x) (snd x)
     | Some code \<Rightarrow> with_confirmation M code key ''cancel_outing'' [kind_name (fst x), snd x]
         (or_error (with_retry M key (cancel_listed (me_dom M) (fst x) (snd x))) (\<lambda>r.
           answer (json_result M (OutingCancelResult_value r)))))"
  by (simp add: split_beta)

text \<open>C21: Of all the tools only the three for outings send VTOP a form that files a request for leave or takes one
  back, and they only if the bridge says, asked anew, that the student lets this key act, and if the
  call brings a confirmation code that is good for exactly its own request.  One call sends at most
  two: one, and after a failure that may be the session's another, over a fresh session.\<close>

theorem acts_only_confirmed:
  assumes "me_source M = CachedSessions (BridgeClient E base_url) keep" and "run_tool M t caller s = (r, s')"
  shows "\<exists>us. mw_used s' = mw_used s @ us \<and> length (leave_forms us) \<le> 2 \<and>
    (leave_forms us \<noteq> [] \<longrightarrow> let_act M t caller s)"
proof -
  have M: "source_idle (me_source M)" unfolding assms(1) by (rule server_idle)
  have act: "acts 2 (or_error (with_retry M key call) (\<lambda>x. answer (g x)))"
    if "\<And>W. sends_leave 1 (call W)" for key g and call :: "'a web \<Rightarrow> ('a VtopClient, 'x) act"
    using acts_or_error [OF acts_retry [OF M that] acts_answer(1)] by simp
  show ?thesis
  proof (cases t)
    case (ApplyGeneralOuting a)
    show ?thesis
      by (rule outing_tool_acts [OF M assms(2) [unfolded ApplyGeneralOuting run_tool.simps tool_apply_general_def]],
          erule request_acts, rule refl, rule acts_preview(1) [OF M], rule act, rule file_sends_leave)
         (simp add: ApplyGeneralOuting)
  next
    case (ApplyWeekendOuting a)
    show ?thesis
      by (rule outing_tool_acts [OF M assms(2) [unfolded ApplyWeekendOuting run_tool.simps tool_apply_weekend_def]],
          erule request_acts, rule refl, rule acts_preview(2) [OF M], rule act, rule file_sends_leave)
         (simp add: ApplyWeekendOuting)
  next
    case (CancelOuting a)
    show ?thesis
      by (rule outing_tool_acts [OF M assms(2) [unfolded CancelOuting run_tool.simps tool_cancel_outing_def]],
          erule request_acts, rule cancel_request, rule acts_preview(3) [OF M], rule act, rule file_sends_leave)
         (simp add: CancelOuting split_beta)
  qed (use actsD [OF reads_never_act [OF M] assms(2)] in fastforce)+
qed

text \<open>A call whose code was made for it files a form.\<close>

abbreviation toy_leave :: GeneralOutingApplication where
  "toy_leave \<equiv> \<lparr>ga_place = ''city'', ga_purpose = ''books'', ga_out_date = ''11-Oct-2026'',
     ga_out_time = \<lparr>ot_hour = 10, ot_minute = 0\<rparr>, ga_in_date = ''11-Oct-2026'', ga_in_time = \<lparr>ot_hour = 18, ot_minute = 30\<rparr>\<rparr>"

definition toy_apply :: ToolCall where
  "toy_apply = ApplyGeneralOuting \<lparr>go_place = ''city'', go_purpose = ''books'', go_out_date = ''11-Oct-2026'',
     go_out_time = ''10:00'', go_in_date = ''11-Oct-2026'', go_in_time = ''18:30'',
     go_confirmation = Some (confirmation_code (me_sha toy_mcp) ''k'' ''apply_general_outing'' (general_args toy_leave) 700)\<rparr>"

lemma toy_times: "outing_time ''10:00'' = Inr \<lparr>ot_hour = 10, ot_minute = 0\<rparr>" "outing_time ''18:30'' = Inr \<lparr>ot_hour = 18, ot_minute = 30\<rparr>"
proof -
  have s: "split_once CHR '':'' (trim ''10:00'') = Some (''10'', ''00'')" "split_once CHR '':'' (trim ''18:30'') = Some (''18'', ''30'')"
    by code_simp+
  have n: "parse_u8 ''10'' = Some 10" "parse_u8 ''00'' = Some 0" "parse_u8 ''18'' = Some 18" "parse_u8 ''30'' = Some 30"
    by (simp_all add: parse_u8_def parse_uint_def parse_digits_def is_digit_def char_code_def digits_val_def digit_val_def)
  have "OutingTime_new 10 0 = Inr \<lparr>ot_hour = 10, ot_minute = 0\<rparr>" "OutingTime_new 18 30 = Inr \<lparr>ot_hour = 18, ot_minute = 30\<rparr>"
    by code_simp+
  then show "outing_time ''10:00'' = Inr \<lparr>ot_hour = 10, ot_minute = 0\<rparr>" "outing_time ''18:30'' = Inr \<lparr>ot_hour = 18, ot_minute = 30\<rparr>"
    unfolding outing_time_def s by (simp_all add: n)
qed

lemma toy_application: "general_application \<lparr>go_place = ''city'', go_purpose = ''books'', go_out_date = ''11-Oct-2026'',
     go_out_time = ''10:00'', go_in_date = ''11-Oct-2026'', go_in_time = ''18:30'', go_confirmation = c\<rparr> = Inr toy_leave"
proof -
  have "trim ''11-Oct-2026'' = ''11-Oct-2026''" "words ''city'' = ''city''" "words ''books'' = ''books''" by code_simp+
  moreover have "OutingDate_parse ''11-Oct-2026'' = Inr ''11-Oct-2026''"
    using outing_parse_iff sample_date by blast
  ultimately show ?thesis by (simp add: general_application_def toy_times)
qed

lemma toy_filed: "\<exists>x c. file_general outing_dom toy_leave (toy_web (\<lambda>_. Inr toy_page)) toy_signed_in = (Inr x, c) \<and>
  filter leave_form (filed (vc_sent c)) \<noteq> []"
proof -
  let ?W = "toy_web (\<lambda>_. Inr toy_page)"
  obtain g c1 where g: "general_outing ?W outing_dom toy_signed_in = (g, c1)" by (cases "general_outing ?W outing_dom toy_signed_in")
  have "case fst (general_outing ?W outing_dom toy_signed_in) of Inl e \<Rightarrow> False | Inr form \<Rightarrow> gd_records form = []" by code_simp
  then obtain form where form: "g = Inr form" "gd_records form = []" using g by (cases g) auto
  obtain r c where a: "apply_general_outing ?W outing_dom toy_leave c1 = (r, c)"
    by (cases "apply_general_outing ?W outing_dom toy_leave c1")
  have "case apply_general_outing ?W outing_dom toy_leave (snd (general_outing ?W outing_dom toy_signed_in)) of
      (Inl _, c) \<Rightarrow> False | (Inr x, c) \<Rightarrow> filter leave_form (filed (vc_sent c)) \<noteq> []" by code_simp
  then have "(\<exists>x. r = Inr x) \<and> filter leave_form (filed (vc_sent c)) \<noteq> []" using g a by (cases r) simp_all
  moreover have "file_general outing_dom toy_leave ?W toy_signed_in = (r, c)"
    using g form a by (simp add: file_general_def andthen_ok)
  ultimately show ?thesis by blast
qed

theorem acts_only_confirmed_witness:
  "let_act toy_mcp toy_apply (Some ''k'') mcp_start \<and>
   leave_forms (mw_used (snd (run_tool toy_mcp toy_apply (Some ''k'') mcp_start))) \<noteq> []"
proof -
  let ?code = "confirmation_code (me_sha toy_mcp) ''k'' ''apply_general_outing'' (general_args toy_leave) 700"
  obtain r s' where run: "run_tool toy_mcp toy_apply (Some ''k'') mcp_start = (r, s')"
    by (cases "run_tool toy_mcp toy_apply (Some ''k'') mcp_start")
  from acts_only_confirmed [OF toy_source run] obtain us where
    us: "mw_used s' = mw_used mcp_start @ us" "leave_forms us \<noteq> [] \<longrightarrow> let_act toy_mcp toy_apply (Some ''k'') mcp_start"
    by blast
  let ?s = "asked_now \<lparr>bq_post = False, bq_path = ''b/v1/whoami'', bq_key = ''k''\<rparr> mcp_start"
  have i: "\<exists>i. identity_of (body_of toy_edge (Some [])) = Some i \<and> iy_outings i"
    by (simp add: body_of_def toy_edge_def identity_of_def j_field_def)
  have env: "me_web toy_mcp = (\<lambda>_. toy_web (\<lambda>_. Inr toy_page))" "me_dom toy_mcp = outing_dom"
    "me_unix toy_mcp = (\<lambda>ms. ms div 1000)" by (simp_all add: toy_mcp_def)
  have "check_confirmation toy_mcp ?code ''k'' ''apply_general_outing'' (general_args toy_leave) ?s = Inr ()"
    by (rule long_lived_code) (simp_all add: env mcp_start_def)
  moreover obtain x c where f: "file_general outing_dom toy_leave (toy_web (\<lambda>_. Inr toy_page)) toy_signed_in = (Inr x, c)"
    "filter leave_form (filed (vc_sent c)) \<noteq> []" using toy_filed by blast
  ultimately have "leave_forms (mw_used s') \<noteq> []"
    using run i by (auto simp: toy_apply_def tool_apply_general_def with_outing_caller_def with_caller_def toy_sources
      with_input_def toy_application with_confirmation_def or_error_def answer_def with_retry_def with_retry_from.simps
      mcp_start_def env toy_with_session Let_def noted_use_def leave_forms_def)
  then show ?thesis using us run by (simp add: mcp_start_def)
qed

end
