(* ===== verification/Spec2Isabelle.thy ===== *)
theory Spec2Isabelle
  imports GatewayProps ClientClaims WireClaims ServerClaims InputClaims OtpClaims OutingClaims BridgeClaims PageClaims McpActs
begin

text \<open>
  A model of the Rust program of vitap-mate (\<^verbatim>\<open>src/rust\<close>): the student app's VTOP client, the
  gateway that carries VTOP pages over UDP, and the formats and seals they share with the control
  plane.

  \<^bold>\<open>The parts.\<close>  The phone (\<^verbatim>\<open>vtop-wire/client.rs\<close>) asks a gateway (\<^verbatim>\<open>vtop-wire/gateway.rs\<close>,
  \<^verbatim>\<open>vtop-gateway/lib.rs\<close>) for pages in sealed datagrams (\<^verbatim>\<open>frame.rs\<close>, \<^verbatim>\<open>msg.rs\<close>) with an erasure
  code (\<^verbatim>\<open>fec.rs\<close>) whose repair follows the estimates of the link (\<^verbatim>\<open>link.rs\<close>).  Inside are page
  requests and answers (\<^verbatim>\<open>vtop-shared/wire_page.rs\<close>, \<^verbatim>\<open>page_dictionary.rs\<close>).  Phone and gateway both
  fetch with the VTOP client (\<^verbatim>\<open>vtop-core\<close>): session, sign-in with CAPTCHA and emailed code, signed-in
  requests, outings.  The engine's messages, mail boxes and vault (\<^verbatim>\<open>vtop-shared\<close>, \<^verbatim>\<open>vtop-bridge\<close>)
  carry sessions and codes between them.

  \<^bold>\<open>Foundations.\<close>  \<^theory_text>\<open>Prelude\<close> (words, association lists, outcomes, the locale of a machine),
  \<^theory_text>\<open>Bytes\<close> (fields of a message, with the locales of formats), \<^theory_text>\<open>F64\<close>, \<^theory_text>\<open>FloatText\<close>, \<^theory_text>\<open>Text\<close> and
  \<^theory_text>\<open>StdData\<close> (what is used of the standard library), \<^theory_text>\<open>Samples\<close> (concrete parameters for witnesses),
  \<^theory_text>\<open>CoreBase\<close> (errors and steps of the VTOP client, weakest preconditions, the locale of a step
  system).

  \<^bold>\<open>The wire.\<close>  \<^theory_text>\<open>Frame\<close>, \<^theory_text>\<open>Msg\<close>, \<^theory_text>\<open>Fec\<close>, \<^theory_text>\<open>Repair\<close>, \<^theory_text>\<open>Link\<close> model the files of these names.
  \<^theory_text>\<open>WireGateway\<close> is the gateway's protocol machine; \<^theory_text>\<open>GatewayState\<close>, \<^theory_text>\<open>GatewayInv\<close>, \<^theory_text>\<open>GatewayBurst\<close>,
  \<^theory_text>\<open>GatewayRun\<close>, \<^theory_text>\<open>GatewayLedger\<close> and \<^theory_text>\<open>GatewayProps\<close> prove its invariant over all runs, what it sends
  and at what cost (a ledger of bytes per session, direct packets included), that nothing replayed is
  acted on, and where it panics.  \<^theory_text>\<open>WireClient\<close> and \<^theory_text>\<open>WireFetch\<close> are the client's exchange,
  handshake and fetch; \<^theory_text>\<open>ClientProps\<close>, \<^theory_text>\<open>ClientClaims\<close> prove that counters are never used twice and
  that only authentic symbols are decoded.  \<^theory_text>\<open>WireClaims\<close> holds the properties of the layers, and this
  theory the one from end to end.

  \<^bold>\<open>Pages and seals.\<close>  \<^theory_text>\<open>WirePage\<close>, \<^theory_text>\<open>EngineTypes\<close>, \<^theory_text>\<open>MailSeal\<close> (with the vault) model \<^verbatim>\<open>vtop-shared\<close>;
  \<^theory_text>\<open>SealClaims\<close> proves that boxes and vault open exactly.  \<^theory_text>\<open>GatewayServer\<close> is the server around the
  machine; \<^theory_text>\<open>ServerProps\<close>, \<^theory_text>\<open>ServerClaims\<close> its invariant, the isolation of devices and the reuse of
  sessions.

  \<^bold>\<open>The VTOP client.\<close>  \<^theory_text>\<open>Inputs\<close> (\<^verbatim>\<open>inputs.rs\<close>), \<^theory_text>\<open>Session\<close> (\<^verbatim>\<open>session.rs\<close>), \<^theory_text>\<open>Web\<close> and \<^theory_text>\<open>VtopClient\<close>
  (\<^verbatim>\<open>client/mod.rs\<close>, \<^verbatim>\<open>auth.rs\<close>, \<^verbatim>\<open>parser/page.rs\<close>), \<^theory_text>\<open>Login\<close> (\<^verbatim>\<open>auth.rs\<close>, \<^verbatim>\<open>otp.rs\<close>, \<^verbatim>\<open>email_otp.rs\<close>),
  \<^theory_text>\<open>HostelPages\<close> (\<^verbatim>\<open>parser/hostel.rs\<close>), \<^theory_text>\<open>Fetchers\<close> (the other modules under \<^verbatim>\<open>client\<close>), \<^theory_text>\<open>Outings\<close>
  (\<^verbatim>\<open>client/hostel.rs\<close>).  \<^theory_text>\<open>PagesAcademic\<close>, \<^theory_text>\<open>PagesGrades\<close> and \<^theory_text>\<open>PagesCourses\<close> are the other parsers
  (\<^verbatim>\<open>vtop-core/src/parser\<close>) over the elements that selectors find, \<^theory_text>\<open>PageValues\<close> the data as JSON
  (\<^verbatim>\<open>types.rs\<close>) and the methods that fetch and parse, \<^theory_text>\<open>PageClaims\<close> what holds of marks and
  calendars.  \<^theory_text>\<open>ClientFacts\<close> gives the weakest precondition of a request and counts requests; \<^theory_text>\<open>LoginProps\<close>, \<^theory_text>\<open>SignIn\<close>, \<^theory_text>\<open>OtpProps\<close>, \<^theory_text>\<open>ClientRun\<close> carry the invariant through every
  operation; \<^theory_text>\<open>VtopClaims\<close>, \<^theory_text>\<open>SessionClaims\<close>, \<^theory_text>\<open>OtpClaims\<close>, \<^theory_text>\<open>OutingClaims\<close>, \<^theory_text>\<open>InputClaims\<close> hold the
  properties: what a signed-in session rests on, how a sign-in ends, what a request does to the
  session, that a code is confirmed by VTOP alone, that an outing is filed once, that dates are the
  calendar's.

  \<^bold>\<open>The engine.\<close>  \<^theory_text>\<open>Gmail\<close> (\<^verbatim>\<open>vtop-core/gmail.rs\<close>), \<^theory_text>\<open>Bridge\<close>, \<^theory_text>\<open>BridgeEngine\<close> and \<^theory_text>\<open>BridgeFetch\<close> model
  \<^verbatim>\<open>vtop-bridge\<close>: whose a session is, sealing credentials and signing in with them, the codes from
  forwarded mail and from Gmail, phones' own sign-ins, page fetches and the router.  A handler is a
  function of its request, of the settings and of what the edge, VTOP and Google answer to the
  requests sent so far; it tells which requests it sent.  \<^theory_text>\<open>GmailClaims\<close>, \<^theory_text>\<open>BridgeProps\<close>,
  \<^theory_text>\<open>BridgeSent\<close> and \<^theory_text>\<open>BridgeClaims\<close> prove that nothing happens without the shared secret, that an account is only ever
  named by VTOP, that a sign-in serves its own account, ends and is reported, what it sends to
  the edge, and where a code comes from.

  \<^bold>\<open>The MCP server.\<close>  \<^theory_text>\<open>McpBridge\<close> (\<^verbatim>\<open>vtop-mcp/bridge.rs\<close>, \<^verbatim>\<open>lib.rs\<close>, \<^verbatim>\<open>config.rs\<close>) asks the engine
  for the session of an agent's key; \<^theory_text>\<open>McpTools\<close> (\<^verbatim>\<open>tools.rs\<close>) and \<^theory_text>\<open>McpOutings\<close> (\<^verbatim>\<open>outings.rs\<close>) are
  the tools over a borrowed session.  \<^theory_text>\<open>McpSessions\<close> has the trait behind which the session comes from
  as the locale \<open>session_source\<close>, extended by \<open>cached_sessions\<close> for the cache of keys and of sessions, with an
  interpretation on both of the code's sources.  \<^theory_text>\<open>McpDates\<close> proves the civil dates of the tools inverse to
  day numbers; \<^theory_text>\<open>McpClaims\<close> what is masked and what a confirmation covers and for how long, \<^theory_text>\<open>McpCallers\<close> that a
  tool acts on its caller's session only, \<^theory_text>\<open>McpActs\<close> that it files an outing only if let to and confirmed.
  One tool runs at a time.

  \<^bold>\<open>Parameters.\<close>  Code that is not in the repository is an argument: the AEAD, Noise, SHA-256,
  X25519, HKDF, base64, Reed-Solomon, Brotli, serde's JSON, reqwest and its cookie jar, URLs, HTML
  selectors, the image model of the CAPTCHA, Unicode case tables, the clock and HTTP itself.  What is
  relied on of them is a named hypothesis (for instance \<open>aead_ok\<close>, \<open>rs_ok\<close>), with a concrete instance
  in a witness.  HTTP answers by the list of all requests sent so far, and a clock by how often it was
  read, so that nothing is assumed of how answers or readings depend on each other.

  \<^bold>\<open>Bounds.\<close>  Loops are structural or have a measure: redirects are followed at most 10 times, CAPTCHA
  attempts are 40 with 20 reloads each.  The loops that wait for codes end only by the clock; they are
  partial functions, and that they return is proved from the clock passing every instant.
  The exchange of the wire runs on a list of events.

  \<^bold>\<open>Choices.\<close>  Hash maps are association lists, read in list order; counters wrap as in a release
  build; one reading of the clock per turn of the server's loop; one caller of a client at a time,
  without its locks; texts of some errors of the engine are shortened; log lines, default headers and
  the pause before a retry are left out.  In \<open>check_weekend_outing\<close> the clock is read before the
  first check.  Whether a time limit of the engine cuts a sign-in or a fetch, and where, is an argument
  of its handler.  Sums of seconds that the code keeps in 64 bits are exact.
  \<open>pace\<close>, \<open>working_after\<close> and \<open>next_symbol\<close> are total where the code's conversion or remainder could
  panic; the claim on panics shows that it never does.  AES-GCM's error of encrypting, which needs
  64 GiB, is left out of \<open>seal_with\<close>, and tidying a mailbox up after a sign-in is not in
  \<open>login_with_gmail_otp\<close> but in the engine's sign-in.

  \<^bold>\<open>Not modelled.\<close>  Sockets, name resolution, files of keys, task spawning and logging; the CAPTCHA's image model;
  the set-up of the MCP server's HTTP, its prompts and the descriptions of its tools; the app's
  bindings; the control plane in TypeScript and the Flutter app.
\<close>

section \<open>Across components\<close>

text \<open>
  The packets of a burst as the client reads them: whatever opens as a symbol of the request is
  a genuine symbol of the body, under its own index, and declares the body's size.
\<close>

lemma burst_packet_data:
  assumes "aead_ok A" "k_recv K = k_send S" "req = rq_req_id hints"
    and "p = seal A S T_DATA sid c (data_encode (symbol_data hints k n len j sb))"
    and "data_for A K req p = Some d"
  shows "d_k d = k" "d_total d = n" "(d_sym d, d_bytes d) = sb"
  using assms(3-5) open_seal [OF assms(1,2), of T_DATA sid c]
  by (auto simp: data_for_def data_decode_encode symbol_data_def split: if_splits)

text \<open>
  C1: End to end.  The application answers a pending request of a gateway that any run led to;
  the client asked it under the same keys.  Whatever datagrams then reach the client, in any
  order, lost or repeated, mixed with others, as long as those that open as symbols of its
  request are among what the gateway queued with the answer: when the exchange ends, the client
  has the application's answer, byte for byte.  Later bursts have a claim of their own.
\<close>

theorem end_to_end:
  assumes inv: "gw_inv C g" and aead: "aead_ok (c_aead C)" and len: "length body \<le> MAX_RESPONSE"
    and rs: "rs_ok (c_rs C) (fst (shape (length body))) (repair_pool (fst (shape (length body)))) (padded_symbols body)"
    and sess: "map_of (g_sessions g) (tk_sid token) = Some s"
    and pend: "map_of (s_responses s) (tk_req_id token) = Some (Pending t hints rounds)"
    and resp: "respond C g token body now = Return g'"
    and x: "k_recv (x_keys x) = k_send (s_keys s)" "x_req_id x = tk_req_id token" "x_got x = []"
    and net: "\<forall>p \<in> set (arrived evs). data_for (c_aead C) (x_keys x) (x_req_id x) p \<noteq> None \<longrightarrow>
        p \<in> q_packet ` set (drop (length (g_queue g)) (g_queue g'))"
    and ends: "x_events (c_aead C) (c_rs C) x evs = Enough b x'"
  shows "b = Some body"
proof -
  let ?A = "c_aead C" and ?k = "fst (shape (length body))"
  have id: "rq_req_id hints = tk_req_id token"
    using gw_inv_session [OF inv sess] map_of_SomeD [OF pend] by (auto simp: session_ok_def)
  obtain data repair where enc: "fec_encode (c_rs C) body = Some (data, repair)"
    using rs by (auto simp: fec_encode_def Let_def rs_ok_def)
  note shape = fec_encode_shape [OF enc len rs]
  define syms where "syms = burst_symbols hints True ?k data repair 0"
  obtain outs where q: "g_queue g' = g_queue g @ outs" and n: "length outs = length syms"
    and pk: "\<And>j. j < length outs \<Longrightarrow> q_packet (outs ! j) = seal ?A (s_keys s) T_DATA (tk_sid token)
        (s_ctr s + of_nat j) (data_encode (symbol_data hints (of_nat ?k) (of_nat (length body))
          (of_nat (length outs)) j (syms ! j)))"
    using resp unfolding syms_def
    by (rule_tac respond_Pending [OF sess pend id len enc, of now]) (auto simp: set_session_def)
  have sent: "(d_sym d, d_bytes d) \<in> set syms \<and> d_k d = of_nat ?k \<and> d_total d = of_nat (length body)"
    if "p \<in> set (arrived evs)" and d: "data_for ?A (x_keys x) (x_req_id x) p = Some d" for p d
  proof -
    have "p \<in> q_packet ` set outs" using that net q by auto
    then obtain j where j: "j < length outs" "p = q_packet (outs ! j)"
      by (metis imageE in_set_conv_nth)
    show ?thesis
      using burst_packet_data [OF aead x(1) _ j(2) [unfolded pk [OF j(1)]] d] x(2) id j(1) n by simp
  qed
  have "x_sound ?A (x_keys x) (x_req_id x) (arrived evs) x" using x(3) by (simp add: x_sound_def)
  from x_events_Enough [OF this order_refl ends] obtain p d where
    sound: "x_sound ?A (x_keys x) (x_req_id x) (arrived evs) x'"
    and p: "p \<in> set (arrived evs)" "data_for ?A (x_keys x) (x_req_id x) p = Some d"
    and got: "unat (d_k d) \<le> length (x_got x')" "b = fec_decode (c_rs C) (unat (d_total d)) (x_got x')"
    by blast
  have "genuine_symbol data repair sb" if "sb \<in> set (x_got x')" for sb
  proof -
    have "sb \<in> set syms" using sound that sent by (force simp: x_sound_def)
    then show ?thesis
      using shape burst_symbols_genuine [of sb hints True data repair 0] by (simp add: syms_def)
  qed
  then have "genuine data repair (x_got x')" using sound by (simp add: genuine_iff x_sound_def)
  moreover have "unat (d_k d) = ?k" "unat (d_total d) = length body" "length body < 2 ^ 16"
    using sent [OF p] shape len by (simp_all add: fec_sizes unat_of_nat take_bit_nat_eq_self)
  ultimately show ?thesis using fec_decode_recovers [OF rs enc] got by simp
qed

text \<open>One data symbol under any counter ends the exchange of a one-symbol answer.\<close>

lemma exchange0_takes:
  assumes "d_req_id d = 7" "d_k d = 1"
  shows "\<exists>b x'. x_events plain_aead repeat_rs exchange0
    [Arrive [] 0 0 (seal plain_aead (s_keys sess0) T_DATA 9 c (data_encode d))] = Enough b x'"
proof -
  let ?p = "seal plain_aead (s_keys sess0) T_DATA 9 c (data_encode d)"
  have "open_packet plain_aead phone_keys ?p = Some \<lparr>o_ptype = T_DATA, o_sid = 9, o_ctr = c, o_plain = data_encode d\<rparr>"
    by (rule open_seal) (simp_all add: plain_aead_ok)
  moreover have "\<not> x_is_reset exchange0 ?p"
    by (simp add: x_is_reset_def exchange0_def x_start_new_def x_loop_def)
  ultimately show ?thesis
    using assms by (simp add: x_packet_def exchange0_def x_start_new_def x_loop_def data_not_working
        data_decode_encode x_symbol_def Let_def x_keep_symbol_def x_learn_rate_def)
qed

theorem end_to_end_witness:
  "\<exists>g' evs b x'. respond toy gw1 token0 [42] 5 = Return g' \<and> evs \<noteq> [] \<and>
     x_events plain_aead repeat_rs exchange0 evs = Enough b x' \<and> b = Some [42]"
proof -
  have sh: "shape (length [42 :: u8]) = (1, 2)" by (simp add: shape_def div_ceil_def SYMBOL_def)
  then have pad: "padded_symbols [42] = [[42, 0]]" "data_symbols [42] = [[42]]"
    by (simp_all add: padded_symbols_def data_symbols_def resize_def SYMBOL_def)
  have rs: "rs_ok (c_rs toy) (fst (shape (length [42 :: u8]))) (repair_pool (fst (shape (length [42 :: u8]))))
      (padded_symbols [42])"
    using repeat_rs_ok sh pad by simp
  then obtain data repair where enc: "fec_encode (c_rs toy) [42] = Some (data, repair)"
    by (auto simp: fec_encode_def Let_def rs_ok_def)
  have len: "length [42 :: u8] \<le> MAX_RESPONSE" by (simp add: fec_sizes)
  have sess: "map_of (g_sessions gw1) (tk_sid token0) = Some sess0" by (simp add: token0_def)
  have pend: "map_of (s_responses sess0) (tk_req_id token0) = Some (Pending 0 first_req {0})"
    by (simp add: sess0_def token0_def)
  have id: "rq_req_id first_req = tk_req_id token0" by (simp add: first_req_def token0_def)
  define syms where "syms = burst_symbols first_req True 1 data repair 0"
  note shape = fec_encode_shape [OF enc len rs]
  obtain s2 outs where
    r: "respond toy gw1 token0 [42] 5 = Return ((set_session (tk_sid token0) s2 gw1)
       \<lparr>g_working := filter (\<lambda>(_, t). t \<noteq> token0) (g_working gw1), g_queue := g_queue gw1 @ outs\<rparr>)"
    and n: "length outs = length syms"
    and pk: "\<And>j. j < length outs \<Longrightarrow> q_packet (outs ! j) = seal (c_aead toy) (s_keys sess0) T_DATA (tk_sid token0)
        (s_ctr sess0 + of_nat j) (data_encode (symbol_data first_req (of_nat 1) (of_nat (length [42 :: u8]))
          (of_nat (length outs)) j (syms ! j)))"
    unfolding syms_def by (rule respond_Pending [OF sess pend id len enc, of 5]) (use sh in simp)
  have "0 < length outs"
    using n shape sh first_burst_data(1) [of 0 data first_req 1 repair 0] by (simp add: syms_def)
  then have p0: "q_packet (outs ! 0) = seal plain_aead (s_keys sess0) T_DATA 9 (s_ctr sess0 + of_nat 0)
      (data_encode (symbol_data first_req (of_nat 1) (of_nat (length [42 :: u8])) (of_nat (length outs)) 0 (syms ! 0)))"
    using pk [of 0] by (simp add: token0_def)
  define evs where "evs = [Arrive [] 0 0 (q_packet (outs ! 0))]"
  obtain b x' where e: "x_events plain_aead repeat_rs exchange0 evs = Enough b x'"
    using exchange0_takes unfolding evs_def p0 by (metis (no_types, lifting) Data.select_convs(1,3) first_req_def
        Req.select_convs(1) of_nat_1 symbol_data_def)
  have "b = Some [42]"
    by (rule end_to_end [OF gw1_inv _ len rs sess pend r, of exchange0 evs b x'])
      (use e \<open>0 < length outs\<close> in \<open>simp_all add: plain_aead_ok exchange0_def x_start_new_def x_loop_def token0_def
        evs_def set_session_def gw1_def gw_new_def\<close>)
  moreover have "evs \<noteq> []" by (simp add: evs_def)
  ultimately show ?thesis using r e by blast
qed

end
